(* ===== verification/Prelude.thy ===== *)
theory Prelude
  imports Main "HOL-Library.AList"
begin

text \<open>
  Generic material the component theories share: results with an error side, Python lists
  and dictionaries, and the collections of rules the component proofs draw on. Nothing in
  this theory models a particular source file.

  A call that can raise returns \<open>'e + 'a\<close>: \<open>Inl\<close> is the exception, \<open>Inr\<close> the value.
  \<open>bindE\<close> is the sequencing Python's call stack gives for free, and \<open>mapE\<close> the
  list comprehension whose element expression may raise.
\<close>

section \<open>Collections of rules\<close>

named_theorems resE \<open>rewriting rules for results with an error side\<close>
named_theorems pystr \<open>facts on Python's string methods\<close>
named_theorems tables \<open>unfolding rules of the constant tables of the source\<close>

section \<open>Results\<close>

definition bindE :: "'e + 'a \<Rightarrow> ('a \<Rightarrow> 'e + 'b) \<Rightarrow> 'e + 'b" where
  "bindE m f = (case m of Inl e \<Rightarrow> Inl e | Inr x \<Rightarrow> f x)"

lemma bindE_simps [simp, resE]:
  "bindE (Inl e) f = Inl e"
  "bindE (Inr x) f = f x"
  by (simp_all add: bindE_def)

lemma bindE_cong [fundef_cong]:
  "m = m' \<Longrightarrow> (\<And>x. m' = Inr x \<Longrightarrow> f x = g x) \<Longrightarrow> bindE m f = bindE m' g"
  by (cases m') (auto simp: bindE_def)

lemma bindE_eq_Inr_iff: "bindE m f = Inr y \<longleftrightarrow> (\<exists>x. m = Inr x \<and> f x = Inr y)"
  by (cases m) auto

lemma bindE_eq_Inl_iff: "bindE m f = Inl e \<longleftrightarrow> m = Inl e \<or> (\<exists>x. m = Inr x \<and> f x = Inl e)"
  by (cases m) auto

lemmas bindE_iffs = bindE_eq_Inr_iff bindE_eq_Inl_iff

lemma bindE_Inr_E [elim]:
  assumes "bindE m f = Inr y"
  obtains x where "m = Inr x" and "f x = Inr y"
  using assms by (auto simp: bindE_iffs)

fun mapE :: "('a \<Rightarrow> 'e + 'b) \<Rightarrow> 'a list \<Rightarrow> 'e + 'b list" where
  "mapE f [] = Inr []"
| "mapE f (x # xs) = bindE (f x) (\<lambda>y. bindE (mapE f xs) (\<lambda>ys. Inr (y # ys)))"

lemma mapE_cong [fundef_cong]:
  "xs = ys \<Longrightarrow> (\<And>x. x \<in> set ys \<Longrightarrow> f x = g x) \<Longrightarrow> mapE f xs = mapE g ys"
  by (induction ys arbitrary: xs) auto

lemma mapE_Inr_iff: "mapE f xs = Inr ys \<longleftrightarrow> list_all2 (\<lambda>x y. f x = Inr y) xs ys"
  by (induction xs arbitrary: ys) (auto simp: bindE_iffs list_all2_Cons1)

lemma mapE_map_Inr [simp]: "(\<And>x. x \<in> set xs \<Longrightarrow> f x = Inr (g x)) \<Longrightarrow> mapE f xs = Inr (map g xs)"
  by (induction xs) auto

lemma mapE_length: "mapE f xs = Inr ys \<Longrightarrow> length ys = length xs"
  by (auto simp: mapE_Inr_iff dest: list_all2_lengthD)

lemma mapE_mem: "mapE f xs = Inr ys \<Longrightarrow> y \<in> set ys \<Longrightarrow> \<exists>x \<in> set xs. f x = Inr y"
  by (induction xs arbitrary: ys) (auto simp: bindE_iffs)

lemma mapE_image: "mapE f xs = Inr ys \<Longrightarrow> x \<in> set xs \<Longrightarrow> \<exists>y \<in> set ys. f x = Inr y"
  by (induction xs arbitrary: ys) (auto simp: bindE_iffs)

lemma mapE_error: "mapE f xs = Inl e \<Longrightarrow> \<exists>x \<in> set xs. f x = Inl e"
  by (induction xs) (auto simp: bindE_iffs)

fun foldE :: "('a \<Rightarrow> 's \<Rightarrow> 'e + 's) \<Rightarrow> 'a list \<Rightarrow> 's \<Rightarrow> 'e + 's" where
  "foldE f [] s = Inr s"
| "foldE f (x # xs) s = bindE (f x s) (foldE f xs)"

lemma foldE_append: "foldE f (xs @ ys) s = bindE (foldE f xs s) (foldE f ys)"
  by (induction xs arbitrary: s) (auto simp: bindE_def split: sum.splits)

lemma foldE_invariant:
  assumes "foldE f xs s = Inr t" and "I s"
    and "\<And>x a b. x \<in> set xs \<Longrightarrow> I a \<Longrightarrow> f x a = Inr b \<Longrightarrow> I b"
  shows "I t"
  using assms by (induction xs arbitrary: s) (auto simp: bindE_iffs)

section \<open>Dictionaries\<close>

text \<open>
  A Python \<open>dict\<close> keeps insertion order, so it is an association list with distinct keys:
  \<open>map_of\<close> is \<open>d.get\<close>, \<open>AList.update\<close> is \<open>d[k] = v\<close> (in place for a known key, at the end
  for a new one) and \<open>AList.delete\<close> is \<open>d.pop(k, None)\<close>.
\<close>

type_synonym ('k, 'v) dict = "('k \<times> 'v) list"

abbreviation dict_ok :: "('k, 'v) dict \<Rightarrow> bool" where
  "dict_ok d \<equiv> distinct (map fst d)"

abbreviation dget :: "('k, 'v) dict \<Rightarrow> 'k \<Rightarrow> 'v option" where
  "dget d k \<equiv> map_of d k"

abbreviation dset :: "'k \<Rightarrow> 'v \<Rightarrow> ('k, 'v) dict \<Rightarrow> ('k, 'v) dict" where
  "dset k v d \<equiv> AList.update k v d"

abbreviation ddel :: "'k \<Rightarrow> ('k, 'v) dict \<Rightarrow> ('k, 'v) dict" where
  "ddel k d \<equiv> AList.delete k d"

definition dhas :: "('k, 'v) dict \<Rightarrow> 'k \<Rightarrow> bool" where
  "dhas d k = list_ex (\<lambda>p. fst p = k) d"

lemma dhas_iff: "dhas d k \<longleftrightarrow> k \<in> fst ` set d"
  by (auto simp: dhas_def list_ex_iff)

lemma dhas_map_of: "dhas d k \<longleftrightarrow> map_of d k \<noteq> None"
  by (auto simp: dhas_iff map_of_eq_None_iff)

definition dsetdefault :: "'k \<Rightarrow> 'v \<Rightarrow> ('k, 'v) dict \<Rightarrow> ('k, 'v) dict" where
  "dsetdefault k v d = (if dhas d k then d else d @ [(k, v)])"

lemma map_of_dsetdefault:
  "map_of (dsetdefault k v d) j =
     (if j = k then Some (case map_of d k of None \<Rightarrow> v | Some w \<Rightarrow> w) else map_of d j)"
  by (auto simp: dsetdefault_def dhas_map_of map_of_append map_add_def split: option.splits)

lemma dict_ok_dsetdefault: "dict_ok d \<Longrightarrow> dict_ok (dsetdefault k v d)"
  by (auto simp: dsetdefault_def dhas_iff)

lemma dict_ok_dset: "dict_ok d \<Longrightarrow> dict_ok (dset k v d)"
  by (rule distinct_update)

lemma dget_dset: "map_of (dset k v d) j = (if j = k then Some v else map_of d j)"
  by (simp add: update_conv)

lemma dget_ddel: "map_of (ddel k d) j = (if j = k then None else map_of d j)"
  by (simp add: delete_conv)

lemma dict_ok_ddel: "dict_ok d \<Longrightarrow> dict_ok (ddel k d)"
  by (rule distinct_delete)

section \<open>Lists\<close>

text \<open>\<open>find_index\<close> is \<open>xs.index(x)\<close> as an option.\<close>

fun index_of :: "'a \<Rightarrow> 'a list \<Rightarrow> nat option" where
  "index_of x [] = None"
| "index_of x (y # ys) = (if x = y then Some 0 else map_option Suc (index_of x ys))"

lemma index_of_None [simp]: "index_of x xs = None \<longleftrightarrow> x \<notin> set xs"
  by (induction xs) auto

lemma index_of_Some:
  "index_of x xs = Some i \<Longrightarrow> i < length xs \<and> xs ! i = x \<and> x \<notin> set (take i xs)"
  by (induction xs arbitrary: i) (auto split: if_splits)

lemma index_of_append_Cons: "x \<notin> set xs \<Longrightarrow> index_of x (xs @ x # ys) = Some (length xs)"
  by (induction xs) auto

text \<open>The positions that satisfy a test: \<open>[i for i, t in enumerate(xs) if p(t)]\<close>.\<close>

definition positions :: "('a \<Rightarrow> bool) \<Rightarrow> 'a list \<Rightarrow> nat list" where
  "positions p xs = map fst (filter (p \<circ> snd) (enumerate 0 xs))"

lemma positions_aux:
  "filter (p \<circ> snd) (enumerate n (xs @ ys)) =
   filter (p \<circ> snd) (enumerate n xs) @ filter (p \<circ> snd) (enumerate (n + length xs) ys)"
  by (induction xs arbitrary: n) auto

lemma positions_none: "\<forall>x \<in> set xs. \<not> p x \<Longrightarrow> filter (p \<circ> snd) (enumerate n xs) = []"
  by (induction xs arbitrary: n) auto

lemma positions_single:
  assumes "\<forall>x \<in> set xs. \<not> p x" and "p y" and "\<forall>x \<in> set ys. \<not> p x"
  shows "positions p (xs @ y # ys) = [length xs]"
  using assms by (simp add: positions_def positions_aux positions_none)

lemma positions_bound_aux:
  "i \<in> set (map fst (filter (p \<circ> snd) (enumerate n xs))) \<Longrightarrow>
     n \<le> i \<and> i < n + length xs \<and> p (xs ! (i - n))"
proof (induction xs arbitrary: n)
  case Nil
  then show ?case by simp
next
  case (Cons x xs)
  show ?case
  proof (cases "i = n \<and> p x")
    case True
    then show ?thesis by simp
  next
    case False
    with Cons.prems have "i \<in> set (map fst (filter (p \<circ> snd) (enumerate (Suc n) xs)))"
      by (auto split: if_splits)
    from Cons.IH[OF this] show ?thesis
      by (auto simp: nth_Cons split: nat.splits)
        (metis Suc_diff_Suc diff_Suc_Suc less_eq_Suc_le old.nat.inject)+
  qed
qed

lemma positions_bound: "i \<in> set (positions p xs) \<Longrightarrow> i < length xs \<and> p (xs ! i)"
  using positions_bound_aux[of i p 0 xs] by (simp add: positions_def)

section \<open>Contract: a printer and the parser that reads it back\<close>

text \<open>
  Several modules keep one canonical text for a value and re-read it later: a guard condition
  in the IR, a duration, an instant, a pagination cursor. What their clients rely on is that
  the reader accepts what the printer writes and gives the same value back, and that
  everything the reader returns is printable.
\<close>

locale codec =
  fixes print_of :: "'a \<Rightarrow> 's"
    and read_of :: "'s \<Rightarrow> 'e + 'a"
    and wf_of :: "'a \<Rightarrow> bool"
  assumes read_print: "wf_of a \<Longrightarrow> read_of (print_of a) = Inr a"
    and read_wf: "read_of s = Inr a \<Longrightarrow> wf_of a"
begin

lemma print_inject: "wf_of a \<Longrightarrow> wf_of b \<Longrightarrow> print_of a = print_of b \<longleftrightarrow> a = b"
  by (metis read_print sum.inject(2))

text \<open>Reading what was printed from a value that was itself read changes nothing.\<close>

lemma reread: "read_of s = Inr a \<Longrightarrow> read_of (print_of a) = Inr a"
  by (blast intro: read_print read_wf)

text \<open>Normalising a text is idempotent.\<close>

lemma normalise_twice:
  assumes "read_of s = Inr a" and "read_of (print_of a) = Inr b"
  shows "print_of b = print_of a"
  using assms reread[OF assms(1)] by simp

text \<open>Two texts have the same meaning exactly when they normalise to the same text.\<close>

lemma same_meaning_iff:
  assumes "read_of s = Inr a" and "read_of t = Inr b"
  shows "a = b \<longleftrightarrow> print_of a = print_of b"
  using assms read_wf print_inject by blast

end

end
