(* ===== verification/PyStr.thy ===== *)
theory PyStr
  imports Prelude
begin

text \<open>
  The string methods of Python that the modelled modules call. A string is a list of code
  points below 256 (Latin-1): the program reads arbitrary Unicode text, and this is the part
  of it on which every predicate below is written out exactly as CPython classifies the code
  point. That range holds the cases where Python's classes differ from ASCII intuition:
  \<open>str.isdigit\<close> holds for the superscripts 178, 179 and 185, which \<open>int\<close> then rejects, and
  \<open>str.isalnum\<close> and \<open>str.islower\<close> hold for accented letters.
\<close>

section \<open>Character classes\<close>

definition ord :: "char \<Rightarrow> nat" where
  "ord c = of_char c"

definition is_space :: "char \<Rightarrow> bool" where
  "is_space c = ((9 \<le> ord c \<and> ord c \<le> 13) \<or> (28 \<le> ord c \<and> ord c \<le> 32) \<or> ord c = 133 \<or> ord c = 160)"

definition is_line_break :: "char \<Rightarrow> bool" where
  "is_line_break c = ((10 \<le> ord c \<and> ord c \<le> 13) \<or> (28 \<le> ord c \<and> ord c \<le> 30) \<or> ord c = 133)"

definition is_decimal_c :: "char \<Rightarrow> bool" where
  "is_decimal_c c = (48 \<le> ord c \<and> ord c \<le> 57)"

definition is_digit_c :: "char \<Rightarrow> bool" where
  "is_digit_c c = (is_decimal_c c \<or> ord c = 178 \<or> ord c = 179 \<or> ord c = 185)"

definition is_lower_c :: "char \<Rightarrow> bool" where
  "is_lower_c c = ((97 \<le> ord c \<and> ord c \<le> 122) \<or> ord c = 170 \<or> ord c = 181 \<or> ord c = 186
     \<or> (223 \<le> ord c \<and> ord c \<le> 246) \<or> 248 \<le> ord c)"

definition is_alnum_c :: "char \<Rightarrow> bool" where
  "is_alnum_c c = (is_digit_c c \<or> (65 \<le> ord c \<and> ord c \<le> 90) \<or> (97 \<le> ord c \<and> ord c \<le> 122)
     \<or> ord c = 170 \<or> ord c = 181 \<or> ord c = 186 \<or> (188 \<le> ord c \<and> ord c \<le> 190)
     \<or> (192 \<le> ord c \<and> ord c \<le> 214) \<or> (216 \<le> ord c \<and> ord c \<le> 246) \<or> 248 \<le> ord c)"

lemmas char_class_defs = is_space_def is_line_break_def is_digit_c_def is_decimal_c_def
  is_lower_c_def is_alnum_c_def

lemma ord_less_256: "ord c < 256"
  by (simp add: ord_def)

lemma ord_inject: "ord c = ord d \<longleftrightarrow> c = d"
  by (simp add: ord_def)

text \<open>Membership tests for evaluation.\<close>

lemma ord_mem: "ord c \<in> ord ` A \<longleftrightarrow> c \<in> A"
  by (auto simp: ord_inject)

lemma is_space_code [code]: "is_space c \<longleftrightarrow> c \<in> set [CHR 0x09, CHR 0x0A, CHR 0x0B, CHR 0x0C, CHR 0x0D, CHR 0x1C, CHR 0x1D, CHR 0x1E, CHR 0x1F, CHR 0x20, CHR 0x85, CHR 0xA0]"
proof -
  have "is_space c \<longleftrightarrow> ord c \<in> {9, 10, 11, 12, 13, 28, 29, 30, 31, 32, 133, 160}" by (auto simp: is_space_def)
  also have "\<dots> \<longleftrightarrow> ord c \<in> ord ` set [CHR 0x09, CHR 0x0A, CHR 0x0B, CHR 0x0C, CHR 0x0D, CHR 0x1C, CHR 0x1D, CHR 0x1E, CHR 0x1F, CHR 0x20, CHR 0x85, CHR 0xA0]" by (simp add: ord_def)
  finally show ?thesis unfolding ord_mem .
qed

lemma is_line_break_code [code]: "is_line_break c \<longleftrightarrow> c \<in> set [CHR 0x0A, CHR 0x0B, CHR 0x0C, CHR 0x0D, CHR 0x1C, CHR 0x1D, CHR 0x1E, CHR 0x85]"
proof -
  have "is_line_break c \<longleftrightarrow> ord c \<in> {10, 11, 12, 13, 28, 29, 30, 133}" by (auto simp: is_line_break_def)
  also have "\<dots> \<longleftrightarrow> ord c \<in> ord ` set [CHR 0x0A, CHR 0x0B, CHR 0x0C, CHR 0x0D, CHR 0x1C, CHR 0x1D, CHR 0x1E, CHR 0x85]" by (simp add: ord_def)
  finally show ?thesis unfolding ord_mem .
qed

lemma is_decimal_c_code [code]: "is_decimal_c c \<longleftrightarrow> c \<in> set [CHR 0x30, CHR 0x31, CHR 0x32, CHR 0x33, CHR 0x34, CHR 0x35, CHR 0x36, CHR 0x37, CHR 0x38, CHR 0x39]"
proof -
  have "is_decimal_c c \<longleftrightarrow> ord c \<in> {48, 49, 50, 51, 52, 53, 54, 55, 56, 57}" unfolding is_decimal_c_def insert_iff empty_iff by presburger
  also have "\<dots> \<longleftrightarrow> ord c \<in> ord ` set [CHR 0x30, CHR 0x31, CHR 0x32, CHR 0x33, CHR 0x34, CHR 0x35, CHR 0x36, CHR 0x37, CHR 0x38, CHR 0x39]" by (simp add: ord_def)
  finally show ?thesis unfolding ord_mem .
qed

lemma digit_not_space [pystr]: "is_digit_c c \<Longrightarrow> \<not> is_space c"
  by (auto simp: char_class_defs)

lemma decimal_digit [pystr]: "is_decimal_c c \<Longrightarrow> is_digit_c c"
  by (simp add: char_class_defs)

lemma lower_not_digit [pystr]: "is_lower_c c \<Longrightarrow> \<not> is_digit_c c"
  by (auto simp: char_class_defs)

lemma alnum_not_space [pystr]: "is_alnum_c c \<Longrightarrow> \<not> is_space c"
  by (auto simp: char_class_defs)

lemma digit_alnum [pystr]: "is_digit_c c \<Longrightarrow> is_alnum_c c"
  by (simp add: is_alnum_c_def)

section \<open>isdigit, strip, split, join\<close>

definition str_isdigit :: "string \<Rightarrow> bool" where
  "str_isdigit s = (s \<noteq> [] \<and> list_all is_digit_c s)"

definition strip_by :: "(char \<Rightarrow> bool) \<Rightarrow> string \<Rightarrow> string" where
  "strip_by p s = rev (dropWhile p (rev (dropWhile p s)))"

definition strip :: "string \<Rightarrow> string" where
  "strip s = strip_by is_space s"

definition lstrip :: "string \<Rightarrow> string" where
  "lstrip s = dropWhile is_space s"

text \<open>\<open>s.split()\<close>: runs of non-whitespace, the current run kept reversed in \<open>acc\<close>.\<close>

fun split_acc :: "string \<Rightarrow> string \<Rightarrow> string list" where
  "split_acc acc [] = (if acc = [] then [] else [rev acc])"
| "split_acc acc (c # cs) =
     (if is_space c
      then (if acc = [] then split_acc [] cs else rev acc # split_acc [] cs)
      else split_acc (c # acc) cs)"

definition split_ws :: "string \<Rightarrow> string list" where
  "split_ws s = split_acc [] s"

text \<open>\<open>sep.join(ws)\<close>.\<close>

fun join :: "'a list \<Rightarrow> 'a list list \<Rightarrow> 'a list" where
  "join sep [] = []"
| "join sep [w] = w"
| "join sep (w # v # ws) = w @ sep @ join sep (v # ws)"

abbreviation join_sp :: "string list \<Rightarrow> string" where
  "join_sp \<equiv> join '' ''"

definition good_token :: "string \<Rightarrow> bool" where
  "good_token t \<longleftrightarrow> t \<noteq> [] \<and> (\<forall>c \<in> set t. \<not> is_space c)"

lemma good_tokenI [pystr]: "t \<noteq> [] \<Longrightarrow> (\<And>c. c \<in> set t \<Longrightarrow> \<not> is_space c) \<Longrightarrow> good_token t"
  by (simp add: good_token_def)

lemma split_acc_run:
  "\<forall>c \<in> set t. \<not> is_space c \<Longrightarrow> split_acc acc (t @ s) = split_acc (rev t @ acc) s"
  by (induction t arbitrary: acc) auto

lemma is_space_blank [simp]: "is_space CHR '' ''"
  by (simp add: is_space_def ord_def)

lemma split_acc_join:
  "\<forall>t \<in> set ts. good_token t \<Longrightarrow> split_acc [] (join_sp ts) = ts"
proof (induction ts rule: induct_list012)
  case 1
  then show ?case by simp
next
  case (2 t)
  then show ?case
    using split_acc_run[of t "[]" "[]"] by (simp add: good_token_def)
next
  case (3 t u ts)
  then have "split_acc [] (t @ '' '' @ join_sp (u # ts)) = split_acc (rev t) ('' '' @ join_sp (u # ts))"
    using split_acc_run[of t "[]"] by (simp add: good_token_def)
  with 3 show ?case by (simp add: good_token_def)
qed

lemma split_join [pystr]: "\<forall>t \<in> set ts. good_token t \<Longrightarrow> split_ws (join_sp ts) = ts"
  by (simp add: split_ws_def split_acc_join)

lemma split_acc_good:
  "\<forall>c \<in> set acc. \<not> is_space c \<Longrightarrow> t \<in> set (split_acc acc s) \<Longrightarrow> good_token t"
proof (induction s arbitrary: acc)
  case Nil
  then show ?case by (auto simp: good_token_def split: if_splits)
next
  case (Cons c cs)
  show ?case
  proof (cases "is_space c")
    case True
    with Cons.prems have "t = rev acc \<and> acc \<noteq> [] \<or> t \<in> set (split_acc [] cs)"
      by (auto split: if_splits)
    with Cons.prems Cons.IH[of "[]"] show ?thesis by (auto simp: good_token_def)
  next
    case False
    with Cons.prems Cons.IH[of "c # acc"] show ?thesis by simp
  qed
qed

lemma split_good [pystr]: "t \<in> set (split_ws s) \<Longrightarrow> good_token t"
  unfolding split_ws_def by (rule split_acc_good) auto

lemma split_chars_acc: "t \<in> set (split_acc acc s) \<Longrightarrow> c \<in> set t \<Longrightarrow> c \<in> set acc \<or> c \<in> set s"
  by (induction acc s rule: split_acc.induct) (auto split: if_splits)

lemma split_chars: "t \<in> set (split_ws s) \<Longrightarrow> c \<in> set t \<Longrightarrow> c \<in> set s"
  using split_chars_acc[of t "[]" s c] by (simp add: split_ws_def)

lemma split_acc_Nil_iff: "split_acc acc s = [] \<longleftrightarrow> acc = [] \<and> (\<forall>c \<in> set s. is_space c)"
  by (induction acc s rule: split_acc.induct) auto

lemma split_Nil_iff: "split_ws s = [] \<longleftrightarrow> (\<forall>c \<in> set s. is_space c)"
  by (simp add: split_ws_def split_acc_Nil_iff)

lemma strip_by_Nil_iff: "strip_by p s = [] \<longleftrightarrow> (\<forall>c \<in> set s. p c)"
proof
  assume "strip_by p s = []"
  then have "\<forall>c \<in> set (dropWhile p s). p c" by (simp add: strip_by_def dropWhile_eq_Nil_conv)
  moreover have "\<forall>c \<in> set (takeWhile p s). p c" by (auto dest: set_takeWhileD)
  ultimately have "\<forall>c \<in> set (takeWhile p s @ dropWhile p s). p c"
    unfolding set_append by blast
  then show "\<forall>c \<in> set s. p c" by simp
next
  assume "\<forall>c \<in> set s. p c"
  then show "strip_by p s = []"
    by (auto simp: strip_by_def dropWhile_eq_Nil_conv dest: set_dropWhileD)
qed

lemma split_Nil_strip: "split_ws s = [] \<longleftrightarrow> strip s = []"
  by (simp add: split_Nil_iff strip_def strip_by_Nil_iff)

lemma split_acc_lead: "\<forall>c \<in> set u. is_space c \<Longrightarrow> split_acc [] (u @ s) = split_acc [] s"
  by (induction u) auto

lemma split_acc_trail: "\<forall>c \<in> set u. is_space c \<Longrightarrow> split_acc acc (s @ u) = split_acc acc s"
proof (induction acc s rule: split_acc.induct)
  case (1 acc)
  then show ?case using split_acc_lead[of u "[]"] by (cases u) auto
next
  case (2 acc c cs)
  then show ?case by simp
qed

lemma split_strip [simp]: "split_ws (strip s) = split_ws s"
proof -
  let ?d = "dropWhile is_space s"
  have "split_ws s = split_acc [] (takeWhile is_space s @ ?d)" by (simp add: split_ws_def)
  also have "\<dots> = split_acc [] ?d" by (rule split_acc_lead) (auto dest: set_takeWhileD)
  also have "?d = rev (dropWhile is_space (rev ?d)) @ rev (takeWhile is_space (rev ?d))"
    by (simp flip: rev_append)
  also have "split_acc [] \<dots> = split_acc [] (rev (dropWhile is_space (rev ?d)))"
    by (rule split_acc_trail) (auto dest: set_takeWhileD)
  finally show ?thesis by (simp add: strip_def strip_by_def split_ws_def)
qed

section \<open>Lines\<close>

definition drop_lf :: "string \<Rightarrow> string" where
  "drop_lf s = (case s of [] \<Rightarrow> [] | d # r \<Rightarrow> if ord d = 10 then r else s)"

lemma drop_lf_length [termination_simp]: "length (drop_lf s) \<le> length s"
  by (simp add: drop_lf_def split: list.splits)

text \<open>\<open>s.splitlines()\<close>: a carriage return swallows the line feed after it; no empty last line.\<close>

fun splitlines_acc :: "string \<Rightarrow> string \<Rightarrow> string list" where
  "splitlines_acc acc [] = (if acc = [] then [] else [rev acc])"
| "splitlines_acc acc (c # cs) =
     (if is_line_break c
      then rev acc # splitlines_acc [] (if ord c = 13 then drop_lf cs else cs)
      else splitlines_acc (c # acc) cs)"

definition splitlines :: "string \<Rightarrow> string list" where
  "splitlines s = splitlines_acc [] s"

lemma splitlines_acc_run:
  "\<forall>c \<in> set t. \<not> is_line_break c \<Longrightarrow> splitlines_acc acc (t @ s) = splitlines_acc (rev t @ acc) s"
  by (induction t arbitrary: acc) auto

lemma splitlines_no_break:
  "l \<in> set (splitlines_acc acc s) \<Longrightarrow> \<forall>c \<in> set acc. \<not> is_line_break c \<Longrightarrow>
     \<forall>c \<in> set l. \<not> is_line_break c"
  by (induction acc s rule: splitlines_acc.induct) (auto split: if_splits)

lemma splitlines_cons_line:
  assumes "\<forall>c \<in> set t. \<not> is_line_break c"
  shows "splitlines (t @ CHR 0x0A # s) = t # splitlines s"
proof -
  have "splitlines_acc [] (t @ CHR 0x0A # s) = splitlines_acc (rev t) (CHR 0x0A # s)"
    using splitlines_acc_run[OF assms, of "[]" "CHR 0x0A # s"] by simp
  then show ?thesis by (simp add: splitlines_def is_line_break_def ord_def)
qed

lemma splitlines_acc_chars:
  "r \<in> set (splitlines_acc acc s) \<Longrightarrow> c \<in> set r \<Longrightarrow> c \<in> set acc \<or> c \<in> set s"
proof (induction acc s rule: splitlines_acc.induct)
  case (2 acc d cs)
  have "c \<in> set (drop_lf cs) \<Longrightarrow> c \<in> set cs" by (auto simp: drop_lf_def split: list.splits if_splits)
  with 2 show ?case by (auto split: if_splits)
qed (auto split: if_splits)

lemma splitlines_chars: "r \<in> set (splitlines s) \<Longrightarrow> c \<in> set r \<Longrightarrow> c \<in> set s"
  unfolding splitlines_def using splitlines_acc_chars by fastforce

lemma split_acc_length: "t \<in> set (split_acc acc s) \<Longrightarrow> length t \<le> length acc + length s"
  by (induction acc s rule: split_acc.induct) (fastforce split: if_splits)+

lemma split_length: "t \<in> set (split_ws s) \<Longrightarrow> length t \<le> length s"
  unfolding split_ws_def using split_acc_length by fastforce

section \<open>Splitting at a character, suffixes, replacement\<close>

text \<open>
  \<open>s.split(sep)\<close> for a one-character separator, and the same loop over a token list: the
  result is never empty.
\<close>

fun split_on :: "'a \<Rightarrow> 'a list \<Rightarrow> 'a list list" where
  "split_on sep [] = [[]]"
| "split_on sep (c # cs) =
     (if c = sep then [] # split_on sep cs
      else (case split_on sep cs of [] \<Rightarrow> [[c]] | w # ws \<Rightarrow> (c # w) # ws))"

lemma split_on_not_Nil [simp]: "split_on sep s \<noteq> []"
  by (induction s) (auto split: list.splits)

lemma split_on_absent: "sep \<notin> set s \<Longrightarrow> split_on sep s = [s]"
  by (induction s) auto

lemma split_on_append: "sep \<notin> set s \<Longrightarrow> split_on sep (s @ sep # t) = s # split_on sep t"
  by (induction s) auto

lemma split_on_chars: "w \<in> set (split_on sep s) \<Longrightarrow> set w \<subseteq> set s - {sep}"
proof (induction s arbitrary: w)
  case Nil
  then show ?case by simp
next
  case (Cons c cs)
  obtain v vs where "split_on sep cs = v # vs"
    using split_on_not_Nil[of sep cs] by (metis list.exhaust)
  with Cons show ?case by (auto split: if_splits) fastforce+
qed

lemma split_on_join: "join [sep] (split_on sep s) = s"
proof (induction s)
  case Nil
  then show ?case by simp
next
  case (Cons c cs)
  obtain v vs where v: "split_on sep cs = v # vs"
    using split_on_not_Nil[of sep cs] by (metis list.exhaust)
  with Cons show ?case by (cases vs) auto
qed

lemma split_on_join_id:
  "ws \<noteq> [] \<Longrightarrow> \<forall>w \<in> set ws. sep \<notin> set w \<Longrightarrow> split_on sep (join [sep] ws) = ws"
  by (induction ws rule: induct_list012) (auto simp: split_on_absent split_on_append)

lemma join_chars: "c \<in> set (join sep ws) \<Longrightarrow> c \<in> set sep \<or> (\<exists>w \<in> set ws. c \<in> set w)"
  by (induction ws rule: induct_list012) auto

text \<open>\<open>s.partition(c)\<close>: the part before, whether \<open>c\<close> was found, the part after.\<close>

definition partition_at :: "char \<Rightarrow> string \<Rightarrow> string \<times> bool \<times> string" where
  "partition_at c s = (takeWhile (\<lambda>d. d \<noteq> c) s, c \<in> set s, tl (dropWhile (\<lambda>d. d \<noteq> c) s))"

lemma partition_absent: "c \<notin> set s \<Longrightarrow> partition_at c s = (s, False, [])"
proof -
  assume "c \<notin> set s"
  then have "\<forall>d \<in> set s. d \<noteq> c" by auto
  then have d: "dropWhile (\<lambda>d. d \<noteq> c) s = []" and t: "takeWhile (\<lambda>d. d \<noteq> c) s = s"
    by (simp_all add: dropWhile_eq_Nil_conv takeWhile_eq_all_conv)
  from \<open>c \<notin> set s\<close> show ?thesis unfolding partition_at_def d t by simp
qed

lemma partition_append: "c \<notin> set s \<Longrightarrow> partition_at c (s @ c # t) = (s, True, t)"
proof -
  assume "c \<notin> set s"
  then have "\<forall>d \<in> set s. d \<noteq> c" by auto
  then show ?thesis by (simp add: partition_at_def takeWhile_append2 dropWhile_append2)
qed

definition endswith :: "string \<Rightarrow> string \<Rightarrow> bool" where
  "endswith s suf = (length suf \<le> length s \<and> drop (length s - length suf) s = suf)"

definition drop_suffix :: "string \<Rightarrow> string \<Rightarrow> string" where
  "drop_suffix s suf = take (length s - length suf) s"

lemma endswith_append [simp]: "endswith (s @ t) t"
  by (simp add: endswith_def)

lemma drop_suffix_append [simp]: "drop_suffix (s @ t) t = s"
  by (simp add: drop_suffix_def)

lemma endswith_drop_suffix: "endswith s t \<Longrightarrow> s = drop_suffix s t @ t"
  by (metis append_take_drop_id drop_suffix_def endswith_def)

text \<open>\<open>s.count("{}")\<close> and \<open>s.replace("{}", part, 1)\<close>.\<close>

fun count_holes :: "string \<Rightarrow> nat" where
  "count_holes [] = 0"
| "count_holes [c] = 0"
| "count_holes (c # d # s) =
     (if c = CHR ''{'' \<and> d = CHR ''}'' then Suc (count_holes s) else count_holes (d # s))"

fun fill_hole :: "string \<Rightarrow> string \<Rightarrow> string" where
  "fill_hole part [] = []"
| "fill_hole part [c] = [c]"
| "fill_hole part (c # d # s) =
     (if c = CHR ''{'' \<and> d = CHR ''}'' then part @ s else c # fill_hole part (d # s))"

end
