(* ===== verification/PyNum.thy ===== *)
theory PyNum
  imports PyStr
begin

text \<open>
  Decimal text: \<open>str\<close> of an integer, and \<open>int\<close> of a string as CPython 3.11 reads it (ASCII
  and Latin-1 whitespace stripped, one optional sign, single underscores between digits, at
  most 4300 digits; anything else is a \<open>ValueError\<close>, here \<open>None\<close>).
\<close>

section \<open>Digits to numbers\<close>

definition digits_val :: "string \<Rightarrow> nat" where
  "digits_val s = foldl (\<lambda>n c. 10 * n + (ord c - 48)) 0 s"

definition digit_char :: "nat \<Rightarrow> char" where
  "digit_char n = ''0123456789'' ! n"

fun show_nat :: "nat \<Rightarrow> string" where
  "show_nat n = (if n < 10 then [digit_char n]
                 else show_nat (n div 10) @ [digit_char (n mod 10)])"

declare show_nat.simps [simp del]

definition show_int :: "int \<Rightarrow> string" where
  "show_int k = (if k < 0 then CHR ''-'' # show_nat (nat (- k)) else show_nat (nat k))"

lemma less_10_cases: "(n::nat) < 10 \<Longrightarrow> n \<in> {0, 1, 2, 3, 4, 5, 6, 7, 8, 9}"
  by auto

lemma ord_digit_char: "n < 10 \<Longrightarrow> ord (digit_char n) = 48 + n"
  by (drule less_10_cases) (auto simp: digit_char_def ord_def)

lemma digit_char_decimal: "n < 10 \<Longrightarrow> is_decimal_c (digit_char n)"
  by (simp add: is_decimal_c_def ord_digit_char)

lemma digits_val_snoc: "digits_val (s @ [c]) = 10 * digits_val s + (ord c - 48)"
  by (simp add: digits_val_def)

lemma digits_val_show [simp]: "digits_val (show_nat n) = n"
proof (induction n rule: show_nat.induct)
  case (1 n)
  show ?case
  proof (cases "n < 10")
    case True
    then show ?thesis
      by (simp add: show_nat.simps[of n] digits_val_def ord_digit_char)
  next
    case False
    with 1 show ?thesis
      by (simp add: show_nat.simps[of n] digits_val_snoc ord_digit_char)
  qed
qed

lemma digits_val_zeros: "digits_val (replicate n CHR ''0'' @ s) = digits_val s"
proof (induction n)
  case (Suc n)
  then show ?case by (simp add: digits_val_def ord_def)
qed simp

lemma show_nat_decimal: "c \<in> set (show_nat n) \<Longrightarrow> is_decimal_c c"
proof (induction n rule: show_nat.induct)
  case (1 n)
  then show ?case
    by (cases "n < 10") (auto simp: show_nat.simps[of n] digit_char_decimal)
qed

lemma show_nat_not_Nil [simp]: "show_nat n \<noteq> []"
  by (simp add: show_nat.simps[of n])

lemma show_nat_isdigit: "str_isdigit (show_nat n)"
  by (auto simp: str_isdigit_def list_all_iff dest: show_nat_decimal decimal_digit)

lemma show_nat_inject [simp]: "show_nat m = show_nat n \<longleftrightarrow> m = n"
  by (metis digits_val_show)

lemma show_nat_length: "n < 10 ^ k \<Longrightarrow> 0 < k \<Longrightarrow> length (show_nat n) \<le> k"
proof (induction k arbitrary: n)
  case 0
  then show ?case by simp
next
  case (Suc k)
  show ?case
  proof (cases "n < 10")
    case True
    then show ?thesis by (simp add: show_nat.simps[of n])
  next
    case False
    with Suc.prems have "0 < k" by (cases k) auto
    moreover have "n div 10 < 10 ^ k" using Suc.prems by (simp add: less_mult_imp_div_less)
    ultimately show ?thesis using False Suc.IH[of "n div 10"]
      by (simp add: show_nat.simps[of n])
  qed
qed

lemma show_nat_no_zero_lead:
  "0 < n \<Longrightarrow> hd (show_nat n) \<noteq> CHR ''0''"
proof (induction n rule: show_nat.induct)
  case (1 n)
  show ?case
  proof (cases "n < 10")
    case True
    with 1 show ?thesis
      by (auto simp: show_nat.simps[of n] digit_char_def dest!: less_10_cases)
  next
    case False
    with 1 show ?thesis by (simp add: show_nat.simps[of n])
  qed
qed

section \<open>int() of a digit string\<close>

text \<open>
  \<open>sys.int_info.default_max_str_digits\<close>: \<open>int\<close> of a longer digit string raises \<open>ValueError\<close>.
\<close>

definition max_str_digits :: nat where
  "max_str_digits = 4300"

text \<open>\<open>int(s)\<close> where the caller has already seen \<open>s.isdigit()\<close>.\<close>

definition int_of_digits :: "string \<Rightarrow> nat option" where
  "int_of_digits s =
     (if list_all is_decimal_c s \<and> length s \<le> max_str_digits then Some (digits_val s) else None)"

lemma int_of_digits_show:
  "n < 10 ^ 19 \<Longrightarrow> int_of_digits (show_nat n) = Some n"
  using show_nat_length[of n 19]
  by (auto simp: int_of_digits_def list_all_iff max_str_digits_def show_nat_decimal)

section \<open>int() of any string\<close>

definition int_space_c :: "char \<Rightarrow> bool" where
  "int_space_c c = ((9 \<le> ord c \<and> ord c \<le> 13) \<or> ord c = 32 \<or> ord c = 133 \<or> ord c = 160)"

fun scan_digits :: "bool \<Rightarrow> string \<Rightarrow> string option" where
  "scan_digits prev [] = (if prev then Some [] else None)"
| "scan_digits prev (c # cs) =
     (if is_decimal_c c then map_option ((#) c) (scan_digits True cs)
      else if c = CHR ''_'' \<and> prev then scan_digits False cs
      else None)"

definition split_sign :: "string \<Rightarrow> int \<times> string" where
  "split_sign s = (case s of [] \<Rightarrow> (1, [])
     | c # r \<Rightarrow> if c = CHR ''-'' then (-1, r) else if c = CHR ''+'' then (1, r) else (1, s))"

definition py_int :: "string \<Rightarrow> int option" where
  "py_int s = (let (sg, body) = split_sign (strip_by int_space_c s) in
     case scan_digits False body of
       None \<Rightarrow> None
     | Some ds \<Rightarrow> if length ds \<le> max_str_digits then Some (sg * int (digits_val ds)) else None)"

lemma scan_digits_decimal:
  "\<forall>c \<in> set s. is_decimal_c c \<Longrightarrow> s \<noteq> [] \<or> prev \<Longrightarrow> scan_digits prev s = Some s"
  by (induction prev s rule: scan_digits.induct) auto

lemma strip_by_id: "\<forall>c \<in> set s. \<not> p c \<Longrightarrow> strip_by p s = s"
proof -
  assume a: "\<forall>c \<in> set s. \<not> p c"
  then have d: "dropWhile p s = s" by (cases s) auto
  from a have "dropWhile p (rev s) = rev s" by (cases s rule: rev_cases) auto
  with d show ?thesis by (simp add: strip_by_def)
qed

lemma decimal_not_int_space: "is_decimal_c c \<Longrightarrow> \<not> int_space_c c"
  by (auto simp: is_decimal_c_def int_space_c_def)

lemma minus_not_int_space: "\<not> int_space_c CHR ''-''"
  by (simp add: int_space_c_def ord_def)

lemma decimal_neq_sign: "is_decimal_c c \<Longrightarrow> c \<noteq> CHR ''-'' \<and> c \<noteq> CHR ''+''"
  by (auto simp: is_decimal_c_def ord_def)

lemma py_int_digits:
  assumes "s \<noteq> []" and "\<forall>c \<in> set s. is_decimal_c c" and "length s \<le> max_str_digits"
  shows "py_int s = Some (int (digits_val s))"
proof -
  have "strip_by int_space_c s = s"
    using assms(2) by (intro strip_by_id) (auto dest: decimal_not_int_space)
  moreover have "split_sign s = (1, s)"
    using assms(1,2) by (cases s) (auto simp: split_sign_def dest: decimal_neq_sign)
  ultimately show ?thesis
    using assms scan_digits_decimal[of s False] by (simp add: py_int_def)
qed

lemma py_int_minus:
  assumes "s \<noteq> []" and "\<forall>c \<in> set s. is_decimal_c c" and "length s \<le> max_str_digits"
  shows "py_int (CHR ''-'' # s) = Some (- int (digits_val s))"
proof -
  have "strip_by int_space_c (CHR ''-'' # s) = CHR ''-'' # s"
    using assms(2) minus_not_int_space by (intro strip_by_id) (auto dest: decimal_not_int_space)
  then show ?thesis
    using assms scan_digits_decimal[of s False] by (simp add: py_int_def split_sign_def)
qed

lemma py_int_show:
  assumes "nat \<bar>k\<bar> < 10 ^ 19"
  shows "py_int (show_int k) = Some k"
proof -
  have "length (show_nat (nat \<bar>k\<bar>)) \<le> max_str_digits"
    using show_nat_length[OF assms] by (simp add: max_str_digits_def)
  then show ?thesis
    by (auto simp: show_int_def py_int_minus py_int_digits show_nat_decimal)
qed

section \<open>The 64-bit domain\<close>

text \<open>\<open>INT64_MIN\<close> and \<open>INT64_MAX\<close>, the signed width both execution modes share.\<close>

definition INT64_MIN :: int where "INT64_MIN = - (2 ^ 63)"

definition INT64_MAX :: int where "INT64_MAX = 2 ^ 63 - 1"

definition in_int64 :: "int \<Rightarrow> bool" where
  "in_int64 k = (INT64_MIN \<le> k \<and> k \<le> INT64_MAX)"

lemma int64_numerals:
  "INT64_MIN = -9223372036854775808" "INT64_MAX = 9223372036854775807"
  by (simp_all add: INT64_MIN_def INT64_MAX_def)

lemma in_int64_small: "in_int64 k \<Longrightarrow> nat \<bar>k\<bar> < 10 ^ 19"
proof -
  assume "in_int64 k"
  then have "\<bar>k\<bar> \<le> 9223372036854775808" by (auto simp: in_int64_def int64_numerals)
  then have "nat \<bar>k\<bar> \<le> 9223372036854775808" by linarith
  then show ?thesis by simp
qed

end
