(* ===== verification/Lexer.thy ===== *)
theory Lexer
  imports PyNum
begin

text \<open>
  \<open>impl/lnpl/lexer.py\<close>: the closed word tables of the language, the duration literals and the
  line tokenizer. A \<open>LexError\<close>, and the \<open>ValueError\<close> that \<open>int\<close> raises on a digit string it
  refuses, are constructors of \<open>lex_error\<close>.
\<close>

section \<open>Word tables\<close>

definition keywords_top :: "string list" where
  "keywords_top = [''entity'', ''service'', ''workflow'', ''event'', ''capability'', ''refine'']"

definition keywords_clause :: "string list" where
  "keywords_clause = [''field'', ''goal'', ''policy'', ''security'', ''performance'',
     ''database'', ''expose'', ''spec'', ''given'', ''when'', ''expect'']"

definition keywords_control :: "string list" where
  "keywords_control = [''when'', ''repeat'', ''parallel'', ''until'', ''pipeline'', ''merge'']"

definition reserved_words :: "string list" where
  "reserved_words = [''if'', ''for'', ''while'', ''switch'']"

definition duration_unit_ms :: "(string \<times> int) list" where
  "duration_unit_ms = [(''ms'', 1), (''s'', 1000), (''m'', 60000), (''h'', 3600000), (''d'', 86400000)]"

definition duration_units :: "string list" where
  "duration_units = [''ms'', ''s'', ''m'', ''h'', ''d'']"

text \<open>\<open>sorted(items, key=lambda kv: -len(kv[0]))\<close>: longest suffix first, stable.\<close>

definition duration_scan :: "(string \<times> int) list" where
  "duration_scan = sort_key (\<lambda>kv. - int (length (fst kv))) duration_unit_ms"

definition comparators :: "string list" where
  "comparators = [''<='', ''>='', ''=='', ''!='', ''<'', ''>'']"

definition arith_ops :: "string list" where
  "arith_ops = [''+'', ''-'', ''*'', ''/'']"

definition logical_ops :: "string list" where
  "logical_ops = [''and'']"

definition guard_alt_keyword :: string where "guard_alt_keyword = ''or''"

definition guard_otherwise_keyword :: string where "guard_otherwise_keyword = ''otherwise''"

definition presence_kinds :: "string list" where
  "presence_kinds = [''exists'', ''missing'']"

definition numeric_predicate_kinds :: "string list" where
  "numeric_predicate_kinds = [''is-numeric'', ''is-not-numeric'']"

definition assign_keywords :: "string list" where
  "assign_keywords = [''set'', ''to'']"

definition agg_funcs :: "string list" where
  "agg_funcs = [''sum'', ''count'', ''avg'', ''min'', ''max'']"

definition payload_namespace :: string where "payload_namespace = ''input''"

definition schedule_keyword :: string where "schedule_keyword = ''schedule''"

definition schedule_at :: string where "schedule_at = ''at''"

definition schedule_recurrences :: "string list" where "schedule_recurrences = [''daily'']"

definition schedule_zones :: "string list" where "schedule_zones = [''UTC'']"

definition event_triggers :: "string list" where "event_triggers = [''schedule'']"

definition reserved_problem_codes :: "string list" where
  "reserved_problem_codes =
    [''auth-invalid'', ''auth-missing'', ''body-too-large'', ''body-unreadable'',
     ''cloudevents-id-too-long'', ''cloudevents-invalid'', ''conflict'', ''cursor-invalid'',
     ''deadline-exceeded'', ''event-rejected'', ''event-retry-later'',
     ''forbidden'', ''id-required'', ''idempotency-in-progress'',
     ''idempotency-key-too-long'', ''idempotency-unsupported'', ''limit-invalid'',
     ''method-not-allowed'', ''not-found'', ''not-ready'', ''precondition-failed'',
     ''precondition-invalid'', ''precondition-unsupported'', ''rate-limited'',
     ''read-failed'', ''shutting-down'', ''validation-failed'',
     ''workflow-failed'', ''write-conflict'']"

text \<open>
  \<open>KEBAB_CODE_RE\<close>, \<open>^[a-z0-9]+(-[a-z0-9]+)*$\<close>: hyphen-separated segments, none empty.
  (\<open>$\<close> would also admit one trailing line feed; the argument is a token, which has none.)
\<close>

definition kebab_char :: "char \<Rightarrow> bool" where
  "kebab_char c = ((97 \<le> ord c \<and> ord c \<le> 122) \<or> (48 \<le> ord c \<and> ord c \<le> 57))"

definition is_kebab_code :: "string \<Rightarrow> bool" where
  "is_kebab_code s = list_all (\<lambda>w. w \<noteq> [] \<and> list_all kebab_char w) (split_on CHR ''-'' s)"

section \<open>Errors and lines\<close>

datatype lex_error =
    TabForbidden nat
  | ReservedWord nat string
  | DurationOverflow string
  | NotADuration string
  | IntValueError string

record line =
  lineno :: nat
  tokens :: "string list"
  raw :: string
  indent :: nat

definition line_head :: "line \<Rightarrow> string option" where
  "line_head l = (case tokens l of [] \<Rightarrow> None | t # _ \<Rightarrow> Some t)"

section \<open>Tokenizing\<close>

definition strip_comment :: "string \<Rightarrow> string" where
  "strip_comment text = takeWhile (\<lambda>c. c \<noteq> CHR ''#'') text"

definition tokenize_line :: "nat \<Rightarrow> string \<Rightarrow> lex_error + line option" where
  "tokenize_line i r =
     (if CHR 0x09 \<in> set r then Inl (TabForbidden i)
      else let body = strip_comment r; text = strip body in
        if text = [] then Inr None
        else let ind = length body - length (lstrip body); toks = split_ws text in
          case List.find (\<lambda>t. t \<in> set reserved_words) toks of
            Some t \<Rightarrow> Inl (ReservedWord i t)
          | None \<Rightarrow> Inr (Some \<lparr>lineno = i, tokens = toks, raw = r, indent = ind\<rparr>))"

fun tokenize_lines :: "nat \<Rightarrow> string list \<Rightarrow> lex_error + line list" where
  "tokenize_lines i [] = Inr []"
| "tokenize_lines i (r # rs) =
     bindE (tokenize_line i r) (\<lambda>l.
     bindE (tokenize_lines (Suc i) rs) (\<lambda>ls.
       Inr (case l of None \<Rightarrow> ls | Some x \<Rightarrow> x # ls)))"

definition tokenize :: "string \<Rightarrow> lex_error + line list" where
  "tokenize source = tokenize_lines 1 (splitlines source)"

section \<open>Durations\<close>

definition is_duration :: "string \<Rightarrow> bool" where
  "is_duration tok = list_ex (\<lambda>(unit, _). endswith tok unit \<and> str_isdigit (drop_suffix tok unit))
     duration_scan"

fun duration_scan_ms :: "(string \<times> int) list \<Rightarrow> string \<Rightarrow> lex_error + int option" where
  "duration_scan_ms [] tok = Inr None"
| "duration_scan_ms ((unit, mult) # rest) tok =
     (if endswith tok unit \<and> str_isdigit (drop_suffix tok unit)
      then (case int_of_digits (drop_suffix tok unit) of
              None \<Rightarrow> Inl (IntValueError (drop_suffix tok unit))
            | Some n \<Rightarrow> if int n * mult > INT64_MAX then Inl (DurationOverflow tok)
                        else Inr (Some (int n * mult)))
      else duration_scan_ms rest tok)"

definition duration_ms_or_none :: "string \<Rightarrow> lex_error + int option" where
  "duration_ms_or_none tok = duration_scan_ms duration_scan tok"

definition parse_duration_ms :: "string \<Rightarrow> lex_error + int" where
  "parse_duration_ms tok =
     bindE (duration_ms_or_none tok)
       (\<lambda>v. case v of None \<Rightarrow> Inl (NotADuration tok) | Some ms \<Rightarrow> Inr ms)"

lemmas word_tables [tables] = keywords_top_def keywords_clause_def keywords_control_def
  reserved_words_def comparators_def arith_ops_def logical_ops_def presence_kinds_def
  numeric_predicate_kinds_def assign_keywords_def agg_funcs_def payload_namespace_def
  guard_alt_keyword_def guard_otherwise_keyword_def

section \<open>Properties of the tokenizer\<close>

text \<open>What every line \<open>tokenize\<close> returns satisfies.\<close>

definition line_ok :: "line \<Rightarrow> bool" where
  "line_ok l \<longleftrightarrow> tokens l \<noteq> [] \<and>
     (\<forall>t \<in> set (tokens l). good_token t \<and> CHR ''#'' \<notin> set t \<and> t \<notin> set reserved_words) \<and>
     CHR 0x09 \<notin> set (raw l) \<and> tokens l = split_ws (strip_comment (raw l))"

lemma strip_comment_no_hash: "CHR ''#'' \<notin> set (strip_comment s)"
  by (auto simp: strip_comment_def dest: set_takeWhileD)

lemma tokenize_line_ok:
  assumes "tokenize_line i r = Inr (Some l)"
  shows "line_ok l \<and> lineno l = i \<and> raw l = r"
proof -
  have nohash: "\<And>t. t \<in> set (split_ws (strip_comment r)) \<Longrightarrow> CHR ''#'' \<notin> set t"
    using strip_comment_no_hash[of r] split_chars by blast
  from assms show ?thesis
    by (auto simp: tokenize_line_def Let_def line_ok_def find_None_iff split_Nil_strip[symmetric]
        split_good nohash split: if_splits option.splits)
qed

lemma tokenize_line_skip:
  "tokenize_line i r = Inr None \<longleftrightarrow> CHR 0x09 \<notin> set r \<and> split_ws (strip_comment r) = []"
  by (auto simp: tokenize_line_def Let_def split_Nil_strip[symmetric]
      split: if_splits option.splits)

lemma tokenize_lines_Cons_Inr:
  "tokenize_lines i (r # rs) = Inr ls \<longleftrightarrow>
     (\<exists>l ms. tokenize_line i r = Inr l \<and> tokenize_lines (Suc i) rs = Inr ms \<and>
        ls = (case l of None \<Rightarrow> ms | Some x \<Rightarrow> x # ms))"
  by (auto simp: bindE_iffs)

lemma tokenize_lines_ok:
  "tokenize_lines i rs = Inr ls \<Longrightarrow>
     (\<forall>l \<in> set ls. line_ok l \<and> i \<le> lineno l \<and> lineno l < i + length rs \<and>
        raw l = rs ! (lineno l - i)) \<and>
     sorted_wrt (<) (map lineno ls)"
proof (induction rs arbitrary: i ls)
  case Nil
  then show ?case by simp
next
  case (Cons r rs)
  from Cons.prems obtain l ms where l: "tokenize_line i r = Inr l"
    and ms: "tokenize_lines (Suc i) rs = Inr ms"
    and ls: "ls = (case l of None \<Rightarrow> ms | Some x \<Rightarrow> x # ms)"
    unfolding tokenize_lines_Cons_Inr by blast
  from Cons.IH[OF ms] have IH: "\<And>m. m \<in> set ms \<Longrightarrow> line_ok m \<and> Suc i \<le> lineno m \<and>
      lineno m < Suc i + length rs \<and> raw m = rs ! (lineno m - Suc i)"
    and srt: "sorted_wrt (<) (map lineno ms)" by auto
  have tail: "\<And>m. m \<in> set ms \<Longrightarrow> raw m = (r # rs) ! (lineno m - i)"
    using IH by (metis Suc_diff_Suc Suc_le_eq nth_Cons_Suc)
  show ?case
  proof (cases l)
    case None
    with ls IH srt tail show ?thesis by fastforce
  next
    case (Some x)
    with tokenize_line_ok[of i r x] l have "line_ok x \<and> lineno x = i \<and> raw x = r" by simp
    with Some ls IH srt tail show ?thesis by fastforce
  qed
qed

lemma tokenize_lines_complete:
  "tokenize_lines i rs = Inr ls \<Longrightarrow> j < length rs \<Longrightarrow> split_ws (strip_comment (rs ! j)) \<noteq> [] \<Longrightarrow>
     \<exists>l \<in> set ls. lineno l = i + j \<and> tokens l = split_ws (strip_comment (rs ! j))"
proof (induction rs arbitrary: i ls j)
  case Nil
  then show ?case by simp
next
  case (Cons r rs)
  from Cons.prems(1) obtain l ms where l: "tokenize_line i r = Inr l"
    and ms: "tokenize_lines (Suc i) rs = Inr ms"
    and ls: "ls = (case l of None \<Rightarrow> ms | Some x \<Rightarrow> x # ms)"
    unfolding tokenize_lines_Cons_Inr by blast
  show ?case
  proof (cases j)
    case 0
    with Cons.prems(3) l tokenize_line_skip[of i r] obtain x where x: "l = Some x"
      by (cases l) auto
    with l tokenize_line_ok[of i r x] have "lineno x = i \<and> tokens x = split_ws (strip_comment r)"
      by (simp add: line_ok_def)
    with 0 x ls show ?thesis by auto
  next
    case (Suc k)
    with Cons.IH[OF ms, of k] Cons.prems show ?thesis
      by (auto simp: ls split: option.splits)
  qed
qed

text \<open>A comment changes neither the tokens nor the column of a line.\<close>

lemma strip_comment_append: "CHR ''#'' \<notin> set b \<Longrightarrow> strip_comment (b @ CHR ''#'' # c) = strip_comment b"
proof -
  assume "CHR ''#'' \<notin> set b"
  then have "\<forall>x \<in> set b. x \<noteq> CHR ''#''" by auto
  then show ?thesis
    unfolding strip_comment_def by (simp add: takeWhile_append2 takeWhile_eq_all_conv[THEN iffD2])
qed

section \<open>Properties of durations\<close>

lemma duration_scan_eq:
  "duration_scan = [(''ms'', 1), (''s'', 1000), (''m'', 60000), (''h'', 3600000), (''d'', 86400000)]"
  by (simp add: duration_scan_def duration_unit_ms_def)

lemma endswith_snoc_last: "suf \<noteq> [] \<Longrightarrow> endswith s suf \<Longrightarrow> s \<noteq> [] \<and> last s = last suf"
  by (metis append_is_Nil_conv endswith_drop_suffix last_appendR)

lemma digits_then_unit:
  assumes u: "u \<in> {''ms'', ''s'', ''m'', ''h'', ''d''}" and ds: "ds \<noteq> []" "list_all is_decimal_c ds"
    and v: "v \<in> {''ms'', ''s'', ''m'', ''h'', ''d''}"
    and e: "endswith (ds @ u) v" "str_isdigit (drop_suffix (ds @ u) v)"
  shows "v = u"
proof -
  from u v have ne: "u \<noteq> []" "v \<noteq> []" by blast+
  from endswith_snoc_last[OF ne(2) e(1)] ne(1) have lst: "last u = last v" by simp
  have no1: "\<not> str_isdigit (drop_suffix (ds @ ''ms'') ''s'')"
    by (simp add: drop_suffix_def str_isdigit_def char_class_defs ord_def)
  have no2: "\<not> endswith (ds @ ''s'') ''ms''"
  proof
    assume "endswith (ds @ ''s'') ''ms''"
    from endswith_drop_suffix[OF this] have "ds = drop_suffix (ds @ ''s'') ''ms'' @ ''m''" by simp
    then have "list_all is_decimal_c (drop_suffix (ds @ ''s'') ''ms'' @ ''m'')" using ds(2) by metis
    then show False by (simp add: is_decimal_c_def ord_def)
  qed
  from u v lst have "v = u \<or> (u = ''ms'' \<and> v = ''s'') \<or> (u = ''s'' \<and> v = ''ms'')"
    unfolding insert_iff empty_iff by (elim disjE) simp_all
  with e no1 no2 show ?thesis by blast
qed

lemma duration_scan_hit:
  assumes "(u, k) \<in> set sc" and "\<forall>p \<in> set sc. fst p \<in> {''ms'', ''s'', ''m'', ''h'', ''d''}" and "distinct (map fst sc)"
    and "ds \<noteq> []" and "list_all is_decimal_c ds" and "length ds \<le> max_str_digits"
  shows "duration_scan_ms sc (ds @ u) =
     (if int (digits_val ds) * k > INT64_MAX then Inl (DurationOverflow (ds @ u))
      else Inr (Some (int (digits_val ds) * k)))"
  using assms
proof (induction sc)
  case Nil
  then show ?case by simp
next
  case (Cons p sc)
  obtain v m where p: "p = (v, m)" by (cases p)
  have dig: "str_isdigit ds"
    using Cons.prems by (auto simp: str_isdigit_def list_all_iff decimal_digit)
  have u: "u \<in> {''ms'', ''s'', ''m'', ''h'', ''d''}" using Cons.prems(1,2) by fastforce
  show ?case
  proof (cases "v = u")
    case True
    with p have "(u, m) \<in> set (p # sc)" by simp
    with Cons.prems(1,3) have "m = k" by (blast dest: eq_key_imp_eq_value)
    with True p dig Cons.prems show ?thesis by (simp add: int_of_digits_def)
  next
    case False
    from p Cons.prems(2) have v: "v \<in> {''ms'', ''s'', ''m'', ''h'', ''d''}"
      by (metis fst_conv list.set_intros(1))
    have nm: "(endswith (ds @ u) v \<and> str_isdigit (drop_suffix (ds @ u) v)) = False"
      using digits_then_unit[OF u Cons.prems(4,5) v] False by blast
    have "duration_scan_ms (p # sc) (ds @ u) = duration_scan_ms sc (ds @ u)"
      by (simp only: p duration_scan_ms.simps nm if_False)
    moreover have "(u, k) \<in> set sc" using Cons.prems(1) p False by simp
    ultimately show ?thesis using Cons.IH Cons.prems(2-6) by simp
  qed
qed

lemma duration_literal:
  assumes "(u, k) \<in> set duration_unit_ms" and "ds \<noteq> []" and "list_all is_decimal_c ds"
    and "length ds \<le> max_str_digits"
  shows "duration_ms_or_none (ds @ u) =
     (if int (digits_val ds) * k > INT64_MAX then Inl (DurationOverflow (ds @ u))
      else Inr (Some (int (digits_val ds) * k)))"
  unfolding duration_ms_or_none_def
  by (rule duration_scan_hit) (use assms in \<open>auto simp: duration_scan_eq duration_unit_ms_def\<close>)

lemma duration_scan_range:
  "duration_scan_ms sc tok = Inr (Some v) \<Longrightarrow> \<forall>(_, k) \<in> set sc. 0 < k \<Longrightarrow> 0 \<le> v \<and> v \<le> INT64_MAX"
  by (induction sc tok rule: duration_scan_ms.induct) (auto split: if_splits option.splits)

lemma duration_range: "duration_ms_or_none tok = Inr (Some v) \<Longrightarrow> 0 \<le> v \<and> v \<le> INT64_MAX"
  unfolding duration_ms_or_none_def
  by (erule duration_scan_range) (auto simp: duration_scan_eq)

lemma duration_scan_is:
  "duration_scan_ms sc tok \<noteq> Inr None \<longleftrightarrow>
     list_ex (\<lambda>(unit, _). endswith tok unit \<and> str_isdigit (drop_suffix tok unit)) sc"
  by (induction sc tok rule: duration_scan_ms.induct) (auto split: option.splits)

lemma is_duration_iff: "is_duration tok \<longleftrightarrow> duration_ms_or_none tok \<noteq> Inr None"
  by (simp add: is_duration_def duration_ms_or_none_def duration_scan_is)

text \<open>A token that starts with a letter is no duration.\<close>

lemma duration_needs_digit:
  assumes "\<not> is_digit_c c" shows "duration_ms_or_none (c # cs) = Inr None"
proof -
  have "\<not> is_duration (c # cs)"
    using assms
    by (auto simp: is_duration_def list_ex_iff str_isdigit_def drop_suffix_def take_Cons'
        split: if_splits)
  then show ?thesis by (simp add: is_duration_iff)
qed

end
