(* ===== verification/Condition.thy ===== *)
theory Condition
  imports Lexer
begin

text \<open>
  \<open>impl/lnpl/condition.py\<close>, the syntax half: guard conditions, assignment right-hand sides and
  \<open>format\<close> calls as data, the parser every consumer goes through, and the printer that writes
  the normalized text the IR stores. The instant codec of the same file is in \<open>Instants\<close>.

  A \<open>ConditionError\<close> carries the reason. \<open>ValueErr\<close> is a Python \<open>ValueError\<close>, which the callers
  do not catch: \<open>int\<close> on a digit string it refuses, and the dataclass checks.
\<close>

section \<open>Data\<close>

datatype arith_op = OpAdd | OpSub | OpMul | OpDiv

datatype cmp_op = OpLe | OpGe | OpEq | OpNe | OpLt | OpGt

datatype presence_kind = Exists | Missing

datatype numeric_kind = IsNumeric | IsNotNumeric

datatype agg_func = AggSum | AggCount | AggAvg | AggMin | AggMax

datatype operand = Ref string | Lit int bool

datatype val = Operand operand | Arith operand arith_op operand

datatype rhs =
    RhsValue val
  | RhsAggregate agg_func string
  | RhsFormat string "string list"

datatype condition =
    Presence string presence_kind
  | NumericPredicate string numeric_kind
  | Comparison val cmp_op val
  | And "condition list"

datatype cond_error =
    EmptyAndSide
  | ConditionTooShort
  | PresenceInAnd string
  | BadField string
  | NoComparator
  | ManyComparators
  | MissingOperand
  | BadArithOp string
  | UnsupportedOperand
  | IntTooLarge string
  | DurationTooLarge string
  | InvalidOperand string
  | NotSet
  | NoTo
  | TargetCount
  | BadTarget string
  | NoValueAfterTo
  | AggregateArity
  | AggregateRef string
  | NotFormat
  | FormatTooShort
  | FormatNoFrom
  | TemplateNotQuoted
  | TemplateQuote
  | FormatTail string
  | WithEmpty
  | FormatArg string
  | HoleCount nat nat
  | MissingTemplate
  | MissingValue
  | NotDateTime
  | ZonelessDateTime
  | NotValidDate
  | NotValidDateTime
  | InstantOutOfRange
  | InstantNotInteger

datatype cond_exc = ConditionError cond_error | ValueErr string | TypeErr string

section \<open>Operator tokens\<close>

definition arith_op_list :: "arith_op list" where
  "arith_op_list = [OpAdd, OpSub, OpMul, OpDiv]"

definition cmp_op_list :: "cmp_op list" where
  "cmp_op_list = [OpLe, OpGe, OpEq, OpNe, OpLt, OpGt]"

definition arith_of_token :: "string \<Rightarrow> arith_op option" where
  "arith_of_token t = map_of (zip arith_ops arith_op_list) t"

definition cmp_of_token :: "string \<Rightarrow> cmp_op option" where
  "cmp_of_token t = map_of (zip comparators cmp_op_list) t"

definition presence_of_token :: "string \<Rightarrow> presence_kind option" where
  "presence_of_token t = map_of (zip presence_kinds [Exists, Missing]) t"

definition numeric_of_token :: "string \<Rightarrow> numeric_kind option" where
  "numeric_of_token t = map_of (zip numeric_predicate_kinds [IsNumeric, IsNotNumeric]) t"

definition agg_of_token :: "string \<Rightarrow> agg_func option" where
  "agg_of_token t = map_of (zip agg_funcs [AggSum, AggCount, AggAvg, AggMin, AggMax]) t"

fun arith_text :: "arith_op \<Rightarrow> string" where
  "arith_text OpAdd = ''+''"
| "arith_text OpSub = ''-''"
| "arith_text OpMul = ''*''"
| "arith_text OpDiv = ''/''"

fun cmp_text :: "cmp_op \<Rightarrow> string" where
  "cmp_text OpLe = ''<=''"
| "cmp_text OpGe = ''>=''"
| "cmp_text OpEq = ''==''"
| "cmp_text OpNe = ''!=''"
| "cmp_text OpLt = ''<''"
| "cmp_text OpGt = ''>''"

fun presence_text :: "presence_kind \<Rightarrow> string" where
  "presence_text Exists = ''exists''"
| "presence_text Missing = ''missing''"

fun numeric_text :: "numeric_kind \<Rightarrow> string" where
  "numeric_text IsNumeric = ''is-numeric''"
| "numeric_text IsNotNumeric = ''is-not-numeric''"

fun agg_text :: "agg_func \<Rightarrow> string" where
  "agg_text AggSum = ''sum''"
| "agg_text AggCount = ''count''"
| "agg_text AggAvg = ''avg''"
| "agg_text AggMin = ''min''"
| "agg_text AggMax = ''max''"

section \<open>References\<close>

text \<open>The \<open>namespace\<close> and \<open>field\<close> properties of \<open>Ref\<close>, from \<open>name.partition(".")\<close>.\<close>

definition ref_namespace :: "string \<Rightarrow> string option" where
  "ref_namespace name = (let (h, sep, _) = partition_at CHR ''.'' name in if sep then Some h else None)"

definition ref_field :: "string \<Rightarrow> string" where
  "ref_field name = (let (_, sep, t) = partition_at CHR ''.'' name in if sep then t else name)"

definition is_camel_name :: "string \<Rightarrow> bool" where
  "is_camel_name s = (case s of [] \<Rightarrow> False | c # _ \<Rightarrow> is_lower_c c \<and> list_all is_alnum_c s)"

definition is_reference_name :: "string \<Rightarrow> bool" where
  "is_reference_name s =
     (if s \<in> set ([''and'', ''to''] @ presence_kinds @ numeric_predicate_kinds) then False
      else let segments = split_on CHR ''.'' s in
        if length segments > 2 then False else list_all is_camel_name segments)"

section \<open>Operands and values\<close>

definition parse_operand :: "string \<Rightarrow> cond_exc + operand" where
  "parse_operand token =
     (if str_isdigit token
      then (case int_of_digits token of
              None \<Rightarrow> Inl (ValueErr token)
            | Some n \<Rightarrow> if int n > INT64_MAX then Inl (ConditionError (IntTooLarge token))
                        else Inr (Lit (int n) False))
      else (case duration_ms_or_none token of
              Inl (DurationOverflow _) \<Rightarrow> Inl (ConditionError (DurationTooLarge token))
            | Inl _ \<Rightarrow> Inl (ValueErr token)
            | Inr (Some ms) \<Rightarrow> Inr (Lit ms True)
            | Inr None \<Rightarrow>
                if is_reference_name token then Inr (Ref token)
                else Inl (ConditionError (InvalidOperand token))))"

definition parse_value_tokens :: "string list \<Rightarrow> cond_exc + val" where
  "parse_value_tokens toks =
     (case toks of
        [] \<Rightarrow> Inl (ConditionError MissingOperand)
      | [t] \<Rightarrow> bindE (parse_operand t) (\<lambda>x. Inr (Operand x))
      | [l, op, r] \<Rightarrow>
          (case arith_of_token op of
             None \<Rightarrow> Inl (ConditionError (BadArithOp op))
           | Some a \<Rightarrow> bindE (parse_operand l) (\<lambda>x. bindE (parse_operand r) (\<lambda>y. Inr (Arith x a y))))
      | _ \<Rightarrow> Inl (ConditionError UnsupportedOperand))"

section \<open>Conditions\<close>

text \<open>\<open>_split_on_and\<close>: the token groups between \<open>and\<close>s; an empty group is refused.\<close>

definition split_on_and :: "string list \<Rightarrow> cond_exc + string list list" where
  "split_on_and toks = (let groups = split_on ''and'' toks in
     if [] \<in> set groups then Inl (ConditionError EmptyAndSide) else Inr groups)"

definition parse_term :: "string list \<Rightarrow> bool \<Rightarrow> cond_exc + condition" where
  "parse_term toks allow_presence =
     (if length toks < 2 then Inl (ConditionError ConditionTooShort)
      else if length toks = 2 \<and> toks ! 1 \<in> set presence_kinds then
        (if \<not> allow_presence then Inl (ConditionError (PresenceInAnd (toks ! 1)))
         else if \<not> is_reference_name (toks ! 0) then Inl (ConditionError (BadField (toks ! 0)))
         else (case presence_of_token (toks ! 1) of
                 None \<Rightarrow> Inl (ValueErr (toks ! 1))
               | Some k \<Rightarrow> Inr (Presence (toks ! 0) k)))
      else if length toks = 2 \<and> toks ! 1 \<in> set numeric_predicate_kinds then
        (if \<not> is_reference_name (toks ! 0) then Inl (ConditionError (BadField (toks ! 0)))
         else (case numeric_of_token (toks ! 1) of
                 None \<Rightarrow> Inl (ValueErr (toks ! 1))
               | Some k \<Rightarrow> Inr (NumericPredicate (toks ! 0) k)))
      else
        (case positions (\<lambda>t. t \<in> set comparators) toks of
           [] \<Rightarrow> Inl (ConditionError NoComparator)
         | [i] \<Rightarrow>
             bindE (parse_value_tokens (take i toks)) (\<lambda>left.
             bindE (parse_value_tokens (drop (Suc i) toks)) (\<lambda>right.
               (case cmp_of_token (toks ! i) of
                  None \<Rightarrow> Inl (ValueErr (toks ! i))
                | Some c \<Rightarrow> Inr (Comparison left c right))))
         | _ \<Rightarrow> Inl (ConditionError ManyComparators)))"

text \<open>The checks of \<open>And.__post_init__\<close>.\<close>

fun and_term :: "condition \<Rightarrow> bool" where
  "and_term (Comparison _ _ _) = True"
| "and_term (NumericPredicate _ _) = True"
| "and_term _ = False"

definition mk_And :: "condition list \<Rightarrow> cond_exc + condition" where
  "mk_And terms =
     (if length terms < 2 then Inl (ValueErr ''and needs two terms'')
      else if list_all and_term terms then Inr (And terms)
      else Inl (ValueErr ''and combines comparisons''))"

definition parse_tokens :: "string list \<Rightarrow> cond_exc + condition" where
  "parse_tokens toks =
     bindE (split_on_and toks) (\<lambda>groups.
       case groups of
         [g] \<Rightarrow> parse_term g True
       | _ \<Rightarrow> bindE (mapE (\<lambda>g. parse_term g False) groups) mk_And)"

definition parse_condition :: "string option \<Rightarrow> cond_exc + condition option" where
  "parse_condition text =
     (case text of
        None \<Rightarrow> Inr None
      | Some s \<Rightarrow> if strip s = [] then Inr None
                  else bindE (parse_tokens (split_ws s)) (\<lambda>c. Inr (Some c)))"

section \<open>Assignments, aggregates and format calls\<close>

definition parse_aggregate :: "string list \<Rightarrow> cond_exc + rhs" where
  "parse_aggregate toks =
     (case toks of
        [f, r] \<Rightarrow>
          if \<not> is_reference_name r then Inl (ConditionError (AggregateRef r))
          else (case agg_of_token f of
                  None \<Rightarrow> Inl (ValueErr f)
                | Some a \<Rightarrow> Inr (RhsAggregate a r))
      | _ \<Rightarrow> Inl (ConditionError AggregateArity))"

definition parse_template_token :: "string \<Rightarrow> cond_exc + string" where
  "parse_template_token token =
     (if length token < 2 \<or> hd token \<noteq> CHR 0x22 \<or> last token \<noteq> CHR 0x22
      then Inl (ConditionError TemplateNotQuoted)
      else let template = butlast (tl token) in
        if CHR 0x22 \<in> set template then Inl (ConditionError TemplateQuote) else Inr template)"

definition parse_with_clause :: "string list \<Rightarrow> cond_exc + string list" where
  "parse_with_clause rest =
     (case rest of
        [] \<Rightarrow> Inr []
      | w # args \<Rightarrow>
          if w \<noteq> ''with'' then Inl (ConditionError (FormatTail w))
          else if args = [] then Inl (ConditionError WithEmpty)
          else mapE (\<lambda>t. if is_reference_name t then Inr t else Inl (ConditionError (FormatArg t))) args)"

definition check_placeholder_count :: "string \<Rightarrow> string list \<Rightarrow> cond_exc + unit" where
  "check_placeholder_count template args =
     (if count_holes template = length args then Inr ()
      else Inl (ConditionError (HoleCount (count_holes template) (length args))))"

definition parse_format_rhs :: "string list \<Rightarrow> cond_exc + rhs" where
  "parse_format_rhs toks =
     (if length toks < 2 then Inl (ConditionError MissingTemplate)
      else bindE (parse_template_token (toks ! 1)) (\<lambda>template.
           bindE (parse_with_clause (drop 2 toks)) (\<lambda>args. Inr (RhsFormat template args))))"

definition parse_rhs_tokens :: "string list \<Rightarrow> cond_exc + rhs" where
  "parse_rhs_tokens toks =
     (if toks \<noteq> [] \<and> hd toks \<in> set agg_funcs then parse_aggregate toks
      else if toks \<noteq> [] \<and> hd toks = ''format'' then parse_format_rhs toks
      else bindE (parse_value_tokens toks) (\<lambda>v. Inr (RhsValue v)))"

definition parse_assignment :: "string option \<Rightarrow> cond_exc + string \<times> rhs" where
  "parse_assignment text =
     (let toks = split_ws (case text of None \<Rightarrow> [] | Some s \<Rightarrow> s) in
      if toks = [] \<or> hd toks \<noteq> ''set'' then Inl (ConditionError NotSet)
      else case index_of ''to'' (tl toks) of
        None \<Rightarrow> Inl (ConditionError NoTo)
      | Some i \<Rightarrow>
          (let target_tokens = take i (tl toks); value_tokens = drop (Suc i) (tl toks) in
           case target_tokens of
             [target] \<Rightarrow>
               if \<not> is_reference_name target then Inl (ConditionError (BadTarget target))
               else if value_tokens = [] then Inl (ConditionError NoValueAfterTo)
               else bindE (parse_rhs_tokens value_tokens) (\<lambda>r. Inr (target, r))
           | _ \<Rightarrow> Inl (ConditionError TargetCount)))"

definition parse_format :: "string option \<Rightarrow> cond_exc + string \<times> rhs" where
  "parse_format text =
     (let toks = split_ws (case text of None \<Rightarrow> [] | Some s \<Rightarrow> s) in
      if toks = [] \<or> hd toks \<noteq> ''format'' then Inl (ConditionError NotFormat)
      else if length toks < 4 then Inl (ConditionError FormatTooShort)
      else if \<not> is_reference_name (toks ! 1) then Inl (ConditionError (BadTarget (toks ! 1)))
      else if toks ! 2 \<noteq> ''from'' then Inl (ConditionError FormatNoFrom)
      else bindE (parse_template_token (toks ! 3)) (\<lambda>template.
           bindE (parse_with_clause (drop 4 toks)) (\<lambda>args.
           bindE (check_placeholder_count template args) (\<lambda>_.
             Inr (toks ! 1, RhsFormat template args)))))"

definition parse_value :: "string option \<Rightarrow> cond_exc + val" where
  "parse_value text =
     (let toks = split_ws (case text of None \<Rightarrow> [] | Some s \<Rightarrow> s) in
      if toks = [] then Inl (ConditionError MissingValue) else parse_value_tokens toks)"

definition parse_value_or_aggregate :: "string option \<Rightarrow> cond_exc + rhs" where
  "parse_value_or_aggregate text =
     (let toks = split_ws (case text of None \<Rightarrow> [] | Some s \<Rightarrow> s) in
      if toks = [] then Inl (ConditionError MissingValue) else parse_rhs_tokens toks)"

section \<open>References mentioned\<close>

fun operand_refs :: "operand \<Rightarrow> string list" where
  "operand_refs (Ref n) = [n]"
| "operand_refs (Lit _ _) = []"

fun value_refs :: "val \<Rightarrow> string list" where
  "value_refs (Operand x) = operand_refs x"
| "value_refs (Arith l _ r) = operand_refs l @ operand_refs r"

fun references :: "condition \<Rightarrow> string list" where
  "references (Presence f _) = [f]"
| "references (NumericPredicate f _) = [f]"
| "references (And terms) = concat (map references terms)"
| "references (Comparison l _ r) = value_refs l @ value_refs r"

fun rhs_refs :: "rhs \<Rightarrow> string list" where
  "rhs_refs (RhsValue v) = value_refs v"
| "rhs_refs (RhsAggregate _ r) = [r]"
| "rhs_refs (RhsFormat _ args) = args"

section \<open>The printer\<close>

definition duration_render :: "(string \<times> int) list" where
  "duration_render = sort_key (\<lambda>kv. - snd kv) duration_unit_ms"

fun render_duration :: "(string \<times> int) list \<Rightarrow> int \<Rightarrow> string" where
  "render_duration [] v = show_int v @ ''ms''"
| "render_duration ((unit, mult) # rest) v =
     (if v \<noteq> 0 \<and> v mod mult = 0 then show_int (v div mult) @ unit else render_duration rest v)"

fun operand_to_string :: "operand \<Rightarrow> string" where
  "operand_to_string (Ref n) = n"
| "operand_to_string (Lit v dur) = (if dur then render_duration duration_render v else show_int v)"

fun value_to_string :: "val \<Rightarrow> string" where
  "value_to_string (Operand x) = operand_to_string x"
| "value_to_string (Arith l a r) = operand_to_string l @ '' '' @ arith_text a @ '' '' @ operand_to_string r"

fun rhs_to_string :: "rhs \<Rightarrow> string" where
  "rhs_to_string (RhsValue v) = value_to_string v"
| "rhs_to_string (RhsAggregate f r) = agg_text f @ '' '' @ r"
| "rhs_to_string (RhsFormat template args) =
     ''format '' @ [CHR 0x22] @ template @ [CHR 0x22] @
       (if args \<noteq> [] then '' with '' @ join_sp args else [])"

fun condition_text :: "condition \<Rightarrow> string" where
  "condition_text (Presence f k) = f @ '' '' @ presence_text k"
| "condition_text (NumericPredicate f k) = f @ '' '' @ numeric_text k"
| "condition_text (Comparison l c r) = value_to_string l @ '' '' @ cmp_text c @ '' '' @ value_to_string r"
| "condition_text (And terms) = join '' and '' (map condition_text terms)"

definition condition_to_string :: "condition option \<Rightarrow> string option" where
  "condition_to_string c = map_option condition_text c"

text \<open>
  \<open>guard_condition_text\<close>: the one spelling of a guard with alternatives, for skip records.
  Joining with a missing primary condition would be a \<open>TypeError\<close>.
\<close>

definition guard_condition_text :: "string option \<Rightarrow> string list \<Rightarrow> cond_exc + string option" where
  "guard_condition_text cond alternatives =
     (if alternatives = [] then Inr cond
      else case cond of
        None \<Rightarrow> Inl (TypeErr ''sequence item 0: expected str'')
      | Some c \<Rightarrow> Inr (Some (join '' or '' (c # alternatives))))"

end
