(* ===== verification/Body.thy ===== *)
theory Body
  imports Condition
begin

text \<open>
  The workflow-body half of \<open>impl/lnpl/parser.py\<close>: \<open>_append_workflow_item\<close>, \<open>_otherwise_line\<close>,
  the two layout checks and \<open>_attach\<close>. The scratch keys of \<open>Decl.extra\<close> are the fields of
  \<open>body_state\<close>. A block dictionary is shared between \<open>decl.items\<close> and \<open>_open_block\<close>, and a
  guard item between \<open>decl.items\<close> and \<open>_otherwise_slot\<close>, so both are held by address: a block
  by its index in \<open>heap\<close>, a guard item by its index in \<open>items\<close>.
\<close>

section \<open>Data\<close>

record block =
  b_type :: string
  b_lineno :: nat
  b_steps :: "line list"
  b_name :: "string option"
  b_indent :: nat

record guard =
  g_mode :: string
  g_arg :: string
  g_lineno :: nat
  g_indent :: nat
  g_alts :: "string list"

datatype body = Step line | BlockAt nat

text \<open>
  \<open>{"item": "guard", ...}\<close> keeps what it guards and, once an \<open>otherwise\<close> filled its slot,
  that item with the line number of the \<open>otherwise\<close>.
\<close>

datatype item = Item body | GuardItem guard body "(body \<times> nat) option"

record visual =
  v_column :: nat
  v_lineno :: nat
  v_mode :: string

record otherwise_mark =
  o_slot :: nat
  o_lineno :: nat
  o_indent :: nat

record body_state =
  items :: "item list"
  heap :: "block list"
  open_block :: "nat option"
  pending_guard :: "guard option"
  pending_otherwise :: "otherwise_mark option"
  otherwise_slot :: "nat option"
  otherwise_refused :: "(string \<times> nat) option"
  guard_visual :: "visual option"

definition empty_body :: body_state where
  "empty_body = \<lparr>items = [], heap = [], open_block = None, pending_guard = None,
     pending_otherwise = None, otherwise_slot = None, otherwise_refused = None, guard_visual = None\<rparr>"

datatype body_error =
    MergeWithoutParallel
  | NestedInParallel
  | PipelineName
  | ParallelName
  | GuardNeedsArgument
  | RepeatNeedsCount
  | InvalidCondition cond_error
  | GuardInParallel
  | GuardAfterOtherwise nat
  | GuardAfterGuard nat
  | OrContinuesWhenOnly nat
  | OrNeedsCondition
  | OtherwiseWords
  | OtherwiseInParallel
  | OtherwiseBeforeItem nat
  | SecondOtherwise nat
  | OtherwiseRefused string nat
  | OtherwiseWithoutGuard
  | IndentedUnderGuard string nat
  | IndentedUnderPipeline nat

text \<open>A \<open>ParseError\<close> with its line, or an exception no handler of the parser catches.\<close>

datatype body_exc = BodyError nat body_error | BodyRaised cond_exc

section \<open>Reading the state\<close>

definition head_in :: "line \<Rightarrow> string list \<Rightarrow> bool" where
  "head_in l ws = (case line_head l of None \<Rightarrow> False | Some h \<Rightarrow> h \<in> set ws)"

definition open_type :: "body_state \<Rightarrow> string option" where
  "open_type st = map_option (\<lambda>b. b_type (heap st ! b)) (open_block st)"

section \<open>Layout checks\<close>

definition check_pipeline_layout :: "body_state \<Rightarrow> line \<Rightarrow> body_exc + unit" where
  "check_pipeline_layout st l =
     (case open_block st of
        None \<Rightarrow> Inr ()
      | Some b \<Rightarrow>
          if b_type (heap st ! b) \<noteq> ''pipeline'' then Inr ()
          else if indent l \<le> b_indent (heap st ! b) then Inr ()
          else Inl (BodyError (lineno l) (IndentedUnderPipeline (b_lineno (heap st ! b)))))"

text \<open>The tracked column is dropped whether or not the line passes.\<close>

definition check_guard_layout :: "body_state \<Rightarrow> line \<Rightarrow> body_exc + body_state" where
  "check_guard_layout st l =
     (case guard_visual st of
        None \<Rightarrow> Inr (st\<lparr>guard_visual := None\<rparr>)
      | Some v \<Rightarrow>
          if indent l \<le> v_column v then Inr (st\<lparr>guard_visual := None\<rparr>)
          else Inl (BodyError (lineno l) (IndentedUnderGuard (v_mode v) (v_lineno v))))"

section \<open>Placing an item\<close>

definition add_step :: "nat \<Rightarrow> line \<Rightarrow> body_state \<Rightarrow> body_state" where
  "add_step b l st = st\<lparr>heap := (heap st)[b := (heap st ! b)\<lparr>b_steps := b_steps (heap st ! b) @ [l]\<rparr>]\<rparr>"

fun fill_slot :: "item \<Rightarrow> body \<Rightarrow> nat \<Rightarrow> item" where
  "fill_slot (GuardItem g b _) x ln = GuardItem g b (Some (x, ln))"
| "fill_slot (Item b) x ln = Item b"

definition deeper :: "line \<Rightarrow> nat \<Rightarrow> nat \<Rightarrow> string \<Rightarrow> visual option \<Rightarrow> visual option" where
  "deeper l column ln mode old =
     (if indent l > column then Some \<lparr>v_column = column, v_lineno = ln, v_mode = mode\<rparr> else old)"

definition attach :: "body_state \<Rightarrow> body \<Rightarrow> line \<Rightarrow> body_exc + body_state" where
  "attach st x l =
     (case (open_block st, x) of
        (Some b, Step s) \<Rightarrow> Inr (add_step b s st)
      | _ \<Rightarrow>
        (case pending_otherwise st of
           Some p \<Rightarrow>
             Inr (st\<lparr>pending_otherwise := None,
                     items := (items st)[o_slot p := fill_slot (items st ! o_slot p) x (o_lineno p)],
                     guard_visual := deeper l (o_indent p) (o_lineno p) guard_otherwise_keyword (guard_visual st)\<rparr>)
         | None \<Rightarrow>
             let st = st\<lparr>otherwise_slot := None, otherwise_refused := None\<rparr> in
             (case pending_guard st of
                None \<Rightarrow> bindE (check_guard_layout st l) (\<lambda>st. Inr (st\<lparr>items := items st @ [Item x]\<rparr>))
              | Some g \<Rightarrow>
                  let st = st\<lparr>pending_guard := None\<rparr>;
                      st = (if g_mode g = ''when'' then st\<lparr>otherwise_slot := Some (length (items st))\<rparr>
                            else st\<lparr>otherwise_refused := Some (g_mode g, g_lineno g)\<rparr>) in
                  Inr (st\<lparr>guard_visual := deeper l (g_indent g) (g_lineno g) (g_mode g) (guard_visual st),
                          items := items st @ [GuardItem g x None]\<rparr>))))"

section \<open>The control lines\<close>

definition merge_line :: "body_state \<Rightarrow> line \<Rightarrow> body_exc + body_state" where
  "merge_line st l =
     (if open_type st \<noteq> Some ''parallel'' then Inl (BodyError (lineno l) MergeWithoutParallel)
      else Inr (st\<lparr>open_block := None\<rparr>))"

definition block_line :: "body_state \<Rightarrow> line \<Rightarrow> body_exc + body_state" where
  "block_line st l =
     (let head = hd (tokens l) in
      if open_type st = Some ''parallel'' then Inl (BodyError (lineno l) NestedInParallel)
      else if head = ''pipeline'' \<and> length (tokens l) > 2 then Inl (BodyError (lineno l) PipelineName)
      else if head = ''parallel'' \<and> length (tokens l) > 1 then Inl (BodyError (lineno l) ParallelName)
      else bindE (check_pipeline_layout st l) (\<lambda>_.
        let st = st\<lparr>open_block := None\<rparr>;
            b = length (heap st);
            blk = \<lparr>b_type = head, b_lineno = lineno l, b_steps = [],
                   b_name = (if length (tokens l) > 1 then Some (tokens l ! 1) else None),
                   b_indent = indent l\<rparr>;
            st = st\<lparr>heap := heap st @ [blk]\<rparr> in
        bindE (attach st (BlockAt b) l) (\<lambda>st. Inr (st\<lparr>open_block := Some b\<rparr>))))"

text \<open>\<open>try: parse_condition(...) except ConditionError\<close>: only a \<open>ConditionError\<close> is rewrapped.\<close>

definition validate_condition :: "line \<Rightarrow> string \<Rightarrow> body_exc + unit" where
  "validate_condition l text =
     (case parse_condition (Some text) of
        Inl (ConditionError e) \<Rightarrow> Inl (BodyError (lineno l) (InvalidCondition e))
      | Inl e \<Rightarrow> Inl (BodyRaised e)
      | Inr _ \<Rightarrow> Inr ())"

definition guard_line :: "body_state \<Rightarrow> line \<Rightarrow> body_exc + body_state" where
  "guard_line st l =
     (let head = hd (tokens l); arg = join_sp (tl (tokens l)) in
      if length (tokens l) < 2 then Inl (BodyError (lineno l) GuardNeedsArgument)
      else if head = ''repeat'' \<and> \<not> str_isdigit (tokens l ! 1) then Inl (BodyError (lineno l) RepeatNeedsCount)
      else bindE (if head \<in> {''when'', ''until''} then validate_condition l arg else Inr ()) (\<lambda>_.
      if open_type st = Some ''parallel'' then Inl (BodyError (lineno l) GuardInParallel)
      else bindE (check_pipeline_layout st l) (\<lambda>_.
      let st = st\<lparr>open_block := None\<rparr> in
      case pending_otherwise st of
        Some p \<Rightarrow> Inl (BodyError (lineno l) (GuardAfterOtherwise (o_lineno p)))
      | None \<Rightarrow>
      (case pending_guard st of
        Some g \<Rightarrow> Inl (BodyError (lineno l) (GuardAfterGuard (g_lineno g)))
      | None \<Rightarrow>
        bindE (check_guard_layout st l) (\<lambda>st.
          Inr (st\<lparr>pending_guard := Some \<lparr>g_mode = head, g_arg = arg, g_lineno = lineno l,
                                          g_indent = indent l, g_alts = []\<rparr>\<rparr>))))))"

definition alternative_line :: "body_state \<Rightarrow> line \<Rightarrow> guard \<Rightarrow> body_exc + body_state" where
  "alternative_line st l g =
     (if g_mode g \<noteq> ''when'' then Inl (BodyError (lineno l) (OrContinuesWhenOnly (g_lineno g)))
      else if length (tokens l) < 2 then Inl (BodyError (lineno l) OrNeedsCondition)
      else let arg = join_sp (tl (tokens l)) in
        bindE (validate_condition l arg) (\<lambda>_.
          Inr (st\<lparr>pending_guard := Some (g\<lparr>g_alts := g_alts g @ [arg]\<rparr>)\<rparr>)))"

text \<open>The line of an \<open>otherwise\<close> already given: the pending one, or the one in the open slot.\<close>

definition first_otherwise :: "body_state \<Rightarrow> nat option" where
  "first_otherwise st =
     (case pending_otherwise st of
        Some p \<Rightarrow> Some (o_lineno p)
      | None \<Rightarrow>
          (case otherwise_slot st of
             None \<Rightarrow> None
           | Some i \<Rightarrow> (case items st ! i of GuardItem _ _ (Some (_, ln)) \<Rightarrow> Some ln | _ \<Rightarrow> None)))"

definition otherwise_line :: "body_state \<Rightarrow> line \<Rightarrow> body_exc + body_state" where
  "otherwise_line st l =
     (if length (tokens l) \<noteq> 1 then Inl (BodyError (lineno l) OtherwiseWords)
      else if open_type st = Some ''parallel'' then Inl (BodyError (lineno l) OtherwiseInParallel)
      else bindE (check_pipeline_layout st l) (\<lambda>_.
      bindE (check_guard_layout (st\<lparr>open_block := None\<rparr>) l) (\<lambda>st.
      case pending_guard st of
        Some g \<Rightarrow> Inl (BodyError (lineno l) (OtherwiseBeforeItem (g_lineno g)))
      | None \<Rightarrow>
      (case first_otherwise st of
        Some ln \<Rightarrow> Inl (BodyError (lineno l) (SecondOtherwise ln))
      | None \<Rightarrow>
      (case otherwise_refused st of
        Some (mode, ln) \<Rightarrow> Inl (BodyError (lineno l) (OtherwiseRefused mode ln))
      | None \<Rightarrow>
      (case otherwise_slot st of
        None \<Rightarrow> Inl (BodyError (lineno l) OtherwiseWithoutGuard)
      | Some i \<Rightarrow>
          Inr (st\<lparr>pending_otherwise := Some \<lparr>o_slot = i, o_lineno = lineno l, o_indent = indent l\<rparr>\<rparr>)))))))"

text \<open>\<open>_append_workflow_item\<close>; an \<open>or\<close> with no pending guard is an ordinary step line.\<close>

definition append_workflow_item :: "body_state \<Rightarrow> line \<Rightarrow> body_exc + body_state" where
  "append_workflow_item st l =
     (if head_in l [''merge''] then merge_line st l
      else if head_in l [''parallel'', ''pipeline''] then block_line st l
      else if head_in l [''when'', ''until'', ''repeat''] then guard_line st l
      else case (if head_in l [guard_alt_keyword] then pending_guard st else None) of
        Some g \<Rightarrow> alternative_line st l g
      | None \<Rightarrow>
          if head_in l [guard_otherwise_keyword] then otherwise_line st l
          else attach st (Step l) l)"

text \<open>The checks \<open>parse\<close> makes once the source is read, in their order.\<close>

datatype end_error = UnclosedParallel | GuardsNothing | OtherwiseOwnsNothing nat

definition close_body :: "body_state \<Rightarrow> end_error + body_state" where
  "close_body st =
     (if open_type st = Some ''parallel'' then Inl UnclosedParallel
      else if pending_guard st \<noteq> None then Inl GuardsNothing
      else case pending_otherwise st of
        Some p \<Rightarrow> Inl (OtherwiseOwnsNothing (o_lineno p))
      | None \<Rightarrow> Inr (st\<lparr>guard_visual := None, open_block := None, otherwise_slot := None,
                         otherwise_refused := None\<rparr>))"

end
