(* ===== verification/Parser.thy ===== *)
theory Parser
  imports Body
begin

text \<open>
  The declaration half of \<open>impl/lnpl/parser.py\<close>: \<open>Decl\<close> and \<open>parse\<close>. The loop body of \<open>parse\<close>
  is \<open>parse_line\<close>, cut at its \<open>continue\<close> statements into \<open>top_line\<close> (a declaration keyword),
  \<open>clause_line\<close> (a bare clause keyword) and \<open>content_line\<close> (everything else). The current
  declaration is always the last one appended to \<open>decls\<close>, so it is held beside the earlier
  ones and put back when the next declaration starts or the source ends.
\<close>

section \<open>Data\<close>

definition service_clauses :: "string list" where
  "service_clauses = [''goal'', ''policy'', ''security'', ''performance'', ''database'', ''expose'']"

definition entity_clauses :: "string list" where
  "entity_clauses = [''field'']"

definition spec_sections :: "string list" where
  "spec_sections = [''given'', ''when'', ''expect'']"

definition workflow_clauses :: "string list" where
  "workflow_clauses = ''spec'' # spec_sections"

definition clause_owner :: "(string, string) dict" where
  "clause_owner = map (\<lambda>c. (c, ''service'')) service_clauses @ map (\<lambda>c. (c, ''entity'')) entity_clauses"

text \<open>One \<open>spec\<close> block; \<open>s_lines\<close> holds its three sections.\<close>

record spec_block =
  s_lines :: "(string, line list) dict"
  s_lineno :: nat
  s_opened :: "string list"
  s_indent :: nat
  s_section_indent :: "nat option"

text \<open>
  \<open>Decl\<close>, with the keys of \<open>extra\<close> that outlive the parse as fields of their own. \<open>d_lines\<close> is
  the \<open>items\<close> of a \<open>refine\<close>, \<open>event\<close> or \<open>capability http\<close> (plain lines), \<open>d_body\<close> that of a
  \<open>workflow\<close>.
\<close>

record decl =
  d_kind :: string
  d_name :: string
  d_lineno :: nat
  d_clauses :: "(string, line list) dict"
  d_lines :: "line list"
  d_body :: body_state
  d_capability_kind :: "string option"
  d_version :: "string option"
  d_schedule :: "(string \<times> string \<times> string) option"
  d_on :: "(string \<times> string) option"
  d_base :: "string option"
  d_specs :: "spec_block list"

definition new_decl :: "string \<Rightarrow> string \<Rightarrow> nat \<Rightarrow> decl" where
  "new_decl kind name ln = \<lparr>d_kind = kind, d_name = name, d_lineno = ln, d_clauses = [], d_lines = [],
     d_body = empty_body, d_capability_kind = None, d_version = None, d_schedule = None, d_on = None,
     d_base = None, d_specs = []\<rparr>"

datatype decl_error =
    NeedsName
  | CapabilityHttpShape
  | EventSource
  | ScheduleShape
  | EventTrigger string
  | RefineShape
  | TrailingTokens
  | BeforeAnyDeclaration
  | EntityClause
  | ServiceClause
  | TakesNoClauses
  | MisplacedClause "string option"
  | SectionOutsideSpec
  | SecondSection
  | ContentOutsideClause
  | StepAfterSpec nat

datatype parse_exc =
    LexFailure lex_error
  | BodyFailure body_exc
  | DeclFailure nat decl_error
  | EndFailure string end_error

record parser =
  p_done :: "decl list"
  p_cur :: "decl option"
  p_clause :: "string option"

abbreviation bad :: "line \<Rightarrow> decl_error \<Rightarrow> parse_exc + 'a" where
  "bad l e \<equiv> Inl (DeclFailure (lineno l) e)"

definition decls_of :: "parser \<Rightarrow> decl list" where
  "decls_of p = p_done p @ (case p_cur p of None \<Rightarrow> [] | Some d \<Rightarrow> [d])"

definition open_decl :: "parser \<Rightarrow> decl \<Rightarrow> parser" where
  "open_decl p d = \<lparr>p_done = decls_of p, p_cur = Some d, p_clause = None\<rparr>"

section \<open>A declaration line\<close>

definition require_name :: "line \<Rightarrow> parse_exc + string" where
  "require_name l = (if length (tokens l) < 2 then bad l NeedsName else Inr (tokens l ! 1))"

definition event_source :: "line \<Rightarrow> decl \<Rightarrow> parse_exc + decl" where
  "event_source l d =
     (let rest = drop 2 (tokens l) in
      if rest ! 0 \<noteq> ''on'' then bad l EventSource
      else if length rest > 1 \<and> rest ! 1 = schedule_keyword then
        (if length rest \<noteq> 6 \<or> rest ! 3 \<noteq> schedule_at then bad l ScheduleShape
         else Inr (d\<lparr>d_schedule := Some (rest ! 2, rest ! 4, rest ! 5)\<rparr>))
      else if length rest \<noteq> 3 then bad l EventSource
      else if rest ! 2 \<notin> {''create'', ''update'', ''delete''} then bad l (EventTrigger (rest ! 2))
      else Inr (d\<lparr>d_on := Some (rest ! 1, rest ! 2)\<rparr>))"

definition declaration_tail :: "string \<Rightarrow> line \<Rightarrow> decl \<Rightarrow> parse_exc + decl" where
  "declaration_tail head l d =
     (if head = ''event'' \<and> length (tokens l) > 2 then event_source l d
      else if head = ''capability'' \<and> length (tokens l) > 2 then Inr (d\<lparr>d_version := Some (tokens l ! 2)\<rparr>)
      else if head = ''refine'' then
        (let rest = drop 2 (tokens l) in
         if length rest \<noteq> 2 \<or> rest ! 0 \<noteq> ''of'' then bad l RefineShape
         else Inr (d\<lparr>d_base := Some (rest ! 1)\<rparr>))
      else if head \<noteq> ''event'' \<and> length (tokens l) > 2 then bad l TrailingTokens
      else Inr d)"

definition top_line :: "parser \<Rightarrow> string \<Rightarrow> line \<Rightarrow> parse_exc + parser" where
  "top_line p head l =
     (if head = ''capability'' \<and> length (tokens l) > 1 \<and> tokens l ! 1 = ''http'' then
        (if length (tokens l) \<noteq> 3 then bad l CapabilityHttpShape
         else Inr (open_decl p ((new_decl head (tokens l ! 2) (lineno l))\<lparr>d_capability_kind := Some ''http''\<rparr>)))
      else bindE (require_name l) (\<lambda>name.
           bindE (declaration_tail head l (new_decl head name (lineno l))) (\<lambda>d. Inr (open_decl p d))))"

section \<open>A clause keyword\<close>

definition new_spec :: "line \<Rightarrow> spec_block" where
  "new_spec l = \<lparr>s_lines = [(''given'', []), (''when'', []), (''expect'', [])], s_lineno = lineno l,
     s_opened = [], s_indent = indent l, s_section_indent = None\<rparr>"

definition update_last :: "('a \<Rightarrow> 'a) \<Rightarrow> 'a list \<Rightarrow> 'a list" where
  "update_last f xs = (if xs = [] then [] else butlast xs @ [f (last xs)])"

text \<open>The spec bookkeeping of a workflow's clause keyword.\<close>

definition clause_spec :: "string \<Rightarrow> line \<Rightarrow> decl \<Rightarrow> parse_exc + decl" where
  "clause_spec head l d =
     (if d_kind d = ''workflow'' \<and> head = ''spec'' then Inr (d\<lparr>d_specs := d_specs d @ [new_spec l]\<rparr>)
      else if d_kind d = ''workflow'' \<and> head \<in> set spec_sections \<and> d_specs d \<noteq> [] then
        (if head \<in> set (s_opened (last (d_specs d))) then bad l SecondSection
         else Inr (d\<lparr>d_specs := update_last
                (\<lambda>b. b\<lparr>s_opened := s_opened b @ [head], s_section_indent := Some (indent l)\<rparr>) (d_specs d)\<rparr>))
      else Inr d)"

definition clause_line :: "parser \<Rightarrow> decl \<Rightarrow> string \<Rightarrow> line \<Rightarrow> parse_exc + parser" where
  "clause_line p d head l =
     (if d_kind d = ''entity'' \<and> head \<noteq> ''field'' then bad l EntityClause
      else if d_kind d = ''service'' \<and> head \<notin> set service_clauses then bad l ServiceClause
      else if d_kind d \<in> {''event'', ''capability'', ''refine''} then bad l TakesNoClauses
      else if d_kind d = ''workflow'' \<and> head \<notin> set workflow_clauses then
        bad l (MisplacedClause (dget clause_owner head))
      else if d_kind d = ''workflow'' \<and> head \<in> set spec_sections \<and> d_specs d = [] then bad l SectionOutsideSpec
      else bindE (clause_spec head l d) (\<lambda>d.
        Inr (p\<lparr>p_clause := Some head, p_cur := Some (d\<lparr>d_clauses := dsetdefault head [] (d_clauses d)\<rparr>)\<rparr>)))"

section \<open>A content line\<close>

definition append_key :: "string \<Rightarrow> line \<Rightarrow> (string, line list) dict \<Rightarrow> (string, line list) dict" where
  "append_key k l d = dset k ((case dget d k of None \<Rightarrow> [] | Some ls \<Rightarrow> ls) @ [l]) d"

definition spec_content :: "string \<Rightarrow> line \<Rightarrow> decl \<Rightarrow> parse_exc + decl" where
  "spec_content clause l d =
     (let b = last (d_specs d) in
      if (case s_section_indent b of None \<Rightarrow> False | Some i \<Rightarrow> i > s_indent b \<and> indent l \<le> s_indent b)
      then bad l (StepAfterSpec (s_lineno b))
      else Inr (d\<lparr>d_specs := update_last (\<lambda>b. b\<lparr>s_lines := append_key clause l (s_lines b)\<rparr>) (d_specs d)\<rparr>))"

definition content_line :: "decl \<Rightarrow> string option \<Rightarrow> line \<Rightarrow> parse_exc + decl" where
  "content_line d clause l =
     (case clause of
        None \<Rightarrow>
          if d_kind d = ''workflow'' then
            (case append_workflow_item (d_body d) l of
               Inl e \<Rightarrow> Inl (BodyFailure e)
             | Inr b \<Rightarrow> Inr (d\<lparr>d_body := b\<rparr>))
          else if d_kind d = ''refine'' then Inr (d\<lparr>d_lines := d_lines d @ [l]\<rparr>)
          else if d_kind d = ''capability'' \<and> d_capability_kind d = Some ''http'' then
            Inr (d\<lparr>d_lines := d_lines d @ [l]\<rparr>)
          else if d_kind d = ''event'' then Inr (d\<lparr>d_lines := d_lines d @ [l]\<rparr>)
          else bad l ContentOutsideClause
      | Some k \<Rightarrow>
          if d_kind d = ''workflow'' \<and> k \<in> set spec_sections \<and> d_specs d \<noteq> [] then spec_content k l d
          else Inr (d\<lparr>d_clauses := append_key k l (d_clauses d)\<rparr>))"

section \<open>The loop\<close>

definition parse_line :: "line \<Rightarrow> parser \<Rightarrow> parse_exc + parser" where
  "parse_line l p =
     (if head_in l keywords_top then top_line p (hd (tokens l)) l
      else case p_cur p of
        None \<Rightarrow> bad l BeforeAnyDeclaration
      | Some d \<Rightarrow>
          if head_in l keywords_clause \<and> length (tokens l) = 1 then clause_line p d (hd (tokens l)) l
          else bindE (content_line d (p_clause p) l) (\<lambda>d. Inr (p\<lparr>p_cur := Some d\<rparr>)))"

definition finish_spec :: "spec_block \<Rightarrow> spec_block" where
  "finish_spec b = b\<lparr>s_opened := [], s_indent := 0, s_section_indent := None\<rparr>"

definition finish_decl :: "decl \<Rightarrow> parse_exc + decl" where
  "finish_decl d =
     (case close_body (d_body d) of
        Inl e \<Rightarrow> Inl (EndFailure (d_name d) e)
      | Inr b \<Rightarrow> Inr (d\<lparr>d_body := b, d_specs := map finish_spec (d_specs d)\<rparr>))"

definition empty_parser :: parser where
  "empty_parser = \<lparr>p_done = [], p_cur = None, p_clause = None\<rparr>"

definition parse_lines :: "line list \<Rightarrow> parse_exc + decl list" where
  "parse_lines ls = bindE (foldE parse_line ls empty_parser) (\<lambda>p. mapE finish_decl (decls_of p))"

definition parse :: "string \<Rightarrow> parse_exc + decl list" where
  "parse source =
     (case tokenize source of
        Inl e \<Rightarrow> Inl (LexFailure e)
      | Inr ls \<Rightarrow> parse_lines ls)"

end
