(* ===== verification/Instants.thy ===== *)
theory Instants
  imports Condition
begin

text \<open>
  The instant codec of \<open>impl/lnpl/condition.py\<close> (\<open>encode_instant\<close>, \<open>decode_instant\<close>): a zoned
  RFC 3339 timestamp is one UTC epoch-millisecond integer. The proleptic Gregorian calendar
  arithmetic is that of the standard library's \<open>datetime\<close> and \<open>calendar.timegm\<close>.
\<close>

section \<open>Calendar arithmetic of the standard library\<close>

definition is_leap :: "int \<Rightarrow> bool" where
  "is_leap y = (y mod 4 = 0 \<and> (y mod 100 \<noteq> 0 \<or> y mod 400 = 0))"

definition days_before_year :: "int \<Rightarrow> int" where
  "days_before_year y = (y - 1) * 365 + (y - 1) div 4 - (y - 1) div 100 + (y - 1) div 400"

definition month_starts :: "int list" where
  "month_starts = [-1, 0, 31, 59, 90, 120, 151, 181, 212, 243, 273, 304, 334]"

definition month_lengths :: "int list" where
  "month_lengths = [-1, 31, 28, 31, 30, 31, 30, 31, 31, 30, 31, 30, 31]"

definition days_before_month :: "int \<Rightarrow> nat \<Rightarrow> int" where
  "days_before_month y m = month_starts ! m + (if m > 2 \<and> is_leap y then 1 else 0)"

definition ymd2ord :: "int \<Rightarrow> nat \<Rightarrow> int \<Rightarrow> int" where
  "ymd2ord y m d = days_before_year y + days_before_month y m + d"

definition epoch_ord :: int where "epoch_ord = 719163"

definition max_ordinal :: int where "max_ordinal = 3652059"

text \<open>\<open>calendar.timegm((year, month, day, 0, 0, 0, ...))\<close>; \<open>date(year, month, 1)\<close> may refuse.\<close>

definition timegm :: "nat \<Rightarrow> nat \<Rightarrow> nat \<Rightarrow> int option" where
  "timegm year month day =
     (if 1 \<le> year \<and> year \<le> 9999 \<and> 1 \<le> month \<and> month \<le> 12
      then Some ((ymd2ord (int year) month 1 - epoch_ord + int day - 1) * 86400)
      else None)"

text \<open>
  \<open>_ord2ymd\<close> of \<open>datetime\<close>: 400-, 100-, 4- and 1-year cycles, then an estimate of the month
  from the zero-based day of the year, corrected when it is one too high.
\<close>

definition month_step :: "bool \<Rightarrow> int \<Rightarrow> nat \<times> int" where
  "month_step leap u =
     (let month = nat ((u + 50) div 32);
          preceding = month_starts ! month + (if month > 2 \<and> leap then 1 else 0)
      in if preceding > u
         then (month - 1,
               u - (preceding - (month_lengths ! (month - 1) + (if month - 1 = 2 \<and> leap then 1 else 0))) + 1)
         else (month, u - preceding + 1))"

definition ord2ymd :: "int \<Rightarrow> int \<times> nat \<times> int" where
  "ord2ymd n0 =
     (let n = n0 - 1;
          n400 = n div 146097; a = n mod 146097;
          n100 = a div 36524; b = a mod 36524;
          n4 = b div 1461; c = b mod 1461;
          n1 = c div 365; u = c mod 365;
          year = 400 * n400 + 100 * n100 + 4 * n4 + n1 + 1
      in if n1 = 4 \<or> n100 = 4 then (year - 1, 12, 31)
         else (year, month_step (n1 = 3 \<and> (n4 \<noteq> 24 \<or> n100 = 3)) u))"

section \<open>Matching a timestamp\<close>

datatype zone = Zulu | Offset bool nat nat

record instant_fields =
  f_year :: nat
  f_month :: nat
  f_day :: nat
  f_hour :: nat
  f_minute :: nat
  f_second :: nat
  f_frac :: "string option"
  f_zone :: zone

definition num_field :: "nat \<Rightarrow> string \<Rightarrow> (nat \<times> string) option" where
  "num_field k s = (if length (take k s) = k \<and> list_all is_decimal_c (take k s)
     then Some (digits_val (take k s), drop k s) else None)"

definition one_of :: "string \<Rightarrow> string \<Rightarrow> string option" where
  "one_of cs s = (case s of [] \<Rightarrow> None | c # r \<Rightarrow> if c \<in> set cs then Some r else None)"

text \<open>The common prefix of both regular expressions, with the rest of the text.\<close>

definition match_shape :: "string \<Rightarrow> ((nat \<times> nat \<times> nat \<times> nat \<times> nat \<times> nat) \<times> string) option" where
  "match_shape s =
     Option.bind (num_field 4 s) (\<lambda>(y, s). Option.bind (one_of ''-'' s) (\<lambda>s.
     Option.bind (num_field 2 s) (\<lambda>(mo, s). Option.bind (one_of ''-'' s) (\<lambda>s.
     Option.bind (num_field 2 s) (\<lambda>(d, s). Option.bind (one_of ''Tt '' s) (\<lambda>s.
     Option.bind (num_field 2 s) (\<lambda>(h, s). Option.bind (one_of '':'' s) (\<lambda>s.
     Option.bind (num_field 2 s) (\<lambda>(mi, s). Option.bind (one_of '':'' s) (\<lambda>s.
     Option.bind (num_field 2 s) (\<lambda>(sec, s). Some ((y, mo, d, h, mi, sec), s))))))))))))"

definition match_frac :: "string \<Rightarrow> string option \<times> string" where
  "match_frac s = (case s of [] \<Rightarrow> (None, s)
     | c # r \<Rightarrow> if c = CHR ''.'' \<and> takeWhile is_decimal_c r \<noteq> []
                then (Some (takeWhile is_decimal_c r), dropWhile is_decimal_c r) else (None, s))"

definition at_end :: "string \<Rightarrow> bool" where
  "at_end s = (s = [] \<or> s = [CHR 0x0A])"

definition match_zone :: "string \<Rightarrow> zone option" where
  "match_zone s =
     (case one_of ''Zz'' s of
        Some r \<Rightarrow> if at_end r then Some Zulu else None
      | None \<Rightarrow>
          Option.bind (one_of ''+-'' s) (\<lambda>r.
          Option.bind (num_field 2 r) (\<lambda>(h, r).
            let r' = (case one_of '':'' r of Some q \<Rightarrow> q | None \<Rightarrow> r) in
            Option.bind (num_field 2 r') (\<lambda>(m, q).
              if at_end q then Some (Offset (hd s = CHR ''+'') h m) else None))))"

definition match_instant :: "string \<Rightarrow> instant_fields option" where
  "match_instant s =
     Option.bind (match_shape s) (\<lambda>((y, mo, d, h, mi, sec), r).
       let (frac, r') = match_frac r in
       Option.bind (match_zone r') (\<lambda>z.
         Some \<lparr>f_year = y, f_month = mo, f_day = d, f_hour = h, f_minute = mi, f_second = sec,
               f_frac = frac, f_zone = z\<rparr>))"

definition is_instant_text :: "string \<Rightarrow> bool" where
  "is_instant_text s = (match_instant s \<noteq> None)"

definition looks_like_instant :: "string \<Rightarrow> bool" where
  "looks_like_instant s = (match_shape s \<noteq> None)"

section \<open>Encoding and decoding\<close>

definition frac_millis :: "string option \<Rightarrow> nat" where
  "frac_millis frac = digits_val (take 3 ((case frac of None \<Rightarrow> ''0'' | Some ds \<Rightarrow> ds) @ ''000''))"

definition zone_offset_ms :: "zone \<Rightarrow> int" where
  "zone_offset_ms z = (case z of Zulu \<Rightarrow> 0
     | Offset east h m \<Rightarrow> (if east then 1 else -1) * ((int h * 3600 + int m * 60) * 1000))"

definition encode_instant :: "string \<Rightarrow> cond_exc + int" where
  "encode_instant s =
     (case match_instant s of
        None \<Rightarrow> Inl (ConditionError (if looks_like_instant s then ZonelessDateTime else NotDateTime))
      | Some f \<Rightarrow>
          (case timegm (f_year f) (f_month f) (f_day f) of
             None \<Rightarrow> Inl (ConditionError NotValidDate)
           | Some secs \<Rightarrow>
               if \<not> (1 \<le> f_month f \<and> f_month f \<le> 12 \<and> 1 \<le> f_day f \<and> f_day f \<le> 31 \<and>
                     f_hour f \<le> 23 \<and> f_minute f \<le> 59 \<and> f_second f \<le> 60)
               then Inl (ConditionError NotValidDateTime)
               else let total = (secs + int (f_hour f) * 3600 + int (f_minute f) * 60 + int (f_second f)) * 1000
                          + int (frac_millis (f_frac f)) - zone_offset_ms (f_zone f)
                    in if in_int64 total then Inr total else Inl (ConditionError InstantOutOfRange)))"

definition pad_to :: "nat \<Rightarrow> nat \<Rightarrow> string" where
  "pad_to w k = replicate (w - length (show_nat k)) CHR ''0'' @ show_nat k"

definition render_instant :: "nat \<Rightarrow> nat \<Rightarrow> nat \<Rightarrow> nat \<Rightarrow> nat \<Rightarrow> nat \<Rightarrow> nat \<Rightarrow> string" where
  "render_instant y mo d h mi s ms =
     pad_to 4 y @ ''-'' @ pad_to 2 mo @ ''-'' @ pad_to 2 d @ ''T'' @ pad_to 2 h @ '':'' @
     pad_to 2 mi @ '':'' @ pad_to 2 s @ ''.'' @ pad_to 3 ms @ ''Z''"

definition decode_instant :: "int \<Rightarrow> cond_exc + string" where
  "decode_instant ms =
     (let days = ms div 86400000; rem = ms mod 86400000; ordinal = epoch_ord + days in
      if 1 \<le> ordinal \<and> ordinal \<le> max_ordinal
      then let (y, mo, d) = ord2ymd ordinal in
           Inr (render_instant (nat y) mo (nat d) (nat (rem div 3600000)) (nat (rem div 60000 mod 60))
                 (nat (rem div 1000 mod 60)) (nat (rem mod 1000)))
      else Inl (ConditionError InstantOutOfRange))"

section \<open>The calendar functions are inverse to each other\<close>

lemma days_before_year_digits:
  assumes "0 \<le> b" "b \<le> 3" "0 \<le> c" "c \<le> 24" "0 \<le> d" "d \<le> 3"
  shows "days_before_year (400 * a + 100 * b + 4 * c + d + 1) = 146097 * a + 36524 * b + 1461 * c + 365 * d"
proof -
  let ?y = "400 * a + 100 * b + 4 * c + d"
  have "?y div 4 = 100 * a + 25 * b + c" by (rule int_div_pos_eq[of _ _ _ d]) (use assms in simp_all)
  moreover have "?y div 100 = 4 * a + b"
    by (rule int_div_pos_eq[of _ _ _ "4 * c + d"]) (use assms in simp_all)
  moreover have "?y div 400 = a"
    by (rule int_div_pos_eq[of _ _ _ "100 * b + 4 * c + d"]) (use assms in simp_all)
  ultimately show ?thesis by (simp add: days_before_year_def)
qed

text \<open>The month of a day of the year, checked for each of the 365 days and both leap flags.\<close>

definition month_step_ok :: "bool \<Rightarrow> int \<Rightarrow> bool" where
  "month_step_ok leap u =
     (let (m, d) = month_step leap u in
      1 \<le> m \<and> m \<le> 12 \<and> 1 \<le> d \<and> d \<le> 31 \<and>
      month_starts ! m + (if m > 2 \<and> leap then 1 else 0) + d = u + 1)"

lemma month_step_all:
  "list_all (month_step_ok False) (map int [0..<365]) \<and> list_all (month_step_ok True) (map int [0..<365])"
  by code_simp

lemma month_step_ok: assumes "0 \<le> u" "u < 365" shows "month_step_ok leap u"
proof -
  have "u = int (nat u)" "nat u < 365" using assms by auto
  then have "u \<in> set (map int [0..<365])" by (metis atLeastLessThan_iff image_eqI le0 list.set_map set_upt)
  with month_step_all show ?thesis by (cases leap) (auto simp: list_all_iff)
qed

lemma mod_0_between:
  fixes r k q :: int
  assumes "1 \<le> r" "r \<le> k" shows "(k * q + r) mod k = 0 \<longleftrightarrow> r = k"
proof (cases "r = k")
  case False
  have "(k * q + r) mod k = r" by (rule int_mod_pos_eq[of _ _ q]) (use assms False in simp_all)
  with False assms show ?thesis by simp
qed simp

lemma is_leap_digits:
  assumes "0 \<le> b" "b \<le> 3" "0 \<le> c" "c \<le> 24" "0 \<le> d" "d \<le> 3"
  shows "is_leap (400 * a + 100 * b + 4 * c + d + 1) \<longleftrightarrow> (d = 3 \<and> (c \<noteq> 24 \<or> b = 3))"
proof -
  let ?y = "400 * a + 100 * b + 4 * c + d + 1"
  have y: "?y = 4 * (100 * a + 25 * b + c) + (d + 1)" "?y = 100 * (4 * a + b) + (4 * c + d + 1)"
    "?y = 400 * a + (100 * b + 4 * c + d + 1)" by simp_all
  have A: "?y mod 4 = 0 \<longleftrightarrow> d = 3"
    unfolding y(1) by (subst mod_0_between) (use assms in auto)
  have B: "?y mod 100 = 0 \<longleftrightarrow> c = 24 \<and> d = 3"
    unfolding y(2) by (subst mod_0_between) (use assms in \<open>simp, simp, linarith\<close>)
  have C: "?y mod 400 = 0 \<longleftrightarrow> b = 3 \<and> c = 24 \<and> d = 3"
    unfolding y(3) by (subst mod_0_between) (use assms in \<open>simp, simp, linarith\<close>)
  show ?thesis unfolding is_leap_def A B C by blast
qed

lemma ord2ymd_parts:
  fixes n :: int
  defines "a \<equiv> (n - 1) div 146097" and "r \<equiv> (n - 1) mod 146097"
  defines "b \<equiv> r div 36524" and "s \<equiv> r mod 36524"
  defines "c \<equiv> s div 1461" and "t \<equiv> s mod 1461"
  defines "d \<equiv> t div 365" and "u \<equiv> t mod 365"
  shows "n - 1 = 146097 * a + 36524 * b + 1461 * c + 365 * d + u"
    and "0 \<le> b" "b \<le> 4" "0 \<le> c" "c \<le> 24" "0 \<le> d" "d \<le> 4" "0 \<le> u" "u < 365"
    and "b = 4 \<Longrightarrow> c = 0 \<and> d = 0 \<and> u = 0" and "d = 4 \<Longrightarrow> u = 0" and "d = 4 \<Longrightarrow> b \<le> 3 \<and> (c \<noteq> 24 \<or> b = 3)"
proof -
  have r: "0 \<le> r" "r < 146097" by (simp_all add: r_def)
  have rb: "r = 36524 * b + s" "0 \<le> s" "s < 36524" by (simp_all add: b_def s_def)
  have sc: "s = 1461 * c + t" "0 \<le> t" "t < 1461" by (simp_all add: c_def t_def)
  have td: "t = 365 * d + u" "0 \<le> u" "u < 365" by (simp_all add: d_def u_def)
  have na: "n - 1 = 146097 * a + r" by (simp add: a_def r_def)
  from na rb(1) sc(1) td(1) show "n - 1 = 146097 * a + 36524 * b + 1461 * c + 365 * d + u" by linarith
  from r rb show b: "0 \<le> b" "b \<le> 4" by linarith+
  from rb sc show c: "0 \<le> c" "c \<le> 24" by linarith+
  from sc td show d: "0 \<le> d" "d \<le> 4" by linarith+
  from td show "0 \<le> u" "u < 365" by simp_all
  show b4: "c = 0 \<and> d = 0 \<and> u = 0" if "b = 4"
  proof -
    from that r rb have "s = 0" by linarith
    with sc c have "c = 0" "t = 0" by linarith+
    with td d show ?thesis by linarith
  qed
  show "u = 0" if "d = 4" using that sc td by linarith
  show "b \<le> 3 \<and> (c \<noteq> 24 \<or> b = 3)" if "d = 4"
  proof -
    from that b4 b have "b \<le> 3" by fastforce
    moreover have "c \<noteq> 24" if "b \<le> 3"
    proof
      assume "c = 24"
      with \<open>d = 4\<close> sc td have "s \<ge> 36524" by linarith
      with rb show False by simp
    qed
    ultimately show ?thesis by blast
  qed
qed

lemma div_pred:
  fixes y k :: int
  assumes "0 < k" shows "y div k = (y - 1) div k + (if y mod k = 0 then 1 else 0)"
proof (cases "y mod k = 0")
  case True
  have "(y - 1) div k = y div k - 1"
  proof (rule int_div_pos_eq[of _ _ _ "k - 1"])
    show "y - 1 = k * (y div k - 1) + (k - 1)"
      using mult_div_mod_eq[of k y] True by (simp add: algebra_simps)
  qed (use assms in simp_all)
  with True show ?thesis by simp
next
  case False
  then have "0 < y mod k" using pos_mod_sign[OF assms, of y] by simp
  have "(y - 1) div k = y div k"
  proof (rule int_div_pos_eq[of _ _ _ "y mod k - 1"])
    show "y - 1 = k * (y div k) + (y mod k - 1)" using mult_div_mod_eq[of k y] by linarith
    show "0 \<le> y mod k - 1" using \<open>0 < y mod k\<close> by simp
    show "y mod k - 1 < k" using pos_mod_bound[OF assms, of y] by simp
  qed
  with False show ?thesis by simp
qed

lemma year_roll_arith:
  fixes y q4 q100 q400 r4 r100 r400 :: int
  assumes "q4 = r4 + (if A then 1 else 0)" and "q100 = r100 + (if B then 1 else 0)"
    and "q400 = r400 + (if C then 1 else 0)" and "C \<Longrightarrow> B" and "B \<Longrightarrow> A"
  shows "y * 365 + q4 - q100 + q400 =
    (y - 1) * 365 + r4 - r100 + r400 + 365 + (if A \<and> (\<not> B \<or> C) then 1 else 0)"
  using assms by auto

lemma year_roll: "days_before_year (y + 1) = days_before_year y + 365 + (if is_leap y then 1 else 0)"
proof -
  have d: "400 dvd y \<Longrightarrow> 100 dvd y" "100 dvd y \<Longrightarrow> 4 dvd y"
    by (rule dvd_trans[of 100 400], simp_all) (rule dvd_trans[of 4 100], simp_all)
  have CB: "y mod 400 = 0 \<Longrightarrow> y mod 100 = 0" and BA: "y mod 100 = 0 \<Longrightarrow> y mod 4 = 0"
    using d unfolding mod_eq_0_iff_dvd by blast+
  have q: "y div 4 = (y - 1) div 4 + (if y mod 4 = 0 then 1 else 0)"
    "y div 100 = (y - 1) div 100 + (if y mod 100 = 0 then 1 else 0)"
    "y div 400 = (y - 1) div 400 + (if y mod 400 = 0 then 1 else 0)"
    by (rule div_pred, simp)+
  show ?thesis
    unfolding days_before_year_def is_leap_def add_diff_cancel_right'
    by (rule year_roll_arith[OF q CB BA])
qed

lemma ord2ymd_correct:
  assumes "1 \<le> n"
  shows "case ord2ymd n of (y, m, d) \<Rightarrow>
    1 \<le> y \<and> 1 \<le> m \<and> m \<le> 12 \<and> 1 \<le> d \<and> d \<le> 31 \<and> ymd2ord y m d = n"
proof -
  define a r b s c t d u where "a = (n - 1) div 146097" and "r = (n - 1) mod 146097"
    and "b = r div 36524" and "s = r mod 36524" and "c = s div 1461" and "t = s mod 1461"
    and "d = t div 365" and "u = t mod 365"
  note parts = ord2ymd_parts[of n, folded a_def r_def, folded b_def s_def, folded c_def t_def, folded d_def u_def]
  define y where "y = 400 * a + 100 * b + 4 * c + d + 1"
  have a: "0 \<le> a" using assms by (simp add: a_def pos_imp_zdiv_nonneg_iff)
  have unfold: "ord2ymd n = (if d = 4 \<or> b = 4 then (y - 1, 12, 31)
      else (y, month_step (d = 3 \<and> (c \<noteq> 24 \<or> b = 3)) u))"
    unfolding ord2ymd_def Let_def a_def r_def b_def s_def c_def t_def d_def u_def y_def
    by (rule refl)
  show ?thesis
  proof (cases "d = 4 \<or> b = 4")
    case False
    with parts have b: "b \<le> 3" and d: "d \<le> 3" by linarith+
    obtain m e where me: "month_step (d = 3 \<and> (c \<noteq> 24 \<or> b = 3)) u = (m, e)" by fastforce
    with month_step_ok[OF parts(8,9), of "d = 3 \<and> (c \<noteq> 24 \<or> b = 3)"]
    have ok: "1 \<le> m" "m \<le> 12" "1 \<le> e" "e \<le> 31"
      "month_starts ! m + (if m > 2 \<and> (d = 3 \<and> (c \<noteq> 24 \<or> b = 3)) then 1 else 0) + e = u + 1"
      by (auto simp: month_step_ok_def)
    have "ymd2ord y m e = n"
      using parts(1) ok(5) days_before_year_digits[OF parts(2) b parts(4,5,6) d, of a]
        is_leap_digits[OF parts(2) b parts(4,5,6) d, of a]
      unfolding ymd2ord_def days_before_month_def y_def by simp
    moreover have "1 \<le> y" using a parts by (simp add: y_def)
    ultimately show ?thesis using unfold False me ok by simp
  next
    case True
    have last: "ymd2ord (y - 1) 12 31 = days_before_year y" if "1 < y" "is_leap (y - 1)"
      using year_roll[of "y - 1"] that
      by (simp add: ymd2ord_def days_before_month_def month_starts_def)
    have "1 < y \<and> is_leap (y - 1) \<and> days_before_year y = n"
    proof (cases "b = 4")
      case True
      with parts(10) have z: "c = 0" "d = 0" "u = 0" by auto
      have y: "y = 400 * (a + 1) + 1" using True z by (simp add: y_def)
      then have "days_before_year y = 146097 * (a + 1)"
        using days_before_year_digits[of 0 0 0 "a + 1"] by simp
      with parts(1) True z y a show ?thesis by (simp add: is_leap_def)
    next
      case False
      with True have d: "d = 4" by blast
      from parts(11,12)[OF d] have u: "u = 0" and b: "b \<le> 3" and cb: "c \<noteq> 24 \<or> b = 3" by auto
      have leap: "is_leap (y - 1)"
        using is_leap_digits[OF parts(2) b parts(4,5), of 3 a] cb d by (simp add: y_def)
      have "1 < y" using a parts d by (simp add: y_def)
      moreover have "days_before_year y = n"
        using year_roll[of "y - 1"] leap \<open>1 < y\<close> parts(1) u d
          days_before_year_digits[OF parts(2) b parts(4,5), of 3 a]
        by (simp add: y_def)
      ultimately show ?thesis using leap by blast
    qed
    with last unfold True show ?thesis by simp
  qed
qed

end
