(* ===== verification/PyVal.thy ===== *)
theory PyVal
  imports PyNum
begin

text \<open>
  The values the runtime handles: what a JSON payload, a stored row or a response holds. A Python
  \<open>float\<close> is not modelled (the evaluation channel of the language is integer-only and every reader
  of a value refuses one as non-numeric).
\<close>

datatype pyval =
    PNone
  | PBool bool
  | PInt int
  | PStr string
  | PList "pyval list"
  | PDict "(string \<times> pyval) list"

type_synonym row = "(string, pyval) dict"

text \<open>\<open>d.get(k)\<close>.\<close>

definition pget :: "row \<Rightarrow> string \<Rightarrow> pyval" where
  "pget d k = (case dget d k of None \<Rightarrow> PNone | Some v \<Rightarrow> v)"

section \<open>Equality\<close>

text \<open>
  Python's \<open>==\<close>: a bool is the integer 0 or 1, dictionaries compare without their order.
\<close>

lemma size_map_of [termination_simp]: "map_of d k = Some v \<Longrightarrow> size v < Suc (size_list (size_prod (\<lambda>_. 0) size) d)"
  by (induction d) (auto split: if_splits)

lemma size_dict_mem [termination_simp]:
  "(k, v) \<in> set d \<Longrightarrow> size v < Suc (size_list (size_prod (\<lambda>_. 0) size) d)"
  by (induction d) auto

fun py_eq :: "pyval \<Rightarrow> pyval \<Rightarrow> bool" where
  "py_eq PNone PNone = True"
| "py_eq (PBool a) (PBool b) = (a = b)"
| "py_eq (PBool a) (PInt n) = ((if a then 1 else 0) = n)"
| "py_eq (PInt n) (PBool a) = (n = (if a then 1 else 0))"
| "py_eq (PInt m) (PInt n) = (m = n)"
| "py_eq (PStr s) (PStr t) = (s = t)"
| "py_eq (PList xs) (PList ys) = list_all2 py_eq xs ys"
| "py_eq (PDict d) (PDict e) =
     (length d = length e \<and>
      list_all (\<lambda>(k, v). case dget e k of None \<Rightarrow> False | Some w \<Rightarrow> py_eq v w) d)"
| "py_eq _ _ = False"

text \<open>Values whose dictionaries have distinct keys, as every Python dictionary does.\<close>

fun val_ok :: "pyval \<Rightarrow> bool" where
  "val_ok (PList xs) = list_all val_ok xs"
| "val_ok (PDict d) = (dict_ok d \<and> list_all (\<lambda>(k, v). val_ok v) d)"
| "val_ok _ = True"

lemma py_eq_refl: "val_ok v \<Longrightarrow> py_eq v v"
proof (induction v)
  case (PList xs)
  then show ?case by (auto simp: list_all_iff list_all2_conv_all_nth)
next
  case (PDict d)
  have "case dget d k of None \<Rightarrow> False | Some w \<Rightarrow> py_eq v w" if "(k, v) \<in> set d" for k v
  proof -
    have "dget d k = Some v" using that PDict.prems by (simp add: map_of_is_SomeI)
    moreover have "py_eq v v" using PDict that by (auto simp: list_all_iff)
    ultimately show ?thesis by simp
  qed
  then show ?case by (auto simp: list_all_iff)
qed simp_all

end
