(* ===== verification/Money.thy ===== *)
theory Money
  imports PyVal
begin

text \<open>
  \<open>impl/lnpl/money.py\<close>: the evaluation channel of \<open>Money\<close>. A wire value
  \<open>{"amount": decimal-string, "currency": alpha-3}\<close> is encoded as one minor-unit integer with its
  currency. \<open>decimal.Decimal\<close> is standard library: its constructor, its division in the default
  28-digit context and \<open>quantize\<close> are written out here. \<open>_decode_money\<close> of \<open>interp.py\<close>, the
  inverse of the encoder, is here too.
\<close>

section \<open>Errors and tables\<close>

text \<open>The subclasses of \<open>MoneyError\<close> by their \<open>code\<close>; \<open>MoneyValueError\<close> is a \<open>ValueError\<close>.\<close>

datatype money_code = EncodePrecision | CurrencyMismatch | LiteralScale | MoneyRange

datatype money_exc = MoneyError money_code | MoneyValueError

definition currency_exponent :: "(string, nat) dict" where
  "currency_exponent =
   [(''BIF'', 0), (''CLP'', 0), (''DJF'', 0), (''GNF'', 0), (''ISK'', 0), (''JPY'', 0), (''KMF'', 0), (''KRW'', 0),
    (''PYG'', 0), (''RWF'', 0), (''UGX'', 0), (''VND'', 0), (''VUV'', 0), (''XAF'', 0), (''XOF'', 0), (''XPF'', 0),
    (''BHD'', 3), (''IQD'', 3), (''JOD'', 3), (''KWD'', 3), (''LYD'', 3), (''OMR'', 3), (''TND'', 3)]"

definition active_currency_codes :: "string list" where
  "active_currency_codes =
   [''AED'', ''AFN'', ''ALL'', ''AMD'', ''AOA'', ''ARS'', ''AUD'', ''AWG'', ''AZN'', ''BAM'', ''BBD'', ''BDT'',
    ''BHD'', ''BIF'', ''BMD'', ''BND'', ''BOB'', ''BOV'', ''BRL'', ''BSD'', ''BTN'', ''BWP'', ''BYN'', ''BZD'',
    ''CAD'', ''CDF'', ''CHE'', ''CHF'', ''CHW'', ''CLF'', ''CLP'', ''CNY'', ''COP'', ''COU'', ''CRC'', ''CUP'',
    ''CVE'', ''CZK'', ''DJF'', ''DKK'', ''DOP'', ''DZD'', ''EGP'', ''ERN'', ''ETB'', ''EUR'', ''FJD'', ''FKP'',
    ''GBP'', ''GEL'', ''GHS'', ''GIP'', ''GMD'', ''GNF'', ''GTQ'', ''GYD'', ''HKD'', ''HNL'', ''HTG'', ''HUF'',
    ''IDR'', ''ILS'', ''INR'', ''IQD'', ''IRR'', ''ISK'', ''JMD'', ''JOD'', ''JPY'', ''KES'', ''KGS'', ''KHR'',
    ''KMF'', ''KPW'', ''KRW'', ''KWD'', ''KYD'', ''KZT'', ''LAK'', ''LBP'', ''LKR'', ''LRD'', ''LSL'', ''LYD'',
    ''MAD'', ''MDL'', ''MGA'', ''MKD'', ''MMK'', ''MNT'', ''MOP'', ''MRU'', ''MUR'', ''MVR'', ''MWK'', ''MXN'',
    ''MXV'', ''MYR'', ''MZN'', ''NAD'', ''NGN'', ''NIO'', ''NOK'', ''NPR'', ''NZD'', ''OMR'', ''PAB'', ''PEN'',
    ''PGK'', ''PHP'', ''PKR'', ''PLN'', ''PYG'', ''QAR'', ''RON'', ''RSD'', ''RUB'', ''RWF'', ''SAR'', ''SBD'',
    ''SCR'', ''SDG'', ''SEK'', ''SGD'', ''SHP'', ''SLE'', ''SOS'', ''SRD'', ''SSP'', ''STN'', ''SVC'', ''SYP'',
    ''SZL'', ''THB'', ''TJS'', ''TMT'', ''TND'', ''TOP'', ''TRY'', ''TTD'', ''TWD'', ''TZS'', ''UAH'', ''UGX'',
    ''USD'', ''USN'', ''UYI'', ''UYU'', ''UYW'', ''UZS'', ''VED'', ''VES'', ''VND'', ''VUV'', ''XAF'', ''XAG'',
    ''XAU'', ''XBA'', ''XBB'', ''XBC'', ''XBD'', ''XCD'', ''XDR'', ''XOF'', ''XPD'', ''XPF'', ''XPT'', ''XSU'',
    ''XTS'', ''XUA'', ''XXX'', ''YER'', ''ZAR'', ''ZMW'', ''ZWG'']"

definition is_upper_az :: "char \<Rightarrow> bool" where
  "is_upper_az c = (65 \<le> ord c \<and> ord c \<le> 90)"

text \<open>\<open>^[A-Z]{3}$\<close>; \<open>$\<close> also matches before one trailing line feed.\<close>

definition is_alpha3 :: "string \<Rightarrow> bool" where
  "is_alpha3 s = (length (take 3 s) = 3 \<and> list_all is_upper_az (take 3 s) \<and> (drop 3 s = [] \<or> drop 3 s = [CHR 0x0A]))"

definition exponent :: "pyval \<Rightarrow> money_exc + nat" where
  "exponent currency =
     (case currency of
        PStr s \<Rightarrow>
          if \<not> is_alpha3 s then Inl (MoneyError EncodePrecision)
          else (case dget currency_exponent s of
                  Some n \<Rightarrow> Inr n
                | None \<Rightarrow> if s \<in> set active_currency_codes then Inr 2 else Inl (MoneyError EncodePrecision))
      | _ \<Rightarrow> Inl (MoneyError EncodePrecision))"

section \<open>The Decimal constructor\<close>

text \<open>\<open>Decimal.as_tuple()\<close> of a finite value: sign, coefficient digits without leading zeros, exponent.\<close>

record decimal =
  dec_neg :: bool
  dec_digits :: string
  dec_exp :: int

definition normal_digits :: "string \<Rightarrow> string" where
  "normal_digits ds = (let r = dropWhile (\<lambda>c. c = CHR ''0'') ds in if r = [] then ''0'' else r)"

text \<open>\<open>(E[+-]?digits)?\<close> at the end of the text.\<close>

definition decimal_exponent :: "string \<Rightarrow> int option" where
  "decimal_exponent s =
     (case s of
        [] \<Rightarrow> Some 0
      | c # r \<Rightarrow>
          if c = CHR ''E'' \<or> c = CHR ''e'' then
            (let (sgn, ds) = split_sign r in
             if ds \<noteq> [] \<and> list_all is_decimal_c ds then Some (sgn * int (digits_val ds)) else None)
          else None)"

text \<open>The bound libmpdec puts on the adjusted exponent; past it the constructor raises.\<close>

definition max_emax :: int where "max_emax = 999999999999999999"

definition min_etiny :: int where "min_etiny = - 1999999999999999996"

text \<open>
  \<open>Decimal(text)\<close> for a finite result; \<open>None\<close> stands for an exception as well as for an infinity
  or a NaN, which the only caller treats alike.
\<close>

definition decimal_of_string :: "string \<Rightarrow> decimal option" where
  "decimal_of_string text =
     (let (sgn, s) = split_sign (filter (\<lambda>c. c \<noteq> CHR ''_'') (strip text));
          ip = takeWhile is_decimal_c s; r = dropWhile is_decimal_c s;
          (fp, r') = (case r of [] \<Rightarrow> ([], [])
                      | c # q \<Rightarrow> if c = CHR ''.'' then (takeWhile is_decimal_c q, dropWhile is_decimal_c q)
                                 else ([], r)) in
      if ip @ fp = [] then None
      else (case decimal_exponent r' of
              None \<Rightarrow> None
            | Some e \<Rightarrow>
                let ds = normal_digits (ip @ fp); x = e - int (length fp) in
                if x + int (length ds) - 1 > max_emax \<or> x < min_etiny then None
                else Some \<lparr>dec_neg = (sgn = -1), dec_digits = ds, dec_exp = x\<rparr>))"

section \<open>Encoding and decoding\<close>

type_synonym money = "int \<times> string"

definition encode_money :: "pyval \<Rightarrow> pyval \<Rightarrow> money_exc + money" where
  "encode_money amount currency =
     bindE (exponent currency) (\<lambda>xp.
     case amount of
       PStr a \<Rightarrow>
         (case decimal_of_string a of
            None \<Rightarrow> Inl (MoneyError EncodePrecision)
          | Some d \<Rightarrow>
              let places = (if dec_exp d < 0 then - dec_exp d else 0) in
              if places \<noteq> int xp then Inl (MoneyError EncodePrecision)
              else (case int_of_digits (dec_digits d) of
                      None \<Rightarrow> Inl MoneyValueError
                    | Some n \<Rightarrow>
                        let unscaled = (if dec_exp d > 0 then int n * 10 ^ nat (dec_exp d) else int n);
                            minor = (if dec_neg d then - unscaled else unscaled) in
                        if in_int64 minor
                        then (case currency of PStr c \<Rightarrow> Inr (minor, c) | _ \<Rightarrow> Inl (MoneyError EncodePrecision))
                        else Inl (MoneyError EncodePrecision)))
     | _ \<Rightarrow> Inl (MoneyError EncodePrecision))"

text \<open>\<open>digits.rjust(exp + 1, "0")\<close>, the point before the last \<open>exp\<close> digits.\<close>

definition money_amount :: "nat \<Rightarrow> int \<Rightarrow> string" where
  "money_amount xp minor =
     (let digits = show_nat (nat \<bar>minor\<bar>);
          padded = replicate (Suc xp - length digits) CHR ''0'' @ digits;
          amount = (if xp = 0 then digits
                    else take (length padded - xp) padded @ ''.'' @ drop (length padded - xp) padded) in
      (if minor < 0 then ''-'' else []) @ amount)"

definition decode_money :: "money \<Rightarrow> money_exc + pyval" where
  "decode_money m =
     (case m of (minor, currency) \<Rightarrow>
        bindE (exponent (PStr currency)) (\<lambda>xp.
          Inr (PDict [(''amount'', PStr (money_amount xp minor)), (''currency'', PStr currency)])))"

section \<open>Money literals of a spec\<close>

definition split_literal :: "string \<Rightarrow> (string \<times> string option \<times> string) option" where
  "split_literal token =
     (let ip = takeWhile is_decimal_c token; r = dropWhile is_decimal_c token;
          (fp, r') = (case r of [] \<Rightarrow> (None, [])
                      | c # q \<Rightarrow> if c = CHR ''.'' \<and> takeWhile is_decimal_c q \<noteq> []
                                 then (Some (takeWhile is_decimal_c q), dropWhile is_decimal_c q)
                                 else (None, r)) in
      if ip \<noteq> [] \<and> is_alpha3 r' then Some (ip, fp, take 3 r') else None)"

definition parse_money_literal :: "string \<Rightarrow> money_exc + pyval option" where
  "parse_money_literal token =
     (case split_literal token of
        None \<Rightarrow> Inr None
      | Some (ip, fp, currency) \<Rightarrow>
          bindE (exponent (PStr currency)) (\<lambda>xp.
            if (case fp of None \<Rightarrow> 0 | Some f \<Rightarrow> length f) \<noteq> xp then Inl (MoneyError LiteralScale)
            else Inr (Some (PDict
              [(''amount'', PStr (case fp of None \<Rightarrow> ip | Some f \<Rightarrow> ip @ ''.'' @ f)),
               (''currency'', PStr currency)]))))"

section \<open>Arithmetic\<close>

definition money_compare :: "money \<Rightarrow> money \<Rightarrow> money_exc + int" where
  "money_compare a b =
     (if snd a \<noteq> snd b then Inl (MoneyError CurrencyMismatch)
      else Inr ((if fst a > fst b then 1 else 0) - (if fst a < fst b then 1 else 0)))"

definition money_add :: "money \<Rightarrow> money \<Rightarrow> money_exc + money" where
  "money_add a b =
     (if snd a \<noteq> snd b then Inl (MoneyError CurrencyMismatch) else Inr (fst a + fst b, snd a))"

definition in_domain :: "int \<Rightarrow> string \<Rightarrow> money_exc + money" where
  "in_domain minor currency =
     (if in_int64 minor then Inr (minor, currency) else Inl (MoneyError MoneyRange))"

definition money_sub :: "money \<Rightarrow> money \<Rightarrow> money_exc + money" where
  "money_sub a b =
     (if snd a \<noteq> snd b then Inl (MoneyError CurrencyMismatch) else in_domain (fst a - fst b) (snd a))"

definition money_mul_int :: "money \<Rightarrow> int \<Rightarrow> money_exc + money" where
  "money_mul_int a n = in_domain (fst a * n) (snd a)"

section \<open>Averages\<close>

text \<open>Number of decimal digits, and division by a power of ten rounded half to even.\<close>

definition num_digits :: "nat \<Rightarrow> nat" where
  "num_digits n = length (show_nat n)"

definition div_half_even :: "nat \<Rightarrow> nat \<Rightarrow> nat" where
  "div_half_even n d =
     (let q = n div d; r = n mod d in
      if 2 * r < d then q else if 2 * r > d then Suc q else if even q then q else Suc q)"

definition dec_prec :: nat where "dec_prec = 28"

text \<open>
  \<open>Decimal(a) / Decimal(b)\<close> of non-negative integers: a coefficient of at least one digit more than
  the precision, its last digit made sticky when the quotient is inexact, then rounded to the
  precision. The value is \<open>coefficient * 10 ^ - scale\<close>; an exact quotient has its trailing zeros
  stripped by the library, which changes no value.
\<close>

definition dec_divide :: "nat \<Rightarrow> nat \<Rightarrow> nat \<times> int" where
  "dec_divide a b =
     (let shift = int (num_digits b) - int (num_digits a) + int dec_prec + 1;
          (n, d) = (if shift \<ge> 0 then (a * 10 ^ nat shift, b) else (a, b * 10 ^ nat (- shift)));
          c = n div d;
          coeff = (if n mod d \<noteq> 0 \<and> c mod 5 = 0 then Suc c else c) in
      if num_digits coeff > dec_prec
      then (div_half_even coeff (10 ^ (num_digits coeff - dec_prec)), shift - int (num_digits coeff - dec_prec))
      else (coeff, shift))"

text \<open>\<open>quantize(Decimal(1), ROUND_HALF_EVEN)\<close>; more digits than the precision raise.\<close>

definition dec_quantize :: "nat \<times> int \<Rightarrow> nat option" where
  "dec_quantize x =
     (case x of (coeff, scale) \<Rightarrow>
        let q = (if scale \<ge> 0 then div_half_even coeff (10 ^ nat scale) else coeff * 10 ^ nat (- scale)) in
        if num_digits q > dec_prec then None else Some q)"

datatype avg_exc = AvgValueError | AvgInvalidOperation

definition avg_round :: "int \<Rightarrow> int \<Rightarrow> avg_exc + int" where
  "avg_round tot count =
     (if count \<le> 0 then Inl AvgValueError
      else case dec_quantize (dec_divide (nat \<bar>tot\<bar>) (nat count)) of
        None \<Rightarrow> Inl AvgInvalidOperation
      | Some q \<Rightarrow> Inr (if tot < 0 then - int q else int q))"

end
