(* ===== verification/Values.thy ===== *)
theory Values
  imports Instants Money
begin

text \<open>
  The evaluation half of \<open>impl/lnpl/interp.py\<close>: references against the scope of a run, guard
  conditions, assignment values in the signed 64-bit domain, Money arithmetic, and the values
  of a \<open>list where\<close> predicate. \<open>RunError\<close> is the runtime's own failure; \<open>Escaped\<close> stands for a
  Python exception none of these functions catches.
\<close>

section \<open>Errors and scope\<close>

datatype run_error =
    InvalidGuard cond_error
  | OutOfInt64
  | NotNumeric string
  | BadInstant cond_error
  | MoneyFault money_code
  | MoneyWithNumber
  | MoneyByMoney
  | MoneyOpNumber
  | DivisionByZero
  | NotMoney string
  | TextWithNonText
  | MissingField string
  | AvgOfEmpty
  | MinMaxOfEmpty
  | NonMoneyRow
  | NonNumericRow
  | NonDateTimeRow
  | BeginNested
  | CreateConflict string
  | CacheWithoutTtl
  | LookupUnresolved string string
  | AssignUnbound string
  | AssignNothing string
  | AssignNoEntity string
  | IdRequired string
  | RowNotFound string string
  | PathRefUnresolved string
  | NetworkFailed string
  | EventMissing
  | EventUndeclared string
  | Rejected string
  | NotExecutable string
  | DeadlineExhausted string
  | UnknownGuardMode string
  | BadBodyKind string
  | NoSuchWorkflow string
  | DanglingConstraint string
  | NotDuration string
  | DurationTooLarge string
  | RunContextUnknown
  | RunContextNotText string
  | UndeclaredEntity string
  | DerivedSupplied string
  | MissingRequired string
  | FieldNull string
  | NotOfType string string
  | FieldEmpty string
  | NotInEnum string string
  | TooShort string string
  | TooLong string string
  | PatternMismatch string string
  | NotANumber string string
  | BoundViolated string string

text \<open>
  \<open>PyNodeError\<close> is the \<open>KeyError\<close> of \<open>self.nodes[id]\<close>, or of a key that the node found does not have;
  \<open>PyKeyError\<close> is that of any other dictionary.
\<close>

datatype py_exc = PyValueError | PyTypeError | PyKeyError | PyNodeError | PyIndexError | PyDecimalError | PyMoneyError
  | PyConditionError | PyRecursionError | PyAttributeError

datatype run_exc = RunError run_error | Escaped py_exc

record scope =
  sc_payload :: row
  sc_bindings :: "(string, pyval) dict"
  sc_caller :: "row option"
  sc_response :: "row option"

definition caller_namespace :: string where "caller_namespace = ''caller''"

text \<open>\<open>resolve_reference\<close>; the callers that pass no \<open>response\<close> go through \<open>no_response\<close>.\<close>

definition resolve_reference :: "scope \<Rightarrow> string \<Rightarrow> pyval" where
  "resolve_reference sc name =
     (case ref_namespace name of
        None \<Rightarrow>
          (case sc_response sc of
             None \<Rightarrow> pget (sc_payload sc) name
           | Some r \<Rightarrow> (case dget r name of Some v \<Rightarrow> v | None \<Rightarrow> pget (sc_payload sc) name))
      | Some binding \<Rightarrow>
          if binding = caller_namespace then
            (case sc_caller sc of None \<Rightarrow> PNone | Some c \<Rightarrow> pget c (ref_field name))
          else if binding = payload_namespace then pget (sc_payload sc) (ref_field name)
          else (case pget (sc_bindings sc) binding of
                  PDict row \<Rightarrow> pget row (ref_field name)
                | _ \<Rightarrow> PNone))"

definition no_response :: "scope \<Rightarrow> scope" where
  "no_response sc = sc\<lparr>sc_response := None\<rparr>"

definition checked :: "int \<Rightarrow> run_exc + int" where
  "checked n = (if in_int64 n then Inr n else Inl (RunError OutOfInt64))"

definition of_money :: "money_exc + 'a \<Rightarrow> run_exc + 'a" where
  "of_money m = (case m of
      Inr x \<Rightarrow> Inr x
    | Inl (MoneyError c) \<Rightarrow> Inl (RunError (MoneyFault c))
    | Inl MoneyValueError \<Rightarrow> Inl (Escaped PyValueError))"

section \<open>Values\<close>

text \<open>What a \<open>Value\<close> evaluates to: an integer or a \<open>(minor, currency)\<close> pair.\<close>

datatype num = Num int | Pair money

definition is_instant_shaped :: "string \<Rightarrow> bool" where
  "is_instant_shaped s = (is_instant_text s \<or> looks_like_instant s)"

text \<open>A resolved reference read as a number (the \<open>Ref\<close> branch of \<open>eval_value\<close>).\<close>

definition read_number :: "string \<Rightarrow> pyval \<Rightarrow> run_exc + num option" where
  "read_number name w =
     (case w of
        PNone \<Rightarrow> Inr None
      | PBool b \<Rightarrow> Inr (Some (Num (if b then 1 else 0)))
      | PInt n \<Rightarrow> bindE (checked n) (\<lambda>n. Inr (Some (Num n)))
      | PStr s \<Rightarrow>
          if is_instant_shaped s then
            (case encode_instant s of
               Inr ms \<Rightarrow> bindE (checked ms) (\<lambda>n. Inr (Some (Num n)))
             | Inl (ConditionError e) \<Rightarrow> Inl (RunError (BadInstant e))
             | Inl _ \<Rightarrow> Inl (Escaped PyValueError))
          else (case py_int s of
                  Some n \<Rightarrow> bindE (checked n) (\<lambda>n. Inr (Some (Num n)))
                | None \<Rightarrow> Inl (RunError (NotNumeric name)))
      | PDict d \<Rightarrow>
          (case (dget d ''amount'', dget d ''currency'') of
             (Some a, Some c) \<Rightarrow> bindE (of_money (encode_money a c)) (\<lambda>m. Inr (Some (Pair m)))
           | _ \<Rightarrow> Inl (RunError (NotNumeric name)))
      | PList _ \<Rightarrow> Inl (RunError (NotNumeric name)))"

text \<open>Truncating division, as the source computes it from the absolute values.\<close>

definition trunc_div :: "int \<Rightarrow> int \<Rightarrow> int" where
  "trunc_div l r = (let quotient = \<bar>l\<bar> div \<bar>r\<bar> in if (l < 0) \<noteq> (r < 0) then - quotient else quotient)"

definition int_arith :: "arith_op \<Rightarrow> int \<Rightarrow> int \<Rightarrow> run_exc + int" where
  "int_arith op l r =
     (case op of
        OpAdd \<Rightarrow> checked (l + r)
      | OpSub \<Rightarrow> checked (l - r)
      | OpMul \<Rightarrow> checked (l * r)
      | OpDiv \<Rightarrow> if r = 0 then Inl (RunError DivisionByZero) else checked (trunc_div l r))"

definition eval_money_arith :: "arith_op \<Rightarrow> num \<Rightarrow> num \<Rightarrow> run_exc + num" where
  "eval_money_arith op left right =
     bindE (case (left, right) of
              (Pair a, Pair b) \<Rightarrow>
                (case op of
                   OpAdd \<Rightarrow> of_money (money_add a b)
                 | OpSub \<Rightarrow> of_money (money_sub a b)
                 | _ \<Rightarrow> Inl (RunError MoneyByMoney))
            | (Pair a, Num n) \<Rightarrow>
                if op \<noteq> OpMul then Inl (RunError MoneyOpNumber) else of_money (money_mul_int a n)
            | (Num n, Pair a) \<Rightarrow>
                if op \<noteq> OpMul then Inl (RunError MoneyOpNumber) else of_money (money_mul_int a n)
            | (Num _, Num _) \<Rightarrow> Inl (Escaped PyTypeError))
       (\<lambda>m. bindE (checked (fst m)) (\<lambda>minor. Inr (Pair (minor, snd m))))"

definition eval_operand :: "scope \<Rightarrow> operand \<Rightarrow> run_exc + num option" where
  "eval_operand sc x =
     (case x of
        Lit v _ \<Rightarrow> Inr (Some (Num v))
      | Ref name \<Rightarrow> read_number name (resolve_reference sc name))"

definition eval_value :: "scope \<Rightarrow> val \<Rightarrow> run_exc + num option" where
  "eval_value sc v =
     (case v of
        Operand x \<Rightarrow> eval_operand sc x
      | Arith l op r \<Rightarrow>
          bindE (eval_operand sc l) (\<lambda>left.
          bindE (eval_operand sc r) (\<lambda>right.
            (case (left, right) of
               (Some (Num a), Some (Num b)) \<Rightarrow> bindE (int_arith op a b) (\<lambda>n. Inr (Some (Num n)))
             | (Some a, Some b) \<Rightarrow> bindE (eval_money_arith op a b) (\<lambda>n. Inr (Some n))
             | _ \<Rightarrow> Inr None))))"

section \<open>Conditions\<close>

text \<open>One entry of the \<open>collector\<close>, the evaluations a skipped guard reports.\<close>

record evaluation =
  ev_ref :: string
  ev_value :: pyval
  ev_op :: string
  ev_expected :: pyval
  ev_holds :: bool

type_synonym verdict = "bool \<times> evaluation list"

definition num_wire :: "num option \<Rightarrow> run_exc + pyval" where
  "num_wire n = (case n of
      None \<Rightarrow> Inr PNone
    | Some (Num k) \<Rightarrow> Inr (PInt k)
    | Some (Pair m) \<Rightarrow> (case decode_money m of Inr v \<Rightarrow> Inr v | Inl _ \<Rightarrow> Inl (Escaped PyMoneyError)))"

definition cmp_int :: "cmp_op \<Rightarrow> int \<Rightarrow> int \<Rightarrow> bool" where
  "cmp_int op l r = (case op of OpLt \<Rightarrow> l < r | OpLe \<Rightarrow> l \<le> r | OpGt \<Rightarrow> l > r | OpGe \<Rightarrow> l \<ge> r
     | OpEq \<Rightarrow> l = r | OpNe \<Rightarrow> l \<noteq> r)"

definition cmp_money :: "cmp_op \<Rightarrow> money \<Rightarrow> money \<Rightarrow> run_exc + bool" where
  "cmp_money op a b =
     (case op of
        OpEq \<Rightarrow> Inr (a = b)
      | OpNe \<Rightarrow> Inr (a \<noteq> b)
      | _ \<Rightarrow> bindE (of_money (money_compare a b)) (\<lambda>c. Inr (cmp_int op c 0)))"

definition cmp_num :: "cmp_op \<Rightarrow> num option \<Rightarrow> num option \<Rightarrow> run_exc + bool" where
  "cmp_num op left right =
     (case (left, right) of
        (Some (Num a), Some (Num b)) \<Rightarrow> Inr (cmp_int op a b)
      | (Some (Pair a), Some (Pair b)) \<Rightarrow> cmp_money op a b
      | (Some _, Some _) \<Rightarrow> Inl (RunError MoneyWithNumber)
      | _ \<Rightarrow> Inr False)"

text \<open>\<open>_is_text_term\<close>: the recorded operands of the guard decide, else the \<open>text_fields\<close> predicate.\<close>

definition text_operand :: "string list \<Rightarrow> (string \<Rightarrow> bool) option \<Rightarrow> val \<Rightarrow> bool" where
  "text_operand recorded text_fields v =
     (case v of
        Operand (Ref name) \<Rightarrow>
          if recorded \<noteq> [] then name \<in> set recorded
          else (case text_fields of None \<Rightarrow> False | Some f \<Rightarrow> ref_namespace name \<noteq> None \<and> f name)
      | _ \<Rightarrow> False)"

definition is_text_term :: "string list \<Rightarrow> (string \<Rightarrow> bool) option \<Rightarrow> val \<Rightarrow> val \<Rightarrow> bool" where
  "is_text_term recorded text_fields l r =
     (text_operand recorded text_fields l \<or> text_operand recorded text_fields r)"

definition text_of :: "scope \<Rightarrow> val \<Rightarrow> run_exc + pyval" where
  "text_of sc v =
     (case v of
        Operand (Ref name) \<Rightarrow>
          Inr (if ref_namespace name = None then PStr name else resolve_reference sc name)
      | _ \<Rightarrow> Inl (RunError TextWithNonText))"

definition text_comparison_holds :: "scope \<Rightarrow> val \<Rightarrow> cmp_op \<Rightarrow> val \<Rightarrow> run_exc + verdict" where
  "text_comparison_holds sc l op r =
     bindE (text_of (no_response sc) l) (\<lambda>left.
     bindE (text_of (no_response sc) r) (\<lambda>right.
       let holds = (if left = PNone \<or> right = PNone then False
                    else if op = OpEq then py_eq left right else \<not> py_eq left right) in
       Inr (holds, [\<lparr>ev_ref = value_to_string l, ev_value = left, ev_op = cmp_text op,
                     ev_expected = right, ev_holds = holds\<rparr>])))"

definition comparison_holds ::
  "scope \<Rightarrow> string list \<Rightarrow> (string \<Rightarrow> bool) option \<Rightarrow> val \<Rightarrow> cmp_op \<Rightarrow> val \<Rightarrow> run_exc + verdict" where
  "comparison_holds sc recorded text_fields l op r =
     (if op \<in> {OpEq, OpNe} \<and> is_text_term recorded text_fields l r
      then text_comparison_holds sc l op r
      else bindE (eval_value sc l) (\<lambda>left.
           bindE (eval_value sc r) (\<lambda>right.
           bindE (cmp_num op left right) (\<lambda>holds.
           bindE (num_wire left) (\<lambda>lw.
           bindE (num_wire right) (\<lambda>rw.
             Inr (holds, [\<lparr>ev_ref = value_to_string l, ev_value = lw, ev_op = cmp_text op,
                           ev_expected = rw, ev_holds = holds\<rparr>])))))))"

text \<open>\<open>_is_numeric_shaped\<close>.\<close>

definition is_numeric_shaped :: "pyval \<Rightarrow> bool" where
  "is_numeric_shaped w =
     (case w of
        PBool _ \<Rightarrow> True
      | PInt _ \<Rightarrow> True
      | PStr s \<Rightarrow>
          if is_instant_shaped s then (case encode_instant s of Inr _ \<Rightarrow> True | Inl _ \<Rightarrow> False)
          else py_int s \<noteq> None
      | _ \<Rightarrow> False)"

definition numeric_predicate_holds :: "scope \<Rightarrow> string \<Rightarrow> numeric_kind \<Rightarrow> verdict" where
  "numeric_predicate_holds sc field kind =
     (let w = resolve_reference (no_response sc) field;
          holds = (if kind = IsNumeric then is_numeric_shaped w else \<not> is_numeric_shaped w) in
      (holds, [\<lparr>ev_ref = field, ev_value = w, ev_op = numeric_text kind, ev_expected = PNone, ev_holds = holds\<rparr>]))"

definition presence_holds :: "scope \<Rightarrow> string \<Rightarrow> presence_kind \<Rightarrow> verdict" where
  "presence_holds sc field kind =
     (let w = resolve_reference sc field;
          holds = (if kind = Exists then w \<noteq> PNone else w = PNone) in
      (holds, [\<lparr>ev_ref = field, ev_value = w, ev_op = presence_text kind, ev_expected = PNone, ev_holds = holds\<rparr>]))"

text \<open>One term under \<open>and\<close>: a numeric predicate or a comparison.\<close>

definition and_term_holds ::
  "scope \<Rightarrow> string list \<Rightarrow> (string \<Rightarrow> bool) option \<Rightarrow> condition \<Rightarrow> run_exc + verdict" where
  "and_term_holds sc recorded text_fields t =
     (case t of
        NumericPredicate f k \<Rightarrow> Inr (numeric_predicate_holds sc f k)
      | Comparison l op r \<Rightarrow> comparison_holds sc recorded text_fields l op r
      | _ \<Rightarrow> Inl (Escaped PyTypeError))"

definition condition_verdict ::
  "scope \<Rightarrow> string list \<Rightarrow> (string \<Rightarrow> bool) option \<Rightarrow> condition \<Rightarrow> run_exc + verdict" where
  "condition_verdict sc recorded text_fields c =
     (case c of
        Presence f k \<Rightarrow> Inr (presence_holds sc f k)
      | Comparison l op r \<Rightarrow> comparison_holds sc recorded text_fields l op r
      | NumericPredicate f k \<Rightarrow> Inr (numeric_predicate_holds sc f k)
      | And terms \<Rightarrow>
          bindE (mapE (and_term_holds sc recorded text_fields) terms) (\<lambda>results.
            Inr (list_all fst results, concat (map snd results))))"

text \<open>A Money value of an \<open>expect result\<close>: indexing anything but a dictionary with both keys fails.\<close>

definition indexed_money :: "string \<Rightarrow> pyval \<Rightarrow> run_exc + money" where
  "indexed_money ref v =
     (case v of
        PDict d \<Rightarrow>
          (case (dget d ''amount'', dget d ''currency'') of
             (Some a, Some c) \<Rightarrow> of_money (encode_money a c)
           | _ \<Rightarrow> Inl (RunError (NotMoney ref)))
      | _ \<Rightarrow> Inl (RunError (NotMoney ref)))"

text \<open>The \<open>money_fields\<close> branch: \<open>None\<close> falls through to the ordinary path.\<close>

definition money_literal_holds ::
  "scope \<Rightarrow> (string \<Rightarrow> bool) option \<Rightarrow> string \<Rightarrow> run_exc + bool option" where
  "money_literal_holds sc money_fields condition =
     (case (money_fields, split_ws condition) of
        (Some is_money, [ref, op, lit]) \<Rightarrow>
          (case cmp_of_token op of
             None \<Rightarrow> Inr None
           | Some c \<Rightarrow>
               if \<not> is_money ref then Inr None
               else bindE (of_money (parse_money_literal lit)) (\<lambda>parsed.
                 (case parsed of
                    None \<Rightarrow> Inr None
                  | Some p \<Rightarrow>
                      let actual = resolve_reference sc ref in
                      if c = OpEq then Inr (Some (py_eq actual p))
                      else if c = OpNe then Inr (Some (\<not> py_eq actual p))
                      else bindE (indexed_money ref actual) (\<lambda>a.
                           bindE (indexed_money ref p) (\<lambda>b.
                           bindE (cmp_money c a b) (\<lambda>h. Inr (Some h)))))))
      | _ \<Rightarrow> Inr None)"

definition condition_holds ::
  "scope \<Rightarrow> (string \<Rightarrow> bool) option \<Rightarrow> string list \<Rightarrow> (string \<Rightarrow> bool) option \<Rightarrow> string option \<Rightarrow> run_exc + verdict" where
  "condition_holds sc money_fields recorded text_fields condition =
     (case condition of
        None \<Rightarrow> Inr (True, [])
      | Some s \<Rightarrow>
          bindE (money_literal_holds sc money_fields s) (\<lambda>direct.
            (case direct of
               Some h \<Rightarrow> Inr (h, [])
             | None \<Rightarrow>
                 (case parse_condition (Some s) of
                    Inl (ConditionError e) \<Rightarrow> Inl (RunError (InvalidGuard e))
                  | Inl _ \<Rightarrow> Inl (Escaped PyValueError)
                  | Inr None \<Rightarrow> Inr (True, [])
                  | Inr (Some c) \<Rightarrow> condition_verdict sc recorded text_fields c))))"

section \<open>Predicate values\<close>

text \<open>
  \<open>_resolve_predicate_value\<close> works on stored representations, so its operators are Python's own on
  whatever the two sides hold.
\<close>

definition as_int :: "pyval \<Rightarrow> int option" where
  "as_int v = (case v of PInt n \<Rightarrow> Some n | PBool b \<Rightarrow> Some (if b then 1 else 0) | _ \<Rightarrow> None)"

definition py_add :: "pyval \<Rightarrow> pyval \<Rightarrow> run_exc + pyval" where
  "py_add a b =
     (case (as_int a, as_int b) of
        (Some m, Some n) \<Rightarrow> Inr (PInt (m + n))
      | _ \<Rightarrow> (case (a, b) of
                (PStr s, PStr t) \<Rightarrow> Inr (PStr (s @ t))
              | (PList xs, PList ys) \<Rightarrow> Inr (PList (xs @ ys))
              | _ \<Rightarrow> Inl (Escaped PyTypeError)))"

definition py_sub :: "pyval \<Rightarrow> pyval \<Rightarrow> run_exc + pyval" where
  "py_sub a b =
     (case (as_int a, as_int b) of
        (Some m, Some n) \<Rightarrow> Inr (PInt (m - n))
      | _ \<Rightarrow> Inl (Escaped PyTypeError))"

definition repeat_list :: "int \<Rightarrow> 'a list \<Rightarrow> 'a list" where
  "repeat_list n xs = concat (replicate (nat n) xs)"

definition py_mul :: "pyval \<Rightarrow> pyval \<Rightarrow> run_exc + pyval" where
  "py_mul a b =
     (case (as_int a, as_int b) of
        (Some m, Some n) \<Rightarrow> Inr (PInt (m * n))
      | (Some m, None) \<Rightarrow>
          (case b of PStr s \<Rightarrow> Inr (PStr (repeat_list m s)) | PList xs \<Rightarrow> Inr (PList (repeat_list m xs))
           | _ \<Rightarrow> Inl (Escaped PyTypeError))
      | (None, Some n) \<Rightarrow>
          (case a of PStr s \<Rightarrow> Inr (PStr (repeat_list n s)) | PList xs \<Rightarrow> Inr (PList (repeat_list n xs))
           | _ \<Rightarrow> Inl (Escaped PyTypeError))
      | _ \<Rightarrow> Inl (Escaped PyTypeError))"

definition py_trunc_div :: "pyval \<Rightarrow> pyval \<Rightarrow> run_exc + pyval" where
  "py_trunc_div a b =
     (if as_int b = Some 0 then Inl (RunError DivisionByZero)
      else case (as_int a, as_int b) of
        (Some m, Some n) \<Rightarrow> Inr (PInt (trunc_div m n))
      | _ \<Rightarrow> Inl (Escaped PyTypeError))"

definition predicate_operand :: "scope \<Rightarrow> operand \<Rightarrow> pyval" where
  "predicate_operand sc x = (case x of Lit v _ \<Rightarrow> PInt v | Ref name \<Rightarrow> resolve_reference (no_response sc) name)"

definition resolve_predicate_value :: "scope \<Rightarrow> val \<Rightarrow> run_exc + pyval" where
  "resolve_predicate_value sc v =
     (case v of
        Operand x \<Rightarrow> Inr (predicate_operand sc x)
      | Arith l op r \<Rightarrow>
          let left = predicate_operand sc l; right = predicate_operand sc r in
          if left = PNone \<or> right = PNone then Inr PNone
          else (case op of
                  OpAdd \<Rightarrow> py_add left right
                | OpSub \<Rightarrow> py_sub left right
                | OpMul \<Rightarrow> py_mul left right
                | OpDiv \<Rightarrow> py_trunc_div left right))"

end
