(* ===== verification/Aggregates.thy ===== *)
theory Aggregates
  imports Values
begin

text \<open>
  \<open>eval_aggregate\<close> with its \<open>sum\<close>/\<open>avg\<close> and \<open>min\<close>/\<open>max\<close> halves, \<open>eval_format\<close>, and the three
  payload filters of \<open>impl/lnpl/interp.py\<close> (\<open>strip_schema_gen\<close>, \<open>mask_payload\<close>,
  \<open>omit_masked_fields\<close>).
\<close>

section \<open>Rows of an aggregate\<close>

text \<open>The values of the aggregated field; an absent one is skipped or is an error.\<close>

fun aggregate_values :: "string \<Rightarrow> bool \<Rightarrow> pyval list \<Rightarrow> run_exc + pyval list" where
  "aggregate_values field field_optional [] = Inr []"
| "aggregate_values field field_optional (r # rs) =
     (case (case r of PDict d \<Rightarrow> dget d field | _ \<Rightarrow> None) of
        None \<Rightarrow>
          if field_optional then aggregate_values field field_optional rs
          else Inl (RunError (MissingField field))
      | Some v \<Rightarrow>
          if field_optional \<and> v = PNone then aggregate_values field field_optional rs
          else bindE (aggregate_values field field_optional rs) (\<lambda>vs. Inr (v # vs)))"

section \<open>sum and avg\<close>

definition encode_row :: "pyval \<Rightarrow> run_exc + money" where
  "encode_row v =
     (case v of
        PDict d \<Rightarrow>
          (case (dget d ''amount'', dget d ''currency'') of
             (Some a, Some c) \<Rightarrow> of_money (encode_money a c)
           | _ \<Rightarrow> Inl (RunError NonMoneyRow))
      | _ \<Rightarrow> Inl (RunError NonMoneyRow))"

definition sum_money :: "money \<Rightarrow> money list \<Rightarrow> run_exc + money" where
  "sum_money first rest = foldE (\<lambda>p tot. of_money (money_add tot p)) rest first"

definition row_int :: "pyval \<Rightarrow> run_exc + int" where
  "row_int v = (case as_int v of Some n \<Rightarrow> Inr n | None \<Rightarrow> Inl (RunError NonNumericRow))"

definition sum_ints :: "pyval list \<Rightarrow> run_exc + int" where
  "sum_ints vs = foldE (\<lambda>v tot. bindE (row_int v) (\<lambda>n. checked (tot + n))) vs 0"

definition of_avg :: "avg_exc + int \<Rightarrow> run_exc + int" where
  "of_avg a = (case a of
      Inr n \<Rightarrow> Inr n
    | Inl AvgValueError \<Rightarrow> Inl (Escaped PyValueError)
    | Inl AvgInvalidOperation \<Rightarrow> Inl (Escaped PyDecimalError))"

definition wire_of :: "money \<Rightarrow> run_exc + pyval" where
  "wire_of m = (case decode_money m of Inr v \<Rightarrow> Inr v | Inl _ \<Rightarrow> Inl (Escaped PyMoneyError))"

definition is_dict :: "pyval \<Rightarrow> bool" where
  "is_dict v = (case v of PDict _ \<Rightarrow> True | _ \<Rightarrow> False)"

definition is_str :: "pyval \<Rightarrow> bool" where
  "is_str v = (case v of PStr _ \<Rightarrow> True | _ \<Rightarrow> False)"

definition eval_sum_avg :: "bool \<Rightarrow> pyval list \<Rightarrow> string option \<Rightarrow> run_exc + pyval" where
  "eval_sum_avg avg vs agg_field_type =
     (if avg \<and> vs = [] then Inl (RunError AvgOfEmpty)
      else if vs = [] then
        Inr (if \<not> avg \<and> agg_field_type = Some ''Money''
             then PDict [(''amount'', PStr ''0''), (''currency'', PNone)] else PInt 0)
      else if is_dict (hd vs) then
        bindE (mapE encode_row vs) (\<lambda>pairs.
        bindE (sum_money (hd pairs) (tl pairs)) (\<lambda>tot.
        bindE (checked (fst tot)) (\<lambda>minor.
        bindE (if avg then of_avg (avg_round minor (int (length vs))) else Inr minor) (\<lambda>minor.
          wire_of (minor, snd tot)))))
      else bindE (sum_ints vs) (\<lambda>tot.
        if avg then bindE (of_avg (avg_round tot (int (length vs)))) (\<lambda>q. Inr (PInt q))
        else Inr (PInt tot)))"

section \<open>min and max\<close>

text \<open>
  The three \<open>_minmax_*\<close> loops: the key of the first value, then every further value replaces the
  best one when its key is strictly better. \<open>better\<close> may raise (currencies of different rows).
\<close>

fun minmax_loop :: "('k \<Rightarrow> 'k \<Rightarrow> run_exc + bool) \<Rightarrow> (pyval \<Rightarrow> run_exc + 'k) \<Rightarrow> pyval \<Rightarrow> 'k \<Rightarrow> pyval list \<Rightarrow> run_exc + pyval" where
  "minmax_loop better key best best_key [] = Inr best"
| "minmax_loop better key best best_key (v # vs) =
     bindE (key v) (\<lambda>k.
     bindE (better k best_key) (\<lambda>b.
       if b then minmax_loop better key v k vs else minmax_loop better key best best_key vs))"

definition minmax_by :: "('k \<Rightarrow> 'k \<Rightarrow> run_exc + bool) \<Rightarrow> (pyval \<Rightarrow> run_exc + 'k) \<Rightarrow> pyval list \<Rightarrow> run_exc + pyval" where
  "minmax_by better key vs = bindE (key (hd vs)) (\<lambda>k. minmax_loop better key (hd vs) k (tl vs))"

definition better_int :: "bool \<Rightarrow> int \<Rightarrow> int \<Rightarrow> run_exc + bool" where
  "better_int minimum k b = Inr (if minimum then k < b else k > b)"

definition better_money :: "bool \<Rightarrow> money \<Rightarrow> money \<Rightarrow> run_exc + bool" where
  "better_money minimum k b = bindE (of_money (money_compare k b)) (\<lambda>c. Inr (if minimum then c < 0 else c > 0))"

definition instant_key :: "pyval \<Rightarrow> run_exc + int" where
  "instant_key v =
     (case v of
        PStr s \<Rightarrow> (case encode_instant s of
            Inr ms \<Rightarrow> Inr ms
          | Inl (ConditionError e) \<Rightarrow> Inl (RunError (BadInstant e))
          | Inl _ \<Rightarrow> Inl (Escaped PyValueError))
      | _ \<Rightarrow> Inl (RunError NonDateTimeRow))"

definition eval_minmax :: "bool \<Rightarrow> pyval list \<Rightarrow> run_exc + pyval" where
  "eval_minmax minimum vs =
     (if vs = [] then Inl (RunError MinMaxOfEmpty)
      else if is_dict (hd vs) then minmax_by (better_money minimum) encode_row vs
      else if is_str (hd vs) then minmax_by (better_int minimum) instant_key vs
      else minmax_by (better_int minimum) row_int vs)"

section \<open>The aggregate\<close>

definition aggregate_binding :: "string \<Rightarrow> string" where
  "aggregate_binding ref = (case ref_namespace ref of
      Some (c # cs) \<Rightarrow> c # cs
    | _ \<Rightarrow> ref)"

definition eval_aggregate ::
  "agg_func \<Rightarrow> string \<Rightarrow> (string, pyval list) dict \<Rightarrow> string option \<Rightarrow> bool \<Rightarrow> run_exc + pyval" where
  "eval_aggregate func ref rowsets agg_field_type field_optional =
     (let rows = (case dget rowsets (aggregate_binding ref) of None \<Rightarrow> [] | Some rs \<Rightarrow> rs) in
      if func = AggCount then Inr (PInt (int (length rows)))
      else bindE (aggregate_values (ref_field ref) field_optional rows) (\<lambda>vs.
        if func \<in> {AggSum, AggAvg} then eval_sum_avg (func = AggAvg) vs agg_field_type
        else eval_minmax (func = AggMin) vs))"

section \<open>Text of a value\<close>

text \<open>\<open>str(v)\<close>, and \<open>repr\<close> inside containers.\<close>

definition hex_digit :: "nat \<Rightarrow> char" where
  "hex_digit n = (if n < 10 then char_of (48 + n) else char_of (87 + n))"

definition is_printable :: "char \<Rightarrow> bool" where
  "is_printable c = ((32 \<le> ord c \<and> ord c \<le> 126) \<or> (161 \<le> ord c \<and> ord c \<noteq> 173))"

definition repr_char :: "char \<Rightarrow> char \<Rightarrow> string" where
  "repr_char q c =
     (if c = q \<or> c = CHR 0x5C then [CHR 0x5C, c]
      else if ord c = 9 then [CHR 0x5C, CHR ''t'']
      else if ord c = 10 then [CHR 0x5C, CHR ''n'']
      else if ord c = 13 then [CHR 0x5C, CHR ''r'']
      else if is_printable c then [c]
      else [CHR 0x5C, CHR ''x'', hex_digit (ord c div 16), hex_digit (ord c mod 16)])"

definition repr_str :: "string \<Rightarrow> string" where
  "repr_str s = (let q = (if CHR 0x27 \<in> set s \<and> CHR 0x22 \<notin> set s then CHR 0x22 else CHR 0x27) in
     q # concat (map (repr_char q) s) @ [q])"

fun py_repr :: "pyval \<Rightarrow> string" where
  "py_repr PNone = ''None''"
| "py_repr (PBool b) = (if b then ''True'' else ''False'')"
| "py_repr (PInt n) = show_int n"
| "py_repr (PStr s) = repr_str s"
| "py_repr (PList xs) = ''['' @ join '', '' (map py_repr xs) @ '']''"
| "py_repr (PDict d) = ''{'' @ join '', '' (map (\<lambda>(k, v). repr_str k @ '': '' @ py_repr v) d) @ ''}''"

definition py_str :: "pyval \<Rightarrow> string" where
  "py_str v = (case v of PStr s \<Rightarrow> s | _ \<Rightarrow> py_repr v)"

section \<open>format\<close>

definition eval_format :: "scope \<Rightarrow> string \<Rightarrow> string list \<Rightarrow> string option" where
  "eval_format sc template args =
     (let vs = map (resolve_reference (no_response sc)) args in
      if PNone \<in> set vs then None else Some (fold (\<lambda>v out. fill_hole (py_str v) out) vs template))"

section \<open>Filters of a payload\<close>

definition schema_gen_key :: string where "schema_gen_key = ''_schema_gen''"

definition strip_schema_gen :: "pyval \<Rightarrow> pyval" where
  "strip_schema_gen r = (case r of PDict d \<Rightarrow> PDict (ddel schema_gen_key d) | _ \<Rightarrow> r)"

text \<open>
  A declared field: its name, type and resolved base (\<open>None\<close> when the node carries none), its flags
  and its fill source.
\<close>

record field_decl =
  fd_name :: string
  fd_type :: string
  fd_base :: "string option"
  fd_optional :: bool
  fd_derived :: bool
  fd_fill :: "string option"

definition masked_types :: "string list" where
  "masked_types = [''Password'']"

definition mask_text :: string where "mask_text = ''***''"

definition field_base :: "field_decl \<Rightarrow> string" where
  "field_base f = (case fd_base f of None \<Rightarrow> fd_type f | Some b \<Rightarrow> b)"

definition masked_field_names :: "field_decl list \<Rightarrow> string list" where
  "masked_field_names fs = map fd_name (filter (\<lambda>f. field_base f \<in> set masked_types) fs)"

definition mask_payload :: "pyval \<Rightarrow> field_decl list option \<Rightarrow> pyval" where
  "mask_payload payload entity =
     (case (payload, entity) of
        (PDict d, Some fs) \<Rightarrow>
          PDict (map (\<lambda>(k, v). (k, if k \<in> set (masked_field_names fs) then PStr mask_text else v)) d)
      | _ \<Rightarrow> payload)"

definition omit_masked_fields :: "pyval \<Rightarrow> string list \<Rightarrow> pyval" where
  "omit_masked_fields payload masked =
     (case payload of
        PDict d \<Rightarrow> PDict (filter (\<lambda>(k, _). k \<notin> set masked) d)
      | _ \<Rightarrow> payload)"

end
