(* ===== verification/Nodes.thy ===== *)
theory Nodes
  imports Aggregates
begin

text \<open>
  The semantic IR the runtime walks. A document is its \<open>nodes\<close> list in order; the Python node
  dictionaries become constructors whose arguments are the keys the modelled code reads, with
  \<open>option\<close> (or an empty list) where the code uses \<open>node.get\<close>.
\<close>

section \<open>Nodes\<close>

text \<open>The facets of a refinement, each present or not.\<close>

record facets =
  ft_min_length :: "nat option"
  ft_max_length :: "nat option"
  ft_pattern :: "string option"
  ft_min :: "pyval option"
  ft_max :: "pyval option"
  ft_enum :: "pyval list option"

record guard_node =
  gn_mode :: string
  gn_children :: "string list"
  gn_condition :: "string option"
  gn_alternatives :: "string list"
  gn_count :: int
  gn_text_ops :: "string list list"

record pred_term =
  pt_field :: string
  pt_op :: string
  pt_value :: string

record repo_call =
  rc_entity :: string
  rc_operation :: string
  rc_lookup :: "string option"
  rc_cached :: bool
  rc_result :: "string option"
  rc_predicate :: "pred_term list"
  rc_order :: "(string \<times> bool) option"
  rc_limit :: "nat option"

record net_node =
  nn_target :: string
  nn_path_args :: "string list"
  nn_body_map :: "(string \<times> string) list"
  nn_result :: "string option"

record agg_term =
  at_name :: string
  at_func :: string
  at_ref :: string
  at_field_type :: "string option"

text \<open>\<open>refs\<close>, \<open>aggTerms\<close> and the binding of the \<open>listTerm\<close> of a \<open>Response\<close>.\<close>

record response_node =
  rn_refs :: "string list"
  rn_terms :: "agg_term list"
  rn_list :: "string option"

datatype effect =
    Assignment string string "string option"
  | Validation string string
  | RepositoryCall repo_call
  | CacheAccess string string
  | Authorization "string option"
  | NetworkCall net_node
  | EventEmit "string option" "(string \<times> string) list"
  | Response response_node
  | Annotation string "string list"
  | Rejection string

datatype node =
    Entity string "field_decl list"
  | Refinement string string facets
  | Event string
  | Service string "string list" "string list"
  | Workflow string "string list"
  | WorkflowStep string "string list"
  | Guard guard_node
  | Concurrency "string list"
  | Pipeline "string list"
  | Effect effect
  | Policy "(string \<times> pyval) list"
  | Security "string list"
  | Performance "(string \<times> pyval) list"
  | OtherNode string

type_synonym document = "(string \<times> node) list"

text \<open>\<open>{n["id"]: n for n in document["nodes"]}\<close>: the last node of an id wins.\<close>

definition node_of :: "document \<Rightarrow> string \<Rightarrow> node option" where
  "node_of doc nid = map_of (rev doc) nid"

fun effect_kind :: "effect \<Rightarrow> string" where
  "effect_kind (Assignment _ _ _) = ''Assignment''"
| "effect_kind (Validation _ _) = ''Validation''"
| "effect_kind (RepositoryCall _) = ''RepositoryCall''"
| "effect_kind (CacheAccess _ _) = ''CacheAccess''"
| "effect_kind (Authorization _) = ''Authorization''"
| "effect_kind (NetworkCall _) = ''NetworkCall''"
| "effect_kind (EventEmit _ _) = ''EventEmit''"
| "effect_kind (Response _) = ''Response''"
| "effect_kind (Annotation _ _) = ''Annotation''"
| "effect_kind (Rejection _) = ''Rejection''"

fun node_kind :: "node \<Rightarrow> string" where
  "node_kind (Entity _ _) = ''Entity''"
| "node_kind (Refinement _ _ _) = ''Refinement''"
| "node_kind (Event _) = ''Event''"
| "node_kind (Service _ _ _) = ''Service''"
| "node_kind (Workflow _ _) = ''Workflow''"
| "node_kind (WorkflowStep _ _) = ''WorkflowStep''"
| "node_kind (Guard _) = ''Guard''"
| "node_kind (Concurrency _) = ''Concurrency''"
| "node_kind (Pipeline _) = ''Pipeline''"
| "node_kind (Effect e) = effect_kind e"
| "node_kind (Policy _) = ''Policy''"
| "node_kind (Security _) = ''Security''"
| "node_kind (Performance _) = ''Performance''"
| "node_kind (OtherNode k) = k"

text \<open>\<open>node.get("children", [])\<close>.\<close>

fun node_children :: "node \<Rightarrow> string list" where
  "node_children (Service _ cs _) = cs"
| "node_children (Workflow _ cs) = cs"
| "node_children (WorkflowStep _ cs) = cs"
| "node_children (Guard g) = gn_children g"
| "node_children (Concurrency cs) = cs"
| "node_children (Pipeline cs) = cs"
| "node_children _ = []"

section \<open>Entities\<close>

definition entity_fields :: "document \<Rightarrow> string \<Rightarrow> field_decl list option" where
  "entity_fields doc eid = (case node_of doc eid of Some (Entity _ fs) \<Rightarrow> Some fs | _ \<Rightarrow> None)"

definition entity_name :: "document \<Rightarrow> string \<Rightarrow> string option" where
  "entity_name doc eid = (case node_of doc eid of Some (Entity n _) \<Rightarrow> Some n | _ \<Rightarrow> None)"

text \<open>The \<open>Entity\<close> nodes in document order: id, name and fields.\<close>

definition doc_entities :: "document \<Rightarrow> (string \<times> string \<times> field_decl list) list" where
  "doc_entities doc = concat (map (\<lambda>(i, n). case n of Entity nm fs \<Rightarrow> [(i, nm, fs)] | _ \<Rightarrow> []) doc)"

text \<open>\<open>str.lower\<close> on one Latin-1 character.\<close>

definition lower_c :: "char \<Rightarrow> char" where
  "lower_c c = (if (65 \<le> ord c \<and> ord c \<le> 90) \<or> (192 \<le> ord c \<and> ord c \<le> 222 \<and> ord c \<noteq> 215)
                then char_of (ord c + 32) else c)"

text \<open>\<open>repo_policy.binding_name\<close> of a declared name.\<close>

definition binding_name :: "string \<Rightarrow> string" where
  "binding_name name = (case name of [] \<Rightarrow> [] | c # cs \<Rightarrow> lower_c c # cs)"

text \<open>\<open>_entity_id_for_binding\<close>: the index built from the entities, later ones winning.\<close>

definition entity_for_binding :: "document \<Rightarrow> string \<Rightarrow> string option" where
  "entity_for_binding doc b = map_of (rev (map (\<lambda>(i, nm, _). (binding_name nm, i)) (doc_entities doc))) b"

text \<open>\<open>refinement_index\<close>.\<close>

type_synonym refinements = "(string \<times> string \<times> facets) list"

definition refinement_index :: "document \<Rightarrow> refinements" where
  "refinement_index doc =
     fold (\<lambda>(_, n) acc. case n of Refinement nm b f \<Rightarrow> dset nm (b, f) acc | _ \<Rightarrow> acc) doc []"

text \<open>\<open>_entity_view\<close>: every field with its base resolved through the refinements.\<close>

definition view_field :: "refinements \<Rightarrow> field_decl \<Rightarrow> field_decl" where
  "view_field refs f = f\<lparr>fd_base := Some (case map_of refs (fd_type f) of Some (b, _) \<Rightarrow> b | None \<Rightarrow> fd_type f)\<rparr>"

definition entity_view :: "refinements \<Rightarrow> field_decl list \<Rightarrow> field_decl list" where
  "entity_view refs fs = map (view_field refs) fs"

text \<open>\<open>_entity_node\<close>: the first entity of the document, as a view.\<close>

definition first_entity_view :: "document \<Rightarrow> field_decl list option" where
  "first_entity_view doc =
     (case doc_entities doc of [] \<Rightarrow> None | (_, _, fs) # _ \<Rightarrow> Some (entity_view (refinement_index doc) fs))"

text \<open>\<open>_input_masked_names\<close>.\<close>

definition input_masked_names :: "document \<Rightarrow> string list" where
  "input_masked_names doc =
     concat (map (\<lambda>(_, _, fs). masked_field_names (entity_view (refinement_index doc) fs)) (doc_entities doc))"

end
