(* ===== verification/Validate.thy ===== *)
theory Validate
  imports Nodes
begin

text \<open>
  Semantic types, refinements and payload validation: the tables of \<open>impl/lnpl/types.py\<close> and
  \<open>impl/lnpl/refinements.py\<close>, and \<open>check_semantic_type\<close>, \<open>_check_facets\<close>, \<open>validate_effect\<close>,
  \<open>row_shape_mismatches\<close>, \<open>sample_for_type\<close> and \<open>sample_payload\<close> of \<open>impl/lnpl/interp.py\<close>. A user
  pattern is searched by Python's \<open>re\<close> engine, which is a parameter \<open>search\<close> here; the three patterns
  the source itself writes are matched by definitions of their own.
\<close>

section \<open>The semantic types\<close>

datatype regex = UuidRe | EmailRe | DateTimeRe

datatype py_type = TyStr | TyInt | TyBool

datatype check = CheckPattern regex | CheckPy py_type | CheckNonEmpty | NoCheck

definition semantic_types :: "(string \<times> check \<times> pyval) list" where
  "semantic_types =
    [(''UUID'', CheckPattern UuidRe, PStr ''3f2504e0-4f89-41d3-9a0c-0305e82c3301''),
     (''Email'', CheckPattern EmailRe, PStr ''user@example.com''),
     (''Password'', CheckNonEmpty, PStr ''s3cret-value''),
     (''DateTime'', CheckPattern DateTimeRe, PStr ''2026-07-31T09:00:00Z''),
     (''Phone'', NoCheck, PStr ''+14155550100''),
     (''Money'', NoCheck, PDict [(''amount'', PStr ''1.00''), (''currency'', PStr ''USD'')]),
     (''Currency'', NoCheck, PStr ''USD''),
     (''GeoLocation'', NoCheck, PDict [(''lat'', PInt 0), (''lng'', PInt 0)]),
     (''Address'', NoCheck, PDict [(''line1'', PStr ''1 Main St''), (''city'', PStr ''Springfield''), (''country'', PStr ''US'')]),
     (''Image'', NoCheck, PDict [(''uri'', PStr ''https://example.com/i.png''), (''mediaType'', PStr ''image/png'')]),
     (''File'', NoCheck, PDict [(''uri'', PStr ''https://example.com/f.pdf''), (''mediaType'', PStr ''application/pdf'')]),
     (''Json'', NoCheck, PDict []),
     (''Html'', NoCheck, PStr ''<p>x</p>''),
     (''Markdown'', NoCheck, PStr ''# x''),
     (''Text'', CheckPy TyStr, PStr ''text''),
     (''Integer'', CheckPy TyInt, PInt 1),
     (''Decimal'', NoCheck, PStr ''0''),
     (''Boolean'', CheckPy TyBool, PBool True)]"

definition sample_values :: "(string \<times> pyval) list" where
  "sample_values = map (\<lambda>(n, _, s). (n, s)) semantic_types"

text \<open>\<open>UUID_RE\<close> with \<open>re.I\<close>; \<open>$\<close> also matches before one final line feed.\<close>

definition is_hex_c :: "char \<Rightarrow> bool" where
  "is_hex_c c = (is_decimal_c c \<or> (97 \<le> ord c \<and> ord c \<le> 102) \<or> (65 \<le> ord c \<and> ord c \<le> 70))"

definition at_dollar :: "string \<Rightarrow> bool" where
  "at_dollar s = (s = [] \<or> s = [CHR 0x0A])"

definition uuid_match :: "string \<Rightarrow> bool" where
  "uuid_match s =
     (length (take 36 s) = 36 \<and>
      list_all (\<lambda>(i, c). if i \<in> {8, 13, 18, 23} then c = CHR ''-'' else is_hex_c c) (enumerate 0 (take 36 s)) \<and>
      at_dollar (drop 36 s))"

text \<open>
  \<open>EMAIL_RE\<close>: one run without \<open>@\<close> and whitespace, an \<open>@\<close>, and a second run with a dot that is
  neither its first nor its last character.
\<close>

definition email_word :: "string \<Rightarrow> bool" where
  "email_word s = (s \<noteq> [] \<and> list_all (\<lambda>c. c \<noteq> CHR ''@'' \<and> \<not> is_space c) s)"

definition email_match :: "string \<Rightarrow> bool" where
  "email_match s =
     (let core = (if s \<noteq> [] \<and> last s = CHR 0x0A then butlast s else s);
          (local, at, domain) = partition_at CHR ''@'' core in
      at \<and> email_word local \<and> email_word domain \<and> CHR ''.'' \<in> set (butlast (tl domain)))"

text \<open>\<open>DATETIME_RE\<close> is a prefix: no \<open>$\<close>.\<close>

definition datetime_match :: "string \<Rightarrow> bool" where
  "datetime_match s =
     (length (take 19 s) = 19 \<and>
      list_all (\<lambda>(i, c). if i \<in> {4, 7} then c = CHR ''-'' else if i = 10 then c = CHR ''T''
                         else if i \<in> {13, 16} then c = CHR '':'' else is_decimal_c c) (enumerate 0 (take 19 s)))"

fun re_match :: "regex \<Rightarrow> string \<Rightarrow> bool" where
  "re_match UuidRe s = uuid_match s"
| "re_match EmailRe s = email_match s"
| "re_match DateTimeRe s = datetime_match s"

text \<open>\<open>isinstance(value, pytype)\<close>, with \<open>int\<close> excluding \<open>bool\<close> as the check does.\<close>

fun is_instance :: "py_type \<Rightarrow> pyval \<Rightarrow> bool" where
  "is_instance TyStr (PStr _) = True"
| "is_instance TyInt (PInt _) = True"
| "is_instance TyBool (PBool _) = True"
| "is_instance _ _ = False"

text \<open>\<open>not str(value)\<close> is false for everything but the empty string.\<close>

definition base_check :: "string \<Rightarrow> pyval \<Rightarrow> string \<Rightarrow> run_exc + unit" where
  "base_check type_name value field =
     (case map_of semantic_types type_name of
        None \<Rightarrow> Inr ()
      | Some (NoCheck, _) \<Rightarrow> Inr ()
      | Some (CheckPattern r, _) \<Rightarrow>
          if re_match r (py_str value) then Inr () else Inl (RunError (NotOfType field type_name))
      | Some (CheckPy t, _) \<Rightarrow>
          if is_instance t value then Inr () else Inl (RunError (NotOfType field type_name))
      | Some (CheckNonEmpty, _) \<Rightarrow>
          if py_str value = [] then Inl (RunError (FieldEmpty field)) else Inr ())"

section \<open>Facets\<close>

datatype category = TextCat | NumericCat | BooleanCat | CompositeCat

definition base_category :: "(string \<times> category) list" where
  "base_category =
    [(''UUID'', TextCat), (''Email'', TextCat), (''Password'', TextCat), (''DateTime'', TextCat),
     (''Phone'', TextCat), (''Currency'', TextCat), (''Html'', TextCat), (''Markdown'', TextCat), (''Text'', TextCat),
     (''Integer'', NumericCat), (''Decimal'', NumericCat), (''Boolean'', BooleanCat),
     (''Money'', CompositeCat), (''GeoLocation'', CompositeCat), (''Address'', CompositeCat),
     (''Image'', CompositeCat), (''File'', CompositeCat), (''Json'', CompositeCat)]"

definition facet_names :: "string list" where
  "facet_names = [''minLength'', ''maxLength'', ''pattern'', ''min'', ''max'', ''enum'']"

definition category_facets :: "category \<Rightarrow> string list" where
  "category_facets c = (case c of
      TextCat \<Rightarrow> [''minLength'', ''maxLength'', ''pattern'', ''enum'']
    | NumericCat \<Rightarrow> [''min'', ''max'', ''enum'']
    | BooleanCat \<Rightarrow> []
    | CompositeCat \<Rightarrow> [])"

text \<open>\<open>facets_for_base\<close>: \<open>None\<close> is the \<open>KeyError\<close>.\<close>

definition facets_for_base :: "string \<Rightarrow> string list option" where
  "facets_for_base base = map_option category_facets (map_of base_category base)"

definition no_facets :: facets where
  "no_facets = \<lparr>ft_min_length = None, ft_max_length = None, ft_pattern = None, ft_min = None, ft_max = None, ft_enum = None\<rparr>"

text \<open>\<open>PRESETS\<close> and \<open>preset\<close>; the regular expressions contain a backslash, code point 92.\<close>

definition presets :: "(string \<times> string \<times> facets) list" where
  "presets =
    [(''URL'', ''Text'', no_facets\<lparr>ft_pattern := Some (''^https?://[^'' @ [CHR 0x5C] @ ''s]+$''), ft_max_length := Some 2048\<rparr>),
     (''Slug'', ''Text'', no_facets\<lparr>ft_pattern := Some ''^[a-z0-9-]{1,64}$'', ft_max_length := Some 64\<rparr>),
     (''PositiveInteger'', ''Integer'', no_facets\<lparr>ft_min := Some (PInt 1)\<rparr>)]"

definition preset :: "string \<Rightarrow> (string \<times> facets) option" where
  "preset name = map_of presets name"

text \<open>\<open>decimal.Decimal(text)\<close>, with the values that are not finite; \<open>None\<close> where it raises.\<close>

datatype dec_value = Finite decimal | Infinite bool | NotANum

definition dec_special :: "string \<Rightarrow> dec_value option" where
  "dec_special text =
     (let (sgn, s) = split_sign (filter (\<lambda>c. c \<noteq> CHR ''_'') (strip text)); l = map lower_c s;
          digits = (\<lambda>d. list_all is_decimal_c d) in
      if l \<in> {''inf'', ''infinity''} then Some (Infinite (sgn = -1))
      else if take 3 l = ''nan'' \<and> digits (drop 3 l) \<or> take 4 l = ''snan'' \<and> digits (drop 4 l) then Some NotANum
      else None)"

definition decimal_value :: "string \<Rightarrow> dec_value option" where
  "decimal_value text =
     (case decimal_of_string text of Some d \<Rightarrow> Some (Finite d) | None \<Rightarrow> dec_special text)"

definition dec_scaled :: "decimal \<Rightarrow> int \<Rightarrow> int" where
  "dec_scaled d e = (if dec_neg d then -1 else 1) * int (digits_val (dec_digits d)) * 10 ^ nat (dec_exp d - e)"

definition dec_finite_less :: "decimal \<Rightarrow> decimal \<Rightarrow> bool" where
  "dec_finite_less a b = (let e = min (dec_exp a) (dec_exp b) in dec_scaled a e < dec_scaled b e)"

text \<open>\<open>a < b\<close>: an order comparison with a NaN raises \<open>InvalidOperation\<close>.\<close>

fun dec_less :: "dec_value \<Rightarrow> dec_value \<Rightarrow> run_exc + bool" where
  "dec_less NotANum _ = Inl (Escaped PyDecimalError)"
| "dec_less _ NotANum = Inl (Escaped PyDecimalError)"
| "dec_less (Infinite n) (Infinite m) = Inr (n \<and> \<not> m)"
| "dec_less (Infinite n) (Finite _) = Inr n"
| "dec_less (Finite _) (Infinite m) = Inr (\<not> m)"
| "dec_less (Finite a) (Finite b) = Inr (dec_finite_less a b)"

definition guard_that :: "bool \<Rightarrow> run_error \<Rightarrow> run_exc + unit" where
  "guard_that ok e = (if ok then Inr () else Inl (RunError e))"

definition check_bound :: "bool \<Rightarrow> pyval option \<Rightarrow> pyval \<Rightarrow> string \<Rightarrow> string \<Rightarrow> run_exc + unit" where
  "check_bound minimum bound value field type_name =
     (case bound of
        None \<Rightarrow> Inr ()
      | Some b \<Rightarrow>
          (case decimal_value (py_str value) of
             None \<Rightarrow> Inl (RunError (NotANumber field type_name))
           | Some n \<Rightarrow>
               (case decimal_value (py_str b) of
                  None \<Rightarrow> Inl (Escaped PyDecimalError)
                | Some l \<Rightarrow>
                    bindE (if minimum then dec_less n l else dec_less l n) (\<lambda>bad.
                      guard_that (\<not> bad) (BoundViolated field type_name)))))"

definition check_text :: "(string \<Rightarrow> string \<Rightarrow> bool) \<Rightarrow> facets \<Rightarrow> string \<Rightarrow> string \<Rightarrow> string \<Rightarrow> run_exc + unit" where
  "check_text search fs text field type_name =
     bindE (guard_that (case ft_min_length fs of None \<Rightarrow> True | Some n \<Rightarrow> n \<le> length text) (TooShort field type_name)) (\<lambda>_.
     bindE (guard_that (case ft_max_length fs of None \<Rightarrow> True | Some n \<Rightarrow> length text \<le> n) (TooLong field type_name)) (\<lambda>_.
       guard_that (case ft_pattern fs of None \<Rightarrow> True | Some p \<Rightarrow> search p text) (PatternMismatch field type_name)))"

definition check_enum :: "facets \<Rightarrow> pyval \<Rightarrow> string \<Rightarrow> string \<Rightarrow> run_exc + unit" where
  "check_enum fs value field type_name =
     (case ft_enum fs of
        None \<Rightarrow> Inr ()
      | Some vs \<Rightarrow>
          guard_that (\<not> ((case value of PBool _ \<Rightarrow> True | _ \<Rightarrow> False) \<or> \<not> list_ex (py_eq value) vs))
            (NotInEnum field type_name))"

definition check_facets ::
  "(string \<Rightarrow> string \<Rightarrow> bool) \<Rightarrow> string \<Rightarrow> facets \<Rightarrow> pyval \<Rightarrow> string \<Rightarrow> string \<Rightarrow> run_exc + unit" where
  "check_facets search base fs value field type_name =
     bindE (check_enum fs value field type_name) (\<lambda>_.
     (case map_of base_category base of
        None \<Rightarrow> Inl (Escaped PyKeyError)
      | Some TextCat \<Rightarrow> check_text search fs (py_str value) field type_name
      | Some NumericCat \<Rightarrow>
          bindE (check_bound True (ft_min fs) value field type_name) (\<lambda>_.
            check_bound False (ft_max fs) value field type_name)
      | Some _ \<Rightarrow> Inr ()))"

definition check_semantic_type ::
  "(string \<Rightarrow> string \<Rightarrow> bool) \<Rightarrow> refinements \<Rightarrow> string \<Rightarrow> pyval \<Rightarrow> string \<Rightarrow> run_exc + unit" where
  "check_semantic_type search refs type_name value field =
     (if type_name = ''semantic-types'' then Inr ()
      else if value = PNone then Inl (RunError (FieldNull field))
      else (case map_of refs type_name of
              Some (base, fs) \<Rightarrow>
                bindE (if base = ''semantic-types'' then Inr () else base_check base value field) (\<lambda>_.
                  check_facets search base fs value field type_name)
            | None \<Rightarrow> base_check type_name value field))"

section \<open>Validation of a payload\<close>

definition absent_or_null :: "row \<Rightarrow> string \<Rightarrow> bool" where
  "absent_or_null payload name = (case dget payload name of None \<Rightarrow> True | Some v \<Rightarrow> v = PNone)"

definition check_present ::
  "(string \<Rightarrow> string \<Rightarrow> bool) \<Rightarrow> refinements \<Rightarrow> string \<Rightarrow> row \<Rightarrow> string \<Rightarrow> run_exc + unit" where
  "check_present search refs type_name payload name =
     (case dget payload name of
        None \<Rightarrow> Inl (RunError (MissingRequired name))
      | Some v \<Rightarrow> check_semantic_type search refs type_name v name)"

definition validate_field ::
  "(string \<Rightarrow> string \<Rightarrow> bool) \<Rightarrow> refinements \<Rightarrow> row \<Rightarrow> field_decl \<Rightarrow> run_exc + unit" where
  "validate_field search refs payload f =
     (if fd_derived f then guard_that (\<not> dhas payload (fd_name f)) (DerivedSupplied (fd_name f))
      else if fd_optional f \<and> absent_or_null payload (fd_name f) then Inr ()
      else check_present search refs (fd_type f) payload (fd_name f))"

text \<open>\<open>for x in xs: f(x)\<close> where \<open>f\<close> may raise.\<close>

fun eachE :: "('a \<Rightarrow> 'e + unit) \<Rightarrow> 'a list \<Rightarrow> 'e + unit" where
  "eachE f [] = Inr ()"
| "eachE f (x # xs) = bindE (f x) (\<lambda>_. eachE f xs)"

text \<open>\<open>s.rpartition(".")\<close>, first and last component.\<close>

definition rpartition_dot :: "string \<Rightarrow> string \<times> string" where
  "rpartition_dot s =
     (let (a, found, b) = partition_at CHR ''.'' (rev s) in if found then (rev b, rev a) else ([], s))"

definition validate_effect ::
  "(string \<Rightarrow> string \<Rightarrow> bool) \<Rightarrow> document \<Rightarrow> refinements \<Rightarrow> string \<Rightarrow> string \<Rightarrow> row \<Rightarrow> run_exc + unit" where
  "validate_effect search doc refs target rule payload =
     (if rule = ''semantic-types'' then
        (case entity_fields doc target of
           None \<Rightarrow> Inl (RunError (UndeclaredEntity target))
         | Some fs \<Rightarrow> eachE (validate_field search refs payload) fs)
      else
        (let (entity_id, name) = rpartition_dot target;
             field = (case entity_fields doc entity_id of None \<Rightarrow> None | Some fs \<Rightarrow> List.find (\<lambda>f. fd_name f = name) fs) in
         if (case field of None \<Rightarrow> False | Some f \<Rightarrow> fd_optional f) \<and> absent_or_null payload name then Inr ()
         else check_present search refs rule payload name))"

section \<open>Stored rows\<close>

text \<open>A mismatch: field, expected type, and whether the field is missing.\<close>

type_synonym mismatch = "string \<times> string \<times> bool"

definition field_mismatch ::
  "(string \<Rightarrow> string \<Rightarrow> bool) \<Rightarrow> refinements \<Rightarrow> row \<Rightarrow> field_decl \<Rightarrow> run_exc + mismatch list" where
  "field_mismatch search refs row f =
     (if fd_derived f then Inr []
      else if \<not> dhas row (fd_name f) \<or> (fd_optional f \<and> pget row (fd_name f) = PNone)
      then Inr (if fd_optional f then [] else [(fd_name f, fd_type f, True)])
      else (case check_semantic_type search refs (fd_type f) (pget row (fd_name f)) (fd_name f) of
              Inr _ \<Rightarrow> Inr []
            | Inl (RunError _) \<Rightarrow> Inr [(fd_name f, fd_type f, False)]
            | Inl e \<Rightarrow> Inl e))"

definition row_shape_mismatches ::
  "(string \<Rightarrow> string \<Rightarrow> bool) \<Rightarrow> refinements \<Rightarrow> field_decl list \<Rightarrow> row \<Rightarrow> run_exc + mismatch list" where
  "row_shape_mismatches search refs fs row = bindE (mapE (field_mismatch search refs row) fs) (\<lambda>ms. Inr (concat ms))"

section \<open>Samples\<close>

definition extra_text_samples :: "string list" where
  "extra_text_samples = [''https://example.com/a'']"

text \<open>The candidates of a refinement, in order.\<close>

definition bound_candidates :: "pyval option \<Rightarrow> facets \<Rightarrow> pyval list" where
  "bound_candidates base_sample fs =
     map (\<lambda>b. if (case base_sample of Some (PStr _) \<Rightarrow> True | _ \<Rightarrow> False) then PStr (py_str b) else b)
       (List.map_filter id [ft_min fs, ft_max fs])"

definition text_candidates :: "string \<Rightarrow> facets \<Rightarrow> pyval list" where
  "text_candidates s fs =
     (let unit = (if s = [] then ''x'' else s) in
      (case ft_min_length fs of
         Some n \<Rightarrow> if length s < n then [PStr (concat (replicate ((n + length unit - 1) div length unit) unit))] else []
       | None \<Rightarrow> []) @
      (case ft_max_length fs of
         Some n \<Rightarrow> if length s > n then [PStr (take n s)] else []
       | None \<Rightarrow> []) @
      filter is_str (map snd sample_values) @ map PStr extra_text_samples)"

definition sample_candidates :: "string \<Rightarrow> facets \<Rightarrow> run_exc + pyval list" where
  "sample_candidates base fs =
     (let base_sample = map_of sample_values base in
      bindE (case ft_enum fs of None \<Rightarrow> Inr [] | Some [] \<Rightarrow> Inl (Escaped PyIndexError) | Some (v # _) \<Rightarrow> Inr [v]) (\<lambda>enum.
      (case map_of base_category base of
         None \<Rightarrow> Inl (Escaped PyKeyError)
       | Some c \<Rightarrow>
           Inr ((case base_sample of None \<Rightarrow> [] | Some v \<Rightarrow> [v]) @ enum @
                (if c = NumericCat then bound_candidates base_sample fs
                 else if c = TextCat then (case base_sample of Some (PStr s) \<Rightarrow> text_candidates s fs | _ \<Rightarrow> [])
                 else [])))))"

fun first_valid :: "(pyval \<Rightarrow> run_exc + unit) \<Rightarrow> pyval list \<Rightarrow> run_exc + pyval option" where
  "first_valid check [] = Inr None"
| "first_valid check (v # vs) =
     (if v = PNone then first_valid check vs
      else (case check v of
              Inr _ \<Rightarrow> Inr (Some v)
            | Inl (RunError _) \<Rightarrow> first_valid check vs
            | Inl e \<Rightarrow> Inl e))"

definition sample_for_type :: "(string \<Rightarrow> string \<Rightarrow> bool) \<Rightarrow> refinements \<Rightarrow> string \<Rightarrow> run_exc + pyval option" where
  "sample_for_type search refs type_name =
     (case map_of refs type_name of
        None \<Rightarrow> Inr (map_of sample_values type_name)
      | Some (base, fs) \<Rightarrow>
          bindE (sample_candidates base fs) (\<lambda>cs.
            first_valid (\<lambda>v. check_semantic_type search refs type_name v ''sample'') cs))"

definition sample_field ::
  "(string \<Rightarrow> string \<Rightarrow> bool) \<Rightarrow> refinements \<Rightarrow> field_decl \<Rightarrow> row \<Rightarrow> run_exc + row" where
  "sample_field search refs f payload =
     (if fd_derived f then Inr payload
      else bindE (sample_for_type search refs (fd_type f)) (\<lambda>v.
             Inr (case v of None \<Rightarrow> payload | Some w \<Rightarrow> dset (fd_name f) w payload)))"

definition sample_payload ::
  "(string \<Rightarrow> string \<Rightarrow> bool) \<Rightarrow> refinements \<Rightarrow> field_decl list list \<Rightarrow> run_exc + row" where
  "sample_payload search refs entities = foldE (sample_field search refs) (concat entities) []"

end
