(* ===== verification/Lowered.thy ===== *)
theory Lowered
  imports Parser Validate
begin

text \<open>
  The data of the lowering in \<open>impl/lnpl/lower.py\<close>: the identifier rules, the nodes it emits, the
  \<open>Module\<close> that collects them, the entity registry, its diagnostics and everything it can raise. A
  \<open>LowerError\<close> keeps where it happened and one constructor per \<open>raise\<close>; the sentence of the message
  is not modelled. The lowering also lets a few exceptions of the functions it calls through.
\<close>

section \<open>Errors\<close>

text \<open>A \<open>capability http\<close> body.\<close>

datatype (plugins only: code size) http_error =
    AuthKind | AuthBearerShape | AuthApikeyShape
  | HttpRetryShape | HttpRetryCount | HttpRetryBackoff string | HttpRetryTail
  | BreakerShape | BreakerCount | BreakerWindow string
  | PathArity | PathNotQuoted | PathQuote | PathNoSlash string | PathNoHole string
  | DeclaredTwice string | MethodKind | UnknownHttpClause string | MissingMethod

text \<open>The other declaration lines.\<close>

datatype (plugins only: code size) clause_error =
    SubscribeTwice | ConsumeTwice | EventBodyLine
  | UnknownPolicy string | PolicyRetry | PolicyTimeout | PolicyParallel | PolicyArgument string
  | UnknownMetric string | MetricFlag string | ResponseShape | MetricValue string
  | UnknownRecurrence string | BadTimeOfDay string | ZoneName string | ZoneAbbreviation string
  | UnknownMechanism string | MechanismArgument string | MechanismFlag string | RoleWithoutJwt string
  | ExposeVerb string | ExposeShape | ExposeEntity string | ExposeField string | ExposeType string

text \<open>Refinements and the types of fields.\<close>

datatype (plugins only: code size) facet_error =
    EnumValue string | EnumMember string | UnknownFacet string | FacetNotAllowed string | EnumEmpty
  | FacetArity string | BadPattern | FacetLength string | FacetNumber string
  | RefineName string | RefineBase string | RefineTaken string | FacetTwice string | NoFacets string
  | UnknownType string

text \<open>Entities.\<close>

datatype (plugins only: code size) field_error =
    FieldArity nat | UnknownMarker string | MisplacedMarker string | UnknownModifier string
  | RepeatedModifier string | DerivedOptional | FieldName string | OptionalId
  | MarkerType string | MarkerOnId string | NoFields string | ReservedBinding string
  | SameEntityId string

text \<open>The clauses of \<open>list\<close>.\<close>

datatype (plugins only: code size) query_error =
    ListTail | WhereEmpty | WhereCondition cond_error | WherePresence | WhereNumeric | WhereLeft
  | WhereField string | WhereOrder string | WhereEquality string
  | OrderShape | OrderField string | OrderType string
  | LimitArity | LimitNumber string | LimitPositive | ListTrailing

text \<open>A step that derives an effect from the verb lexicon.\<close>

datatype (plugins only: code size) effect_error =
    NoEntityDeclared | AmbiguousEntity string | WhichEntity string | NotVisible string
  | MapEmpty | MapArgument string | MapDuplicate string
  | AsNotCamel string | AsCollides string | CreateTail | CachedWithoutBudget | ReadTail | WriteTail
  | CallTail | CallOrder string | PathArgsEmpty | PathArgument string | PathUndeclared string
  | PathArgCount nat nat | AsArity | NoDerivation | EmitWithoutEvent | EmitTail | BadEventName string

text \<open>\<open>set\<close>, \<open>format\<close>, \<open>respond\<close>, \<open>note\<close>, \<open>fail\<close> and blocks.\<close>

datatype (plugins only: code size) step_error =
    BadStatement cond_error | SetText string | ZeroDivisor
  | TargetBare string | TargetInput | TargetCaller | TargetEntity string | TargetField string
  | RespondEmpty | RespondListAlone | TermShape | TermName string | TermFunc string | TermTwice string
  | TermCollides string | RespondBare string | RespondEntity string | RespondField string
  | FailEmpty | FailTail | FailShape string | FailReserved string | EmptyBlock string

text \<open>A reference or a value judged against the document.\<close>

datatype (plugins only: code size) scope_error =
    InputField string | CallerField string | NotAnEntity string | NotAField string
  | NeverReadTarget string | NeverReadRef string | NeverReadGuard string
  | PasswordGuard string | NotAggregable string | NotEvaluable string
  | TwoLiterals | MoneyNumericCheck string | MoneyPresence string | AmbiguousPresence string
  | MoneyTimesMoney | MoneyWithScalar | TwoInstants | UnlikeSides | TextArithmetic | TextWithOther
  | TextTypes | NotAMember string

text \<open>The rules on whole steps and workflows.\<close>

datatype (plugins only: code size) check_error =
    ListSides | ListTypes
  | AggEntity string | CountOfField | AggNeedsField | AggField string | AggType string
  | FormatTargetBare | FormatTargetType string | FormatPassword string
  | RespondUntyped string | RespondPassword string | ListEntity string | UnboundedList string
  | LookupDerived string | LookupPassword string | OutboundPassword string | MapBare string
  | MapDerived string | AssignDimension | BareOperand string | ListNotAlone
  | EventNotDeclared string | UnguardedFail string | ParallelWrites string | CachedThenWritten string

datatype (plugins only: code size) module_error =
    DuplicateNode string | DatabaseArity | UnknownCapability string | NoDatabaseClause string
  | EventSourceEntity string | ConsumeUnknown string

datatype (plugins only: code size) lower_error =
    HttpFault http_error
  | ClauseFault clause_error
  | FacetFault facet_error
  | FieldFault field_error
  | QueryFault query_error
  | EffectFault effect_error
  | StepFault step_error
  | ScopeFault scope_error
  | CheckFault check_error
  | ModuleFault module_error

text \<open>
  Where a \<open>LowerError\<close> points, with \<open>LoaderError\<close> its subclass; then what escapes: an exception of
  the lexer's or the condition parser's own (a digit string \<open>int\<close> refuses, a duration past 64 bits),
  a missing key, and the recursion limit.
\<close>

datatype (plugins only: code size) lower_exc =
    AtLine nat lower_error
  | InWorkflow string lower_error
  | InModule lower_error
  | LoaderError nat lower_error
  | LexRaised lex_error
  | CondRaised cond_exc
  | KeyRaised string
  | DepthRaised

definition of_lex :: "lex_error + 'a \<Rightarrow> lower_exc + 'a" where
  "of_lex m = (case m of Inl e \<Rightarrow> Inl (LexRaised e) | Inr x \<Rightarrow> Inr x)"

text \<open>\<open>except ConditionError\<close> with the handler's error; any other exception of the parser escapes.\<close>

definition on_cond_error :: "(cond_error \<Rightarrow> lower_exc + 'a) \<Rightarrow> cond_exc + 'a \<Rightarrow> lower_exc + 'a" where
  "on_cond_error h m =
     (case m of Inr x \<Rightarrow> Inr x | Inl (ConditionError e) \<Rightarrow> h e | Inl e \<Rightarrow> Inl (CondRaised e))"

text \<open>\<open>int(s)\<close> after \<open>s.isdigit()\<close>.\<close>

definition int_token :: "string \<Rightarrow> lower_exc + nat" where
  "int_token s = (case int_of_digits s of None \<Rightarrow> Inl (LexRaised (IntValueError s)) | Some n \<Rightarrow> Inr n)"

definition require :: "bool \<Rightarrow> lower_exc \<Rightarrow> lower_exc + unit" where
  "require b e = (if b then Inr () else Inl e)"

lemma require_Inr [simp]: "require b e = Inr u \<longleftrightarrow> b"
  by (simp add: require_def)

section \<open>Identifiers\<close>

text \<open>\<open>str.isupper\<close> on one Latin-1 character.\<close>

definition is_upper_c :: "char \<Rightarrow> bool" where
  "is_upper_c c = ((65 \<le> ord c \<and> ord c \<le> 90) \<or> (192 \<le> ord c \<and> ord c \<le> 222 \<and> ord c \<noteq> 215))"

definition str_lower :: "string \<Rightarrow> string" where
  "str_lower s = map lower_c s"

text \<open>The loop of \<open>split_pascal\<close>: while a word is open, its last character is the one before \<open>c\<close>.\<close>

definition starts_word :: "string \<Rightarrow> char \<Rightarrow> string \<Rightarrow> bool" where
  "starts_word cur c rest =
     (is_upper_c c \<and> cur \<noteq> [] \<and>
      (\<not> is_upper_c (last cur) \<or> (case rest of [] \<Rightarrow> False | d # _ \<Rightarrow> is_lower_c d)))"

fun pascal_words :: "string \<Rightarrow> string \<Rightarrow> string list" where
  "pascal_words cur [] = (if cur = [] then [] else [cur])"
| "pascal_words cur (c # cs) =
     (if starts_word cur c cs then cur # pascal_words [c] cs else pascal_words (cur @ [c]) cs)"

definition split_pascal :: "string \<Rightarrow> string list" where
  "split_pascal name = map str_lower (pascal_words [] name)"

text \<open>The keys of \<open>KIND_PREFIX\<close>; \<open>KIND_WORD\<close> names the first five.\<close>

datatype decl_kind = KEntity | KService | KWorkflow | KEvent | KCapability
  | KRefinement | KPolicy | KSecurity | KPerformance

fun kind_prefix :: "decl_kind \<Rightarrow> string" where
  "kind_prefix KEntity = ''entity''"
| "kind_prefix KService = ''svc''"
| "kind_prefix KWorkflow = ''wf''"
| "kind_prefix KEvent = ''event''"
| "kind_prefix KCapability = ''cap''"
| "kind_prefix KRefinement = ''refine''"
| "kind_prefix KPolicy = ''policy''"
| "kind_prefix KSecurity = ''security''"
| "kind_prefix KPerformance = ''perf''"

fun kind_word :: "decl_kind \<Rightarrow> string option" where
  "kind_word KEntity = Some ''entity''"
| "kind_word KService = Some ''service''"
| "kind_word KWorkflow = Some ''workflow''"
| "kind_word KEvent = Some ''event''"
| "kind_word KCapability = Some ''capability''"
| "kind_word _ = None"

definition derive_segments :: "string \<Rightarrow> decl_kind \<Rightarrow> string list" where
  "derive_segments name k =
     (let parts = split_pascal name in
      case kind_word k of
        None \<Rightarrow> parts
      | Some w \<Rightarrow> if length parts > 1 \<and> last parts = w then butlast parts else parts)"

definition derive_id :: "string \<Rightarrow> decl_kind \<Rightarrow> string option \<Rightarrow> string" where
  "derive_id name k namespace =
     join ''.'' ([kind_prefix k] @ (case namespace of None \<Rightarrow> [] | Some ns \<Rightarrow> split_pascal ns) @ derive_segments name k)"

section \<open>Declarations with their place\<close>

text \<open>\<open>Decl.namespace\<close> and \<open>Decl.internal\<close>, which \<open>load_sources\<close> sets.\<close>

record sourced = decl +
  sd_namespace :: "string option"
  sd_internal :: bool

text \<open>An entry of the entity registry.\<close>

record entity_info =
  ei_id :: string
  ei_name :: string
  ei_fields :: "field_decl list"
  ei_namespace :: "string option"
  ei_internal :: bool
  ei_line :: nat

type_synonym registry = "(string, entity_info) dict"

definition entities_of :: "registry \<Rightarrow> entity_info list" where
  "entities_of reg = map snd reg"

section \<open>Diagnostics\<close>

record diag =
  dg_code :: string
  dg_where :: string
  dg_subject :: string
  dg_line :: "nat option"

text \<open>\<open>"line %d" % n\<close>.\<close>

definition line_text :: "nat \<Rightarrow> string" where
  "line_text n = ''line '' @ show_nat n"

definition diag_at :: "string \<Rightarrow> nat \<Rightarrow> string \<Rightarrow> diag" where
  "diag_at code n subject = \<lparr>dg_code = code, dg_where = line_text n, dg_subject = subject, dg_line = Some n\<rparr>"

text \<open>\<open>("line %d" % line) if line else workflow_name\<close>: line 0 and a missing line both count as none.\<close>

definition where_of :: "nat option \<Rightarrow> string \<Rightarrow> string" where
  "where_of line workflow_name = (case line of Some (Suc n) \<Rightarrow> line_text (Suc n) | _ \<Rightarrow> workflow_name)"

section \<open>Nodes and modules\<close>

text \<open>
  An emitted node: what the runtime model reads of it, its source line, and the remaining keys of the
  dictionary (\<open>_node\<close> drops a key whose value is \<open>None\<close>).
\<close>

record lnode =
  ln_id :: string
  ln_node :: node
  ln_line :: "nat option"
  ln_keys :: "(string, pyval) dict"

definition mk_node :: "string \<Rightarrow> node \<Rightarrow> nat \<Rightarrow> (string, pyval) dict \<Rightarrow> lnode" where
  "mk_node nid n line keys =
     \<lparr>ln_id = nid, ln_node = n, ln_line = Some line, ln_keys = filter (\<lambda>(_, v). v \<noteq> PNone) keys\<rparr>"

definition opt_str :: "string option \<Rightarrow> pyval" where
  "opt_str s = (case s of None \<Rightarrow> PNone | Some t \<Rightarrow> PStr t)"

definition str_list :: "string list \<Rightarrow> pyval" where
  "str_list ws = PList (map PStr ws)"

text \<open>\<open>Module\<close>: the node table in emission order; \<open>add\<close> refuses an id that is taken.\<close>

record lmodule =
  lm_name :: string
  lm_nodes :: "lnode list"
  lm_diags :: "diag list"

definition module_get :: "lmodule \<Rightarrow> string \<Rightarrow> lnode option" where
  "module_get m nid = List.find (\<lambda>n. ln_id n = nid) (lm_nodes m)"

definition module_add :: "lnode \<Rightarrow> lmodule \<Rightarrow> lower_exc + lmodule" where
  "module_add n m =
     (if ln_id n \<in> ln_id ` set (lm_nodes m) then Inl (InModule (ModuleFault (DuplicateNode (ln_id n))))
      else Inr (m\<lparr>lm_nodes := lm_nodes m @ [n]\<rparr>))"

definition add_diags :: "diag list \<Rightarrow> lmodule \<Rightarrow> lmodule" where
  "add_diags ds m = m\<lparr>lm_diags := lm_diags m @ ds\<rparr>"

text \<open>\<open>to_document\<close>, as the runtime model reads it.\<close>

definition to_document :: "lmodule \<Rightarrow> document" where
  "to_document m = map (\<lambda>n. (ln_id n, ln_node n)) (lm_nodes m)"

text \<open>\<open>by_id = {node["id"]: node for node in emitted}\<close>.\<close>

definition by_id :: "lnode list \<Rightarrow> string \<Rightarrow> lnode option" where
  "by_id emitted nid = map_of (rev (map (\<lambda>n. (ln_id n, n)) emitted)) nid"

text \<open>\<open>node.get("entity")\<close> of an emitted effect.\<close>

definition entity_key :: "lnode \<Rightarrow> string option" where
  "entity_key n =
     (case ln_node n of
        Effect (RepositoryCall c) \<Rightarrow> Some (rc_entity c)
      | Effect (Assignment _ _ _) \<Rightarrow> (case dget (ln_keys n) ''entity'' of Some (PStr e) \<Rightarrow> Some e | _ \<Rightarrow> None)
      | _ \<Rightarrow> None)"

end
