(* ===== verification/Clauses.thy ===== *)
theory Clauses
  imports Lowered
begin

text \<open>
  The declaration lines of \<open>impl/lnpl/lower.py\<close>: a \<open>capability http\<close> body, an event body, and the
  lines of the \<open>policy\<close>, \<open>security\<close>, \<open>performance\<close> and \<open>expose\<close> clauses of a service, each read into
  the value its IR node carries. Every line has a first token (the lexer drops blank lines).
\<close>

section \<open>capability http\<close>

definition http_methods :: "string list" where
  "http_methods = [''get'', ''post'', ''put'', ''patch'', ''delete'']"

definition http_auth_kinds :: "string list" where
  "http_auth_kinds = [''bearer'', ''apikey'']"

definition http_idempotent_methods :: "string list" where
  "http_idempotent_methods = [''get'', ''put'', ''delete'']"

datatype http_auth = BearerAuth string | ApikeyAuth string string

record http_retry =
  hr_count :: nat
  hr_backoff_ms :: int
  hr_jitter :: bool

record http_breaker =
  hb_threshold :: nat
  hb_window_ms :: int

abbreviation http_bad :: "line \<Rightarrow> http_error \<Rightarrow> lower_exc + 'a" where
  "http_bad l e \<equiv> Inl (AtLine (lineno l) (HttpFault e))"

definition parse_http_auth :: "line \<Rightarrow> lower_exc + http_auth" where
  "parse_http_auth l =
     (let toks = tokens l in
      if length toks < 2 \<or> toks ! 1 \<notin> set http_auth_kinds then http_bad l AuthKind
      else if toks ! 1 = ''bearer'' then
        (if length toks \<noteq> 4 \<or> toks ! 2 \<noteq> ''from'' then http_bad l AuthBearerShape
         else Inr (BearerAuth (toks ! 3)))
      else if length toks \<noteq> 5 \<or> toks ! 3 \<noteq> ''from'' then http_bad l AuthApikeyShape
      else Inr (ApikeyAuth (toks ! 2) (toks ! 4)))"

definition parse_http_retry :: "line \<Rightarrow> lower_exc + http_retry" where
  "parse_http_retry l =
     (let toks = tokens l in
      if length toks < 4 \<or> \<not> str_isdigit (toks ! 1) \<or> toks ! 2 \<noteq> ''backoff'' then http_bad l HttpRetryShape
      else bindE (int_token (toks ! 1)) (\<lambda>count.
        if count < 1 then http_bad l HttpRetryCount
        else bindE (of_lex (duration_ms_or_none (toks ! 3))) (\<lambda>backoff.
          case backoff of
            None \<Rightarrow> http_bad l (HttpRetryBackoff (toks ! 3))
          | Some ms \<Rightarrow>
              if drop 4 toks = [] then Inr \<lparr>hr_count = count, hr_backoff_ms = ms, hr_jitter = False\<rparr>
              else if drop 4 toks \<noteq> [''jitter''] then http_bad l HttpRetryTail
              else Inr \<lparr>hr_count = count, hr_backoff_ms = ms, hr_jitter = True\<rparr>)))"

definition parse_http_breaker :: "line \<Rightarrow> lower_exc + http_breaker" where
  "parse_http_breaker l =
     (let toks = tokens l in
      if length toks \<noteq> 5 \<or> toks ! 1 \<noteq> ''after'' \<or> \<not> str_isdigit (toks ! 2) \<or> toks ! 3 \<noteq> ''within''
      then http_bad l BreakerShape
      else bindE (int_token (toks ! 2)) (\<lambda>threshold.
        if threshold < 1 then http_bad l BreakerCount
        else bindE (of_lex (duration_ms_or_none (toks ! 4))) (\<lambda>window.
          case window of
            None \<Rightarrow> http_bad l (BreakerWindow (toks ! 4))
          | Some ms \<Rightarrow> Inr \<lparr>hb_threshold = threshold, hb_window_ms = ms\<rparr>)))"

definition parse_http_path :: "line \<Rightarrow> lower_exc + string" where
  "parse_http_path l =
     (let toks = tokens l in
      if length toks \<noteq> 2 then http_bad l PathArity
      else let token = toks ! 1 in
        if length token < 2 \<or> hd token \<noteq> CHR 0x22 \<or> last token \<noteq> CHR 0x22 then http_bad l PathNotQuoted
        else let template = butlast (tl token) in
          if CHR 0x22 \<in> set template then http_bad l PathQuote
          else if take 1 template \<noteq> ''/'' then http_bad l (PathNoSlash template)
          else if count_holes template = 0 then http_bad l (PathNoHole template)
          else Inr template)"

text \<open>The five local variables of \<open>_parse_http_capability\<close>.\<close>

record http_caps =
  hc_method :: "string option"
  hc_auth :: "http_auth option"
  hc_retry :: "http_retry option"
  hc_breaker :: "http_breaker option"
  hc_path :: "string option"

definition http_clause :: "line \<Rightarrow> http_caps \<Rightarrow> lower_exc + http_caps" where
  "http_clause l c =
     (let head = hd (tokens l) in
      if head = ''method'' then
        (if hc_method c \<noteq> None then http_bad l (DeclaredTwice head)
         else if length (tokens l) \<noteq> 2 \<or> tokens l ! 1 \<notin> set http_methods then http_bad l MethodKind
         else Inr (c\<lparr>hc_method := Some (tokens l ! 1)\<rparr>))
      else if head = ''auth'' then
        (if hc_auth c \<noteq> None then http_bad l (DeclaredTwice head)
         else bindE (parse_http_auth l) (\<lambda>a. Inr (c\<lparr>hc_auth := Some a\<rparr>)))
      else if head = ''retry'' then
        (if hc_retry c \<noteq> None then http_bad l (DeclaredTwice head)
         else bindE (parse_http_retry l) (\<lambda>r. Inr (c\<lparr>hc_retry := Some r\<rparr>)))
      else if head = ''breaker'' then
        (if hc_breaker c \<noteq> None then http_bad l (DeclaredTwice head)
         else bindE (parse_http_breaker l) (\<lambda>b. Inr (c\<lparr>hc_breaker := Some b\<rparr>)))
      else if head = ''path'' then
        (if hc_path c \<noteq> None then http_bad l (DeclaredTwice head)
         else bindE (parse_http_path l) (\<lambda>p. Inr (c\<lparr>hc_path := Some p\<rparr>)))
      else http_bad l (UnknownHttpClause head))"

definition no_http :: http_caps where
  "no_http = \<lparr>hc_method = None, hc_auth = None, hc_retry = None, hc_breaker = None, hc_path = None\<rparr>"

definition parse_http_capability :: "'d decl_scheme \<Rightarrow> lower_exc + http_caps \<times> diag list" where
  "parse_http_capability d =
     bindE (foldE http_clause (d_lines d) no_http) (\<lambda>c.
     case hc_method c of
       None \<Rightarrow> Inl (AtLine (d_lineno d) (HttpFault MissingMethod))
     | Some m \<Rightarrow> Inr (c,
         if hc_retry c \<noteq> None \<and> m \<notin> set http_idempotent_methods then
           [\<lparr>dg_code = ''retry-on-non-idempotent'', dg_where = derive_id (d_name d) KCapability None,
             dg_subject = ''method '' @ m, dg_line = Some (d_lineno d)\<rparr>]
         else []))"

section \<open>event\<close>

abbreviation clause_bad :: "nat \<Rightarrow> clause_error \<Rightarrow> lower_exc + 'a" where
  "clause_bad n e \<equiv> Inl (AtLine n (ClauseFault e))"

definition event_body_line ::
  "line \<Rightarrow> bool \<times> (string \<times> nat) option \<Rightarrow> lower_exc + bool \<times> (string \<times> nat) option" where
  "event_body_line l acc =
     (let (subscribed, consume) = acc; toks = tokens l in
      if toks = [''subscribe''] then
        (if subscribed then clause_bad (lineno l) SubscribeTwice else Inr (True, consume))
      else if length toks = 3 \<and> toks ! 0 = ''consume'' \<and> toks ! 1 = ''by'' then
        (if consume \<noteq> None then clause_bad (lineno l) ConsumeTwice
         else Inr (subscribed, Some (toks ! 2, lineno l)))
      else clause_bad (lineno l) EventBodyLine)"

definition parse_event_body :: "'d decl_scheme \<Rightarrow> lower_exc + bool \<times> (string \<times> nat) option" where
  "parse_event_body d = foldE event_body_line (d_lines d) (False, None)"

text \<open>\<open>_TIME_OF_DAY_RE\<close>; the argument is a token, so \<open>$\<close> sees no line feed.\<close>

definition digit_below :: "nat \<Rightarrow> char \<Rightarrow> bool" where
  "digit_below n c = (48 \<le> ord c \<and> ord c < 48 + n)"

definition is_time_of_day :: "string \<Rightarrow> bool" where
  "is_time_of_day s =
     (case s of
        [a, b, c, d, e] \<Rightarrow>
          ((digit_below 2 a \<and> digit_below 10 b) \<or> (a = CHR ''2'' \<and> digit_below 4 b)) \<and>
          c = CHR '':'' \<and> digit_below 6 d \<and> digit_below 10 e
      | _ \<Rightarrow> False)"

definition schedule_source :: "string \<times> string \<times> string \<Rightarrow> nat \<Rightarrow> lower_exc + pyval" where
  "schedule_source spec n =
     (let (every, at, zone) = spec in
      if every \<notin> set schedule_recurrences then clause_bad n (UnknownRecurrence every)
      else if \<not> is_time_of_day at then clause_bad n (BadTimeOfDay at)
      else if zone \<notin> set schedule_zones then
        (if CHR ''/'' \<in> set zone then clause_bad n (ZoneName zone) else clause_bad n (ZoneAbbreviation zone))
      else Inr (PDict [(''every'', PStr every), (''at'', PStr at), (''zone'', PStr zone)]))"

section \<open>policy, performance, security\<close>

definition policy_names :: "string list" where
  "policy_names = [''retry'', ''rollback'', ''timeout'', ''parallel'']"

definition perf_metrics :: "string list" where
  "perf_metrics = [''response'', ''cache'', ''parallel'', ''prefetch'', ''batch'']"

definition valueless_perf :: "string list" where
  "valueless_perf = [''parallel'', ''prefetch'', ''batch'']"

definition security_mechanisms :: "string list" where
  "security_mechanisms = [''jwt'', ''role'']"

definition argument_mechanisms :: "string list" where
  "argument_mechanisms = [''role'']"

text \<open>A rule or a budget is its name and its value, \<open>PNone\<close> where the dictionary has no \<open>value\<close>.\<close>

definition parse_policy_line :: "string list \<Rightarrow> nat \<Rightarrow> lower_exc + string \<times> pyval" where
  "parse_policy_line toks n =
     (let head = hd toks in
      if head \<notin> set policy_names then clause_bad n (UnknownPolicy head)
      else if head = ''retry'' then
        (if length toks \<noteq> 2 \<or> \<not> str_isdigit (toks ! 1) then clause_bad n PolicyRetry
         else bindE (int_token (toks ! 1)) (\<lambda>k. Inr (head, PInt (int k))))
      else if head = ''timeout'' then
        (if length toks \<noteq> 2 \<or> \<not> is_duration (toks ! 1) then clause_bad n PolicyTimeout
         else Inr (head, PStr (toks ! 1)))
      else if head = ''parallel'' then
        (if length toks = 1 then Inr (head, PNone)
         else if length toks \<noteq> 2 \<or> \<not> str_isdigit (toks ! 1) then clause_bad n PolicyParallel
         else bindE (int_token (toks ! 1)) (\<lambda>k.
           if k < 1 then clause_bad n PolicyParallel else Inr (head, PInt (int k))))
      else if length toks \<noteq> 1 then clause_bad n (PolicyArgument head)
      else Inr (head, PNone))"

definition parse_perf_line :: "string list \<Rightarrow> nat \<Rightarrow> lower_exc + string \<times> pyval" where
  "parse_perf_line toks n =
     (let metric = hd toks in
      if metric \<notin> set perf_metrics then clause_bad n (UnknownMetric metric)
      else if metric \<in> set valueless_perf then
        (if length toks \<noteq> 1 then clause_bad n (MetricFlag metric) else Inr (metric, PNone))
      else if metric = ''response'' then
        (if length toks \<noteq> 3 \<or> toks ! 1 \<notin> set comparators then clause_bad n ResponseShape
         else Inr (metric, PStr (toks ! 1 @ toks ! 2)))
      else if length toks \<noteq> 2 then clause_bad n (MetricValue metric)
      else Inr (metric, PStr (toks ! 1)))"

definition parse_security_line :: "string list \<Rightarrow> nat \<Rightarrow> lower_exc + string" where
  "parse_security_line toks n =
     (let head = hd toks in
      if head \<notin> set security_mechanisms then clause_bad n (UnknownMechanism head)
      else if head \<in> set argument_mechanisms then
        (if length toks \<noteq> 2 then clause_bad n (MechanismArgument head)
         else Inr (head @ '' '' @ toks ! 1))
      else if length toks \<noteq> 1 then clause_bad n (MechanismFlag head)
      else Inr head)"

definition is_role_mechanism :: "string \<Rightarrow> bool" where
  "is_role_mechanism m = (take 5 m = ''role '')"

definition check_role_requires_jwt :: "string list \<Rightarrow> line list \<Rightarrow> lower_exc + unit" where
  "check_role_requires_jwt mechs ls =
     (if ''jwt'' \<in> set mechs then Inr ()
      else case List.find (\<lambda>(m, _). is_role_mechanism m) (zip mechs ls) of
        None \<Rightarrow> Inr ()
      | Some (m, l) \<Rightarrow> clause_bad (lineno l) (RoleWithoutJwt m))"

text \<open>\<open>ENFORCEMENT\<close> of \<open>diagnostics.py\<close>, the status of each declaration, and the report on it.\<close>

definition enforcement :: "((string \<times> string) \<times> string) list" where
  "enforcement =
    [((''policy'', ''retry''), ''enforced''), ((''policy'', ''timeout''), ''enforced''),
     ((''policy'', ''rollback''), ''enforced''), ((''policy'', ''parallel''), ''enforced''),
     ((''security'', ''jwt''), ''unenforced''), ((''security'', ''role''), ''enforced''),
     ((''performance'', ''response''), ''measured''), ((''performance'', ''cache''), ''enforced''),
     ((''performance'', ''parallel''), ''unenforced''), ((''performance'', ''prefetch''), ''unenforced''),
     ((''performance'', ''batch''), ''unenforced''), ((''event'', ''schedule''), ''unenforced'')]"

definition declaration_diagnostics :: "string \<Rightarrow> (string \<times> nat) list \<Rightarrow> string \<Rightarrow> diag list" where
  "declaration_diagnostics clause names where_at =
     concat (map (\<lambda>(name, n).
       case map_of enforcement (clause, name) of
         None \<Rightarrow> []
       | Some status \<Rightarrow>
           if status = ''enforced'' then []
           else [\<lparr>dg_code = (if status = ''measured'' then ''declared-measured-only'' else ''declared-not-enforced''),
                  dg_where = where_at, dg_subject = clause @ '' '' @ name, dg_line = Some n\<rparr>]) names)"

section \<open>expose\<close>

definition expose_verbs :: "string list" where "expose_verbs = [''list'']"

definition expose_sort_bases :: "string list" where
  "expose_sort_bases = [''Integer'', ''DateTime'']"

text \<open>\<open>base_of.get(declared, declared)\<close>.\<close>

type_synonym base_map = "(string, string) dict"

definition base_for :: "base_map \<Rightarrow> string \<Rightarrow> string" where
  "base_for bases t = (case dget bases t of None \<Rightarrow> t | Some b \<Rightarrow> b)"

text \<open>\<open>next((f for f in fields if f["name"] == name), None)\<close>.\<close>

definition field_named :: "field_decl list \<Rightarrow> string \<Rightarrow> field_decl option" where
  "field_named fs name = List.find (\<lambda>f. fd_name f = name) fs"

definition parse_expose_line :: "string list \<Rightarrow> nat \<Rightarrow> registry \<Rightarrow> base_map \<Rightarrow> lower_exc + string \<times> string" where
  "parse_expose_line toks n reg bases =
     (let verb = hd toks in
      if verb \<notin> set expose_verbs then clause_bad n (ExposeVerb verb)
      else if length toks \<noteq> 4 \<or> toks ! 2 \<noteq> ''by'' then clause_bad n ExposeShape
      else case List.find (\<lambda>e. ei_name e = toks ! 1) (entities_of reg) of
        None \<Rightarrow> clause_bad n (ExposeEntity (toks ! 1))
      | Some e \<Rightarrow>
          (case field_named (ei_fields e) (toks ! 3) of
             None \<Rightarrow> clause_bad n (ExposeField (toks ! 3))
           | Some f \<Rightarrow>
               if base_for bases (fd_type f) \<notin> set expose_sort_bases
               then clause_bad n (ExposeType (base_for bases (fd_type f)))
               else Inr (ei_id e, toks ! 3)))"

end
