(* ===== verification/TypeDecls.thy ===== *)
theory TypeDecls
  imports Clauses
begin

text \<open>
  Refinements and entities in \<open>impl/lnpl/lower.py\<close>: facet lines, \<open>_lower_refine\<close>, type names, and the
  loop of \<open>lower\<close> that reads the fields of an entity into the registry.
\<close>

text \<open>
  What the standard library decides: whether \<open>re.compile\<close> accepts a pattern, and the value of
  \<open>float(tok)\<close>, for which \<open>pyval\<close> has no constructor.
\<close>

record py_lib =
  pl_regex :: "string \<Rightarrow> bool"
  pl_float :: "string \<Rightarrow> pyval"

section \<open>Shapes\<close>

definition ascii_upper :: "char \<Rightarrow> bool" where
  "ascii_upper c = (65 \<le> ord c \<and> ord c \<le> 90)"

definition ascii_lower :: "char \<Rightarrow> bool" where
  "ascii_lower c = (97 \<le> ord c \<and> ord c \<le> 122)"

definition ascii_alnum :: "char \<Rightarrow> bool" where
  "ascii_alnum c = (ascii_upper c \<or> ascii_lower c \<or> is_decimal_c c)"

text \<open>\<open>PASCAL_RE\<close>, \<open>WORD_RE\<close> and \<open>NUMBER_RE\<close> on a token.\<close>

definition is_pascal :: "string \<Rightarrow> bool" where
  "is_pascal s = (case s of [] \<Rightarrow> False | c # cs \<Rightarrow> ascii_upper c \<and> list_all ascii_alnum cs)"

definition is_word :: "string \<Rightarrow> bool" where
  "is_word s = (case s of [] \<Rightarrow> False | c # cs \<Rightarrow> ascii_lower c \<and> list_all ascii_alnum cs)"

definition is_number :: "string \<Rightarrow> bool" where
  "is_number s =
     (let parts = split_on CHR ''.'' (if take 1 s = ''-'' then drop 1 s else s) in
      length parts \<le> 2 \<and> list_all (\<lambda>p. p \<noteq> [] \<and> list_all is_decimal_c p) parts)"

section \<open>Facets\<close>

datatype enum_token = EnumInt int | EnumFloat string | EnumWord string

text \<open>\<open>_number\<close>, keeping which of \<open>int\<close> and \<open>float\<close> reads the token.\<close>

definition number_token :: "string \<Rightarrow> lower_exc + enum_token" where
  "number_token tok =
     (if CHR ''.'' \<in> set tok then Inr (EnumFloat tok)
      else case py_int tok of None \<Rightarrow> Inl (LexRaised (IntValueError tok)) | Some n \<Rightarrow> Inr (EnumInt n))"

definition enum_pyval :: "py_lib \<Rightarrow> enum_token \<Rightarrow> pyval" where
  "enum_pyval lib t = (case t of EnumInt n \<Rightarrow> PInt n | EnumFloat s \<Rightarrow> pl_float lib s | EnumWord s \<Rightarrow> PStr s)"

abbreviation facet_bad :: "nat \<Rightarrow> facet_error \<Rightarrow> lower_exc + 'a" where
  "facet_bad n e \<equiv> Inl (AtLine n (FacetFault e))"

definition enum_value :: "string \<Rightarrow> nat \<Rightarrow> lower_exc + enum_token" where
  "enum_value tok n =
     (if is_number tok then number_token tok
      else if is_word tok then Inr (EnumWord tok)
      else facet_bad n (EnumValue tok))"

definition check_enum_member :: "enum_token \<Rightarrow> string \<Rightarrow> nat \<Rightarrow> lower_exc + unit" where
  "check_enum_member t base n =
     (let ok = (if map_of base_category base = Some TextCat then (case t of EnumWord _ \<Rightarrow> True | _ \<Rightarrow> False)
                else if base = ''Integer'' then (case t of EnumInt _ \<Rightarrow> True | _ \<Rightarrow> False)
                else (case t of EnumWord _ \<Rightarrow> False | _ \<Rightarrow> True)) in
      require ok (AtLine n (FacetFault (EnumMember base))))"

datatype facet_value = FacetNat nat | FacetStr string | FacetNum pyval | FacetEnum "pyval list"

definition parse_facet_line ::
  "py_lib \<Rightarrow> string list \<Rightarrow> nat \<Rightarrow> string list \<Rightarrow> string \<Rightarrow> lower_exc + string \<times> facet_value" where
  "parse_facet_line lib toks n allowed base =
     (let name = hd toks in
      if name \<notin> set facet_names then facet_bad n (UnknownFacet name)
      else if name \<notin> set allowed then facet_bad n (FacetNotAllowed name)
      else if name = ''enum'' then
        (if length toks < 2 then facet_bad n EnumEmpty
         else bindE (mapE (\<lambda>t. enum_value t n) (tl toks)) (\<lambda>vs.
              bindE (mapE (\<lambda>v. check_enum_member v base n) vs) (\<lambda>_.
                Inr (name, FacetEnum (map (enum_pyval lib) vs)))))
      else if length toks \<noteq> 2 then facet_bad n (FacetArity name)
      else if name = ''pattern'' then
        (if pl_regex lib (toks ! 1) then Inr (name, FacetStr (toks ! 1)) else facet_bad n BadPattern)
      else if name = ''minLength'' \<or> name = ''maxLength'' then
        (if \<not> str_isdigit (toks ! 1) then facet_bad n (FacetLength name)
         else bindE (int_token (toks ! 1)) (\<lambda>k. Inr (name, FacetNat k)))
      else if \<not> is_number (toks ! 1) then facet_bad n (FacetNumber name)
      else bindE (number_token (toks ! 1)) (\<lambda>t. Inr (name, FacetNum (enum_pyval lib t))))"

text \<open>\<open>name in facets\<close> and \<open>facets[name] = value\<close>.\<close>

definition facet_given :: "facets \<Rightarrow> string \<Rightarrow> bool" where
  "facet_given fs name =
     (if name = ''minLength'' then ft_min_length fs \<noteq> None
      else if name = ''maxLength'' then ft_max_length fs \<noteq> None
      else if name = ''pattern'' then ft_pattern fs \<noteq> None
      else if name = ''min'' then ft_min fs \<noteq> None
      else if name = ''max'' then ft_max fs \<noteq> None
      else if name = ''enum'' then ft_enum fs \<noteq> None
      else False)"

definition set_facet :: "string \<Rightarrow> facet_value \<Rightarrow> facets \<Rightarrow> facets" where
  "set_facet name v fs =
     (case v of
        FacetNat k \<Rightarrow> if name = ''minLength'' then fs\<lparr>ft_min_length := Some k\<rparr> else fs\<lparr>ft_max_length := Some k\<rparr>
      | FacetStr s \<Rightarrow> fs\<lparr>ft_pattern := Some s\<rparr>
      | FacetNum p \<Rightarrow> if name = ''min'' then fs\<lparr>ft_min := Some p\<rparr> else fs\<lparr>ft_max := Some p\<rparr>
      | FacetEnum vs \<Rightarrow> fs\<lparr>ft_enum := Some vs\<rparr>)"

definition facet_line :: "py_lib \<Rightarrow> string list \<Rightarrow> string \<Rightarrow> line \<Rightarrow> facets \<Rightarrow> lower_exc + facets" where
  "facet_line lib allowed base l fs =
     bindE (parse_facet_line lib (tokens l) (lineno l) allowed base) (\<lambda>(name, v).
       if facet_given fs name then facet_bad (lineno l) (FacetTwice name) else Inr (set_facet name v fs))"

section \<open>Refinements\<close>

text \<open>The one node builder of declared refinements and built-in presets; a preset has no source line.\<close>

definition refinement_node :: "string \<Rightarrow> string \<Rightarrow> facets \<Rightarrow> lnode" where
  "refinement_node name base fs =
     \<lparr>ln_id = derive_id name KRefinement None, ln_node = Refinement name base fs, ln_line = None, ln_keys = []\<rparr>"

definition lower_refine :: "py_lib \<Rightarrow> 'd decl_scheme \<Rightarrow> string list \<Rightarrow> lower_exc + string \<times> facets" where
  "lower_refine lib d taken =
     (if \<not> is_pascal (d_name d) then facet_bad (d_lineno d) (RefineName (d_name d))
      else case d_base d of
        None \<Rightarrow> Inl (KeyRaised ''base'')
      | Some base \<Rightarrow>
          (case facets_for_base base of
             None \<Rightarrow> facet_bad (d_lineno d) (RefineBase base)
           | Some allowed \<Rightarrow>
               if d_name d \<in> set taken then facet_bad (d_lineno d) (RefineTaken (d_name d))
               else bindE (foldE (facet_line lib allowed base) (d_lines d) no_facets) (\<lambda>fs.
                 if fs = no_facets then Inl (InModule (FacetFault (NoFacets (d_name d))))
                 else Inr (base, fs))))"

text \<open>The loop over the \<open>refine\<close> declarations: \<open>refine_nodes\<close>, as name, base and facets.\<close>

fun lower_refines ::
  "py_lib \<Rightarrow> 'd decl_scheme list \<Rightarrow> string list \<Rightarrow> lower_exc + (string \<times> string \<times> facets) list" where
  "lower_refines lib [] taken = Inr []"
| "lower_refines lib (d # ds) taken =
     bindE (lower_refine lib d taken) (\<lambda>(base, fs).
     bindE (lower_refines lib ds (d_name d # taken)) (\<lambda>rest. Inr ((d_name d, base, fs) # rest)))"

text \<open>\<open>base_of\<close>: the bases, the declared refinements, then the presets; a later entry wins.\<close>

definition base_of_map :: "(string \<times> string \<times> facets) list \<Rightarrow> base_map" where
  "base_of_map refs =
     rev (map (\<lambda>(b, _). (b, b)) base_category @ map (\<lambda>(n, b, _). (n, b)) refs @ map (\<lambda>(n, b, _). (n, b)) presets)"

definition resolve_type :: "string \<Rightarrow> string list \<Rightarrow> string list \<Rightarrow> nat \<Rightarrow> lower_exc + string list" where
  "resolve_type name refined used n =
     (if dhas base_category name \<or> name \<in> set refined then Inr used
      else if dhas presets name then Inr (if name \<in> set used then used else used @ [name])
      else facet_bad n (UnknownType name))"

section \<open>Fields\<close>

definition modifier_words :: "string list" where
  "modifier_words = [''derived'', ''optional'']"

text \<open>\<open>FILL_SOURCES\<close>: marker to the base its field must have.\<close>

definition marker_bases :: "(string \<times> string) list" where
  "marker_bases = [(''generated'', ''UUID''), (''clock'', ''DateTime'')]"

abbreviation field_bad :: "nat \<Rightarrow> field_error \<Rightarrow> lower_exc + 'a" where
  "field_bad n e \<equiv> Inl (AtLine n (FieldFault e))"

text \<open>The modifiers of a field line, with the fill-source marker taken off.\<close>

definition field_modifiers :: "nat \<Rightarrow> string list \<Rightarrow> lower_exc + string list \<times> string option" where
  "field_modifiers n ms =
     (if length ms = 2 \<and> ms ! 0 = ''derived'' \<and> ms ! 1 \<notin> set modifier_words then
        (if dhas marker_bases (ms ! 1) then Inr ([''derived''], Some (ms ! 1))
         else field_bad n (UnknownMarker (ms ! 1)))
      else case filter (\<lambda>m. m \<notin> set modifier_words) ms of
        u # _ \<Rightarrow> if dhas marker_bases u then field_bad n (MisplacedMarker u) else field_bad n (UnknownModifier u)
      | [] \<Rightarrow>
          if \<not> distinct ms then field_bad n (RepeatedModifier (hd ms))
          else if ''derived'' \<in> set ms \<and> ''optional'' \<in> set ms then field_bad n DerivedOptional
          else Inr (ms, None))"

text \<open>The checks of a marker against the field's type and name.\<close>

definition check_marker :: "base_map \<Rightarrow> nat \<Rightarrow> string \<Rightarrow> string \<Rightarrow> string option \<Rightarrow> lower_exc + unit" where
  "check_marker bases n name type marker =
     (case marker of
        None \<Rightarrow> Inr ()
      | Some m \<Rightarrow>
          if map_of marker_bases m \<noteq> Some (base_for bases type) then field_bad n (MarkerType m)
          else if name = ''id'' \<and> m \<noteq> ''generated'' then field_bad n (MarkerOnId m)
          else Inr ())"

definition field_line ::
  "base_map \<Rightarrow> string list \<Rightarrow> line \<Rightarrow> field_decl list \<times> string list \<Rightarrow> lower_exc + field_decl list \<times> string list" where
  "field_line bases refined l acc =
     (let (fs, used) = acc; toks = tokens l; n = lineno l in
      if length toks < 2 \<or> length toks > 4 then field_bad n (FieldArity (length toks))
      else bindE (field_modifiers n (drop 2 toks)) (\<lambda>(ms, marker).
        let name = toks ! 0; type = toks ! 1 in
        if \<not> is_word name then field_bad n (FieldName name)
        else if name = ''id'' \<and> ''optional'' \<in> set ms then field_bad n OptionalId
        else bindE (resolve_type type refined used n) (\<lambda>used.
          bindE (check_marker bases n name type marker) (\<lambda>_.
            Inr (fs @ [\<lparr>fd_name = name, fd_type = type, fd_base = None, fd_optional = ''optional'' \<in> set ms,
                        fd_derived = ''derived'' \<in> set ms, fd_fill = marker\<rparr>], used)))))"

section \<open>Entities\<close>

text \<open>\<open>d.clauses.get(k, [])\<close>.\<close>

definition clause_lines :: "'d decl_scheme \<Rightarrow> string \<Rightarrow> line list" where
  "clause_lines d k = (case dget (d_clauses d) k of None \<Rightarrow> [] | Some ls \<Rightarrow> ls)"

definition lower_entity ::
  "base_map \<Rightarrow> string list \<Rightarrow> sourced \<Rightarrow> registry \<times> string list \<Rightarrow> lower_exc + registry \<times> string list" where
  "lower_entity bases refined d acc =
     (let (reg, used) = acc in
      bindE (foldE (field_line bases refined) (clause_lines d ''field'') ([], used)) (\<lambda>(fs, used).
      if fs = [] then Inl (InModule (FieldFault (NoFields (d_name d))))
      else if binding_name (d_name d) = payload_namespace then field_bad (d_lineno d) (ReservedBinding (d_name d))
      else let eid = derive_id (d_name d) KEntity (sd_namespace d) in
        if dhas reg eid then Inl (InModule (FieldFault (SameEntityId eid)))
        else Inr (reg @ [(eid, \<lparr>ei_id = eid, ei_name = d_name d, ei_fields = fs, ei_namespace = sd_namespace d,
                                ei_internal = sd_internal d, ei_line = d_lineno d\<rparr>)], used)))"

definition lower_entities ::
  "base_map \<Rightarrow> string list \<Rightarrow> sourced list \<Rightarrow> lower_exc + registry \<times> string list" where
  "lower_entities bases refined ds = foldE (lower_entity bases refined) ds ([], [])"

definition entity_node :: "entity_info \<Rightarrow> lnode" where
  "entity_node e = mk_node (ei_id e) (Entity (ei_name e) (ei_fields e)) (ei_line e) [(''namespace'', opt_str (ei_namespace e))]"

end
