(* ===== verification/ListClauses.thy ===== *)
theory ListClauses
  imports TypeDecls
begin

text \<open>
  The trailing clauses of \<open>list <Entity>\<close> in \<open>impl/lnpl/lower.py\<close>: \<open>where\<close>, \<open>order by\<close> and \<open>limit\<close>, judged
  against the entity being listed and turned into the structured predicate the repository evaluates.
\<close>

abbreviation query_bad :: "nat \<Rightarrow> query_error \<Rightarrow> lower_exc + 'a" where
  "query_bad n e \<equiv> Inl (AtLine n (QueryFault e))"

text \<open>\<open>{f["name"]: f for f in entity["fields"]}\<close>: the last field of a name wins.\<close>

definition fields_by_name :: "field_decl list \<Rightarrow> string \<Rightarrow> field_decl option" where
  "fields_by_name fs name = map_of (rev (map (\<lambda>f. (fd_name f, f)) fs)) name"

definition list_order_comparators :: "cmp_op list" where
  "list_order_comparators = [OpLt, OpLe, OpGt, OpGe]"

text \<open>\<open>isinstance(left, Ref) and left.namespace is None\<close>: the name of a bare reference.\<close>

definition bare_ref :: "val \<Rightarrow> string option" where
  "bare_ref v = (case v of Operand (Ref name) \<Rightarrow> (if ref_namespace name = None then Some name else None) | _ \<Rightarrow> None)"

definition is_ref :: "val \<Rightarrow> bool" where
  "is_ref v = (case v of Operand (Ref _) \<Rightarrow> True | _ \<Rightarrow> False)"

definition predicate_term :: "nat \<Rightarrow> entity_info \<Rightarrow> base_map \<Rightarrow> condition \<Rightarrow> lower_exc + pred_term" where
  "predicate_term n e bases t =
     (case t of
        Comparison l op r \<Rightarrow>
          (case bare_ref l of
             None \<Rightarrow> query_bad n WhereLeft
           | Some name \<Rightarrow>
               (case fields_by_name (ei_fields e) name of
                  None \<Rightarrow> query_bad n (WhereField name)
                | Some f \<Rightarrow>
                    let base = base_for bases (fd_type f); term = \<lparr>pt_field = name, pt_op = cmp_text op, pt_value = value_to_string r\<rparr> in
                    if base \<in> set expose_sort_bases then Inr term
                    else if op \<in> set list_order_comparators then query_bad n (WhereOrder name)
                    else if \<not> is_ref r then query_bad n (WhereEquality name)
                    else Inr term))
      | _ \<Rightarrow> Inl (CondRaised (TypeErr ''left'')))"

definition is_numeric_predicate :: "condition \<Rightarrow> bool" where
  "is_numeric_predicate c = (case c of NumericPredicate _ _ \<Rightarrow> True | _ \<Rightarrow> False)"

definition and_terms :: "condition \<Rightarrow> condition list" where
  "and_terms c = (case c of And ts \<Rightarrow> ts | _ \<Rightarrow> [c])"

definition parse_predicate_terms :: "string list \<Rightarrow> nat \<Rightarrow> entity_info \<Rightarrow> base_map \<Rightarrow> lower_exc + pred_term list" where
  "parse_predicate_terms toks n e bases =
     bindE (on_cond_error (\<lambda>err. query_bad n (WhereCondition err)) (parse_condition (Some (join_sp toks)))) (\<lambda>cond.
     case cond of
       None \<Rightarrow> Inl (CondRaised (TypeErr ''left''))
     | Some (Presence _ _) \<Rightarrow> query_bad n WherePresence
     | Some c \<Rightarrow>
         if list_ex is_numeric_predicate (and_terms c) then query_bad n WhereNumeric
         else mapE (predicate_term n e bases) (and_terms c))"

definition parse_list_order_field :: "string \<Rightarrow> bool \<Rightarrow> nat \<Rightarrow> entity_info \<Rightarrow> base_map \<Rightarrow> lower_exc + string \<times> bool" where
  "parse_list_order_field name desc n e bases =
     (case fields_by_name (ei_fields e) name of
        None \<Rightarrow> query_bad n (OrderField name)
      | Some f \<Rightarrow>
          if base_for bases (fd_type f) \<in> set expose_sort_bases then Inr (name, desc)
          else query_bad n (OrderType name))"

text \<open>The \<open>order\<close> clause of a tail and what follows it.\<close>

definition order_clause ::
  "string list \<Rightarrow> nat \<Rightarrow> entity_info \<Rightarrow> base_map \<Rightarrow> lower_exc + (string \<times> bool) option \<times> string list" where
  "order_clause tail n e bases =
     (if take 1 tail \<noteq> [''order''] then Inr (None, tail)
      else if length tail < 3 \<or> tail ! 1 \<noteq> ''by'' then query_bad n OrderShape
      else let desc = (length tail > 3 \<and> tail ! 3 = ''desc'') in
        bindE (parse_list_order_field (tail ! 2) desc n e bases) (\<lambda>order.
          Inr (Some order, drop (if desc then 4 else 3) tail)))"

definition limit_clause :: "string list \<Rightarrow> nat \<Rightarrow> lower_exc + nat option \<times> string list" where
  "limit_clause tail n =
     (if take 1 tail \<noteq> [''limit''] then Inr (None, tail)
      else if length tail < 2 then query_bad n LimitArity
      else if \<not> str_isdigit (tail ! 1) then query_bad n (LimitNumber (tail ! 1))
      else bindE (int_token (tail ! 1)) (\<lambda>k.
        if k < 1 then query_bad n LimitPositive else Inr (Some k, drop 2 tail)))"

definition parse_list_clauses ::
  "string list \<Rightarrow> nat \<Rightarrow> entity_info \<Rightarrow> base_map \<Rightarrow> lower_exc + pred_term list \<times> (string \<times> bool) option \<times> nat option" where
  "parse_list_clauses rest n e bases =
     (if take 1 rest \<noteq> [''where''] then query_bad n ListTail
      else let stop = (\<lambda>t. t = ''order'' \<or> t = ''limit''); cond_tokens = takeWhile (\<lambda>t. \<not> stop t) (tl rest) in
        if cond_tokens = [] then query_bad n WhereEmpty
        else bindE (parse_predicate_terms cond_tokens n e bases) (\<lambda>predicate.
             bindE (order_clause (dropWhile (\<lambda>t. \<not> stop t) (tl rest)) n e bases) (\<lambda>(order, tail).
             bindE (limit_clause tail n) (\<lambda>(limit, tail).
               if tail = [] then Inr (predicate, order, limit) else query_bad n ListTrailing))))"

end
