(* ===== verification/EffectSteps.thy ===== *)
theory EffectSteps
  imports ListClauses
begin

text \<open>
  Steps whose verb the lexicon maps to an effect, in \<open>impl/lnpl/lower.py\<close>: which entity a step means
  (\<open>_resolve_entity\<close>), the payload maps, the trailing clauses of a network call, and \<open>_derive_effect\<close>.
  A step's \<open>obj\<close> and \<open>rest\<close> are tokens, so none of them is empty.
\<close>

abbreviation effect_bad :: "nat \<Rightarrow> effect_error \<Rightarrow> lower_exc + 'a" where
  "effect_bad n e \<equiv> Inl (AtLine n (EffectFault e))"

section \<open>The verb lexicon\<close>

datatype verb_kind =
    VerbAssignment | VerbValidation | VerbRepository string | VerbCache string | VerbNetwork
  | VerbEmit | VerbAuthorize | VerbRespond | VerbNote | VerbFail

definition verb_lexicon :: "(string \<times> verb_kind) list" where
  "verb_lexicon =
    [(''set'', VerbAssignment), (''validate'', VerbValidation),
     (''authenticate'', VerbRepository ''read''), (''load'', VerbRepository ''read''),
     (''find'', VerbRepository ''read''), (''read'', VerbRepository ''read''),
     (''list'', VerbRepository ''query''), (''create'', VerbRepository ''create''),
     (''insert'', VerbRepository ''create''), (''update'', VerbRepository ''update''),
     (''delete'', VerbRepository ''delete''), (''cache'', VerbCache ''set''),
     (''invalidate'', VerbCache ''invalidate''), (''call'', VerbNetwork), (''request'', VerbNetwork),
     (''emit'', VerbEmit), (''publish'', VerbEmit), (''authorize'', VerbAuthorize),
     (''format'', VerbAssignment), (''respond'', VerbRespond), (''note'', VerbNote), (''fail'', VerbFail)]"

fun effect_slug :: "verb_kind \<Rightarrow> string" where
  "effect_slug VerbAssignment = ''assign''"
| "effect_slug VerbValidation = ''check''"
| "effect_slug (VerbRepository _) = ''repo''"
| "effect_slug (VerbCache _) = ''cache''"
| "effect_slug VerbNetwork = ''net''"
| "effect_slug VerbAuthorize = ''authz''"
| "effect_slug VerbEmit = ''emit''"
| "effect_slug VerbRespond = ''respond''"
| "effect_slug VerbNote = ''note''"
| "effect_slug VerbFail = ''reject''"

definition effect_id :: "string \<Rightarrow> verb_kind \<Rightarrow> string" where
  "effect_id step_id k = step_id @ ''.'' @ effect_slug k"

section \<open>Which entity\<close>

definition check_internal_visibility :: "entity_info \<Rightarrow> string option \<Rightarrow> nat \<Rightarrow> lower_exc + entity_info" where
  "check_internal_visibility e namespace n =
     (if ei_internal e \<and> ei_namespace e \<noteq> namespace
      then Inl (LoaderError n (EffectFault (NotVisible (ei_name e)))) else Inr e)"

text \<open>\<open>ent["id"].split(".", 1)[1].replace(".", "")\<close>.\<close>

definition bare_id :: "entity_info \<Rightarrow> string" where
  "bare_id e = filter (\<lambda>c. c \<noteq> CHR ''.'') (snd (snd (partition_at CHR ''.'' (ei_id e))))"

definition names_entity :: "string \<Rightarrow> entity_info \<Rightarrow> bool" where
  "names_entity obj e = (obj = bare_id e \<or> obj = concat (split_pascal (ei_name e)))"

definition names_entity_or_field :: "string \<Rightarrow> entity_info \<Rightarrow> bool" where
  "names_entity_or_field obj e = (names_entity obj e \<or> obj \<in> fd_name ` set (ei_fields e))"

definition with_diags :: "diag list \<Rightarrow> lower_exc + 'a \<Rightarrow> lower_exc + 'a \<times> diag list" where
  "with_diags ds m = bindE m (\<lambda>x. Inr (x, ds))"

definition resolve_entity ::
  "registry \<Rightarrow> string option \<Rightarrow> nat \<Rightarrow> bool \<Rightarrow> string option \<Rightarrow> lower_exc + entity_info \<times> diag list" where
  "resolve_entity reg obj n report namespace =
     (let es = entities_of reg;
          visible = (\<lambda>ds e. with_diags ds (check_internal_visibility e namespace n));
          fallback = (\<lambda>ds. case es of [e] \<Rightarrow> visible ds e
            | _ \<Rightarrow> effect_bad n (WhichEntity (case obj of None \<Rightarrow> [] | Some s \<Rightarrow> s))) in
      if es = [] then effect_bad n NoEntityDeclared
      else case obj of
        None \<Rightarrow> fallback []
      | Some s \<Rightarrow>
          (let matches = filter (names_entity s) es in
           if length matches > 1 then
             (case filter (\<lambda>e. ei_namespace e = namespace) matches of
                [e] \<Rightarrow> visible [] e
              | _ \<Rightarrow> effect_bad n (AmbiguousEntity s))
           else case List.find (names_entity_or_field s) es of
             Some e \<Rightarrow> visible [] e
           | None \<Rightarrow> fallback (if report then [diag_at ''unknown-entity'' n s] else [])))"

section \<open>Payload maps\<close>

fun payload_map_from :: "nat \<Rightarrow> string list \<Rightarrow> (string \<times> string) list \<Rightarrow> lower_exc + (string \<times> string) list" where
  "payload_map_from n [] built = Inr built"
| "payload_map_from n (tok # toks) built =
     (if \<not> is_reference_name tok then effect_bad n (MapArgument tok)
      else let name = snd (rpartition_dot tok) in
        if dhas built name then effect_bad n (MapDuplicate name)
        else payload_map_from n toks (built @ [(name, tok)]))"

definition build_payload_map :: "string list \<Rightarrow> nat \<Rightarrow> lower_exc + (string \<times> string) list" where
  "build_payload_map toks n = (if toks = [] then effect_bad n MapEmpty else payload_map_from n toks [])"

section \<open>Result bindings\<close>

definition check_result_name :: "registry \<Rightarrow> string \<Rightarrow> nat \<Rightarrow> lower_exc + unit" where
  "check_result_name reg name n =
     (if \<not> is_word name then effect_bad n (AsNotCamel name)
      else if list_ex (\<lambda>e. name = binding_name (ei_name e)) (entities_of reg) then effect_bad n (AsCollides name)
      else Inr ())"

section \<open>Repository calls\<close>

definition plain_call :: "string \<Rightarrow> string \<Rightarrow> repo_call" where
  "plain_call eid op = \<lparr>rc_entity = eid, rc_operation = op, rc_lookup = None, rc_cached = False, rc_result = None,
     rc_predicate = [], rc_order = None, rc_limit = None\<rparr>"

text \<open>\<open>by <ref>\<close> and \<open>cached\<close> after a read, an update or a delete.\<close>

definition addressed_call :: "string \<Rightarrow> string \<Rightarrow> string list \<Rightarrow> nat \<Rightarrow> bool \<Rightarrow> lower_exc + repo_call" where
  "addressed_call eid op rest n has_budget =
     (let by = (length rest \<ge> 2 \<and> rest ! 0 = ''by'' \<and> is_reference_name (rest ! 1));
          lookup = (if by then Some (rest ! 1) else None); tail = (if by then drop 2 rest else rest);
          call = (plain_call eid op)\<lparr>rc_lookup := lookup\<rparr> in
      if op = ''read'' \<and> tail = [''cached''] then
        (if has_budget then Inr (call\<lparr>rc_cached := True\<rparr>) else effect_bad n CachedWithoutBudget)
      else if tail = [] then Inr call
      else if op = ''read'' then effect_bad n ReadTail
      else effect_bad n WriteTail)"

definition repository_call ::
  "string \<Rightarrow> entity_info \<Rightarrow> string list \<Rightarrow> nat \<Rightarrow> registry \<Rightarrow> base_map \<Rightarrow> bool \<Rightarrow> lower_exc + repo_call" where
  "repository_call op e rest n reg bases has_budget =
     (if rest = [] then Inr (plain_call (ei_id e) op)
      else if op = ''create'' then
        (if length rest = 2 \<and> rest ! 0 = ''as'' then
           bindE (check_result_name reg (rest ! 1) n) (\<lambda>_. Inr ((plain_call (ei_id e) op)\<lparr>rc_result := Some (rest ! 1)\<rparr>))
         else effect_bad n CreateTail)
      else if op = ''query'' then
        bindE (parse_list_clauses rest n e bases) (\<lambda>(predicate, order, limit).
          Inr ((plain_call (ei_id e) op)\<lparr>rc_predicate := predicate, rc_order := order, rc_limit := limit\<rparr>))
      else addressed_call (ei_id e) op rest n has_budget)"

section \<open>Network calls\<close>

text \<open>\<open>ranks\<close>, and the segments between the marker words.\<close>

definition call_rank :: "string \<Rightarrow> nat option" where
  "call_rank w = map_of [(''send'', 0), (''with'', 1), (''as'', 2)] w"

lemma dropWhile_shorter [termination_simp]: "length (dropWhile p xs) < Suc (length xs)"
  by (simp add: length_dropWhile_le le_imp_less_Suc)

text \<open>\<open>low\<close> is \<open>last_rank + 1\<close>.\<close>

fun call_segments :: "nat \<Rightarrow> nat \<Rightarrow> string list \<Rightarrow> lower_exc + (string, string list) dict" where
  "call_segments n low [] = Inr []"
| "call_segments n low (w # ws) =
     (case call_rank w of
        None \<Rightarrow> effect_bad n CallTail
      | Some r \<Rightarrow>
          if r < low then effect_bad n (CallOrder w)
          else bindE (call_segments n (Suc r) (dropWhile (\<lambda>t. call_rank t = None) ws)) (\<lambda>segs.
            Inr ((w, takeWhile (\<lambda>t. call_rank t = None) ws) # segs)))"

definition optional_seg :: "('a \<Rightarrow> lower_exc + 'b) \<Rightarrow> 'a option \<Rightarrow> lower_exc + 'b option" where
  "optional_seg f seg = (case seg of None \<Rightarrow> Inr None | Some x \<Rightarrow> bindE (f x) (\<lambda>y. Inr (Some y)))"

definition path_arguments :: "nat \<Rightarrow> string list \<Rightarrow> lower_exc + string list" where
  "path_arguments n toks =
     (if toks = [] then effect_bad n PathArgsEmpty
      else mapE (\<lambda>t. if is_reference_name t then Inr t else effect_bad n (PathArgument t)) toks)"

definition check_path_count :: "http_caps option \<Rightarrow> string \<Rightarrow> nat \<Rightarrow> nat \<Rightarrow> lower_exc + unit" where
  "check_path_count cap target given n =
     (let template = (case cap of None \<Rightarrow> None | Some c \<Rightarrow> hc_path c);
          holes = (case template of None \<Rightarrow> 0 | Some t \<Rightarrow> count_holes t) in
      if holes = given then Inr ()
      else if template = None then effect_bad n (PathUndeclared target)
      else effect_bad n (PathArgCount holes given))"

definition result_segment :: "registry \<Rightarrow> nat \<Rightarrow> string list \<Rightarrow> lower_exc + string" where
  "result_segment reg n ws =
     (case ws of [name] \<Rightarrow> bindE (check_result_name reg name n) (\<lambda>_. Inr name) | _ \<Rightarrow> effect_bad n AsArity)"

definition network_node ::
  "string \<Rightarrow> string list \<Rightarrow> nat \<Rightarrow> registry \<Rightarrow> (string, http_caps) dict \<Rightarrow> lower_exc + net_node" where
  "network_node target rest n reg caps =
     bindE (call_segments n 0 rest) (\<lambda>segs.
     bindE (optional_seg (\<lambda>ws. build_payload_map ws n) (dget segs ''send'')) (\<lambda>body_map.
     bindE (optional_seg (path_arguments n) (dget segs ''with'')) (\<lambda>path_args.
     let args = (case path_args of None \<Rightarrow> [] | Some ws \<Rightarrow> ws) in
     bindE (check_path_count (dget caps target) target (length args) n) (\<lambda>_.
     bindE (optional_seg (result_segment reg n) (dget segs ''as'')) (\<lambda>result.
       Inr \<lparr>nn_target = target, nn_path_args = args,
            nn_body_map = (case body_map of None \<Rightarrow> [] | Some m \<Rightarrow> m), nn_result = result\<rparr>)))))"

definition looks_like_url :: "string \<Rightarrow> bool" where
  "looks_like_url target = (take 7 target = ''http://'' \<or> take 8 target = ''https://'')"

section \<open>Events\<close>

definition ascii_upcase :: "char \<Rightarrow> char" where
  "ascii_upcase c = (if ascii_lower c then char_of (ord c - 32) else c)"

definition event_ref :: "string \<Rightarrow> nat \<Rightarrow> lower_exc + string" where
  "event_ref obj n =
     (case obj of
        [] \<Rightarrow> effect_bad n (BadEventName obj)
      | c # cs \<Rightarrow>
          if (ascii_upper c \<or> ascii_lower c) \<and> list_all ascii_alnum cs
          then Inr (derive_id (ascii_upcase c # cs) KEvent None)
          else effect_bad n (BadEventName obj))"

definition emit_effect :: "string option \<Rightarrow> string list \<Rightarrow> nat \<Rightarrow> lower_exc + effect" where
  "emit_effect obj rest n =
     (case obj of
        None \<Rightarrow> effect_bad n EmitWithoutEvent
      | Some ev \<Rightarrow>
          (case rest of
             [] \<Rightarrow> bindE (event_ref ev n) (\<lambda>eid. Inr (EventEmit (Some eid) []))
           | w # args \<Rightarrow>
               if w \<noteq> ''with'' then effect_bad n EmitTail
               else bindE (build_payload_map args n) (\<lambda>pm.
                    bindE (event_ref ev n) (\<lambda>eid. Inr (EventEmit (Some eid) pm)))))"

section \<open>Deriving the effect\<close>

text \<open>What a step is derived against: the arguments \<open>_WfContext\<close> passes on.\<close>

record wf_env =
  we_registry :: registry
  we_bases :: base_map
  we_caps :: "(string, http_caps) dict"
  we_namespace :: "string option"
  we_budget :: bool

text \<open>\<open>validate\<close>: an object that is a field checks that field by its type, any other the whole entity.\<close>

definition validation_effect :: "string option \<Rightarrow> entity_info \<Rightarrow> effect" where
  "validation_effect obj e =
     (case (case obj of None \<Rightarrow> None | Some s \<Rightarrow> field_named (ei_fields e) s) of
        Some f \<Rightarrow> Validation (ei_id e @ ''.'' @ fd_name f) (fd_type f)
      | None \<Rightarrow> Validation (ei_id e) ''semantic-types'')"

definition derive_effect ::
  "wf_env \<Rightarrow> string \<Rightarrow> string \<Rightarrow> string option \<Rightarrow> nat \<Rightarrow> string list \<Rightarrow> lower_exc + (lnode option \<times> diag list)" where
  "derive_effect we step_id verb obj n rest =
     (case map_of verb_lexicon verb of
        None \<Rightarrow> Inr (None, [])
      | Some k \<Rightarrow>
          let eid = effect_id step_id k; node = (\<lambda>e. Some (mk_node eid (Effect e) n []));
              resolve = (\<lambda>ob report. resolve_entity (we_registry we) ob n report (we_namespace we)) in
          (case k of
             VerbValidation \<Rightarrow>
               bindE (resolve obj (obj \<noteq> Some payload_namespace)) (\<lambda>(e, ds). Inr (node (validation_effect obj e), ds))
           | VerbRepository op \<Rightarrow>
               bindE (resolve obj True) (\<lambda>(e, ds).
               bindE (repository_call op e rest n (we_registry we) (we_bases we) (we_budget we)) (\<lambda>c.
                 Inr (node (RepositoryCall c), ds)))
           | VerbCache op \<Rightarrow>
               bindE (case obj of
                        Some s \<Rightarrow> Inr s
                      | None \<Rightarrow> bindE (resolve None False) (\<lambda>(e, _). Inr (last (split_on CHR ''.'' (ei_id e))))) (\<lambda>base.
                 Inr (node (CacheAccess op (base @ '':{id}'')), []))
           | VerbNetwork \<Rightarrow>
               let target = (case obj of None \<Rightarrow> ''unspecified'' | Some s \<Rightarrow> s);
                   ds = (if \<not> looks_like_url target \<and> dget (we_caps we) target = None
                         then [\<lparr>dg_code = ''declared-not-bound'', dg_where = eid, dg_subject = verb @ '' '' @ target,
                                dg_line = Some n\<rparr>] else []) in
               bindE (network_node target rest n (we_registry we) (we_caps we)) (\<lambda>nn.
                 Inr (node (NetworkCall nn), ds))
           | VerbAuthorize \<Rightarrow>
               Inr (node (Authorization (Some (case obj of None \<Rightarrow> ''unspecified'' | Some s \<Rightarrow> s))), [])
           | VerbEmit \<Rightarrow> bindE (emit_effect obj rest n) (\<lambda>e. Inr (node e, []))
           | _ \<Rightarrow> effect_bad n NoDerivation))"

end
