(* ===== verification/StepPlans.thy ===== *)
theory StepPlans
  imports EffectSteps
begin

text \<open>
  The steps with a grammar of their own (\<open>set\<close>, \<open>format\<close>, \<open>respond\<close>, \<open>note\<close>, \<open>fail\<close>) and \<open>_WfContext\<close> of
  \<open>impl/lnpl/lower.py\<close>, which numbers and emits the nodes of one workflow body. The body is the parser's:
  blocks are read from its heap, a guard owns one item and at most one \<open>otherwise\<close> item.
\<close>

abbreviation step_bad :: "nat \<Rightarrow> step_error \<Rightarrow> lower_exc + 'a" where
  "step_bad n e \<equiv> Inl (AtLine n (StepFault e))"

definition line_words :: "line \<Rightarrow> string" where
  "line_words l = join_sp (tokens l)"

section \<open>set and format\<close>

text \<open>\<open>_check_literal_zero_divisor\<close>, with what the caller's sentence says as the error.\<close>

definition divides_by_literal_zero :: "val \<Rightarrow> bool" where
  "divides_by_literal_zero v = (case v of Arith _ OpDiv (Lit n _) \<Rightarrow> n = 0 | _ \<Rightarrow> False)"

definition rhs_zero_divisor :: "rhs \<Rightarrow> bool" where
  "rhs_zero_divisor r = (case r of RhsValue v \<Rightarrow> divides_by_literal_zero v | _ \<Rightarrow> False)"

definition entity_bound :: "entity_info list \<Rightarrow> string \<Rightarrow> entity_info option" where
  "entity_bound es binding = List.find (\<lambda>e. binding_name (ei_name e) = binding) es"

text \<open>The target of an assignment, judged the same way for \<open>set\<close> and \<open>format\<close>.\<close>

definition target_entity :: "entity_info list \<Rightarrow> string \<Rightarrow> nat \<Rightarrow> lower_exc + entity_info" where
  "target_entity es target n =
     (let (binding, _, field) = partition_at CHR ''.'' target in
      if field = [] then step_bad n (TargetBare target)
      else if binding = payload_namespace then step_bad n TargetInput
      else if binding = caller_namespace then step_bad n TargetCaller
      else case entity_bound es binding of
        None \<Rightarrow> step_bad n (TargetEntity binding)
      | Some e \<Rightarrow> if field \<in> fd_name ` set (ei_fields e) then Inr e else step_bad n (TargetField field))"

definition assignment_node :: "string \<Rightarrow> string \<Rightarrow> rhs \<Rightarrow> entity_info \<Rightarrow> nat \<Rightarrow> lnode" where
  "assignment_node step_id target r e n =
     mk_node (effect_id step_id VerbAssignment) (Effect (Assignment target (rhs_to_string r) None)) n
       [(''entity'', PStr (ei_id e))]"

text \<open>The \<open>format\<close> hint of a \<open>set\<close> that did not parse: its target is a Text field.\<close>

definition set_text_hint :: "entity_info list \<Rightarrow> base_map \<Rightarrow> string list \<Rightarrow> bool" where
  "set_text_hint es bases toks =
     (length toks > 2 \<and> toks ! 2 = ''to'' \<and>
      (let (binding, _, field) = partition_at CHR ''.'' (toks ! 1) in
       case entity_bound es binding of
         None \<Rightarrow> False
       | Some e \<Rightarrow> list_ex (\<lambda>f. fd_name f = field \<and> base_for bases (fd_type f) = ''Text'') (ei_fields e)))"

definition derive_assignment ::
  "entity_info list \<Rightarrow> base_map \<Rightarrow> string option \<Rightarrow> string \<Rightarrow> line \<Rightarrow> lower_exc + lnode" where
  "derive_assignment es bases namespace step_id l =
     (let n = lineno l in
      bindE (on_cond_error
               (\<lambda>err. step_bad n (if set_text_hint es bases (tokens l) then SetText (tokens l ! 1) else BadStatement err))
               (parse_assignment (Some (line_words l)))) (\<lambda>(target, r).
      if rhs_zero_divisor r then step_bad n ZeroDivisor
      else bindE (target_entity es target n) (\<lambda>e.
        bindE (check_internal_visibility e namespace n) (\<lambda>_. Inr (assignment_node step_id target r e n)))))"

definition derive_format :: "entity_info list \<Rightarrow> string \<Rightarrow> line \<Rightarrow> lower_exc + lnode" where
  "derive_format es step_id l =
     (let n = lineno l in
      bindE (on_cond_error (\<lambda>err. step_bad n (BadStatement err)) (parse_format (Some (line_words l)))) (\<lambda>(target, r).
      bindE (target_entity es target n) (\<lambda>e. Inr (assignment_node step_id target r e n))))"

section \<open>respond\<close>

definition respond_term ::
  "entity_info list \<Rightarrow> nat \<Rightarrow> agg_term list \<Rightarrow> string \<Rightarrow> string \<Rightarrow> string \<Rightarrow> lower_exc + agg_term" where
  "respond_term es n terms name func ref =
     (if \<not> is_word name then step_bad n (TermName name)
      else if func \<notin> set agg_funcs then step_bad n (TermFunc func)
      else if list_ex (\<lambda>t. at_name t = name) terms then step_bad n (TermTwice name)
      else if list_ex (\<lambda>e. name = binding_name (ei_name e)) es then step_bad n (TermCollides name)
      else Inr \<lparr>at_name = name, at_func = func, at_ref = ref, at_field_type = None\<rparr>)"

text \<open>The scan of the words: bare references and \<open><name> as <func> <ref>\<close> terms.\<close>

fun respond_words ::
  "entity_info list \<Rightarrow> nat \<Rightarrow> string list \<Rightarrow> string list \<Rightarrow> agg_term list \<Rightarrow> lower_exc + string list \<times> agg_term list" where
  "respond_words es n [] refs terms = Inr (refs, terms)"
| "respond_words es n [t] refs terms =
     (if t = ''list'' then step_bad n RespondListAlone else Inr (refs @ [t], terms))"
| "respond_words es n (t # u # ts) refs terms =
     (if u = ''as'' then
        (case ts of
           func # ref # rest \<Rightarrow>
             bindE (respond_term es n terms t func ref) (\<lambda>term. respond_words es n rest refs (terms @ [term]))
         | _ \<Rightarrow> step_bad n TermShape)
      else if t = ''list'' then step_bad n RespondListAlone
      else respond_words es n (u # ts) (refs @ [t]) terms)"

definition check_respond_ref :: "entity_info list \<Rightarrow> string option \<Rightarrow> nat \<Rightarrow> string \<Rightarrow> lower_exc + unit" where
  "check_respond_ref es namespace n ref =
     (let (binding, _, field) = partition_at CHR ''.'' ref in
      if field = [] then step_bad n (RespondBare ref)
      else case entity_bound es binding of
        None \<Rightarrow> step_bad n (RespondEntity binding)
      | Some e \<Rightarrow>
          if field \<notin> fd_name ` set (ei_fields e) then step_bad n (RespondField field)
          else bindE (check_internal_visibility e namespace n) (\<lambda>_. Inr ()))"

definition respond_node :: "string \<Rightarrow> nat \<Rightarrow> string list \<Rightarrow> agg_term list \<Rightarrow> string option \<Rightarrow> lnode" where
  "respond_node step_id n refs terms lst =
     mk_node (effect_id step_id VerbRespond) (Effect (Response \<lparr>rn_refs = refs, rn_terms = terms, rn_list = lst\<rparr>)) n []"

definition derive_respond :: "entity_info list \<Rightarrow> string option \<Rightarrow> string \<Rightarrow> line \<Rightarrow> lower_exc + lnode" where
  "derive_respond es namespace step_id l =
     (let n = lineno l; toks = tl (tokens l) in
      if toks = [] then step_bad n RespondEmpty
      else if toks ! 0 = ''list'' \<and> take 1 (drop 1 toks) \<noteq> [''as''] then
        (if length toks \<noteq> 2 then step_bad n RespondListAlone
         else Inr (respond_node step_id n [] [] (Some (toks ! 1))))
      else bindE (respond_words es n toks [] []) (\<lambda>(refs, terms).
        bindE (eachE (check_respond_ref es namespace n) refs) (\<lambda>_.
          Inr (respond_node step_id n refs terms None))))"

section \<open>note and fail\<close>

definition derive_note :: "string \<Rightarrow> line \<Rightarrow> lower_exc + lnode" where
  "derive_note step_id l =
     (let n = lineno l in
      bindE (on_cond_error (\<lambda>err. step_bad n (BadStatement err)) (parse_format_rhs (tokens l))) (\<lambda>r.
      case r of
        RhsFormat template args \<Rightarrow>
          bindE (on_cond_error (\<lambda>err. step_bad n (BadStatement err)) (check_placeholder_count template args)) (\<lambda>_.
            Inr (mk_node (effect_id step_id VerbNote) (Effect (Annotation template args)) n []))
      | _ \<Rightarrow> Inl (CondRaised (TypeErr ''template''))))"

definition derive_fail :: "string \<Rightarrow> line \<Rightarrow> lower_exc + lnode" where
  "derive_fail step_id l =
     (let n = lineno l; toks = tokens l in
      if length toks < 2 then step_bad n FailEmpty
      else if length toks > 2 then step_bad n FailTail
      else if \<not> is_kebab_code (toks ! 1) then step_bad n (FailShape (toks ! 1))
      else if toks ! 1 \<in> set reserved_problem_codes then step_bad n (FailReserved (toks ! 1))
      else Inr (mk_node (effect_id step_id VerbFail) (Effect (Rejection (toks ! 1))) n []))"

section \<open>The workflow context\<close>

record wf_ctx =
  wx_id :: string
  wx_emitted :: "lnode list"
  wx_step_n :: nat
  wx_guard_n :: nat
  wx_parallel_n :: nat
  wx_pipeline_n :: nat
  wx_lines :: "(string, nat) dict"
  wx_verbs :: "(string, string) dict"
  wx_diags :: "diag list"

definition new_ctx :: "string \<Rightarrow> wf_ctx" where
  "new_ctx wid = \<lparr>wx_id = wid, wx_emitted = [], wx_step_n = 0, wx_guard_n = 0, wx_parallel_n = 0,
     wx_pipeline_n = 0, wx_lines = [], wx_verbs = [], wx_diags = []\<rparr>"

text \<open>
  \<open>_registry_with_create_bindings\<close>: the registry's entities, then one entity per \<open>create ... as\<close> emitted
  so far, under its binding name (a repeated name keeps its first place with the last entity).
\<close>

definition create_binding :: "registry \<Rightarrow> lnode \<Rightarrow> (string \<times> entity_info) option" where
  "create_binding reg n =
     (case ln_node n of
        Effect (RepositoryCall c) \<Rightarrow>
          (case (rc_operation c = ''create'', rc_result c, dget reg (rc_entity c)) of
             (True, Some name, Some e) \<Rightarrow> Some (name, e)
           | _ \<Rightarrow> None)
      | _ \<Rightarrow> None)"

definition create_bindings :: "registry \<Rightarrow> lnode list \<Rightarrow> (string, entity_info) dict" where
  "create_bindings reg emitted =
     fold (\<lambda>n acc. case create_binding reg n of None \<Rightarrow> acc | Some (name, e) \<Rightarrow> dset name e acc) emitted []"

definition bound_entities :: "registry \<Rightarrow> lnode list \<Rightarrow> entity_info list" where
  "bound_entities reg emitted =
     entities_of reg @ map (\<lambda>(name, e). e\<lparr>ei_name := name\<rparr>) (create_bindings reg emitted)"

text \<open>The dispatch of \<open>_step\<close> on the verb.\<close>

definition derive_step :: "wf_env \<Rightarrow> lnode list \<Rightarrow> string \<Rightarrow> line \<Rightarrow> lower_exc + lnode option \<times> diag list" where
  "derive_step we emitted step_id l =
     (let verb = hd (tokens l); es = bound_entities (we_registry we) emitted;
          own = (\<lambda>m. bindE m (\<lambda>n. Inr (Some n, []))) in
      if verb = ''set'' then own (derive_assignment es (we_bases we) (we_namespace we) step_id l)
      else if verb = ''format'' then own (derive_format es step_id l)
      else if verb = ''respond'' then own (derive_respond es (we_namespace we) step_id l)
      else if verb = ''note'' then own (derive_note step_id l)
      else if verb = ''fail'' then own (derive_fail step_id l)
      else derive_effect we step_id verb (case tl (tokens l) of [] \<Rightarrow> None | ob # _ \<Rightarrow> Some ob) (lineno l) (drop 2 (tokens l)))"

definition plan_step :: "wf_env \<Rightarrow> line \<Rightarrow> wf_ctx \<Rightarrow> lower_exc + string \<times> wf_ctx" where
  "plan_step we l cx =
     (let k = Suc (wx_step_n cx); step_id = wx_id cx @ ''.step.'' @ show_nat k; verb = hd (tokens l) in
      bindE (derive_step we (wx_emitted cx) step_id l) (\<lambda>(derived, ds).
        let ds = (if derived = None then ds @ [diag_at ''unknown-verb'' (lineno l) verb] else ds);
            step = mk_node step_id (WorkflowStep (line_words l) (case derived of None \<Rightarrow> [] | Some n \<Rightarrow> [ln_id n])) (lineno l) [];
            verbs = (case derived of
                       Some n \<Rightarrow> (case ln_node n of Effect (NetworkCall _) \<Rightarrow> [(ln_id n, verb)] | _ \<Rightarrow> [])
                     | None \<Rightarrow> []) in
        Inr (step_id, cx\<lparr>wx_step_n := k, wx_lines := wx_lines cx @ [(step_id, lineno l)],
               wx_verbs := wx_verbs cx @ verbs,
               wx_emitted := wx_emitted cx @ [step] @ (case derived of None \<Rightarrow> [] | Some n \<Rightarrow> [n]),
               wx_diags := wx_diags cx @ ds\<rparr>)))"

fun plan_steps :: "wf_env \<Rightarrow> line list \<Rightarrow> wf_ctx \<Rightarrow> lower_exc + string list \<times> wf_ctx" where
  "plan_steps we [] cx = Inr ([], cx)"
| "plan_steps we (l # ls) cx =
     bindE (plan_step we l cx) (\<lambda>(i, cx). bindE (plan_steps we ls cx) (\<lambda>(is, cx). Inr (i # is, cx)))"

definition emit_node :: "lnode \<Rightarrow> wf_ctx \<Rightarrow> wf_ctx" where
  "emit_node n cx = cx\<lparr>wx_emitted := wx_emitted cx @ [n]\<rparr>"

definition plan_block :: "wf_env \<Rightarrow> block \<Rightarrow> wf_ctx \<Rightarrow> lower_exc + string \<times> wf_ctx" where
  "plan_block we b cx =
     (let par = (b_type b = ''parallel'');
          k = Suc (if par then wx_parallel_n cx else wx_pipeline_n cx);
          cx = (if par then cx\<lparr>wx_parallel_n := k\<rparr> else cx\<lparr>wx_pipeline_n := k\<rparr>);
          slug = b_type b @ ''.'' @ show_nat k; node_id = wx_id cx @ ''.'' @ slug in
      bindE (plan_steps we (b_steps b) cx) (\<lambda>(ids, cx).
        if ids = [] then step_bad (b_lineno b) (EmptyBlock (b_type b))
        else Inr (node_id, emit_node
               (if par then mk_node node_id (Concurrency ids) (b_lineno b) [(''mode'', PStr ''parallel'')]
                else mk_node node_id (Pipeline ids) (b_lineno b)
                       [(''name'', PStr (case b_name b of Some (c # cs) \<Rightarrow> c # cs | _ \<Rightarrow> slug))]) cx)))"

definition plan_body :: "wf_env \<Rightarrow> block list \<Rightarrow> body \<Rightarrow> wf_ctx \<Rightarrow> lower_exc + string \<times> wf_ctx" where
  "plan_body we blocks b cx =
     (case b of Step l \<Rightarrow> plan_step we l cx | BlockAt i \<Rightarrow> plan_block we (blocks ! i) cx)"

text \<open>The fields of a guard node; a \<open>repeat\<close> carries a count, the others a condition.\<close>

definition guard_fields :: "guard \<Rightarrow> string list \<Rightarrow> lower_exc + guard_node" where
  "guard_fields g children =
     (if g_mode g = ''repeat'' then
        bindE (int_token (g_arg g)) (\<lambda>k. Inr \<lparr>gn_mode = g_mode g, gn_children = children, gn_condition = None,
          gn_alternatives = g_alts g, gn_count = int k, gn_text_ops = []\<rparr>)
      else Inr \<lparr>gn_mode = g_mode g, gn_children = children, gn_condition = Some (g_arg g),
          gn_alternatives = g_alts g, gn_count = 0, gn_text_ops = []\<rparr>)"

definition plan_guard ::
  "wf_env \<Rightarrow> block list \<Rightarrow> guard \<Rightarrow> body \<Rightarrow> (body \<times> nat) option \<Rightarrow> wf_ctx \<Rightarrow> lower_exc + string \<times> wf_ctx" where
  "plan_guard we blocks g guarded otherwise cx =
     (let k = Suc (wx_guard_n cx); node_id = wx_id cx @ ''.guard.'' @ show_nat k in
      bindE (plan_body we blocks guarded (cx\<lparr>wx_guard_n := k\<rparr>)) (\<lambda>(i, cx).
      bindE (case otherwise of
               None \<Rightarrow> Inr ([i], cx)
             | Some (b, _) \<Rightarrow> bindE (plan_body we blocks b cx) (\<lambda>(j, cx). Inr ([i, j], cx))) (\<lambda>(children, cx).
      bindE (guard_fields g children) (\<lambda>gn.
        Inr (node_id, emit_node (mk_node node_id (Guard gn) (g_lineno g) []) cx)))))"

definition plan_item :: "wf_env \<Rightarrow> block list \<Rightarrow> item \<Rightarrow> wf_ctx \<Rightarrow> lower_exc + string \<times> wf_ctx" where
  "plan_item we blocks it cx =
     (case it of Item b \<Rightarrow> plan_body we blocks b cx
      | GuardItem g guarded otherwise \<Rightarrow> plan_guard we blocks g guarded otherwise cx)"

fun plan_items :: "wf_env \<Rightarrow> block list \<Rightarrow> item list \<Rightarrow> wf_ctx \<Rightarrow> lower_exc + string list \<times> wf_ctx" where
  "plan_items we blocks [] cx = Inr ([], cx)"
| "plan_items we blocks (it # its) cx =
     bindE (plan_item we blocks it cx) (\<lambda>(i, cx). bindE (plan_items we blocks its cx) (\<lambda>(is, cx). Inr (i # is, cx)))"

end
