(* ===== verification/Store.thy ===== *)
theory Store
  imports Nodes
begin

text \<open>
  The state a run works on: the row dictionaries by address, \<open>FakeRepository\<close>, \<open>FakeCache\<close> and
  the list predicate of \<open>impl/lnpl/repo_policy.py\<close>. A row is a Python object shared between the
  table that stores it, the binding a read creates, the cache entry of a \<open>cached\<close> read and a
  RowSet, and assignments write through it, so tables, bindings and caches hold addresses into
  \<open>objs\<close>. Values inside a row are never changed in place and are held by value.
\<close>

section \<open>Objects\<close>

text \<open>A row; \<open>ob_entity\<close> is the \<open>entity_id\<close> a \<open>_CreatedRow\<close> carries.\<close>

record obj =
  ob_row :: row
  ob_entity :: "string option"

type_synonym heap = "obj list"

definition plain :: "row \<Rightarrow> obj" where
  "plain r = \<lparr>ob_row = r, ob_entity = None\<rparr>"

definition row_at :: "heap \<Rightarrow> nat \<Rightarrow> row" where
  "row_at h a = ob_row (h ! a)"

text \<open>\<open>row[field] = value\<close> and \<open>row.pop(field, None)\<close> in place.\<close>

definition put_field :: "heap \<Rightarrow> nat \<Rightarrow> string \<Rightarrow> pyval \<Rightarrow> heap" where
  "put_field h a f v = h[a := (h ! a)\<lparr>ob_row := dset f v (row_at h a)\<rparr>]"

definition pop_field :: "heap \<Rightarrow> nat \<Rightarrow> string \<Rightarrow> heap" where
  "pop_field h a f = h[a := (h ! a)\<lparr>ob_row := ddel f (row_at h a)\<rparr>]"

section \<open>Keys\<close>

definition missing_id :: string where "missing_id = ''-''"

text \<open>\<open>"%s#%s" % (entity_id, payload.get("id", "-"))\<close>.\<close>

definition row_key :: "string \<Rightarrow> row \<Rightarrow> string" where
  "row_key entity_id payload =
     entity_id @ ''#'' @ (case dget payload ''id'' of None \<Rightarrow> missing_id | Some v \<Rightarrow> py_str v)"

section \<open>FakeRepository\<close>

type_synonym table = "(string, nat) dict"
type_synonym tables = "(string, table) dict"

record repo =
  rp_rows :: tables
  rp_calls :: "(string \<times> string) list"
  rp_snapshot :: "tables option"

definition empty_repo :: repo where
  "empty_repo = \<lparr>rp_rows = [], rp_calls = [], rp_snapshot = None\<rparr>"

definition table_of :: "repo \<Rightarrow> string \<Rightarrow> table" where
  "table_of r e = (case dget (rp_rows r) e of None \<Rightarrow> [] | Some t \<Rightarrow> t)"

text \<open>\<open>{key: dict(row) for ...}\<close>: fresh plain copies, in order.\<close>

fun copy_table :: "heap \<Rightarrow> table \<Rightarrow> heap \<times> table" where
  "copy_table h [] = (h, [])"
| "copy_table h ((k, a) # t) =
     (let (h1, t1) = copy_table (h @ [plain (row_at h a)]) t in (h1, (k, length h) # t1))"

fun copy_tables :: "heap \<Rightarrow> tables \<Rightarrow> heap \<times> tables" where
  "copy_tables h [] = (h, [])"
| "copy_tables h ((e, t) # ts) =
     (let (h1, t1) = copy_table h t; (h2, ts2) = copy_tables h1 ts in (h2, (e, t1) # ts2))"

text \<open>The constructor's rows and \<open>seed\<close>: \<open>setdefault\<close> at both levels, each row copied.\<close>

type_synonym seed = "(string, (string, row) dict) dict"

fun seed_table :: "heap \<Rightarrow> table \<Rightarrow> (string, row) dict \<Rightarrow> heap \<times> table" where
  "seed_table h t [] = (h, t)"
| "seed_table h t ((k, r) # rs) =
     (if dhas t k then seed_table h t rs
      else seed_table (h @ [plain r]) (t @ [(k, length h)]) rs)"

fun seed_tables :: "heap \<Rightarrow> tables \<Rightarrow> seed \<Rightarrow> heap \<times> tables" where
  "seed_tables h ts [] = (h, ts)"
| "seed_tables h ts ((e, rs) # es) =
     (let (h1, t1) = seed_table h (case dget ts e of None \<Rightarrow> [] | Some t \<Rightarrow> t) rs
      in seed_tables h1 (dset e t1 ts) es)"

definition repo_seed :: "heap \<Rightarrow> repo \<Rightarrow> seed \<Rightarrow> heap \<times> repo" where
  "repo_seed h r s = (let (h1, ts) = seed_tables h (rp_rows r) s in (h1, r\<lparr>rp_rows := ts\<rparr>))"

text \<open>
  \<open>execute\<close>. The answer is a dictionary by address, or \<open>None\<close>; the \<open>{"affected": n}\<close> answers are
  fresh dictionaries. The call is recorded and the table created before anything can fail.
\<close>

definition affected :: "nat \<Rightarrow> obj" where
  "affected n = plain [(''affected'', PInt (int n))]"

definition put_row :: "repo \<Rightarrow> string \<Rightarrow> string \<Rightarrow> nat \<Rightarrow> repo" where
  "put_row r e k a = r\<lparr>rp_rows := dset e (dset k a (table_of r e)) (rp_rows r)\<rparr>"

definition repo_execute ::
  "heap \<Rightarrow> repo \<Rightarrow> string \<Rightarrow> string \<Rightarrow> string \<Rightarrow> (run_exc + nat option) \<times> heap \<times> repo" where
  "repo_execute h r e operation key =
     (let r = r\<lparr>rp_calls := rp_calls r @ [(e, operation)], rp_rows := dsetdefault e [] (rp_rows r)\<rparr>;
          t = table_of r e; n = length h in
      if operation \<in> {''read'', ''query''} then (Inr (dget t key), h, r)
      else if operation = ''create'' then
        (if dhas t key then (Inl (RunError (CreateConflict e)), h, r)
         else (Inr (Some (Suc n)), h @ [plain [(''id'', PStr key)], affected 1], put_row r e key n))
      else if operation = ''update'' then
        (Inr (Some n), h @ [affected (if dhas t key then 1 else 0)], r)
      else if operation = ''delete'' then
        (Inr (Some n), h @ [affected (if dhas t key then 1 else 0)],
         r\<lparr>rp_rows := dset e (ddel key t) (rp_rows r)\<rparr>)
      else (Inr (Some n), h @ [affected 1], r))"

definition repo_persist :: "repo \<Rightarrow> string \<Rightarrow> string \<Rightarrow> nat \<Rightarrow> repo" where
  "repo_persist r e key a = put_row r e key a"

definition repo_begin :: "heap \<Rightarrow> repo \<Rightarrow> run_exc + heap \<times> repo" where
  "repo_begin h r =
     (case rp_snapshot r of
        Some _ \<Rightarrow> Inl (RunError BeginNested)
      | None \<Rightarrow> (let (h1, ts) = copy_tables h (rp_rows r) in Inr (h1, r\<lparr>rp_snapshot := Some ts\<rparr>)))"

definition repo_commit :: "repo \<Rightarrow> repo" where
  "repo_commit r = r\<lparr>rp_snapshot := None\<rparr>"

definition repo_rollback :: "repo \<Rightarrow> repo" where
  "repo_rollback r =
     (case rp_snapshot r of None \<Rightarrow> r | Some ts \<Rightarrow> r\<lparr>rp_rows := ts, rp_snapshot := None\<rparr>)"

section \<open>Ordering\<close>

text \<open>Python's \<open><\<close> on strings: by code point, a proper prefix first.\<close>

fun str_less :: "string \<Rightarrow> string \<Rightarrow> bool" where
  "str_less _ [] = False"
| "str_less [] (_ # _) = True"
| "str_less (c # cs) (d # ds) = (ord c < ord d \<or> c = d \<and> str_less cs ds)"

text \<open>A stable insertion sort by a strict order: the list \<open>sorted\<close> returns for a total preorder.\<close>

fun insert_by :: "('a \<Rightarrow> 'a \<Rightarrow> bool) \<Rightarrow> 'a \<Rightarrow> 'a list \<Rightarrow> 'a list" where
  "insert_by lt x [] = [x]"
| "insert_by lt x (y # ys) = (if lt y x then y # insert_by lt x ys else x # y # ys)"

definition sort_by :: "('a \<Rightarrow> 'a \<Rightarrow> bool) \<Rightarrow> 'a list \<Rightarrow> 'a list" where
  "sort_by lt xs = foldr (insert_by lt) xs []"

text \<open>\<open>[row for _key, row in sorted(table.items())]\<close>: keys of a dictionary are distinct, so rows never compare.\<close>

definition sorted_items :: "table \<Rightarrow> (string \<times> nat) list" where
  "sorted_items t = sort_by (\<lambda>p q. str_less (fst p) (fst q)) t"

text \<open>
  Python's \<open><\<close> on two values: \<open>None\<close> where it raises \<open>TypeError\<close>. Lists are compared by the first
  pair of elements that differ.
\<close>

fun py_less :: "pyval \<Rightarrow> pyval \<Rightarrow> bool option" where
  "py_less (PStr s) (PStr t) = Some (str_less s t)"
| "py_less (PList []) (PList ys) = Some (ys \<noteq> [])"
| "py_less (PList (x # xs)) (PList []) = Some False"
| "py_less (PList (x # xs)) (PList (y # ys)) =
     (if py_eq x y then py_less (PList xs) (PList ys) else py_less x y)"
| "py_less v w = (case (as_int v, as_int w) of (Some m, Some n) \<Rightarrow> Some (m < n) | _ \<Rightarrow> None)"

section \<open>The list predicate\<close>

text \<open>\<open>_PREDICATE_OPS\<close>.\<close>

definition predicate_op :: "cmp_op \<Rightarrow> pyval \<Rightarrow> pyval \<Rightarrow> run_exc + bool" where
  "predicate_op op a b =
     (let answer = (\<lambda>x. case x of None \<Rightarrow> Inl (Escaped PyTypeError) | Some v \<Rightarrow> Inr v);
          le = (\<lambda>x y. if py_eq x y \<and> (case (x, y) of (PDict _, _) \<Rightarrow> False | _ \<Rightarrow> True)
                      then Inr True else answer (py_less x y)) in
      case op of
        OpEq \<Rightarrow> Inr (py_eq a b)
      | OpNe \<Rightarrow> Inr (\<not> py_eq a b)
      | OpLt \<Rightarrow> answer (py_less a b)
      | OpGt \<Rightarrow> answer (py_less b a)
      | OpLe \<Rightarrow> le a b
      | OpGe \<Rightarrow> le b a)"

type_synonym predicate = "(string \<times> string \<times> pyval) list"

text \<open>\<open>_row_matches\<close>.\<close>

fun row_matches :: "row \<Rightarrow> predicate \<Rightarrow> run_exc + bool" where
  "row_matches row [] = Inr True"
| "row_matches row ((field, op, v) # ts) =
     (let actual = pget row field in
      if actual = PNone \<or> v = PNone then Inr False
      else (case cmp_of_token op of
              None \<Rightarrow> Inl (Escaped PyKeyError)
            | Some c \<Rightarrow> bindE (predicate_op c actual v) (\<lambda>b.
                if b then row_matches row ts else Inr False)))"

fun filterE :: "('a \<Rightarrow> 'e + bool) \<Rightarrow> 'a list \<Rightarrow> 'e + 'a list" where
  "filterE p [] = Inr []"
| "filterE p (x # xs) = bindE (p x) (\<lambda>b. bindE (filterE p xs) (\<lambda>ys. Inr (if b then x # ys else ys)))"

text \<open>
  \<open>sorted(rows, key=..., reverse=desc)\<close> where the keys may not compare: a sort decides the order of
  its elements only through comparisons, so keys of two incomparable kinds among them always raise.
  (Keys that are lists of unlike elements count as incomparable here even where the order of the
  comparisons would happen to avoid them.)
\<close>

definition comparable :: "(pyval \<Rightarrow> pyval \<Rightarrow> bool) \<Rightarrow> pyval list \<Rightarrow> bool" where
  "comparable ok ks = (length ks \<le> 1 \<or> list_all (\<lambda>a. list_all (ok a) ks) ks)"

definition value_less :: "(nat \<Rightarrow> row) \<Rightarrow> string \<Rightarrow> nat \<Rightarrow> nat \<Rightarrow> bool" where
  "value_less get field a b = (py_less (pget (get a) field) (pget (get b) field) = Some True)"

text \<open>Rows without the field, or with a null in it, come last in either direction.\<close>

definition order_rows ::
  "(pyval \<Rightarrow> pyval \<Rightarrow> bool) \<Rightarrow> (nat \<Rightarrow> row) \<Rightarrow> string \<Rightarrow> bool \<Rightarrow> nat list \<Rightarrow> run_exc + nat list" where
  "order_rows ok get field desc rows =
     (let present = filter (\<lambda>a. pget (get a) field \<noteq> PNone) rows;
          missing = filter (\<lambda>a. pget (get a) field = PNone) rows in
      if comparable ok (map (\<lambda>a. pget (get a) field) present)
      then Inr (sort_by (\<lambda>a b. if desc then value_less get field b a else value_less get field a b) present @ missing)
      else Inl (Escaped PyTypeError))"

definition less_defined :: "pyval \<Rightarrow> pyval \<Rightarrow> bool" where
  "less_defined a b = (py_less a b \<noteq> None)"

definition apply_predicate ::
  "(nat \<Rightarrow> row) \<Rightarrow> nat list \<Rightarrow> predicate option \<Rightarrow> (string \<times> bool) option \<Rightarrow> nat option \<Rightarrow> run_exc + nat list" where
  "apply_predicate get rows predicate order limit =
     bindE (case predicate of
              Some (t # ts) \<Rightarrow> filterE (\<lambda>a. row_matches (get a) (t # ts)) rows
            | _ \<Rightarrow> Inr rows) (\<lambda>rows.
     bindE (case order of
              None \<Rightarrow> Inr rows
            | Some (field, desc) \<Rightarrow> order_rows less_defined get field desc rows) (\<lambda>rows.
     Inr (case limit of None \<Rightarrow> rows | Some n \<Rightarrow> take n rows)))"

definition repo_query ::
  "heap \<Rightarrow> repo \<Rightarrow> string \<Rightarrow> predicate option \<Rightarrow> (string \<times> bool) option \<Rightarrow> nat option \<Rightarrow> run_exc + nat list" where
  "repo_query h r e predicate order limit =
     (let rows = map snd (sorted_items (table_of r e)) in
      if predicate = None \<and> order = None \<and> limit = None then Inr rows
      else apply_predicate (row_at h) rows predicate order limit)"

text \<open>
  \<open>query_sorted\<close>: by the pair of field value and key, rows without the field last. A tuple compares
  its first components only when they differ, so equal values never raise; the table is in key order
  already, which the stable sort keeps among equal values.
\<close>

definition repo_query_sorted :: "heap \<Rightarrow> repo \<Rightarrow> string \<Rightarrow> string \<Rightarrow> run_exc + nat list" where
  "repo_query_sorted h r e field =
     order_rows (\<lambda>a b. py_eq a b \<or> less_defined a b) (row_at h) field False (map snd (sorted_items (table_of r e)))"

section \<open>FakeCache\<close>

record cache =
  ch_store :: "(string, nat \<times> int) dict"
  ch_hits :: nat
  ch_misses :: nat

definition empty_cache :: cache where
  "empty_cache = \<lparr>ch_store = [], ch_hits = 0, ch_misses = 0\<rparr>"

definition cache_get :: "int \<Rightarrow> cache \<Rightarrow> string \<Rightarrow> nat option \<times> cache" where
  "cache_get now c key =
     (case dget (ch_store c) key of
        Some (a, expires) \<Rightarrow>
          if expires \<le> now then (None, c\<lparr>ch_misses := Suc (ch_misses c)\<rparr>)
          else (Some a, c\<lparr>ch_hits := Suc (ch_hits c)\<rparr>)
      | None \<Rightarrow> (None, c\<lparr>ch_misses := Suc (ch_misses c)\<rparr>))"

definition cache_set :: "int \<Rightarrow> cache \<Rightarrow> string \<Rightarrow> nat \<Rightarrow> int option \<Rightarrow> run_exc + cache" where
  "cache_set now c key a ttl =
     (case ttl of
        None \<Rightarrow> Inl (RunError CacheWithoutTtl)
      | Some ms \<Rightarrow> Inr (c\<lparr>ch_store := dset key (a, now + ms) (ch_store c)\<rparr>))"

definition cache_invalidate :: "cache \<Rightarrow> string \<Rightarrow> cache" where
  "cache_invalidate c key = c\<lparr>ch_store := ddel key (ch_store c)\<rparr>"

section \<open>Clock\<close>

text \<open>The virtual clock: \<open>advance(ms)\<close>, or by the step cost when no amount is given.\<close>

record clock =
  ck_now :: int
  ck_step_cost :: int

definition new_clock :: clock where
  "new_clock = \<lparr>ck_now = 0, ck_step_cost = 5\<rparr>"

definition clock_advance :: "clock \<Rightarrow> int option \<Rightarrow> clock" where
  "clock_advance c ms = c\<lparr>ck_now := ck_now c + (case ms of None \<Rightarrow> ck_step_cost c | Some n \<Rightarrow> n)\<rparr>"

end
