(* ===== verification/DocScope.thy ===== *)
theory DocScope
  imports StepPlans Store
begin

text \<open>
  \<open>_Scope\<close> of \<open>impl/lnpl/lower.py\<close> and the checks built on it: what the document says about a reference,
  the dimension of a value, and the judgement of one guard condition. The class collects what a
  workflow's emitted nodes bind; every method asks the same questions of it.
\<close>

section \<open>The scope\<close>

record doc_scope =
  ds_workflow :: string
  ds_registry :: registry
  ds_read :: "string list"
  ds_network :: "string list"
  ds_creates :: "(string, entity_info) dict"
  ds_bases :: base_map
  ds_enums :: "(string, pyval list) dict"

abbreviation scope_bad :: "doc_scope \<Rightarrow> scope_error \<Rightarrow> lower_exc + 'a" where
  "scope_bad sc e \<equiv> Inl (InWorkflow (ds_workflow sc) (ScopeFault e))"

text \<open>\<open>by_binding\<close> and \<open>declared_fields\<close>: dictionary comprehensions, so the last entry of a key wins.\<close>

definition entity_by_binding :: "registry \<Rightarrow> string \<Rightarrow> entity_info option" where
  "entity_by_binding reg b = map_of (rev (map (\<lambda>e. (binding_name (ei_name e), e)) (entities_of reg))) b"

definition declared_field :: "registry \<Rightarrow> string \<Rightarrow> field_decl option" where
  "declared_field reg name = fields_by_name (concat (map ei_fields (entities_of reg))) name"

text \<open>What the emitted nodes bind: entities read, network results, created rows.\<close>

definition read_entity :: "lnode \<Rightarrow> string list" where
  "read_entity n =
     (case ln_node n of Effect (RepositoryCall c) \<Rightarrow> (if rc_operation c = ''read'' then [rc_entity c] else []) | _ \<Rightarrow> [])"

definition network_result :: "lnode \<Rightarrow> string list" where
  "network_result n =
     (case ln_node n of Effect (NetworkCall nn) \<Rightarrow> (case nn_result nn of Some r \<Rightarrow> [r] | None \<Rightarrow> []) | _ \<Rightarrow> [])"

definition scope_for ::
  "string \<Rightarrow> registry \<Rightarrow> base_map \<Rightarrow> (string, pyval list) dict \<Rightarrow> lnode list \<Rightarrow> doc_scope" where
  "scope_for name reg bases enums emitted =
     \<lparr>ds_workflow = name, ds_registry = reg, ds_read = concat (map read_entity emitted),
      ds_network = concat (map network_result emitted), ds_creates = create_bindings reg emitted,
      ds_bases = bases, ds_enums = enums\<rparr>"

section \<open>References\<close>

text \<open>Where a reference sits; it decides the wording of the refusal and nothing else.\<close>

datatype subject = GuardSubject | OtherSubject

definition caller_fields :: "string list" where
  "caller_fields = [''subject'', ''role'']"

definition never_read :: "bool \<Rightarrow> subject \<Rightarrow> string \<Rightarrow> scope_error" where
  "never_read is_target sub eid =
     (if is_target then NeverReadTarget eid else if sub = GuardSubject then NeverReadGuard eid else NeverReadRef eid)"

definition resolve_field :: "doc_scope \<Rightarrow> subject \<Rightarrow> bool \<Rightarrow> string \<Rightarrow> lower_exc + field_decl option" where
  "resolve_field sc sub is_target name =
     (let (binding, dotted, field) = partition_at CHR ''.'' name in
      if \<not> dotted then Inr None
      else if binding = payload_namespace then
        (case declared_field (ds_registry sc) field of
           None \<Rightarrow> scope_bad sc (InputField field)
         | Some f \<Rightarrow> Inr (Some f))
      else if binding = caller_namespace then
        (if field \<in> set caller_fields then Inr None else scope_bad sc (CallerField field))
      else if binding \<in> set (ds_network sc) then Inr None
      else case dget (ds_creates sc) binding of
        Some e \<Rightarrow>
          (case fields_by_name (ei_fields e) field of
             None \<Rightarrow> scope_bad sc (NotAField field)
           | Some f \<Rightarrow> Inr (Some f))
      | None \<Rightarrow>
          (case entity_by_binding (ds_registry sc) binding of
             None \<Rightarrow> scope_bad sc (NotAnEntity binding)
           | Some e \<Rightarrow>
               (case fields_by_name (ei_fields e) field of
                  None \<Rightarrow> scope_bad sc (NotAField field)
                | Some f \<Rightarrow>
                    if ei_id e \<notin> set (ds_read sc) then scope_bad sc (never_read is_target sub (ei_id e))
                    else Inr (Some f))))"

section \<open>Dimensions\<close>

datatype dim = Instant | Scalar | MoneyDim | TextDim | PresenceAny

definition text_equality_excluded :: "string list" where
  "text_equality_excluded = [''DateTime'', ''Password'']"

definition field_base :: "doc_scope \<Rightarrow> field_decl \<Rightarrow> string" where
  "field_base sc f = base_for (ds_bases sc) (fd_type f)"

definition numeric_dimension :: "doc_scope \<Rightarrow> string \<Rightarrow> bool \<Rightarrow> string \<Rightarrow> lower_exc + dim" where
  "numeric_dimension sc base allow_money name =
     (if base = ''Integer'' then Inr Scalar
      else if base = ''DateTime'' then Inr Instant
      else if base = ''Money'' then Inr MoneyDim
      else if allow_money then scope_bad sc (NotAggregable name)
      else scope_bad sc (NotEvaluable name))"

definition dimension_of ::
  "doc_scope \<Rightarrow> field_decl \<Rightarrow> string \<Rightarrow> bool \<Rightarrow> bool \<Rightarrow> bool \<Rightarrow> lower_exc + dim" where
  "dimension_of sc f name allow_money presence equality =
     (let base = field_base sc f in
      if presence \<and> fd_optional f then Inr PresenceAny
      else if equality \<and> map_of base_category base = Some TextCat \<and> base = ''Password'' then scope_bad sc (PasswordGuard name)
      else if equality \<and> map_of base_category base = Some TextCat \<and> base \<notin> set text_equality_excluded then Inr TextDim
      else numeric_dimension sc base allow_money name)"

definition check_reference ::
  "doc_scope \<Rightarrow> subject \<Rightarrow> bool \<Rightarrow> bool \<Rightarrow> bool \<Rightarrow> bool \<Rightarrow> string \<Rightarrow> lower_exc + dim option" where
  "check_reference sc sub is_target allow_money presence equality name =
     bindE (resolve_field sc sub is_target name) (\<lambda>f.
     case f of
       None \<Rightarrow> Inr None
     | Some f \<Rightarrow> bindE (dimension_of sc f name allow_money presence equality) (\<lambda>d. Inr (Some d)))"

definition operand_dimension :: "doc_scope \<Rightarrow> subject \<Rightarrow> bool \<Rightarrow> operand \<Rightarrow> lower_exc + dim option" where
  "operand_dimension sc sub equality x =
     (case x of
        Lit _ _ \<Rightarrow> Inr (Some Scalar)
      | Ref name \<Rightarrow> check_reference sc sub False False False equality name)"

text \<open>The dimension of \<open>l op r\<close> from those of its operands.\<close>

definition arith_dimension :: "doc_scope \<Rightarrow> arith_op \<Rightarrow> dim \<Rightarrow> dim \<Rightarrow> lower_exc + dim" where
  "arith_dimension sc op l r =
     (if l = MoneyDim \<and> r = MoneyDim then
        (if op = OpAdd \<or> op = OpSub then Inr MoneyDim else scope_bad sc MoneyTimesMoney)
      else if l = MoneyDim \<or> r = MoneyDim then
        (if op = OpMul \<and> (if l = MoneyDim then r else l) = Scalar then Inr MoneyDim else scope_bad sc MoneyWithScalar)
      else if l = Instant \<and> r = Instant then
        (if op = OpSub then Inr Scalar else scope_bad sc TwoInstants)
      else if l = Instant \<or> r = Instant then Inr Instant
      else Inr Scalar)"

definition value_dimension :: "doc_scope \<Rightarrow> subject \<Rightarrow> bool \<Rightarrow> val \<Rightarrow> lower_exc + dim option" where
  "value_dimension sc sub equality v =
     (case v of
        Operand x \<Rightarrow> operand_dimension sc sub equality x
      | Arith l op r \<Rightarrow>
          bindE (operand_dimension sc sub False l) (\<lambda>ld.
          bindE (operand_dimension sc sub False r) (\<lambda>rd.
          case (ld, rd) of
            (Some a, Some b) \<Rightarrow> bindE (arith_dimension sc op a b) (\<lambda>d. Inr (Some d))
          | _ \<Rightarrow> Inr None)))"

section \<open>Conditions\<close>

definition comparisons :: "condition \<Rightarrow> (val \<times> cmp_op \<times> val) list" where
  "comparisons c = concat (map (\<lambda>t. case t of Comparison l op r \<Rightarrow> [(l, op, r)] | _ \<Rightarrow> []) (and_terms c))"

definition numeric_predicates :: "condition \<Rightarrow> string list" where
  "numeric_predicates c = concat (map (\<lambda>t. case t of NumericPredicate f _ \<Rightarrow> [f] | _ \<Rightarrow> []) (and_terms c))"

definition presences :: "condition \<Rightarrow> string list" where
  "presences c = (case c of Presence f _ \<Rightarrow> [f] | _ \<Rightarrow> [])"

definition is_presence :: "condition \<Rightarrow> bool" where
  "is_presence c = (case c of Presence _ _ \<Rightarrow> True | _ \<Rightarrow> False)"

definition direct_ref :: "val \<Rightarrow> string list" where
  "direct_ref v = (case v of Operand (Ref name) \<Rightarrow> [name] | _ \<Rightarrow> [])"

definition is_equality :: "cmp_op \<Rightarrow> bool" where
  "is_equality op = (op = OpEq \<or> op = OpNe)"

definition text_equality_operand_names :: "condition \<Rightarrow> string list" where
  "text_equality_operand_names c =
     concat (map (\<lambda>(l, op, r). if is_equality op then direct_ref l @ direct_ref r else []) (comparisons c))"

text \<open>\<open>_text_operand_type\<close> and \<open>_check_enum_literal\<close>.\<close>

definition text_operand_type :: "doc_scope \<Rightarrow> val \<Rightarrow> lower_exc + (string \<times> pyval list option) option" where
  "text_operand_type sc v =
     (case v of
        Operand (Ref name) \<Rightarrow>
          if ref_namespace name = None then Inr None
          else bindE (resolve_field sc GuardSubject False name) (\<lambda>f.
            Inr (map_option (\<lambda>f. (fd_type f, dget (ds_enums sc) (fd_type f))) f))
      | _ \<Rightarrow> Inr None)"

definition check_enum_literal :: "doc_scope \<Rightarrow> val \<Rightarrow> (string \<times> pyval list option) option \<Rightarrow> lower_exc + unit" where
  "check_enum_literal sc v other =
     (case (bare_ref v, other) of
        (Some name, Some (_, Some members)) \<Rightarrow>
          if PStr name \<in> set members then Inr () else scope_bad sc (NotAMember name)
      | _ \<Rightarrow> Inr ())"

definition is_arith :: "val \<Rightarrow> bool" where
  "is_arith v = (case v of Arith _ _ _ \<Rightarrow> True | _ \<Rightarrow> False)"

definition check_text_side :: "doc_scope \<Rightarrow> dim option \<Rightarrow> val \<Rightarrow> lower_exc + unit" where
  "check_text_side sc d v =
     (if is_arith v then scope_bad sc TextArithmetic
      else if d \<noteq> None \<and> d \<noteq> Some TextDim then scope_bad sc TextWithOther
      else Inr ())"

definition check_text_equality_term ::
  "doc_scope \<Rightarrow> val \<Rightarrow> val \<Rightarrow> dim option \<Rightarrow> dim option \<Rightarrow> lower_exc + string list" where
  "check_text_equality_term sc l r ld rd =
     bindE (check_text_side sc ld l) (\<lambda>_.
     bindE (check_text_side sc rd r) (\<lambda>_.
     bindE (text_operand_type sc l) (\<lambda>lt.
     bindE (text_operand_type sc r) (\<lambda>rt.
     bindE (case (lt, rt) of
              (Some (a, _), Some (b, _)) \<Rightarrow>
                if base_for (ds_bases sc) a = base_for (ds_bases sc) b then Inr () else scope_bad sc TextTypes
            | _ \<Rightarrow> Inr ()) (\<lambda>_.
     bindE (check_enum_literal sc l rt) (\<lambda>_.
     bindE (check_enum_literal sc r lt) (\<lambda>_.
       Inr (direct_ref l @ direct_ref r))))))))"

definition check_comparison :: "doc_scope \<Rightarrow> val \<times> cmp_op \<times> val \<Rightarrow> lower_exc + string list" where
  "check_comparison sc t =
     (let (l, op, r) = t in
      bindE (value_dimension sc GuardSubject (is_equality op) l) (\<lambda>ld.
      bindE (value_dimension sc GuardSubject (is_equality op) r) (\<lambda>rd.
        if ld = Some TextDim \<or> rd = Some TextDim then check_text_equality_term sc l r ld rd
        else if ld \<noteq> None \<and> rd \<noteq> None \<and> ld \<noteq> rd then scope_bad sc UnlikeSides
        else Inr [])))"

definition check_dimensions :: "doc_scope \<Rightarrow> condition \<Rightarrow> lower_exc + string list" where
  "check_dimensions sc c = bindE (mapE (check_comparison sc) (comparisons c)) (\<lambda>names. Inr (concat names))"

text \<open>An \<open>input\<close> presence check needs every entity that declares the field to agree it is optional.\<close>

definition check_input_presence :: "doc_scope \<Rightarrow> condition \<Rightarrow> lower_exc + unit" where
  "check_input_presence sc c =
     (case c of
        Presence name _ \<Rightarrow>
          (let (binding, _, field) = partition_at CHR ''.'' name;
               declaring = filter (\<lambda>e. field \<in> fd_name ` set (ei_fields e)) (entities_of (ds_registry sc)) in
           if binding \<noteq> payload_namespace \<or> length declaring < 2 then Inr ()
           else if list_all (\<lambda>e. list_ex (\<lambda>f. fd_name f = field \<and> fd_optional f) (ei_fields e)) declaring then Inr ()
           else scope_bad sc (AmbiguousPresence field))
      | _ \<Rightarrow> Inr ())"

definition is_literal :: "val \<Rightarrow> bool" where
  "is_literal v = (case v of Operand (Lit _ _) \<Rightarrow> True | _ \<Rightarrow> False)"

definition check_literals :: "doc_scope \<Rightarrow> val \<times> cmp_op \<times> val \<Rightarrow> lower_exc + unit" where
  "check_literals sc t =
     (let (l, _, r) = t in
      if is_literal l \<and> is_literal r then scope_bad sc TwoLiterals
      else if divides_by_literal_zero l \<or> divides_by_literal_zero r
      then Inl (InWorkflow (ds_workflow sc) (StepFault ZeroDivisor))
      else Inr ())"

definition refuse_money :: "doc_scope \<Rightarrow> (string \<Rightarrow> scope_error) \<Rightarrow> bool \<Rightarrow> string \<Rightarrow> lower_exc + unit" where
  "refuse_money sc err presence name =
     bindE (check_reference sc GuardSubject False False presence False name) (\<lambda>d.
       if d = Some MoneyDim then scope_bad sc (err name) else Inr ())"

definition check_parsed_condition :: "doc_scope \<Rightarrow> condition \<Rightarrow> lower_exc + string list" where
  "check_parsed_condition sc c =
     bindE (check_input_presence sc c) (\<lambda>_.
     bindE (eachE (\<lambda>name. bindE (check_reference sc GuardSubject False False (is_presence c)
              (name \<in> set (text_equality_operand_names c)) name) (\<lambda>_. Inr ())) (references c)) (\<lambda>_.
     bindE (eachE (check_literals sc) (comparisons c)) (\<lambda>_.
     bindE (check_dimensions sc c) (\<lambda>names.
     bindE (eachE (refuse_money sc MoneyNumericCheck False) (numeric_predicates c)) (\<lambda>_.
     bindE (eachE (refuse_money sc MoneyPresence True) (presences c)) (\<lambda>_.
       Inr names))))))"

text \<open>\<open>_check_one_condition\<close>: a text the parser refuses is left to the parser.\<close>

definition check_one_condition :: "doc_scope \<Rightarrow> string \<Rightarrow> lower_exc + string list" where
  "check_one_condition sc text =
     bindE (on_cond_error (\<lambda>_. Inr None) (parse_condition (Some text))) (\<lambda>c.
     case c of None \<Rightarrow> Inr [] | Some c \<Rightarrow> check_parsed_condition sc c)"

text \<open>\<open>_check_guard\<close>: the condition and each alternative; the node records the text operands of each.\<close>

definition check_guard :: "doc_scope \<Rightarrow> guard_node \<Rightarrow> lower_exc + guard_node" where
  "check_guard sc g =
     (case gn_condition g of
        None \<Rightarrow> Inr g
      | Some t \<Rightarrow>
          if t = [] then Inr g
          else bindE (mapE (check_one_condition sc) (t # gn_alternatives g)) (\<lambda>names.
            let per_text = map (\<lambda>ns. sort_by str_less (remdups ns)) names in
            Inr (if list_ex (\<lambda>ns. ns \<noteq> []) per_text then g\<lparr>gn_text_ops := per_text\<rparr> else g)))"

end
