(* ===== verification/ScopeChecks.thy ===== *)
theory ScopeChecks
  imports DocScope
begin

text \<open>
  \<open>_check_scoped_conditions\<close> of \<open>impl/lnpl/lower.py\<close> and the rules it applies to each effect, in the
  order the author wrote the steps. The walk follows the ids of the emitted nodes from the top of the
  body; it judges every reference, records the aggregated field type on assignments and response terms
  and the text operands on guards, and collects what earlier steps listed and assigned.
\<close>

abbreviation check_bad :: "doc_scope \<Rightarrow> check_error \<Rightarrow> lower_exc + 'a" where
  "check_bad sc e \<equiv> Inl (InWorkflow (ds_workflow sc) (CheckFault e))"

text \<open>A \<open>ConditionError\<close> nothing catches.\<close>

definition uncaught :: "cond_exc + 'a \<Rightarrow> lower_exc + 'a" where
  "uncaught m = (case m of Inr x \<Rightarrow> Inr x | Inl e \<Rightarrow> Inl (CondRaised e))"

section \<open>Who guards what\<close>

text \<open>\<open>_guard_owner_map\<close>: the guard a node is under and whether through its \<open>otherwise\<close>, in visiting order.\<close>

type_synonym owner = "guard_node option \<times> bool"

fun owner_walk :: "nat \<Rightarrow> lnode list \<Rightarrow> owner \<Rightarrow> string \<Rightarrow> lower_exc + (string \<times> owner) list" where
  "owner_walk 0 emitted ow nid = Inl DepthRaised"
| "owner_walk (Suc k) emitted ow nid =
     (case by_id emitted nid of
        None \<Rightarrow> Inr []
      | Some n \<Rightarrow>
          bindE (case ln_node n of
                   Guard g \<Rightarrow>
                     mapE (\<lambda>(i, c). owner_walk k emitted (Some g, i = 1) c) (enumerate 0 (take 2 (gn_children g)))
                 | m \<Rightarrow> mapE (owner_walk k emitted ow) (node_children m)) (\<lambda>subs.
            Inr ((nid, ow) # concat subs)))"

text \<open>A body nests at most a guard, a block, a step and its effect; one more level is spare.\<close>

definition body_depth :: nat where "body_depth = 5"

definition guard_owner_map :: "lnode list \<Rightarrow> string list \<Rightarrow> lower_exc + (string \<times> owner) list" where
  "guard_owner_map emitted top_ids =
     bindE (mapE (owner_walk body_depth emitted (None, False)) top_ids) (\<lambda>ws. Inr (concat ws))"

definition owner_of :: "(string \<times> owner) list \<Rightarrow> string \<Rightarrow> owner option" where
  "owner_of om nid = map_of (rev om) nid"

text \<open>\<open>_guard_key\<close>: \<open>None\<close> for a node no guard owns or the map does not have.\<close>

datatype guard_key = RepeatKey int | TextKey string "string option" bool

definition guard_key :: "owner option \<Rightarrow> guard_key option" where
  "guard_key o1 =
     (case o1 of
        Some (Some g, otherwise) \<Rightarrow>
          Some (if gn_mode g = ''repeat'' then RepeatKey (gn_count g)
                else TextKey (gn_mode g) (gn_condition g) otherwise)
      | _ \<Rightarrow> None)"

section \<open>Aggregates, format, respond\<close>

definition check_aggregate :: "doc_scope \<Rightarrow> agg_func \<Rightarrow> string \<Rightarrow> lower_exc + string \<times> string option" where
  "check_aggregate sc func ref =
     (let binding = (case ref_namespace ref of Some b \<Rightarrow> (if b = [] then ref else b) | None \<Rightarrow> ref) in
      case entity_by_binding (ds_registry sc) binding of
        None \<Rightarrow> check_bad sc (AggEntity binding)
      | Some e \<Rightarrow>
          if func = AggCount then
            (if ref_namespace ref \<noteq> None then check_bad sc CountOfField else Inr (ei_id e, None))
          else if ref_namespace ref = None then check_bad sc AggNeedsField
          else case fields_by_name (ei_fields e) (ref_field ref) of
            None \<Rightarrow> check_bad sc (AggField (ref_field ref))
          | Some f \<Rightarrow>
              (let base = field_base sc f in
               if base = ''Integer'' \<or> base = ''Money'' \<or> (base = ''DateTime'' \<and> func \<in> {AggMin, AggMax})
               then Inr (ei_id e, Some base) else check_bad sc (AggType base)))"

definition check_format_arg :: "doc_scope \<Rightarrow> string \<Rightarrow> lower_exc + unit" where
  "check_format_arg sc ref =
     bindE (resolve_field sc OtherSubject False ref) (\<lambda>f.
     case f of
       None \<Rightarrow> Inr ()
     | Some f \<Rightarrow> if field_base sc f = ''Password'' then check_bad sc (FormatPassword ref) else Inr ())"

definition check_format :: "doc_scope \<Rightarrow> string \<Rightarrow> string list \<Rightarrow> lower_exc + unit" where
  "check_format sc target args =
     bindE (resolve_field sc OtherSubject True target) (\<lambda>f.
     case f of
       None \<Rightarrow> check_bad sc FormatTargetBare
     | Some f \<Rightarrow>
         if field_base sc f \<noteq> ''Text'' then check_bad sc (FormatTargetType (field_base sc f))
         else eachE (check_format_arg sc) args)"

definition check_respond_field :: "doc_scope \<Rightarrow> string \<Rightarrow> lower_exc + unit" where
  "check_respond_field sc ref =
     bindE (resolve_field sc OtherSubject False ref) (\<lambda>f.
     case f of
       None \<Rightarrow> check_bad sc (RespondUntyped ref)
     | Some f \<Rightarrow> if field_base sc f = ''Password'' then check_bad sc (RespondPassword ref) else Inr ())"

section \<open>Outbound channels\<close>

text \<open>\<open>_password_family_declarations\<close>, as whether it finds any.\<close>

definition declares_password :: "doc_scope \<Rightarrow> entity_info \<Rightarrow> string \<Rightarrow> bool" where
  "declares_password sc e name = list_ex (\<lambda>f. fd_name f = name \<and> field_base sc f = ''Password'') (ei_fields e)"

definition password_family :: "doc_scope \<Rightarrow> string \<Rightarrow> bool" where
  "password_family sc ref =
     (let (binding, dotted, field) = partition_at CHR ''.'' ref in
      if \<not> dotted \<or> binding = payload_namespace then
        list_ex (\<lambda>e. declares_password sc e (if dotted then field else ref)) (entities_of (ds_registry sc))
      else if binding = caller_namespace \<or> binding \<in> set (ds_network sc) then False
      else case (case dget (ds_creates sc) binding of Some e \<Rightarrow> Some e | None \<Rightarrow> entity_by_binding (ds_registry sc) binding) of
        None \<Rightarrow> False
      | Some e \<Rightarrow> declares_password sc e field)"

definition refuse_password_ref :: "doc_scope \<Rightarrow> string \<Rightarrow> lower_exc + unit" where
  "refuse_password_ref sc ref = (if password_family sc ref then check_bad sc (OutboundPassword ref) else Inr ())"

text \<open>\<open>derived_assigned\<close>: which fields an earlier \<open>set\<close> or \<open>format\<close> filled, with the guard it stood under.\<close>

type_synonym assigned = "((string \<times> string) \<times> guard_key option) list"

definition check_map_entry :: "doc_scope \<Rightarrow> assigned \<Rightarrow> guard_key option \<Rightarrow> string \<times> string \<Rightarrow> lower_exc + unit" where
  "check_map_entry sc done key entry =
     (let (field_name, ref) = entry; (binding, dotted, _) = partition_at CHR ''.'' ref in
      if \<not> dotted then check_bad sc (MapBare ref)
      else bindE (resolve_field sc OtherSubject False ref) (\<lambda>f.
        case f of
          None \<Rightarrow> Inr ()
        | Some f \<Rightarrow>
            if fd_derived f then
              (if fd_fill f \<noteq> None \<or> ((binding, field_name), key) \<in> set done then Inr ()
               else check_bad sc (MapDerived field_name))
            else refuse_password_ref sc ref))"

definition check_payload_map :: "doc_scope \<Rightarrow> assigned \<Rightarrow> guard_key option \<Rightarrow> (string \<times> string) list \<Rightarrow> lower_exc + unit" where
  "check_payload_map sc done key entries = eachE (check_map_entry sc done key) entries"

text \<open>\<open>_check_lookup\<close>.\<close>

definition check_lookup :: "doc_scope \<Rightarrow> string \<Rightarrow> lower_exc + unit" where
  "check_lookup sc ref =
     bindE (resolve_field sc OtherSubject False ref) (\<lambda>f.
     let (binding, dotted, _) = partition_at CHR ''.'' ref in
     case f of
       None \<Rightarrow> Inr ()
     | Some f \<Rightarrow>
         if \<not> dotted \<or> binding = payload_namespace \<or> binding = caller_namespace then Inr ()
         else if fd_derived f then check_bad sc (LookupDerived ref)
         else if field_base sc f = ''Password'' then check_bad sc (LookupPassword ref)
         else Inr ())"

section \<open>List predicates\<close>

definition check_predicate_term :: "doc_scope \<Rightarrow> entity_info \<Rightarrow> pred_term \<Rightarrow> lower_exc + unit" where
  "check_predicate_term sc e t =
     (case fields_by_name (ei_fields e) (pt_field t) of
        None \<Rightarrow> Inl (KeyRaised (pt_field t))
      | Some f \<Rightarrow>
          let base = field_base sc f in
          bindE (uncaught (parse_value (Some (pt_value t)))) (\<lambda>v.
          if base \<in> set expose_sort_bases then
            bindE (value_dimension sc GuardSubject False v) (\<lambda>d.
              if d \<noteq> None \<and> d \<noteq> Some (if base = ''DateTime'' then Instant else Scalar) then check_bad sc ListSides else Inr ())
          else case v of
            Operand (Ref name) \<Rightarrow>
              bindE (resolve_field sc OtherSubject False name) (\<lambda>g.
              case g of
                None \<Rightarrow> Inr ()
              | Some g \<Rightarrow> if field_base sc g = base then Inr () else check_bad sc ListTypes)
          | _ \<Rightarrow> Inl (CondRaised (TypeErr ''name''))))"

definition check_list_predicate :: "doc_scope \<Rightarrow> repo_call \<Rightarrow> lower_exc + unit" where
  "check_list_predicate sc c =
     (case dget (ds_registry sc) (rc_entity c) of
        None \<Rightarrow> Inl (KeyRaised (rc_entity c))
      | Some e \<Rightarrow> eachE (check_predicate_term sc e) (rc_predicate c))"

section \<open>The walk\<close>

record walk =
  wk_listed :: "string list"
  wk_limits :: "(string \<times> nat option) list"
  wk_assigned :: assigned
  wk_changed :: "(string, lnode) dict"
  wk_diags :: "diag list"

definition orphaned :: "doc_scope \<Rightarrow> string \<Rightarrow> nat option \<Rightarrow> walk \<Rightarrow> walk" where
  "orphaned sc text line w = w\<lparr>wk_diags := wk_diags w @
     [\<lparr>dg_code = ''aggregation-orphaned-list'', dg_where = where_of line (ds_workflow sc), dg_subject = text, dg_line = line\<rparr>]\<rparr>"

definition change_node :: "lnode \<Rightarrow> walk \<Rightarrow> walk" where
  "change_node n w = w\<lparr>wk_changed := dset (ln_id n) n (wk_changed w)\<rparr>"

definition walk_repository :: "doc_scope \<Rightarrow> bool \<Rightarrow> repo_call \<Rightarrow> walk \<Rightarrow> lower_exc + walk" where
  "walk_repository sc guarded c w =
     bindE (case rc_lookup c of None \<Rightarrow> Inr () | Some ref \<Rightarrow> check_lookup sc ref) (\<lambda>_.
     if rc_operation c \<noteq> ''query'' then Inr w
     else case dget (ds_registry sc) (rc_entity c) of
       None \<Rightarrow> Inl (KeyRaised (rc_entity c))
     | Some e \<Rightarrow>
         bindE (check_list_predicate sc c) (\<lambda>_.
           Inr (w\<lparr>wk_listed := (if guarded then wk_listed w else rc_entity c # wk_listed w),
                  wk_limits := wk_limits w @ [(binding_name (ei_name e), rc_limit c)]\<rparr>)))"

definition agg_text_of :: "agg_term \<Rightarrow> string" where
  "agg_text_of t = ''respond '' @ at_name t @ '' as '' @ at_func t @ '' '' @ at_ref t"

text \<open>\<open>_check_respond_terms\<close>: the aggregate terms one by one, then the list term.\<close>

definition walk_agg_term ::
  "doc_scope \<Rightarrow> nat option \<Rightarrow> agg_term \<Rightarrow> agg_term list \<times> walk \<Rightarrow> lower_exc + agg_term list \<times> walk" where
  "walk_agg_term sc line t acc =
     (let (built, w) = acc in
      bindE (uncaught (parse_value_or_aggregate (Some (at_func t @ '' '' @ at_ref t)))) (\<lambda>r.
      case r of
        RhsAggregate func ref \<Rightarrow>
          bindE (check_aggregate sc func ref) (\<lambda>(eid, base).
            Inr (built @ [if base = None then t else t\<lparr>at_field_type := base\<rparr>],
                 if eid \<in> set (wk_listed w) then w else orphaned sc (agg_text_of t) line w))
      | _ \<Rightarrow> Inl (CondRaised (TypeErr ''ref''))))"

definition walk_list_term :: "doc_scope \<Rightarrow> nat option \<Rightarrow> string \<Rightarrow> walk \<Rightarrow> lower_exc + walk" where
  "walk_list_term sc line binding w =
     (case entity_by_binding (ds_registry sc) binding of
        None \<Rightarrow> check_bad sc (ListEntity binding)
      | Some _ \<Rightarrow>
          let limits = map snd (filter (\<lambda>(b, _). b = binding) (wk_limits w)) in
          if limits = [] then Inr (orphaned sc (''respond list '' @ binding) line w)
          else if None \<in> set limits then check_bad sc (UnboundedList binding)
          else Inr w)"

definition walk_response :: "doc_scope \<Rightarrow> lnode \<Rightarrow> response_node \<Rightarrow> walk \<Rightarrow> lower_exc + walk" where
  "walk_response sc n r w =
     bindE (eachE (check_respond_field sc) (rn_refs r)) (\<lambda>_.
     bindE (foldE (walk_agg_term sc (ln_line n)) (rn_terms r) ([], w)) (\<lambda>(terms, w).
     bindE (case rn_list r of None \<Rightarrow> Inr w | Some b \<Rightarrow> walk_list_term sc (ln_line n) b w) (\<lambda>w.
       Inr (change_node (n\<lparr>ln_node := Effect (Response (r\<lparr>rn_terms := terms\<rparr>))\<rparr>) w))))"

definition declared_names :: "registry \<Rightarrow> string list" where
  "declared_names reg = concat (map (\<lambda>e. map fd_name (ei_fields e)) (entities_of reg))"

text \<open>\<open>_check_bare_operands\<close>.\<close>

definition check_bare_operands :: "registry \<Rightarrow> val \<Rightarrow> nat \<Rightarrow> lower_exc + unit" where
  "check_bare_operands reg v n =
     eachE (\<lambda>name. if ref_namespace name \<noteq> None \<or> name \<in> set (declared_names reg) then Inr ()
                   else Inl (AtLine n (CheckFault (BareOperand name)))) (value_refs v)"

definition check_set_value :: "doc_scope \<Rightarrow> string \<Rightarrow> val \<Rightarrow> nat \<Rightarrow> lower_exc + unit" where
  "check_set_value sc target v n =
     bindE (resolve_field sc OtherSubject True target) (\<lambda>f.
     if (case f of None \<Rightarrow> False | Some f \<Rightarrow> field_base sc f = ''Text'')
     then Inl (InWorkflow (ds_workflow sc) (StepFault (SetText target)))
     else bindE (check_reference sc OtherSubject True False False False target) (\<lambda>td.
       bindE (eachE (\<lambda>name. bindE (check_reference sc OtherSubject False False False False name) (\<lambda>_. Inr ())) (value_refs v)) (\<lambda>_.
       bindE (value_dimension sc OtherSubject False v) (\<lambda>vd.
         if td \<noteq> None \<and> vd \<noteq> None \<and> td \<noteq> vd then check_bad sc AssignDimension
         else check_bare_operands (ds_registry sc) v n))))"

definition walk_assignment ::
  "doc_scope \<Rightarrow> guard_key option \<Rightarrow> lnode \<Rightarrow> string \<Rightarrow> string \<Rightarrow> walk \<Rightarrow> lower_exc + walk" where
  "walk_assignment sc key n target expression w =
     bindE (uncaught (parse_value_or_aggregate (Some expression))) (\<lambda>r.
     bindE (case r of
              RhsFormat _ args \<Rightarrow> bindE (check_format sc target args) (\<lambda>_. Inr w)
            | RhsAggregate func ref \<Rightarrow>
                bindE (check_reference sc OtherSubject True True False False target) (\<lambda>_.
                bindE (check_aggregate sc func ref) (\<lambda>(eid, base).
                let w = (if base = None then w
                         else change_node (n\<lparr>ln_node := Effect (Assignment target expression base)\<rparr>) w) in
                  Inr (if eid \<in> set (wk_listed w) then w
                       else orphaned sc (''set '' @ target @ '' to '' @ expression) (ln_line n) w)))
            | RhsValue v \<Rightarrow>
                bindE (check_set_value sc target v (case ln_line n of Some k \<Rightarrow> k | None \<Rightarrow> 0)) (\<lambda>_. Inr w)) (\<lambda>w.
     let (binding, _, field) = partition_at CHR ''.'' target in
       Inr (w\<lparr>wk_assigned := ((binding, field), key) # wk_assigned w\<rparr>)))"

definition walk_effect :: "doc_scope \<Rightarrow> (string \<times> owner) list \<Rightarrow> bool \<Rightarrow> lnode \<Rightarrow> walk \<Rightarrow> lower_exc + walk" where
  "walk_effect sc om guarded n w =
     (let key = guard_key (owner_of om (ln_id n)) in
      case ln_node n of
        Effect (RepositoryCall c) \<Rightarrow> walk_repository sc guarded c w
      | Effect (Response r) \<Rightarrow> walk_response sc n r w
      | Effect (EventEmit _ pm) \<Rightarrow> bindE (check_payload_map sc (wk_assigned w) key pm) (\<lambda>_. Inr w)
      | Effect (NetworkCall nn) \<Rightarrow>
          bindE (check_payload_map sc (wk_assigned w) key (nn_body_map nn)) (\<lambda>_.
          bindE (eachE (refuse_password_ref sc) (nn_path_args nn)) (\<lambda>_. Inr w))
      | Effect (Assignment target expression _) \<Rightarrow> walk_assignment sc key n target expression w
      | _ \<Rightarrow> Inr w)"

text \<open>\<open>visit\<close>, one id: a guard is judged and its children are guarded; a step's effects are judged in turn.\<close>

fun visit ::
  "nat \<Rightarrow> doc_scope \<Rightarrow> lnode list \<Rightarrow> (string \<times> owner) list \<Rightarrow> bool \<Rightarrow> string \<Rightarrow> walk \<Rightarrow> lower_exc + walk" where
  "visit 0 sc emitted om guarded nid w = Inl DepthRaised"
| "visit (Suc k) sc emitted om guarded nid w =
     (case by_id emitted nid of
        None \<Rightarrow> Inr w
      | Some n \<Rightarrow>
          (case ln_node n of
             Guard g \<Rightarrow>
               bindE (check_guard sc g) (\<lambda>g'.
                 foldE (visit k sc emitted om True) (gn_children g) (change_node (n\<lparr>ln_node := Guard g'\<rparr>) w))
           | WorkflowStep _ cs \<Rightarrow>
               foldE (\<lambda>c w. case by_id emitted c of None \<Rightarrow> Inr w | Some m \<Rightarrow> walk_effect sc om guarded m w) cs w
           | m \<Rightarrow> foldE (visit k sc emitted om guarded) (node_children m) w))"

definition is_response :: "lnode \<Rightarrow> bool" where
  "is_response n = (case ln_node n of Effect (Response _) \<Rightarrow> True | _ \<Rightarrow> False)"

definition is_list_response :: "lnode \<Rightarrow> bool" where
  "is_list_response n = (case ln_node n of Effect (Response r) \<Rightarrow> rn_list r \<noteq> None | _ \<Rightarrow> False)"

definition new_walk :: walk where
  "new_walk = \<lparr>wk_listed = [], wk_limits = [], wk_assigned = [], wk_changed = [], wk_diags = []\<rparr>"

definition check_scoped_conditions :: "doc_scope \<Rightarrow> lnode list \<Rightarrow> string list \<Rightarrow> lower_exc + walk" where
  "check_scoped_conditions sc emitted top_ids =
     bindE (guard_owner_map emitted top_ids) (\<lambda>om.
     if length (filter is_response emitted) > 1 \<and> list_ex is_list_response emitted then check_bad sc ListNotAlone
     else foldE (visit body_depth sc emitted om False) top_ids new_walk)"

text \<open>The emitted nodes with what the walk recorded on them.\<close>

definition apply_changes :: "(string, lnode) dict \<Rightarrow> lnode list \<Rightarrow> lnode list" where
  "apply_changes changed emitted = map (\<lambda>n. case dget changed (ln_id n) of None \<Rightarrow> n | Some m \<Rightarrow> m) emitted"

end
