(* ===== verification/BodyChecks.thy ===== *)
theory BodyChecks
  imports ScopeChecks
begin

text \<open>
  The other checks \<open>lower\<close> runs on one workflow body, in \<open>impl/lnpl/lower.py\<close>: the refusals (undeclared
  events, unguarded \<open>fail\<close>, parallel writers, writes of a cached row) and the reports (steps and bindings
  that escape their guard, unguarded arithmetic on an optional field, event sources, derived fields,
  network calls under \<open>policy rollback\<close>, too many notes).
\<close>

section \<open>Readers of emitted nodes\<close>

definition repo_calls :: "lnode list \<Rightarrow> (lnode \<times> repo_call) list" where
  "repo_calls emitted =
     concat (map (\<lambda>n. case ln_node n of Effect (RepositoryCall c) \<Rightarrow> [(n, c)] | _ \<Rightarrow> []) emitted)"

definition event_emits :: "lnode list \<Rightarrow> (lnode \<times> string option) list" where
  "event_emits emitted =
     concat (map (\<lambda>n. case ln_node n of Effect (EventEmit ev _) \<Rightarrow> [(n, ev)] | _ \<Rightarrow> []) emitted)"

definition children_of :: "lnode \<Rightarrow> string list" where
  "children_of n = node_children (ln_node n)"

abbreviation workflow_bad :: "string \<Rightarrow> check_error \<Rightarrow> lower_exc + 'a" where
  "workflow_bad name e \<equiv> Inl (InWorkflow name (CheckFault e))"

section \<open>Refusals\<close>

definition check_event_refs :: "lnode list \<Rightarrow> string list \<Rightarrow> string \<Rightarrow> lower_exc + unit" where
  "check_event_refs emitted declared name =
     eachE (\<lambda>(_, ev). case ev of
         Some e \<Rightarrow> if e \<in> set declared then Inr () else workflow_bad name (EventNotDeclared e)
       | None \<Rightarrow> workflow_bad name (EventNotDeclared [])) (event_emits emitted)"

definition rejection_code :: "lnode \<Rightarrow> string option" where
  "rejection_code n = (case ln_node n of Effect (Rejection c) \<Rightarrow> Some c | _ \<Rightarrow> None)"

text \<open>Only a \<open>when\<close> or an \<open>until\<close> can skip what it owns.\<close>

definition conditional_owner :: "owner option \<Rightarrow> bool" where
  "conditional_owner o1 = (case o1 of Some (Some g, _) \<Rightarrow> gn_mode g \<noteq> ''repeat'' | _ \<Rightarrow> False)"

definition check_fail_is_guarded :: "lnode list \<Rightarrow> string list \<Rightarrow> string \<Rightarrow> lower_exc + unit" where
  "check_fail_is_guarded emitted top_ids name =
     bindE (guard_owner_map emitted top_ids) (\<lambda>om.
       eachE (\<lambda>n. case rejection_code n of
           None \<Rightarrow> Inr ()
         | Some c \<Rightarrow> if conditional_owner (owner_of om (ln_id n)) then Inr () else workflow_bad name (UnguardedFail c)) emitted)"

definition write_ops :: "string list" where
  "write_ops = [''create'', ''update'', ''delete'']"

text \<open>\<open>_written_entity\<close>: the first write among a step's effects.\<close>

definition written_entity :: "lnode list \<Rightarrow> lnode \<Rightarrow> string option" where
  "written_entity emitted step =
     (case concat (map (\<lambda>c. case by_id emitted c of
          None \<Rightarrow> []
        | Some m \<Rightarrow> (case ln_node m of
            Effect (RepositoryCall rc) \<Rightarrow> if rc_operation rc \<in> set write_ops then [rc_entity rc] else []
          | _ \<Rightarrow> [])) (children_of step)) of
        [] \<Rightarrow> None
      | e # _ \<Rightarrow> Some e)"

definition block_writers :: "lnode list \<Rightarrow> string list \<Rightarrow> string list" where
  "block_writers emitted ids =
     concat (map (\<lambda>i. case by_id emitted i of
         None \<Rightarrow> []
       | Some n \<Rightarrow> (case ln_node n of
           WorkflowStep _ _ \<Rightarrow> (case written_entity emitted n of None \<Rightarrow> [] | Some e \<Rightarrow> [e])
         | _ \<Rightarrow> [])) ids)"

fun first_repeated :: "'a list \<Rightarrow> 'a option" where
  "first_repeated [] = None"
| "first_repeated (x # xs) = (if x \<in> set xs then Some x else first_repeated xs)"

definition check_parallel_write_conflict :: "lnode list \<Rightarrow> string \<Rightarrow> lower_exc + unit" where
  "check_parallel_write_conflict emitted name =
     eachE (\<lambda>n. case ln_node n of
         Concurrency ids \<Rightarrow>
           (case first_repeated (block_writers emitted ids) of
              None \<Rightarrow> Inr ()
            | Some e \<Rightarrow> workflow_bad name (ParallelWrites e))
       | _ \<Rightarrow> Inr ()) emitted"

definition cached_entities :: "lnode list \<Rightarrow> string list" where
  "cached_entities emitted = map (\<lambda>(_, c). rc_entity c) (filter (\<lambda>(_, c). rc_cached c) (repo_calls emitted))"

definition writes_through :: "registry \<Rightarrow> lnode \<Rightarrow> string \<Rightarrow> lower_exc + bool" where
  "writes_through reg n eid =
     (case ln_node n of
        Effect (RepositoryCall c) \<Rightarrow> Inr (rc_operation c \<in> {''update'', ''delete''})
      | Effect (Assignment target _ _) \<Rightarrow>
          (case dget reg eid of
             None \<Rightarrow> Inl (KeyRaised eid)
           | Some e \<Rightarrow> Inr (fst (partition_at CHR ''.'' target) = binding_name (ei_name e)))
      | _ \<Rightarrow> Inr False)"

definition check_cached_read_not_written :: "lnode list \<Rightarrow> registry \<Rightarrow> string \<Rightarrow> lower_exc + unit" where
  "check_cached_read_not_written emitted reg name =
     (let cached = cached_entities emitted in
      eachE (\<lambda>n. case entity_key n of
          None \<Rightarrow> Inr ()
        | Some e \<Rightarrow>
            if e \<notin> set cached then Inr ()
            else bindE (writes_through reg n e) (\<lambda>w.
              if w then workflow_bad name (CachedThenWritten e) else Inr ())) emitted)"

section \<open>Steps that escape a guard\<close>

definition touched_entities :: "lnode list \<Rightarrow> lnode \<Rightarrow> string list" where
  "touched_entities emitted step =
     concat (map (\<lambda>c. case by_id emitted c of
         None \<Rightarrow> []
       | Some m \<Rightarrow> (case ln_node m of
           Effect (Validation target _) \<Rightarrow> if target = [] then [] else [target]
         | _ \<Rightarrow> (case entity_key m of Some (x # xs) \<Rightarrow> [x # xs] | _ \<Rightarrow> []))) (children_of step))"

fun steps_outside_guards :: "nat \<Rightarrow> lnode list \<Rightarrow> string \<Rightarrow> lower_exc + lnode list" where
  "steps_outside_guards 0 emitted nid = Inl DepthRaised"
| "steps_outside_guards (Suc k) emitted nid =
     (case by_id emitted nid of
        None \<Rightarrow> Inr []
      | Some n \<Rightarrow>
          (case ln_node n of
             Guard _ \<Rightarrow> Inr []
           | WorkflowStep _ _ \<Rightarrow> Inr [n]
           | m \<Rightarrow> bindE (mapE (steps_outside_guards k emitted) (node_children m)) (\<lambda>xs. Inr (concat xs))))"

text \<open>A condition a check re-reads: \<open>None\<close> when the text is missing, blank or refused by the parser.\<close>

definition reread_condition :: "string option \<Rightarrow> lower_exc + condition option" where
  "reread_condition text = on_cond_error (\<lambda>_. Inr None) (parse_condition text)"

definition protected_entities :: "registry \<Rightarrow> condition \<Rightarrow> string list" where
  "protected_entities reg c =
     concat (map (\<lambda>name. case entity_by_binding reg (fst (partition_at CHR ''.'' name)) of
         None \<Rightarrow> [] | Some e \<Rightarrow> [ei_id e]) (references c))"

definition step_name :: "lnode \<Rightarrow> string" where
  "step_name n = (case ln_node n of WorkflowStep nm _ \<Rightarrow> nm | _ \<Rightarrow> [])"

text \<open>The reports for one guard at the top of a body, given the ids after it.\<close>

definition orphan_reports ::
  "lnode list \<Rightarrow> (string, nat) dict \<Rightarrow> registry \<Rightarrow> string \<Rightarrow> guard_node \<Rightarrow> string list \<Rightarrow> lower_exc + diag list" where
  "orphan_reports emitted lines reg name g later =
     (case gn_condition g of
        None \<Rightarrow> Inr []
      | Some t \<Rightarrow>
          if t = [] then Inr []
          else bindE (reread_condition (Some t)) (\<lambda>c.
            case c of
              None \<Rightarrow> Inr []
            | Some c \<Rightarrow>
                let protected = protected_entities reg c in
                if protected = [] then Inr []
                else bindE (mapE (steps_outside_guards body_depth emitted) later) (\<lambda>stepss.
                  Inr (map (\<lambda>s. let line = dget lines (ln_id s) in
                       \<lparr>dg_code = ''guard-orphaned-steps'', dg_where = where_of line name, dg_subject = step_name s, dg_line = line\<rparr>)
                     (filter (\<lambda>s. list_ex (\<lambda>e. e \<in> set protected) (touched_entities emitted s)) (concat stepss))))))"

fun check_guard_scope ::
  "lnode list \<Rightarrow> (string, nat) dict \<Rightarrow> registry \<Rightarrow> string \<Rightarrow> string list \<Rightarrow> lower_exc + diag list" where
  "check_guard_scope emitted lines reg name [] = Inr []"
| "check_guard_scope emitted lines reg name (nid # later) =
     bindE (case by_id emitted nid of
              Some n \<Rightarrow> (case ln_node n of Guard g \<Rightarrow> orphan_reports emitted lines reg name g later | _ \<Rightarrow> Inr [])
            | None \<Rightarrow> Inr []) (\<lambda>ds.
     bindE (check_guard_scope emitted lines reg name later) (\<lambda>rest. Inr (ds @ rest)))"

section \<open>Bindings that escape a guard\<close>

text \<open>The result name of a creating effect, with the scope it is bound in.\<close>

definition result_name :: "lnode \<Rightarrow> string option" where
  "result_name n =
     (case ln_node n of
        Effect (RepositoryCall c) \<Rightarrow> rc_result c
      | Effect (NetworkCall nn) \<Rightarrow> nn_result nn
      | _ \<Rightarrow> None)"

definition result_scopes :: "(string \<times> owner) list \<Rightarrow> lnode list \<Rightarrow> (string \<times> guard_key option) list" where
  "result_scopes om emitted =
     concat (map (\<lambda>n. case result_name n of None \<Rightarrow> [] | Some r \<Rightarrow> [(r, guard_key (owner_of om (ln_id n)))]) emitted)"

text \<open>What a node reads by reference; \<open>None\<close> where the code passes on to the next node.\<close>

definition read_refs :: "lnode \<Rightarrow> lower_exc + string list option" where
  "read_refs n =
     (case ln_node n of
        Effect (Response r) \<Rightarrow>
          Inr (Some (rn_refs r @ map at_ref (rn_terms r) @ (case rn_list r of None \<Rightarrow> [] | Some b \<Rightarrow> [b])))
      | Effect (Assignment _ expression _) \<Rightarrow>
          on_cond_error (\<lambda>_. Inr None) (map_sum id (\<lambda>r. Some (rhs_refs r)) (parse_value_or_aggregate (Some expression)))
      | Effect (EventEmit _ pm) \<Rightarrow> Inr (Some (map snd pm))
      | Effect (NetworkCall nn) \<Rightarrow> Inr (Some (map snd (nn_body_map nn)))
      | _ \<Rightarrow> Inr None)"

definition escape_reports ::
  "(string \<times> owner) list \<Rightarrow> (string \<times> guard_key option) list \<Rightarrow> string \<Rightarrow> lnode \<Rightarrow> lower_exc + diag list" where
  "escape_reports om scopes name n =
     bindE (read_refs n) (\<lambda>refs.
     let reader = guard_key (owner_of om (ln_id n));
         escapes = (\<lambda>b. b \<in> fst ` set scopes \<and> (b, None) \<notin> set scopes \<and> (b, reader) \<notin> set scopes) in
     Inr (map (\<lambda>b. \<lparr>dg_code = ''guard-scoped-binding-escape'', dg_where = where_of (ln_line n) name, dg_subject = b,
                   dg_line = ln_line n\<rparr>)
            (filter escapes (rev (remdups (rev (map (\<lambda>r. fst (partition_at CHR ''.'' r)) (case refs of None \<Rightarrow> [] | Some rs \<Rightarrow> rs))))))))"

definition check_guard_scoped_binding_reads :: "lnode list \<Rightarrow> string list \<Rightarrow> string \<Rightarrow> lower_exc + diag list" where
  "check_guard_scoped_binding_reads emitted top_ids name =
     bindE (guard_owner_map emitted top_ids) (\<lambda>om.
     let scopes = result_scopes om emitted in
     if list_all (\<lambda>(r, _). (r, None) \<in> set scopes) scopes then Inr []
     else bindE (mapE (escape_reports om scopes name) emitted) (\<lambda>dss. Inr (concat dss)))"

section \<open>Arithmetic on optional fields\<close>

definition qualified_arith_refs :: "val \<Rightarrow> string list" where
  "qualified_arith_refs v =
     (case v of Arith l _ r \<Rightarrow> filter (\<lambda>name. ref_namespace name \<noteq> None) (operand_refs l @ operand_refs r) | _ \<Rightarrow> [])"

definition optional_ref :: "registry \<Rightarrow> string \<Rightarrow> bool" where
  "optional_ref reg name =
     (case ref_namespace name of
        None \<Rightarrow> False
      | Some b \<Rightarrow>
          (case entity_by_binding reg b of
             None \<Rightarrow> False
           | Some e \<Rightarrow> (case fields_by_name (ei_fields e) (ref_field name) of None \<Rightarrow> False | Some f \<Rightarrow> fd_optional f)))"

definition presence_protects :: "owner option \<Rightarrow> string \<Rightarrow> lower_exc + bool" where
  "presence_protects o1 name =
     (case o1 of
        Some (Some g, False) \<Rightarrow>
          if gn_mode g \<noteq> ''when'' \<or> gn_alternatives g \<noteq> [] then Inr False
          else bindE (reread_condition (gn_condition g)) (\<lambda>c. Inr (c = Some (Presence name Exists)))
      | _ \<Rightarrow> Inr False)"

definition guard_texts :: "guard_node \<Rightarrow> string list" where
  "guard_texts g = filter (\<lambda>t. t \<noteq> []) ((case gn_condition g of None \<Rightarrow> [] | Some t \<Rightarrow> [t]) @ gn_alternatives g)"

definition condition_arith_refs :: "condition \<Rightarrow> string list" where
  "condition_arith_refs c = concat (map (\<lambda>(l, _, r). qualified_arith_refs l @ qualified_arith_refs r) (comparisons c))"

definition arithmetic_refs :: "lnode \<Rightarrow> lower_exc + string list" where
  "arithmetic_refs n =
     (case ln_node n of
        Effect (Assignment _ expression _) \<Rightarrow>
          on_cond_error (\<lambda>_. Inr []) (map_sum id (\<lambda>r. case r of RhsValue v \<Rightarrow> qualified_arith_refs v | _ \<Rightarrow> [])
            (parse_value_or_aggregate (Some expression)))
      | Guard g \<Rightarrow>
          bindE (mapE (\<lambda>t. reread_condition (Some t)) (guard_texts g)) (\<lambda>cs.
            Inr (concat (map (\<lambda>c. case c of None \<Rightarrow> [] | Some c \<Rightarrow> condition_arith_refs c) cs)))
      | _ \<Rightarrow> Inr [])"

definition check_optional_unguarded_arithmetic :: "lnode list \<Rightarrow> string list \<Rightarrow> registry \<Rightarrow> string \<Rightarrow> lower_exc + diag list" where
  "check_optional_unguarded_arithmetic emitted top_ids reg name =
     bindE (guard_owner_map emitted top_ids) (\<lambda>om.
     bindE (mapE (\<lambda>n.
       bindE (arithmetic_refs n) (\<lambda>refs.
       bindE (mapE (\<lambda>r. bindE (presence_protects (owner_of om (ln_id n)) r) (\<lambda>p. Inr (r, p)))
                (filter (optional_ref reg) (rev (remdups (rev refs))))) (\<lambda>rs.
         Inr (map (\<lambda>(r, _). \<lparr>dg_code = ''optional-field-unguarded-arithmetic'', dg_where = name, dg_subject = r, dg_line = ln_line n\<rparr>)
                (filter (\<lambda>(_, p). \<not> p) rs))))) emitted) (\<lambda>dss. Inr (concat dss)))"

section \<open>Event sources, derived fields, network calls, notes\<close>

definition event_source_report ::
  "lnode list \<Rightarrow> (string \<times> owner) list \<Rightarrow> (string, string \<times> string) dict \<Rightarrow> string \<Rightarrow> lnode \<times> string option \<Rightarrow> diag list" where
  "event_source_report emitted om sources name p =
     (let (n, ev) = p in
      case (case ev of None \<Rightarrow> None | Some e \<Rightarrow> map_option (\<lambda>s. (e, s)) (dget sources e)) of
        None \<Rightarrow> []
      | Some (e, entity, op) \<Rightarrow>
          let ops = filter (\<lambda>(_, c). rc_entity c = entity \<and> rc_operation c = op) (repo_calls emitted);
              report = (\<lambda>code. [\<lparr>dg_code = code, dg_where = where_of (ln_line n) name, dg_subject = e, dg_line = ln_line n\<rparr>]);
              key = guard_key (owner_of om (ln_id n)) in
          if ops = [] then report ''event-source-orphaned''
          else if list_ex (\<lambda>(m, _). guard_key (owner_of om (ln_id m)) = key) ops then []
          else report ''event-source-mismatch'')"

definition check_event_source_mismatch ::
  "lnode list \<Rightarrow> string list \<Rightarrow> (string, string \<times> string) dict \<Rightarrow> string \<Rightarrow> lower_exc + diag list" where
  "check_event_source_mismatch emitted top_ids sources name =
     bindE (guard_owner_map emitted top_ids) (\<lambda>om.
       Inr (concat (map (event_source_report emitted om sources name) (event_emits emitted))))"

text \<open>The assigned fields: the entity of an assignment and the last segment of its target.\<close>

definition assigned_fields :: "lnode list \<Rightarrow> (string option \<times> string) list" where
  "assigned_fields emitted =
     concat (map (\<lambda>n. case ln_node n of
         Effect (Assignment target _ _) \<Rightarrow> [(entity_key n, snd (rpartition_dot target))] | _ \<Rightarrow> []) emitted)"

definition check_derived_never_assigned :: "lnode list \<Rightarrow> registry \<Rightarrow> string \<Rightarrow> diag list" where
  "check_derived_never_assigned emitted reg name =
     concat (map (\<lambda>(n, c). case (if rc_operation c = ''create'' then dget reg (rc_entity c) else None) of
         None \<Rightarrow> []
       | Some e \<Rightarrow>
           map (\<lambda>f. \<lparr>dg_code = ''derived-never-assigned'', dg_where = where_of (ln_line n) name,
                     dg_subject = ei_id e @ ''.'' @ fd_name f, dg_line = ln_line n\<rparr>)
             (filter (\<lambda>f. fd_derived f \<and> fd_fill f = None \<and> (Some (ei_id e), fd_name f) \<notin> set (assigned_fields emitted))
                (ei_fields e))) (repo_calls emitted))"

definition note_cap :: nat where "note_cap = 16"

definition is_annotation :: "lnode \<Rightarrow> bool" where
  "is_annotation n = (case ln_node n of Effect (Annotation _ _) \<Rightarrow> True | _ \<Rightarrow> False)"

definition check_note_cap :: "lnode list \<Rightarrow> string \<Rightarrow> diag list" where
  "check_note_cap emitted name =
     (if length (filter is_annotation emitted) \<le> note_cap then []
      else [\<lparr>dg_code = ''note-cap-exceeded'', dg_where = name, dg_subject = name, dg_line = None\<rparr>])"

definition check_rollback_escapes_network ::
  "lnode list \<Rightarrow> string \<Rightarrow> bool \<Rightarrow> (string, string) dict \<Rightarrow> diag list" where
  "check_rollback_escapes_network emitted name has_rollback verbs =
     (if \<not> has_rollback then []
      else concat (map (\<lambda>n. case ln_node n of
          Effect (NetworkCall nn) \<Rightarrow>
            [\<lparr>dg_code = ''rollback-escapes-network'', dg_where = where_of (ln_line n) name,
              dg_subject = (case dget verbs (ln_id n) of Some v \<Rightarrow> v | None \<Rightarrow> ''call'') @ '' '' @ nn_target nn,
              dg_line = ln_line n\<rparr>]
        | _ \<Rightarrow> []) emitted))"

end
