(* ===== verification/ConsumeCycles.thy ===== *)
theory ConsumeCycles
  imports Lowered Store
begin

text \<open>
  \<open>_check_event_consume_cycles\<close> of \<open>impl/lnpl/lower.py\<close>: the graph of \<open>consume by\<close> and \<open>emit\<close> edges and the
  depth-first search that reports a path which returns to a node still open. The search keeps an
  explicit stack of frames, here with the neighbours a frame has still to visit in place of an index.
\<close>

section \<open>The graph\<close>

type_synonym graph = "(string, string list) dict"

text \<open>\<open>graph.setdefault(a, set()).add(b)\<close>; a neighbour list may repeat an element.\<close>

definition add_edge :: "string \<Rightarrow> string \<Rightarrow> graph \<Rightarrow> graph" where
  "add_edge a b g = dset a ((case dget g a of None \<Rightarrow> [] | Some bs \<Rightarrow> bs) @ [b]) g"

definition consume_graph :: "(string, string) dict \<Rightarrow> (string, string list) dict \<Rightarrow> graph" where
  "consume_graph consumes emits =
     fold (\<lambda>(wid, evs) g. fold (\<lambda>ev g. add_edge wid ev g) evs g) emits
       (fold (\<lambda>(eid, wid) g. add_edge eid wid g) consumes [])"

text \<open>\<open>sorted(graph.get(node, ()))\<close>.\<close>

definition neighbours :: "graph \<Rightarrow> string \<Rightarrow> string list" where
  "neighbours g n = sort_by str_less (remdups (case dget g n of None \<Rightarrow> [] | Some bs \<Rightarrow> bs))"

section \<open>Reports\<close>

text \<open>\<open>min\<close> of a non-empty list of strings.\<close>

fun least_string :: "string list \<Rightarrow> string" where
  "least_string [] = []"
| "least_string [x] = x"
| "least_string (x # y # xs) = (let m = least_string (y # xs) in if str_less m x then m else x)"

definition position :: "'a \<Rightarrow> 'a list \<Rightarrow> nat" where
  "position x xs = (case index_of x xs of None \<Rightarrow> 0 | Some i \<Rightarrow> i)"

text \<open>The open path from the closing node on, and its rotation to the smallest id, closed at the end.\<close>

definition open_cycle :: "string list \<Rightarrow> string \<Rightarrow> string list" where
  "open_cycle path closing = drop (position closing path) path"

definition rotated_cycle :: "string list \<Rightarrow> string list" where
  "rotated_cycle c = (let i = position (least_string c) c in drop i c @ take i c @ [c ! i])"

definition report_cycle :: "string list \<Rightarrow> string \<Rightarrow> string list list \<Rightarrow> string list list" where
  "report_cycle path closing reported =
     (let c = open_cycle path closing in
      if list_ex (\<lambda>r. set r = set c) reported then reported else reported @ [rotated_cycle c])"

definition cycle_diag :: "string list \<Rightarrow> diag" where
  "cycle_diag r = \<lparr>dg_code = ''event-consume-cycle'', dg_where = hd r,
     dg_subject = ''cycle '' @ join '' -> '' r, dg_line = None\<rparr>"

section \<open>The search\<close>

datatype color = White | Gray | Black

type_synonym colors = "(string, color) dict"

definition color_of :: "colors \<Rightarrow> string \<Rightarrow> color" where
  "color_of col n = (case dget col n of None \<Rightarrow> White | Some c \<Rightarrow> c)"

text \<open>A frame is a node and the neighbours it has still to visit; the innermost frame comes first.\<close>

type_synonym frame = "string \<times> string list"

definition white_nodes :: "graph \<Rightarrow> colors \<Rightarrow> string set" where
  "white_nodes g col = {n \<in> fst ` set g. color_of col n = White}"

lemma finite_white_nodes: "finite (white_nodes g col)"
  by (rule finite_subset[of _ "fst ` set g"]) (auto simp: white_nodes_def)

lemma color_of_dset [simp]: "color_of (dset n c col) m = (if m = n then c else color_of col m)"
  by (simp add: color_of_def dget_dset)

lemma white_nodes_paint:
  "color_of col m = White \<Longrightarrow> dhas g m \<Longrightarrow> c \<noteq> White \<Longrightarrow> white_nodes g (dset m c col) \<subset> white_nodes g col"
  by (auto simp: white_nodes_def dhas_iff)

lemma white_nodes_less:
  "c \<noteq> White \<Longrightarrow> card (white_nodes g (dset m c col)) \<le> card (white_nodes g col)"
  by (rule card_mono[OF finite_white_nodes]) (auto simp: white_nodes_def)

function search ::
  "graph \<Rightarrow> colors \<Rightarrow> string list \<Rightarrow> frame list \<Rightarrow> string list list \<Rightarrow> colors \<times> string list list" where
  "search g col path [] reported = (col, reported)"
| "search g col path ((n, []) # fs) reported = search g (dset n Black col) (butlast path) fs reported"
| "search g col path ((n, m # ms) # fs) reported =
     (if color_of col m = Gray then search g col path ((n, ms) # fs) (report_cycle path m reported)
      else if color_of col m = White \<and> dhas g m
      then search g (dset m Gray col) (path @ [m]) ((m, neighbours g m) # (n, ms) # fs) reported
      else search g col path ((n, ms) # fs) reported)"
  by pat_completeness auto

termination
proof (relation "measures [\<lambda>(g, col, _, fs, _). card (white_nodes g col),
                           \<lambda>(_, _, _, fs, _). sum_list (map (\<lambda>(_, ms). Suc (length ms)) fs)]", goal_cases)
  case (2 g col path n fs reported)
  then show ?case using white_nodes_less[of Black g n col] by auto
next
  case (4 g col path n m ms fs reported)
  then show ?case by (auto intro: psubset_card_mono[OF finite_white_nodes white_nodes_paint])
qed auto

definition search_root :: "graph \<Rightarrow> string \<Rightarrow> colors \<times> string list list \<Rightarrow> colors \<times> string list list" where
  "search_root g root acc =
     (let (col, reported) = acc in
      if color_of col root \<noteq> White then acc
      else search g (dset root Gray col) [root] [(root, neighbours g root)] reported)"

definition consume_cycles :: "graph \<Rightarrow> string list list" where
  "consume_cycles g = snd (fold (search_root g) (map fst g) ([], []))"

definition check_event_consume_cycles :: "(string, string) dict \<Rightarrow> (string, string list) dict \<Rightarrow> diag list" where
  "check_event_consume_cycles consumes emits = map cycle_diag (consume_cycles (consume_graph consumes emits))"

end
