(* ===== verification/Lowering.thy ===== *)
theory Lowering
  imports BodyChecks ConsumeCycles
begin

text \<open>
  \<open>lower\<close> of \<open>impl/lnpl/lower.py\<close>: declarations in, a module out. Services, entities, events, workflows,
  constraints and capabilities are emitted in that order, refinements first. A service or workflow is
  identified by its position in the declaration list, where the code uses \<open>id(d)\<close>. The merge of several
  sources into one declaration list, \<open>load_sources\<close>, is at the end.
\<close>

section \<open>Declarations by kind\<close>

text \<open>Each declaration with its position and the position of the nearest service before it.\<close>

fun place_decls :: "nat option \<Rightarrow> nat \<Rightarrow> sourced list \<Rightarrow> (nat \<times> sourced \<times> nat option) list" where
  "place_decls service i [] = []"
| "place_decls service i (d # ds) =
     (i, d, service) # place_decls (if d_kind d = ''service'' then Some i else service) (Suc i) ds"

definition of_kind :: "string \<Rightarrow> (nat \<times> sourced \<times> nat option) list \<Rightarrow> (nat \<times> sourced \<times> nat option) list" where
  "of_kind k placed = filter (\<lambda>(_, d, _). d_kind d = k) placed"

definition decls_of_kind :: "string \<Rightarrow> sourced list \<Rightarrow> sourced list" where
  "decls_of_kind k ds = filter (\<lambda>d. d_kind d = k) ds"

section \<open>Services\<close>

definition bare_node :: "string \<Rightarrow> node \<Rightarrow> lnode" where
  "bare_node nid n = \<lparr>ln_id = nid, ln_node = n, ln_line = None, ln_keys = []\<rparr>"

record lowered_service =
  ls_nodes :: "lnode list"
  ls_constraints :: "lnode list"
  ls_diags :: "diag list"
  ls_rollback :: bool
  ls_budget :: bool

text \<open>One of the three constraint clauses: its lines read by \<open>reader\<close>, or nothing when the clause is absent.\<close>

definition constraint_clause ::
  "sourced \<Rightarrow> string \<Rightarrow> (string list \<Rightarrow> nat \<Rightarrow> lower_exc + 'a) \<Rightarrow> lower_exc + ('a \<times> line) list option" where
  "constraint_clause d clause reader =
     (case dget (d_clauses d) clause of
        None \<Rightarrow> Inr None
      | Some ls \<Rightarrow> bindE (mapE (\<lambda>l. bindE (reader (tokens l) (lineno l)) (\<lambda>r. Inr (r, l))) ls) (\<lambda>rs. Inr (Some rs)))"

definition constraint_id :: "decl_kind \<Rightarrow> sourced \<Rightarrow> string" where
  "constraint_id k d = join ''.'' (kind_prefix k # derive_segments (d_name d) KService)"

definition clause_notes :: "string \<Rightarrow> ('a \<Rightarrow> string) \<Rightarrow> ('a \<times> line) list option \<Rightarrow> string \<Rightarrow> diag list" where
  "clause_notes clause name rs where_at =
     (case rs of None \<Rightarrow> []
      | Some rs \<Rightarrow> declaration_diagnostics clause (map (\<lambda>(r, l). (name r, lineno l)) rs) where_at)"

definition constraint_nodes_of :: "string \<Rightarrow> ('a list \<Rightarrow> node) \<Rightarrow> ('a \<times> line) list option \<Rightarrow> lnode list" where
  "constraint_nodes_of nid mk rs = (case rs of None \<Rightarrow> [] | Some rs \<Rightarrow> [bare_node nid (mk (map fst rs))])"

text \<open>\<open>m.split(" ", 1)[0]\<close>.\<close>

definition mechanism_head :: "string \<Rightarrow> string" where
  "mechanism_head m = takeWhile (\<lambda>c. c \<noteq> CHR '' '') m"

definition expose_nodes ::
  "string \<Rightarrow> registry \<Rightarrow> base_map \<Rightarrow> line list \<Rightarrow> lower_exc + lnode list" where
  "expose_nodes sid reg bases ls =
     mapE (\<lambda>(k, l). bindE (parse_expose_line (tokens l) (lineno l) reg bases) (\<lambda>(e, f).
       Inr (mk_node (sid @ ''.expose.'' @ show_nat k) (OtherNode ''Expose'') (lineno l) [(''entity'', PStr e), (''field'', PStr f)])))
       (enumerate 1 ls)"

definition goal_nodes :: "string \<Rightarrow> line list \<Rightarrow> lnode list" where
  "goal_nodes sid ls =
     map (\<lambda>(k, l). mk_node (sid @ ''.goal.'' @ show_nat k) (OtherNode ''BusinessRule'') (lineno l)
       [(''name'', PStr (line_words l)), (''statement'', PStr (line_words l))]) (enumerate 1 ls)"

definition database_capability :: "string list \<Rightarrow> line \<Rightarrow> string list \<Rightarrow> lower_exc + string list" where
  "database_capability caps l declared =
     (if length (tokens l) \<noteq> 1 then Inl (AtLine (lineno l) (ModuleFault DatabaseArity))
      else let name = hd (tokens l); cid = derive_id name KCapability None in
        if name \<notin> set caps then Inl (AtLine (lineno l) (ModuleFault (UnknownCapability name)))
        else Inr (if cid \<in> set declared then declared else declared @ [cid]))"

definition service_requires :: "sourced \<Rightarrow> nat \<Rightarrow> string list \<Rightarrow> lower_exc + string list" where
  "service_requires d services caps =
     bindE (foldE (database_capability caps) (clause_lines d ''database'') []) (\<lambda>declared.
       if declared \<noteq> [] then Inr declared
       else if services = 1 then Inr (map (\<lambda>c. derive_id c KCapability None) caps)
       else if caps \<noteq> [] then Inl (InModule (ModuleFault (NoDatabaseClause (d_name d))))
       else Inr [])"

definition lower_service ::
  "registry \<Rightarrow> base_map \<Rightarrow> string list \<Rightarrow> nat \<Rightarrow> string list \<Rightarrow> sourced \<Rightarrow> lower_exc + lowered_service" where
  "lower_service reg bases caps services workflow_ids d =
     (let sid = derive_id (d_name d) KService None; pid = constraint_id KPolicy d;
          secid = constraint_id KSecurity d; perfid = constraint_id KPerformance d in
      bindE (constraint_clause d ''policy'' parse_policy_line) (\<lambda>rules.
      bindE (constraint_clause d ''security'' parse_security_line) (\<lambda>mechs.
      bindE (case mechs of None \<Rightarrow> Inr () | Some ms \<Rightarrow> check_role_requires_jwt (map fst ms) (map snd ms)) (\<lambda>_.
      bindE (constraint_clause d ''performance'' parse_perf_line) (\<lambda>budgets.
      bindE (expose_nodes sid reg bases (clause_lines d ''expose'')) (\<lambda>exposes.
      bindE (service_requires d services caps) (\<lambda>requires.
      let goals = goal_nodes sid (clause_lines d ''goal'');
          cons = constraint_nodes_of pid Policy rules @ constraint_nodes_of secid Security mechs @
                 constraint_nodes_of perfid Performance budgets;
          children = map ln_id goals @ workflow_ids @ map ln_id exposes in
        Inr \<lparr>ls_nodes = mk_node sid (Service (d_name d) children (map ln_id cons)) (d_lineno d)
                 [(''requires'', if requires = [] then PNone else str_list requires)] # goals @ exposes,
             ls_constraints = cons,
             ls_diags = clause_notes ''policy'' fst rules pid @ clause_notes ''security'' mechanism_head mechs secid @
                        clause_notes ''performance'' fst budgets perfid,
             ls_rollback = (case rules of None \<Rightarrow> False | Some rs \<Rightarrow> list_ex (\<lambda>(r, _). fst r = ''rollback'') rs),
             ls_budget = (case budgets of None \<Rightarrow> False | Some bs \<Rightarrow> list_ex (\<lambda>(b, _). fst b = ''cache'') bs)\<rparr>)))))))"

section \<open>Capabilities\<close>

definition add_http_cap ::
  "sourced \<Rightarrow> (string, http_caps) dict \<times> diag list \<Rightarrow> lower_exc + (string, http_caps) dict \<times> diag list" where
  "add_http_cap d acc =
     (if d_capability_kind d \<noteq> Some ''http'' then Inr acc
      else bindE (parse_http_capability d) (\<lambda>(c, ds). Inr (dset (d_name d) c (fst acc), snd acc @ ds)))"

definition auth_value :: "http_auth \<Rightarrow> pyval" where
  "auth_value a =
     (case a of
        BearerAuth env \<Rightarrow> PDict [(''kind'', PStr ''bearer''), (''env'', PStr env)]
      | ApikeyAuth h env \<Rightarrow> PDict [(''kind'', PStr ''apikey''), (''header'', PStr h), (''env'', PStr env)])"

definition cap_keys :: "http_caps \<Rightarrow> (string, pyval) dict" where
  "cap_keys c =
     [(''method'', opt_str (hc_method c)),
      (''auth'', case hc_auth c of None \<Rightarrow> PNone | Some a \<Rightarrow> auth_value a),
      (''retry'', case hc_retry c of None \<Rightarrow> PNone
         | Some r \<Rightarrow> PDict [(''count'', PInt (int (hr_count r))), (''backoff_ms'', PInt (hr_backoff_ms r)), (''jitter'', PBool (hr_jitter r))]),
      (''path'', opt_str (hc_path c)),
      (''breaker'', case hc_breaker c of None \<Rightarrow> PNone
         | Some b \<Rightarrow> PDict [(''threshold'', PInt (int (hb_threshold b))), (''window_ms'', PInt (hb_window_ms b))])]"

definition capability_node :: "(string, http_caps) dict \<Rightarrow> sourced \<Rightarrow> lnode" where
  "capability_node caps d =
     mk_node (derive_id (d_name d) KCapability None) (OtherNode ''Capability'') (d_lineno d)
       ([(''name'', PStr (d_name d)), (''version'', opt_str (d_version d))] @
        (case dget caps (d_name d) of None \<Rightarrow> [] | Some c \<Rightarrow> cap_keys c))"

section \<open>Events\<close>

record event_state =
  es_module :: lmodule
  es_sources :: "(string, string \<times> string) dict"
  es_consumes :: "(string, string) dict"

definition entity_source :: "lmodule \<Rightarrow> nat \<Rightarrow> string \<times> string \<Rightarrow> lower_exc + string \<times> string" where
  "entity_source m n on =
     (let ref = derive_id (fst on) KEntity None in
      if module_get m ref = None then Inl (AtLine n (ModuleFault (EventSourceEntity (fst on)))) else Inr (ref, snd on))"

definition event_consume :: "string list \<Rightarrow> (string \<times> nat) option \<Rightarrow> lower_exc + string option" where
  "event_consume workflow_ids decl =
     (case decl of
        None \<Rightarrow> Inr None
      | Some (name, n) \<Rightarrow>
          (let wid = derive_id name KWorkflow None in
           if wid \<in> set workflow_ids then Inr (Some wid) else Inl (AtLine n (ModuleFault (ConsumeUnknown name)))))"

text \<open>The source of an event: an entity trigger, else a schedule, else none; with its diagnostics.\<close>

definition event_origin ::
  "lmodule \<Rightarrow> sourced \<Rightarrow> string \<Rightarrow> lower_exc + (string \<times> string) option \<times> pyval \<times> diag list" where
  "event_origin m d eid =
     (case d_on d of
        Some on \<Rightarrow>
          bindE (entity_source m (d_lineno d) on) (\<lambda>(ref, trigger).
            Inr (Some (ref, trigger), PDict [(''ref'', PStr ref), (''on'', PStr trigger)], []))
      | None \<Rightarrow>
          (case d_schedule d of
             Some spec \<Rightarrow>
               bindE (schedule_source spec (d_lineno d)) (\<lambda>src.
                 Inr (None, src, declaration_diagnostics ''event'' [(''schedule'', d_lineno d)] eid))
           | None \<Rightarrow> Inr (None, PNone, [])))"

definition lower_event :: "string list \<Rightarrow> sourced \<Rightarrow> event_state \<Rightarrow> lower_exc + event_state" where
  "lower_event workflow_ids d st =
     (let eid = derive_id (d_name d) KEvent None in
      bindE (event_origin (es_module st) d eid) (\<lambda>(trigger, source, ds).
      bindE (parse_event_body d) (\<lambda>(subscribe, decl).
      bindE (event_consume workflow_ids decl) (\<lambda>consume.
      bindE (module_add (mk_node eid (Event (d_name d)) (d_lineno d)
               [(''source'', source), (''subscribe'', if subscribe then PBool True else PNone), (''consume'', opt_str consume)])
               (add_diags ds (es_module st))) (\<lambda>m.
        Inr \<lparr>es_module = m,
             es_sources = (case trigger of None \<Rightarrow> es_sources st | Some s \<Rightarrow> dset eid s (es_sources st)),
             es_consumes = (case consume of None \<Rightarrow> es_consumes st | Some w \<Rightarrow> dset eid w (es_consumes st))\<rparr>)))))"

section \<open>Workflows\<close>

text \<open>What every workflow is lowered against.\<close>

record doc_env =
  de_registry :: registry
  de_bases :: base_map
  de_caps :: "(string, http_caps) dict"
  de_enums :: "(string, pyval list) dict"
  de_events :: "string list"
  de_sources :: "(string, string \<times> string) dict"
  de_rollback :: "nat list"
  de_budget :: "nat list"

definition wf_env_of :: "doc_env \<Rightarrow> sourced \<Rightarrow> nat option \<Rightarrow> wf_env" where
  "wf_env_of de d service =
     \<lparr>we_registry = de_registry de, we_bases = de_bases de, we_caps = de_caps de, we_namespace = sd_namespace d,
      we_budget = (case service of None \<Rightarrow> False | Some i \<Rightarrow> i \<in> set (de_budget de))\<rparr>"

definition plan_workflow :: "doc_env \<Rightarrow> sourced \<Rightarrow> nat option \<Rightarrow> lower_exc + string list \<times> wf_ctx" where
  "plan_workflow de d service =
     plan_items (wf_env_of de d service) (heap (d_body d)) (items (d_body d)) (new_ctx (derive_id (d_name d) KWorkflow None))"

definition emitted_events :: "lnode list \<Rightarrow> string list" where
  "emitted_events emitted = concat (map (\<lambda>(_, ev). case ev of None \<Rightarrow> [] | Some e \<Rightarrow> [e]) (event_emits emitted))"

text \<open>The checks on a planned body, in order; the walk's changes and every diagnostic come back.\<close>

definition check_workflow ::
  "doc_env \<Rightarrow> string \<Rightarrow> nat option \<Rightarrow> string list \<Rightarrow> wf_ctx \<Rightarrow> lower_exc + (string, lnode) dict \<times> diag list" where
  "check_workflow de name service top_ids cx =
     (let reg = de_registry de; emitted = wx_emitted cx in
      bindE (check_scoped_conditions (scope_for name reg (de_bases de) (de_enums de) emitted) emitted top_ids) (\<lambda>w.
      let emitted = apply_changes (wk_changed w) emitted in
      bindE (check_event_refs emitted (de_events de) name) (\<lambda>_.
      bindE (check_guard_scope emitted (wx_lines cx) reg name top_ids) (\<lambda>orphans.
      bindE (check_fail_is_guarded emitted top_ids name) (\<lambda>_.
      bindE (check_guard_scoped_binding_reads emitted top_ids name) (\<lambda>escapes.
      bindE (check_optional_unguarded_arithmetic emitted top_ids reg name) (\<lambda>optionals.
      bindE (check_parallel_write_conflict emitted name) (\<lambda>_.
      bindE (check_cached_read_not_written emitted reg name) (\<lambda>_.
      bindE (check_event_source_mismatch emitted top_ids (de_sources de) name) (\<lambda>mismatches.
        Inr (wk_changed w,
             wk_diags w @ orphans @ escapes @ optionals @ mismatches @ check_derived_never_assigned emitted reg name @
             check_rollback_escapes_network emitted name
               (case service of None \<Rightarrow> False | Some i \<Rightarrow> i \<in> set (de_rollback de)) (wx_verbs cx) @
             check_note_cap emitted name)))))))))))"

definition change_nodes :: "(string, lnode) dict \<Rightarrow> lmodule \<Rightarrow> lmodule" where
  "change_nodes changed m = m\<lparr>lm_nodes := apply_changes changed (lm_nodes m)\<rparr>"

definition lower_workflow ::
  "doc_env \<Rightarrow> nat \<times> sourced \<times> nat option \<Rightarrow> lmodule \<times> (string, string list) dict \<Rightarrow>
     lower_exc + lmodule \<times> (string, string list) dict" where
  "lower_workflow de p acc =
     (let (_, d, service) = p; (m, emits) = acc; wid = derive_id (d_name d) KWorkflow None in
      bindE (plan_workflow de d service) (\<lambda>(top_ids, cx).
      bindE (foldE module_add (mk_node wid (Workflow (d_name d) top_ids) (d_lineno d) [] # wx_emitted cx) m) (\<lambda>m.
      bindE (check_workflow de (d_name d) service top_ids cx) (\<lambda>(changed, ds).
        Inr (add_diags (wx_diags cx @ ds) (change_nodes changed m), dset wid (emitted_events (wx_emitted cx)) emits)))))"

section \<open>lower\<close>

definition enum_map :: "(string \<times> string \<times> facets) list \<Rightarrow> (string, pyval list) dict" where
  "enum_map refs = concat (map (\<lambda>(n, _, fs). case ft_enum fs of None \<Rightarrow> [] | Some vs \<Rightarrow> [(n, vs)]) refs)"

definition preset_refinements :: "string list \<Rightarrow> (string \<times> string \<times> facets) list" where
  "preset_refinements used = concat (map (\<lambda>n. case preset n of None \<Rightarrow> [] | Some (b, fs) \<Rightarrow> [(n, b, fs)]) used)"

definition reserved_types :: "sourced list \<Rightarrow> string list" where
  "reserved_types decls = map fst base_category @ map fst presets @ map d_name (decls_of_kind ''entity'' decls)"

text \<open>The refinements and the registry of a module: \<open>(refinements in emission order, bases, registry)\<close>.\<close>

definition lower_types ::
  "py_lib \<Rightarrow> sourced list \<Rightarrow> lower_exc + (string \<times> string \<times> facets) list \<times> base_map \<times> registry" where
  "lower_types lib decls =
     bindE (lower_refines lib (decls_of_kind ''refine'' decls) (reserved_types decls)) (\<lambda>refs.
     let bases = base_of_map refs in
     bindE (lower_entities bases (map fst refs) (decls_of_kind ''entity'' decls)) (\<lambda>(reg, used).
       Inr (refs @ preset_refinements used, bases, reg)))"

definition lower_services ::
  "registry \<Rightarrow> base_map \<Rightarrow> sourced list \<Rightarrow> lower_exc + (nat \<times> lowered_service) list" where
  "lower_services reg bases decls =
     (let placed = place_decls None 0 decls; services = of_kind ''service'' placed;
          caps = map d_name (decls_of_kind ''capability'' decls) in
      mapE (\<lambda>(i, d, _).
        bindE (lower_service reg bases caps (length services)
                 (map (\<lambda>(_, w, _). derive_id (d_name w) KWorkflow None)
                    (filter (\<lambda>(_, _, s). s = Some i) (of_kind ''workflow'' placed))) d) (\<lambda>s. Inr (i, s))) services)"

definition lower :: "py_lib \<Rightarrow> sourced list \<Rightarrow> string \<Rightarrow> lower_exc + lmodule" where
  "lower lib decls module_name =
     bindE (lower_types lib decls) (\<lambda>(refs, bases, reg).
     bindE (foldE add_http_cap (decls_of_kind ''capability'' decls) ([], [])) (\<lambda>(caps, cap_diags).
     bindE (lower_services reg bases decls) (\<lambda>services.
     bindE (foldE module_add
              (map (\<lambda>(n, b, fs). refinement_node n b fs) refs @ concat (map (\<lambda>(_, s). ls_nodes s) services) @
               map entity_node (entities_of reg))
              \<lparr>lm_name = module_name, lm_nodes = [],
               lm_diags = cap_diags @ concat (map (\<lambda>(_, s). ls_diags s) services)\<rparr>) (\<lambda>m.
     let workflows = of_kind ''workflow'' (place_decls None 0 decls);
         events = decls_of_kind ''event'' decls in
     bindE (foldE (lower_event (map (\<lambda>(_, w, _). derive_id (d_name w) KWorkflow None) workflows)) events
              \<lparr>es_module = m, es_sources = [], es_consumes = []\<rparr>) (\<lambda>st.
     let de = \<lparr>de_registry = reg, de_bases = bases, de_caps = caps, de_enums = enum_map refs,
               de_events = map (\<lambda>d. derive_id (d_name d) KEvent None) events, de_sources = es_sources st,
               de_rollback = map fst (filter (\<lambda>(_, s). ls_rollback s) services),
               de_budget = map fst (filter (\<lambda>(_, s). ls_budget s) services)\<rparr> in
     bindE (foldE (lower_workflow de) workflows (es_module st, [])) (\<lambda>(m, emits).
       foldE module_add
         (concat (map (\<lambda>(_, s). ls_constraints s) services) @ map (capability_node caps) (decls_of_kind ''capability'' decls))
         (add_diags (check_event_consume_cycles (es_consumes st) emits) m)))))))"

end
