(* ===== verification/BodyFacts.thy ===== *)
theory BodyFacts
  imports Body
begin

text \<open>
  Nothing a workflow body says is lost or moved: printing the structure \<open>Body\<close> built gives back
  the token lines it was built from, in their order. The blocks in the store are the blocks the
  items mention, each once, and an \<open>otherwise\<close> is only ever found under a \<open>when\<close> guard.
\<close>

section \<open>Printing the structure\<close>

definition guard_tokens :: "guard \<Rightarrow> string list list" where
  "guard_tokens g = (g_mode g # split_ws (g_arg g)) # map (\<lambda>a. guard_alt_keyword # split_ws a) (g_alts g)"

fun body_tokens :: "(nat \<Rightarrow> string list list) \<Rightarrow> body \<Rightarrow> string list list" where
  "body_tokens f (Step l) = [tokens l]"
| "body_tokens f (BlockAt b) = f b"

fun item_tokens :: "(nat \<Rightarrow> string list list) \<Rightarrow> item \<Rightarrow> string list list" where
  "item_tokens f (Item x) = body_tokens f x"
| "item_tokens f (GuardItem g x None) = guard_tokens g @ body_tokens f x"
| "item_tokens f (GuardItem g x (Some (y, _))) =
     guard_tokens g @ body_tokens f x @ [guard_otherwise_keyword] # body_tokens f y"

definition items_tokens :: "(nat \<Rightarrow> string list list) \<Rightarrow> item list \<Rightarrow> string list list" where
  "items_tokens f its = concat (map (item_tokens f) its)"

definition block_tokens :: "body_state \<Rightarrow> nat \<Rightarrow> string list list" where
  "block_tokens st b =
     (let k = heap st ! b in
      (b_type k # (case b_name k of None \<Rightarrow> [] | Some n \<Rightarrow> [n])) # map tokens (b_steps k) @
      (if b_type k = ''parallel'' \<and> open_block st \<noteq> Some b then [[''merge'']] else []))"

definition pending_tokens :: "body_state \<Rightarrow> string list list" where
  "pending_tokens st =
     (case pending_guard st of None \<Rightarrow> [] | Some g \<Rightarrow> guard_tokens g) @
     (case pending_otherwise st of None \<Rightarrow> [] | Some _ \<Rightarrow> [[guard_otherwise_keyword]])"

definition state_tokens :: "body_state \<Rightarrow> string list list" where
  "state_tokens st = items_tokens (block_tokens st) (items st) @ pending_tokens st"

text \<open>\<open>merge\<close> ignores what follows it on its line; every other line is kept whole.\<close>

definition kept_tokens :: "line \<Rightarrow> string list" where
  "kept_tokens l = (if head_in l [''merge''] then [''merge''] else tokens l)"

section \<open>The blocks an item mentions\<close>

fun body_refs :: "body \<Rightarrow> nat list" where
  "body_refs (Step _) = []"
| "body_refs (BlockAt b) = [b]"

fun item_refs :: "item \<Rightarrow> nat list" where
  "item_refs (Item x) = body_refs x"
| "item_refs (GuardItem _ x None) = body_refs x"
| "item_refs (GuardItem _ x (Some (y, _))) = body_refs x @ body_refs y"

definition items_refs :: "item list \<Rightarrow> nat list" where
  "items_refs its = concat (map item_refs its)"

fun tail_body :: "item \<Rightarrow> body" where
  "tail_body (Item x) = x"
| "tail_body (GuardItem _ x None) = x"
| "tail_body (GuardItem _ _ (Some (y, _))) = y"

fun open_slot :: "item \<Rightarrow> bool" where
  "open_slot (GuardItem _ _ None) = True"
| "open_slot _ = False"

fun is_guard_item :: "item \<Rightarrow> bool" where
  "is_guard_item (GuardItem _ _ _) = True"
| "is_guard_item (Item _) = False"

definition slots_ok :: "body_state \<Rightarrow> bool" where
  "slots_ok st \<longleftrightarrow>
     (\<forall>p. pending_otherwise st = Some p \<longrightarrow> pending_guard st = None \<and>
        (\<exists>its it. items st = its @ [it] \<and> o_slot p = length its \<and> open_slot it)) \<and>
     (\<forall>i. otherwise_slot st = Some i \<longrightarrow>
        (\<exists>its it. items st = its @ [it] \<and> i = length its \<and> is_guard_item it))"

definition body_inv :: "body_state \<Rightarrow> bool" where
  "body_inv st \<longleftrightarrow>
     items_refs (items st) = [0..<length (heap st)] \<and>
     (\<forall>b. open_block st = Some b \<longrightarrow> items st \<noteq> [] \<and> tail_body (last (items st)) = BlockAt b \<and>
        pending_guard st = None \<and> pending_otherwise st = None) \<and>
     slots_ok st"

lemma empty_body_inv: "body_inv empty_body"
  by (simp add: body_inv_def slots_ok_def empty_body_def items_refs_def)

lemma empty_body_tokens: "state_tokens empty_body = []"
  by (simp add: state_tokens_def empty_body_def items_tokens_def pending_tokens_def)

section \<open>How the printed text changes\<close>

lemma body_tokens_cong: "(\<And>b. b \<in> set (body_refs x) \<Longrightarrow> f b = g b) \<Longrightarrow> body_tokens f x = body_tokens g x"
  by (cases x) auto

lemma item_tokens_cong: "(\<And>b. b \<in> set (item_refs i) \<Longrightarrow> f b = g b) \<Longrightarrow> item_tokens f i = item_tokens g i"
proof (induction i rule: item_refs.induct)
  case (3 g' x y n)
  then have "body_tokens f x = body_tokens g x" "body_tokens f y = body_tokens g y"
    by (auto intro!: body_tokens_cong)
  then show ?case by simp
qed (simp_all cong: body_tokens_cong)

lemma items_tokens_cong:
  "(\<And>b. b \<in> set (items_refs its) \<Longrightarrow> f b = g b) \<Longrightarrow> items_tokens f its = items_tokens g its"
  unfolding items_tokens_def items_refs_def
  by (induction its) (auto simp: item_tokens_cong[of _ f g])

lemma item_tokens_grow:
  assumes "distinct (item_refs i)" and "tail_body i = BlockAt b"
    and "\<And>c. c \<noteq> b \<Longrightarrow> g c = f c" and "g b = f b @ extra"
  shows "item_tokens g i = item_tokens f i @ extra"
  using assms
proof (induction i rule: item_refs.induct)
  case (3 g' x y n)
  then have "b \<notin> set (body_refs x)" by auto
  then have "body_tokens g x = body_tokens f x" by (intro body_tokens_cong) (metis 3(3))
  with 3 show ?case by simp
qed simp_all

lemma items_tokens_grow:
  assumes "distinct (items_refs its)" and "its \<noteq> []" and "tail_body (last its) = BlockAt b"
    and "\<And>c. c \<noteq> b \<Longrightarrow> g c = f c" and "g b = f b @ extra"
  shows "items_tokens g its = items_tokens f its @ extra"
proof -
  obtain xs i where its: "its = xs @ [i]" using assms(2) by (metis append_butlast_last_id)
  have "b \<in> set (item_refs i)"
    using assms(3) its by (cases i rule: item_refs.cases) auto
  with assms(1) its have "b \<notin> set (items_refs xs)" by (auto simp: items_refs_def)
  then have "items_tokens g xs = items_tokens f xs" by (intro items_tokens_cong) (metis assms(4))
  moreover have "item_tokens g i = item_tokens f i @ extra"
    using assms its by (intro item_tokens_grow[of i b]) (auto simp: items_refs_def)
  ultimately show ?thesis by (simp add: its items_tokens_def)
qed

lemma items_tokens_snoc [simp]: "items_tokens f (its @ [i]) = items_tokens f its @ item_tokens f i"
  by (simp add: items_tokens_def)

lemma items_refs_snoc [simp]: "items_refs (its @ [i]) = items_refs its @ item_refs i"
  by (simp add: items_refs_def)

text \<open>Growing the block at the end of the last item, by a step or by its \<open>merge\<close>.\<close>

lemma inv_open:
  assumes "body_inv st" and "open_block st = Some b"
  shows "items st \<noteq> []" "tail_body (last (items st)) = BlockAt b" "pending_guard st = None"
    "pending_otherwise st = None" "distinct (items_refs (items st))" "b < length (heap st)"
proof -
  show *: "items st \<noteq> []" "tail_body (last (items st)) = BlockAt b" "pending_guard st = None"
    "pending_otherwise st = None" "distinct (items_refs (items st))"
    using assms by (auto simp: body_inv_def)
  obtain xs i where its: "items st = xs @ [i]" using *(1) by (metis append_butlast_last_id)
  have "b \<in> set (item_refs i)" using *(2) its by (cases i rule: item_refs.cases) auto
  then have "b \<in> set (items_refs (items st))" by (simp add: its)
  then show "b < length (heap st)" using assms(1) by (simp add: body_inv_def)
qed

lemma add_step_ok:
  assumes "body_inv st" and "open_block st = Some b"
  shows "body_inv (add_step b l st) \<and> state_tokens (add_step b l st) = state_tokens st @ [tokens l]"
proof
  note o = inv_open[OF assms]
  show "body_inv (add_step b l st)" using assms by (simp add: body_inv_def slots_ok_def add_step_def)
  have "items_tokens (block_tokens (add_step b l st)) (items st) =
      items_tokens (block_tokens st) (items st) @ [tokens l]"
    using o(6) assms(2)
    by (intro items_tokens_grow[OF o(5,1,2)]) (auto simp: block_tokens_def add_step_def Let_def)
  then show "state_tokens (add_step b l st) = state_tokens st @ [tokens l]"
    using o(3,4) by (simp add: state_tokens_def pending_tokens_def add_step_def)
qed

lemma close_pipeline_ok:
  assumes "body_inv st" and "open_type st \<noteq> Some ''parallel''"
  shows "body_inv (st\<lparr>open_block := None\<rparr>) \<and> state_tokens (st\<lparr>open_block := None\<rparr>) = state_tokens st"
proof
  show "body_inv (st\<lparr>open_block := None\<rparr>)" using assms(1) by (simp add: body_inv_def slots_ok_def)
  have "block_tokens (st\<lparr>open_block := None\<rparr>) = block_tokens st"
    using assms(2) by (auto simp: fun_eq_iff block_tokens_def Let_def open_type_def)
  then show "state_tokens (st\<lparr>open_block := None\<rparr>) = state_tokens st"
    by (simp add: state_tokens_def pending_tokens_def)
qed

lemma merge_line_ok:
  assumes "body_inv st" and "merge_line st l = Inr st'" and "head_in l [''merge'']"
  shows "body_inv st' \<and> state_tokens st' = state_tokens st @ [kept_tokens l]"
proof
  from assms(2) obtain b where b: "open_block st = Some b" "b_type (heap st ! b) = ''parallel''"
    and st': "st' = st\<lparr>open_block := None\<rparr>"
    by (auto simp: merge_line_def open_type_def split: if_splits)
  note o = inv_open[OF assms(1) b(1)]
  show "body_inv st'" using assms(1) st' by (simp add: body_inv_def slots_ok_def)
  have "items_tokens (block_tokens st') (items st) = items_tokens (block_tokens st) (items st) @ [[''merge'']]"
    using b st' by (intro items_tokens_grow[OF o(5,1,2)]) (auto simp: block_tokens_def Let_def)
  then show "state_tokens st' = state_tokens st @ [kept_tokens l]"
    using o(3,4) assms(3) by (simp add: state_tokens_def pending_tokens_def kept_tokens_def st')
qed

section \<open>Placing an item\<close>

lemma check_guard_layout_ok:
  "check_guard_layout st l = Inr st' \<Longrightarrow> st' = st\<lparr>guard_visual := None\<rparr>"
  by (auto simp: check_guard_layout_def split: option.splits if_splits)

lemma attach_place:
  assumes "attach st x l = Inr st'" and "open_block st = None" and "slots_ok st"
  shows "items_tokens f (items st') @ pending_tokens st' =
      items_tokens f (items st) @ pending_tokens st @ body_tokens f x \<and>
    items_refs (items st') = items_refs (items st) @ body_refs x \<and>
    items st' \<noteq> [] \<and> tail_body (last (items st')) = x \<and>
    pending_guard st' = None \<and> pending_otherwise st' = None \<and> heap st' = heap st \<and> open_block st' = None \<and>
    slots_ok st'"
proof (cases "pending_otherwise st")
  case (Some p)
  with assms(3) obtain its it where its: "items st = its @ [it]" "o_slot p = length its" "open_slot it"
    and pg: "pending_guard st = None" and slot: "otherwise_slot st = None \<or> otherwise_slot st = Some (length its)"
    unfolding slots_ok_def by (cases "otherwise_slot st") fastforce+
  then obtain g y where it: "it = GuardItem g y None" by (cases it rule: open_slot.cases) auto
  from assms(1,2) Some its it pg slot show ?thesis
    by (auto simp: attach_def pending_tokens_def slots_ok_def)
next
  case None
  then show ?thesis
    using assms(1,2)
    by (cases "pending_guard st")
      (auto simp: attach_def pending_tokens_def slots_ok_def Let_def bindE_iffs dest!: check_guard_layout_ok
        split: if_splits)
qed

lemma plain_step_ok:
  assumes "body_inv st" and "attach st (Step l) l = Inr st'"
  shows "body_inv st' \<and> state_tokens st' = state_tokens st @ [tokens l]"
proof (cases "open_block st")
  case (Some b)
  with assms(2) have "st' = add_step b l st" by (simp add: attach_def)
  with add_step_ok[OF assms(1) Some] show ?thesis by simp
next
  case None
  with assms(1) have "slots_ok st" and r: "items_refs (items st) = [0..<length (heap st)]"
    by (simp_all add: body_inv_def)
  note place = attach_place[OF assms(2) None this(1), of "block_tokens st"]
  then have "block_tokens st' = block_tokens st"
    using None by (auto simp: fun_eq_iff block_tokens_def)
  with place r show ?thesis by (simp add: state_tokens_def body_inv_def)
qed

section \<open>Each control line\<close>

lemma merge_not_block: "head_in l [''parallel'', ''pipeline''] \<Longrightarrow> \<not> head_in l [''merge'']"
  by (auto simp: head_in_def split: option.splits)

lemma head_in_hd: "head_in l ws \<Longrightarrow> tokens l \<noteq> [] \<and> hd (tokens l) \<in> set ws"
  by (auto simp: head_in_def line_head_def split: option.splits list.splits)

lemma header_tokens:
  assumes "tokens l \<noteq> []" and "length (tokens l) \<le> 2"
  shows "hd (tokens l) # (case (if length (tokens l) > 1 then Some (tokens l ! 1) else None) of
    None \<Rightarrow> [] | Some n \<Rightarrow> [n]) = tokens l"
  using assms by (cases "tokens l" rule: list.exhaust[of _ "_::bool"]; cases "tl (tokens l)") auto

lemma block_line_ok:
  assumes "body_inv st" and "block_line st l = Inr st'" and "head_in l [''parallel'', ''pipeline'']"
  shows "body_inv st' \<and> state_tokens st' = state_tokens st @ [tokens l]"
proof -
  define blk where "blk = \<lparr>b_type = hd (tokens l), b_lineno = lineno l, b_steps = [],
      b_name = (if length (tokens l) > 1 then Some (tokens l ! 1) else None), b_indent = indent l\<rparr>"
  define b where "b = length (heap st)"
  define st1 where "st1 = st\<lparr>open_block := None\<rparr>"
  define st2 where "st2 = st1\<lparr>heap := heap st @ [blk]\<rparr>"
  from head_in_hd[OF assms(3)] have ne: "tokens l \<noteq> []"
    and hd: "hd (tokens l) = ''parallel'' \<or> hd (tokens l) = ''pipeline''" by auto
  from assms(2) hd obtain st3 where np: "open_type st \<noteq> Some ''parallel''"
    and len: "length (tokens l) \<le> 2" and at: "attach st2 (BlockAt b) l = Inr st3"
    and st': "st' = st3\<lparr>open_block := Some b\<rparr>"
    by (auto simp: block_line_def Let_def bindE_iffs st2_def st1_def blk_def b_def split: if_splits)
  from close_pipeline_ok[OF assms(1) np] have i1: "body_inv st1" and t1: "state_tokens st1 = state_tokens st"
    by (simp_all add: st1_def)
  from i1 have sl: "slots_ok st2" and r: "items_refs (items st) = [0..<b]"
    by (simp_all add: body_inv_def slots_ok_def st2_def st1_def b_def)
  have ob: "open_block st2 = None" by (simp add: st2_def st1_def)
  note place = attach_place[OF at ob sl, of "block_tokens st'"]
  have "block_tokens st' c = block_tokens st1 c" if "c < b" for c
    using that place by (simp add: block_tokens_def st' st2_def st1_def b_def nth_append)
  then have old: "items_tokens (block_tokens st') (items st) = items_tokens (block_tokens st1) (items st)"
    using r by (intro items_tokens_cong) auto
  have new: "block_tokens st' b = [tokens l]"
    using place header_tokens[OF ne len]
    by (simp add: block_tokens_def Let_def st' st2_def st1_def b_def blk_def nth_append)
  show ?thesis
  proof
    show "body_inv st'"
      using place r by (simp add: body_inv_def st' st2_def st1_def b_def slots_ok_def)
    have "state_tokens st' = items_tokens (block_tokens st') (items st3) @ pending_tokens st3"
      by (simp add: state_tokens_def st' pending_tokens_def)
    also have "\<dots> = items_tokens (block_tokens st') (items st) @ pending_tokens st2 @ [tokens l]"
      using place new by (simp add: st2_def st1_def)
    also have "\<dots> = state_tokens st1 @ [tokens l]"
      unfolding old by (simp add: state_tokens_def pending_tokens_def st2_def st1_def)
    finally show "state_tokens st' = state_tokens st @ [tokens l]" unfolding t1 .
  qed
qed

lemma split_join_tl:
  assumes "line_ok l" shows "split_ws (join_sp (tl (tokens l))) = tl (tokens l)"
  using assms by (intro split_join) (auto simp: line_ok_def dest: list.set_sel(2)[rotated])

lemma guard_line_ok:
  assumes "body_inv st" and "guard_line st l = Inr st'" and "line_ok l"
  shows "body_inv st' \<and> state_tokens st' = state_tokens st @ [tokens l]"
proof -
  from assms(2) have np: "open_type st \<noteq> Some ''parallel''" and po: "pending_otherwise st = None"
    and pg: "pending_guard st = None"
    and st': "st' = st\<lparr>open_block := None, guard_visual := None,
      pending_guard := Some \<lparr>g_mode = hd (tokens l), g_arg = join_sp (tl (tokens l)), g_lineno = lineno l,
        g_indent = indent l, g_alts = []\<rparr>\<rparr>"
    by (auto simp: guard_line_def Let_def bindE_iffs dest!: check_guard_layout_ok split: if_splits option.splits)
  from close_pipeline_ok[OF assms(1) np]
  have i: "body_inv (st\<lparr>open_block := None\<rparr>)" and t: "state_tokens (st\<lparr>open_block := None\<rparr>) = state_tokens st"
    by simp_all
  have "tokens l \<noteq> []" using assms(3) unfolding line_ok_def by blast
  moreover have "block_tokens st' = block_tokens (st\<lparr>open_block := None\<rparr>)"
    by (simp add: fun_eq_iff block_tokens_def st')
  ultimately have "state_tokens st' = state_tokens (st\<lparr>open_block := None\<rparr>) @ [tokens l]"
    using pg po by (simp add: state_tokens_def pending_tokens_def guard_tokens_def split_join_tl[OF assms(3)] st')
  moreover have "body_inv st'" using i pg po by (simp add: body_inv_def slots_ok_def st')
  ultimately show ?thesis using t by simp
qed

lemma alternative_line_ok:
  assumes "body_inv st" and "alternative_line st l g = Inr st'" and "line_ok l"
    and "pending_guard st = Some g" and "head_in l [guard_alt_keyword]"
  shows "body_inv st' \<and> state_tokens st' = state_tokens st @ [tokens l]"
proof -
  from assms(2) have st': "st' = st\<lparr>pending_guard := Some (g\<lparr>g_alts := g_alts g @ [join_sp (tl (tokens l))]\<rparr>)\<rparr>"
    by (auto simp: alternative_line_def Let_def bindE_iffs split: if_splits)
  from assms(1,4) have po: "pending_otherwise st = None" and ob: "open_block st = None"
    by (auto simp: body_inv_def slots_ok_def)
  have "tokens l = guard_alt_keyword # tl (tokens l)"
    using head_in_hd[OF assms(5)] by (metis list.collapse list.set_intros(1) list.set(1) set_ConsD singletonD list.simps(15))
  moreover have "block_tokens st' = block_tokens st" by (simp add: fun_eq_iff block_tokens_def st')
  ultimately have "state_tokens st' = state_tokens st @ [tokens l]"
    using assms(4) po by (simp add: state_tokens_def pending_tokens_def guard_tokens_def split_join_tl[OF assms(3)] st')
  moreover have "body_inv st'" using assms(1,4) po ob by (simp add: body_inv_def slots_ok_def st')
  ultimately show ?thesis by simp
qed

lemma otherwise_line_ok:
  assumes "body_inv st" and "otherwise_line st l = Inr st'" and "head_in l [guard_otherwise_keyword]"
  shows "body_inv st' \<and> state_tokens st' = state_tokens st @ [tokens l]"
proof -
  from assms(2) obtain i where np: "open_type st \<noteq> Some ''parallel''" and one: "length (tokens l) = 1"
    and pg: "pending_guard st = None" and fo: "first_otherwise st = None" and sl: "otherwise_slot st = Some i"
    and st': "st' = st\<lparr>open_block := None, guard_visual := None,
      pending_otherwise := Some \<lparr>o_slot = i, o_lineno = lineno l, o_indent = indent l\<rparr>\<rparr>"
    by (auto simp: otherwise_line_def first_otherwise_def bindE_iffs dest!: check_guard_layout_ok
        split: if_splits option.splits)
  from close_pipeline_ok[OF assms(1) np]
  have i: "body_inv (st\<lparr>open_block := None\<rparr>)" and t: "state_tokens (st\<lparr>open_block := None\<rparr>) = state_tokens st"
    by simp_all
  from fo have po: "pending_otherwise st = None" by (auto simp: first_otherwise_def split: option.splits)
  from assms(1) sl obtain its it where its: "items st = its @ [it]" "i = length its" "is_guard_item it"
    by (auto simp: body_inv_def slots_ok_def)
  with fo po sl have "open_slot it"
    by (cases it rule: open_slot.cases) (auto simp: first_otherwise_def)
  with i its pg have "body_inv st'" by (auto simp: body_inv_def slots_ok_def st')
  moreover have "tokens l = [guard_otherwise_keyword]"
    using head_in_hd[OF assms(3)] one by (cases "tokens l") auto
  moreover have "block_tokens st' = block_tokens (st\<lparr>open_block := None\<rparr>)"
    by (simp add: fun_eq_iff block_tokens_def st')
  ultimately have "body_inv st' \<and> state_tokens st' = state_tokens (st\<lparr>open_block := None\<rparr>) @ [tokens l]"
    using pg po by (simp add: state_tokens_def pending_tokens_def st')
  with t show ?thesis by simp
qed

lemma kept_other: "\<not> head_in l [''merge''] \<Longrightarrow> kept_tokens l = tokens l"
  by (simp add: kept_tokens_def)

lemma append_item_ok:
  assumes "body_inv st" and "line_ok l" and "append_workflow_item st l = Inr st'"
  shows "body_inv st' \<and> state_tokens st' = state_tokens st @ [kept_tokens l]"
proof -
  consider (merge) "head_in l [''merge'']" "merge_line st l = Inr st'"
    | (block) "\<not> head_in l [''merge'']" "head_in l [''parallel'', ''pipeline'']" "block_line st l = Inr st'"
    | (guard) "\<not> head_in l [''merge'']" "guard_line st l = Inr st'"
    | (alt) g where "\<not> head_in l [''merge'']" "head_in l [guard_alt_keyword]" "pending_guard st = Some g"
        "alternative_line st l g = Inr st'"
    | (owise) "\<not> head_in l [''merge'']" "head_in l [guard_otherwise_keyword]" "otherwise_line st l = Inr st'"
    | (step) "\<not> head_in l [''merge'']" "attach st (Step l) l = Inr st'"
    using assms(3) unfolding append_workflow_item_def by (auto split: if_splits option.splits)
  then show ?thesis
  proof cases
    case merge
    with merge_line_ok[OF assms(1)] show ?thesis by blast
  next
    case block
    with block_line_ok[OF assms(1)] show ?thesis by (simp add: kept_other)
  next
    case guard
    with guard_line_ok[OF assms(1) _ assms(2)] show ?thesis by (simp add: kept_other)
  next
    case alt
    with alternative_line_ok[OF assms(1) _ assms(2)] show ?thesis by (simp add: kept_other)
  next
    case owise
    with otherwise_line_ok[OF assms(1)] show ?thesis by (simp add: kept_other)
  next
    case step
    with plain_step_ok[OF assms(1)] show ?thesis by (simp add: kept_other)
  qed
qed

section \<open>A whole body\<close>

definition build_body :: "line list \<Rightarrow> body_state \<Rightarrow> body_exc + body_state" where
  "build_body ls st = foldE (\<lambda>l st. append_workflow_item st l) ls st"

lemma build_body_ok:
  assumes "body_inv st" and "\<forall>l \<in> set ls. line_ok l" and "build_body ls st = Inr st'"
  shows "body_inv st' \<and> state_tokens st' = state_tokens st @ map kept_tokens ls"
  using assms unfolding build_body_def
proof (induction ls arbitrary: st)
  case (Cons l ls)
  from Cons.prems(3) obtain st1 where s: "append_workflow_item st l = Inr st1"
    and r: "foldE (\<lambda>l st. append_workflow_item st l) ls st1 = Inr st'" by (auto simp: bindE_iffs)
  from append_item_ok[OF Cons.prems(1) _ s] Cons.prems(2)
  have "body_inv st1" "state_tokens st1 = state_tokens st @ [kept_tokens l]" by simp_all
  with Cons.IH[OF this(1) _ r] Cons.prems(2) show ?case by simp
qed simp

text \<open>Closing a body changes nothing that is printed, and leaves no scratch state.\<close>

lemma close_body_ok:
  assumes "body_inv st" and "close_body st = Inr st'"
  shows "items_tokens (block_tokens st') (items st') = state_tokens st \<and> items st' = items st \<and> heap st' = heap st \<and>
    items_refs (items st') = [0..<length (heap st')] \<and>
    open_block st' = None \<and> pending_guard st' = None \<and> pending_otherwise st' = None \<and>
    otherwise_slot st' = None \<and> otherwise_refused st' = None \<and> guard_visual st' = None"
proof -
  from assms(2) have np: "open_type st \<noteq> Some ''parallel''" and p: "pending_guard st = None" "pending_otherwise st = None"
    and st': "st' = st\<lparr>guard_visual := None, open_block := None, otherwise_slot := None, otherwise_refused := None\<rparr>"
    by (auto simp: close_body_def split: if_splits option.splits)
  have "block_tokens st' = block_tokens st"
    using np by (auto simp: fun_eq_iff block_tokens_def Let_def open_type_def st')
  with p assms(1) show ?thesis by (simp add: state_tokens_def pending_tokens_def st' body_inv_def)
qed

section \<open>What the guards of a body satisfy\<close>

definition condition_text_ok :: "string \<Rightarrow> bool" where
  "condition_text_ok s = (\<exists>c. parse_condition (Some s) = Inr c)"

definition guard_ok :: "guard \<Rightarrow> bool" where
  "guard_ok g \<longleftrightarrow> g_mode g \<in> {''when'', ''until'', ''repeat''} \<and>
     (g_mode g \<noteq> ''repeat'' \<longrightarrow> condition_text_ok (g_arg g)) \<and>
     (g_alts g \<noteq> [] \<longrightarrow> g_mode g = ''when'') \<and> list_all condition_text_ok (g_alts g)"

fun item_guard_ok :: "item \<Rightarrow> bool" where
  "item_guard_ok (Item _) = True"
| "item_guard_ok (GuardItem g _ o') = (guard_ok g \<and> (o' \<noteq> None \<longrightarrow> g_mode g = ''when''))"

fun when_item :: "item \<Rightarrow> bool" where
  "when_item (GuardItem g _ _) = (g_mode g = ''when'')"
| "when_item (Item _) = False"

definition guards_inv :: "body_state \<Rightarrow> bool" where
  "guards_inv st \<longleftrightarrow> list_all item_guard_ok (items st) \<and>
     (\<forall>g. pending_guard st = Some g \<longrightarrow> guard_ok g) \<and>
     (\<forall>i. otherwise_slot st = Some i \<longrightarrow> i < length (items st) \<and> when_item (items st ! i)) \<and>
     (\<forall>p. pending_otherwise st = Some p \<longrightarrow> o_slot p < length (items st) \<and> when_item (items st ! o_slot p))"

lemma guards_inv_fields:
  "guards_inv (st\<lparr>open_block := ob\<rparr>) = guards_inv st"
  "guards_inv (st\<lparr>heap := h\<rparr>) = guards_inv st"
  "guards_inv (st\<lparr>guard_visual := v\<rparr>) = guards_inv st"
  by (simp_all add: guards_inv_def)

lemma fill_slot_ok:
  "item_guard_ok it \<Longrightarrow> when_item it \<Longrightarrow> item_guard_ok (fill_slot it x n) \<and> when_item (fill_slot it x n)"
  by (cases it) simp_all

lemma attach_guards:
  assumes "attach st x l = Inr st'" and "guards_inv st"
  shows "guards_inv st'"
proof (cases "\<exists>b s. open_block st = Some b \<and> x = Step s")
  case True
  with assms show ?thesis by (auto simp: attach_def add_step_def guards_inv_fields)
next
  case False
  show ?thesis
  proof (cases "pending_otherwise st")
    case (Some p)
    with assms(2) have p: "o_slot p < length (items st)" "when_item (items st ! o_slot p)"
      and all: "list_all item_guard_ok (items st)" by (simp_all add: guards_inv_def)
    then have "item_guard_ok (items st ! o_slot p)" by (simp add: list_all_length)
    from fill_slot_ok[OF this p(2)] have f: "item_guard_ok (fill_slot (items st ! o_slot p) x (o_lineno p))"
      "when_item (fill_slot (items st ! o_slot p) x (o_lineno p))" by blast+
    from False Some assms(1) have st': "st' = st\<lparr>pending_otherwise := None,
        items := (items st)[o_slot p := fill_slot (items st ! o_slot p) x (o_lineno p)],
        guard_visual := deeper l (o_indent p) (o_lineno p) guard_otherwise_keyword (guard_visual st)\<rparr>"
      by (auto simp: attach_def split: option.splits body.splits)
    show ?thesis
      using assms(2) all f p(1) by (auto simp: guards_inv_def st' list_all_length nth_list_update)
  next
    case None
    with False assms show ?thesis
      by (auto simp: attach_def guards_inv_def Let_def bindE_iffs nth_append dest!: check_guard_layout_ok
          split: option.splits body.splits if_splits)
  qed
qed

lemma validate_condition_ok: "validate_condition l s = Inr u \<Longrightarrow> condition_text_ok s"
  by (auto simp: validate_condition_def condition_text_ok_def split: sum.splits cond_exc.splits)

lemma append_item_guards:
  assumes "append_workflow_item st l = Inr st'" and "guards_inv st"
  shows "guards_inv st'"
proof -
  consider (merge) "merge_line st l = Inr st'"
    | (block) "block_line st l = Inr st'"
    | (guard) "head_in l [''when'', ''until'', ''repeat'']" "guard_line st l = Inr st'"
    | (alt) g where "pending_guard st = Some g" "alternative_line st l g = Inr st'"
    | (owise) "otherwise_line st l = Inr st'"
    | (step) "attach st (Step l) l = Inr st'"
    using assms(1) unfolding append_workflow_item_def by (auto split: if_splits option.splits)
  then show ?thesis
  proof cases
    case merge
    with assms(2) show ?thesis by (auto simp: merge_line_def guards_inv_fields split: if_splits)
  next
    case block
    with assms(2) show ?thesis
      by (auto simp: block_line_def Let_def bindE_iffs guards_inv_fields dest!: attach_guards split: if_splits)
  next
    case guard
    from head_in_hd[OF guard(1)] have "hd (tokens l) \<in> {''when'', ''until'', ''repeat''}" by simp
    with guard(2) assms(2) show ?thesis
      by (auto simp: guard_line_def Let_def bindE_iffs guards_inv_def guard_ok_def
          dest!: check_guard_layout_ok validate_condition_ok split: if_splits option.splits)
  next
    case alt
    with assms(2) show ?thesis
      by (auto simp: alternative_line_def Let_def bindE_iffs guards_inv_def guard_ok_def
          dest!: validate_condition_ok split: if_splits)
  next
    case owise
    with assms(2) show ?thesis
      by (auto simp: otherwise_line_def bindE_iffs guards_inv_def
          dest!: check_guard_layout_ok split: if_splits option.splits)
  next
    case step
    with assms(2) show ?thesis by (blast intro: attach_guards)
  qed
qed

end
