(* ===== verification/ConditionFacts.thy ===== *)
theory ConditionFacts
  imports Condition
begin

text \<open>
  What \<open>condition.py\<close> promises its callers: what the parser accepts is well formed, the
  normalized text reads back to the condition it was printed from, and the only exception a
  caller sees on ordinary text is a \<open>ConditionError\<close>.
\<close>

section \<open>Well-formedness\<close>

fun wf_operand :: "operand \<Rightarrow> bool" where
  "wf_operand (Ref n) = is_reference_name n"
| "wf_operand (Lit v _) = (0 \<le> v \<and> v \<le> INT64_MAX)"

fun wf_val :: "val \<Rightarrow> bool" where
  "wf_val (Operand x) = wf_operand x"
| "wf_val (Arith l _ r) = (wf_operand l \<and> wf_operand r)"

fun wf_condition :: "condition \<Rightarrow> bool" where
  "wf_condition (Presence f _) = is_reference_name f"
| "wf_condition (NumericPredicate f _) = is_reference_name f"
| "wf_condition (Comparison l _ r) = (wf_val l \<and> wf_val r)"
| "wf_condition (And terms) =
     (2 \<le> length terms \<and> (\<forall>t \<in> set terms. and_term t \<and> wf_condition t))"

section \<open>Operator tokens\<close>

lemma arith_of_text [simp]: "arith_of_token (arith_text a) = Some a"
  by (cases a) (simp_all add: arith_of_token_def arith_ops_def arith_op_list_def)

lemma cmp_of_text [simp]: "cmp_of_token (cmp_text c) = Some c"
  by (cases c) (simp_all add: cmp_of_token_def comparators_def cmp_op_list_def)

lemma presence_of_text [simp]: "presence_of_token (presence_text k) = Some k"
  by (cases k) (simp_all add: presence_of_token_def presence_kinds_def)

lemma numeric_of_text [simp]: "numeric_of_token (numeric_text k) = Some k"
  by (cases k) (simp_all add: numeric_of_token_def numeric_predicate_kinds_def)

lemma agg_of_text [simp]: "agg_of_token (agg_text f) = Some f"
  by (cases f) (simp_all add: agg_of_token_def agg_funcs_def)

lemma cmp_text_in [simp]: "cmp_text c \<in> set comparators"
  by (cases c) (simp_all add: comparators_def)

lemma presence_text_in [simp]: "presence_text k \<in> set presence_kinds"
  by (cases k) (simp_all add: presence_kinds_def)

lemma numeric_text_in [simp]: "numeric_text k \<in> set numeric_predicate_kinds"
  by (cases k) (simp_all add: numeric_predicate_kinds_def)

lemma numeric_text_not_presence [simp]: "numeric_text k \<notin> set presence_kinds"
  by (cases k) (simp_all add: presence_kinds_def)

lemma agg_text_in [simp]: "agg_text f \<in> set agg_funcs"
  by (cases f) (simp_all add: agg_funcs_def)

lemma cmp_token_defined: "t \<in> set comparators \<Longrightarrow> cmp_of_token t \<noteq> None"
  by (auto simp: cmp_of_token_def comparators_def cmp_op_list_def)

lemma presence_token_defined: "t \<in> set presence_kinds \<Longrightarrow> presence_of_token t \<noteq> None"
  by (auto simp: presence_of_token_def presence_kinds_def)

lemma numeric_token_defined: "t \<in> set numeric_predicate_kinds \<Longrightarrow> numeric_of_token t \<noteq> None"
  by (auto simp: numeric_of_token_def numeric_predicate_kinds_def)

lemma agg_token_defined: "t \<in> set agg_funcs \<Longrightarrow> agg_of_token t \<noteq> None"
  by (auto simp: agg_of_token_def agg_funcs_def)

section \<open>Tokens that cannot be mistaken for grammar words\<close>

definition head_decimal :: "string \<Rightarrow> bool" where
  "head_decimal t = (t \<noteq> [] \<and> is_decimal_c (hd t))"

definition plain_token :: "string \<Rightarrow> bool" where
  "plain_token t \<longleftrightarrow> good_token t \<and> t \<notin> set comparators \<and> t \<noteq> ''and'' \<and>
     t \<notin> set presence_kinds \<and> t \<notin> set numeric_predicate_kinds"

lemma camel_alnum: "is_camel_name w \<Longrightarrow> list_all is_alnum_c w"
  by (cases w) (auto simp: is_camel_name_def)

lemma reference_segments:
  "is_reference_name s \<Longrightarrow> list_all is_camel_name (split_on CHR ''.'' s) \<and> length (split_on CHR ''.'' s) \<le> 2"
  by (auto simp: is_reference_name_def Let_def split: if_splits)

lemma reference_chars:
  assumes "is_reference_name s" and "c \<in> set s"
  shows "is_alnum_c c \<or> c = CHR ''.''"
proof -
  from assms(1) have all: "\<forall>w \<in> set (split_on CHR ''.'' s). list_all is_alnum_c w"
    using reference_segments camel_alnum by (auto simp: list_all_iff)
  from assms(2) have "c \<in> set (join [CHR ''.''] (split_on CHR ''.'' s))" by (simp add: split_on_join)
  from join_chars[OF this] all show ?thesis by (auto simp: list_all_iff)
qed

lemma reference_head:
  assumes "is_reference_name s"
  obtains c cs where "s = c # cs" and "is_lower_c c"
proof -
  obtain w ws where sp: "split_on CHR ''.'' s = w # ws"
    using split_on_not_Nil[of "CHR ''.''" s] by (metis list.exhaust)
  with assms have "is_camel_name w"
    by (auto simp: is_reference_name_def Let_def split: if_splits)
  then obtain c cs where w: "w = c # cs" "is_lower_c c"
    by (auto simp: is_camel_name_def split: list.splits)
  have "s = join [CHR ''.''] (w # ws)" using split_on_join[of "CHR ''.''" s] sp by simp
  with w have "\<exists>r. s = c # r" by (cases ws) auto
  with w that show thesis by blast
qed

lemma dot_not_space: "\<not> is_space CHR ''.''"
  by (simp add: is_space_def ord_def)

lemma reference_plain: assumes "is_reference_name s" shows "plain_token s"
proof -
  from assms obtain c cs where s: "s = c # cs" and lc: "is_lower_c c" by (rule reference_head)
  have "\<forall>d \<in> set s. \<not> is_space d"
    using reference_chars[OF assms] dot_not_space by (auto dest: alnum_not_space)
  with s have "good_token s" by (simp add: good_token_def)
  moreover have "s \<notin> set comparators"
    using lc unfolding s by (auto simp: comparators_def is_lower_c_def ord_def)
  moreover have "s \<noteq> ''and''" "s \<notin> set presence_kinds" "s \<notin> set numeric_predicate_kinds"
    using assms by (auto simp: is_reference_name_def)
  ultimately show ?thesis by (simp add: plain_token_def)
qed

lemma head_decimal_plain:
  assumes "good_token t" and "head_decimal t" shows "plain_token t"
proof -
  from assms(2) obtain c cs where t: "t = c # cs" and d: "is_decimal_c c"
    by (cases t) (auto simp: head_decimal_def)
  from d have "t \<notin> set comparators \<and> t \<noteq> ''and'' \<and> t \<notin> set presence_kinds \<and>
      t \<notin> set numeric_predicate_kinds"
    unfolding t by (auto simp: comparators_def presence_kinds_def numeric_predicate_kinds_def
        is_decimal_c_def ord_def)
  with assms(1) show ?thesis by (simp add: plain_token_def)
qed

section \<open>Literals\<close>

lemma show_int_nonneg: "0 \<le> v \<Longrightarrow> show_int v = show_nat (nat v)"
  by (simp add: show_int_def)

lemma show_nat_head_decimal: "head_decimal (show_nat n @ u)"
  using show_nat_decimal[of "hd (show_nat n)" n] by (simp add: head_decimal_def)

lemma duration_render_eq:
  "duration_render = [(''d'', 86400000), (''h'', 3600000), (''m'', 60000), (''s'', 1000), (''ms'', 1)]"
  by (simp add: duration_render_def duration_unit_ms_def)

lemma render_duration_form:
  assumes "0 \<le> v" and "\<forall>(_, k) \<in> set tbl. 0 < k"
    and "\<forall>p \<in> set tbl. p \<in> set duration_unit_ms"
  shows "\<exists>n u k. render_duration tbl v = show_nat n @ u \<and> (u, k) \<in> set duration_unit_ms \<and>
     int n * k = v"
  using assms
proof (induction tbl v rule: render_duration.induct)
  case (1 v)
  have "(''ms'', 1) \<in> set duration_unit_ms" by (simp add: duration_unit_ms_def)
  moreover have "render_duration [] v = show_nat (nat v) @ ''ms''" using 1 by (simp add: show_int_nonneg)
  ultimately show ?case using 1 by (intro exI[of _ "nat v"] exI[of _ "''ms''"] exI[of _ 1]) simp
next
  case (2 unit mult rest v)
  show ?case
  proof (cases "v \<noteq> 0 \<and> v mod mult = 0")
    case True
    with 2 have "0 \<le> v div mult" by (simp add: pos_imp_zdiv_nonneg_iff)
    moreover have "v div mult * mult = v" using True by auto
    ultimately show ?thesis using True 2
      by (intro exI[of _ "nat (v div mult)"] exI[of _ unit] exI[of _ mult])
        (simp add: show_int_nonneg)
  next
    case False
    with 2 show ?thesis by auto
  qed
qed

lemma render_duration_full:
  assumes "0 \<le> v"
  obtains n u k where "render_duration duration_render v = show_nat n @ u"
    and "(u, k) \<in> set duration_unit_ms" and "int n * k = v"
  using render_duration_form[OF assms, of duration_render]
  by (auto simp: duration_render_eq duration_unit_ms_def)

lemma unit_good: "(u, k) \<in> set duration_unit_ms \<Longrightarrow> good_token u \<and> \<not> is_digit_c (last u) \<and> 1 \<le> k"
  by (auto simp: duration_unit_ms_def good_token_def char_class_defs ord_def)

lemma good_token_append: "good_token s \<Longrightarrow> good_token t \<Longrightarrow> good_token (s @ t)"
  by (auto simp: good_token_def)

lemma show_nat_good: "good_token (show_nat n)"
  by (auto simp: good_token_def dest: show_nat_decimal decimal_digit digit_not_space)

lemma parse_show_int:
  assumes "0 \<le> v" and "v \<le> INT64_MAX"
  shows "parse_operand (show_int v) = Inr (Lit v False)"
proof -
  have "nat v < 10 ^ 19" using in_int64_small[of v] assms
    by (simp add: in_int64_def int64_numerals)
  then have "int_of_digits (show_nat (nat v)) = Some (nat v)" by (rule int_of_digits_show)
  with assms show ?thesis
    by (simp add: parse_operand_def show_int_nonneg show_nat_isdigit)
qed

lemma parse_show_duration:
  assumes "0 \<le> v" and "v \<le> INT64_MAX"
  shows "parse_operand (render_duration duration_render v) = Inr (Lit v True)"
proof -
  obtain n u k where r: "render_duration duration_render v = show_nat n @ u"
    and u: "(u, k) \<in> set duration_unit_ms" and v: "int n * k = v"
    using render_duration_full[OF assms(1)] by blast
  have "int n \<le> v" using v unit_good[OF u] by (metis mult_left_mono mult.right_neutral of_nat_0_le_iff)
  with assms(2) have "n < 10 ^ 19" by (simp add: int64_numerals)
  then have len: "length (show_nat n) \<le> max_str_digits"
    using show_nat_length[of n 19] by (simp add: max_str_digits_def)
  have "duration_ms_or_none (show_nat n @ u) = Inr (Some v)"
    using duration_literal[OF u show_nat_not_Nil _ len] v assms
    by (simp add: list_all_iff show_nat_decimal)
  moreover have "\<not> str_isdigit (show_nat n @ u)"
    using unit_good[OF u] by (auto simp: str_isdigit_def list_all_iff good_token_def)
  ultimately show ?thesis by (simp add: parse_operand_def r)
qed

lemma parse_reference:
  assumes "is_reference_name n"
  shows "parse_operand n = Inr (Ref n)"
proof -
  from assms obtain c cs where n: "n = c # cs" and lc: "is_lower_c c" by (rule reference_head)
  then have nd: "\<not> is_digit_c c" by (simp add: lower_not_digit)
  then show ?thesis
    using assms duration_needs_digit[OF nd, of cs] n by (simp add: parse_operand_def str_isdigit_def)
qed

lemma parse_operand_to_string: "wf_operand x \<Longrightarrow> parse_operand (operand_to_string x) = Inr x"
  by (cases x) (auto simp: parse_reference parse_show_int parse_show_duration)

lemma operand_plain: assumes "wf_operand x" shows "plain_token (operand_to_string x)"
proof (cases x)
  case (Ref n)
  with assms show ?thesis by (simp add: reference_plain)
next
  case (Lit v dur)
  with assms have v: "0 \<le> v" by simp
  show ?thesis
  proof (cases dur)
    case True
    obtain n u k where r: "render_duration duration_render v = show_nat n @ u"
      and u: "(u, k) \<in> set duration_unit_ms" using render_duration_full[OF v] by blast
    have "plain_token (show_nat n @ u)"
      using unit_good[OF u] by (intro head_decimal_plain good_token_append show_nat_good
          show_nat_head_decimal) auto
    with r True Lit show ?thesis by simp
  next
    case False
    with Lit v show_nat_good head_decimal_plain show_nat_head_decimal[of "nat v" "[]"]
    show ?thesis by (simp add: show_int_nonneg)
  qed
qed

lemma parse_operand_wf: "parse_operand t = Inr x \<Longrightarrow> wf_operand x"
  by (auto simp: parse_operand_def split: if_splits option.splits sum.splits lex_error.splits
      dest: duration_range)

section \<open>Values and terms read back\<close>

fun value_tokens :: "val \<Rightarrow> string list" where
  "value_tokens (Operand x) = [operand_to_string x]"
| "value_tokens (Arith l a r) = [operand_to_string l, arith_text a, operand_to_string r]"

fun cond_tokens :: "condition \<Rightarrow> string list" where
  "cond_tokens (Presence f k) = [f, presence_text k]"
| "cond_tokens (NumericPredicate f k) = [f, numeric_text k]"
| "cond_tokens (Comparison l c r) = value_tokens l @ cmp_text c # value_tokens r"
| "cond_tokens (And terms) = join [''and''] (map cond_tokens terms)"

lemma join_sp_append: "xs \<noteq> [] \<Longrightarrow> ys \<noteq> [] \<Longrightarrow> join_sp (xs @ ys) = join_sp xs @ '' '' @ join_sp ys"
proof (induction xs rule: induct_list012)
  case (2 x)
  then show ?case by (cases ys) auto
qed auto

lemma join_sp_Cons: "ys \<noteq> [] \<Longrightarrow> join_sp (x # ys) = x @ '' '' @ join_sp ys"
  by (cases ys) auto

lemma case_singleton:
  "(case xs of [x] \<Rightarrow> f x | _ \<Rightarrow> b) = (if length xs = 1 then f (hd xs) else b)"
  by (simp split: list.split)

lemma value_tokens_not_Nil [simp]: "value_tokens v \<noteq> []"
  by (cases v) auto

lemma value_text_join: "value_to_string v = join_sp (value_tokens v)"
  by (cases v) auto

lemma join_and_text:
  "\<forall>ts \<in> set tss. ts \<noteq> [] \<Longrightarrow> join '' and '' (map join_sp tss) = join_sp (join [''and''] tss)"
proof (induction tss rule: induct_list012)
  case (3 t u tss)
  then have "u \<noteq> []" "t \<noteq> []" by auto
  then have "join [''and''] (u # tss) \<noteq> []" by (cases tss) auto
  then have a: "join_sp ([''and''] @ join [''and''] (u # tss)) = ''and'' @ '' '' @ join_sp (join [''and''] (u # tss))"
    by (subst join_sp_append) auto
  then have "join_sp (join [''and''] (t # u # tss)) =
      join_sp t @ '' '' @ ''and'' @ '' '' @ join_sp (join [''and''] (u # tss))"
    using \<open>t \<noteq> []\<close> by (simp add: join_sp_append)
  with 3 show ?case by simp
qed auto

lemma and_term_text: "and_term c \<Longrightarrow> condition_text c = join_sp (cond_tokens c)"
  by (cases c) (auto simp: value_text_join join_sp_append join_sp_Cons)

lemma and_term_tokens_not_Nil: "and_term c \<Longrightarrow> cond_tokens c \<noteq> []"
  by (cases c) auto

lemma condition_text_tokens: assumes "wf_condition c" shows "condition_text c = join_sp (cond_tokens c)"
proof (cases c)
  case (And terms)
  with assms have t: "\<forall>t \<in> set terms. and_term t" by simp
  then have "map condition_text terms = map join_sp (map cond_tokens terms)"
    by (simp add: and_term_text)
  moreover have "\<forall>ts \<in> set (map cond_tokens terms). ts \<noteq> []"
    using t and_term_tokens_not_Nil by auto
  ultimately show ?thesis using And join_and_text[of "map cond_tokens terms"]
    by (simp only: condition_text.simps cond_tokens.simps)
qed (auto simp: value_text_join join_sp_append join_sp_Cons)

lemma arith_text_facts: "good_token (arith_text a) \<and> arith_text a \<notin> set comparators \<and> arith_text a \<noteq> ''and''"
  by (cases a) (simp_all add: good_token_def comparators_def is_space_def ord_def)

lemma cmp_text_good: "good_token (cmp_text c) \<and> cmp_text c \<noteq> ''and''"
  by (cases c) (simp_all add: good_token_def is_space_def ord_def)

lemma presence_text_good: "good_token (presence_text k) \<and> presence_text k \<noteq> ''and''"
  by (cases k) (simp_all add: good_token_def is_space_def ord_def)

lemma numeric_text_good: "good_token (numeric_text k) \<and> numeric_text k \<noteq> ''and''"
  by (cases k) (simp_all add: good_token_def is_space_def ord_def)

lemma plain_token_facts:
  "plain_token t \<Longrightarrow> good_token t \<and> t \<notin> set comparators \<and> t \<noteq> ''and''"
  by (simp add: plain_token_def)

lemma value_tokens_facts:
  "wf_val v \<Longrightarrow> t \<in> set (value_tokens v) \<Longrightarrow> good_token t \<and> t \<notin> set comparators \<and> t \<noteq> ''and''"
  by (cases v) (auto dest!: operand_plain plain_token_facts simp: arith_text_facts)

lemma cond_tokens_and_term:
  assumes "wf_condition c" and "\<forall>ts. c \<noteq> And ts" and "t \<in> set (cond_tokens c)"
  shows "good_token t \<and> t \<noteq> ''and''"
  using assms value_tokens_facts plain_token_facts reference_plain
  by (cases c) (auto simp: cmp_text_good presence_text_good numeric_text_good)

lemma cond_tokens_good:
  assumes "wf_condition c" and "t \<in> set (cond_tokens c)" shows "good_token t"
proof (cases c)
  case (And terms)
  with assms(2) join_chars[of t "[''and'']" "map cond_tokens terms"]
  have "t = ''and'' \<or> (\<exists>u \<in> set terms. t \<in> set (cond_tokens u))" by auto
  then show ?thesis
  proof
    assume "t = ''and''"
    then show ?thesis by (simp add: good_token_def is_space_def ord_def)
  next
    assume "\<exists>u \<in> set terms. t \<in> set (cond_tokens u)"
    then obtain u where u: "u \<in> set terms" "t \<in> set (cond_tokens u)" by blast
    with And assms(1) have "and_term u \<and> wf_condition u" by simp
    moreover from this have "\<forall>ts. u \<noteq> And ts" by auto
    ultimately show ?thesis using cond_tokens_and_term u by blast
  qed
qed (use assms cond_tokens_and_term[OF assms(1) _ assms(2)] in auto)

lemma parse_value_tokens_back: "wf_val v \<Longrightarrow> parse_value_tokens (value_tokens v) = Inr v"
  by (cases v) (auto simp: parse_value_tokens_def parse_operand_to_string)

lemma value_tokens_length: "length (value_tokens v) = 1 \<or> length (value_tokens v) = 3"
  by (cases v) auto

lemma parse_comparison_back:
  assumes "wf_val l" and "wf_val r"
  shows "parse_term (value_tokens l @ cmp_text c # value_tokens r) b = Inr (Comparison l c r)"
proof -
  let ?toks = "value_tokens l @ cmp_text c # value_tokens r"
  have "positions (\<lambda>t. t \<in> set comparators) ?toks = [length (value_tokens l)]"
    using assms value_tokens_facts by (intro positions_single) auto
  moreover have "length ?toks > 2" using value_tokens_length[of l] value_tokens_length[of r] by auto
  ultimately show ?thesis
    using assms by (simp add: parse_term_def parse_value_tokens_back)
qed

lemma parse_term_back:
  assumes "wf_condition c" and "and_term c \<or> (b \<and> (\<forall>ts. c \<noteq> And ts))"
  shows "parse_term (cond_tokens c) b = Inr c"
proof (cases c)
  case (Presence f k)
  with assms show ?thesis by (simp add: parse_term_def)
next
  case (NumericPredicate f k)
  with assms show ?thesis by (simp add: parse_term_def)
next
  case (Comparison l x r)
  with assms show ?thesis by (simp add: parse_comparison_back)
next
  case (And terms)
  with assms show ?thesis by auto
qed

lemma parse_and_back:
  assumes "wf_condition (And terms)"
  shows "parse_tokens (cond_tokens (And terms)) = Inr (And terms)"
proof -
  let ?g = "map cond_tokens terms"
  from assms have t: "\<And>t. t \<in> set terms \<Longrightarrow> and_term t \<and> wf_condition t" and len: "2 \<le> length terms"
    by simp_all
  have na: "\<And>t. t \<in> set terms \<Longrightarrow> ''and'' \<notin> set (cond_tokens t)"
  proof
    fix u assume "u \<in> set terms" "''and'' \<in> set (cond_tokens u)"
    moreover from this t have "wf_condition u" "\<forall>ts. u \<noteq> And ts" by force+
    ultimately show False using cond_tokens_and_term by blast
  qed
  have "split_on ''and'' (join [''and''] ?g) = ?g"
    using len na by (intro split_on_join_id) auto
  moreover have "[] \<notin> set ?g" using t and_term_tokens_not_Nil by force
  ultimately have s: "split_on_and (cond_tokens (And terms)) = Inr ?g"
    by (simp add: split_on_and_def)
  have m: "mapE (\<lambda>g. parse_term g False) ?g = Inr terms"
    unfolding mapE_Inr_iff list_all2_map1
    using t parse_term_back by (auto simp: list_all2_same)
  have k: "mk_And terms = Inr (And terms)" using t len by (auto simp: mk_And_def list_all_iff)
  from len obtain x y zs where "terms = x # y # zs"
    by (metis Suc_le_length_iff numeral_2_eq_2)
  with s m k show ?thesis by (simp add: parse_tokens_def)
qed

lemma parse_tokens_back:
  assumes "wf_condition c" shows "parse_tokens (cond_tokens c) = Inr c"
proof (cases "\<exists>ts. c = And ts")
  case True
  with assms parse_and_back show ?thesis by auto
next
  case False
  then have na: "''and'' \<notin> set (cond_tokens c)" using cond_tokens_and_term[OF assms] by blast
  have ne: "cond_tokens c \<noteq> []" using False by (cases c) auto
  from na ne have "split_on_and (cond_tokens c) = Inr [cond_tokens c]"
    by (simp add: split_on_and_def split_on_absent)
  with False assms parse_term_back[of c True] show ?thesis by (simp add: parse_tokens_def)
qed

lemma cond_tokens_not_Nil: "wf_condition c \<Longrightarrow> cond_tokens c \<noteq> []"
proof (cases c)
  case (And terms)
  assume "wf_condition c"
  with And obtain x y zs where "terms = x # y # zs" "and_term x"
    by (metis Suc_le_length_iff list.set_intros(1) numeral_2_eq_2 wf_condition.simps(4))
  with And and_term_tokens_not_Nil show ?thesis by simp
qed auto

lemma condition_reads_back:
  assumes "wf_condition c" shows "parse_condition (Some (condition_text c)) = Inr (Some c)"
proof -
  have sp: "split_ws (condition_text c) = cond_tokens c"
    using assms cond_tokens_good by (simp add: condition_text_tokens split_join)
  moreover have "strip (condition_text c) \<noteq> []"
    using sp cond_tokens_not_Nil[OF assms] split_Nil_strip[of "condition_text c"] by simp
  ultimately show ?thesis using assms by (simp add: parse_condition_def parse_tokens_back)
qed

section \<open>What the parser accepts is well formed\<close>

lemma parse_value_tokens_wf: "parse_value_tokens ts = Inr v \<Longrightarrow> wf_val v"
  by (auto simp: parse_value_tokens_def bindE_iffs split: list.splits option.splits
      dest!: parse_operand_wf)

lemma parse_term_wf:
  "parse_term ts b = Inr c \<Longrightarrow> wf_condition c \<and> (and_term c \<or> b) \<and> (\<forall>us. c \<noteq> And us)"
  by (auto simp: parse_term_def bindE_iffs split: if_splits option.splits list.splits
      dest!: parse_value_tokens_wf)

lemma mk_And_wf:
  assumes "mk_And terms = Inr c" and "\<forall>t \<in> set terms. wf_condition t" shows "wf_condition c"
  using assms by (auto simp: mk_And_def list_all_iff split: if_splits)

lemma parse_tokens_wf:
  assumes "parse_tokens ts = Inr c" shows "wf_condition c"
proof -
  from assms obtain groups where g: "split_on_and ts = Inr groups"
    and c: "(case groups of [g] \<Rightarrow> parse_term g True
       | _ \<Rightarrow> bindE (mapE (\<lambda>g. parse_term g False) groups) mk_And) = Inr c"
    unfolding parse_tokens_def by (elim bindE_Inr_E)
  show ?thesis
  proof (cases "length groups = 1")
    case True
    with c have "parse_term (hd groups) True = Inr c" by (simp only: case_singleton True refl if_True)
    then show ?thesis using parse_term_wf by blast
  next
    case False
    with c have "bindE (mapE (\<lambda>g. parse_term g False) groups) mk_And = Inr c"
      by (simp only: case_singleton if_False)
    then obtain terms where m: "mapE (\<lambda>g. parse_term g False) groups = Inr terms"
      and k: "mk_And terms = Inr c" by (elim bindE_Inr_E)
    have "\<forall>t \<in> set terms. wf_condition t"
    proof
      fix t assume "t \<in> set terms"
      with m obtain x where "parse_term x False = Inr t" by (blast dest: mapE_mem)
      with parse_term_wf show "wf_condition t" by blast
    qed
    with k show ?thesis by (rule mk_And_wf)
  qed
qed

lemma parse_condition_wf: "parse_condition text = Inr (Some c) \<Longrightarrow> wf_condition c"
  by (auto simp: parse_condition_def bindE_iffs split: option.splits if_splits dest: parse_tokens_wf)

section \<open>The condition codec\<close>

text \<open>
  The IR keeps a guard as its normalized text; \<open>condition_text\<close> writes it and
  \<open>read_condition\<close> is \<open>parse_condition\<close> on a text that holds a condition.
\<close>

definition read_condition :: "string \<Rightarrow> cond_exc + condition" where
  "read_condition s = bindE (parse_condition (Some s))
     (\<lambda>c. case c of None \<Rightarrow> Inl (ConditionError ConditionTooShort) | Some x \<Rightarrow> Inr x)"

interpretation cond_codec: codec condition_text read_condition wf_condition
proof
  fix c assume "wf_condition c"
  then show "read_condition (condition_text c) = Inr c"
    by (simp add: read_condition_def condition_reads_back)
next
  fix s c assume "read_condition s = Inr c"
  then show "wf_condition c"
    by (auto simp: read_condition_def bindE_iffs split: option.splits dest: parse_condition_wf)
qed

section \<open>Which exception a caller sees\<close>

definition is_ascii :: "string \<Rightarrow> bool" where
  "is_ascii s = list_all (\<lambda>c. ord c < 128) s"

definition ordinary_token :: "string \<Rightarrow> bool" where
  "ordinary_token t = (is_ascii t \<and> length t \<le> max_str_digits)"

lemma ascii_digits_int:
  assumes "str_isdigit s" and "ordinary_token s" shows "int_of_digits s \<noteq> None"
proof -
  have "is_decimal_c c" if "c \<in> set s" for c
  proof -
    from that assms have "is_digit_c c" "ord c < 128"
      by (simp_all add: str_isdigit_def ordinary_token_def is_ascii_def list_all_iff)
    then show ?thesis by (simp add: is_digit_c_def)
  qed
  then show ?thesis
    using assms(2) by (auto simp: int_of_digits_def list_all_iff ordinary_token_def)
qed

lemma ordinary_drop_suffix: "ordinary_token t \<Longrightarrow> ordinary_token (drop_suffix t u)"
  by (auto simp: ordinary_token_def is_ascii_def list_all_iff drop_suffix_def dest: in_set_takeD)

lemma duration_scan_ordinary:
  "ordinary_token tok \<Longrightarrow> duration_scan_ms sc tok = Inl e \<Longrightarrow> e = DurationOverflow tok"
proof (induction sc tok rule: duration_scan_ms.induct)
  case (2 unit mult rest tok)
  then show ?case
    using ascii_digits_int[of "drop_suffix tok unit"] ordinary_drop_suffix[of tok unit]
    by (auto split: if_splits option.splits)
qed simp

lemma parse_operand_ordinary:
  assumes "ordinary_token t" and "parse_operand t = Inl e" shows "\<exists>r. e = ConditionError r"
proof (cases "str_isdigit t")
  case True
  with assms ascii_digits_int[of t] show ?thesis
    by (auto simp: parse_operand_def split: option.splits if_splits)
next
  case False
  show ?thesis
  proof (cases "duration_ms_or_none t")
    case (Inl d)
    then have "d = DurationOverflow t"
      using assms(1) duration_scan_ordinary by (simp add: duration_ms_or_none_def)
    with Inl False assms(2) show ?thesis by (auto simp: parse_operand_def)
  next
    case (Inr r)
    with False assms(2) show ?thesis
      by (auto simp: parse_operand_def split: option.splits if_splits)
  qed
qed

lemma parse_value_tokens_ordinary:
  "\<forall>t \<in> set ts. ordinary_token t \<Longrightarrow> parse_value_tokens ts = Inl e \<Longrightarrow> \<exists>r. e = ConditionError r"
  by (auto simp: parse_value_tokens_def bindE_iffs split: list.splits option.splits
      dest: parse_operand_ordinary)

lemma positions_comparator: "positions p ts = [i] \<Longrightarrow> p (ts ! i)"
  using positions_bound[of i p ts] by simp

lemma parse_comparison_ordinary:
  assumes "positions (\<lambda>t. t \<in> set comparators) ts = [i]" and "\<forall>t \<in> set ts. ordinary_token t"
    and "bindE (parse_value_tokens (take i ts)) (\<lambda>left.
      bindE (parse_value_tokens (drop (Suc i) ts)) (\<lambda>right.
        (case cmp_of_token (ts ! i) of
           None \<Rightarrow> Inl (ValueErr (ts ! i)) | Some c \<Rightarrow> Inr (Comparison left c right)))) = Inl e"
  shows "\<exists>r. e = ConditionError r"
proof -
  obtain c where "cmp_of_token (ts ! i) = Some c"
    using positions_comparator[OF assms(1)] cmp_token_defined by blast
  moreover have "\<forall>t \<in> set (take i ts). ordinary_token t" "\<forall>t \<in> set (drop (Suc i) ts). ordinary_token t"
    using assms(2) by (auto dest: in_set_takeD in_set_dropD)
  ultimately show ?thesis
    using assms(3) parse_value_tokens_ordinary by (fastforce simp: bindE_iffs)
qed

lemma parse_term_ordinary:
  assumes "\<forall>t \<in> set ts. ordinary_token t" and "parse_term ts b = Inl e"
  shows "\<exists>r. e = ConditionError r"
proof (cases "length ts < 2 \<or> length ts = 2 \<and> ts ! 1 \<in> set presence_kinds \<union> set numeric_predicate_kinds")
  case True
  then show ?thesis
    using assms(2) presence_token_defined[of "ts ! 1"] numeric_token_defined[of "ts ! 1"]
    by (auto simp: parse_term_def split: if_splits option.splits)
next
  case False
  then show ?thesis
    using assms parse_comparison_ordinary[of ts]
    by (auto simp: parse_term_def split: if_splits list.splits)
qed

lemma parse_tokens_ordinary:
  assumes "\<forall>t \<in> set ts. ordinary_token t" and "parse_tokens ts = Inl e"
  shows "\<exists>r. e = ConditionError r"
proof (cases "split_on_and ts")
  case (Inl x)
  with assms(2) show ?thesis by (auto simp: parse_tokens_def split_on_and_def Let_def split: if_splits)
next
  case (Inr groups)
  have sub: "\<forall>t \<in> set g. ordinary_token t" if "g \<in> set groups" for g
    using that Inr assms(1) split_on_chars[of g "''and''" ts]
    by (auto simp: split_on_and_def Let_def split: if_splits)
  have gne: "groups \<noteq> []" using Inr by (auto simp: split_on_and_def Let_def split: if_splits)
  show ?thesis
  proof (cases "length groups = 1")
    case True
    with Inr assms(2) have "parse_term (hd groups) True = Inl e"
      by (simp only: parse_tokens_def bindE_simps case_singleton True refl if_True)
    moreover have "hd groups \<in> set groups" using gne by simp
    then have "\<forall>t \<in> set (hd groups). ordinary_token t" by (rule sub)
    ultimately show ?thesis by (blast intro: parse_term_ordinary)
  next
    case False
    with Inr assms(2) have "bindE (mapE (\<lambda>g. parse_term g False) groups) mk_And = Inl e"
      by (simp only: parse_tokens_def bindE_simps case_singleton if_False)
    then consider "mapE (\<lambda>g. parse_term g False) groups = Inl e"
      | terms where "mapE (\<lambda>g. parse_term g False) groups = Inr terms" "mk_And terms = Inl e"
      by (auto simp: bindE_iffs)
    then show ?thesis
    proof cases
      case 1
      then obtain g where "g \<in> set groups" and "parse_term g False = Inl e"
        by (blast dest: mapE_error)
      with sub show ?thesis by (blast intro: parse_term_ordinary)
    next
      case 2
      have "\<forall>t \<in> set terms. and_term t"
      proof
        fix t assume "t \<in> set terms"
        with 2(1) obtain x where "parse_term x False = Inr t" by (blast dest: mapE_mem)
        with parse_term_wf[of x False t] show "and_term t" by blast
      qed
      moreover have "2 \<le> length terms"
        using mapE_length[OF 2(1)] False gne by (cases groups; cases "tl groups") auto
      ultimately have "mk_And terms = Inr (And terms)" by (simp add: mk_And_def list_all_iff)
      with 2(2) show ?thesis by simp
    qed
  qed
qed

section \<open>References of a parsed condition\<close>

lemma value_refs_ok: "wf_val v \<Longrightarrow> n \<in> set (value_refs v) \<Longrightarrow> is_reference_name n"
proof (cases v)
  case (Operand x)
  then show "wf_val v \<Longrightarrow> n \<in> set (value_refs v) \<Longrightarrow> is_reference_name n" by (cases x) auto
next
  case (Arith l a r)
  then show "wf_val v \<Longrightarrow> n \<in> set (value_refs v) \<Longrightarrow> is_reference_name n"
    by (cases l; cases r) auto
qed

lemma references_ok: "wf_condition c \<Longrightarrow> n \<in> set (references c) \<Longrightarrow> is_reference_name n"
  by (induction c rule: references.induct) (auto dest: value_refs_ok)

end
