(* ===== verification/ParserFacts.thy ===== *)
theory ParserFacts
  imports Parser BodyFacts ConditionFacts
begin

text \<open>
  What \<open>parse\<close> promises of a whole source: the declarations are the chunks between declaration
  keywords, in order, and every other significant line is found again in exactly the place its
  chunk gives it (the body, a clause, or a section of a \<open>spec\<close> block).
\<close>

section \<open>Reading the source by chunks\<close>

definition is_top :: "line \<Rightarrow> bool" where
  "is_top l = head_in l keywords_top"

definition is_clause_opener :: "line \<Rightarrow> bool" where
  "is_clause_opener l = (head_in l keywords_clause \<and> length (tokens l) = 1)"

text \<open>A declaration line with the lines up to the next one.\<close>

definition add_line :: "line \<Rightarrow> (line \<times> line list) list \<Rightarrow> (line \<times> line list) list" where
  "add_line l cs = (if is_top l then cs @ [(l, [])] else update_last (\<lambda>(h, b). (h, b @ [l])) cs)"

definition chunks :: "line list \<Rightarrow> (line \<times> line list) list" where
  "chunks ls = fold add_line ls []"

text \<open>The clause keyword in force at the end of a chunk, and the lines each one governs.\<close>

definition next_tag :: "string option \<Rightarrow> line \<Rightarrow> string option" where
  "next_tag t l = (if is_clause_opener l then line_head l else t)"

fun tag_of :: "string option \<Rightarrow> line list \<Rightarrow> string option" where
  "tag_of t [] = t"
| "tag_of t (l # ls) = tag_of (next_tag t l) ls"

fun governed :: "string option \<Rightarrow> string option \<Rightarrow> line list \<Rightarrow> line list" where
  "governed k t [] = []"
| "governed k t (l # ls) = (if \<not> is_clause_opener l \<and> t = k then [l] else []) @ governed k (next_tag t l) ls"

lemma tag_of_snoc: "tag_of t (ls @ [l]) = next_tag (tag_of t ls) l"
  by (induction ls arbitrary: t) simp_all

lemma governed_snoc:
  "governed k t (ls @ [l]) = governed k t ls @ (if \<not> is_clause_opener l \<and> tag_of t ls = k then [l] else [])"
  by (induction ls arbitrary: t) simp_all

text \<open>Where a declaration keeps the lines of one clause.\<close>

definition dlist :: "(string, line list) dict \<Rightarrow> string \<Rightarrow> line list" where
  "dlist d k = (case dget d k of None \<Rightarrow> [] | Some ls \<Rightarrow> ls)"

definition decl_section :: "decl \<Rightarrow> string \<Rightarrow> line list" where
  "decl_section d k =
     (if d_kind d = ''workflow'' \<and> k \<in> set spec_sections
      then concat (map (\<lambda>b. dlist (s_lines b) k) (d_specs d)) else dlist (d_clauses d) k)"

definition body_text :: "decl \<Rightarrow> string list list" where
  "body_text d = items_tokens (block_tokens (d_body d)) (items (d_body d))"

definition header_name :: "line \<Rightarrow> string" where
  "header_name h = (if hd (tokens h) = ''capability'' \<and> tokens h ! 1 = ''http'' then tokens h ! 2 else tokens h ! 1)"

definition header_says :: "line \<Rightarrow> decl \<Rightarrow> bool" where
  "header_says h d \<longleftrightarrow> d_kind d = hd (tokens h) \<and> d_name d = header_name h \<and> d_lineno d = lineno h"

definition chunk_says :: "line \<times> line list \<Rightarrow> decl \<Rightarrow> bool" where
  "chunk_says c d \<longleftrightarrow> (case c of (h, b) \<Rightarrow>
     header_says h d \<and> (\<forall>k. decl_section d k = governed (Some k) None b) \<and>
     (if d_kind d = ''workflow'' then body_text d = map kept_tokens (governed None None b)
      else d_lines d = governed None None b))"

section \<open>The invariant of the loop\<close>

definition decl_inv :: "line \<times> line list \<Rightarrow> decl \<Rightarrow> bool" where
  "decl_inv c d \<longleftrightarrow> (case c of (h, b) \<Rightarrow>
     header_says h d \<and> (\<forall>k. decl_section d k = governed (Some k) None b) \<and>
     body_inv (d_body d) \<and> guards_inv (d_body d) \<and>
     (if d_kind d = ''workflow'' then state_tokens (d_body d) = map kept_tokens (governed None None b)
      else d_lines d = governed None None b \<and> d_body d = empty_body))"

definition parser_inv :: "(line \<times> line list) list \<Rightarrow> parser \<Rightarrow> bool" where
  "parser_inv cs p \<longleftrightarrow> list_all2 decl_inv cs (decls_of p) \<and>
     (\<forall>d. p_cur p = Some d \<longrightarrow> cs \<noteq> [] \<and> p_clause p = tag_of None (snd (last cs)) \<and>
        (d_kind d = ''workflow'' \<and> p_clause p \<in> Some ` set spec_sections \<longrightarrow> d_specs d \<noteq> []))"

lemma dlist_append_key: "dlist (append_key k l d) j = dlist d j @ (if j = k then [l] else [])"
  by (auto simp: dlist_def append_key_def dget_dset split: option.splits)

lemma dlist_setdefault: "dlist (dsetdefault k [] d) j = dlist d j"
  by (auto simp: dlist_def map_of_dsetdefault split: option.splits)

lemma update_last_snoc [simp]: "update_last f (xs @ [x]) = xs @ [f x]"
  by (simp add: update_last_def)

lemma update_last_concat:
  assumes "xs \<noteq> []" and "g (f (last xs)) = g (last xs) @ extra"
  shows "concat (map g (update_last f xs)) = concat (map g xs) @ extra"
proof -
  obtain ys y where "xs = ys @ [y]" using assms(1) by (metis append_butlast_last_id)
  with assms(2) show ?thesis by simp
qed

lemma guards_inv_empty: "guards_inv empty_body"
  by (simp add: guards_inv_def empty_body_def)

lemma new_decl_fields [simp]:
  "d_kind (new_decl k n i) = k" "d_name (new_decl k n i) = n" "d_lineno (new_decl k n i) = i"
  "d_body (new_decl k n i) = empty_body" "d_lines (new_decl k n i) = []"
  "d_clauses (new_decl k n i) = []" "d_specs (new_decl k n i) = []"
  by (simp_all add: new_decl_def)

lemma declaration_tail_fields:
  "declaration_tail head l d = Inr d' \<Longrightarrow>
     d_kind d' = d_kind d \<and> d_name d' = d_name d \<and> d_lineno d' = d_lineno d \<and> d_body d' = d_body d \<and>
     d_lines d' = d_lines d \<and> d_clauses d' = d_clauses d \<and> d_specs d' = d_specs d"
  unfolding declaration_tail_def event_source_def Let_def
  by (simp split: if_splits) (auto split: if_splits)

lemma decls_of_open [simp]: "decls_of (open_decl p d) = decls_of p @ [d]"
  by (simp add: decls_of_def open_decl_def)

lemma open_decl_fields [simp]: "p_cur (open_decl p d) = Some d" "p_clause (open_decl p d) = None"
  by (simp_all add: open_decl_def)

lemma top_line_inv:
  assumes "top_line p (hd (tokens l)) l = Inr p'" and "parser_inv cs p" and "is_top l"
  shows "parser_inv (add_line l cs) p'"
proof -
  have "\<exists>d. p' = open_decl p d \<and> header_says l d \<and> d_body d = empty_body \<and> d_lines d = [] \<and>
      d_clauses d = [] \<and> d_specs d = []"
  proof (cases "hd (tokens l) = ''capability'' \<and> length (tokens l) > 1 \<and> tokens l ! 1 = ''http''")
    case True
    with assms(1) show ?thesis
      by (auto simp: top_line_def header_says_def header_name_def split: if_splits)
  next
    case False
    with assms(1) obtain d where len: "\<not> length (tokens l) < 2"
      and d: "declaration_tail (hd (tokens l)) l (new_decl (hd (tokens l)) (tokens l ! 1) (lineno l)) = Inr d"
      and p': "p' = open_decl p d"
      by (auto simp: top_line_def require_name_def bindE_iffs split: if_splits)
    from declaration_tail_fields[OF d] False len p' show ?thesis
      by (auto simp: header_says_def header_name_def)
  qed
  then obtain d where d: "p' = open_decl p d" "header_says l d" "d_body d = empty_body" "d_lines d = []"
      "d_clauses d = []" "d_specs d = []" by blast
  have "decl_inv (l, []) d"
    using d by (simp add: decl_inv_def empty_body_inv guards_inv_empty empty_body_tokens decl_section_def dlist_def)
  with assms d(1) show ?thesis
    by (auto simp: parser_inv_def add_line_def intro: list_all2_appendI)
qed

lemma parser_inv_cur:
  assumes "parser_inv cs p" and "p_cur p = Some d"
  obtains cs' h b where "cs = cs' @ [(h, b)]" "list_all2 decl_inv cs' (p_done p)" "decl_inv (h, b) d"
    "p_clause p = tag_of None b"
    "d_kind d = ''workflow'' \<and> p_clause p \<in> Some ` set spec_sections \<Longrightarrow> d_specs d \<noteq> []"
proof -
  from assms have ne: "cs \<noteq> []" and all: "list_all2 decl_inv cs (p_done p @ [d])"
    by (auto simp: parser_inv_def decls_of_def)
  from ne obtain cs' h b where cs: "cs = cs' @ [(h, b)]" by (metis append_butlast_last_id surj_pair)
  with all have "list_all2 decl_inv cs' (p_done p)" "decl_inv (h, b) d"
    by (auto simp: list_all2_append1 list_all2_Cons1 append_eq_Cons_conv dest: list_all2_lengthD)
  with that cs assms show thesis by (simp add: parser_inv_def)
qed

lemma keep_cur:
  assumes "list_all2 decl_inv cs' (p_done p)" and "decl_inv (h, b @ [l]) d'" and "\<not> is_top l"
    and "p' = p\<lparr>p_cur := Some d', p_clause := tag_of None (b @ [l])\<rparr>"
    and "d_kind d' = ''workflow'' \<and> tag_of None (b @ [l]) \<in> Some ` set spec_sections \<Longrightarrow> d_specs d' \<noteq> []"
  shows "parser_inv (add_line l (cs' @ [(h, b)])) p'"
  using assms by (auto simp: parser_inv_def add_line_def decls_of_def intro: list_all2_appendI)

lemma opener_head: "is_clause_opener l \<Longrightarrow> line_head l = Some (hd (tokens l))"
  by (auto simp: is_clause_opener_def head_in_def line_head_def split: option.splits list.splits)

lemma clause_spec_cases:
  assumes "clause_spec k l d = Inr d'"
  obtains (new) "d' = d\<lparr>d_specs := d_specs d @ [new_spec l]\<rparr>"
    | (old) "d_specs d \<noteq> []" "d' = d\<lparr>d_specs := update_last
        (\<lambda>b. b\<lparr>s_opened := s_opened b @ [k], s_section_indent := Some (indent l)\<rparr>) (d_specs d)\<rparr>"
    | (same) "d' = d"
proof (cases "d_kind d = ''workflow'' \<and> k = ''spec''")
  case True
  with assms have "d' = d\<lparr>d_specs := d_specs d @ [new_spec l]\<rparr>" by (simp add: clause_spec_def)
  then show ?thesis by (rule new)
next
  case not_new: False
  show ?thesis
  proof (cases "d_kind d = ''workflow'' \<and> k \<in> set spec_sections \<and> d_specs d \<noteq> []")
    case True
    then have ne: "d_specs d \<noteq> []" by blast
    from True not_new assms have "d' = d\<lparr>d_specs := update_last
        (\<lambda>b. b\<lparr>s_opened := s_opened b @ [k], s_section_indent := Some (indent l)\<rparr>) (d_specs d)\<rparr>"
      unfolding clause_spec_def by (simp only: if_True if_False sum.simps simp_thms split: if_splits)
    with ne show ?thesis by (rule old)
  next
    case False
    with not_new assms have "d' = d"
      unfolding clause_spec_def by (simp only: if_False sum.simps)
    then show ?thesis by (rule same)
  qed
qed

lemma clause_spec_inv:
  assumes "clause_spec k l d = Inr d'" and "decl_inv (h, b) d" and "is_clause_opener l"
  shows "decl_inv (h, b @ [l]) (d'\<lparr>d_clauses := dsetdefault k [] (d_clauses d')\<rparr>)"
proof -
  have sec: "decl_section (d'\<lparr>d_clauses := dsetdefault k [] (d_clauses d')\<rparr>) j = decl_section d j" for j
    using assms(1)
  proof (cases rule: clause_spec_cases)
      case new
      have "dlist (s_lines (new_spec l)) j = []" by (simp add: dlist_def new_spec_def)
      then show ?thesis by (simp add: new decl_section_def dlist_setdefault)
    next
      case old
      then show ?thesis
        by (simp add: decl_section_def dlist_setdefault update_last_concat[where extra = "[]", simplified])
    qed (simp add: decl_section_def dlist_setdefault)
  from assms(1) have rest: "d_kind d' = d_kind d" "d_name d' = d_name d" "d_lineno d' = d_lineno d"
    "d_body d' = d_body d" "d_lines d' = d_lines d"
    by (cases rule: clause_spec_cases; simp)+
  show ?thesis
    using assms(2,3) rest by (simp add: decl_inv_def sec header_says_def governed_snoc cong: if_cong)
qed

lemma clause_line_inv:
  assumes "clause_line p d (hd (tokens l)) l = Inr p'" and "parser_inv cs p" and "p_cur p = Some d"
    and "is_clause_opener l" and "\<not> is_top l"
  shows "parser_inv (add_line l cs) p'"
proof -
  obtain cs' h b where cs: "cs = cs' @ [(h, b)]" "list_all2 decl_inv cs' (p_done p)" "decl_inv (h, b) d"
    using parser_inv_cur[OF assms(2,3)] by metis
  from assms(1) obtain d1 where k: "d_kind d = ''workflow'' \<and> hd (tokens l) \<in> set spec_sections \<longrightarrow> d_specs d \<noteq> []"
    and d1: "clause_spec (hd (tokens l)) l d = Inr d1"
    and p': "p' = p\<lparr>p_clause := Some (hd (tokens l)),
        p_cur := Some (d1\<lparr>d_clauses := dsetdefault (hd (tokens l)) [] (d_clauses d1)\<rparr>)\<rparr>"
    by (auto simp: clause_line_def bindE_iffs split: if_splits)
  have tag: "tag_of None (b @ [l]) = Some (hd (tokens l))"
    using opener_head[OF assms(4)] assms(4) by (simp add: tag_of_snoc next_tag_def)
  have "d_kind d1 = ''workflow'' \<and> hd (tokens l) \<in> set spec_sections \<Longrightarrow> d_specs d1 \<noteq> []"
    using d1 k by (cases rule: clause_spec_cases) (auto simp: update_last_def)
  then show ?thesis
    unfolding cs(1) using clause_spec_inv[OF d1 cs(3) assms(4)] p' tag
    by (intro keep_cur[OF cs(2) _ assms(5)]) auto
qed

lemma content_line_inv:
  assumes "content_line d t l = Inr d'" and "decl_inv (h, b) d" and "\<not> is_clause_opener l" and "line_ok l"
    and "t = tag_of None b" and "d_kind d = ''workflow'' \<and> t \<in> Some ` set spec_sections \<Longrightarrow> d_specs d \<noteq> []"
  shows "decl_inv (h, b @ [l]) d' \<and> d_kind d' = d_kind d \<and> (d_specs d \<noteq> [] \<longrightarrow> d_specs d' \<noteq> [])"
proof (cases t)
  case None
  then have nos: "governed (Some k) None (b @ [l]) = governed (Some k) None b" for k
    using assms(5) by (simp add: governed_snoc)
  have yes: "governed None None (b @ [l]) = governed None None b @ [l]"
    using None assms(3,5) by (simp add: governed_snoc)
  show ?thesis
  proof (cases "d_kind d = ''workflow''")
    case True
    with None assms(1) obtain y where y: "append_workflow_item (d_body d) l = Inr y" and d': "d' = d\<lparr>d_body := y\<rparr>"
      by (auto simp: content_line_def split: sum.splits)
    from assms(2) True have i: "body_inv (d_body d)" "guards_inv (d_body d)"
      "state_tokens (d_body d) = map kept_tokens (governed None None b)" by (simp_all add: decl_inv_def)
    have sec: "decl_section (d\<lparr>d_body := y\<rparr>) k = decl_section d k" for k by (simp add: decl_section_def)
    from append_item_ok[OF i(1) assms(4) y] append_item_guards[OF y i(2)] i(3)
    show ?thesis using assms(2) True
      by (simp add: decl_inv_def d' nos yes sec header_says_def)
  next
    case False
    with None assms(1) have "d' = d\<lparr>d_lines := d_lines d @ [l]\<rparr>"
      by (auto simp: content_line_def split: if_splits)
    moreover have "decl_section (d\<lparr>d_lines := x\<rparr>) k = decl_section d k" for k x
      by (simp add: decl_section_def)
    ultimately show ?thesis using False assms(2)
      by (simp add: decl_inv_def nos yes header_says_def empty_body_inv guards_inv_empty)
  qed
next
  case (Some k)
  have gov: "governed (Some j) None (b @ [l]) = governed (Some j) None b @ (if j = k then [l] else [])" for j
    using Some assms(3,5) by (auto simp: governed_snoc)
  have no: "governed None None (b @ [l]) = governed None None b"
    using Some assms(5) by (simp add: governed_snoc)
  show ?thesis
  proof (cases "d_kind d = ''workflow'' \<and> k \<in> set spec_sections")
    case True
    with Some assms(6) have ne: "d_specs d \<noteq> []" by blast
    with True Some assms(1) have d': "d' = d\<lparr>d_specs := update_last (\<lambda>b. b\<lparr>s_lines := append_key k l (s_lines b)\<rparr>) (d_specs d)\<rparr>"
      by (auto simp: content_line_def spec_content_def Let_def split: if_splits)
    have "decl_section d' j = decl_section d j @ (if j = k then [l] else [])" for j
      using True ne unfolding decl_section_def d'
      by (auto simp: dlist_append_key update_last_concat[where extra = "[l]"] update_last_concat[where extra = "[]", simplified])
    with True assms(2) ne show ?thesis
      by (auto simp: decl_inv_def gov no d' header_says_def update_last_def)
  next
    case False
    with Some assms(1) have d': "d' = d\<lparr>d_clauses := append_key k l (d_clauses d)\<rparr>"
      by (auto simp: content_line_def split: if_splits)
    have "decl_section d' j = decl_section d j @ (if j = k then [l] else [])" for j
      using False unfolding decl_section_def d' by (auto simp: dlist_append_key)
    with assms(2) show ?thesis
      by (auto simp: decl_inv_def gov no d' header_says_def)
  qed
qed

lemma parse_line_inv:
  assumes "parse_line l p = Inr p'" and "parser_inv cs p" and "line_ok l"
  shows "parser_inv (add_line l cs) p'"
proof (cases "is_top l")
  case True
  with assms(1) have "top_line p (hd (tokens l)) l = Inr p'" by (simp add: parse_line_def is_top_def)
  from top_line_inv[OF this assms(2) True] show ?thesis .
next
  case False
  with assms(1) obtain d where d: "p_cur p = Some d"
    by (auto simp: parse_line_def is_top_def split: option.splits)
  show ?thesis
  proof (cases "is_clause_opener l")
    case True
    with assms(1) False d have "clause_line p d (hd (tokens l)) l = Inr p'"
      by (simp add: parse_line_def is_top_def is_clause_opener_def)
    from clause_line_inv[OF this assms(2) d True False] show ?thesis .
  next
    case no: False
    with assms(1) False d obtain d' where d': "content_line d (p_clause p) l = Inr d'"
      and p': "p' = p\<lparr>p_cur := Some d'\<rparr>"
      by (auto simp: parse_line_def is_top_def is_clause_opener_def bindE_iffs split: if_splits)
    obtain cs' h b where cs: "cs = cs' @ [(h, b)]" "list_all2 decl_inv cs' (p_done p)" "decl_inv (h, b) d"
      "p_clause p = tag_of None b"
      "d_kind d = ''workflow'' \<and> p_clause p \<in> Some ` set spec_sections \<Longrightarrow> d_specs d \<noteq> []"
      using parser_inv_cur[OF assms(2) d] by metis
    from content_line_inv[OF d' cs(3) no assms(3) cs(4,5)]
    have c: "decl_inv (h, b @ [l]) d'" "d_kind d' = d_kind d" "d_specs d \<noteq> [] \<longrightarrow> d_specs d' \<noteq> []" by blast+
    have tag: "tag_of None (b @ [l]) = p_clause p" using no cs(4) by (simp add: tag_of_snoc next_tag_def)
    show ?thesis
      unfolding cs(1) by (rule keep_cur[OF cs(2) c(1) False]) (use p' tag c cs(5) in auto)
  qed
qed

lemma fold_inv:
  assumes "foldE parse_line ls p = Inr p'" and "parser_inv cs p" and "\<forall>l \<in> set ls. line_ok l"
  shows "parser_inv (fold add_line ls cs) p'"
  using assms
proof (induction ls arbitrary: p cs)
  case (Cons l ls)
  from Cons.prems(1) obtain q where q: "parse_line l p = Inr q" "foldE parse_line ls q = Inr p'"
    by (auto simp: bindE_iffs)
  from parse_line_inv[OF q(1) Cons.prems(2)] Cons.prems(3) have "parser_inv (add_line l cs) q" by simp
  with Cons.IH[OF q(2)] Cons.prems(3) show ?case by simp
qed simp

definition guards_closed :: "decl \<Rightarrow> bool" where
  "guards_closed d \<longleftrightarrow> list_all item_guard_ok (items (d_body d)) \<and>
     items_refs (items (d_body d)) = [0..<length (heap (d_body d))] \<and>
     pending_guard (d_body d) = None \<and> pending_otherwise (d_body d) = None \<and> open_block (d_body d) = None"

lemma finish_decl_says:
  assumes "decl_inv c d" and "finish_decl d = Inr d'"
  shows "chunk_says c d' \<and> guards_closed d'"
proof -
  obtain h b where c: "c = (h, b)" by (cases c)
  from assms(2) obtain y where y: "close_body (d_body d) = Inr y"
    and d': "d' = d\<lparr>d_body := y, d_specs := map finish_spec (d_specs d)\<rparr>"
    by (auto simp: finish_decl_def split: sum.splits)
  from assms(1) have inv: "body_inv (d_body d)" "guards_inv (d_body d)" by (simp_all add: decl_inv_def c)
  note cl = close_body_ok[OF inv(1) y]
  have "decl_section d' k = decl_section d k" for k
    by (simp add: decl_section_def d' comp_def finish_spec_def)
  moreover have "guards_closed d'"
    using cl inv(2) by (auto simp: guards_closed_def d' guards_inv_def)
  ultimately show ?thesis
    using assms(1) cl by (auto simp: chunk_says_def decl_inv_def c d' header_says_def body_text_def)
qed

lemma parse_lines_says:
  assumes "parse_lines ls = Inr ds" and "\<forall>l \<in> set ls. line_ok l"
  shows "list_all2 chunk_says (chunks ls) ds \<and> list_all guards_closed ds"
proof -
  from assms(1) obtain p where p: "foldE parse_line ls empty_parser = Inr p" "mapE finish_decl (decls_of p) = Inr ds"
    by (auto simp: parse_lines_def bindE_iffs)
  have "parser_inv [] empty_parser" by (simp add: parser_inv_def empty_parser_def decls_of_def)
  from fold_inv[OF p(1) this assms(2)] have inv: "list_all2 decl_inv (chunks ls) (decls_of p)"
    by (simp add: parser_inv_def chunks_def)
  from p(2) have "list_all2 (\<lambda>d d'. finish_decl d = Inr d') (decls_of p) ds" by (simp add: mapE_Inr_iff)
  with inv have "list_all2 (\<lambda>c d'. chunk_says c d' \<and> guards_closed d') (chunks ls) ds"
    by (rule list_all2_trans[rotated 1]) (use finish_decl_says in blast)
  then show ?thesis
    by (auto simp: list_all2_conv_all_nth list_all_length)
qed

section \<open>Exceptions the parser lets through\<close>

definition ordinary_line :: "line \<Rightarrow> bool" where
  "ordinary_line l = list_all ordinary_token (tokens l)"

lemma validate_condition_ordinary:
  assumes "line_ok l" and "ordinary_line l"
  shows "validate_condition l (join_sp (tl (tokens l))) \<noteq> Inl (BodyRaised e)"
proof
  assume "validate_condition l (join_sp (tl (tokens l))) = Inl (BodyRaised e)"
  then have "parse_condition (Some (join_sp (tl (tokens l)))) = Inl e" and ne: "\<nexists>r. e = ConditionError r"
    by (auto simp: validate_condition_def split: sum.splits cond_exc.splits)
  then have "parse_tokens (tl (tokens l)) = Inl e"
    using split_join_tl[OF assms(1)] by (auto simp: parse_condition_def bindE_iffs split: if_splits)
  moreover have "\<forall>t \<in> set (tl (tokens l)). ordinary_token t"
    using assms(2) by (cases "tokens l") (auto simp: ordinary_line_def list_all_iff)
  ultimately show False using parse_tokens_ordinary ne by blast
qed

lemma attach_no_raise: "attach st x l \<noteq> Inl (BodyRaised e)"
  by (auto simp: attach_def check_guard_layout_def Let_def bindE_iffs split: option.splits body.splits if_splits)

lemma check_pipeline_no_raise: "check_pipeline_layout st l \<noteq> Inl (BodyRaised e)"
  by (auto simp: check_pipeline_layout_def split: option.splits)

lemma check_guard_no_raise: "check_guard_layout st l \<noteq> Inl (BodyRaised e)"
  by (auto simp: check_guard_layout_def split: option.splits)

lemmas no_raise = attach_no_raise check_pipeline_no_raise check_guard_no_raise

lemma append_item_ordinary:
  assumes "line_ok l" and "ordinary_line l"
  shows "append_workflow_item st l \<noteq> Inl (BodyRaised e)"
proof
  assume a: "append_workflow_item st l = Inl (BodyRaised e)"
  consider (merge) "merge_line st l = Inl (BodyRaised e)"
    | (block) "block_line st l = Inl (BodyRaised e)"
    | (guard) "guard_line st l = Inl (BodyRaised e)"
    | (alt) g where "alternative_line st l g = Inl (BodyRaised e)"
    | (owise) "otherwise_line st l = Inl (BodyRaised e)"
    | (step) "attach st (Step l) l = Inl (BodyRaised e)"
    using a unfolding append_workflow_item_def by (auto split: if_splits option.splits)
  then show False
  proof cases
    case merge
    then show ?thesis by (simp add: merge_line_def split: if_splits)
  next
    case block
    then show ?thesis by (auto simp: block_line_def Let_def bindE_iffs no_raise split: if_splits)
  next
    case guard
    then show ?thesis
      using validate_condition_ordinary[OF assms]
      by (auto simp: guard_line_def Let_def bindE_iffs no_raise split: if_splits option.splits)
  next
    case alt
    then show ?thesis
      using validate_condition_ordinary[OF assms]
      by (auto simp: alternative_line_def Let_def bindE_iffs split: if_splits)
  next
    case owise
    then show ?thesis
      by (auto simp: otherwise_line_def bindE_iffs no_raise split: if_splits option.splits)
  qed (simp add: no_raise)
qed

lemma clause_line_no_body: "clause_line p d k l \<noteq> Inl (BodyFailure x)"
  by (simp add: clause_line_def clause_spec_def bindE_iffs split: if_splits)

lemma top_line_no_body: "top_line p k l \<noteq> Inl (BodyFailure x)"
  by (simp add: top_line_def declaration_tail_def event_source_def require_name_def bindE_iffs Let_def split: if_splits)

lemma content_line_ordinary:
  assumes "line_ok l" and "ordinary_line l"
  shows "content_line d t l \<noteq> Inl (BodyFailure (BodyRaised e))"
  using append_item_ordinary[OF assms]
  by (auto simp: content_line_def spec_content_def Let_def split: option.splits sum.splits if_splits)

lemma parse_line_ordinary:
  assumes "line_ok l" and "ordinary_line l"
  shows "parse_line l p \<noteq> Inl (BodyFailure (BodyRaised e))"
  using content_line_ordinary[OF assms] clause_line_no_body top_line_no_body
  by (auto simp: parse_line_def bindE_iffs split: option.splits)

lemma foldE_parse_ordinary:
  "\<forall>l \<in> set ls. line_ok l \<and> ordinary_line l \<Longrightarrow> foldE parse_line ls p \<noteq> Inl (BodyFailure (BodyRaised e))"
  by (induction ls arbitrary: p) (auto simp: bindE_iffs parse_line_ordinary)

lemma finish_decl_no_raise: "finish_decl d \<noteq> Inl (BodyFailure x)"
  by (simp add: finish_decl_def split: sum.splits)

lemma parse_lines_ordinary:
  "\<forall>l \<in> set ls. line_ok l \<and> ordinary_line l \<Longrightarrow> parse_lines ls \<noteq> Inl (BodyFailure (BodyRaised e))"
  using foldE_parse_ordinary
  by (auto simp: parse_lines_def bindE_iffs finish_decl_no_raise dest!: mapE_error)

text \<open>The lines \<open>tokenize\<close> returns.\<close>

lemma tokenize_line_ok_all: "tokenize s = Inr ls \<Longrightarrow> \<forall>l \<in> set ls. line_ok l"
  using tokenize_lines_ok[of 1 "splitlines s" ls] by (auto simp: tokenize_def)

lemma tokenize_raw:
  assumes "tokenize s = Inr ls" and "l \<in> set ls"
  shows "raw l \<in> set (splitlines s) \<and> tokens l = split_ws (strip_comment (raw l))"
  using tokenize_lines_ok[of 1 "splitlines s" ls] assms by (fastforce simp: tokenize_def line_ok_def)

lemma strip_comment_length: "length (strip_comment s) \<le> length s"
  by (simp add: strip_comment_def length_takeWhile_le)

definition plain_source :: "string \<Rightarrow> bool" where
  "plain_source s = (is_ascii s \<and> list_all (\<lambda>r. length r \<le> max_str_digits) (splitlines s))"

lemma plain_source_lines:
  assumes "plain_source s" and "tokenize s = Inr ls" and "l \<in> set ls"
  shows "ordinary_line l"
proof -
  from tokenize_raw[OF assms(2,3)] have r: "raw l \<in> set (splitlines s)"
    and t: "tokens l = split_ws (strip_comment (raw l))" by blast+
  have "ordinary_token t" if "t \<in> set (tokens l)" for t
  proof -
    from that t have m: "t \<in> set (split_ws (strip_comment (raw l)))" by simp
    have "ord c < 128" if "c \<in> set t" for c
    proof -
      have "c \<in> set (raw l)"
        using split_chars[OF m that] by (auto simp: strip_comment_def dest: set_takeWhileD)
      from splitlines_chars[OF r this] assms(1) show ?thesis
        by (simp add: plain_source_def is_ascii_def list_all_iff)
    qed
    moreover have "length t \<le> max_str_digits"
      using split_length[OF m] strip_comment_length[of "raw l"] assms(1) r
      by (fastforce simp: plain_source_def list_all_iff)
    ultimately show ?thesis by (simp add: ordinary_token_def is_ascii_def list_all_iff)
  qed
  then show ?thesis by (simp add: ordinary_line_def list_all_iff)
qed

section \<open>The second indented step under a guard\<close>

definition plain_step :: "line \<Rightarrow> bool" where
  "plain_step l = (\<not> head_in l [''merge'', ''parallel'', ''pipeline'', ''when'', ''until'', ''repeat'',
     guard_alt_keyword, guard_otherwise_keyword])"

lemma head_in_mono: "head_in l ws \<Longrightarrow> set ws \<subseteq> set vs \<Longrightarrow> head_in l vs"
  by (auto simp: head_in_def split: option.splits)

lemma plain_step_append: "plain_step l \<Longrightarrow> append_workflow_item st l = attach st (Step l) l"
  unfolding plain_step_def append_workflow_item_def
  by (simp add: head_in_def split: option.splits)

lemma guard_line_state:
  assumes "guard_line st g = Inr st1" and "open_block st = None"
  shows "open_block st1 = None \<and> guard_visual st1 = None \<and> pending_otherwise st1 = None \<and>
    (\<exists>p. pending_guard st1 = Some p \<and> g_mode p = hd (tokens g) \<and> g_lineno p = lineno g \<and> g_indent p = indent g)"
  using assms
  by (auto simp: guard_line_def Let_def bindE_iffs dest!: check_guard_layout_ok split: if_splits option.splits)

section \<open>Properties\<close>

definition sample_source :: string where
  "sample_source = join [CHR 0x0A]
     [''service S'', ''goal'', ''x'', ''workflow W'', '' when a > 0'', ''  b'', '' otherwise'', ''  c'', '' d'']"

text \<open>
  C33: The parser keeps every line and puts it where its keyword says. When a source parses, its
  declarations are, in order, the stretches of lines between declaration keywords, each with the
  kind, name and line of its header. The lines of a stretch are found again: those before any clause
  keyword are the workflow body, whose structure of steps, guards, alternatives, \<open>otherwise\<close> items
  and blocks prints back to exactly the token lines it was read from (\<open>merge\<close> alone drops what
  follows it on its line), and those a clause or spec keyword governs are that section, in order.
\<close>

theorem parse_keeps_every_line:
  assumes "tokenize src = Inr ls" and "parse src = Inr ds"
  shows "list_all2 chunk_says (chunks ls) ds"
  using parse_lines_says[of ls ds] assms tokenize_line_ok_all[OF assms(1)] by (simp add: parse_def)

lemma sample_source_parses:
  "case tokenize sample_source of Inl _ \<Rightarrow> False | Inr ls \<Rightarrow>
     (case parse sample_source of Inl _ \<Rightarrow> False | Inr ds \<Rightarrow> length ls = 9 \<and> length ds = 2)"
  by code_simp

lemma sample_source_obtain:
  obtains ls ds where "tokenize sample_source = Inr ls" "parse sample_source = Inr ds"
    "length ls = 9" "length ds = 2"
  using sample_source_parses by (auto split: sum.splits)

theorem parse_keeps_every_line_witness:
  "\<exists>ls ds. tokenize sample_source = Inr ls \<and> parse sample_source = Inr ds \<and>
     length ls = 9 \<and> length ds = 2 \<and> list_all2 chunk_says (chunks ls) ds"
proof -
  obtain ls ds where *: "tokenize sample_source = Inr ls" "parse sample_source = Inr ds"
    "length ls = 9" "length ds = 2" by (rule sample_source_obtain)
  with parse_keeps_every_line[OF *(1,2)] show ?thesis by blast
qed

text \<open>
  Guards and blocks of a parsed workflow are well formed: the mode of every guard is \<open>when\<close>,
  \<open>until\<close> or \<open>repeat\<close>, the condition of each \<open>when\<close>, \<open>until\<close> and \<open>or\<close> line is one the condition
  parser accepts, alternatives and an \<open>otherwise\<close> item occur on \<open>when\<close> guards only, every block is
  mentioned by exactly one item, and nothing is left pending.
\<close>

theorem parse_guards_closed:
  assumes "parse src = Inr ds"
  shows "list_all guards_closed ds"
proof (cases "tokenize src")
  case (Inr ls)
  with assms parse_lines_says[of ls ds] tokenize_line_ok_all[of src ls] show ?thesis by (simp add: parse_def)
qed (use assms in \<open>simp add: parse_def\<close>)

theorem parse_guards_closed_witness:
  "\<exists>ds. parse sample_source = Inr ds \<and> length ds = 2 \<and> list_all guards_closed ds"
proof -
  obtain ls ds where *: "tokenize sample_source = Inr ls" "parse sample_source = Inr ds"
    "length ls = 9" "length ds = 2" by (rule sample_source_obtain)
  with parse_guards_closed[OF *(2)] show ?thesis by blast
qed

text \<open>
  C38: On an ASCII source no line of which is longer than the interpreter's limit on integer
  digits, the parser fails only with its own errors: no exception of the condition parser escapes
  the \<open>except ConditionError\<close> handlers.
\<close>

theorem parse_raises_own_errors:
  assumes "plain_source src"
  shows "parse src \<noteq> Inl (BodyFailure (BodyRaised e))"
proof (cases "tokenize src")
  case (Inr ls)
  have "\<forall>l \<in> set ls. line_ok l \<and> ordinary_line l"
    using plain_source_lines[OF assms Inr] tokenize_line_ok_all[OF Inr] by blast
  from parse_lines_ordinary[OF this] Inr show ?thesis by (simp add: parse_def)
qed (simp add: parse_def)

definition bad_guard_source :: string where
  "bad_guard_source = join [CHR 0x0A] [''workflow W'', ''  when total >'', ''  pay'']"

theorem parse_raises_own_errors_witness:
  "parse bad_guard_source = Inl (BodyFailure (BodyError 2 (InvalidCondition MissingOperand))) \<and>
   parse bad_guard_source \<noteq> Inl (BodyFailure (BodyRaised (ValueErr ''total'')))"
proof
  show "parse bad_guard_source = Inl (BodyFailure (BodyError 2 (InvalidCondition MissingOperand)))" by code_simp
  have "plain_source bad_guard_source" by code_simp
  from parse_raises_own_errors[OF this]
  show "parse bad_guard_source \<noteq> Inl (BodyFailure (BodyRaised (ValueErr ''total'')))" .
qed

text \<open>
  A guard owns exactly one item, and the layout may not say otherwise. After a guard line and
  a step indented deeper than it, a further step that is also indented deeper than the guard is
  refused, with the mode and the line of the guard it pretends to be under.
\<close>

theorem second_indented_step_refused:
  assumes "open_block st = None" and "guard_line st g = Inr st1"
    and "plain_step a" and "indent g < indent a" and "append_workflow_item st1 a = Inr st2"
    and "plain_step b" and "indent g < indent b"
  shows "append_workflow_item st2 b =
    Inl (BodyError (lineno b) (IndentedUnderGuard (hd (tokens g)) (lineno g)))"
proof -
  from guard_line_state[OF assms(2,1)] obtain p where st1: "open_block st1 = None" "pending_otherwise st1 = None"
    "pending_guard st1 = Some p" "g_mode p = hd (tokens g)" "g_lineno p = lineno g" "g_indent p = indent g" by blast
  from assms(5) plain_step_append[OF assms(3)] st1 assms(4)
  have "open_block st2 = None \<and> pending_otherwise st2 = None \<and> pending_guard st2 = None \<and>
    guard_visual st2 = Some \<lparr>v_column = indent g, v_lineno = lineno g, v_mode = hd (tokens g)\<rparr>"
    by (auto simp: attach_def Let_def deeper_def)
  with plain_step_append[OF assms(6)] assms(7) show ?thesis
    by (simp add: attach_def check_guard_layout_def Let_def)
qed

definition guard_row :: line where
  "guard_row = \<lparr>lineno = 2, tokens = [''repeat'', ''3''], raw = ''  repeat 3'', indent = 2\<rparr>"

definition step_row :: "nat \<Rightarrow> string \<Rightarrow> line" where
  "step_row i w = \<lparr>lineno = i, tokens = [w], raw = ''    '' @ w, indent = 4\<rparr>"

theorem second_indented_step_refused_witness:
  "\<exists>st2. bindE (append_workflow_item empty_body guard_row) (\<lambda>st. append_workflow_item st (step_row 3 ''pay'')) = Inr st2 \<and>
     append_workflow_item st2 (step_row 4 ''mail'') = Inl (BodyError 4 (IndentedUnderGuard ''repeat'' 2))"
proof -
  define st1 where "st1 = empty_body\<lparr>pending_guard := Some \<lparr>g_mode = ''repeat'', g_arg = ''3'', g_lineno = 2,
      g_indent = 2, g_alts = []\<rparr>\<rparr>"
  define st2 where "st2 = st1\<lparr>pending_guard := None, otherwise_refused := Some (''repeat'', 2),
      items := [GuardItem \<lparr>g_mode = ''repeat'', g_arg = ''3'', g_lineno = 2, g_indent = 2, g_alts = []\<rparr>
        (Step (step_row 3 ''pay'')) None],
      guard_visual := Some \<lparr>v_column = 2, v_lineno = 2, v_mode = ''repeat''\<rparr>\<rparr>"
  have g: "guard_line empty_body guard_row = Inr st1" unfolding st1_def by code_simp
  have h: "append_workflow_item empty_body guard_row = Inr st1" unfolding st1_def by code_simp
  have s: "append_workflow_item st1 (step_row 3 ''pay'') = Inr st2" unfolding st2_def st1_def by code_simp
  have p: "plain_step (step_row 3 ''pay'')" "plain_step (step_row 4 ''mail'')" by code_simp+
  have "append_workflow_item st2 (step_row 4 ''mail'') =
      Inl (BodyError (lineno (step_row 4 ''mail'')) (IndentedUnderGuard (hd (tokens guard_row)) (lineno guard_row)))"
    by (rule second_indented_step_refused[OF _ g p(1) _ s p(2)])
      (simp_all add: empty_body_def guard_row_def step_row_def)
  with h s show ?thesis by (simp add: guard_row_def step_row_def)
qed

end
