(* ===== verification/PlanFacts.thy ===== *)
theory PlanFacts
  imports Lowering ParserFacts
begin

text \<open>
  What the planner of a workflow body emits: a document in which every child is there and of the kind its
  parent may have. The well-formedness is stated on documents, as the runtime reads them, so that the
  module a program lowers to and a document that is run are judged by the same predicate.
\<close>

section \<open>Well-formed documents\<close>

fun is_effect :: "node \<Rightarrow> bool" where
  "is_effect (Effect _) = True"
| "is_effect _ = False"

fun is_step :: "node \<Rightarrow> bool" where
  "is_step (WorkflowStep _ _) = True"
| "is_step _ = False"

text \<open>What a guard may own, and what may stand at the top of a body.\<close>

fun is_body :: "node \<Rightarrow> bool" where
  "is_body (WorkflowStep _ _) = True"
| "is_body (Concurrency _) = True"
| "is_body (Pipeline _) = True"
| "is_body _ = False"

fun is_item :: "node \<Rightarrow> bool" where
  "is_item (Guard _) = True"
| "is_item n = is_body n"

fun is_workflow :: "node \<Rightarrow> bool" where
  "is_workflow (Workflow _ _) = True"
| "is_workflow _ = False"

fun is_event :: "node \<Rightarrow> bool" where
  "is_event (Event _) = True"
| "is_event _ = False"

text \<open>What a service may own: its workflows, its goals and what it exposes.\<close>

definition is_service_child :: "node \<Rightarrow> bool" where
  "is_service_child n \<longleftrightarrow> is_workflow n \<or> n = OtherNode ''BusinessRule'' \<or> n = OtherNode ''Expose''"

fun is_constraint :: "node \<Rightarrow> bool" where
  "is_constraint (Policy _) = True"
| "is_constraint (Security _) = True"
| "is_constraint (Performance _) = True"
| "is_constraint _ = False"

definition finds :: "document \<Rightarrow> (node \<Rightarrow> bool) \<Rightarrow> string \<Rightarrow> bool" where
  "finds doc P i \<longleftrightarrow> (\<exists>n. (i, n) \<in> set doc \<and> P n)"

text \<open>
  A guard: its mode, a condition that parses, alternatives only on a \<open>when\<close>, one child or, on a \<open>when\<close>,
  two, and text operands for none or for each of its conditions.
\<close>

definition guard_fits :: "guard_node \<Rightarrow> bool" where
  "guard_fits g \<longleftrightarrow> gn_mode g \<in> {''when'', ''until'', ''repeat''} \<and>
     (gn_mode g \<noteq> ''repeat'' \<longrightarrow> (\<exists>t. gn_condition g = Some t \<and> condition_text_ok t)) \<and>
     (gn_alternatives g \<noteq> [] \<longrightarrow> gn_mode g = ''when'') \<and> list_all condition_text_ok (gn_alternatives g) \<and>
     (length (gn_children g) = 1 \<or> length (gn_children g) = 2 \<and> gn_mode g = ''when'') \<and> 0 \<le> gn_count g \<and>
     (gn_text_ops g = [] \<or> length (gn_text_ops g) = Suc (length (gn_alternatives g)))"

definition node_ok :: "document \<Rightarrow> node \<Rightarrow> bool" where
  "node_ok doc n \<longleftrightarrow> (case n of
       WorkflowStep _ cs \<Rightarrow> length cs \<le> 1 \<and> list_all (finds doc is_effect) cs
     | Concurrency cs \<Rightarrow> cs \<noteq> [] \<and> list_all (finds doc is_step) cs
     | Pipeline cs \<Rightarrow> cs \<noteq> [] \<and> list_all (finds doc is_step) cs
     | Guard g \<Rightarrow> guard_fits g \<and> list_all (finds doc is_body) (gn_children g)
     | Workflow _ cs \<Rightarrow> list_all (finds doc is_item) cs
     | Service _ cs ps \<Rightarrow> list_all (finds doc is_service_child) cs \<and> list_all (finds doc is_constraint) ps
     | _ \<Rightarrow> True)"

definition document_ok :: "document \<Rightarrow> bool" where
  "document_ok doc \<longleftrightarrow> distinct (map fst doc) \<and> list_all (\<lambda>(_, n). node_ok doc n) doc"

text \<open>Every event a step emits is declared.\<close>

definition events_declared :: "document \<Rightarrow> bool" where
  "events_declared doc \<longleftrightarrow> (\<forall>(i, n) \<in> set doc. \<forall>ev pm. n = Effect (EventEmit ev pm) \<longrightarrow>
     (\<exists>e. ev = Some e \<and> finds doc is_event e))"

definition well_formed :: "document \<Rightarrow> bool" where
  "well_formed doc \<longleftrightarrow> document_ok doc \<and> events_declared doc"

lemma finds_mono: "finds doc P i \<Longrightarrow> set doc \<subseteq> set doc' \<Longrightarrow> finds doc' P i"
  by (auto simp: finds_def)

lemma finds_weaken: "finds doc P i \<Longrightarrow> (\<And>n. P n \<Longrightarrow> Q n) \<Longrightarrow> finds doc Q i"
  by (auto simp: finds_def)

lemma node_ok_mono:
  assumes "node_ok doc n" and "set doc \<subseteq> set doc'" shows "node_ok doc' n"
  using assms(1) finds_mono[OF _ assms(2)] by (cases n) (auto simp: node_ok_def list_all_iff)

section \<open>Emitted nodes as a document\<close>

definition doc_of :: "lnode list \<Rightarrow> document" where
  "doc_of ns = map (\<lambda>n. (ln_id n, ln_node n)) ns"

lemma to_document_doc_of: "to_document m = doc_of (lm_nodes m)"
  by (simp add: to_document_def doc_of_def)

lemma doc_of_simps [simp]:
  "doc_of [] = []" "doc_of (n # ns) = (ln_id n, ln_node n) # doc_of ns" "doc_of (ns @ ms) = doc_of ns @ doc_of ms"
  by (simp_all add: doc_of_def)

lemma mk_node_fields [simp]: "ln_id (mk_node i n k ks) = i" "ln_node (mk_node i n k ks) = n" "ln_line (mk_node i n k ks) = Some k"
  by (simp_all add: mk_node_def)

text \<open>A body as it is emitted: nothing but steps, effects, blocks and guards, with all their children.\<close>

definition emits_ok :: "lnode list \<Rightarrow> bool" where
  "emits_ok ns \<longleftrightarrow> list_all (\<lambda>n. (is_effect (ln_node n) \<or> is_item (ln_node n)) \<and> node_ok (doc_of ns) (ln_node n)) ns"

lemma emits_ok_add:
  assumes "emits_ok ns" and "list_all (\<lambda>n. (is_effect (ln_node n) \<or> is_item (ln_node n)) \<and> node_ok (doc_of (ns @ ms)) (ln_node n)) ms"
  shows "emits_ok (ns @ ms)"
proof -
  have "set (doc_of ns) \<subseteq> set (doc_of (ns @ ms))" by simp
  with assms show ?thesis by (auto simp: emits_ok_def list_all_iff intro: node_ok_mono)
qed

section \<open>Effects\<close>

text \<open>Every step that derives something derives an effect.\<close>

definition derives_effect :: "lnode option \<Rightarrow> bool" where
  "derives_effect d \<longleftrightarrow> (\<forall>n. d = Some n \<longrightarrow> is_effect (ln_node n))"

lemma derives_simps [simp]: "derives_effect None" "derives_effect (Some n) = is_effect (ln_node n)"
  by (auto simp: derives_effect_def)

lemma derive_assignment_effect: "derive_assignment es bases ns sid l = Inr n \<Longrightarrow> is_effect (ln_node n)"
  by (auto simp: derive_assignment_def assignment_node_def Let_def bindE_iffs split: if_splits)

lemma derive_format_effect: "derive_format es sid l = Inr n \<Longrightarrow> is_effect (ln_node n)"
  by (auto simp: derive_format_def assignment_node_def Let_def bindE_iffs)

lemma derive_respond_effect: "derive_respond es ns sid l = Inr n \<Longrightarrow> is_effect (ln_node n)"
  unfolding derive_respond_def Let_def
  by (simp add: respond_node_def split: if_splits) (auto simp: bindE_iffs respond_node_def)

lemma derive_note_effect:
  assumes "derive_note sid l = Inr n" shows "is_effect (ln_node n)"
proof -
  from assms obtain r where "(case r of
      RhsFormat template args \<Rightarrow>
        bindE (on_cond_error (\<lambda>err. step_bad (lineno l) (BadStatement err)) (check_placeholder_count template args)) (\<lambda>_.
          Inr (mk_node (effect_id sid VerbNote) (Effect (Annotation template args)) (lineno l) []))
    | _ \<Rightarrow> Inl (CondRaised (TypeErr ''template''))) = Inr n"
    unfolding derive_note_def Let_def by (elim bindE_Inr_E) blast
  then show ?thesis by (cases r) (auto simp: bindE_iffs)
qed

lemma derive_fail_effect: "derive_fail sid l = Inr n \<Longrightarrow> is_effect (ln_node n)"
  by (auto simp: derive_fail_def Let_def split: if_splits)

lemma derive_effect_effect: "derive_effect we sid verb ob n rest = Inr (d, ds) \<Longrightarrow> derives_effect d"
  by (auto simp: derive_effect_def Let_def bindE_iffs split: option.splits verb_kind.splits)

lemma derive_step_effect:
  assumes "derive_step we emitted sid l = Inr (d, ds)" shows "derives_effect d"
proof -
  let ?es = "bound_entities (we_registry we) emitted"
  have own: "derives_effect d" if "bindE m (\<lambda>n. Inr (Some n, [])) = Inr (d, ds)" "\<And>n. m = Inr n \<Longrightarrow> is_effect (ln_node n)" for m
    using that by (auto simp: bindE_iffs)
  from assms show ?thesis
    unfolding derive_step_def Let_def
    by (auto split: if_splits intro: own derive_assignment_effect derive_format_effect derive_respond_effect
        derive_note_effect derive_fail_effect derive_effect_effect)
qed

section \<open>The planner\<close>

text \<open>A planning step keeps the body well-formed, keeps what was emitted, and answers with an id of the wanted kind.\<close>

definition planned :: "(node \<Rightarrow> bool) \<Rightarrow> wf_ctx \<Rightarrow> string \<Rightarrow> wf_ctx \<Rightarrow> bool" where
  "planned P cx i cy \<longleftrightarrow> set (wx_emitted cx) \<subseteq> set (wx_emitted cy) \<and>
     (emits_ok (wx_emitted cx) \<longrightarrow> emits_ok (wx_emitted cy) \<and> finds (doc_of (wx_emitted cy)) P i)"

lemma doc_of_mono: "set ns \<subseteq> set ms \<Longrightarrow> set (doc_of ns) \<subseteq> set (doc_of ms)"
  by (auto simp: doc_of_def)

lemma plan_step_planned:
  assumes "plan_step we l cx = Inr (i, cy)" shows "planned is_step cx i cy"
proof -
  let ?id = "wx_id cx @ ''.step.'' @ show_nat (Suc (wx_step_n cx))"
  from assms obtain d ds where d: "derive_step we (wx_emitted cx) ?id l = Inr (d, ds)" and i: "i = ?id"
    and em: "wx_emitted cy = wx_emitted cx @
      [mk_node ?id (WorkflowStep (line_words l) (case d of None \<Rightarrow> [] | Some n \<Rightarrow> [ln_id n])) (lineno l) []] @
      (case d of None \<Rightarrow> [] | Some n \<Rightarrow> [n])"
    by (auto simp: plan_step_def Let_def bindE_iffs)
  from derive_step_effect[OF d] have e: "d = Some n \<Longrightarrow> is_effect (ln_node n)" for n by simp
  have "emits_ok (wx_emitted cy)" if "emits_ok (wx_emitted cx)"
    unfolding em by (rule emits_ok_add[OF that], cases d)
      (use e in \<open>auto simp: node_ok_def finds_def elim: is_effect.elims split: node.split\<close>)
  then show ?thesis by (auto simp: planned_def em i finds_def)
qed

lemma plan_steps_planned:
  "plan_steps we ls cx = Inr (is, cy) \<Longrightarrow> set (wx_emitted cx) \<subseteq> set (wx_emitted cy) \<and>
     (emits_ok (wx_emitted cx) \<longrightarrow> emits_ok (wx_emitted cy) \<and> list_all (finds (doc_of (wx_emitted cy)) is_step) is)"
proof (induction ls arbitrary: cx "is")
  case (Cons l ls)
  then obtain i cz js where p: "plan_step we l cx = Inr (i, cz)" "plan_steps we ls cz = Inr (js, cy)" "is = i # js"
    by (auto simp: bindE_iffs)
  from plan_step_planned[OF p(1)] Cons.IH[OF p(2)] p(3) show ?case
    by (auto simp: planned_def intro: finds_mono[OF _ doc_of_mono])
qed simp

lemma emit_item:
  assumes "is_item (ln_node m)" and "emits_ok ns \<Longrightarrow> node_ok (doc_of ns) (ln_node m)"
  shows "emits_ok ns \<longrightarrow> emits_ok (ns @ [m]) \<and> finds (doc_of (ns @ [m])) (\<lambda>n. n = ln_node m) (ln_id m)"
proof -
  have "node_ok (doc_of (ns @ [m])) (ln_node m)" if "emits_ok ns"
    by (rule node_ok_mono[OF assms(2)[OF that]]) auto
  with assms(1) show ?thesis by (auto simp: finds_def intro!: emits_ok_add)
qed

lemma plan_block_planned:
  assumes "plan_block we b cx = Inr (i, cy)" shows "planned is_body cx i cy"
proof -
  obtain cx' m "is" cz where s: "plan_steps we (b_steps b) cx' = Inr (is, cz)" and cx': "wx_emitted cx' = wx_emitted cx"
    and ne: "is \<noteq> []" and m: "ln_node m = Concurrency is \<or> ln_node m = Pipeline is" "ln_id m = i"
    and em: "wx_emitted cy = wx_emitted cz @ [m]"
  proof (cases "b_type b = ''parallel''")
    case True
    with assms show ?thesis
      by (auto simp: plan_block_def Let_def bindE_iffs emit_node_def split: if_splits intro!: that)
  next
    case False
    with assms obtain "is" cz where
      "plan_steps we (b_steps b) (cx\<lparr>wx_pipeline_n := Suc (wx_pipeline_n cx)\<rparr>) = Inr (is, cz)" "is \<noteq> []"
      "\<exists>nm. cy = emit_node (mk_node i (Pipeline is) (b_lineno b) nm) cz"
      by (auto simp: plan_block_def Let_def bindE_iffs split: if_splits)
    with that[of _ "is" cz "mk_node i (Pipeline is) (b_lineno b) _"] show ?thesis by (auto simp: emit_node_def)
  qed
  note ps = plan_steps_planned[OF s, unfolded cx']
  have "emits_ok (wx_emitted cz) \<longrightarrow> emits_ok (wx_emitted cy) \<and> finds (doc_of (wx_emitted cy)) (\<lambda>n. n = ln_node m) i"
    if "emits_ok (wx_emitted cx)"
    unfolding em m(2)[symmetric] by (rule emit_item) (use m ps ne that in \<open>auto simp: node_ok_def\<close>)
  with ps m(1) show ?thesis by (auto simp: planned_def em elim!: finds_weaken)
qed

lemma plan_body_planned: "plan_body we blocks b cx = Inr (i, cy) \<Longrightarrow> planned is_body cx i cy"
proof (cases b)
  case (Step l)
  moreover assume "plan_body we blocks b cx = Inr (i, cy)"
  ultimately have "planned is_step cx i cy" by (simp add: plan_body_def plan_step_planned)
  then show ?thesis by (auto simp: planned_def elim!: finds_weaken is_step.elims)
qed (simp add: plan_body_def plan_block_planned)

text \<open>The node of a guard the parser accepted.\<close>

lemma guard_fields_fit:
  assumes "guard_fields g children = Inr gn" and "guard_ok g"
    and "length children = 1 \<or> length children = 2 \<and> g_mode g = ''when''"
  shows "guard_fits gn \<and> gn_children gn = children"
proof (cases "g_mode g = ''repeat''")
  case True
  with assms show ?thesis by (auto simp: guard_fields_def bindE_iffs guard_fits_def guard_ok_def)
next
  case False
  with assms show ?thesis by (auto simp: guard_fields_def guard_fits_def guard_ok_def)
qed

lemma plan_guard_planned:
  assumes "plan_guard we blocks g b ow cx = Inr (i, cy)" and "guard_ok g" and "ow \<noteq> None \<Longrightarrow> g_mode g = ''when''"
  shows "planned is_item cx i cy"
proof -
  from assms(1) obtain j cz children cw gn m where
    b: "plan_body we blocks b (cx\<lparr>wx_guard_n := Suc (wx_guard_n cx)\<rparr>) = Inr (j, cz)"
    and ow: "(case ow of None \<Rightarrow> Inr ([j], cz)
             | Some (b, _) \<Rightarrow> bindE (plan_body we blocks b cz) (\<lambda>(k, cx). Inr ([j, k], cx))) = Inr (children, cw)"
    and gn: "guard_fields g children = Inr gn" and m: "ln_node m = Guard gn" "ln_id m = i"
    and em: "wx_emitted cy = wx_emitted cw @ [m]"
    by (auto simp: plan_guard_def Let_def bindE_iffs emit_node_def)
  from plan_body_planned[OF b] have first: "set (wx_emitted cx) \<subseteq> set (wx_emitted cz)"
    "emits_ok (wx_emitted cx) \<Longrightarrow> emits_ok (wx_emitted cz) \<and> finds (doc_of (wx_emitted cz)) is_body j"
    by (simp_all add: planned_def)
  have rest: "set (wx_emitted cz) \<subseteq> set (wx_emitted cw) \<and> (length children = 1 \<or> length children = 2 \<and> g_mode g = ''when'') \<and>
    (emits_ok (wx_emitted cx) \<longrightarrow> emits_ok (wx_emitted cw) \<and> list_all (finds (doc_of (wx_emitted cw)) is_body) children)"
  proof (cases ow)
    case None
    with ow first show ?thesis by auto
  next
    case (Some p)
    with ow obtain k where c: "children = [j, k]" and "plan_body we blocks (fst p) cz = Inr (k, cw)"
      by (auto simp: bindE_iffs split: prod.splits)
    from plan_body_planned[OF this(2)] first assms(3) Some show ?thesis
      by (auto simp: planned_def c intro: finds_mono[OF _ doc_of_mono])
  qed
  from guard_fields_fit[OF gn assms(2)] rest have fit: "guard_fits gn" "gn_children gn = children" by auto
  have "emits_ok (wx_emitted cw) \<longrightarrow> emits_ok (wx_emitted cy) \<and> finds (doc_of (wx_emitted cy)) (\<lambda>n. n = ln_node m) i"
    if "emits_ok (wx_emitted cx)"
    unfolding em m(2)[symmetric] by (rule emit_item) (use m rest fit that in \<open>auto simp: node_ok_def\<close>)
  with rest first m(1) show ?thesis by (auto simp: planned_def em elim!: finds_weaken)
qed

lemma plan_item_planned:
  assumes "plan_item we blocks it cx = Inr (i, cy)" and "item_guard_ok it" shows "planned is_item cx i cy"
proof (cases it)
  case (Item b)
  with assms(1) have "planned is_body cx i cy" by (simp add: plan_item_def plan_body_planned)
  then show ?thesis by (auto simp: planned_def elim!: finds_weaken is_body.elims)
next
  case (GuardItem g b ow)
  with assms show ?thesis by (auto simp: plan_item_def intro: plan_guard_planned)
qed

lemma plan_items_planned:
  "plan_items we blocks its cx = Inr (is, cy) \<Longrightarrow> list_all item_guard_ok its \<Longrightarrow>
     set (wx_emitted cx) \<subseteq> set (wx_emitted cy) \<and>
     (emits_ok (wx_emitted cx) \<longrightarrow> emits_ok (wx_emitted cy) \<and> list_all (finds (doc_of (wx_emitted cy)) is_item) is)"
proof (induction its arbitrary: cx "is")
  case (Cons it its)
  then obtain i cz js where p: "plan_item we blocks it cx = Inr (i, cz)" "plan_items we blocks its cz = Inr (js, cy)" "is = i # js"
    by (auto simp: bindE_iffs)
  from plan_item_planned[OF p(1)] Cons.IH[OF p(2)] Cons.prems(2) p(3) show ?case
    by (auto simp: planned_def intro: finds_mono[OF _ doc_of_mono])
qed simp

lemma plan_workflow_ok:
  assumes "plan_workflow de d service = Inr (top_ids, cx)" and "list_all item_guard_ok (items (d_body d))"
  shows "emits_ok (wx_emitted cx) \<and> list_all (finds (doc_of (wx_emitted cx)) is_item) top_ids"
  using plan_items_planned[OF assms[unfolded plan_workflow_def]] by (simp add: new_ctx_def emits_ok_def)

end
