(* ===== verification/LowerFacts.thy ===== *)
theory LowerFacts
  imports PlanFacts
begin

text \<open>
  What the checks of a workflow body change in its nodes (field types of aggregates, text operands of
  guards, nothing else), and what the module holds once every declaration is lowered.
\<close>

section \<open>What the walk changes\<close>

inductive same_shape :: "node \<Rightarrow> node \<Rightarrow> bool" where
  unchanged: "same_shape n n"
| guard_ops: "length ops = Suc (length (gn_alternatives g)) \<Longrightarrow> same_shape (Guard g) (Guard (g\<lparr>gn_text_ops := ops\<rparr>))"
| assigned_type: "same_shape (Effect (Assignment t e b)) (Effect (Assignment t e b'))"
| term_types: "list_all2 (\<lambda>t u. u = t\<lparr>at_field_type := at_field_type u\<rparr>) (rn_terms r) us \<Longrightarrow>
    same_shape (Effect (Response r)) (Effect (Response (r\<lparr>rn_terms := us\<rparr>)))"

inductive_simps same_shape_step [simp]: "same_shape (WorkflowStep nm cs) n"
inductive_simps same_shape_block [simp]: "same_shape (Concurrency cs) n"
inductive_simps same_shape_pipeline [simp]: "same_shape (Pipeline cs) n"
inductive_cases same_shape_guardE: "same_shape (Guard g) n"
inductive_cases same_shape_effectE: "same_shape (Effect e) n"

text \<open>Whatever only asks for the kind of a node is unaffected.\<close>

lemma same_shape_kind:
  assumes "same_shape n m"
  shows "is_effect m = is_effect n" "is_step m = is_step n" "is_body m = is_body n" "is_item m = is_item n"
    "is_workflow m = is_workflow n" "is_event m = is_event n" "is_service_child m = is_service_child n" "is_constraint m = is_constraint n"
  using assms by (induction rule: same_shape.induct) (auto simp: is_service_child_def)

definition changes_ok :: "lnode list \<Rightarrow> (string, lnode) dict \<Rightarrow> bool" where
  "changes_ok emitted ch \<longleftrightarrow> (\<forall>i m. dget ch i = Some m \<longrightarrow>
     ln_id m = i \<and> (\<exists>n \<in> set emitted. ln_id n = i \<and> same_shape (ln_node n) (ln_node m)))"

lemma changes_ok_empty: "changes_ok emitted []"
  by (simp add: changes_ok_def)

lemma change_node_ok:
  assumes "changes_ok emitted (wk_changed w)" and "n \<in> set emitted" and "ln_id m = ln_id n" and "same_shape (ln_node n) (ln_node m)"
  shows "changes_ok emitted (wk_changed (change_node m w))"
  using assms by (auto simp: changes_ok_def change_node_def dget_dset split: if_splits)

lemma by_id_mem: "by_id emitted i = Some n \<Longrightarrow> n \<in> set emitted \<and> ln_id n = i"
  unfolding by_id_def by (drule map_of_SomeD) auto

lemma by_id_distinct: "distinct (map ln_id emitted) \<Longrightarrow> n \<in> set emitted \<Longrightarrow> by_id emitted (ln_id n) = Some n"
  unfolding by_id_def
  by (rule map_of_is_SomeI) (auto simp: rev_map[symmetric] comp_def)

text \<open>A check of one effect: what it may add to the changes is the effect itself with other field types.\<close>

abbreviation keeps :: "lnode list \<Rightarrow> walk \<Rightarrow> walk \<Rightarrow> bool" where
  "keeps emitted w v \<equiv> changes_ok emitted (wk_changed w) \<longrightarrow> changes_ok emitted (wk_changed v)"

lemma walk_fields [simp]: "wk_changed (orphaned sc t l w) = wk_changed w"
  by (simp add: orphaned_def)

lemma walk_repository_keeps: "walk_repository sc guarded c w = Inr v \<Longrightarrow> wk_changed v = wk_changed w"
  by (auto simp: walk_repository_def bindE_iffs split: if_splits option.splits)

lemma walk_agg_term_keeps:
  assumes "walk_agg_term sc line t (built, w) = Inr (built', v)"
  shows "wk_changed v = wk_changed w \<and> (\<exists>u. built' = built @ [u] \<and> u = t\<lparr>at_field_type := at_field_type u\<rparr>)"
proof -
  from assms obtain r where r: "(case r of
        RhsAggregate func ref \<Rightarrow>
          bindE (check_aggregate sc func ref) (\<lambda>(eid, base).
            Inr (built @ [if base = None then t else t\<lparr>at_field_type := base\<rparr>],
                 if eid \<in> set (wk_listed w) then w else orphaned sc (agg_text_of t) line w))
      | _ \<Rightarrow> Inl (CondRaised (TypeErr ''ref''))) = Inr (built', v)"
    unfolding walk_agg_term_def Let_def prod.case by (elim bindE_Inr_E) blast
  then show ?thesis by (cases r) (auto simp: bindE_iffs)
qed

lemma walk_agg_terms_keep:
  "foldE (walk_agg_term sc line) ts (built, w) = Inr (built', v) \<Longrightarrow>
     wk_changed v = wk_changed w \<and> (\<exists>us. built' = built @ us \<and> list_all2 (\<lambda>t u. u = t\<lparr>at_field_type := at_field_type u\<rparr>) ts us)"
proof (induction ts arbitrary: built w)
  case (Cons t ts)
  then obtain b x where s: "walk_agg_term sc line t (built, w) = Inr (b, x)" "foldE (walk_agg_term sc line) ts (b, x) = Inr (built', v)"
    by (auto simp: bindE_iffs)
  from walk_agg_term_keeps[OF s(1)] obtain u where
    u: "wk_changed x = wk_changed w" "b = built @ [u]" "u = t\<lparr>at_field_type := at_field_type u\<rparr>" by blast
  from Cons.IH[OF s(2)] obtain us where
    us: "wk_changed v = wk_changed x" "built' = b @ us" "list_all2 (\<lambda>t u. u = t\<lparr>at_field_type := at_field_type u\<rparr>) ts us" by blast
  then have "built' = built @ u # us" "list_all2 (\<lambda>t u. u = t\<lparr>at_field_type := at_field_type u\<rparr>) (t # ts) (u # us)" "wk_changed v = wk_changed w" using u by simp_all
  then show ?case by blast
qed simp

lemma walk_list_term_keeps: "walk_list_term sc line b w = Inr v \<Longrightarrow> wk_changed v = wk_changed w"
  by (auto simp: walk_list_term_def Let_def split: option.splits if_splits)

lemma walk_response_keeps:
  assumes "walk_response sc n r w = Inr v" and "n \<in> set emitted" and "ln_node n = Effect (Response r)"
  shows "keeps emitted w v"
proof -
  from assms(1) obtain ts x y where
    t: "foldE (walk_agg_term sc (ln_line n)) (rn_terms r) ([], w) = Inr (ts, x)"
    and l: "(case rn_list r of None \<Rightarrow> Inr x | Some b \<Rightarrow> walk_list_term sc (ln_line n) b x) = Inr y"
    and v: "v = change_node (n\<lparr>ln_node := Effect (Response (r\<lparr>rn_terms := ts\<rparr>))\<rparr>) y"
    by (auto simp: walk_response_def bindE_iffs)
  from walk_agg_terms_keep[OF t] have "wk_changed x = wk_changed w"
    and "same_shape (ln_node n) (Effect (Response (r\<lparr>rn_terms := ts\<rparr>)))"
    using assms(3) by (auto intro: term_types)
  moreover have "wk_changed y = wk_changed x" using l by (auto split: option.splits dest: walk_list_term_keeps)
  ultimately show ?thesis unfolding v using assms(2) by (auto intro!: change_node_ok)
qed

lemma walk_assignment_keeps:
  assumes "walk_assignment sc key n target expression w = Inr v" and "n \<in> set emitted"
    and "ln_node n = Effect (Assignment target expression b)"
  shows "keeps emitted w v"
proof -
  from assms(1) obtain r x where r: "(case r of
        RhsFormat _ args \<Rightarrow> bindE (check_format sc target args) (\<lambda>_. Inr w)
      | RhsAggregate func ref \<Rightarrow>
          bindE (check_reference sc OtherSubject True True False False target) (\<lambda>_.
          bindE (check_aggregate sc func ref) (\<lambda>(eid, base).
          let w = (if base = None then w
                   else change_node (n\<lparr>ln_node := Effect (Assignment target expression base)\<rparr>) w) in
            Inr (if eid \<in> set (wk_listed w) then w
                 else orphaned sc (''set '' @ target @ '' to '' @ expression) (ln_line n) w)))
      | RhsValue v \<Rightarrow>
          bindE (check_set_value sc target v (case ln_line n of Some k \<Rightarrow> k | None \<Rightarrow> 0)) (\<lambda>_. Inr w)) = Inr x"
    and v: "wk_changed v = wk_changed x"
    unfolding walk_assignment_def by (elim bindE_Inr_E) (auto split: prod.splits)
  have "keeps emitted w (change_node (n\<lparr>ln_node := Effect (Assignment target expression b')\<rparr>) w)" for b'
    using assms(2,3) by (auto intro!: change_node_ok assigned_type)
  with r show ?thesis unfolding v
    by (cases r) (auto simp: bindE_iffs Let_def split: if_splits)
qed

lemma walk_effect_keeps:
  assumes "walk_effect sc om guarded n w = Inr v" and "n \<in> set emitted"
  shows "keeps emitted w v"
proof (cases "ln_node n")
  case (Effect e)
  show ?thesis
  proof (cases e)
    case (Assignment t x b)
    with Effect assms(1) have "walk_assignment sc (guard_key (owner_of om (ln_id n))) n t x w = Inr v"
      by (simp add: walk_effect_def Let_def)
    from walk_assignment_keeps[OF this assms(2)] Effect Assignment show ?thesis by blast
  next
    case (RepositoryCall c)
    with Effect assms show ?thesis by (auto simp: walk_effect_def Let_def dest: walk_repository_keeps)
  next
    case (Response r)
    with Effect assms(1) have "walk_response sc n r w = Inr v" by (simp add: walk_effect_def Let_def)
    from walk_response_keeps[OF this assms(2)] Effect Response show ?thesis by blast
  qed (use Effect assms in \<open>auto simp: walk_effect_def Let_def bindE_iffs\<close>)
qed (use assms in \<open>auto simp: walk_effect_def Let_def\<close>)

lemma check_guard_shape:
  assumes "check_guard sc g = Inr h" shows "same_shape (Guard g) (Guard h)"
proof (cases "h = g")
  case False
  with assms obtain t names where m: "mapE (check_one_condition sc) (t # gn_alternatives g) = Inr names"
    and h: "h = g\<lparr>gn_text_ops := map (\<lambda>ns. sort_by str_less (remdups ns)) names\<rparr>"
    by (auto simp: check_guard_def Let_def bindE_iffs split: option.splits if_splits)
  from mapE_length[OF m] show ?thesis unfolding h by (intro guard_ops) simp
qed (simp add: unchanged)

lemma foldE_keeps:
  assumes "foldE f xs w = Inr v" and "\<And>x w v. f x w = Inr v \<Longrightarrow> keeps emitted w v"
  shows "keeps emitted w v"
  using assms(1)
proof (induction xs arbitrary: w)
  case (Cons x xs)
  then obtain u where "f x w = Inr u" "foldE f xs u = Inr v" by (auto simp: bindE_iffs)
  with assms(2)[OF this(1)] Cons.IH[OF this(2)] show ?case by blast
qed simp

lemma visit_keeps: "visit k sc emitted om guarded nid w = Inr v \<Longrightarrow> keeps emitted w v"
proof (induction k arbitrary: guarded nid w v)
  case (Suc k)
  show ?case
  proof (cases "by_id emitted nid")
    case None
    with Suc.prems show ?thesis by simp
  next
    case (Some n)
    note n = by_id_mem[OF Some]
    have step: "keeps emitted w v" if "foldE (\<lambda>c w. case by_id emitted c of None \<Rightarrow> Inr w | Some m \<Rightarrow> walk_effect sc om guarded m w) cs w = Inr v" for cs
      by (rule foldE_keeps[OF that]) (auto split: option.splits dest: by_id_mem walk_effect_keeps)
    have block: "keeps emitted w v" if "foldE (visit k sc emitted om b) cs w = Inr v" for b cs w
      by (rule foldE_keeps[OF that]) (rule Suc.IH)
    show ?thesis
    proof (cases "ln_node n")
      case (Guard g)
      with Suc.prems Some obtain h where h: "check_guard sc g = Inr h"
        and f: "foldE (visit k sc emitted om True) (gn_children g) (change_node (n\<lparr>ln_node := Guard h\<rparr>) w) = Inr v"
        by (auto simp: bindE_iffs)
      have "keeps emitted w (change_node (n\<lparr>ln_node := Guard h\<rparr>) w)"
        using n Guard check_guard_shape[OF h] by (auto intro!: change_node_ok)
      with block[OF f] show ?thesis by blast
    qed (use Suc.prems Some step block in auto)
  qed
qed simp

lemma check_scoped_conditions_keeps:
  assumes "check_scoped_conditions sc emitted top_ids = Inr w" shows "changes_ok emitted (wk_changed w)"
proof -
  from assms obtain om where "foldE (visit body_depth sc emitted om False) top_ids new_walk = Inr w"
    by (auto simp: check_scoped_conditions_def bindE_iffs split: if_splits)
  from foldE_keeps[OF this, of emitted] visit_keeps have "keeps emitted new_walk w" by blast
  then show ?thesis by (simp add: new_walk_def changes_ok_empty)
qed

section \<open>How the module evolves\<close>

lemma same_shape_trans: "same_shape n m \<Longrightarrow> same_shape m k \<Longrightarrow> same_shape n k"
proof (induction rule: same_shape.induct)
  case (guard_ops ops g)
  from guard_ops(2) show ?case
    by (cases rule: same_shape.cases) (use guard_ops(1) in \<open>auto intro: same_shape.intros\<close>)
next
  case (assigned_type t e b b')
  then show ?case by (cases rule: same_shape.cases) (auto intro: same_shape.intros)
next
  case (term_types r us)
  from term_types(2) show ?case
  proof (cases rule: same_shape.cases)
    case unchanged
    with term_types(1) show ?thesis by (auto intro: same_shape.term_types)
  next
    case (term_types vs)
    then have "list_all2 (\<lambda>t u. u = t\<lparr>at_field_type := at_field_type u\<rparr>) us vs" by simp
    with \<open>list_all2 _ (rn_terms r) us\<close> have "list_all2 (\<lambda>t u. u = t\<lparr>at_field_type := at_field_type u\<rparr>) (rn_terms r) vs"
      by (rule list_all2_trans[rotated]) (metis agg_term.surjective agg_term.update_convs(4))
    with term_types show ?thesis by (auto intro: same_shape.term_types)
  qed
qed

text \<open>Every node is still there, with the shape it had.\<close>

definition evolves :: "lnode list \<Rightarrow> lnode list \<Rightarrow> bool" where
  "evolves ns ms \<longleftrightarrow> (\<forall>n \<in> set ns. \<exists>m \<in> set ms. ln_id m = ln_id n \<and> same_shape (ln_node n) (ln_node m))"

lemma evolves_trans: "evolves ns ms \<Longrightarrow> evolves ms ks \<Longrightarrow> evolves ns ks"
  unfolding evolves_def by (metis same_shape_trans)

lemma evolves_subset: "set ns \<subseteq> set ms \<Longrightarrow> evolves ns ms"
  by (auto simp: evolves_def intro: unchanged)

definition kind_test :: "(node \<Rightarrow> bool) \<Rightarrow> bool" where
  "kind_test P \<longleftrightarrow> (\<forall>n m. same_shape n m \<longrightarrow> P m = P n)"

lemma kind_tests: "kind_test is_effect" "kind_test is_step" "kind_test is_body" "kind_test is_item"
  "kind_test is_workflow" "kind_test is_service_child" "kind_test is_constraint" "kind_test is_event"
  unfolding kind_test_def using same_shape_kind by blast+

lemma finds_doc_of: "finds (doc_of ns) P i \<longleftrightarrow> (\<exists>n \<in> set ns. ln_id n = i \<and> P (ln_node n))"
  by (auto simp: finds_def doc_of_def)

lemma finds_evolves: "finds (doc_of ns) P i \<Longrightarrow> kind_test P \<Longrightarrow> evolves ns ms \<Longrightarrow> finds (doc_of ms) P i"
  unfolding finds_doc_of evolves_def kind_test_def by metis

lemma all_find_evolves:
  "list_all (finds (doc_of ns) P) is \<Longrightarrow> kind_test P \<Longrightarrow> evolves ns ms \<Longrightarrow> list_all (finds (doc_of ms) P) is"
  by (auto simp: list_all_iff intro: finds_evolves)

lemma node_ok_evolves:
  assumes "same_shape n m" and "node_ok (doc_of ns) n" and "evolves ns ms"
  shows "node_ok (doc_of ms) m"
  using assms(1,2)
proof (induction rule: same_shape.induct)
  case (unchanged n)
  then show ?case using all_find_evolves[OF _ _ assms(3)] kind_tests by (cases n) (auto simp: node_ok_def)
next
  case (guard_ops ops g)
  then show ?case using all_find_evolves[OF _ kind_tests(3) assms(3)] by (auto simp: node_ok_def guard_fits_def)
qed (simp_all add: node_ok_def)

section \<open>Adding to the module\<close>

abbreviation ids :: "lnode list \<Rightarrow> string list" where
  "ids ns \<equiv> map ln_id ns"

lemma module_add_nodes:
  "module_add n m = Inr m' \<Longrightarrow> lm_nodes m' = lm_nodes m @ [n] \<and> (distinct (ids (lm_nodes m)) \<longrightarrow> distinct (ids (lm_nodes m')))"
  by (auto simp: module_add_def split: if_splits)

lemma module_adds:
  "foldE module_add ns m = Inr m' \<Longrightarrow>
     lm_nodes m' = lm_nodes m @ ns \<and> (distinct (ids (lm_nodes m)) \<longrightarrow> distinct (ids (lm_nodes m')))"
proof (induction ns arbitrary: m)
  case (Cons n ns)
  then obtain k where "module_add n m = Inr k" "foldE module_add ns k = Inr m'" by (auto simp: bindE_iffs)
  note s = module_add_nodes[OF this(1)] Cons.IH[OF this(2)]
  show ?case
  proof
    show "lm_nodes m' = lm_nodes m @ n # ns" using s by simp
    show "distinct (ids (lm_nodes m)) \<longrightarrow> distinct (ids (lm_nodes m'))" using s by blast
  qed
qed simp

lemma add_diags_nodes [simp]: "lm_nodes (add_diags ds m) = lm_nodes m"
  by (simp add: add_diags_def)

fun is_service :: "node \<Rightarrow> bool" where
  "is_service (Service _ _ _) = True"
| "is_service _ = False"

lemma same_shape_service: "same_shape n m \<Longrightarrow> is_service n = is_service m"
  by (induction rule: same_shape.induct) auto

definition services_in :: "lnode list \<Rightarrow> node set" where
  "services_in ns = ln_node ` {n \<in> set ns. is_service (ln_node n)}"

inductive_simps same_shape_to_service: "same_shape n (Service nm cs ps)"

text \<open>A module under construction: a service may name workflows and constraints that are still to come.\<close>

definition part_ok :: "lnode list \<Rightarrow> bool" where
  "part_ok ns \<longleftrightarrow> distinct (ids ns) \<and> (\<forall>n \<in> set ns. is_service (ln_node n) \<or> node_ok (doc_of ns) (ln_node n))"

lemma apply_changes_evolves:
  assumes "changes_ok emitted ch" and "set emitted \<subseteq> set ns" and "distinct (ids ns)"
  shows "evolves ns (apply_changes ch ns) \<and> ids (apply_changes ch ns) = ids ns \<and>
    (\<forall>m \<in> set (apply_changes ch ns). \<exists>n \<in> set ns. ln_id m = ln_id n \<and> same_shape (ln_node n) (ln_node m))"
proof -
  let ?f = "\<lambda>n. case dget ch (ln_id n) of None \<Rightarrow> n | Some m \<Rightarrow> m"
  have f: "ln_id (?f n) = ln_id n \<and> same_shape (ln_node n) (ln_node (?f n))" if "n \<in> set ns" for n
  proof (cases "dget ch (ln_id n)")
    case (Some m)
    with assms(1) obtain n' where n': "n' \<in> set emitted" "ln_id n' = ln_id n" "ln_id m = ln_id n" "same_shape (ln_node n') (ln_node m)"
      by (auto simp: changes_ok_def)
    with assms(2,3) that have "n' = n" by (metis distinct_map inj_onD subsetD)
    with n' Some show ?thesis by simp
  qed (simp add: unchanged)
  then have "ids (map ?f ns) = ids ns" by simp
  with f show ?thesis unfolding apply_changes_def evolves_def by auto
qed

abbreviation workflow_node :: "sourced \<Rightarrow> string list \<Rightarrow> lnode" where
  "workflow_node d top_ids \<equiv> mk_node (derive_id (d_name d) KWorkflow None) (Workflow (d_name d) top_ids) (d_lineno d) []"

text \<open>The scope a body is checked in, and the nodes once the walk's changes are on them.\<close>

abbreviation body_scope :: "doc_env \<Rightarrow> string \<Rightarrow> wf_ctx \<Rightarrow> doc_scope" where
  "body_scope de name cx \<equiv> scope_for name (de_registry de) (de_bases de) (de_enums de) (wx_emitted cx)"

lemma check_workflow_stages:
  assumes "check_workflow de name service top_ids cx = Inr (ch, ds)"
  obtains w where "check_scoped_conditions (body_scope de name cx) (wx_emitted cx) top_ids = Inr w" and "ch = wk_changed w"
    and "check_event_refs (apply_changes ch (wx_emitted cx)) (de_events de) name = Inr ()"
    and "check_fail_is_guarded (apply_changes ch (wx_emitted cx)) top_ids name = Inr ()"
    and "check_parallel_write_conflict (apply_changes ch (wx_emitted cx)) name = Inr ()"
    and "check_cached_read_not_written (apply_changes ch (wx_emitted cx)) (de_registry de) name = Inr ()"
  using assms unfolding check_workflow_def Let_def by (elim bindE_Inr_E) auto

lemma lower_workflow_stages:
  assumes "lower_workflow de (i, d, service) (m, emits) = Inr (m', emits')"
  obtains top_ids cx k ch ds where "plan_workflow de d service = Inr (top_ids, cx)"
    and "foldE module_add (workflow_node d top_ids # wx_emitted cx) m = Inr k"
    and "check_workflow de (d_name d) service top_ids cx = Inr (ch, ds)"
    and "lm_nodes m' = apply_changes ch (lm_nodes k)"
proof -
  from assms obtain top_ids cx k ch ds where "plan_workflow de d service = Inr (top_ids, cx)"
    "foldE module_add (workflow_node d top_ids # wx_emitted cx) m = Inr k"
    "check_workflow de (d_name d) service top_ids cx = Inr (ch, ds)"
    "m' = add_diags (wx_diags cx @ ds) (change_nodes ch k)"
    unfolding lower_workflow_def Let_def prod.case by (elim bindE_Inr_E) (auto elim!: bindE_Inr_E simp del: foldE.simps)
  with that show ?thesis by (simp add: change_nodes_def)
qed

lemma lower_workflow_ok:
  assumes "lower_workflow de (i, d, service) (m, emits) = Inr (m', emits')"
    and "list_all item_guard_ok (items (d_body d))" and "part_ok (lm_nodes m)"
  shows "part_ok (lm_nodes m') \<and> evolves (lm_nodes m) (lm_nodes m') \<and>
    services_in (lm_nodes m') \<subseteq> services_in (lm_nodes m) \<and>
    finds (doc_of (lm_nodes m')) is_workflow (derive_id (d_name d) KWorkflow None)"
proof -
  let ?w = "workflow_node d"
  from lower_workflow_stages[OF assms(1)] obtain top_ids cx k ch ds where
    plan: "plan_workflow de d service = Inr (top_ids, cx)"
    and add: "foldE module_add (?w top_ids # wx_emitted cx) m = Inr k"
    and chk: "check_workflow de (d_name d) service top_ids cx = Inr (ch, ds)"
    and m': "lm_nodes m' = apply_changes ch (lm_nodes k)" .
  note ok = plan_workflow_ok[OF plan assms(2)]
  from module_adds[OF add] assms(3) have k: "lm_nodes k = lm_nodes m @ ?w top_ids # wx_emitted cx" "distinct (ids (lm_nodes k))"
    unfolding part_ok_def by blast+
  have ch: "changes_ok (wx_emitted cx) ch"
    using chk by (rule check_workflow_stages) (blast intro: check_scoped_conditions_keeps)
  have step: "evolves (lm_nodes k) (lm_nodes m')" "ids (lm_nodes m') = ids (lm_nodes k)"
    "\<forall>m \<in> set (lm_nodes m'). \<exists>n \<in> set (lm_nodes k). ln_id m = ln_id n \<and> same_shape (ln_node n) (ln_node m)"
    using apply_changes_evolves[OF ch _ k(2)] k(1) m' by auto
  have sub: "evolves (lm_nodes m) (lm_nodes k)" "evolves (wx_emitted cx) (lm_nodes k)"
    by (rule evolves_subset, use k in force)+
  have "is_service (ln_node n) \<or> node_ok (doc_of (lm_nodes k)) (ln_node n)" if "n \<in> set (lm_nodes k)" for n
  proof -
    from that k(1) consider "n \<in> set (lm_nodes m)" | "n = ?w top_ids" | "n \<in> set (wx_emitted cx)" by auto
    then show ?thesis
    proof cases
      case 1
      with assms(3) sub(1) show ?thesis by (auto simp: part_ok_def intro: node_ok_evolves[OF unchanged])
    next
      case 2
      with ok all_find_evolves[OF _ kind_tests(4) sub(2)] show ?thesis by (simp add: node_ok_def)
    next
      case 3
      with ok sub(2) show ?thesis by (auto simp: emits_ok_def list_all_iff intro: node_ok_evolves[OF unchanged])
    qed
  qed
  then have "is_service (ln_node n) \<or> node_ok (doc_of (lm_nodes m')) (ln_node n)" if "n \<in> set (lm_nodes m')" for n
    using step(1,3) that by (metis node_ok_evolves same_shape_service)
  with step(2) k(2) have "part_ok (lm_nodes m')" by (simp add: part_ok_def)
  moreover have "services_in (lm_nodes m') \<subseteq> services_in (lm_nodes m)"
  proof
    fix x assume "x \<in> services_in (lm_nodes m')"
    then obtain n' nm cs ps where n': "n' \<in> set (lm_nodes m')" "ln_node n' = x" "x = Service nm cs ps"
      by (auto simp: services_in_def elim: is_service.elims)
    with step(3) obtain n where "n \<in> set (lm_nodes k)" "ln_node n = x" by (auto simp: same_shape_to_service)
    with n'(3) k(1) ok show "x \<in> services_in (lm_nodes m)"
      by (force simp: services_in_def emits_ok_def list_all_iff)
  qed
  moreover have "finds (doc_of (lm_nodes k)) is_workflow (derive_id (d_name d) KWorkflow None)"
    by (auto simp: k(1) finds_def)
  ultimately show ?thesis
    using sub(1) step(1) evolves_trans finds_evolves[OF _ kind_tests(5)] by blast
qed

section \<open>Services and events\<close>

lemma is_constraint_nodes:
  "list_all (\<lambda>n. is_constraint (ln_node n)) (constraint_nodes_of i Policy rs)"
  "list_all (\<lambda>n. is_constraint (ln_node n)) (constraint_nodes_of i Security ms)"
  "list_all (\<lambda>n. is_constraint (ln_node n)) (constraint_nodes_of i Performance bs)"
  by (simp_all add: constraint_nodes_of_def bare_node_def split: option.split)

lemma goal_nodes_kind: "list_all (\<lambda>n. ln_node n = OtherNode ''BusinessRule'') (goal_nodes sid ls)"
  by (auto simp: goal_nodes_def list_all_iff)

lemma expose_nodes_kind:
  assumes "expose_nodes sid reg bases ls = Inr ns" shows "list_all (\<lambda>n. ln_node n = OtherNode ''Expose'') ns"
  unfolding list_all_iff
proof
  fix n assume "n \<in> set ns"
  from mapE_mem[OF assms[unfolded expose_nodes_def] this] show "ln_node n = OtherNode ''Expose''"
    by (auto simp: bindE_iffs split: prod.splits)
qed

lemma lower_service_nodes:
  assumes "lower_service reg bases caps k wids d = Inr s"
  obtains n goals exposes where "ls_nodes s = n # goals @ exposes"
    and "ln_node n = Service (d_name d) (ids goals @ wids @ ids exposes) (ids (ls_constraints s))"
    and "list_all (\<lambda>n. ln_node n \<in> {OtherNode ''BusinessRule'', OtherNode ''Expose''}) (goals @ exposes)"
    and "list_all (\<lambda>n. is_constraint (ln_node n)) (ls_constraints s)"
proof -
  let ?sid = "derive_id (d_name d) KService None"
  from assms obtain rules mechs budgets exposes req where
    e: "expose_nodes ?sid reg bases (clause_lines d ''expose'') = Inr exposes"
    and cons: "ls_constraints s = constraint_nodes_of (constraint_id KPolicy d) Policy rules @
       constraint_nodes_of (constraint_id KSecurity d) Security mechs @
       constraint_nodes_of (constraint_id KPerformance d) Performance budgets"
    and nodes: "ls_nodes s = mk_node ?sid (Service (d_name d)
       (ids (goal_nodes ?sid (clause_lines d ''goal'')) @ wids @ ids exposes) (ids (ls_constraints s))) (d_lineno d)
       [(''requires'', req)] # goal_nodes ?sid (clause_lines d ''goal'') @ exposes"
    unfolding lower_service_def Let_def by (elim bindE_Inr_E) auto
  show ?thesis
  proof (rule that)
    show "ls_nodes s = mk_node ?sid (Service (d_name d)
       (ids (goal_nodes ?sid (clause_lines d ''goal'')) @ wids @ ids exposes) (ids (ls_constraints s))) (d_lineno d)
       [(''requires'', req)] # goal_nodes ?sid (clause_lines d ''goal'') @ exposes" by (rule nodes)
    show "list_all (\<lambda>n. ln_node n \<in> {OtherNode ''BusinessRule'', OtherNode ''Expose''}) (goal_nodes ?sid (clause_lines d ''goal'') @ exposes)"
      using goal_nodes_kind[of ?sid "clause_lines d ''goal''"] expose_nodes_kind[OF e]
      by (auto simp: list_all_iff)
    show "list_all (\<lambda>n. is_constraint (ln_node n)) (ls_constraints s)" by (simp add: cons is_constraint_nodes)
  qed simp
qed

lemma lower_event_nodes:
  assumes "lower_event wids d st = Inr st'"
  obtains n where "ln_node n = Event (d_name d)" and "ln_id n = derive_id (d_name d) KEvent None"
    and "lm_nodes (es_module st') = lm_nodes (es_module st) @ [n]"
    and "distinct (ids (lm_nodes (es_module st))) \<longrightarrow> distinct (ids (lm_nodes (es_module st')))"
proof -
  let ?n = "\<lambda>ks. mk_node (derive_id (d_name d) KEvent None) (Event (d_name d)) (d_lineno d) ks"
  from assms obtain ds ks where "module_add (?n ks) (add_diags ds (es_module st)) = Inr (es_module st')"
    unfolding lower_event_def Let_def by (elim bindE_Inr_E) (auto elim!: bindE_Inr_E)
  from module_add_nodes[OF this] have "lm_nodes (es_module st') = lm_nodes (es_module st) @ [?n ks]"
    "distinct (ids (lm_nodes (es_module st))) \<longrightarrow> distinct (ids (lm_nodes (es_module st')))"
    unfolding add_diags_nodes by blast+
  with that[of "?n ks"] show ?thesis by (metis mk_node_fields(1,2))
qed

lemma part_ok_add:
  assumes "part_ok ns" and "distinct (ids (ns @ ms))" and "\<forall>n \<in> set ms. is_service (ln_node n) \<or> node_ok (doc_of (ns @ ms)) (ln_node n)"
  shows "part_ok (ns @ ms)"
proof -
  have "evolves ns (ns @ ms)" by (rule evolves_subset) simp
  then have "is_service (ln_node n) \<or> node_ok (doc_of (ns @ ms)) (ln_node n)" if "n \<in> set ns" for n
    using assms(1) that node_ok_evolves[OF unchanged] unfolding part_ok_def by blast
  with assms(2,3) show ?thesis unfolding part_ok_def set_append by blast
qed

lemma lower_event_ok:
  assumes "lower_event wids d st = Inr st'" and "part_ok (lm_nodes (es_module st))"
  shows "part_ok (lm_nodes (es_module st')) \<and> evolves (lm_nodes (es_module st)) (lm_nodes (es_module st')) \<and>
    services_in (lm_nodes (es_module st')) \<subseteq> services_in (lm_nodes (es_module st))"
proof -
  from lower_event_nodes[OF assms(1)] obtain n where n: "ln_node n = Event (d_name d)"
    and new: "lm_nodes (es_module st') = lm_nodes (es_module st) @ [n]"
    and d: "distinct (ids (lm_nodes (es_module st))) \<longrightarrow> distinct (ids (lm_nodes (es_module st')))" .
  have "part_ok (lm_nodes (es_module st) @ [n])"
    using assms(2) d unfolding new by (intro part_ok_add) (simp_all add: part_ok_def node_ok_def n)
  then show ?thesis unfolding new using n by (auto intro: evolves_subset simp: services_in_def)
qed

lemma lower_events_ok:
  "foldE (lower_event wids) ds st = Inr st' \<Longrightarrow> part_ok (lm_nodes (es_module st)) \<Longrightarrow>
     part_ok (lm_nodes (es_module st')) \<and> evolves (lm_nodes (es_module st)) (lm_nodes (es_module st')) \<and>
     services_in (lm_nodes (es_module st')) \<subseteq> services_in (lm_nodes (es_module st))"
proof (induction ds arbitrary: st)
  case (Cons d ds)
  then obtain k where "lower_event wids d st = Inr k" "foldE (lower_event wids) ds k = Inr st'" by (auto simp: bindE_iffs)
  with lower_event_ok[OF this(1) Cons.prems(2)] Cons.IH show ?case by (blast intro: evolves_trans)
qed (simp add: evolves_subset)

section \<open>The document a program lowers to\<close>

definition decl_guards_ok :: "sourced \<Rightarrow> bool" where
  "decl_guards_ok d \<longleftrightarrow> list_all item_guard_ok (items (d_body d))"

lemma placed_decl: "p \<in> set (place_decls service i ds) \<Longrightarrow> fst (snd p) \<in> set ds"
  by (induction ds arbitrary: service i) auto

lemma lower_workflows_ok:
  assumes "foldE (lower_workflow de) ps (m, emits) = Inr (m', emits')" and "\<forall>p \<in> set ps. decl_guards_ok (fst (snd p))"
    and "part_ok (lm_nodes m)"
  shows "part_ok (lm_nodes m') \<and> evolves (lm_nodes m) (lm_nodes m') \<and>
    services_in (lm_nodes m') \<subseteq> services_in (lm_nodes m) \<and>
    (\<forall>p \<in> set ps. finds (doc_of (lm_nodes m')) is_workflow (derive_id (d_name (fst (snd p))) KWorkflow None))"
  using assms
proof (induction ps arbitrary: m emits)
  case Nil
  then show ?case by (simp add: evolves_subset)
next
  case (Cons p ps)
  obtain i d service where p: "p = (i, d, service)" by (cases p)
  from Cons.prems(1) obtain k es where s: "lower_workflow de p (m, emits) = Inr (k, es)"
    "foldE (lower_workflow de) ps (k, es) = Inr (m', emits')" by (auto simp: bindE_iffs)
  note first = lower_workflow_ok[OF s(1)[unfolded p]]
  with Cons.prems p have f: "part_ok (lm_nodes k)" "evolves (lm_nodes m) (lm_nodes k)"
    "services_in (lm_nodes k) \<subseteq> services_in (lm_nodes m)"
    "finds (doc_of (lm_nodes k)) is_workflow (derive_id (d_name d) KWorkflow None)"
    by (auto simp: decl_guards_ok_def)
  from Cons.IH[OF s(2) _ f(1)] Cons.prems(2) have r: "part_ok (lm_nodes m')" "evolves (lm_nodes k) (lm_nodes m')"
    "services_in (lm_nodes m') \<subseteq> services_in (lm_nodes k)"
    "\<forall>p \<in> set ps. finds (doc_of (lm_nodes m')) is_workflow (derive_id (d_name (fst (snd p))) KWorkflow None)" by auto
  from r f evolves_trans finds_evolves[OF f(4) kind_tests(5) r(2)] p show ?case by auto
qed

lemma lower_stages:
  assumes "lower lib decls name = Inr m"
  obtains refs bases reg services m0 st de m1 emits caps where
    "lower_services reg bases decls = Inr services"
    and "lm_nodes m0 = map (\<lambda>(n, b, fs). refinement_node n b fs) refs @ concat (map (\<lambda>(_, s). ls_nodes s) services) @
           map entity_node (entities_of reg)" and "distinct (ids (lm_nodes m0))"
    and "foldE (lower_event (map (\<lambda>(_, w, _). derive_id (d_name w) KWorkflow None) (of_kind ''workflow'' (place_decls None 0 decls))))
           (decls_of_kind ''event'' decls) \<lparr>es_module = m0, es_sources = [], es_consumes = []\<rparr> = Inr st"
    and "foldE (lower_workflow de) (of_kind ''workflow'' (place_decls None 0 decls)) (es_module st, []) = Inr (m1, emits)"
    and "de_events de = map (\<lambda>d. derive_id (d_name d) KEvent None) (decls_of_kind ''event'' decls)"
    and "lm_nodes m = lm_nodes m1 @ concat (map (\<lambda>(_, s). ls_constraints s) services) @
           map (capability_node caps) (decls_of_kind ''capability'' decls)"
    and "distinct (ids (lm_nodes m1)) \<longrightarrow> distinct (ids (lm_nodes m))"
proof -
  from assms obtain refs bases reg caps cap_diags services m0 st m1 emits ds where
    s: "lower_services reg bases decls = Inr services"
    and m0: "foldE module_add
              (map (\<lambda>(n, b, fs). refinement_node n b fs) refs @ concat (map (\<lambda>(_, s). ls_nodes s) services) @
               map entity_node (entities_of reg))
              \<lparr>lm_name = name, lm_nodes = [],
               lm_diags = cap_diags @ concat (map (\<lambda>(_, s). ls_diags s) services)\<rparr> = Inr m0"
    and st: "foldE (lower_event (map (\<lambda>(_, w, _). derive_id (d_name w) KWorkflow None) (of_kind ''workflow'' (place_decls None 0 decls))))
           (decls_of_kind ''event'' decls) \<lparr>es_module = m0, es_sources = [], es_consumes = []\<rparr> = Inr st"
    and wf: "\<exists>de. foldE (lower_workflow de) (of_kind ''workflow'' (place_decls None 0 decls)) (es_module st, []) = Inr (m1, emits) \<and>
      de_events de = map (\<lambda>d. derive_id (d_name d) KEvent None) (decls_of_kind ''event'' decls)"
    and m: "foldE module_add (concat (map (\<lambda>(_, s). ls_constraints s) services) @
              map (capability_node caps) (decls_of_kind ''capability'' decls)) (add_diags ds m1) = Inr m"
    unfolding lower_def Let_def by (auto elim!: bindE_Inr_E) (metis doc_env.select_convs(5))
  from wf obtain de where wf: "foldE (lower_workflow de) (of_kind ''workflow'' (place_decls None 0 decls)) (es_module st, []) = Inr (m1, emits)"
    and de: "de_events de = map (\<lambda>d. derive_id (d_name d) KEvent None) (decls_of_kind ''event'' decls)" by blast
  show ?thesis
  proof (rule that[OF s _ _ st wf de])
    show "lm_nodes m0 = map (\<lambda>(n, b, fs). refinement_node n b fs) refs @ concat (map (\<lambda>(_, s). ls_nodes s) services) @
       map entity_node (entities_of reg)" using module_adds[OF m0] by simp
    show "distinct (ids (lm_nodes m0))" using module_adds[OF m0, THEN conjunct2] by simp
    show "lm_nodes m = lm_nodes m1 @ concat (map (\<lambda>(_, s). ls_constraints s) services) @
       map (capability_node caps) (decls_of_kind ''capability'' decls)" using module_adds[OF m] by simp
    show "distinct (ids (lm_nodes m1)) \<longrightarrow> distinct (ids (lm_nodes m))" using module_adds[OF m, THEN conjunct2] by simp
  qed
qed

text \<open>The nodes of services, entities and refinements, judged once the rest of the module is there.\<close>

lemma first_nodes_ok:
  assumes "lower_services reg bases decls = Inr services"
    and n: "n \<in> set (map (\<lambda>(n, b, fs). refinement_node n b fs) refs @ concat (map (\<lambda>(_, s). ls_nodes s) services) @
      map entity_node (entities_of reg))"
  shows "is_service (ln_node n) \<or> node_ok doc (ln_node n)"
proof -
  from n consider (s) i s where "(i, s) \<in> set services" "n \<in> set (ls_nodes s)"
    | (r) nm b fs where "n = refinement_node nm b fs" | (e) e where "n = entity_node e" by auto
  then show ?thesis
  proof cases
    case s
    from mapE_mem[OF assms(1)[unfolded lower_services_def Let_def] s(1)] obtain d wids caps k where
      "lower_service reg bases caps k wids d = Inr s" by (auto simp: bindE_iffs split: prod.splits)
    then show ?thesis
    proof (rule lower_service_nodes)
      fix m goals exposes assume k: "ls_nodes s = m # goals @ exposes" "ln_node m = Service (d_name d) (ids goals @ wids @ ids exposes) (ids (ls_constraints s))"
        "list_all (\<lambda>n. ln_node n \<in> {OtherNode ''BusinessRule'', OtherNode ''Expose''}) (goals @ exposes)"
      from s(2) k(1,3) consider "n = m" | "ln_node n = OtherNode ''BusinessRule''" | "ln_node n = OtherNode ''Expose''"
        by (auto simp: list_all_iff)
      then show ?thesis using k(2) by cases (simp_all add: node_ok_def)
    qed
  qed (simp_all add: refinement_node_def entity_node_def node_ok_def)
qed

lemma service_constraints:
  assumes "lower_services reg bases decls = Inr services" and "(i, s) \<in> set services" and "n \<in> set (ls_constraints s)"
  shows "is_constraint (ln_node n)"
proof -
  from mapE_mem[OF assms(1)[unfolded lower_services_def Let_def] assms(2)] obtain d wids caps k where
    "lower_service reg bases caps k wids d = Inr s" by (auto simp: bindE_iffs split: prod.splits)
  then have "list_all (\<lambda>n. is_constraint (ln_node n)) (ls_constraints s)" by (rule lower_service_nodes)
  with assms(3) show ?thesis by (simp add: list_all_iff)
qed

lemma constraint_no_service: "is_constraint n \<Longrightarrow> \<not> is_service n"
  by (cases n) simp_all

lemma service_node_ok:
  assumes s: "lower_services reg bases decls = Inr services" and i: "(i, s) \<in> set services" and n: "n \<in> set (ls_nodes s)" "is_service (ln_node n)"
    and ev: "evolves (ls_nodes s) ns" "evolves (ls_constraints s) ns"
    and wf: "\<forall>p \<in> set (of_kind ''workflow'' (place_decls None 0 decls)).
      finds (doc_of ns) is_workflow (derive_id (d_name (fst (snd p))) KWorkflow None)"
  shows "node_ok (doc_of ns) (ln_node n)"
proof -
  let ?wids = "map (\<lambda>(_, w, _). derive_id (d_name w) KWorkflow None)
    (filter (\<lambda>(_, _, s). s = Some i) (of_kind ''workflow'' (place_decls None 0 decls)))"
  from mapE_mem[OF s[unfolded lower_services_def Let_def] i] obtain d caps k where
    "lower_service reg bases caps k ?wids d = Inr s" by (auto simp: bindE_iffs split: prod.splits)
  then show ?thesis
  proof (rule lower_service_nodes)
    fix m goals exposes assume nodes: "ls_nodes s = m # goals @ exposes"
      and m: "ln_node m = Service (d_name d) (ids goals @ ?wids @ ids exposes) (ids (ls_constraints s))"
      and kids: "list_all (\<lambda>n. ln_node n \<in> {OtherNode ''BusinessRule'', OtherNode ''Expose''}) (goals @ exposes)"
      and cons: "list_all (\<lambda>n. is_constraint (ln_node n)) (ls_constraints s)"
    from n(1) nodes kids consider "n = m" | "ln_node n = OtherNode ''BusinessRule''" | "ln_node n = OtherNode ''Expose''"
      by (auto simp: list_all_iff)
    then have "n = m" using n(2) by cases simp_all
    moreover have "list_all (finds (doc_of (ls_nodes s)) is_service_child) (ids (goals @ exposes))"
      using kids unfolding nodes list_all_iff finds_doc_of is_service_child_def by auto
    note all_find_evolves[OF this kind_tests(6) ev(1)]
    moreover have "list_all (finds (doc_of (ls_constraints s)) is_constraint) (ids (ls_constraints s))"
      using cons by (auto simp: list_all_iff finds_doc_of)
    note all_find_evolves[OF this kind_tests(7) ev(2)]
    moreover have "finds (doc_of ns) is_service_child w" if "w \<in> set ?wids" for w
    proof -
      from that wf have "finds (doc_of ns) is_workflow w" by auto
      then show ?thesis by (rule finds_weaken) (simp add: is_service_child_def)
    qed
    ultimately have "list_all (finds (doc_of ns) is_service_child) (ids goals @ ?wids @ ids exposes)"
      "list_all (finds (doc_of ns) is_constraint) (ids (ls_constraints s))"
      unfolding list_all_iff map_append set_append by blast+
    with m \<open>n = m\<close> show ?thesis by (simp add: node_ok_def)
  qed
qed

lemma services_in_add:
  assumes "ns = ms @ ks" and "\<And>n. n \<in> set ks \<Longrightarrow> \<not> is_service (ln_node n)"
  shows "services_in ns \<subseteq> services_in ms"
  using assms by (auto simp: services_in_def)

lemma first_services:
  assumes "ns = map (\<lambda>(n, b, fs). refinement_node n b fs) refs @ concat (map (\<lambda>(_, s). ls_nodes s) services) @ map entity_node es"
    and "n \<in> set ns" and "is_service (ln_node n)"
  obtains i s where "(i, s) \<in> set services" and "n \<in> set (ls_nodes s)"
  using assms by (auto simp: refinement_node_def entity_node_def)

lemma lower_document_ok:
  assumes "lower lib decls name = Inr m" and "list_all decl_guards_ok decls"
  shows "document_ok (to_document m)"
proof -
  let ?wfs = "of_kind ''workflow'' (place_decls None 0 decls)"
  from lower_stages[OF assms(1)] obtain refs bases reg services m0 st de m1 emits caps where
    s: "lower_services reg bases decls = Inr services"
    and m0: "lm_nodes m0 = map (\<lambda>(n, b, fs). refinement_node n b fs) refs @ concat (map (\<lambda>(_, s). ls_nodes s) services) @
           map entity_node (entities_of reg)" "distinct (ids (lm_nodes m0))"
    and st: "foldE (lower_event (map (\<lambda>(_, w, _). derive_id (d_name w) KWorkflow None) ?wfs))
           (decls_of_kind ''event'' decls) \<lparr>es_module = m0, es_sources = [], es_consumes = []\<rparr> = Inr st"
    and wf: "foldE (lower_workflow de) ?wfs (es_module st, []) = Inr (m1, emits)"
    and m: "lm_nodes m = lm_nodes m1 @ concat (map (\<lambda>(_, s). ls_constraints s) services) @
           map (capability_node caps) (decls_of_kind ''capability'' decls)"
    and dm: "distinct (ids (lm_nodes m1)) \<longrightarrow> distinct (ids (lm_nodes m))" .
  have "part_ok (lm_nodes m0)"
    using m0(2) first_nodes_ok[OF s, of _ refs] by (simp only: part_ok_def m0(1)) blast
  with lower_events_ok[OF st] have p1: "part_ok (lm_nodes (es_module st))" "evolves (lm_nodes m0) (lm_nodes (es_module st))" by simp_all
  have g: "\<forall>p \<in> set ?wfs. decl_guards_ok (fst (snd p))"
    using assms(2) placed_decl by (fastforce simp: of_kind_def list_all_iff)
  note p2 = lower_workflows_ok[OF wf g p1(1)]
  have e1: "evolves (lm_nodes m1) (lm_nodes m)" by (rule evolves_subset) (simp add: m)
  then have e0: "evolves (lm_nodes m0) (lm_nodes m)" using p1(2) p2 evolves_trans by blast
  have "services_in (lm_nodes m) \<subseteq> services_in (lm_nodes m1)"
    by (rule services_in_add[OF m]) (use service_constraints[OF s] constraint_no_service in \<open>fastforce simp: capability_node_def\<close>)
  with lower_events_ok[OF st] p2 \<open>part_ok (lm_nodes m0)\<close> have services: "services_in (lm_nodes m) \<subseteq> services_in (lm_nodes m0)"
    by (simp only: event_state.simps) blast
  have wids: "\<forall>p \<in> set ?wfs. finds (doc_of (lm_nodes m)) is_workflow (derive_id (d_name (fst (snd p))) KWorkflow None)"
    using p2 finds_evolves[OF _ kind_tests(5) e1] by blast
  have "node_ok (doc_of (lm_nodes m)) (ln_node n)" if "n \<in> set (lm_nodes m)" for n
  proof (cases "is_service (ln_node n)")
    case False
    from that m consider "n \<in> set (lm_nodes m1)" | i s where "(i, s) \<in> set services" "n \<in> set (ls_constraints s)"
      | d where "n = capability_node caps d" by auto
    then show ?thesis
    proof cases
      case 1
      with p2 False have "node_ok (doc_of (lm_nodes m1)) (ln_node n)" by (auto simp: part_ok_def)
      from node_ok_evolves[OF unchanged this e1] show ?thesis .
    next
      case 2
      from service_constraints[OF s 2] show ?thesis by (auto simp: node_ok_def elim: is_constraint.elims)
    next
      case 3
      then show ?thesis by (simp add: capability_node_def node_ok_def)
    qed
  next
    case True
    from that True have "ln_node n \<in> services_in (lm_nodes m)" unfolding services_in_def by blast
    with services have "ln_node n \<in> services_in (lm_nodes m0)" by blast
    then obtain n' where n': "n' \<in> set (lm_nodes m0)" "ln_node n' = ln_node n" unfolding services_in_def by auto
    with True have "is_service (ln_node n')" by simp
    from first_services[OF m0(1) n'(1) this] obtain i s where s': "(i, s) \<in> set services" "n' \<in> set (ls_nodes s)" .
    have "evolves (ls_nodes s) (lm_nodes m0)" by (rule evolves_subset) (use s'(1) in \<open>auto simp: m0(1)\<close>)
    moreover have "evolves (ls_constraints s) (lm_nodes m)" by (rule evolves_subset) (use s'(1) in \<open>auto simp: m\<close>)
    ultimately show ?thesis
      using service_node_ok[OF s s' _ _ _ wids] e0 evolves_trans n'(2) True by metis
  qed
  moreover have "distinct (ids (lm_nodes m))" using dm p2 by (simp add: part_ok_def)
  ultimately show ?thesis by (simp add: document_ok_def to_document_doc_of doc_of_def list_all_iff comp_def)
qed

end
