(* ===== verification/PlanForest.thy ===== *)
theory PlanForest
  imports LowerFacts "HOL-Library.Multiset"
begin

text \<open>
  A lowered body is a forest: every node it emits is owned once, by one other node or by the workflow.
  Counted as multisets the planner keeps the balance of ids and owned ids whatever the ids are; when they
  are distinct, which the module checks, an owner is unique.
\<close>

abbreviation owned :: "lnode list \<Rightarrow> string list" where
  "owned ns \<equiv> concat (map (\<lambda>n. node_children (ln_node n)) ns)"

text \<open>What a stretch of planning adds: every id but those it answers with, the roots, is owned in it.\<close>

definition grows :: "lnode list \<Rightarrow> string list \<Rightarrow> lnode list \<Rightarrow> bool" where
  "grows ns roots ms \<longleftrightarrow> (\<exists>new. ms = ns @ new \<and> mset (ids new) = mset (owned new) + mset roots)"

lemma grows_same: "grows ns [] ns"
  by (simp add: grows_def)

lemma grows_trans: "grows a r b \<Longrightarrow> grows b s c \<Longrightarrow> grows a (r @ s) c"
  by (auto simp: grows_def)

lemma grows_owner: "grows a (node_children (ln_node n)) b \<Longrightarrow> grows a [ln_id n] (b @ [n])"
  by (auto simp: grows_def)

lemma effect_children: "is_effect n \<Longrightarrow> node_children n = []"
  by (cases n) simp_all

lemma plan_step_grows:
  assumes "plan_step we l cx = Inr (i, cy)" shows "grows (wx_emitted cx) [i] (wx_emitted cy)"
proof -
  let ?id = "wx_id cx @ ''.step.'' @ show_nat (Suc (wx_step_n cx))"
  from assms obtain d ds where d: "derive_step we (wx_emitted cx) ?id l = Inr (d, ds)" and i: "i = ?id"
    and em: "wx_emitted cy = wx_emitted cx @
      [mk_node ?id (WorkflowStep (line_words l) (case d of None \<Rightarrow> [] | Some n \<Rightarrow> [ln_id n])) (lineno l) []] @
      (case d of None \<Rightarrow> [] | Some n \<Rightarrow> [n])"
    by (auto simp: plan_step_def Let_def bindE_iffs)
  from derive_step_effect[OF d] show ?thesis
    by (cases d) (simp_all add: em grows_def effect_children i)
qed

lemma plan_steps_grows: "plan_steps we ls cx = Inr (is, cy) \<Longrightarrow> grows (wx_emitted cx) is (wx_emitted cy)"
proof (induction ls arbitrary: cx "is")
  case (Cons l ls)
  then obtain i cz js where p: "plan_step we l cx = Inr (i, cz)" "plan_steps we ls cz = Inr (js, cy)" "is = i # js"
    by (auto simp: bindE_iffs)
  from grows_trans[OF plan_step_grows[OF p(1)] Cons.IH[OF p(2)]] p(3) show ?case by simp
qed (simp add: grows_same)

lemma plan_block_grows:
  assumes "plan_block we b cx = Inr (i, cy)" shows "grows (wx_emitted cx) [i] (wx_emitted cy)"
proof -
  obtain cx' m "is" cz where s: "plan_steps we (b_steps b) cx' = Inr (is, cz)" and cx': "wx_emitted cx' = wx_emitted cx"
    and m: "node_children (ln_node m) = is" "ln_id m = i" and em: "wx_emitted cy = wx_emitted cz @ [m]"
  proof (cases "b_type b = ''parallel''")
    case True
    with assms show ?thesis
      by (auto simp: plan_block_def Let_def bindE_iffs emit_node_def split: if_splits intro!: that)
  next
    case False
    with assms obtain "is" cz where
      "plan_steps we (b_steps b) (cx\<lparr>wx_pipeline_n := Suc (wx_pipeline_n cx)\<rparr>) = Inr (is, cz)"
      "\<exists>nm. cy = emit_node (mk_node i (Pipeline is) (b_lineno b) nm) cz"
      by (auto simp: plan_block_def Let_def bindE_iffs split: if_splits)
    with that[of _ "is" cz "mk_node i (Pipeline is) (b_lineno b) _"] show ?thesis by (auto simp: emit_node_def)
  qed
  from grows_owner[of "wx_emitted cx" m "wx_emitted cz"] plan_steps_grows[OF s] m show ?thesis by (simp add: em cx')
qed

lemma plan_body_grows: "plan_body we blocks b cx = Inr (i, cy) \<Longrightarrow> grows (wx_emitted cx) [i] (wx_emitted cy)"
  by (cases b) (simp_all add: plan_body_def plan_step_grows plan_block_grows)

lemma plan_guard_grows:
  assumes "plan_guard we blocks g b ow cx = Inr (i, cy)" shows "grows (wx_emitted cx) [i] (wx_emitted cy)"
proof -
  from assms obtain j cz children cw gn m where
    b: "plan_body we blocks b (cx\<lparr>wx_guard_n := Suc (wx_guard_n cx)\<rparr>) = Inr (j, cz)"
    and ow: "(case ow of None \<Rightarrow> Inr ([j], cz)
             | Some (b, _) \<Rightarrow> bindE (plan_body we blocks b cz) (\<lambda>(k, cx). Inr ([j, k], cx))) = Inr (children, cw)"
    and gn: "guard_fields g children = Inr gn" and m: "ln_node m = Guard gn" "ln_id m = i"
    and em: "wx_emitted cy = wx_emitted cw @ [m]"
    by (auto simp: plan_guard_def Let_def bindE_iffs emit_node_def)
  have first: "grows (wx_emitted cx) [j] (wx_emitted cz)" using plan_body_grows[OF b] by simp
  have "grows (wx_emitted cx) children (wx_emitted cw)"
  proof (cases ow)
    case None
    with ow first show ?thesis by simp
  next
    case (Some p)
    with ow obtain k where "children = [j, k]" "plan_body we blocks (fst p) cz = Inr (k, cw)"
      by (auto simp: bindE_iffs split: prod.splits)
    with grows_trans[OF first plan_body_grows] show ?thesis by simp
  qed
  moreover have "gn_children gn = children" using gn by (auto simp: guard_fields_def bindE_iffs split: if_splits)
  ultimately show ?thesis using grows_owner[of _ m] m by (simp add: em)
qed

lemma plan_items_grows: "plan_items we blocks its cx = Inr (is, cy) \<Longrightarrow> grows (wx_emitted cx) is (wx_emitted cy)"
proof (induction its arbitrary: cx "is")
  case (Cons it its)
  then obtain i cz js where p: "plan_item we blocks it cx = Inr (i, cz)" "plan_items we blocks its cz = Inr (js, cy)" "is = i # js"
    by (auto simp: bindE_iffs)
  have "grows (wx_emitted cx) [i] (wx_emitted cz)"
    using p(1) by (cases it) (auto simp: plan_item_def intro: plan_body_grows plan_guard_grows)
  from grows_trans[OF this Cons.IH[OF p(2)]] p(3) show ?case by simp
qed (simp add: grows_same)

text \<open>The nodes of a body, and the ids at its top, as a forest.\<close>

definition forest :: "lnode list \<Rightarrow> string list \<Rightarrow> bool" where
  "forest ns top_ids \<longleftrightarrow> distinct (ids ns) \<and> mset (ids ns) = mset (owned ns) + mset top_ids"

lemma plan_workflow_forest:
  assumes "plan_workflow de d service = Inr (top_ids, cx)" and "distinct (ids (wx_emitted cx))"
  shows "forest (wx_emitted cx) top_ids"
  using plan_items_grows[OF assms(1)[unfolded plan_workflow_def]] assms(2) by (simp add: grows_def forest_def new_ctx_def)

lemma same_shape_children: "same_shape n m \<Longrightarrow> node_children m = node_children n"
  by (induction rule: same_shape.induct) simp_all

lemma forest_changes:
  assumes "forest ns top_ids" and "changes_ok ns ch" shows "forest (apply_changes ch ns) top_ids"
proof -
  let ?f = "\<lambda>n. case dget ch (ln_id n) of None \<Rightarrow> n | Some m \<Rightarrow> m"
  have d: "distinct (ids ns)" using assms(1) by (simp add: forest_def)
  have f: "ln_id (?f n) = ln_id n \<and> node_children (ln_node (?f n)) = node_children (ln_node n)" if n: "n \<in> set ns" for n
  proof (cases "dget ch (ln_id n)")
    case (Some m)
    with assms(2) obtain n' where "n' \<in> set ns" "ln_id n' = ln_id n" "ln_id m = ln_id n" "same_shape (ln_node n') (ln_node m)"
      by (auto simp: changes_ok_def)
    moreover from this(1,2) n d have "n' = n" by (metis distinct_map inj_onD)
    ultimately show ?thesis using Some same_shape_children by simp
  qed simp
  have i: "ids (apply_changes ch ns) = ids ns" using f by (simp add: apply_changes_def)
  have "owned (apply_changes ch ns) = owned ns"
    unfolding apply_changes_def map_map comp_def using f by (intro arg_cong[where f = concat] map_cong) simp_all
  with i assms(1) show ?thesis by (simp only: forest_def)
qed

lemma forest_owners:
  assumes "forest ns top_ids"
  shows "distinct top_ids" "distinct (owned ns)" "set top_ids \<inter> set (owned ns) = {}" "set (ids ns) = set (owned ns) \<union> set top_ids"
proof -
  from assms have "mset (ids ns) = mset (owned ns @ top_ids)" "distinct (ids ns)" by (simp_all add: forest_def)
  then have "distinct (owned ns @ top_ids)" "set (ids ns) = set (owned ns @ top_ids)"
    by (metis mset_eq_imp_distinct_iff, metis mset_eq_setD)
  then show "distinct top_ids" "distinct (owned ns)" "set top_ids \<inter> set (owned ns) = {}" "set (ids ns) = set (owned ns) \<union> set top_ids"
    by auto
qed

lemma distinct_concat_owner:
  "distinct (concat (map f xs)) \<Longrightarrow> x \<in> set xs \<Longrightarrow> y \<in> set xs \<Longrightarrow> c \<in> set (f x) \<Longrightarrow> c \<in> set (f y) \<Longrightarrow> x = y"
  by (induction xs) auto

lemma forest_owner:
  assumes "forest ns top_ids" and "n \<in> set ns" and "n' \<in> set ns"
    and "c \<in> set (node_children (ln_node n))" and "c \<in> set (node_children (ln_node n'))"
  shows "n = n'"
  using distinct_concat_owner[OF forest_owners(2)[OF assms(1)] assms(2-5)] .

lemma forest_child_distinct:
  assumes "forest ns top_ids" and "n \<in> set ns" shows "distinct (node_children (ln_node n))"
  using forest_owners(2)[OF assms(1)] assms(2) by (auto simp: distinct_concat_iff)

end
