(* ===== verification/Compiled.thy ===== *)
theory Compiled
  imports PlanForest
begin

text \<open>
  What the checks of \<open>lower\<close> leave behind in a compiled document. Each workflow's body is a forest that was
  emitted, changed and checked as one; nothing later touches it. So a fact that a check establishes for
  the emitted nodes holds of the document, and every step, block, guard and effect of the document is in one body.
\<close>

section \<open>Checked bodies\<close>

text \<open>What a workflow's body consists of.\<close>

definition is_own :: "node \<Rightarrow> bool" where
  "is_own n \<longleftrightarrow> is_item n \<or> is_effect n"

definition checked_body :: "doc_env \<Rightarrow> lnode list \<Rightarrow> string list \<Rightarrow> string \<Rightarrow> bool" where
  "checked_body de ns top_ids name \<longleftrightarrow> forest ns top_ids \<and>
     check_event_refs ns (de_events de) name = Inr () \<and> check_fail_is_guarded ns top_ids name = Inr () \<and>
     check_parallel_write_conflict ns name = Inr () \<and>
     check_cached_read_not_written ns (de_registry de) name = Inr ()"

definition body_of :: "doc_env \<Rightarrow> lnode list \<Rightarrow> lnode \<Rightarrow> lnode list \<Rightarrow> bool" where
  "body_of de ns w body \<longleftrightarrow> set body \<subseteq> set ns \<and> (\<exists>name. checked_body de body (node_children (ln_node w)) name)"

definition bodies :: "doc_env \<Rightarrow> lnode list \<Rightarrow> bool" where
  "bodies de ns \<longleftrightarrow> (\<forall>w \<in> set ns. is_workflow (ln_node w) \<longrightarrow> (\<exists>body. body_of de ns w body)) \<and>
     (\<forall>n \<in> set ns. is_own (ln_node n) \<longrightarrow> (\<exists>w \<in> set ns. \<exists>body. body_of de ns w body \<and> n \<in> set body))"

lemma body_of_mono: "body_of de ns w body \<Longrightarrow> set ns \<subseteq> set ms \<Longrightarrow> body_of de ms w body"
  by (auto simp: body_of_def)

lemma bodies_add:
  assumes "bodies de ns" and "w \<in> set ms \<and> body_of de ms w body"
    and "\<And>n. n \<in> set ms \<Longrightarrow> n \<in> set ns \<or> n = w \<or> n \<in> set body \<or> \<not> is_own (ln_node n) \<and> \<not> is_workflow (ln_node n)"
    and "set ns \<subseteq> set ms" and "is_workflow (ln_node w)"
    and "\<And>n. n \<in> set body \<Longrightarrow> \<not> is_workflow (ln_node n)"
  shows "bodies de ms"
  unfolding bodies_def
proof (intro conjI ballI impI)
  have own: "\<not> is_own (ln_node w)" using assms(5) by (auto simp: is_own_def elim: is_workflow.elims)
  fix n assume n: "n \<in> set ms"
  {
    assume "is_workflow (ln_node n)"
    with assms(3)[OF n] assms(6) consider "n \<in> set ns" | "n = w" by blast
    then show "\<exists>body. body_of de ms n body"
    proof cases
      case 1
      with assms(1) \<open>is_workflow (ln_node n)\<close> obtain b where "body_of de ns n b" by (auto simp: bodies_def)
      from body_of_mono[OF this assms(4)] show ?thesis ..
    qed (use assms(2) in blast)
  next
    assume "is_own (ln_node n)"
    with assms(3)[OF n] own consider "n \<in> set ns" | "n \<in> set body" by blast
    then show "\<exists>w \<in> set ms. \<exists>body. body_of de ms w body \<and> n \<in> set body"
    proof cases
      case 1
      with assms(1) \<open>is_own (ln_node n)\<close> obtain v b where "v \<in> set ns" "body_of de ns v b" "n \<in> set b" by (auto simp: bodies_def)
      with body_of_mono[OF _ assms(4)] assms(4) show ?thesis by blast
    qed (use assms(2) in blast)
  }
qed

lemma bodies_more:
  assumes "bodies de ns" and "set ns \<subseteq> set ms"
    and "\<And>n. n \<in> set ms \<Longrightarrow> n \<in> set ns \<or> \<not> is_own (ln_node n) \<and> \<not> is_workflow (ln_node n)"
  shows "bodies de ms"
  using assms body_of_mono[OF _ assms(2)] unfolding bodies_def by blast

text \<open>Counted over a module: the ids of body nodes and the ids that bodies and workflows own are the same.\<close>

definition balanced :: "lnode list \<Rightarrow> bool" where
  "balanced ns \<longleftrightarrow> mset (ids (filter (\<lambda>n. is_own (ln_node n)) ns)) =
     mset (owned (filter (\<lambda>n. is_own (ln_node n) \<or> is_workflow (ln_node n)) ns))"

lemma balanced_append: "balanced ns \<Longrightarrow> balanced ms \<Longrightarrow> balanced (ns @ ms)"
  by (simp add: balanced_def)

lemma balanced_bare: "\<forall>n \<in> set ns. \<not> is_own (ln_node n) \<and> \<not> is_workflow (ln_node n) \<Longrightarrow> balanced ns"
  by (simp add: balanced_def filter_empty_conv)

lemma balanced_body:
  assumes "forest body (node_children (ln_node w))" and "is_workflow (ln_node w)" and "\<forall>n \<in> set body. is_own (ln_node n)"
  shows "balanced (w # body)"
proof -
  have "\<not> is_own (ln_node w)" using assms(2) by (auto simp: is_own_def elim: is_workflow.elims)
  moreover have "filter (\<lambda>n. is_own (ln_node n)) body = body"
    "filter (\<lambda>n. is_own (ln_node n) \<or> is_workflow (ln_node n)) body = body"
    using assms(3) by (simp_all add: filter_id_conv)
  ultimately show ?thesis using assms(1,2) by (simp add: balanced_def forest_def)
qed

section \<open>Lowering a workflow\<close>

lemma apply_changes_append: "apply_changes ch (ns @ ms) = apply_changes ch ns @ apply_changes ch ms"
  by (simp add: apply_changes_def)

text \<open>The changes of one body touch no other node.\<close>

lemma apply_changes_other:
  assumes "changes_ok emitted ch" and "set (ids ns) \<inter> set (ids emitted) = {}"
  shows "apply_changes ch ns = ns"
proof -
  have "dget ch (ln_id n) = None" if "n \<in> set ns" for n
  proof (cases "dget ch (ln_id n)")
    case (Some m)
    with assms(1) obtain n' where "n' \<in> set emitted" "ln_id n' = ln_id n" by (auto simp: changes_ok_def)
    then have "ln_id n \<in> set (ids ns) \<inter> set (ids emitted)" using that by (metis IntI image_eqI set_map)
    with assms(2) show ?thesis by simp
  qed simp
  then show ?thesis unfolding apply_changes_def by (intro map_idI) simp
qed

lemma lower_workflow_bodies:
  assumes "lower_workflow de (i, d, service) (m, emits) = Inr (m', emits')" and "list_all item_guard_ok (items (d_body d))"
    and "distinct (ids (lm_nodes m))" and "bodies de (lm_nodes m)"
  shows "bodies de (lm_nodes m')" and "set (lm_nodes m) \<subseteq> set (lm_nodes m')"
    and "balanced (lm_nodes m) \<Longrightarrow> balanced (lm_nodes m')"
proof -
  from lower_workflow_stages[OF assms(1)] obtain top_ids cx k ch ds where
    plan: "plan_workflow de d service = Inr (top_ids, cx)"
    and add': "foldE module_add (workflow_node d top_ids # wx_emitted cx) m = Inr k"
    and chk: "check_workflow de (d_name d) service top_ids cx = Inr (ch, ds)"
    and m': "lm_nodes m' = apply_changes ch (lm_nodes k)" .
  obtain w where w0: "w = workflow_node d top_ids" by blast
  then have w: "node_children (ln_node w) = top_ids" "is_workflow (ln_node w)" by simp_all
  note add = add'[folded w0]
  let ?body = "apply_changes ch (wx_emitted cx)"
  from module_adds[OF add] assms(3) have "lm_nodes k = lm_nodes m @ w # wx_emitted cx" and dk: "distinct (ids (lm_nodes k))"
    by blast+
  then have k: "lm_nodes k = (lm_nodes m @ [w]) @ wx_emitted cx" by simp
  have ok: "changes_ok (wx_emitted cx) ch" using chk by (rule check_workflow_stages) (blast intro: check_scoped_conditions_keeps)
  have "distinct (ids (lm_nodes m @ [w]) @ ids (wx_emitted cx))" using dk unfolding k map_append .
  then have apart: "set (ids (lm_nodes m @ [w])) \<inter> set (ids (wx_emitted cx)) = {}" and d: "distinct (ids (wx_emitted cx))"
    by (simp_all only: distinct_append)
  have new: "lm_nodes m' = (lm_nodes m @ [w]) @ ?body"
    unfolding m' k apply_changes_append[of ch "lm_nodes m @ [w]"] apply_changes_other[OF ok apart] ..
  show "set (lm_nodes m) \<subseteq> set (lm_nodes m')" unfolding new by auto
  have f: "forest ?body top_ids" by (rule forest_changes[OF plan_workflow_forest[OF plan d] ok])
  have "checked_body de ?body top_ids (d_name d)" using chk by (rule check_workflow_stages) (use f in \<open>simp add: checked_body_def\<close>)
  then have b: "body_of de (lm_nodes m') w ?body" unfolding new body_of_def w(1) set_append by blast
  have own: "is_own (ln_node n)" if "n \<in> set ?body" for n
  proof -
    from that obtain n0 where n0: "n0 \<in> set (wx_emitted cx)" "n = (case dget ch (ln_id n0) of None \<Rightarrow> n0 | Some m \<Rightarrow> m)"
      by (auto simp: apply_changes_def)
    have own0: "is_own (ln_node n0)" if "n0 \<in> set (wx_emitted cx)" for n0
      using plan_workflow_ok[OF plan assms(2)] that by (auto simp: emits_ok_def list_all_iff is_own_def)
    show ?thesis
    proof (cases "dget ch (ln_id n0)")
      case (Some k)
      with ok obtain n' where "n' \<in> set (wx_emitted cx)" "same_shape (ln_node n') (ln_node k)" by (auto simp: changes_ok_def)
      with own0[OF this(1)] n0(2) Some show ?thesis by (auto elim!: same_shape.cases simp: is_own_def)
    qed (use n0 own0 in simp)
  qed
  have "\<not> is_workflow (ln_node n)" if "n \<in> set ?body" for n
    using own[OF that] by (auto simp: is_own_def elim: is_workflow.elims)
  note nowf = this
  have "balanced (w # ?body)" by (rule balanced_body) (use f w own in simp_all)
  with new balanced_append[of "lm_nodes m" "w # ?body"] show "balanced (lm_nodes m) \<Longrightarrow> balanced (lm_nodes m')" by simp
  show "bodies de (lm_nodes m')"
    by (intro bodies_add[OF assms(4) _ _ _ w(2), of _ ?body]) (use b nowf in \<open>auto simp: new\<close>)
qed

lemma lower_workflows_bodies:
  assumes "foldE (lower_workflow de) ps (m, emits) = Inr (m', emits')" and "\<forall>p \<in> set ps. decl_guards_ok (fst (snd p))"
    and "part_ok (lm_nodes m)" and "bodies de (lm_nodes m)"
  shows "bodies de (lm_nodes m') \<and> set (lm_nodes m) \<subseteq> set (lm_nodes m') \<and> (balanced (lm_nodes m) \<longrightarrow> balanced (lm_nodes m'))"
  using assms
proof (induction ps arbitrary: m emits)
  case (Cons p ps)
  obtain i d service where p: "p = (i, d, service)" by (cases p)
  from Cons.prems(1) obtain k es where s: "lower_workflow de p (m, emits) = Inr (k, es)"
    "foldE (lower_workflow de) ps (k, es) = Inr (m', emits')" by (auto simp: bindE_iffs)
  have g: "list_all item_guard_ok (items (d_body d))" using Cons.prems(2) p by (simp add: decl_guards_ok_def)
  have "part_ok (lm_nodes k)" using lower_workflow_ok[OF s(1)[unfolded p] g Cons.prems(3)] by blast
  moreover have "distinct (ids (lm_nodes m))" using Cons.prems(3) by (simp add: part_ok_def)
  note lower_workflow_bodies[OF s(1)[unfolded p] g this Cons.prems(4)]
  ultimately show ?case using Cons.IH[OF s(2)] Cons.prems(2) by (auto simp: p)
qed simp

section \<open>The other declarations\<close>

text \<open>Everything else is neither a part of a body nor a workflow.\<close>

definition bare :: "lnode list \<Rightarrow> bool" where
  "bare ns \<longleftrightarrow> (\<forall>n \<in> set ns. \<not> is_own (ln_node n) \<and> \<not> is_workflow (ln_node n))"

lemma constraint_bare: "is_constraint n \<Longrightarrow> \<not> is_own n \<and> \<not> is_workflow n"
  by (cases n) (simp_all add: is_own_def)

lemma lower_events_bare:
  "foldE (lower_event wids) ds st = Inr st' \<Longrightarrow> bare (lm_nodes (es_module st)) \<Longrightarrow> bare (lm_nodes (es_module st'))"
proof (induction ds arbitrary: st)
  case (Cons d ds)
  then obtain k where k: "lower_event wids d st = Inr k" "foldE (lower_event wids) ds k = Inr st'" by (auto simp: bindE_iffs)
  have "bare (lm_nodes (es_module k))"
    by (rule lower_event_nodes[OF k(1)]) (use Cons.prems(2) in \<open>auto simp: bare_def is_own_def\<close>)
  from Cons.IH[OF k(2) this] show ?case .
qed simp

lemma first_nodes_bare:
  assumes "lower_services reg bases decls = Inr services"
  shows "bare (map (\<lambda>(n, b, fs). refinement_node n b fs) refs @ concat (map (\<lambda>(_, s). ls_nodes s) services) @
      map entity_node (entities_of reg))"
  unfolding bare_def
proof
  fix n assume n: "n \<in> set (map (\<lambda>(n, b, fs). refinement_node n b fs) refs @ concat (map (\<lambda>(_, s). ls_nodes s) services) @
      map entity_node (entities_of reg))"
  then consider (s) i s where "(i, s) \<in> set services" "n \<in> set (ls_nodes s)"
    | (r) nm b fs where "n = refinement_node nm b fs" | (e) e where "n = entity_node e" by auto
  then show "\<not> is_own (ln_node n) \<and> \<not> is_workflow (ln_node n)"
  proof cases
    case s
    from mapE_mem[OF assms(1)[unfolded lower_services_def Let_def] s(1)] obtain d wids caps k where
      "lower_service reg bases caps k wids d = Inr s" by (auto simp: bindE_iffs split: prod.splits)
    then show ?thesis
    proof (rule lower_service_nodes)
      fix na goals exposes
      assume l: "ls_nodes s = na # goals @ exposes" "ln_node na = Service (d_name d) (ids goals @ wids @ ids exposes) (ids (ls_constraints s))"
        "list_all (\<lambda>n. ln_node n \<in> {OtherNode ''BusinessRule'', OtherNode ''Expose''}) (goals @ exposes)"
      from s(2) have "n = na \<or> n \<in> set (goals @ exposes)" by (simp add: l(1))
      with l(3) consider "n = na" | "ln_node n = OtherNode ''BusinessRule''" | "ln_node n = OtherNode ''Expose''"
        unfolding list_all_iff by blast
      then show ?thesis using l(2) by cases (simp_all add: is_own_def)
    qed
  qed (simp_all add: refinement_node_def entity_node_def is_own_def)
qed

lemma lower_events_find:
  "foldE (lower_event wids) ds st = Inr st' \<Longrightarrow> part_ok (lm_nodes (es_module st)) \<Longrightarrow> d \<in> set ds \<Longrightarrow>
     finds (doc_of (lm_nodes (es_module st'))) is_event (derive_id (d_name d) KEvent None)"
proof (induction ds arbitrary: st)
  case (Cons e ds)
  then obtain k where k: "lower_event wids e st = Inr k" "foldE (lower_event wids) ds k = Inr st'" by (auto simp: bindE_iffs)
  from lower_event_ok[OF k(1) Cons.prems(2)] have ok: "part_ok (lm_nodes (es_module k))" by blast
  show ?case
  proof (cases "d = e")
    case True
    have "finds (doc_of (lm_nodes (es_module k))) is_event (derive_id (d_name d) KEvent None)"
      by (rule lower_event_nodes[OF k(1)]) (use True in \<open>auto simp: finds_def\<close>)
    from finds_evolves[OF this kind_tests(8)] lower_events_ok[OF k(2) ok] show ?thesis by blast
  next
    case False
    with Cons.IH[OF k(2) ok] Cons.prems(3) show ?thesis by simp
  qed
qed simp

section \<open>The document\<close>

lemma lower_bodies:
  assumes "lower lib decls name = Inr m" and "list_all decl_guards_ok decls"
  obtains de where "bodies de (lm_nodes m)" and "balanced (lm_nodes m)"
    and "\<forall>e \<in> set (de_events de). finds (to_document m) is_event e"
proof -
  let ?wfs = "of_kind ''workflow'' (place_decls None 0 decls)" and ?evs = "map (\<lambda>d. derive_id (d_name d) KEvent None) (decls_of_kind ''event'' decls)"
  from lower_stages[OF assms(1)] obtain refs bases reg services m0 st de m1 emits caps where
    s: "lower_services reg bases decls = Inr services"
    and m0: "lm_nodes m0 = map (\<lambda>(n, b, fs). refinement_node n b fs) refs @ concat (map (\<lambda>(_, s). ls_nodes s) services) @
           map entity_node (entities_of reg)" "distinct (ids (lm_nodes m0))"
    and st: "foldE (lower_event (map (\<lambda>(_, w, _). derive_id (d_name w) KWorkflow None) ?wfs))
           (decls_of_kind ''event'' decls) \<lparr>es_module = m0, es_sources = [], es_consumes = []\<rparr> = Inr st"
    and wf: "foldE (lower_workflow de) ?wfs (es_module st, []) = Inr (m1, emits)"
    and de: "de_events de = ?evs"
    and m: "lm_nodes m = lm_nodes m1 @ concat (map (\<lambda>(_, s). ls_constraints s) services) @
           map (capability_node caps) (decls_of_kind ''capability'' decls)" .
  have p0: "part_ok (lm_nodes m0)"
    using m0(2) first_nodes_ok[OF s, of _ refs] by (simp only: part_ok_def m0(1)) blast
  with lower_events_ok[OF st] have p1: "part_ok (lm_nodes (es_module st))" by simp
  have g: "\<forall>p \<in> set ?wfs. decl_guards_ok (fst (snd p))"
    using assms(2) placed_decl by (fastforce simp: of_kind_def list_all_iff)
  have "bare (lm_nodes (es_module st))"
    using lower_events_bare[OF st] first_nodes_bare[OF s, of refs] by (simp only: m0(1) event_state.simps)
  then have "bodies de (lm_nodes (es_module st))" "balanced (lm_nodes (es_module st))"
    by (auto simp: bare_def bodies_def intro: balanced_bare)
  with lower_workflows_bodies[OF wf g p1] have b1: "bodies de (lm_nodes m1)" and bal: "balanced (lm_nodes m1)" by blast+
  have rest: "bare (concat (map (\<lambda>(_, s). ls_constraints s) services) @
      map (capability_node caps) (decls_of_kind ''capability'' decls))"
    unfolding bare_def
  proof
    fix n assume "n \<in> set (concat (map (\<lambda>(_, s). ls_constraints s) services) @ map (capability_node caps) (decls_of_kind ''capability'' decls))"
    then consider i s where "(i, s) \<in> set services" "n \<in> set (ls_constraints s)" | d where "n = capability_node caps d" by auto
    then show "\<not> is_own (ln_node n) \<and> \<not> is_workflow (ln_node n)"
    proof cases
      case 1
      from constraint_bare[OF service_constraints[OF s 1]] show ?thesis .
    qed (simp_all add: capability_node_def is_own_def)
  qed
  then have "balanced (lm_nodes m)" unfolding m bare_def by (intro balanced_append[OF bal] balanced_bare)
  moreover
  have "bodies de (lm_nodes m)"
    by (rule bodies_more[OF b1]) (use rest in \<open>auto simp: m bare_def\<close>)
  moreover have "finds (to_document m) is_event e" if "e \<in> set (de_events de)" for e
  proof -
    from that de obtain d where d: "d \<in> set (decls_of_kind ''event'' decls)" "e = derive_id (d_name d) KEvent None" by auto
    from lower_events_find[OF st _ d(1)] p0 d(2) have "finds (doc_of (lm_nodes (es_module st))) is_event e" by simp
    moreover have "evolves (lm_nodes (es_module st)) (lm_nodes m1)" using lower_workflows_ok[OF wf g p1] by blast
    moreover have "evolves (lm_nodes m1) (lm_nodes m)" by (rule evolves_subset) (simp add: m)
    ultimately show ?thesis using finds_evolves[OF _ kind_tests(8)] by (simp only: to_document_doc_of) blast
  qed
  ultimately show ?thesis using that by blast
qed

lemma eachE_Inr: "eachE f xs = Inr u \<Longrightarrow> x \<in> set xs \<Longrightarrow> f x = Inr ()"
  by (induction xs) (auto simp: bindE_iffs)

lemma check_event_refs_ok:
  assumes "check_event_refs ns evs name = Inr u" and "n \<in> set ns" and "ln_node n = Effect (EventEmit ev pm)"
  shows "\<exists>e \<in> set evs. ev = Some e"
proof -
  from assms(2,3) have "(n, ev) \<in> set (event_emits ns)" by (force simp: event_emits_def)
  from eachE_Inr[OF assms(1)[unfolded check_event_refs_def] this] show ?thesis by (auto split: option.splits if_splits)
qed

lemma lower_events_declared:
  assumes "lower lib decls name = Inr m" and "list_all decl_guards_ok decls"
  shows "events_declared (to_document m)"
  unfolding events_declared_def
proof (intro ballI)
  from lower_bodies[OF assms] obtain de where b: "bodies de (lm_nodes m)"
    and e: "\<forall>e \<in> set (de_events de). finds (to_document m) is_event e" .
  fix p assume "p \<in> set (to_document m)"
  then obtain n where n: "n \<in> set (lm_nodes m)" "p = (ln_id n, ln_node n)" by (auto simp: to_document_doc_of doc_of_def)
  have "\<exists>e. ev = Some e \<and> finds (to_document m) is_event e" if eff: "ln_node n = Effect (EventEmit ev pm)" for ev pm
  proof -
    from eff have "is_own (ln_node n)" by (simp add: is_own_def)
    with b n(1) obtain w body where "body_of de (lm_nodes m) w body" "n \<in> set body"
      unfolding bodies_def by (elim conjE) (drule bspec, assumption, blast)
    then obtain name where "check_event_refs body (de_events de) name = Inr ()" "n \<in> set body"
      unfolding body_of_def checked_body_def by blast
    from check_event_refs_ok[OF this eff] e show ?thesis by blast
  qed
  then show "case p of (i, n) \<Rightarrow> \<forall>ev pm. n = Effect (EventEmit ev pm) \<longrightarrow> (\<exists>e. ev = Some e \<and> finds (to_document m) is_event e)"
    unfolding n(2) by (simp only: prod.case) blast
qed

end
