(* ===== verification/Machine.thy ===== *)
theory Machine
  imports Store Validate
begin

text \<open>
  The state of an \<open>Interpreter\<close> during a run and the sequencing of computations that change it and
  may raise. A computation returns its value or its exception together with the state it leaves:
  what a failing effect already wrote stays written, as in Python.
\<close>

section \<open>State\<close>

record emission =
  em_id :: string
  em_event :: string
  em_payload :: pyval

record net_call =
  nc_target :: string
  nc_body :: pyval
  nc_remaining :: int
  nc_path_args :: "pyval list"

record step_record =
  sr_step :: string
  sr_attempts :: nat
  sr_duration :: int
  sr_effects :: "string list"

record skip_record =
  sk_guard :: string
  sk_mode :: string
  sk_condition :: "string option"
  sk_steps :: "string list"
  sk_rounds :: "nat option"
  sk_evaluations :: "evaluation list"

text \<open>Why a run failed: an error of a step, or the deadline noticed after a step that succeeded.\<close>

datatype failure = StepFailed string run_error | DeadlineAfter string

text \<open>One entry of \<open>repo_ops\<close>: entity, operation, key, lookup.\<close>

type_synonym repo_op = "string \<times> string \<times> string option \<times> string option"

type_synonym diagnostic = "string \<times> string \<times> string"

record istate =
  st_objs :: heap
  st_repo :: repo
  st_cache :: cache
  st_clock :: clock
  st_outbox :: "emission list"
  st_diags :: "diagnostic list"
  st_ops :: "repo_op list"
  st_net :: "net_call list"
  st_rt_writes :: "string list"
  st_rt_invals :: "string list"
  st_bindings :: "(string, nat) dict"
  st_rowsets :: "(string, nat list) dict"
  st_keys :: "(string, string) dict"
  st_steps :: "step_record list"
  st_skipped :: "skip_record list"
  st_refs :: "string list"
  st_terms :: "(string \<times> response_node) list"
  st_notes :: "(string \<times> pyval list) list"
  st_failed :: "failure option"

text \<open>The constraints of the owning service (\<open>_constraints\<close>).\<close>

record constraints =
  cn_retry :: int
  cn_timeout :: "int option"
  cn_rollback :: bool
  cn_cache_ttl :: "int option"
  cn_response_slo :: "int option"
  cn_parallel :: pyval

text \<open>
  What stays fixed during a run. \<open>en_network\<close> is the network driver (it sees the calls made so far,
  so it may answer the same call differently; \<open>Inl\<close> is a \<open>DriverError\<close>), \<open>en_search\<close> is \<open>re.search\<close>,
  \<open>en_depth\<close> the nesting depth at which Python's recursion limit stops a generator. Threads and the
  wall clock of a \<open>parallel\<close> block are \<open>en_schedule\<close>, the order in which the workers of a block run
  and the moment its pending steps are cancelled, and \<open>en_wall\<close>, the real duration of a step.
\<close>

datatype par_event = AttemptStep nat | CancelPending

record env =
  en_doc :: document
  en_payload :: row
  en_caller :: "row option"
  en_con :: constraints
  en_deadline :: "int option"
  en_context :: "(string \<times> string) list"
  en_search :: "string \<Rightarrow> string \<Rightarrow> bool"
  en_network :: "net_call list \<Rightarrow> net_call \<Rightarrow> string + int \<times> pyval"
  en_depth :: nat
  en_schedule :: "string \<Rightarrow> par_event list"
  en_wall :: "string \<Rightarrow> int"

section \<open>Computations\<close>

type_synonym 'a run = "istate \<Rightarrow> (run_exc + 'a) \<times> istate"

definition ret :: "'a \<Rightarrow> 'a run" where
  "ret x s = (Inr x, s)"

definition raise :: "run_exc \<Rightarrow> 'a run" where
  "raise e s = (Inl e, s)"

definition bindM :: "'a run \<Rightarrow> ('a \<Rightarrow> 'b run) \<Rightarrow> 'b run" where
  "bindM m f s = (case m s of (Inl e, t) \<Rightarrow> (Inl e, t) | (Inr x, t) \<Rightarrow> f x t)"

definition liftM :: "(istate \<Rightarrow> run_exc + 'a) \<Rightarrow> 'a run" where
  "liftM f s = (f s, s)"

definition getM :: "(istate \<Rightarrow> 'a) \<Rightarrow> 'a run" where
  "getM f s = (Inr (f s), s)"

definition updM :: "(istate \<Rightarrow> istate) \<Rightarrow> unit run" where
  "updM f s = (Inr (), f s)"

lemmas run_defs = ret_def raise_def liftM_def getM_def updM_def

lemma bindM_cong [fundef_cong]:
  "m = m' \<Longrightarrow> (\<And>x. f x = g x) \<Longrightarrow> bindM m f = bindM m' g"
  by (rule ext) (simp add: bindM_def split: prod.split sum.split)

definition advance :: "int option \<Rightarrow> unit run" where
  "advance ms = updM (\<lambda>s. s\<lparr>st_clock := clock_advance (st_clock s) ms\<rparr>)"

definition now_of :: "istate \<Rightarrow> int" where
  "now_of s = ck_now (st_clock s)"

definition note_diag :: "string \<Rightarrow> string \<Rightarrow> string \<Rightarrow> unit run" where
  "note_diag code place subject = updM (\<lambda>s. s\<lparr>st_diags := st_diags s @ [(code, place, subject)]\<rparr>)"

definition note_op :: "repo_op \<Rightarrow> unit run" where
  "note_op op = updM (\<lambda>s. s\<lparr>st_ops := st_ops s @ [op]\<rparr>)"

text \<open>A dictionary literal: a fresh object.\<close>

definition new_obj :: "obj \<Rightarrow> nat run" where
  "new_obj x s = (Inr (length (st_objs s)), s\<lparr>st_objs := st_objs s @ [x]\<rparr>)"

section \<open>Reading the state\<close>

definition deref :: "istate \<Rightarrow> nat \<Rightarrow> pyval" where
  "deref s a = PDict (row_at (st_objs s) a)"

text \<open>The scope \<open>resolve_reference\<close> is called with: payload, bound rows, claims.\<close>

definition scope_of :: "env \<Rightarrow> istate \<Rightarrow> scope" where
  "scope_of env s = \<lparr>sc_payload = en_payload env,
     sc_bindings = map (\<lambda>(n, a). (n, deref s a)) (st_bindings s),
     sc_caller = en_caller env, sc_response = None\<rparr>"

definition rowsets_of :: "istate \<Rightarrow> (string, pyval list) dict" where
  "rowsets_of s = map (\<lambda>(n, rs). (n, map (deref s) rs)) (st_rowsets s)"

text \<open>\<open>getattr(bindings.get(binding), "entity_id", None)\<close>.\<close>

definition created_entity :: "istate \<Rightarrow> string \<Rightarrow> string option" where
  "created_entity s b = (case dget (st_bindings s) b of None \<Rightarrow> None | Some a \<Rightarrow> ob_entity (st_objs s ! a))"

text \<open>\<open>_resolve_entity_for_binding\<close>: the fields of the entity behind a binding.\<close>

definition binding_fields :: "env \<Rightarrow> istate \<Rightarrow> string \<Rightarrow> field_decl list option" where
  "binding_fields env s b =
     (case (case created_entity s b of Some e \<Rightarrow> Some e | None \<Rightarrow> entity_for_binding (en_doc env) b) of
        None \<Rightarrow> None
      | Some e \<Rightarrow> entity_fields (en_doc env) e)"

text \<open>The entities some \<open>cached\<close> read targets (\<open>_read_through_entities\<close>).\<close>

definition read_through_entities :: "document \<Rightarrow> string list" where
  "read_through_entities doc =
     concat (map (\<lambda>(_, n). case n of Effect (RepositoryCall c) \<Rightarrow> if rc_cached c then [rc_entity c] else [] | _ \<Rightarrow> []) doc)"

section \<open>The caller\<close>

text \<open>\<open>caller_view\<close>: \<open>subject\<close> and \<open>role\<close> from the verified claims.\<close>

definition caller_role :: "row \<Rightarrow> pyval" where
  "caller_role claims =
     (case dget claims ''role'' of
        Some (PStr s) \<Rightarrow> PStr s
      | Some _ \<Rightarrow> PNone
      | None \<Rightarrow> (case dget claims ''roles'' of Some (PList [PStr s]) \<Rightarrow> PStr s | _ \<Rightarrow> PNone))"

definition caller_view :: "row option \<Rightarrow> row option" where
  "caller_view claims =
     map_option (\<lambda>c. [(''subject'', pget c ''sub''), (''role'', caller_role c)]) claims"

end
