(* ===== verification/Effects.thy ===== *)
theory Effects
  imports Machine
begin

text \<open>
  \<open>Interpreter._run_effect\<close> of \<open>impl/lnpl/interp.py\<close>, one definition per effect kind, on the
  in-memory repository and cache. The branches that exist only for another driver (\<open>DriverError\<close>
  from the repository or the cache, the schema stamp, the predicate fallback) are not taken there.
  A \<open>CacheAccess set\<close> stores the payload, which no effect writes, as a fresh copy.
\<close>

section \<open>Run context and keys\<close>

definition fill_values :: "env \<Rightarrow> string \<Rightarrow> run_exc + row" where
  "fill_values env entity =
     (case entity_fields (en_doc env) entity of
        None \<Rightarrow> Inr []
      | Some fs \<Rightarrow>
          mapE (\<lambda>f. case fd_fill f of
                  None \<Rightarrow> Inl (Escaped PyKeyError)
                | Some src \<Rightarrow> (case map_of (en_context env) src of
                    None \<Rightarrow> Inl (Escaped PyKeyError)
                  | Some v \<Rightarrow> Inr (fd_name f, PStr v))) (filter (\<lambda>f. fd_fill f \<noteq> None) fs))"

definition resolve_lookup_key :: "string \<Rightarrow> string option \<Rightarrow> scope \<Rightarrow> run_exc + string" where
  "resolve_lookup_key entity lookup sc =
     (case lookup of
        None \<Rightarrow> Inr (row_key entity (sc_payload sc))
      | Some ref \<Rightarrow>
          (let v = resolve_reference (no_response sc) ref in
           if v = PNone then Inl (RunError (LookupUnresolved entity ref))
           else Inr (row_key entity [(''id'', v)])))"

section \<open>Assignment\<close>

definition run_aggregate ::
  "env \<Rightarrow> istate \<Rightarrow> agg_func \<Rightarrow> string \<Rightarrow> string option \<Rightarrow> run_exc + pyval" where
  "run_aggregate env s func ref agg_field_type =
     (let fields = (case entity_for_binding (en_doc env) (aggregate_binding ref) of
                      None \<Rightarrow> None | Some e \<Rightarrow> entity_fields (en_doc env) e);
          optional = (case fields of None \<Rightarrow> False
                      | Some fs \<Rightarrow> list_ex (\<lambda>f. fd_name f = ref_field ref \<and> fd_optional f) fs) in
      eval_aggregate func ref (rowsets_of s) agg_field_type optional)"

definition of_cond :: "cond_exc + 'a \<Rightarrow> run_exc + 'a" where
  "of_cond r = (case r of Inr x \<Rightarrow> Inr x
     | Inl (ConditionError _) \<Rightarrow> Inl (Escaped PyConditionError)
     | Inl (ValueErr _) \<Rightarrow> Inl (Escaped PyValueError)
     | Inl (TypeErr _) \<Rightarrow> Inl (Escaped PyTypeError))"

text \<open>The value of the right-hand side; a reference that resolves to nothing is an error.\<close>

definition assigned_value :: "env \<Rightarrow> istate \<Rightarrow> string \<Rightarrow> string \<Rightarrow> string option \<Rightarrow> run_exc + pyval" where
  "assigned_value env s target expression agg_field_type =
     bindE (of_cond (parse_value_or_aggregate (Some expression))) (\<lambda>r.
     bindE (case r of
              RhsAggregate func ref \<Rightarrow> run_aggregate env s func ref agg_field_type
            | RhsFormat template args \<Rightarrow>
                Inr (case eval_format (scope_of env s) template args of None \<Rightarrow> PNone | Some t \<Rightarrow> PStr t)
            | RhsValue v \<Rightarrow> bindE (eval_value (scope_of env s) v) num_wire) (\<lambda>w.
     if w = PNone then Inl (RunError (AssignNothing target)) else Inr w))"

definition store_field :: "nat \<Rightarrow> string \<Rightarrow> pyval \<Rightarrow> unit run" where
  "store_field a f v = updM (\<lambda>s. s\<lparr>st_objs := put_field (st_objs s) a f v\<rparr>)"

definition persist_row :: "string \<Rightarrow> string \<Rightarrow> nat \<Rightarrow> unit run" where
  "persist_row entity key a = updM (\<lambda>s. s\<lparr>st_repo := repo_persist (st_repo s) entity key a\<rparr>)"

definition mark_written :: "env \<Rightarrow> string \<Rightarrow> string \<Rightarrow> unit run" where
  "mark_written env entity key =
     (if entity \<in> set (read_through_entities (en_doc env))
      then updM (\<lambda>s. s\<lparr>st_rt_invals := st_rt_invals s @ [key]\<rparr>) else ret ())"

text \<open>The key an assignment through \<open>binding\<close> is persisted under.\<close>

definition assign_key :: "env \<Rightarrow> istate \<Rightarrow> string \<Rightarrow> string \<Rightarrow> string" where
  "assign_key env s binding entity =
     (case dget (st_keys s) binding of Some k \<Rightarrow> k | None \<Rightarrow> row_key entity (en_payload env))"

definition assign_entity :: "env \<Rightarrow> istate \<Rightarrow> string \<Rightarrow> string option" where
  "assign_entity env s binding =
     (case entity_for_binding (en_doc env) binding of
        Some e \<Rightarrow> Some e
      | None \<Rightarrow> created_entity s binding)"

definition run_assignment :: "env \<Rightarrow> string \<Rightarrow> string \<Rightarrow> string option \<Rightarrow> unit run" where
  "run_assignment env target expression agg_field_type =
     (let (binding, _, field) = partition_at CHR ''.'' target in
      bindM (getM (\<lambda>s. dget (st_bindings s) binding)) (\<lambda>bound.
      case bound of
        None \<Rightarrow> raise (RunError (AssignUnbound target))
      | Some a \<Rightarrow>
          bindM (liftM (\<lambda>s. assigned_value env s target expression agg_field_type)) (\<lambda>v.
          bindM (store_field a field v) (\<lambda>_.
          bindM (getM (\<lambda>s. assign_entity env s binding)) (\<lambda>entity.
          case entity of
            None \<Rightarrow> raise (RunError (AssignNoEntity target))
          | Some e \<Rightarrow>
              bindM (getM (\<lambda>s. assign_key env s binding e)) (\<lambda>key.
              bindM (note_op (e, ''persist'', Some key, None)) (\<lambda>_.
              bindM (persist_row e key a) (\<lambda>_.
                mark_written env e key))))))))"

section \<open>Listing rows\<close>

definition term_value :: "scope \<Rightarrow> pred_term \<Rightarrow> run_exc + string \<times> string \<times> pyval" where
  "term_value sc t =
     bindE (of_cond (parse_value (Some (pt_value t)))) (\<lambda>v.
     bindE (resolve_predicate_value sc v) (\<lambda>w. Inr (pt_field t, pt_op t, w)))"

definition strip_rows :: "nat list \<Rightarrow> unit run" where
  "strip_rows rows = updM (\<lambda>s. s\<lparr>st_objs := fold (\<lambda>a h. pop_field h a schema_gen_key) rows (st_objs s)\<rparr>)"

definition run_query :: "env \<Rightarrow> repo_call \<Rightarrow> unit run" where
  "run_query env c =
     bindM (liftM (\<lambda>s. if rc_predicate c = [] then Inr None
                       else bindE (mapE (term_value (scope_of env s)) (rc_predicate c)) (\<lambda>ts. Inr (Some ts)))) (\<lambda>predicate.
     bindM (note_op (rc_entity c, ''query'', None, None)) (\<lambda>_.
     bindM (liftM (\<lambda>s. repo_query (st_objs s) (st_repo s) (rc_entity c) predicate (rc_order c) (rc_limit c))) (\<lambda>rows.
     bindM (strip_rows rows) (\<lambda>_.
       (case entity_name (en_doc env) (rc_entity c) of
          None \<Rightarrow> ret ()
        | Some nm \<Rightarrow> updM (\<lambda>s. s\<lparr>st_rowsets := dset (binding_name nm) rows (st_rowsets s)\<rparr>))))))"

section \<open>Reading and writing rows\<close>

definition execute_repo :: "string \<Rightarrow> string \<Rightarrow> string \<Rightarrow> nat option run" where
  "execute_repo entity operation key s =
     (let (res, h, r) = repo_execute (st_objs s) (st_repo s) entity operation key
      in (res, s\<lparr>st_objs := h, st_repo := r\<rparr>))"

definition cache_lookup :: "string \<Rightarrow> nat option run" where
  "cache_lookup key s =
     (let (hit, c) = cache_get (now_of s) (st_cache s) key in (Inr hit, s\<lparr>st_cache := c\<rparr>))"

definition cache_store :: "env \<Rightarrow> string \<Rightarrow> nat \<Rightarrow> unit run" where
  "cache_store env key a s =
     (case cache_set (now_of s) (st_cache s) key a (cn_cache_ttl (en_con env)) of
        Inl e \<Rightarrow> (Inl e, s)
      | Inr c \<Rightarrow> (Inr (), s\<lparr>st_cache := c\<rparr>))"

definition drop_cached :: "string \<Rightarrow> unit run" where
  "drop_cached key = updM (\<lambda>s. s\<lparr>st_cache := cache_invalidate (st_cache s) key\<rparr>)"

text \<open>The key of a call, with the fill values of a create (refused when nothing supplies its id).\<close>

definition call_key :: "env \<Rightarrow> repo_call \<Rightarrow> (row \<times> string) run" where
  "call_key env c =
     bindM (liftM (\<lambda>_. if rc_operation c = ''create'' then fill_values env (rc_entity c) else Inr [])) (\<lambda>fills.
     if rc_operation c = ''create'' \<and> \<not> dhas fills ''id'' \<and> pget (en_payload env) ''id'' = PNone
     then raise (RunError (IdRequired (rc_entity c)))
     else bindM (liftM (\<lambda>s. if dhas fills ''id'' then Inr (row_key (rc_entity c) [(''id'', pget fills ''id'')])
                            else resolve_lookup_key (rc_entity c) (rc_lookup c) (scope_of env s))) (\<lambda>key.
          ret (fills, key)))"

text \<open>The row of a call: from the cache for a \<open>cached\<close> one that hits, else from the repository.\<close>

definition fetch_row :: "env \<Rightarrow> repo_call \<Rightarrow> string \<Rightarrow> nat option run" where
  "fetch_row env c key =
     bindM (if rc_cached c then cache_lookup key else ret None) (\<lambda>hit.
     case hit of
       Some a \<Rightarrow> ret (Some a)
     | None \<Rightarrow>
         bindM (execute_repo (rc_entity c) (rc_operation c) key) (\<lambda>row.
         bindM (strip_rows (case row of None \<Rightarrow> [] | Some a \<Rightarrow> [a])) (\<lambda>_.
         bindM (case row of
                  Some a \<Rightarrow>
                    if rc_cached c then
                      bindM (cache_store env key a) (\<lambda>_. updM (\<lambda>s. s\<lparr>st_rt_writes := st_rt_writes s @ [key]\<rparr>))
                    else ret ()
                | None \<Rightarrow> ret ()) (\<lambda>_.
           ret row))))"

text \<open>The row \<open>create\<close> seeds from the payload.\<close>

definition seed_field :: "row \<Rightarrow> row \<Rightarrow> field_decl \<Rightarrow> row \<Rightarrow> row" where
  "seed_field fills payload f row =
     (if fd_fill f \<noteq> None then dset (fd_name f) (pget fills (fd_name f)) row
      else if fd_derived f then row
      else (case dget payload (fd_name f) of
              None \<Rightarrow> row
            | Some v \<Rightarrow> if fd_optional f \<and> v = PNone then row else dset (fd_name f) v row))"

definition declares_id :: "field_decl list option \<Rightarrow> bool" where
  "declares_id fs = (case fs of None \<Rightarrow> False | Some fs \<Rightarrow> list_ex (\<lambda>f. fd_name f = ''id'') fs)"

definition seeded_row :: "field_decl list option \<Rightarrow> row \<Rightarrow> row \<Rightarrow> string \<Rightarrow> row" where
  "seeded_row fs fills payload key =
     (let start = (if declares_id fs
                   then [(''id'', if dhas fills ''id'' then pget fills ''id'' else pget payload ''id'')]
                   else [(''id'', PStr key)]) in
      case fs of None \<Rightarrow> start | Some fs \<Rightarrow> fold (seed_field fills payload) fs start)"

definition finish_create :: "env \<Rightarrow> repo_call \<Rightarrow> row \<Rightarrow> string \<Rightarrow> unit run" where
  "finish_create env c fills key =
     (let fs = entity_fields (en_doc env) (rc_entity c);
          seeded = seeded_row fs fills (en_payload env) key in
      bindM (if declares_id fs \<or> length seeded > 1 then
               bindM (note_op (rc_entity c, ''persist'', Some key, None)) (\<lambda>_.
               bindM (new_obj (plain seeded)) (\<lambda>a. persist_row (rc_entity c) key a))
             else ret ()) (\<lambda>_.
      case rc_result c of
        None \<Rightarrow> ret ()
      | Some name \<Rightarrow>
          bindM (new_obj \<lparr>ob_row = seeded, ob_entity = Some (rc_entity c)\<rparr>) (\<lambda>a.
            updM (\<lambda>s. s\<lparr>st_bindings := dset name a (st_bindings s)\<rparr>))))"

text \<open>A completed read binds its row and reports how its shape differs from the declaration.\<close>

definition bind_read :: "env \<Rightarrow> string \<Rightarrow> repo_call \<Rightarrow> string \<Rightarrow> nat \<Rightarrow> unit run" where
  "bind_read env nid c key a =
     (case node_of (en_doc env) (rc_entity c) of
        Some (Entity nm fs) \<Rightarrow>
          bindM (updM (\<lambda>s. s\<lparr>st_bindings := dset (binding_name nm) a (st_bindings s),
                             st_keys := dset (binding_name nm) key (st_keys s)\<rparr>)) (\<lambda>_.
          bindM (liftM (\<lambda>s. row_shape_mismatches (en_search env) (refinement_index (en_doc env)) fs (row_at (st_objs s) a))) (\<lambda>ms.
            updM (\<lambda>s. s\<lparr>st_diags := st_diags s @ map (\<lambda>_. (''stored-row-shape-mismatch'', nid, nm)) ms\<rparr>)))
      | _ \<Rightarrow> ret ())"

definition no_row :: "string \<Rightarrow> string \<Rightarrow> unit run" where
  "no_row operation entity = bindM (advance (Some 1)) (\<lambda>_. raise (RunError (RowNotFound operation entity)))"

definition run_repository :: "env \<Rightarrow> string \<Rightarrow> repo_call \<Rightarrow> unit run" where
  "run_repository env nid c =
     bindM (call_key env c) (\<lambda>(fills, key).
     bindM (note_op (rc_entity c, rc_operation c, Some key, rc_lookup c)) (\<lambda>_.
     bindM (fetch_row env c key) (\<lambda>row.
     bindM (if rc_operation c \<in> {''update'', ''delete''} then mark_written env (rc_entity c) key else ret ()) (\<lambda>_.
     bindM (getM (\<lambda>s. rc_operation c \<in> {''update'', ''delete''} \<and>
              (case row of None \<Rightarrow> False
               | Some a \<Rightarrow> (case dget (row_at (st_objs s) a) ''affected'' of None \<Rightarrow> False | Some v \<Rightarrow> py_eq v (PInt 0))))) (\<lambda>wrote_nothing.
     bindM (if rc_operation c = ''read'' then
              (case row of None \<Rightarrow> no_row ''read'' (rc_entity c) | Some a \<Rightarrow> bind_read env nid c key a)
            else ret ()) (\<lambda>_.
     bindM (if wrote_nothing then no_row (rc_operation c) (rc_entity c) else ret ()) (\<lambda>_.
       if rc_operation c = ''create'' then finish_create env c fills key else ret ())))))))"

section \<open>Cache, authorization and network\<close>

text \<open>\<open>s.replace("{id}", v)\<close>.\<close>

fun replace_id :: "string \<Rightarrow> string \<Rightarrow> string" where
  "replace_id v [] = []"
| "replace_id v (c # cs) =
     (if take 4 (c # cs) = ''{id}'' then v @ replace_id v (drop 3 cs) else c # replace_id v cs)"

definition cache_key :: "string \<Rightarrow> row \<Rightarrow> string" where
  "cache_key template payload =
     replace_id (case dget payload ''id'' of None \<Rightarrow> missing_id | Some v \<Rightarrow> py_str v) template"

definition run_cache_access :: "env \<Rightarrow> string \<Rightarrow> string \<Rightarrow> unit run" where
  "run_cache_access env operation template =
     (let key = cache_key template (en_payload env) in
      if operation = ''set'' then bindM (new_obj (plain (en_payload env))) (\<lambda>a. cache_store env key a)
      else if operation = ''get'' then bindM (cache_lookup key) (\<lambda>_. ret ())
      else drop_cached key)"

definition run_authorization :: "string \<Rightarrow> string option \<Rightarrow> unit run" where
  "run_authorization nid requirement =
     note_diag ''authorization-not-verified'' nid
       (case requirement of Some (c # cs) \<Rightarrow> c # cs | _ \<Rightarrow> ''unspecified'')"

definition mask_value :: "string \<Rightarrow> pyval \<Rightarrow> field_decl list option \<Rightarrow> pyval" where
  "mask_value field v view = (case mask_payload (PDict [(field, v)]) view of PDict d \<Rightarrow> pget d field | _ \<Rightarrow> v)"

text \<open>Is an input name optional in every entity that declares it?\<close>

definition input_optional :: "document \<Rightarrow> string \<Rightarrow> bool" where
  "input_optional doc name =
     (let declaring = concat (map (\<lambda>(_, _, fs). filter (\<lambda>f. fd_name f = name) fs) (doc_entities doc))
      in declaring \<noteq> [] \<and> list_all fd_optional declaring)"

definition field_optional :: "field_decl list option \<Rightarrow> string \<Rightarrow> bool" where
  "field_optional fs name = (case fs of None \<Rightarrow> False | Some fs \<Rightarrow> list_ex (\<lambda>f. fd_name f = name \<and> fd_optional f) fs)"

definition view_of :: "document \<Rightarrow> field_decl list option \<Rightarrow> field_decl list option" where
  "view_of doc fs = map_option (entity_view (refinement_index doc)) fs"

text \<open>\<open>_assemble_mapped_payload\<close>, one entry at a time.\<close>

definition map_entry :: "env \<Rightarrow> istate \<Rightarrow> string \<times> string \<Rightarrow> row \<Rightarrow> row" where
  "map_entry env s entry built =
     (let (field, ref) = entry;
          v = resolve_reference (scope_of env s) ref;
          (binding, _, ref_fld) = partition_at CHR ''.'' ref in
      if binding = payload_namespace then
        (if v = PNone \<and> input_optional (en_doc env) ref_fld then built
         else dset field (mask_value field v (first_entity_view (en_doc env))) built)
      else
        (let fs = binding_fields env s binding in
         if v = PNone \<and> field_optional fs ref_fld then built
         else dset field (mask_value field v (view_of (en_doc env) fs)) built))"

definition assemble_mapped_payload :: "env \<Rightarrow> istate \<Rightarrow> (string \<times> string) list \<Rightarrow> row" where
  "assemble_mapped_payload env s entries = fold (map_entry env s) entries []"

definition default_network_timeout :: int where
  "default_network_timeout = 30000"

definition request_body :: "env \<Rightarrow> istate \<Rightarrow> (string \<times> string) list \<Rightarrow> pyval" where
  "request_body env s body_map =
     (if body_map \<noteq> [] then PDict (assemble_mapped_payload env s body_map)
      else omit_masked_fields (PDict (en_payload env)) (input_masked_names (en_doc env)))"

definition path_arg :: "scope \<Rightarrow> string \<Rightarrow> run_exc + pyval" where
  "path_arg sc ref =
     (let v = resolve_reference sc ref in if v = PNone then Inl (RunError (PathRefUnresolved ref)) else Inr v)"

definition net_request :: "env \<Rightarrow> istate \<Rightarrow> net_node \<Rightarrow> run_exc + net_call" where
  "net_request env s n =
     bindE (mapE (path_arg (scope_of env s)) (nn_path_args n)) (\<lambda>args.
       Inr \<lparr>nc_target = nn_target n, nc_body = request_body env s (nn_body_map n),
            nc_remaining = (case en_deadline env of None \<Rightarrow> default_network_timeout | Some d \<Rightarrow> d - now_of s),
            nc_path_args = args\<rparr>)"

definition call_network :: "env \<Rightarrow> net_call \<Rightarrow> (string + int \<times> pyval) run" where
  "call_network env q s = (Inr (en_network env (st_net s) q), s\<lparr>st_net := st_net s @ [q]\<rparr>)"

text \<open>The dictionary bound by \<open>call ... as\<close>: the body's keys and \<open>status\<close>, which wins.\<close>

definition network_row :: "int \<Rightarrow> pyval \<Rightarrow> row" where
  "network_row status body = dset ''status'' (PInt status) (case body of PDict d \<Rightarrow> d | _ \<Rightarrow> [])"

definition run_network :: "env \<Rightarrow> net_node \<Rightarrow> unit run" where
  "run_network env n =
     bindM (liftM (\<lambda>s. net_request env s n)) (\<lambda>q.
     bindM (call_network env q) (\<lambda>answer.
     case nn_result n of
       None \<Rightarrow> (case answer of Inl msg \<Rightarrow> raise (RunError (NetworkFailed msg)) | Inr _ \<Rightarrow> ret ())
     | Some name \<Rightarrow>
         (let (status, body) = (case answer of Inl _ \<Rightarrow> (0, PDict []) | Inr p \<Rightarrow> p) in
          bindM (new_obj (plain (network_row status body))) (\<lambda>a.
            updM (\<lambda>s. s\<lparr>st_bindings := dset name a (st_bindings s)\<rparr>)))))"

section \<open>Events\<close>

definition emission_payload :: "env \<Rightarrow> istate \<Rightarrow> (string \<times> string) list \<Rightarrow> pyval" where
  "emission_payload env s payload_map =
     (if payload_map \<noteq> [] then PDict (assemble_mapped_payload env s payload_map)
      else mask_payload (PDict (en_payload env)) (first_entity_view (en_doc env)))"

definition run_emit :: "env \<Rightarrow> string \<Rightarrow> string option \<Rightarrow> (string \<times> string) list \<Rightarrow> unit run" where
  "run_emit env nid event payload_map =
     (case event of
        None \<Rightarrow> raise (RunError EventMissing)
      | Some ev \<Rightarrow>
          if node_of (en_doc env) ev = None then raise (RunError (EventUndeclared ev))
          else updM (\<lambda>s. s\<lparr>st_outbox := st_outbox s @
                 [\<lparr>em_id = nid @ ''#'' @ show_nat (length (st_outbox s) + 1), em_event = ev,
                   em_payload = emission_payload env s payload_map\<rparr>]\<rparr>))"

section \<open>One effect\<close>

definition run_validation :: "env \<Rightarrow> string \<Rightarrow> string \<Rightarrow> unit run" where
  "run_validation env target rule =
     liftM (\<lambda>_. validate_effect (en_search env) (en_doc env) (refinement_index (en_doc env)) target rule (en_payload env))"

fun perform :: "env \<Rightarrow> string \<Rightarrow> effect \<Rightarrow> unit run" where
  "perform env nid (Assignment target expression agg_field_type) = run_assignment env target expression agg_field_type"
| "perform env nid (Validation target rule) = run_validation env target rule"
| "perform env nid (RepositoryCall c) =
     (if rc_operation c = ''query'' then run_query env c else run_repository env nid c)"
| "perform env nid (CacheAccess operation key) = run_cache_access env operation key"
| "perform env nid (Authorization requirement) = run_authorization nid requirement"
| "perform env nid (NetworkCall n) = run_network env n"
| "perform env nid (EventEmit event payload_map) = run_emit env nid event payload_map"
| "perform env nid (Response _) = ret ()"
| "perform env nid (Annotation _ _) = ret ()"
| "perform env nid (Rejection code) = raise (RunError (Rejected code))"

text \<open>\<open>_run_effect\<close>: a child that is no effect is refused; every completed effect costs one tick.\<close>

definition run_effect :: "env \<Rightarrow> string \<Rightarrow> unit run" where
  "run_effect env nid =
     (case node_of (en_doc env) nid of
        None \<Rightarrow> raise (Escaped PyNodeError)
      | Some (Effect e) \<Rightarrow> bindM (perform env nid e) (\<lambda>_. advance (Some 1))
      | Some n \<Rightarrow> raise (RunError (NotExecutable (node_kind n))))"

end
