(* ===== verification/Steps.thy ===== *)
theory Steps
  imports Effects
begin

text \<open>
  The steps of a run in \<open>impl/lnpl/interp.py\<close>: \<open>_run_step\<close>, \<open>_retryable\<close> and \<open>_backoff_ms\<close>, the retry
  loop of \<open>run_workflow\<close>, and what a finished step leaves in the result.
\<close>

section \<open>One attempt\<close>

text \<open>\<open>for x in xs: m(x)\<close>.\<close>

fun eachM :: "('a \<Rightarrow> unit run) \<Rightarrow> 'a list \<Rightarrow> unit run" where
  "eachM m [] = ret ()"
| "eachM m (x # xs) = bindM (m x) (\<lambda>_. eachM m xs)"

definition deadline_reached :: "int option \<Rightarrow> int \<Rightarrow> bool" where
  "deadline_reached deadline t = (case deadline of None \<Rightarrow> False | Some d \<Rightarrow> t \<ge> d)"

definition run_step :: "env \<Rightarrow> string \<Rightarrow> string list \<Rightarrow> unit run" where
  "run_step env name children =
     bindM (getM now_of) (\<lambda>t.
     if deadline_reached (en_deadline env) t then raise (RunError (DeadlineExhausted name))
     else bindM (eachM (run_effect env) children) (\<lambda>_. advance None))"

section \<open>Retrying\<close>

definition max_step_attempts :: nat where
  "max_step_attempts = 100"

definition idempotent_ops :: "(string \<times> string) list" where
  "idempotent_ops = [(''RepositoryCall'', ''read''), (''RepositoryCall'', ''query''),
     (''RepositoryCall'', ''delete''), (''RepositoryCall'', ''update''),
     (''CacheAccess'', ''get''), (''CacheAccess'', ''set''), (''CacheAccess'', ''invalidate'')]"

definition backoff_ms :: "nat \<Rightarrow> int" where
  "backoff_ms attempt = min (100 * 2 ^ (attempt - 1)) 1000"

text \<open>Does one child forbid a retry of its step?\<close>

definition forbids_retry :: "node \<Rightarrow> bool" where
  "forbids_retry n =
     (case n of
        Effect (RepositoryCall c) \<Rightarrow> (''RepositoryCall'', rc_operation c) \<notin> set idempotent_ops
      | Effect (CacheAccess operation _) \<Rightarrow> (''CacheAccess'', operation) \<notin> set idempotent_ops
      | Effect (NetworkCall _) \<Rightarrow> True
      | Effect (EventEmit _ _) \<Rightarrow> True
      | Effect (Rejection _) \<Rightarrow> True
      | _ \<Rightarrow> False)"

fun children_allow :: "document \<Rightarrow> string list \<Rightarrow> run_exc + bool" where
  "children_allow doc [] = Inr True"
| "children_allow doc (c # cs) =
     (case node_of doc c of
        None \<Rightarrow> Inl (Escaped PyNodeError)
      | Some n \<Rightarrow> if forbids_retry n then Inr False else children_allow doc cs)"

definition retryable :: "env \<Rightarrow> string list \<Rightarrow> nat \<Rightarrow> int \<Rightarrow> run_exc + bool" where
  "retryable env children attempts t =
     (if attempts \<ge> max_step_attempts then Inr False
      else if int attempts > cn_retry (en_con env) then Inr False
      else if deadline_reached (en_deadline env) (t + backoff_ms attempts) then Inr False
      else children_allow (en_doc env) children)"

text \<open>\<open>try: ... except RunError\<close>: any other exception passes through.\<close>

definition tryM :: "unit run \<Rightarrow> run_error option run" where
  "tryM m s = (case m s of
      (Inr _, t) \<Rightarrow> (Inr None, t)
    | (Inl (RunError e), t) \<Rightarrow> (Inr (Some e), t)
    | (Inl e, t) \<Rightarrow> (Inl e, t))"

text \<open>
  The loop, with the number of attempts made so far and the last error. It is bounded by
  \<open>max_step_attempts\<close> through \<open>retryable\<close>, so the fuel given below is never used up.
\<close>

fun attempt_loop :: "nat \<Rightarrow> env \<Rightarrow> string \<Rightarrow> string list \<Rightarrow> nat \<Rightarrow> (nat \<times> run_error option) run" where
  "attempt_loop 0 env name children attempts = raise (Escaped PyRecursionError)"
| "attempt_loop (Suc k) env name children attempts =
     bindM (tryM (run_step env name children)) (\<lambda>err.
     case err of
       None \<Rightarrow> ret (Suc attempts, None)
     | Some e \<Rightarrow>
         bindM (liftM (\<lambda>s. retryable env children (Suc attempts) (now_of s))) (\<lambda>again.
         if again then bindM (advance (Some (backoff_ms (Suc attempts)))) (\<lambda>_.
                         attempt_loop k env name children (Suc attempts))
         else ret (Suc attempts, Some e)))"

section \<open>What a step leaves behind\<close>

definition step_kinds :: "document \<Rightarrow> string list \<Rightarrow> run_exc + string list" where
  "step_kinds doc children =
     bindE (mapE (\<lambda>c. case node_of doc c of None \<Rightarrow> Inl (Escaped PyNodeError) | Some n \<Rightarrow> Inr (node_kind n)) children)
       (\<lambda>ks. Inr (filter (\<lambda>k. k \<noteq> ''Annotation'') ks))"

text \<open>\<open>_masked_evaluation\<close> and \<open>_note_values\<close> mask through the entity a qualified name belongs to.\<close>

definition mask_ref :: "document \<Rightarrow> string \<Rightarrow> pyval \<Rightarrow> pyval" where
  "mask_ref doc ref v =
     (let (binding, dotted, field) = partition_at CHR ''.'' ref in
      if \<not> dotted \<or> binding = payload_namespace then v
      else (case entity_for_binding doc binding of
              None \<Rightarrow> v
            | Some e \<Rightarrow> mask_value field v (view_of doc (entity_fields doc e))))"

definition masked_evaluation :: "document \<Rightarrow> evaluation \<Rightarrow> evaluation" where
  "masked_evaluation doc e = e\<lparr>ev_value := mask_ref doc (ev_ref e) (ev_value e)\<rparr>"

definition note_values :: "env \<Rightarrow> istate \<Rightarrow> string list \<Rightarrow> pyval list" where
  "note_values env s refs =
     map (\<lambda>r. let v = resolve_reference (scope_of env s) r in if v = PNone then PNone else mask_ref (en_doc env) r v) refs"

text \<open>The \<open>Response\<close> and \<open>Annotation\<close> children of a step that succeeded.\<close>

record harvest =
  hv_refs :: "string list"
  hv_terms :: "(string \<times> response_node) list"
  hv_notes :: "(string \<times> pyval list) list"

definition harvest_child :: "env \<Rightarrow> istate \<Rightarrow> string \<Rightarrow> string \<Rightarrow> harvest \<Rightarrow> run_exc + harvest" where
  "harvest_child env s name c h =
     (case node_of (en_doc env) c of
        None \<Rightarrow> Inl (Escaped PyNodeError)
      | Some (Effect (Response r)) \<Rightarrow>
          Inr (h\<lparr>hv_refs := hv_refs h @ rn_refs r,
                 hv_terms := hv_terms h @ (if rn_terms r \<noteq> [] \<or> rn_list r \<noteq> None then [(name, r)] else [])\<rparr>)
      | Some (Effect (Annotation template refs)) \<Rightarrow>
          Inr (h\<lparr>hv_notes := hv_notes h @ [(template, note_values env s refs)]\<rparr>)
      | Some _ \<Rightarrow> Inr h)"

definition no_harvest :: harvest where
  "no_harvest = \<lparr>hv_refs = [], hv_terms = [], hv_notes = []\<rparr>"

definition harvest_step :: "env \<Rightarrow> istate \<Rightarrow> string \<Rightarrow> string list \<Rightarrow> run_exc + harvest" where
  "harvest_step env s name children = foldE (harvest_child env s name) children no_harvest"

definition add_harvest :: "harvest \<Rightarrow> istate \<Rightarrow> istate" where
  "add_harvest h s = s\<lparr>st_refs := st_refs s @ hv_refs h, st_terms := st_terms s @ hv_terms h,
                       st_notes := st_notes s @ hv_notes h\<rparr>"

section \<open>A step of the main loop\<close>

text \<open>The answer says whether the run stops here.\<close>

definition fail_run :: "failure \<Rightarrow> bool run" where
  "fail_run f = bindM (updM (\<lambda>s. s\<lparr>st_failed := Some f\<rparr>)) (\<lambda>_. ret True)"

definition deadline_passed :: "int option \<Rightarrow> int \<Rightarrow> bool" where
  "deadline_passed deadline t = (case deadline of None \<Rightarrow> False | Some d \<Rightarrow> t > d)"

definition run_step_item :: "env \<Rightarrow> string \<Rightarrow> string list \<Rightarrow> bool run" where
  "run_step_item env name children =
     bindM (getM now_of) (\<lambda>start.
     bindM (attempt_loop max_step_attempts env name children 0) (\<lambda>(attempts, err).
     bindM (liftM (\<lambda>_. step_kinds (en_doc env) children)) (\<lambda>kinds.
     bindM (updM (\<lambda>s. s\<lparr>st_steps := st_steps s @
              [\<lparr>sr_step = name, sr_attempts = attempts, sr_duration = now_of s - start, sr_effects = kinds\<rparr>]\<rparr>)) (\<lambda>_.
     case err of
       Some e \<Rightarrow> fail_run (StepFailed name e)
     | None \<Rightarrow>
         bindM (liftM (\<lambda>s. harvest_step env s name children)) (\<lambda>h.
         bindM (updM (add_harvest h)) (\<lambda>_.
         bindM (getM now_of) (\<lambda>t.
           if deadline_passed (en_deadline env) t then fail_run (DeadlineAfter name) else ret False)))))))"

end
