(* ===== verification/Parallel.thy ===== *)
theory Parallel
  imports Steps
begin

text \<open>
  A \<open>parallel\<close> block (\<open>_run_parallel_block\<close>, \<open>_execute_step_with_retry\<close>). The workers hold one lock for
  a whole attempt of a step, except while a network call is in flight, so the model interleaves
  whole attempts: \<open>en_schedule\<close> gives the order in which workers take their next attempt and the
  moment the main thread cancels what has not started. Interleaving inside an attempt, at its network
  call, is not modelled. What the schedule leaves unfinished is run to its end in declared order, as
  the join of the pool does.
\<close>

section \<open>Workers\<close>

text \<open>
  A worker whose step finished has the entry, the error and the harvest of its outcome; one that died
  of an exception other than \<open>RunError\<close> has none.
\<close>

record outcome =
  oc_entry :: step_record
  oc_error :: "run_error option"
  oc_harvest :: harvest

datatype worker = Waiting | Trying nat nat run_error | Finished nat outcome | Died | Cancelled

text \<open>\<open>Trying rank attempts e\<close>: started as the \<open>rank\<close>-th worker, \<open>attempts\<close> made, the last failed with \<open>e\<close>.\<close>

record block_state =
  bs_workers :: "worker list"
  bs_started :: nat
  bs_cancel :: bool

definition is_running :: "worker \<Rightarrow> bool" where
  "is_running w = (case w of Trying _ _ _ \<Rightarrow> True | _ \<Rightarrow> False)"

definition is_over :: "worker \<Rightarrow> bool" where
  "is_over w = (case w of Waiting \<Rightarrow> False | Trying _ _ _ \<Rightarrow> False | _ \<Rightarrow> True)"

definition has_failed :: "worker \<Rightarrow> bool" where
  "has_failed w = (case w of Finished _ oc \<Rightarrow> oc_error oc \<noteq> None | Died \<Rightarrow> True | _ \<Rightarrow> False)"

section \<open>One attempt of one worker\<close>

text \<open>The end of a worker: its entry, and its harvest when the step succeeded.\<close>

definition finish_worker ::
  "env \<Rightarrow> nat \<Rightarrow> string \<Rightarrow> string list \<Rightarrow> nat \<Rightarrow> run_error option \<Rightarrow> worker run" where
  "finish_worker env rank name children attempts err =
     bindM (liftM (\<lambda>_. step_kinds (en_doc env) children)) (\<lambda>kinds.
     bindM (liftM (\<lambda>s. if err = None then harvest_step env s name children else Inr no_harvest)) (\<lambda>h.
       ret (Finished rank
         \<lparr>oc_entry = \<lparr>sr_step = name, sr_attempts = attempts, sr_duration = en_wall env name, sr_effects = kinds\<rparr>,
          oc_error = err, oc_harvest = h\<rparr>)))"

text \<open>An attempt that runs: the worker's next state.\<close>

definition worker_attempt :: "env \<Rightarrow> nat \<Rightarrow> string \<Rightarrow> string list \<Rightarrow> nat \<Rightarrow> worker run" where
  "worker_attempt env rank name children attempts =
     bindM (tryM (run_step env name children)) (\<lambda>err.
     case err of
       None \<Rightarrow> finish_worker env rank name children (Suc attempts) None
     | Some e \<Rightarrow>
         bindM (liftM (\<lambda>s. retryable env children (Suc attempts) (now_of s))) (\<lambda>again.
         if again then bindM (advance (Some (backoff_ms (Suc attempts)))) (\<lambda>_. ret (Trying rank (Suc attempts) e))
         else finish_worker env rank name children (Suc attempts) (Some e)))"

text \<open>The future keeps an exception that is no \<open>RunError\<close>; nobody raises it again.\<close>

definition catch_all :: "worker run \<Rightarrow> worker run" where
  "catch_all m s = (case m s of (Inl _, t) \<Rightarrow> (Inr Died, t) | (Inr w, t) \<Rightarrow> (Inr w, t))"

text \<open>
  A worker's turn. A worker that would retry after the cancellation stops instead, having already
  counted the attempt it does not make.
\<close>

definition worker_turn :: "env \<Rightarrow> bool \<Rightarrow> nat \<Rightarrow> string \<Rightarrow> string list \<Rightarrow> worker \<Rightarrow> worker run" where
  "worker_turn env cancel started name children w =
     (case w of
        Waiting \<Rightarrow> catch_all (worker_attempt env started name children 0)
      | Trying rank attempts e \<Rightarrow>
          if cancel then catch_all (finish_worker env rank name children (Suc attempts) (Some e))
          else catch_all (worker_attempt env rank name children attempts)
      | _ \<Rightarrow> ret w)"

definition set_worker :: "nat \<Rightarrow> worker \<Rightarrow> block_state \<Rightarrow> block_state" where
  "set_worker i w b = b\<lparr>bs_workers := (bs_workers b)[i := w],
     bs_started := (if bs_workers b ! i = Waiting then Suc (bs_started b) else bs_started b)\<rparr>"

definition take_turn :: "env \<Rightarrow> (string \<times> string list) list \<Rightarrow> nat \<Rightarrow> block_state \<Rightarrow> block_state run" where
  "take_turn env steps i b =
     bindM (worker_turn env (bs_cancel b) (bs_started b) (fst (steps ! i)) (snd (steps ! i)) (bs_workers b ! i))
       (\<lambda>w. ret (set_worker i w b))"

text \<open>May worker \<open>i\<close> move? A pending one needs a free thread of the pool.\<close>

definition may_move :: "nat \<Rightarrow> nat \<Rightarrow> block_state \<Rightarrow> bool" where
  "may_move cap i b =
     (i < length (bs_workers b) \<and> \<not> is_over (bs_workers b ! i) \<and>
      (bs_workers b ! i = Waiting \<longrightarrow> length (filter is_running (bs_workers b)) < cap))"

definition cancel_pending :: "block_state \<Rightarrow> block_state" where
  "cancel_pending b = b\<lparr>bs_cancel := True,
     bs_workers := map (\<lambda>w. if w = Waiting then Cancelled else w) (bs_workers b)\<rparr>"

section \<open>The block\<close>

fun run_schedule :: "env \<Rightarrow> nat \<Rightarrow> (string \<times> string list) list \<Rightarrow> par_event list \<Rightarrow> block_state \<Rightarrow> block_state run" where
  "run_schedule env cap steps [] b = ret b"
| "run_schedule env cap steps (AttemptStep i # es) b =
     (if may_move cap i b then bindM (take_turn env steps i b) (run_schedule env cap steps es)
      else run_schedule env cap steps es b)"
| "run_schedule env cap steps (CancelPending # es) b =
     run_schedule env cap steps es
       (if list_ex has_failed (bs_workers b) then cancel_pending b else b)"

text \<open>The join: the first worker that is not over, until none is left; a failure cancels first.\<close>

fun first_open :: "worker list \<Rightarrow> nat option" where
  "first_open [] = None"
| "first_open (w # ws) = (if is_over w then map_option Suc (first_open ws) else Some 0)"

definition settle :: "block_state \<Rightarrow> block_state" where
  "settle b = (if list_ex has_failed (bs_workers b) \<and> \<not> bs_cancel b then cancel_pending b else b)"

fun join_workers :: "nat \<Rightarrow> env \<Rightarrow> (string \<times> string list) list \<Rightarrow> block_state \<Rightarrow> block_state run" where
  "join_workers 0 env steps b = ret b"
| "join_workers (Suc k) env steps b =
     (case first_open (bs_workers (settle b)) of
        None \<Rightarrow> ret (settle b)
      | Some i \<Rightarrow> bindM (take_turn env steps i (settle b)) (join_workers k env steps))"

definition join_fuel :: "'a list \<Rightarrow> nat" where
  "join_fuel steps = Suc (length steps * Suc max_step_attempts)"

section \<open>Reporting\<close>

definition report_worker :: "worker \<Rightarrow> istate \<Rightarrow> istate" where
  "report_worker w s =
     (case w of
        Finished _ oc \<Rightarrow>
          (let s = s\<lparr>st_steps := st_steps s @ [oc_entry oc]\<rparr> in
           if oc_error oc = None then add_harvest (oc_harvest oc) s else s)
      | _ \<Rightarrow> s)"

text \<open>The failed step that started first.\<close>

fun earliest_failure :: "(string \<times> worker) list \<Rightarrow> (nat \<times> string \<times> run_error) option" where
  "earliest_failure [] = None"
| "earliest_failure ((name, w) # ws) =
     (case w of
        Finished rank oc \<Rightarrow>
          (case oc_error oc of
             None \<Rightarrow> earliest_failure ws
           | Some e \<Rightarrow>
               (case earliest_failure ws of
                  None \<Rightarrow> Some (rank, name, e)
                | Some (r, n, d) \<Rightarrow> if rank \<le> r then Some (rank, name, e) else Some (r, n, d)))
      | _ \<Rightarrow> earliest_failure ws)"

definition is_finished :: "worker \<Rightarrow> bool" where
  "is_finished w = (case w of Finished _ _ \<Rightarrow> True | _ \<Rightarrow> False)"

definition report_block :: "env \<Rightarrow> string list \<Rightarrow> worker list \<Rightarrow> bool run" where
  "report_block env names ws =
     bindM (updM (fold report_worker ws)) (\<lambda>_.
     bindM (getM now_of) (\<lambda>t.
     case earliest_failure (zip names ws) of
       Some (_, name, e) \<Rightarrow> fail_run (StepFailed name e)
     | None \<Rightarrow>
         if deadline_passed (en_deadline env) t \<and> list_ex is_finished ws
         then fail_run (DeadlineAfter (last names)) else ret False))"

text \<open>\<open>con["parallel_cap"] or len(steps)\<close>, as \<open>ThreadPoolExecutor\<close> accepts it.\<close>

definition pool_size :: "pyval \<Rightarrow> nat \<Rightarrow> run_exc + nat" where
  "pool_size cap n =
     (case (if cap \<in> {PNone, PInt 0, PBool False, PStr [], PList [], PDict []} then PInt (int n) else cap) of
        PInt k \<Rightarrow> if k \<le> 0 then Inl (Escaped PyValueError) else Inr (nat k)
      | PBool _ \<Rightarrow> Inr 1
      | _ \<Rightarrow> Inl (Escaped PyTypeError))"

definition step_of :: "document \<Rightarrow> string \<Rightarrow> run_exc + string \<times> string list" where
  "step_of doc nid =
     (case node_of doc nid of
        Some (WorkflowStep nm cs) \<Rightarrow> Inr (nm, cs)
      | _ \<Rightarrow> Inl (Escaped PyNodeError))"

definition run_parallel :: "env \<Rightarrow> string \<Rightarrow> string list \<Rightarrow> bool run" where
  "run_parallel env nid ids =
     bindM (liftM (\<lambda>_. mapE (step_of (en_doc env)) ids)) (\<lambda>steps.
     bindM (liftM (\<lambda>_. pool_size (cn_parallel (en_con env)) (length steps))) (\<lambda>cap.
     bindM (run_schedule env cap steps (en_schedule env nid)
              \<lparr>bs_workers = replicate (length steps) Waiting, bs_started = 0, bs_cancel = False\<rparr>) (\<lambda>b.
     bindM (join_workers (join_fuel steps) env steps b) (\<lambda>b.
       report_block env (map fst steps) (bs_workers b)))))"

end
