(* ===== verification/Flow.thy ===== *)
theory Flow
  imports Parallel
begin

text \<open>
  \<open>_flatten_items\<close>: guards, pipelines and \<open>parallel\<close> blocks. In Python it is a generator whose consumer
  runs each step between two \<open>yield\<close>s and stops pulling once the run has failed. Here the consumer is
  called where the generator yields, and a computation answers whether the consumer stopped: the
  generator is then abandoned, so nothing after that point happens. \<open>en_depth\<close> nested generators are
  as many as Python's recursion limit allows.
\<close>

section \<open>Skip records\<close>

text \<open>\<open>_guarded_step_names\<close>.\<close>

fun guarded_step_names :: "nat \<Rightarrow> document \<Rightarrow> string list \<Rightarrow> run_exc + string list" where
  "guarded_step_names 0 doc ids = Inl (Escaped PyRecursionError)"
| "guarded_step_names (Suc n) doc ids =
     bindE (mapE (\<lambda>i. case node_of doc i of
                        Some (WorkflowStep nm _) \<Rightarrow> Inr [nm]
                      | Some (Concurrency cs) \<Rightarrow> guarded_step_names n doc cs
                      | Some (Pipeline cs) \<Rightarrow> guarded_step_names n doc cs
                      | Some (Guard g) \<Rightarrow> guarded_step_names n doc (gn_children g)
                      | _ \<Rightarrow> Inr []) ids) (\<lambda>nss. Inr (concat nss))"

text \<open>\<open>_skip_record\<close>: the \<open>then\<close> branch is the guarded item, \<open>otherwise\<close> the second child.\<close>

definition skip_entry ::
  "env \<Rightarrow> string \<Rightarrow> guard_node \<Rightarrow> bool \<Rightarrow> nat option \<Rightarrow> evaluation list \<Rightarrow> run_exc + skip_record" where
  "skip_entry env nid g otherwise_branch rounds evals =
     bindE (of_cond (guard_condition_text (gn_condition g) (gn_alternatives g))) (\<lambda>text.
     bindE (guarded_step_names (en_depth env) (en_doc env)
              (if otherwise_branch then take 1 (drop 1 (gn_children g)) else take 1 (gn_children g))) (\<lambda>names.
       Inr \<lparr>sk_guard = nid, sk_mode = (if otherwise_branch then ''otherwise'' else gn_mode g), sk_condition = text,
            sk_steps = names, sk_rounds = rounds, sk_evaluations = evals\<rparr>))"

definition record_skip ::
  "env \<Rightarrow> string \<Rightarrow> guard_node \<Rightarrow> bool \<Rightarrow> nat option \<Rightarrow> evaluation list \<Rightarrow> unit run" where
  "record_skip env nid g otherwise_branch rounds evals =
     bindM (liftM (\<lambda>_. skip_entry env nid g otherwise_branch rounds (map (masked_evaluation (en_doc env)) evals))) (\<lambda>r.
       updM (\<lambda>s. s\<lparr>st_skipped := st_skipped s @ [r]\<rparr>))"

section \<open>Guard conditions\<close>

text \<open>\<open>_text_ops\<close>.\<close>

definition text_ops :: "guard_node \<Rightarrow> nat \<Rightarrow> run_exc + string list" where
  "text_ops g i =
     (if gn_text_ops g = [] then Inr []
      else if i < length (gn_text_ops g) then Inr (gn_text_ops g ! i) else Inl (Escaped PyIndexError))"

definition guard_text_verdict :: "env \<Rightarrow> istate \<Rightarrow> guard_node \<Rightarrow> nat \<times> string option \<Rightarrow> run_exc + verdict" where
  "guard_text_verdict env s g p =
     bindE (text_ops g (fst p)) (\<lambda>ops. condition_holds (scope_of env s) None ops None (snd p))"

text \<open>The condition and every alternative are evaluated; the guard holds when one of them does.\<close>

definition guard_verdict :: "env \<Rightarrow> istate \<Rightarrow> guard_node \<Rightarrow> run_exc + verdict" where
  "guard_verdict env s g =
     bindE (mapE (guard_text_verdict env s g)
              (enumerate 0 (gn_condition g # map Some (gn_alternatives g)))) (\<lambda>vs.
       Inr (list_ex fst vs, concat (map snd vs)))"

section \<open>The three modes\<close>

fun seqM :: "('a \<Rightarrow> bool run) \<Rightarrow> 'a list \<Rightarrow> bool run" where
  "seqM m [] = ret False"
| "seqM m (x # xs) = bindM (m x) (\<lambda>stop. if stop then ret True else seqM m xs)"

definition run_when :: "env \<Rightarrow> string \<Rightarrow> guard_node \<Rightarrow> (string list \<Rightarrow> bool run) \<Rightarrow> bool run" where
  "run_when env nid g body =
     bindM (liftM (\<lambda>s. guard_verdict env s g)) (\<lambda>(holds, evals).
     if \<not> holds then
       bindM (record_skip env nid g False None evals) (\<lambda>_. body (take 1 (drop 1 (gn_children g))))
     else
       bindM (body (take 1 (gn_children g))) (\<lambda>stop.
       if stop then ret True
       else if length (gn_children g) > 1 then bindM (record_skip env nid g True None []) (\<lambda>_. ret False)
       else ret False))"

fun repeatM :: "nat \<Rightarrow> bool run \<Rightarrow> bool run" where
  "repeatM 0 m = ret False"
| "repeatM (Suc k) m = bindM m (\<lambda>stop. if stop then ret True else repeatM k m)"

definition until_round_cap :: nat where
  "until_round_cap = 16"

text \<open>The loop with the rounds it may still run and those it ran; the deadline is the guard's own.\<close>

definition until_condition :: "env \<Rightarrow> guard_node \<Rightarrow> bool run" where
  "until_condition env g = liftM (\<lambda>s. bindE (guard_text_verdict env s g (0, gn_condition g)) (\<lambda>v. Inr (fst v)))"

fun until_loop :: "nat \<Rightarrow> env \<Rightarrow> guard_node \<Rightarrow> int option \<Rightarrow> bool run \<Rightarrow> nat \<Rightarrow> (bool \<times> nat) run" where
  "until_loop 0 env g deadline body rounds =
     bindM (until_condition env g) (\<lambda>_. ret (False, rounds))"
| "until_loop (Suc k) env g deadline body rounds =
     bindM (until_condition env g) (\<lambda>holds.
     if holds then ret (False, rounds)
     else bindM (getM now_of) (\<lambda>t.
          if deadline_reached deadline t then ret (False, rounds)
          else bindM body (\<lambda>stop.
               if stop then ret (True, Suc rounds) else until_loop k env g deadline body (Suc rounds))))"

definition run_until :: "env \<Rightarrow> string \<Rightarrow> guard_node \<Rightarrow> bool run \<Rightarrow> bool run" where
  "run_until env nid g body =
     bindM (getM (\<lambda>s. map_option (\<lambda>ms. now_of s + ms) (cn_timeout (en_con env)))) (\<lambda>deadline.
     bindM (until_loop until_round_cap env g deadline body 0) (\<lambda>(stop, rounds).
     if stop then ret True
     else if rounds = 0 then
       bindM (liftM (\<lambda>s. guard_text_verdict env s g (0, gn_condition g))) (\<lambda>v.
       bindM (record_skip env nid g False (Some 0) (snd v)) (\<lambda>_. ret False))
     else ret False))"

definition run_guard :: "env \<Rightarrow> string \<Rightarrow> guard_node \<Rightarrow> (string list \<Rightarrow> bool run) \<Rightarrow> bool run" where
  "run_guard env nid g body =
     (if gn_mode g = ''when'' then run_when env nid g body
      else if gn_mode g = ''repeat'' then repeatM (nat (gn_count g)) (body (gn_children g))
      else if gn_mode g = ''until'' then run_until env nid g (body (gn_children g))
      else raise (RunError (UnknownGuardMode (gn_mode g))))"

section \<open>Items\<close>

fun run_item :: "nat \<Rightarrow> env \<Rightarrow> string \<Rightarrow> bool run" where
  "run_item 0 env nid = raise (Escaped PyRecursionError)"
| "run_item (Suc n) env nid =
     (case node_of (en_doc env) nid of
        None \<Rightarrow> raise (Escaped PyNodeError)
      | Some (WorkflowStep nm cs) \<Rightarrow> run_step_item env nm cs
      | Some (Concurrency cs) \<Rightarrow> run_parallel env nid cs
      | Some (Pipeline cs) \<Rightarrow> seqM (run_item n env) cs
      | Some (Guard g) \<Rightarrow> run_guard env nid g (seqM (run_item n env))
      | Some n \<Rightarrow> raise (RunError (BadBodyKind (node_kind n))))"

definition run_items :: "env \<Rightarrow> string list \<Rightarrow> bool run" where
  "run_items env ids = seqM (run_item (en_depth env) env) ids"

end
