(* ===== verification/Workflow.thy ===== *)
theory Workflow
  imports Flow
begin

text \<open>
  \<open>Interpreter.run_workflow\<close> and what it reads first: the service's constraints, the run context and
  the normalized payload. The trace, its log lines and the metrics are not modelled; the diagnostics
  of a run are.
\<close>

section \<open>Constraints\<close>

definition no_constraints :: constraints where
  "no_constraints = \<lparr>cn_retry = 0, cn_timeout = None, cn_rollback = False, cn_cache_ttl = None,
     cn_response_slo = None, cn_parallel = PNone\<rparr>"

text \<open>\<open>_duration_ms\<close>.\<close>

definition duration_of :: "string \<Rightarrow> run_exc + int" where
  "duration_of text =
     (case duration_ms_or_none text of
        Inr (Some v) \<Rightarrow> Inr v
      | Inr None \<Rightarrow> Inl (RunError (NotDuration text))
      | Inl (DurationOverflow _) \<Rightarrow> Inl (RunError (DurationTooLarge text))
      | Inl _ \<Rightarrow> Inl (Escaped PyValueError))"

text \<open>\<open>int(v)\<close>.\<close>

definition int_of :: "pyval \<Rightarrow> run_exc + int" where
  "int_of v =
     (case v of
        PInt n \<Rightarrow> Inr n
      | PBool b \<Rightarrow> Inr (if b then 1 else 0)
      | PStr s \<Rightarrow> (case py_int s of Some n \<Rightarrow> Inr n | None \<Rightarrow> Inl (Escaped PyValueError))
      | _ \<Rightarrow> Inl (Escaped PyTypeError))"

definition policy_rule :: "string \<times> pyval \<Rightarrow> constraints \<Rightarrow> run_exc + constraints" where
  "policy_rule rule con =
     (let (name, v) = rule in
      if name = ''retry'' then bindE (int_of v) (\<lambda>n. Inr (con\<lparr>cn_retry := n\<rparr>))
      else if name = ''timeout'' then bindE (duration_of (py_str v)) (\<lambda>ms. Inr (con\<lparr>cn_timeout := Some ms\<rparr>))
      else if name = ''rollback'' then Inr (con\<lparr>cn_rollback := True\<rparr>)
      else if name = ''parallel'' then Inr (con\<lparr>cn_parallel := v\<rparr>)
      else Inr con)"

definition budget :: "string \<times> pyval \<Rightarrow> constraints \<Rightarrow> run_exc + constraints" where
  "budget b con =
     (let (metric, v) = b in
      if metric = ''cache'' then bindE (duration_of (py_str v)) (\<lambda>ms. Inr (con\<lparr>cn_cache_ttl := Some ms\<rparr>))
      else if metric = ''response'' then
        bindE (duration_of (dropWhile (\<lambda>c. c \<in> set ''<>='') (py_str v))) (\<lambda>ms. Inr (con\<lparr>cn_response_slo := Some ms\<rparr>))
      else Inr con)"

definition constraint_node :: "document \<Rightarrow> string \<Rightarrow> constraints \<Rightarrow> run_exc + constraints" where
  "constraint_node doc cid con =
     (case node_of doc cid of
        None \<Rightarrow> Inl (RunError (DanglingConstraint cid))
      | Some (Policy rules) \<Rightarrow> foldE policy_rule rules con
      | Some (Performance budgets) \<Rightarrow> foldE budget budgets con
      | Some _ \<Rightarrow> Inr con)"

text \<open>\<open>_service_for\<close>: the first service that lists the workflow.\<close>

definition service_for :: "document \<Rightarrow> string \<Rightarrow> string list option" where
  "service_for doc wid =
     (case List.find (\<lambda>(_, n). case n of Service _ cs _ \<Rightarrow> wid \<in> set cs | _ \<Rightarrow> False) doc of
        Some (_, Service _ _ cons) \<Rightarrow> Some cons
      | _ \<Rightarrow> None)"

definition constraints_of :: "document \<Rightarrow> string list option \<Rightarrow> run_exc + constraints" where
  "constraints_of doc service =
     (case service of
        None \<Rightarrow> Inr no_constraints
      | Some cids \<Rightarrow> foldE (constraint_node doc) cids no_constraints)"

section \<open>Payload and run context\<close>

text \<open>\<open>_normalize_optional_nulls\<close>.\<close>

definition normalize_optional_nulls :: "document \<Rightarrow> row \<Rightarrow> row" where
  "normalize_optional_nulls doc payload =
     filter (\<lambda>(k, v). \<not> (input_optional doc k \<and> v = PNone)) payload"

definition fill_sources :: "string list" where
  "fill_sources = [''generated'', ''clock'']"

definition context_text :: "string \<times> pyval \<Rightarrow> run_exc + string \<times> string" where
  "context_text p =
     (case snd p of
        PStr (c # cs) \<Rightarrow> Inr (fst p, c # cs)
      | _ \<Rightarrow> Inl (RunError (RunContextNotText (fst p))))"

text \<open>\<open>_decide_run_context\<close> on the virtual clock; \<open>fresh\<close> is the UUID drawn when none is pinned.\<close>

definition decide_run_context ::
  "(string \<times> pyval) list \<Rightarrow> string \<Rightarrow> int \<Rightarrow> run_exc + (string \<times> string) list" where
  "decide_run_context run_context fresh t =
     (if list_ex (\<lambda>p. fst p \<notin> set fill_sources) run_context then Inl (RunError RunContextUnknown)
      else bindE (mapE context_text run_context) (\<lambda>pinned.
           bindE (if dhas pinned ''clock'' then Inr [] else bindE (of_cond (decode_instant t)) (\<lambda>v. Inr [(''clock'', v)])) (\<lambda>clk.
             Inr (pinned @ (if dhas pinned ''generated'' then [] else [(''generated'', fresh)]) @ clk))))"

section \<open>Responses\<close>

definition response_agg_term :: "env \<Rightarrow> istate \<Rightarrow> agg_term \<Rightarrow> row \<Rightarrow> run_exc + row" where
  "response_agg_term env s t response =
     bindE (of_cond (parse_value_or_aggregate (Some (at_func t @ '' '' @ at_ref t)))) (\<lambda>r.
     case r of
       RhsAggregate func ref \<Rightarrow>
         bindE (run_aggregate env s func ref (at_field_type t)) (\<lambda>v. Inr (dset (at_name t) v response))
     | _ \<Rightarrow> Inl (Escaped PyAttributeError))"

definition list_envelope :: "env \<Rightarrow> istate \<Rightarrow> string \<Rightarrow> row" where
  "list_envelope env s binding =
     (let fs = (case entity_for_binding (en_doc env) binding of None \<Rightarrow> None | Some e \<Rightarrow> entity_fields (en_doc env) e);
          rows = (case dget (rowsets_of s) binding of None \<Rightarrow> [] | Some rs \<Rightarrow> rs) in
      [(''items'', PList (map (\<lambda>r. mask_payload r (view_of (en_doc env) fs)) rows)), (''next'', PNone)])"

text \<open>\<open>_respond_terms\<close>.\<close>

definition respond_terms :: "env \<Rightarrow> istate \<Rightarrow> response_node \<Rightarrow> row \<Rightarrow> run_exc + row" where
  "respond_terms env s node response =
     bindE (foldE (response_agg_term env s) (rn_terms node) response) (\<lambda>response.
       Inr (case rn_list node of None \<Rightarrow> response | Some b \<Rightarrow> list_envelope env s b))"

text \<open>All terms, or the step whose term failed and why.\<close>

fun term_response :: "env \<Rightarrow> istate \<Rightarrow> (string \<times> response_node) list \<Rightarrow> row \<Rightarrow> run_exc + failure + row" where
  "term_response env s [] response = Inr (Inr response)"
| "term_response env s ((step, node) # ts) response =
     (case respond_terms env s node response of
        Inr r \<Rightarrow> term_response env s ts r
      | Inl (RunError e) \<Rightarrow> Inr (Inl (StepFailed step e))
      | Inl e \<Rightarrow> Inl e)"

section \<open>The result\<close>

record run_result =
  rr_failure :: "failure option"
  rr_steps :: "step_record list"
  rr_skipped :: "skip_record list"
  rr_bindings :: "(string, pyval) dict"
  rr_response :: "row option"
  rr_emissions :: "emission list"
  rr_notes :: "(string \<times> pyval list) list"
  rr_duration :: int
  rr_slo_met :: "bool option"

text \<open>\<open>failure_kind\<close>.\<close>

fun failure_kind :: "failure \<Rightarrow> string option" where
  "failure_kind (DeadlineAfter _) = Some ''deadline''"
| "failure_kind (StepFailed _ e) =
     (case e of
        CreateConflict _ \<Rightarrow> Some ''conflict''
      | DeadlineExhausted _ \<Rightarrow> Some ''deadline''
      | RowNotFound _ _ \<Rightarrow> Some ''not-found''
      | IdRequired _ \<Rightarrow> Some ''id-required''
      | Rejected _ \<Rightarrow> Some ''rejected''
      | _ \<Rightarrow> None)"

text \<open>\<open>_masked_bindings\<close>: by the entity whose binding name it is, else by the one the row carries.\<close>

definition binding_view :: "env \<Rightarrow> istate \<Rightarrow> string \<Rightarrow> nat \<Rightarrow> field_decl list option" where
  "binding_view env s name a =
     (case entity_for_binding (en_doc env) name of
        Some e \<Rightarrow> view_of (en_doc env) (entity_fields (en_doc env) e)
      | None \<Rightarrow>
          (case ob_entity (st_objs s ! a) of
             None \<Rightarrow> None
           | Some e \<Rightarrow> view_of (en_doc env) (entity_fields (en_doc env) e)))"

definition masked_bindings :: "env \<Rightarrow> istate \<Rightarrow> (string, pyval) dict" where
  "masked_bindings env s = map (\<lambda>(n, a). (n, mask_payload (deref s a) (binding_view env s n a))) (st_bindings s)"

text \<open>One reference of \<open>respond\<close>: the response so far and the references reported as missing.\<close>

definition respond_ref ::
  "env \<Rightarrow> istate \<Rightarrow> string \<Rightarrow> (string, row) dict \<times> string list \<Rightarrow> (string, row) dict \<times> string list" where
  "respond_ref env s ref acc =
     (let (response, reported) = acc; (binding, _, field) = partition_at CHR ''.'' ref in
      case dget (masked_bindings env s) binding of
        Some (PDict row) \<Rightarrow>
          (let optional = field_optional (binding_fields env s binding) field in
           if \<not> dhas row field \<or> (optional \<and> pget row field = PNone) then
             (response, if \<not> optional \<and> ref \<notin> set reported then reported @ [ref] else reported)
           else (dset binding (dset field (pget row field) (case dget response binding of None \<Rightarrow> [] | Some r \<Rightarrow> r)) response,
                 reported))
      | _ \<Rightarrow> acc)"

definition build_response :: "env \<Rightarrow> istate \<Rightarrow> row option \<Rightarrow> row option \<times> string list" where
  "build_response env s terms =
     (if st_refs s = [] \<and> terms = None then (None, [])
      else (let (response, reported) = fold (respond_ref env s) (st_refs s) ([], []) in
            (Some (fold (\<lambda>(k, v) r. dset k v r) (case terms of None \<Rightarrow> [] | Some t \<Rightarrow> t)
                     (map (\<lambda>(b, r). (b, PDict r)) response)), reported)))"

definition skip_diag :: "skip_record \<Rightarrow> diagnostic" where
  "skip_diag r = (''guard-skipped-steps'', sk_guard r,
     case sk_condition r of Some (c # cs) \<Rightarrow> c # cs | _ \<Rightarrow> ''(unconditional)'')"

section \<open>The transaction\<close>

definition drop_keys :: "string list \<Rightarrow> istate \<Rightarrow> istate" where
  "drop_keys keys s = s\<lparr>st_cache := fold (\<lambda>k c. cache_invalidate c k) keys (st_cache s)\<rparr>"

text \<open>\<open>rollback\<close> with \<open>_discard_read_through_writes\<close>; \<open>commit\<close> with \<open>_invalidate_written_after_commit\<close>.\<close>

definition roll_back :: "istate \<Rightarrow> istate" where
  "roll_back s = (drop_keys (st_rt_writes s) (s\<lparr>st_repo := repo_rollback (st_repo s)\<rparr>))\<lparr>st_rt_writes := []\<rparr>"

definition commit_run :: "istate \<Rightarrow> istate" where
  "commit_run s = (drop_keys (st_rt_invals s) (s\<lparr>st_repo := repo_commit (st_repo s)\<rparr>))\<lparr>st_rt_invals := []\<rparr>"

definition begin_run :: "unit run" where
  "begin_run s =
     (case repo_begin (st_objs s) (st_repo s) of
        Inl e \<Rightarrow> (Inl e, s)
      | Inr (h, r) \<Rightarrow> (Inr (), s\<lparr>st_objs := h, st_repo := r\<rparr>))"

text \<open>What is per run starts empty; the repository, cache, clock and outbox of the interpreter stay.\<close>

definition fresh_run :: "istate \<Rightarrow> istate" where
  "fresh_run s = s\<lparr>st_rt_writes := [], st_rt_invals := [], st_bindings := [], st_rowsets := [], st_keys := [],
     st_steps := [], st_skipped := [], st_refs := [], st_terms := [], st_notes := [], st_failed := None\<rparr>"

text \<open>The steps and then the terms of \<open>respond\<close>; an error the loop does not handle rolls back.\<close>

definition on_run_error :: "(istate \<Rightarrow> istate) \<Rightarrow> 'a run \<Rightarrow> 'a run" where
  "on_run_error f m s = (case m s of (Inl (RunError e), t) \<Rightarrow> (Inl (RunError e), f t) | r \<Rightarrow> r)"

definition evaluate_terms :: "env \<Rightarrow> row option run" where
  "evaluate_terms env s =
     (if st_failed s \<noteq> None \<or> st_terms s = [] then (Inr None, s)
      else case term_response env s (st_terms s) [] of
        Inl e \<Rightarrow> (Inl e, s)
      | Inr (Inl f) \<Rightarrow> (Inr None, s\<lparr>st_failed := Some f\<rparr>)
      | Inr (Inr r) \<Rightarrow> (Inr (Some r), s))"

definition close_run :: "unit run" where
  "close_run s = (Inr (), if st_failed s = None then commit_run s else roll_back s)"

definition finish_run :: "env \<Rightarrow> string \<Rightarrow> int \<Rightarrow> row option \<Rightarrow> run_result run" where
  "finish_run env wf_name start terms s =
     (let (response, reported) = (if st_failed s = None then build_response env s terms else (None, []));
          d = now_of s - start in
      (Inr \<lparr>rr_failure = st_failed s, rr_steps = st_steps s, rr_skipped = st_skipped s,
            rr_bindings = masked_bindings env s, rr_response = response, rr_emissions = st_outbox s,
            rr_notes = st_notes s, rr_duration = d,
            rr_slo_met = map_option (\<lambda>slo. d \<le> slo) (cn_response_slo (en_con env))\<rparr>,
       s\<lparr>st_diags := st_diags s @ map skip_diag (st_skipped s) @
           map (\<lambda>r. (''respond-field-missing'', wf_name, r)) reported\<rparr>))"

section \<open>A run\<close>

text \<open>What an \<open>Interpreter\<close> is built with.\<close>

record config =
  cf_doc :: document
  cf_claims :: "row option"
  cf_search :: "string \<Rightarrow> string \<Rightarrow> bool"
  cf_network :: "net_call list \<Rightarrow> net_call \<Rightarrow> string + int \<times> pyval"
  cf_fresh :: string
  cf_depth :: nat
  cf_schedule :: "string \<Rightarrow> par_event list"
  cf_wall :: "string \<Rightarrow> int"

definition run_env :: "config \<Rightarrow> constraints \<Rightarrow> (string \<times> string) list \<Rightarrow> row \<Rightarrow> int \<Rightarrow> env" where
  "run_env cf con ctx payload t =
     \<lparr>en_doc = cf_doc cf, en_payload = normalize_optional_nulls (cf_doc cf) payload,
      en_caller = caller_view (cf_claims cf), en_con = con, en_deadline = map_option (\<lambda>ms. t + ms) (cn_timeout con),
      en_context = ctx, en_search = cf_search cf, en_network = cf_network cf, en_depth = cf_depth cf,
      en_schedule = cf_schedule cf, en_wall = cf_wall cf\<rparr>"

text \<open>From \<open>begin\<close> to the result.\<close>

definition run_body :: "env \<Rightarrow> string \<Rightarrow> string list \<Rightarrow> run_result run" where
  "run_body env wf_name children =
     bindM (getM now_of) (\<lambda>start.
     bindM begin_run (\<lambda>_.
     bindM (on_run_error roll_back (run_items env children)) (\<lambda>_.
     bindM (evaluate_terms env) (\<lambda>terms.
     bindM close_run (\<lambda>_.
       finish_run env wf_name start terms)))))"

definition run_workflow :: "config \<Rightarrow> string \<Rightarrow> row \<Rightarrow> (string \<times> pyval) list \<Rightarrow> run_result run" where
  "run_workflow cf wid payload run_context =
     bindM (updM (\<lambda>s. s\<lparr>st_ops := []\<rparr>)) (\<lambda>_.
     case node_of (cf_doc cf) wid of
       Some (Workflow nm children) \<Rightarrow>
         bindM (getM now_of) (\<lambda>t.
         bindM (liftM (\<lambda>_. decide_run_context run_context (cf_fresh cf) t)) (\<lambda>ctx.
         bindM (liftM (\<lambda>_. constraints_of (cf_doc cf) (service_for (cf_doc cf) wid))) (\<lambda>con.
         bindM (updM fresh_run) (\<lambda>_.
           run_body (run_env cf con ctx payload t) nm children))))
     | _ \<Rightarrow> raise (RunError (NoSuchWorkflow wid)))"

definition new_istate :: "heap \<Rightarrow> repo \<Rightarrow> istate" where
  "new_istate h r = \<lparr>st_objs = h, st_repo = r, st_cache = empty_cache, st_clock = new_clock, st_outbox = [],
     st_diags = [], st_ops = [], st_net = [], st_rt_writes = [], st_rt_invals = [], st_bindings = [],
     st_rowsets = [], st_keys = [], st_steps = [], st_skipped = [], st_refs = [], st_terms = [], st_notes = [],
     st_failed = None\<rparr>"

text \<open>\<open>Interpreter.__init__\<close> with the default backend: the seed rows copied into a new repository.\<close>

definition new_interpreter :: "seed \<Rightarrow> istate" where
  "new_interpreter rows = (let (h, r) = repo_seed [] empty_repo rows in new_istate h r)"

end
