(* ===== verification/Moves.thy ===== *)
theory Moves
  imports Workflow "HOL-Library.Sublist"
begin

text \<open>
  What a run does to the parts of the state it only ever extends. A computation \<open>moves R\<close> when every
  state it leaves is related by \<open>R\<close> to the one it started from. The locales say which elementary changes
  a preorder \<open>R\<close> has to allow; inside them every effect, step, block and guard is shown to respect it,
  so that each interpretation yields a fact about every run.
\<close>

definition moves :: "(istate \<Rightarrow> istate \<Rightarrow> bool) \<Rightarrow> 'a run \<Rightarrow> bool" where
  "moves R m \<longleftrightarrow> (\<forall>s. R s (snd (m s)))"

lemma movesI: "(\<And>s. R s (snd (m s))) \<Longrightarrow> moves R m"
  by (simp add: moves_def)

lemma moves_upd: "(\<And>s. R s (f s)) \<Longrightarrow> moves R (updM f)"
  by (simp add: moves_def updM_def)

section \<open>Preorders\<close>

locale run_order =
  fixes R :: "istate \<Rightarrow> istate \<Rightarrow> bool"
  assumes refl: "R s s" and trans: "R s t \<Longrightarrow> R t u \<Longrightarrow> R s u"
begin

lemma still: "moves R (ret x)" "moves R (raise e)" "moves R (liftM f)" "moves R (getM g)"
  by (simp_all add: moves_def run_defs refl)

lemma bind: "moves R m \<Longrightarrow> (\<And>x. moves R (f x)) \<Longrightarrow> moves R (bindM m f)"
proof (rule movesI)
  fix s assume m: "moves R m" and f: "\<And>x. moves R (f x)"
  obtain r t where t: "m s = (r, t)" by fastforce
  with m have "R s t" by (metis moves_def snd_conv)
  with f t trans[of s t] show "R s (snd (bindM m f s))"
    by (cases r) (auto simp: bindM_def moves_def)
qed

lemma each: "(\<And>x. moves R (m x)) \<Longrightarrow> moves R (eachM m xs)"
  by (induction xs) (auto intro: bind still)

lemma try_m: "moves R m \<Longrightarrow> moves R (tryM m)"
  unfolding moves_def tryM_def by (auto split: prod.split sum.split run_exc.split) (metis snd_conv)+

lemma catch_m: "moves R m \<Longrightarrow> moves R (catch_all m)"
  unfolding moves_def catch_all_def by (auto split: prod.split sum.split) (metis snd_conv)+

lemma seq: "(\<And>x. moves R (m x)) \<Longrightarrow> moves R (seqM m xs)"
  by (induction xs) (auto intro!: bind still)

lemma again: "moves R m \<Longrightarrow> moves R (repeatM k m)"
  by (induction k) (auto intro!: bind still)

lemma case_opt: "(x = None \<Longrightarrow> moves R m) \<Longrightarrow> (\<And>y. x = Some y \<Longrightarrow> moves R (f y)) \<Longrightarrow>
    moves R (case x of None \<Rightarrow> m | Some y \<Rightarrow> f y)"
  by (cases x) auto

lemma case_pair: "(\<And>x y. moves R (f x y)) \<Longrightarrow> moves R (case p of (x, y) \<Rightarrow> f x y)"
  by (cases p) auto

lemma cond: "moves R m \<Longrightarrow> moves R n \<Longrightarrow> moves R (if b then m else n)"
  by simp

lemmas parts = still bind case_opt case_pair cond

end

section \<open>Effects\<close>

text \<open>The changes an effect makes: the clock moves on, three logs grow, the rest is free.\<close>

definition rework :: "istate \<Rightarrow> istate \<Rightarrow> istate" where
  "rework s w = s\<lparr>st_objs := st_objs w, st_repo := st_repo w, st_cache := st_cache w, st_diags := st_diags w,
     st_rt_writes := st_rt_writes w, st_rt_invals := st_rt_invals w, st_bindings := st_bindings w,
     st_rowsets := st_rowsets w, st_keys := st_keys w\<rparr>"

locale effect_order = run_order +
  assumes tick: "(\<And>n. ms = Some n \<Longrightarrow> 0 \<le> n) \<Longrightarrow> R s (s\<lparr>st_clock := clock_advance (st_clock s) ms\<rparr>)"
    and data: "R s (rework s w)"
    and op: "R s (s\<lparr>st_ops := st_ops s @ [p]\<rparr>)"
    and net: "R s (s\<lparr>st_net := st_net s @ [q]\<rparr>)"
    and outbox: "em_id e = nid @ ''#'' @ show_nat (length (st_outbox s) + 1) \<Longrightarrow> R s (s\<lparr>st_outbox := st_outbox s @ [e]\<rparr>)"
begin

lemma data_only: "t = rework s t \<Longrightarrow> R s t"
  using data[of s t] by simp

lemma upd_data: "(\<And>s. f s = rework s (f s)) \<Longrightarrow> moves R (updM f)"
  by (rule moves_upd) (rule data_only)

lemma move_advance: "(\<And>n. ms = Some n \<Longrightarrow> 0 \<le> n) \<Longrightarrow> moves R (advance ms)"
  unfolding advance_def by (intro moves_upd tick)

lemma move_op: "moves R (note_op p)"
  unfolding note_op_def by (intro moves_upd op)

lemma move_diag: "moves R (note_diag a b c)"
  unfolding note_diag_def by (rule upd_data) (simp add: rework_def)

lemma move_new: "moves R (new_obj x)"
  by (rule movesI, rule data_only) (simp add: new_obj_def rework_def)

lemma move_store: "moves R (store_field a f v)" "moves R (persist_row e k a)" "moves R (strip_rows as)"
    "moves R (mark_written env e k)" "moves R (drop_cached k)"
  unfolding store_field_def persist_row_def strip_rows_def mark_written_def drop_cached_def
  by (intro upd_data cond still; simp add: rework_def)+

lemma move_execute: "moves R (execute_repo e operation k)"
  by (rule movesI, rule data_only) (simp add: execute_repo_def rework_def split: prod.split)

lemma move_cache: "moves R (cache_lookup k)" "moves R (cache_store env k a)"
  by (rule movesI, rule data_only, simp add: cache_lookup_def rework_def split: prod.split)
    (rule movesI, rule data_only, simp add: cache_store_def rework_def split: sum.split)

lemma move_call: "moves R (call_network env q)"
  by (rule movesI) (simp add: call_network_def net)

lemmas moved = parts move_op move_diag move_new move_store move_execute move_cache move_call

lemma move_data_upd:
  "moves R (updM (\<lambda>s. s\<lparr>st_bindings := f s\<rparr>))" "moves R (updM (\<lambda>s. s\<lparr>st_rowsets := g s\<rparr>))"
  "moves R (updM (\<lambda>s. s\<lparr>st_bindings := f s, st_keys := h s\<rparr>))" "moves R (updM (\<lambda>s. s\<lparr>st_diags := d s\<rparr>))"
  "moves R (updM (\<lambda>s. s\<lparr>st_rt_writes := ws s\<rparr>))"
  by (rule upd_data, simp add: rework_def)+

lemma move_assignment: "moves R (run_assignment env target expr aft)"
  unfolding run_assignment_def Let_def by (intro moved)

lemma move_query: "moves R (run_query env c)"
  unfolding run_query_def by (intro moved move_data_upd)

lemma move_no_row: "moves R (no_row operation e)"
  unfolding no_row_def by (intro moved move_advance) simp

lemma move_fetch: "moves R (fetch_row env c key)"
  unfolding fetch_row_def by (intro moved move_data_upd)

lemma move_bind_read: "moves R (bind_read env nid c key a)"
  unfolding bind_read_def
  by (simp split: option.split node.split) (intro allI impI conjI moved move_data_upd)

lemma move_repository: "moves R (run_repository env nid c)"
  unfolding run_repository_def call_key_def finish_create_def Let_def
  by (intro moved move_data_upd move_fetch move_bind_read move_no_row)

lemma move_network: "moves R (run_network env n)"
proof -
  have "moves R (case nn_result n of
       None \<Rightarrow> (case answer of Inl msg \<Rightarrow> raise (RunError (NetworkFailed msg)) | Inr _ \<Rightarrow> ret ())
     | Some name \<Rightarrow>
         (let (status, body) = (case answer of Inl _ \<Rightarrow> (0, PDict []) | Inr p \<Rightarrow> p) in
          bindM (new_obj (plain (network_row status body))) (\<lambda>a.
            updM (\<lambda>s. s\<lparr>st_bindings := dset name a (st_bindings s)\<rparr>))))" for answer
    by (cases answer) (auto intro!: moved move_data_upd simp: Let_def split: prod.split)
  then show ?thesis unfolding run_network_def by (rule bind[OF still(3) bind[OF move_call]])
qed

lemma move_emit: "moves R (run_emit env nid ev m)"
  unfolding run_emit_def by (intro moved moves_upd outbox[of _ nid]) simp

lemma move_perform: "moves R (perform env nid e)"
  by (cases e) (simp_all add: move_assignment run_validation_def still move_query move_repository run_cache_access_def
      run_authorization_def move_diag move_network move_emit Let_def move_cache move_store bind move_new)

lemma move_effect: "moves R (run_effect env nid)"
  unfolding run_effect_def
  by (auto intro!: still bind move_perform move_advance split: option.split node.split)

lemma move_step: "moves R (run_step env name children)"
  unfolding run_step_def by (intro parts each move_effect move_advance) simp

lemma move_attempts: "moves R (attempt_loop k env name children n)"
proof (induction k arbitrary: n)
  case (Suc k)
  show ?case
    unfolding attempt_loop.simps
    by (intro parts try_m move_step move_advance Suc.IH) (auto simp: backoff_ms_def)
qed (simp add: still)

lemma move_worker_attempt: "moves R (worker_attempt env rank name children n)"
  unfolding worker_attempt_def finish_worker_def
  by (intro parts try_m move_step move_advance) (auto simp: backoff_ms_def)

lemma move_turn: "moves R (take_turn env steps i b)"
  unfolding take_turn_def worker_turn_def finish_worker_def
  by (cases "bs_workers b ! i") (auto intro!: parts catch_m move_worker_attempt)

lemma move_schedule: "moves R (run_schedule env cap steps es b)"
proof (induction es arbitrary: b)
  case (Cons e es)
  then show ?case by (cases e) (auto intro!: bind move_turn)
qed (simp add: still)

lemma move_join: "moves R (join_workers k env steps b)"
proof (induction k arbitrary: b)
  case (Suc k)
  show ?case unfolding join_workers.simps by (intro parts move_turn Suc.IH)
qed (simp add: still)

end

section \<open>Attempts\<close>

text \<open>How many attempts a step may record: \<open>retry\<close> more than one, and never over the cap.\<close>

definition attempts_ok :: "constraints \<Rightarrow> nat \<Rightarrow> bool" where
  "attempts_ok con n \<longleftrightarrow> 1 \<le> n \<and> n \<le> max_step_attempts \<and> int n \<le> max 1 (cn_retry con + 1)"

text \<open>What \<open>retryable\<close> grants after \<open>n\<close> attempts.\<close>

lemma retryable_more:
  "retryable env children n t = Inr True \<Longrightarrow> n < max_step_attempts \<and> int n \<le> cn_retry (en_con env)"
  by (auto simp: retryable_def split: if_splits)

lemma attempts_ok_Suc: "n = 0 \<or> retryable env children n t = Inr True \<Longrightarrow> attempts_ok (en_con env) (Suc n)"
  using retryable_more[of env children n t] by (auto simp: attempts_ok_def max_step_attempts_def)

lemma attempt_loop_bound:
  assumes "attempt_loop k env name children n s = (Inr (m, err), t)"
    and "n = 0 \<or> (\<exists>t0. retryable env children n t0 = Inr True)"
  shows "attempts_ok (en_con env) m"
  using assms
proof (induction k arbitrary: n s)
  case (Suc k)
  have now: "attempts_ok (en_con env) (Suc n)" using Suc.prems(2) attempts_ok_Suc by blast
  obtain r u where u: "tryM (run_step env name children) s = (r, u)" by fastforce
  show ?case
  proof (cases r)
    case (Inl e)
    with Suc.prems u show ?thesis by (simp add: bindM_def)
  next
    case (Inr err')
    show ?thesis
    proof (cases err')
      case None
      with Inr u Suc.prems now show ?thesis by (auto simp: bindM_def ret_def)
    next
      case (Some e)
      show ?thesis
      proof (cases "retryable env children (Suc n) (now_of u)")
        case (Inl x)
        with Inr Some u Suc.prems show ?thesis by (simp add: bindM_def liftM_def)
      next
        case r: (Inr again)
        show ?thesis
        proof (cases again)
          case False
          with Inr Some u r Suc.prems now show ?thesis by (auto simp: bindM_def liftM_def ret_def)
        next
          case True
          with Inr Some u r Suc.prems obtain s' where "attempt_loop k env name children (Suc n) s' = (Inr (m, err), t)"
            by (auto simp: bindM_def liftM_def advance_def updM_def)
          moreover from r True have "retryable env children (Suc n) (now_of u) = Inr True" by simp
          ultimately show ?thesis using Suc.IH[of "Suc n" s'] by blast
        qed
      qed
    qed
  qed
qed (simp add: raise_def)

text \<open>The same for the workers of a block.\<close>

definition worker_ok :: "constraints \<Rightarrow> worker \<Rightarrow> bool" where
  "worker_ok con w =
     (case w of
        Trying _ n _ \<Rightarrow> n < max_step_attempts \<and> int n \<le> cn_retry con
      | Finished _ oc \<Rightarrow> attempts_ok con (sr_attempts (oc_entry oc))
      | _ \<Rightarrow> True)"

lemma worker_ok_simps [simp]:
  "worker_ok con Waiting" "worker_ok con Died" "worker_ok con Cancelled"
  by (simp_all add: worker_ok_def)

lemma finish_worker_ok:
  "finish_worker env rank name children n err s = (Inr w, t) \<Longrightarrow> attempts_ok (en_con env) n \<Longrightarrow> worker_ok (en_con env) w"
  by (auto simp: finish_worker_def bindM_def run_defs worker_ok_def split: sum.splits)

lemma worker_attempt_ok:
  assumes "worker_attempt env rank name children n s = (Inr w, t)"
    and n: "attempts_ok (en_con env) (Suc n)"
  shows "worker_ok (en_con env) w"
proof -
  obtain err u where u: "tryM (run_step env name children) s = (Inr err, u)"
    using assms(1) by (auto simp: worker_attempt_def bindM_def split: sum.splits prod.splits)
  show ?thesis
  proof (cases err)
    case None
    with u assms(1) have "finish_worker env rank name children (Suc n) None u = (Inr w, t)"
      by (simp add: worker_attempt_def bindM_def)
    then show ?thesis using n by (rule finish_worker_ok)
  next
    case (Some e)
    with u assms(1) obtain more where r: "retryable env children (Suc n) (now_of u) = Inr more"
      by (auto simp: worker_attempt_def bindM_def liftM_def split: sum.splits)
    show ?thesis
    proof (cases more)
      case True
      with u Some r assms(1) have "w = Trying rank (Suc n) e"
        by (auto simp: worker_attempt_def bindM_def run_defs advance_def)
      with retryable_more[of env children "Suc n"] r True show ?thesis by (simp add: worker_ok_def)
    next
      case False
      with u Some r assms(1) have "finish_worker env rank name children (Suc n) (Some e) u = (Inr w, t)"
        by (simp add: worker_attempt_def bindM_def run_defs)
      then show ?thesis using n by (rule finish_worker_ok)
    qed
  qed
qed

lemma attempts_ok_first: "attempts_ok con (Suc 0)"
  by (simp add: attempts_ok_def max_step_attempts_def)

lemma attempts_ok_next: "worker_ok con (Trying rank n e) \<Longrightarrow> attempts_ok con (Suc n)"
  by (auto simp: worker_ok_def attempts_ok_def)

lemma catch_all_ok:
  assumes "catch_all m s = (Inr w, t)" and "\<And>v. m s = (Inr v, t) \<Longrightarrow> worker_ok con v"
  shows "worker_ok con w"
  using assms by (auto simp: catch_all_def split: prod.splits sum.splits)

lemma worker_turn_ok:
  assumes "worker_turn env c k name children w s = (Inr w', t)" and "worker_ok (en_con env) w"
  shows "worker_ok (en_con env) w'"
proof (cases w)
  case Waiting
  with assms(1) show ?thesis
    by (auto simp: worker_turn_def intro!: attempts_ok_first elim!: catch_all_ok worker_attempt_ok)
next
  case (Trying rank n e)
  with assms(2) have n: "attempts_ok (en_con env) (Suc n)" by (auto intro: attempts_ok_next)
  show ?thesis
  proof (cases c)
    case True
    with assms(1) Trying n show ?thesis by (auto simp: worker_turn_def elim!: catch_all_ok finish_worker_ok)
  next
    case False
    with assms(1) Trying n show ?thesis by (auto simp: worker_turn_def elim!: catch_all_ok worker_attempt_ok)
  qed
qed (use assms in \<open>auto simp: worker_turn_def ret_def\<close>)

abbreviation workers_ok :: "constraints \<Rightarrow> block_state \<Rightarrow> bool" where
  "workers_ok con b \<equiv> \<forall>w \<in> set (bs_workers b). worker_ok con w"

lemma take_turn_ok:
  assumes "take_turn env steps i b s = (Inr b', t)" and "workers_ok (en_con env) b"
  shows "workers_ok (en_con env) b'"
proof -
  from assms(1) obtain w where w: "worker_turn env (bs_cancel b) (bs_started b) (fst (steps ! i)) (snd (steps ! i)) (bs_workers b ! i) s = (Inr w, t)"
    and b': "b' = set_worker i w b"
    by (auto simp: take_turn_def bindM_def ret_def split: prod.splits sum.splits)
  show ?thesis
  proof (cases "i < length (bs_workers b)")
    case True
    with w assms(2) have "worker_ok (en_con env) w" using worker_turn_ok nth_mem by blast
    with assms(2) show ?thesis
      using set_update_subset_insert[of "bs_workers b" i w] by (auto simp: b' set_worker_def)
  qed (use assms(2) in \<open>simp add: b' set_worker_def list_update_beyond\<close>)
qed

lemma cancel_ok: "workers_ok con b \<Longrightarrow> workers_ok con (cancel_pending b)"
  by (auto simp: cancel_pending_def)

lemma schedule_ok:
  "run_schedule env cap steps es b s = (Inr b', t) \<Longrightarrow> workers_ok (en_con env) b \<Longrightarrow> workers_ok (en_con env) b'"
proof (induction es arbitrary: b s)
  case (Cons e es)
  show ?case
  proof (cases e)
    case (AttemptStep i)
    show ?thesis
    proof (cases "may_move cap i b")
      case True
      with AttemptStep Cons.prems(1) obtain b1 u where "take_turn env steps i b s = (Inr b1, u)"
        "run_schedule env cap steps es b1 u = (Inr b', t)"
        by (auto simp: bindM_def split: prod.splits sum.splits)
      with Cons.IH[of b1 u] take_turn_ok Cons.prems(2) show ?thesis by blast
    qed (use AttemptStep Cons in auto)
  next
    case CancelPending
    with Cons.prems have "run_schedule env cap steps es (if list_ex has_failed (bs_workers b) then cancel_pending b else b) s = (Inr b', t)"
      by simp
    then show ?thesis
      by (rule Cons.IH) (use Cons.prems(2) cancel_ok[of b "en_con env"] in simp)
  qed
qed (simp add: ret_def)

lemma join_ok:
  "join_workers k env steps b s = (Inr b', t) \<Longrightarrow> workers_ok (en_con env) b \<Longrightarrow> workers_ok (en_con env) b'"
proof (induction k arbitrary: b s)
  case (Suc k)
  have ok: "workers_ok (en_con env) (settle b)"
    using Suc.prems(2) cancel_ok[of b "en_con env"] by (simp add: settle_def)
  show ?case
  proof (cases "first_open (bs_workers (settle b))")
    case None
    with Suc.prems(1) ok show ?thesis by (simp add: ret_def)
  next
    case (Some i)
    with Suc.prems(1) obtain b1 u where "take_turn env steps i (settle b) s = (Inr b1, u)"
      "join_workers k env steps b1 u = (Inr b', t)"
      by (auto simp: bindM_def split: prod.splits sum.splits)
    with Suc.IH[of b1 u] take_turn_ok ok show ?thesis by blast
  qed
qed (simp add: ret_def)

section \<open>Steps, blocks and guards\<close>

text \<open>Control flow moves as its steps, its blocks and its skip records do.\<close>

context run_order
begin

lemma flow_until: "moves R body \<Longrightarrow> moves R (until_loop k env g d body n)"
  by (induction k arbitrary: n) (auto simp: until_condition_def intro!: parts)

lemma flow_guard:
  assumes "\<And>ids. moves R (body ids)" and "\<And>s k. R s (s\<lparr>st_skipped := st_skipped s @ [k]\<rparr>)"
  shows "moves R (run_guard env nid g body)"
  unfolding run_guard_def run_until_def run_when_def record_skip_def
  by (intro parts again flow_until moves_upd assms)

lemma flow_items:
  assumes steps: "\<And>nid nm cs. node_of (en_doc env) nid = Some (WorkflowStep nm cs) \<Longrightarrow> moves R (run_step_item env nm cs)"
    and blocks: "\<And>nid cs. moves R (run_parallel env nid cs)"
    and skips: "\<And>s k. R s (s\<lparr>st_skipped := st_skipped s @ [k]\<rparr>)"
  shows "moves R (run_items env ids)"
proof -
  have "moves R (run_item n env nid)" for n nid
  proof (induction n arbitrary: nid)
    case (Suc n)
    then show ?case
      by (auto intro!: still steps blocks seq flow_guard skips split: option.split node.split)
  qed (simp add: still)
  then show ?thesis unfolding run_items_def by (rule seq)
qed

end

locale step_order = effect_order +
  fixes con :: constraints
  assumes recorded: "attempts_ok con (sr_attempts r) \<Longrightarrow> R s (s\<lparr>st_steps := st_steps s @ [r]\<rparr>)"
    and harvest: "R s (add_harvest h s)"
    and failed: "R s (s\<lparr>st_failed := Some f\<rparr>)"
    and skipped: "R s (s\<lparr>st_skipped := st_skipped s @ [k]\<rparr>)"
begin

lemma move_fail: "moves R (fail_run f)"
  unfolding fail_run_def by (intro parts moves_upd failed)

lemma move_step_item:
  assumes "en_con env = con" shows "moves R (run_step_item env name children)"
proof -
  let ?after = "\<lambda>start (n, err). bindM (liftM (\<lambda>_. step_kinds (en_doc env) children)) (\<lambda>kinds.
     bindM (updM (\<lambda>s. s\<lparr>st_steps := st_steps s @
              [\<lparr>sr_step = name, sr_attempts = n, sr_duration = now_of s - start, sr_effects = kinds\<rparr>]\<rparr>)) (\<lambda>_.
     case err of
       Some e \<Rightarrow> fail_run (StepFailed name e)
     | None \<Rightarrow>
         bindM (liftM (\<lambda>s. harvest_step env s name children)) (\<lambda>h.
         bindM (updM (add_harvest h)) (\<lambda>_.
         bindM (getM now_of) (\<lambda>t.
           if deadline_passed (en_deadline env) t then fail_run (DeadlineAfter name) else ret False)))))"
  have after: "moves R (?after start (n, err))" if "attempts_ok con n" for start n err
    unfolding prod.case by (intro parts moves_upd recorded move_fail harvest) (simp add: that)
  have "moves R (bindM (attempt_loop max_step_attempts env name children 0) (?after start))" for start
  proof (rule movesI)
    fix s
    obtain r t where a: "attempt_loop max_step_attempts env name children 0 s = (r, t)" by fastforce
    with move_attempts have st: "R s t" by (metis moves_def snd_conv)
    show "R s (snd (bindM (attempt_loop max_step_attempts env name children 0) (?after start) s))"
    proof (cases r)
      case (Inl e)
      with a st show ?thesis by (simp add: bindM_def)
    next
      case (Inr p)
      obtain n err where p: "p = (n, err)" by (cases p)
      with a Inr attempt_loop_bound[of max_step_attempts env name children 0 s n err t] assms
      have "R t (snd (?after start (n, err) t))" using after by (simp add: moves_def)
      with a Inr p st show ?thesis by (simp add: bindM_def) (rule trans)
    qed
  qed
  then show ?thesis unfolding run_step_item_def by (rule bind[OF still(4)])
qed

lemma reports:
  "\<forall>w \<in> set ws. worker_ok con w \<Longrightarrow> R s (fold report_worker ws s)"
proof (induction ws arbitrary: s)
  case (Cons w ws)
  have "R s (report_worker w s)"
  proof (cases w)
    case (Finished rank oc)
    with Cons.prems have "R s (s\<lparr>st_steps := st_steps s @ [oc_entry oc]\<rparr>)"
      by (intro recorded) (simp add: worker_ok_def)
    with Finished harvest show ?thesis by (auto simp: report_worker_def Let_def intro: trans)
  qed (simp_all add: report_worker_def refl)
  with Cons show ?case by (auto intro: trans)
qed (simp add: refl)

lemma move_report: "\<forall>w \<in> set ws. worker_ok con w \<Longrightarrow> moves R (report_block env names ws)"
  unfolding report_block_def by (intro parts moves_upd reports move_fail)

text \<open>A bind whose continuation needs what the first computation answers.\<close>

lemma bind_when:
  assumes "moves R m" and "\<And>s x t. m s = (Inr x, t) \<Longrightarrow> moves R (f x)"
  shows "moves R (bindM m f)"
proof (rule movesI)
  fix s
  obtain r t where t: "m s = (r, t)" by fastforce
  with assms(1) have "R s t" by (metis moves_def snd_conv)
  with assms(2)[of s _ t] t trans[of s t] show "R s (snd (bindM m f s))"
    by (cases r) (auto simp: bindM_def moves_def)
qed

lemma move_parallel:
  assumes "en_con env = con" shows "moves R (run_parallel env nid ids)"
proof -
  have block: "moves R (bindM (run_schedule env cap steps es b) (\<lambda>b. bindM (join_workers k env steps b) (\<lambda>b.
      report_block env names (bs_workers b))))" if "workers_ok con b" for cap steps es b k names
    by (intro bind_when move_schedule move_join move_report) (metis that assms schedule_ok join_ok)
  show ?thesis
    unfolding run_parallel_def by (rule bind[OF still(3) bind[OF still(3) block]]) simp
qed

lemma move_record_skip: "moves R (record_skip env nid g ow rounds evs)"
  unfolding record_skip_def by (intro parts moves_upd skipped)

lemma move_items: "en_con env = con \<Longrightarrow> moves R (run_items env ids)"
  by (intro flow_items move_step_item move_parallel skipped)

end

section \<open>Two preorders every run respects\<close>

text \<open>What a run may only extend: its records, its logs and the clock.\<close>

definition extends :: "istate \<Rightarrow> istate \<Rightarrow> bool" where
  "extends s t \<longleftrightarrow>
     prefix (st_steps s) (st_steps t) \<and> prefix (st_skipped s) (st_skipped t) \<and> prefix (st_outbox s) (st_outbox t) \<and>
     prefix (st_refs s) (st_refs t) \<and> prefix (st_notes s) (st_notes t) \<and> prefix (st_ops s) (st_ops t) \<and>
     prefix (st_net s) (st_net t) \<and> ck_step_cost (st_clock t) = ck_step_cost (st_clock s) \<and>
     (0 \<le> ck_step_cost (st_clock s) \<longrightarrow> now_of s \<le> now_of t)"

text \<open>Every step record counts a number of attempts that \<open>con\<close> allows.\<close>

definition keeps_attempts :: "constraints \<Rightarrow> istate \<Rightarrow> istate \<Rightarrow> bool" where
  "keeps_attempts con s t \<longleftrightarrow>
     ((\<forall>r \<in> set (st_steps s). attempts_ok con (sr_attempts r)) \<longrightarrow> (\<forall>r \<in> set (st_steps t). attempts_ok con (sr_attempts r)))"

lemma rework_simps [simp]:
  "st_steps (rework s w) = st_steps s" "st_skipped (rework s w) = st_skipped s" "st_outbox (rework s w) = st_outbox s"
  "st_refs (rework s w) = st_refs s" "st_notes (rework s w) = st_notes s" "st_ops (rework s w) = st_ops s"
  "st_net (rework s w) = st_net s" "st_clock (rework s w) = st_clock s" "st_failed (rework s w) = st_failed s"
  by (simp_all add: rework_def)

lemma extends_trans: "extends s t \<Longrightarrow> extends t u \<Longrightarrow> extends s u"
  unfolding extends_def by (auto intro: prefix_order.trans)

interpretation ext: step_order extends con
proof unfold_locales
  show "extends s t \<Longrightarrow> extends t u \<Longrightarrow> extends s u" for s t u by (rule extends_trans)
  show "extends s (s\<lparr>st_clock := clock_advance (st_clock s) ms\<rparr>)" if "\<And>n. ms = Some n \<Longrightarrow> 0 \<le> n" for ms s
    using that by (cases ms) (simp_all add: extends_def clock_advance_def now_of_def)
qed (simp_all only: extends_def, simp_all add: add_harvest_def now_of_def)

lemma keeps_attempts_same: "st_steps t = st_steps s \<Longrightarrow> keeps_attempts con s t"
  by (simp add: keeps_attempts_def)

interpretation att: step_order "keeps_attempts con" con
proof unfold_locales
  show "keeps_attempts con s t \<Longrightarrow> keeps_attempts con t u \<Longrightarrow> keeps_attempts con s u" for s t u
    unfolding keeps_attempts_def by blast
  show "attempts_ok con (sr_attempts r) \<Longrightarrow> keeps_attempts con s (s\<lparr>st_steps := st_steps s @ [r]\<rparr>)" for r s
    by (simp add: keeps_attempts_def)
qed (rule keeps_attempts_same, simp add: add_harvest_def)+

text \<open>The ids of the outbox: the position of an emission is part of its id.\<close>

definition numbered :: "emission list \<Rightarrow> bool" where
  "numbered es \<longleftrightarrow> (\<forall>i < length es. \<exists>nid. em_id (es ! i) = nid @ ''#'' @ show_nat (i + 1))"

definition keeps_numbers :: "istate \<Rightarrow> istate \<Rightarrow> bool" where
  "keeps_numbers s t \<longleftrightarrow> (numbered (st_outbox s) \<longrightarrow> numbered (st_outbox t))"

lemma keeps_numbers_same: "st_outbox t = st_outbox s \<Longrightarrow> keeps_numbers s t"
  by (simp add: keeps_numbers_def)

lemma numbered_snoc: "numbered es \<Longrightarrow> em_id e = nid @ ''#'' @ show_nat (length es + 1) \<Longrightarrow> numbered (es @ [e])"
  by (auto simp: numbered_def nth_append less_Suc_eq)

interpretation num: step_order keeps_numbers con
proof unfold_locales
  show "keeps_numbers s t \<Longrightarrow> keeps_numbers t u \<Longrightarrow> keeps_numbers s u" for s t u
    unfolding keeps_numbers_def by blast
  show "em_id e = nid @ ''#'' @ show_nat (length (st_outbox s) + 1) \<Longrightarrow>
      keeps_numbers s (s\<lparr>st_outbox := st_outbox s @ [e]\<rparr>)" for e nid s
    using numbered_snoc by (simp add: keeps_numbers_def)
qed (rule keeps_numbers_same, simp add: add_harvest_def)+

section \<open>The shape of a completed \<open>run_body\<close>\<close>

lemma begin_run_same:
  "begin_run s = (Inr (), t) \<Longrightarrow> \<exists>h r. t = s\<lparr>st_objs := h, st_repo := r\<rparr>"
  by (auto simp: begin_run_def split: sum.splits prod.splits)

lemma evaluate_terms_same:
  "evaluate_terms env s = (Inr terms, t) \<Longrightarrow> t = s \<or> st_failed s = None \<and> (\<exists>f. t = s\<lparr>st_failed := Some f\<rparr>)"
  by (auto simp: evaluate_terms_def split: if_splits sum.splits)

lemma close_run_same:
  "st_outbox (snd (close_run s)) = st_outbox s" "st_clock (snd (close_run s)) = st_clock s"
  "st_ops (snd (close_run s)) = st_ops s" "st_steps (snd (close_run s)) = st_steps s"
  "st_skipped (snd (close_run s)) = st_skipped s" "st_failed (snd (close_run s)) = st_failed s"
  "st_net (snd (close_run s)) = st_net s"
  by (simp_all add: close_run_def commit_run_def roll_back_def drop_keys_def)

lemma finish_run_result:
  assumes "finish_run env w start terms s = (Inr res, t)"
  shows "rr_steps res = st_steps s \<and> rr_skipped res = st_skipped s \<and> rr_emissions res = st_outbox s \<and>
    rr_duration res = now_of s - start \<and> rr_failure res = st_failed s \<and>
    st_outbox t = st_outbox s \<and> st_clock t = st_clock s \<and> st_ops t = st_ops s \<and> st_net t = st_net s"
  using assms by (auto simp: finish_run_def Let_def split: prod.splits)

lemma run_body_result:
  assumes "run_body env w ids s = (Inr res, t)"
  obtains s1 stop s2 where "begin_run s = (Inr (), s1)" "run_items env ids s1 = (Inr stop, s2)"
    "rr_steps res = st_steps s2" "rr_skipped res = st_skipped s2" "rr_emissions res = st_outbox s2"
    "rr_duration res = now_of s2 - now_of s" "rr_failure res = None \<longrightarrow> st_failed s2 = None"
    "st_outbox t = st_outbox s2" "st_clock t = st_clock s2" "st_ops t = st_ops s2" "st_net t = st_net s2"
proof -
  from assms obtain s1 where b: "begin_run s = (Inr (), s1)"
    by (auto simp: run_body_def bindM_def getM_def split: sum.splits prod.splits)
  with assms obtain stop s2 where i: "run_items env ids s1 = (Inr stop, s2)"
    by (auto simp: run_body_def bindM_def getM_def on_run_error_def split: sum.splits prod.splits run_exc.splits)
  with assms b obtain terms s3 where e: "evaluate_terms env s2 = (Inr terms, s3)"
    by (auto simp: run_body_def bindM_def getM_def on_run_error_def split: sum.splits prod.splits)
  from assms b i e have f: "finish_run env w (now_of s) terms (snd (close_run s3)) = (Inr res, t)"
    by (simp add: run_body_def bindM_def getM_def on_run_error_def close_run_def)
  note R = finish_run_result[OF f] and C = close_run_same[of s3]
  from evaluate_terms_same[OF e] have "st_steps s3 = st_steps s2 \<and> st_skipped s3 = st_skipped s2 \<and>
      st_outbox s3 = st_outbox s2 \<and> st_clock s3 = st_clock s2 \<and> st_ops s3 = st_ops s2 \<and> st_net s3 = st_net s2 \<and>
      (st_failed s3 = None \<longrightarrow> st_failed s2 = None)" by auto
  with R C b i that[of s1 stop s2] show thesis by (simp add: now_of_def)
qed

section \<open>Whole runs\<close>

text \<open>
  A preorder that also tolerates what surrounds the items of a run: the reset of the per-run state,
  \<open>begin\<close>, \<open>commit\<close> and \<open>rollback\<close>, and the result.
\<close>

locale log_order = run_order +
  assumes items: "step_order R con"
    and admin: "st_outbox t = st_outbox s \<Longrightarrow> st_clock t = st_clock s \<Longrightarrow> st_net t = st_net s \<Longrightarrow> R s t"
begin

lemma move_admin: "(\<And>s. st_outbox (f s) = st_outbox s \<and> st_clock (f s) = st_clock s \<and> st_net (f s) = st_net s) \<Longrightarrow> moves R (updM f)"
  by (rule moves_upd) (simp add: admin)

lemma move_begin: "moves R begin_run"
  by (rule movesI, rule admin) (auto simp: begin_run_def split: sum.split)

lemma move_on_error:
  assumes "moves R m" "\<And>s. R s (f s)" shows "moves R (on_run_error f m)"
proof (rule movesI)
  fix s
  obtain r t where t: "m s = (r, t)" by fastforce
  with assms(1) have "R s t" by (metis moves_def snd_conv)
  with t assms(2) trans[of s t] show "R s (snd (on_run_error f m s))"
    by (auto simp: on_run_error_def split: sum.split run_exc.split)
qed

lemma admin_rollback: "R s (roll_back s)"
  by (rule admin) (simp_all add: roll_back_def drop_keys_def)

lemma move_evaluate: "moves R (evaluate_terms env)"
  by (rule movesI, rule admin) (auto simp: evaluate_terms_def split: sum.split)

lemma move_close: "moves R close_run"
  by (rule movesI, rule admin) (simp_all add: close_run_same)

lemma move_finish: "moves R (finish_run env w start terms)"
  by (rule movesI, rule admin) (auto simp: finish_run_def Let_def split: prod.split)

lemma move_items_any: "moves R (run_items env ids)"
  by (rule step_order.move_items[OF items HOL.refl])

lemma move_body: "moves R (run_body env w ids)"
  unfolding run_body_def
  by (intro bind still move_begin move_on_error admin_rollback move_evaluate move_close move_finish
      move_items_any refl)

lemma move_run: "moves R (run_workflow cf wid payload ctx)"
  unfolding run_workflow_def
  by (auto intro!: bind still move_admin move_body simp: fresh_run_def split: option.split node.split)

end

definition log_grows :: "istate \<Rightarrow> istate \<Rightarrow> bool" where
  "log_grows s t \<longleftrightarrow>
     prefix (st_outbox s) (st_outbox t) \<and> prefix (st_net s) (st_net t) \<and>
     ck_step_cost (st_clock t) = ck_step_cost (st_clock s) \<and>
     (0 \<le> ck_step_cost (st_clock s) \<longrightarrow> now_of s \<le> now_of t)"

interpretation numbers: log_order keeps_numbers
proof unfold_locales
  show "keeps_numbers s t" if "st_outbox t = st_outbox s" for s t using that by (simp add: keeps_numbers_def)
qed

lemma extends_log: "extends s t \<Longrightarrow> log_grows s t"
  by (simp add: extends_def log_grows_def)

lemma log_grows_trans: "log_grows s t \<Longrightarrow> log_grows t u \<Longrightarrow> log_grows s u"
  unfolding log_grows_def by (auto intro: prefix_order.trans)

interpretation log_steps: step_order log_grows con
  by unfold_locales (blast intro: extends_log log_grows_trans ext.refl ext.data ext.op ext.net ext.outbox ext.recorded
      ext.harvest ext.failed ext.skipped ext.tick)+

interpretation log: log_order log_grows
proof unfold_locales
  show "log_grows s t" if "st_outbox t = st_outbox s" "st_clock t = st_clock s" "st_net t = st_net s" for s t
    using that by (simp add: log_grows_def now_of_def)
qed

end
