(* ===== verification/FlowFacts.thy ===== *)
theory FlowFacts
  imports Moves
begin

text \<open>
  What holds from item to item of a workflow body: contracts that steps and blocks keep and guards,
  pipelines and loops pass on, the fuel of the model, and the order in which a block reports.
\<close>

section \<open>Quiet effects\<close>

text \<open>An attempt of a step leaves the records of the run alone.\<close>

definition same_records :: "istate \<Rightarrow> istate \<Rightarrow> bool" where
  "same_records s t \<longleftrightarrow> st_steps t = st_steps s \<and> st_skipped t = st_skipped s \<and> st_failed t = st_failed s \<and>
     st_refs t = st_refs s \<and> st_notes t = st_notes s"

interpretation quiet: effect_order same_records
  by unfold_locales (simp_all add: same_records_def)

section \<open>Contracts\<close>

text \<open>
  \<open>I\<close> holds while the run goes on, \<open>J\<close> once it has stopped: a computation keeps the contract when from
  \<open>I\<close> it answers with \<open>J\<close> if it stops the run and with \<open>I\<close> if it does not.
\<close>

definition contract :: "(istate \<Rightarrow> bool) \<Rightarrow> (istate \<Rightarrow> bool) \<Rightarrow> bool run \<Rightarrow> bool" where
  "contract I J m \<longleftrightarrow> (\<forall>s stop t. I s \<and> m s = (Inr stop, t) \<longrightarrow> (if stop then J t else I t))"

lemma contractI: "(\<And>s stop t. I s \<Longrightarrow> m s = (Inr stop, t) \<Longrightarrow> if stop then J t else I t) \<Longrightarrow> contract I J m"
  unfolding contract_def by blast

lemma contractD: "contract I J m \<Longrightarrow> I s \<Longrightarrow> m s = (Inr stop, t) \<Longrightarrow> if stop then J t else I t"
  unfolding contract_def by blast

lemma contract_ret: "contract I J (ret False)" and contract_raise: "contract I J (raise e)"
  by (simp_all add: contract_def ret_def raise_def)

lemma bind_result:
  "bindM m f s = (Inr y, t) \<longleftrightarrow> (\<exists>x u. m s = (Inr x, u) \<and> f x u = (Inr y, t))"
  by (auto simp: bindM_def split: prod.splits sum.splits)

lemma contract_then:
  assumes "contract I J m" and "contract I J n"
  shows "contract I J (bindM m (\<lambda>stop. if stop then ret True else n))"
proof (rule contractI)
  fix s stop t assume "I s" "bindM m (\<lambda>stop. if stop then ret True else n) s = (Inr stop, t)"
  then obtain b u where "m s = (Inr b, u)" "(if b then ret True else n) u = (Inr stop, t)" by (auto simp: bind_result)
  note first = contractD[OF assms(1) \<open>I s\<close> this(1)]
  show "if stop then J t else I t"
  proof (cases b)
    case True
    with first show ?thesis using \<open>(if b then ret True else n) u = (Inr stop, t)\<close> by (simp add: ret_def)
  next
    case False
    with first have "I u" by simp
    with False show ?thesis using contractD[OF assms(2)] \<open>(if b then ret True else n) u = (Inr stop, t)\<close> by simp
  qed
qed

text \<open>A computation before that only reads, or writes a skip record.\<close>

lemma contract_after:
  assumes "\<And>s x t. I s \<Longrightarrow> m s = (Inr x, t) \<Longrightarrow> I t" and "\<And>x. contract I J (f x)"
  shows "contract I J (bindM m f)"
proof (rule contractI)
  fix s stop t assume "I s" "bindM m f s = (Inr stop, t)"
  then obtain x u where "m s = (Inr x, u)" "f x u = (Inr stop, t)" by (auto simp: bind_result)
  with assms(1)[OF \<open>I s\<close>] assms(2)[of x] show "if stop then J t else I t" by (auto simp: contract_def)
qed

lemma contract_seq: "(\<And>x. contract I J (m x)) \<Longrightarrow> contract I J (seqM m xs)"
  by (induction xs) (simp_all add: contract_ret contract_then)

lemma contract_repeat: "contract I J m \<Longrightarrow> contract I J (repeatM k m)"
  by (induction k) (simp_all add: contract_ret contract_then)

lemma contract_if: "contract I J m \<Longrightarrow> contract I J n \<Longrightarrow> contract I J (if b then m else n)"
  by simp

locale flow_contract =
  fixes env :: env and I J :: "istate \<Rightarrow> bool"
  assumes step_item: "contract I J (run_step_item env nm cs)"
    and parallel: "node_of (en_doc env) nid = Some (Concurrency cs) \<Longrightarrow> contract I J (run_parallel env nid cs)"
    and skip: "I s \<Longrightarrow> I (s\<lparr>st_skipped := st_skipped s @ [k]\<rparr>)"
begin

lemma after_lift: "(\<And>x. contract I J (f x)) \<Longrightarrow> contract I J (bindM (liftM g) f)"
  by (rule contract_after) (auto simp: liftM_def)

lemma after_get: "(\<And>x. contract I J (f x)) \<Longrightarrow> contract I J (bindM (getM g) f)"
  by (rule contract_after) (auto simp: getM_def)

lemma after_skip: "(\<And>x. contract I J (f x)) \<Longrightarrow> contract I J (bindM (record_skip env nid g ow rounds evs) f)"
  by (rule contract_after) (auto simp: record_skip_def bind_result liftM_def updM_def intro: skip)

lemma when_contract: "(\<And>ids. contract I J (body ids)) \<Longrightarrow> contract I J (run_when env nid g body)"
  unfolding run_when_def
  by (rule after_lift) (auto intro!: contract_if after_skip contract_then contract_ret split: prod.split)

lemma until_loop_contract:
  assumes body: "contract I J body"
  shows "I s \<Longrightarrow> until_loop k env g d body n s = (Inr (stop, m), t) \<Longrightarrow> if stop then J t else I t"
proof (induction k arbitrary: n s)
  case 0
  then show ?case by (auto simp: until_condition_def bind_result run_defs)
next
  case (Suc k)
  from Suc.prems(2) obtain holds where h: "(if holds then ret (False, n)
     else bindM (getM now_of) (\<lambda>t.
          if deadline_reached d t then ret (False, n)
          else bindM body (\<lambda>stop.
               if stop then ret (True, Suc n) else until_loop k env g d body (Suc n)))) s = (Inr (stop, m), t)"
    by (auto simp: until_condition_def bind_result liftM_def)
  show ?case
  proof (cases "holds \<or> deadline_reached d (now_of s)")
    case True
    with h Suc.prems(1) show ?thesis by (cases holds) (auto simp: ret_def bindM_def getM_def)
  next
    case False
    with h obtain b u where b: "body s = (Inr b, u)"
      "(if b then ret (True, Suc n) else until_loop k env g d body (Suc n)) u = (Inr (stop, m), t)"
      by (auto simp: bind_result getM_def)
    with contractD[OF body Suc.prems(1) b(1)] Suc.IH[of u "Suc n"] show ?thesis by (cases b) (auto simp: ret_def)
  qed
qed

lemma until_contract:
  assumes body: "contract I J body" shows "contract I J (run_until env nid g body)"
  unfolding run_until_def
proof (rule after_get, rule contractI)
  fix d s stop t
  let ?rest = "\<lambda>(stop, rounds).
     if stop then ret True
     else if rounds = 0 then
       bindM (liftM (\<lambda>s. guard_text_verdict env s g (0, gn_condition g))) (\<lambda>v.
       bindM (record_skip env nid g False (Some 0) (snd v)) (\<lambda>_. ret False))
     else ret False"
  assume s: "I s" and "bindM (until_loop until_round_cap env g d body 0) ?rest s = (Inr stop, t)"
  then obtain b n u where l: "until_loop until_round_cap env g d body 0 s = (Inr (b, n), u)" and r: "?rest (b, n) u = (Inr stop, t)"
    by (auto simp: bind_result)
  note u = until_loop_contract[OF body s l]
  show "if stop then J t else I t"
  proof (cases b)
    case True
    with r u show ?thesis by (auto simp: ret_def)
  next
    case False
    have "contract I J (?rest (False, n))"
      unfolding prod.case by (auto intro!: after_lift after_skip contract_ret)
    with u r False show ?thesis by (auto dest: contractD)
  qed
qed

lemma guard: "(\<And>ids. contract I J (body ids)) \<Longrightarrow> contract I J (run_guard env nid g body)"
  unfolding run_guard_def by (intro contract_if when_contract contract_repeat until_contract contract_raise)

lemma item: "contract I J (run_item n env nid)"
proof (induction n arbitrary: nid)
  case (Suc n)
  show ?case
    by (auto intro!: contract_raise step_item parallel contract_seq guard Suc.IH split: option.split node.split)
qed (simp add: contract_raise)

lemma all_items: "contract I J (run_items env ids)"
  unfolding run_items_def by (intro contract_seq item)

end

section \<open>A run that stops has failed, and one that goes on is in time\<close>

definition going :: "env \<Rightarrow> istate \<Rightarrow> bool" where
  "going env s \<longleftrightarrow> st_failed s = None"

definition in_time :: "env \<Rightarrow> istate \<Rightarrow> bool" where
  "in_time env s \<longleftrightarrow> st_failed s = None \<and> (\<forall>d. en_deadline env = Some d \<longrightarrow> now_of s \<le> d)"

definition stopped :: "istate \<Rightarrow> bool" where
  "stopped s \<longleftrightarrow> st_failed s \<noteq> None"

lemma quiet_same: "m s = (r, t) \<Longrightarrow> moves same_records m \<Longrightarrow> st_failed t = st_failed s"
  by (metis moves_def same_records_def snd_conv)

lemma fail_run_result: "fail_run f s = (Inr stop, t) \<longleftrightarrow> stop \<and> t = s\<lparr>st_failed := Some f\<rparr>"
  by (auto simp: fail_run_def bind_result updM_def ret_def)

lemma step_item_result:
  assumes "run_step_item env name children s = (Inr stop, t)"
  shows "if stop then st_failed t \<noteq> None
     else st_failed t = st_failed s \<and> \<not> deadline_passed (en_deadline env) (now_of t)"
proof -
  from assms obtain n err u where a: "attempt_loop max_step_attempts env name children 0 s = (Inr (n, err), u)"
    and rest: "(\<exists>kinds v. v = u\<lparr>st_steps := kinds\<rparr> \<and> (case err of
       Some e \<Rightarrow> fail_run (StepFailed name e)
     | None \<Rightarrow>
         bindM (liftM (\<lambda>s. harvest_step env s name children)) (\<lambda>h.
         bindM (updM (add_harvest h)) (\<lambda>_.
         bindM (getM now_of) (\<lambda>t.
           if deadline_passed (en_deadline env) t then fail_run (DeadlineAfter name) else ret False)))) v = (Inr stop, t))"
    by (auto simp: run_step_item_def bind_result getM_def liftM_def updM_def)
  have f: "st_failed u = st_failed s" using a quiet.move_attempts by (rule quiet_same)
  from rest f show ?thesis
    by (cases err)
      (auto simp: bind_result liftM_def updM_def getM_def ret_def fail_run_result add_harvest_def now_of_def
        split: if_splits)
qed

lemma report_failed: "st_failed (fold report_worker ws s) = st_failed s \<and> st_clock (fold report_worker ws s) = st_clock s"
  by (induction ws arbitrary: s) (simp_all add: report_worker_def add_harvest_def Let_def split: worker.split)

lemma parallel_result:
  assumes "run_parallel env nid ids s = (Inr stop, t)"
  shows "if stop then st_failed t \<noteq> None else st_failed t = st_failed s"
proof -
  from assms obtain steps cap b u b' v where
    sch: "run_schedule env cap steps (en_schedule env nid)
              \<lparr>bs_workers = replicate (length steps) Waiting, bs_started = 0, bs_cancel = False\<rparr> s = (Inr b, u)"
    and j: "join_workers (join_fuel steps) env steps b u = (Inr b', v)"
    and rep: "report_block env (map fst steps) (bs_workers b') v = (Inr stop, t)"
    by (auto simp: run_parallel_def bind_result liftM_def)
  have "st_failed u = st_failed s" using sch quiet.move_schedule by (rule quiet_same)
  moreover have "st_failed v = st_failed u" using j quiet.move_join by (rule quiet_same)
  ultimately show ?thesis using rep report_failed[of "bs_workers b'" v]
    by (auto simp: report_block_def bind_result updM_def getM_def ret_def fail_run_result split: option.splits if_splits)
qed

interpretation stops: flow_contract env "going env" stopped
proof unfold_locales
  show "contract (going env) stopped (run_step_item env nm cs)" for nm cs
    by (rule contractI) (drule step_item_result, auto simp: going_def stopped_def)
  show "contract (going env) stopped (run_parallel env nid cs)" for nid cs
    by (rule contractI) (drule parallel_result, auto simp: going_def stopped_def)
qed (simp add: going_def)

lemma step_item_in_time: "contract (in_time env) stopped (run_step_item env nm cs)"
proof (rule contractI)
  fix s stop t assume "in_time env s" "run_step_item env nm cs s = (Inr stop, t)"
  with step_item_result[of env nm cs s stop t] show "if stop then stopped t else in_time env t"
    by (auto simp: in_time_def stopped_def deadline_passed_def split: option.splits)
qed

end
