(* ===== verification/RunTypes.thy ===== *)
theory RunTypes
  imports FlowFacts PlanFacts
begin

text \<open>
  A well-formed document runs without an error of its own structure. A failure of a run that is laid at
  the document's door (a child that is missing or of the wrong kind, a guard whose mode or condition the
  runtime does not know, a constraint or an event that is not declared, bodies nested too deep) cannot
  happen when the document is well-formed; a run may still fail on its data.
\<close>

section \<open>Errors of the document\<close>

fun wiring_error :: "run_error \<Rightarrow> bool" where
  "wiring_error (InvalidGuard _) = True"
| "wiring_error (NotExecutable _) = True"
| "wiring_error (UnknownGuardMode _) = True"
| "wiring_error (BadBodyKind _) = True"
| "wiring_error (NoSuchWorkflow _) = True"
| "wiring_error (DanglingConstraint _) = True"
| "wiring_error EventMissing = True"
| "wiring_error (EventUndeclared _) = True"
| "wiring_error _ = False"

fun wiring :: "run_exc \<Rightarrow> bool" where
  "wiring (RunError e) = wiring_error e"
| "wiring (Escaped e) = (e \<in> {PyNodeError, PyIndexError, PyRecursionError})"

definition tame :: "run_exc + 'a \<Rightarrow> bool" where
  "tame r \<longleftrightarrow> (\<forall>e. r = Inl e \<longrightarrow> \<not> wiring e)"

named_theorems tame \<open>computations that raise no error of the document\<close>

lemma tame_simps [simp]: "tame (Inr x)" "tame (Inl e) = (\<not> wiring e)"
  by (simp_all add: tame_def)

lemma tame_bind [tame]: "tame m \<Longrightarrow> (\<And>x. m = Inr x \<Longrightarrow> tame (f x)) \<Longrightarrow> tame (bindE m f)"
  by (cases m) simp_all

lemma tame_map [tame]: "(\<And>x. x \<in> set xs \<Longrightarrow> tame (f x)) \<Longrightarrow> tame (mapE f xs)"
  by (induction xs) (auto intro!: tame_bind)

lemma tame_fold [tame]: "(\<And>x s. x \<in> set xs \<Longrightarrow> tame (f x s)) \<Longrightarrow> tame (foldE f xs s)"
  by (induction xs arbitrary: s) (auto intro!: tame_bind)

lemma tame_each [tame]: "(\<And>x. x \<in> set xs \<Longrightarrow> tame (f x)) \<Longrightarrow> tame (eachE f xs)"
  by (induction xs) (auto intro!: tame_bind)

lemma tame_filter [tame]: "(\<And>x. tame (f x)) \<Longrightarrow> tame (filterE f xs)"
  by (induction xs) (auto intro!: tame_bind)

lemma tame_if [tame]: "(b \<Longrightarrow> tame m) \<Longrightarrow> (\<not> b \<Longrightarrow> tame n) \<Longrightarrow> tame (if b then m else n)"
  by simp

section \<open>Values\<close>

lemma tame_checked [tame]: "tame (checked n)"
  by (simp add: checked_def)

lemma tame_of_money [tame]: "tame (of_money m)"
  by (simp add: of_money_def split: sum.split money_exc.split)

lemma tame_of_cond [tame]: "tame (of_cond r)"
  by (simp add: of_cond_def split: sum.split cond_exc.split)

lemma tame_read_number [tame]: "tame (read_number nm w)"
  by (auto simp: read_number_def intro!: tame split: pyval.split sum.split cond_exc.split option.split)

lemma tame_operand [tame]: "tame (eval_operand sc x)"
  by (auto simp: eval_operand_def intro!: tame split: operand.split)

lemma tame_int_arith [tame]: "tame (int_arith op a b)"
  by (auto simp: int_arith_def intro!: tame split: arith_op.split)

lemma tame_money_arith [tame]: "tame (eval_money_arith op a b)"
  unfolding eval_money_arith_def
  by (rule tame_bind) (auto intro!: tame split: num.split arith_op.split)

lemma tame_value [tame]: "tame (eval_value sc v)"
  unfolding eval_value_def
  by (auto intro!: tame split: val.split option.split num.split)

lemma tame_wire [tame]: "tame (num_wire n)" "tame (wire_of m)"
  by (auto simp: num_wire_def wire_of_def split: option.split num.split sum.split)

lemma tame_cmp [tame]: "tame (cmp_num op a b)"
  by (auto simp: cmp_num_def cmp_money_def intro!: tame split: option.split num.split cmp_op.split)

lemma tame_text [tame]: "tame (text_comparison_holds sc l op r)"
proof -
  have "tame (text_of sc v)" for sc v by (auto simp: text_of_def split: val.split operand.split)
  then show ?thesis by (auto simp: text_comparison_holds_def Let_def intro!: tame)
qed

lemma tame_comparison [tame]: "tame (comparison_holds sc rec tf l op r)"
  unfolding comparison_holds_def by (intro tame) simp

lemma tame_verdict [tame]: "tame (condition_verdict sc rec tf c)"
proof -
  have "tame (and_term_holds sc rec tf t)" for t
    by (auto simp: and_term_holds_def intro!: tame split: condition.split)
  then show ?thesis by (auto simp: condition_verdict_def intro!: tame split: condition.split)
qed

text \<open>A guard's own text parses, so its condition is only evaluated.\<close>

lemma tame_condition: "condition_text_ok t \<Longrightarrow> tame (condition_holds sc None ops None (Some t))"
  by (auto simp: condition_holds_def money_literal_holds_def condition_text_ok_def intro!: tame split: option.split)

lemma tame_avg [tame]: "tame (of_avg a)"
  by (simp add: of_avg_def split: sum.split avg_exc.split)

lemma tame_row_key [tame]: "tame (encode_row v)" "tame (row_int v)" "tame (instant_key v)"
  by (auto simp: encode_row_def row_int_def instant_key_def intro!: tame split: pyval.split option.split sum.split cond_exc.split)

lemma tame_minmax:
  assumes "\<And>a b. tame (better a b)" and "\<And>v. tame (key v)" shows "tame (minmax_by better key vs)"
proof -
  have "tame (minmax_loop better key best k vs)" for best k vs
    by (induction vs arbitrary: best k) (auto intro!: tame assms)
  then show ?thesis unfolding minmax_by_def by (intro tame assms)
qed

lemma tame_aggregate [tame]: "tame (eval_aggregate func ref rs aft opt)"
proof -
  have vals: "tame (aggregate_values f opt rows)" for f rows
    by (induction rows) (auto intro!: tame split: pyval.split option.split)
  have mm: "tame (eval_minmax b vs)" for b vs
    unfolding eval_minmax_def
    by (intro tame tame_minmax) (auto simp: better_money_def better_int_def intro!: tame)
  have sm: "tame (eval_sum_avg b vs aft)" for b vs
    unfolding eval_sum_avg_def by (auto simp: sum_money_def sum_ints_def intro!: tame)
  show ?thesis unfolding eval_aggregate_def Let_def by (intro tame vals mm sm) simp
qed

lemma tame_predicate_value [tame]: "tame (resolve_predicate_value sc v)"
  by (auto simp: resolve_predicate_value_def py_add_def py_sub_def py_mul_def py_trunc_div_def Let_def
      split: val.split arith_op.split option.split pyval.split)

section \<open>Rows and payloads\<close>

lemma tame_predicate_op [tame]: "tame (predicate_op op a b)"
  by (auto simp: predicate_op_def Let_def split: cmp_op.split option.split)

lemma tame_row_matches [tame]: "tame (row_matches row ts)"
proof (induction ts)
  case (Cons t ts)
  then show ?case by (cases t) (auto simp: Let_def intro!: tame split: option.split)
qed simp

lemma tame_query [tame]: "tame (repo_query h r e p o1 l)"
  unfolding repo_query_def apply_predicate_def order_rows_def Let_def
  by (auto simp del: row_matches.simps intro!: tame split: option.split list.split)

lemma tame_guard_that [tame]: "\<not> wiring_error e \<Longrightarrow> tame (guard_that b e)"
  by (simp add: guard_that_def)

lemma tame_bound [tame]: "tame (check_bound mn b v f ty)"
proof -
  have "tame (dec_less a c)" for a c by (induction a c rule: dec_less.induct) simp_all
  then show ?thesis by (auto simp: check_bound_def intro!: tame split: option.split)
qed

lemma tame_semantic_type [tame]: "tame (check_semantic_type rx refs ty v f)"
proof -
  have base: "tame (base_check ty v f)" for ty
    by (auto simp: base_check_def split: option.split prod.split check.split)
  have facets: "tame (check_facets rx b fs v f ty)" for b fs
    unfolding check_facets_def check_enum_def check_text_def
    by (auto intro!: tame split: option.split category.split)
  show ?thesis unfolding check_semantic_type_def by (auto intro!: tame base facets split: option.split)
qed

lemma tame_present [tame]: "tame (check_present rx refs ty p nm)"
  by (auto simp: check_present_def intro!: tame split: option.split)

lemma tame_validate [tame]: "tame (validate_effect rx doc refs target rule p)"
proof -
  have "tame (validate_field rx refs p f)" for f unfolding validate_field_def by (auto intro!: tame)
  then show ?thesis unfolding validate_effect_def Let_def by (auto intro!: tame split: option.split prod.split)
qed

lemma tame_shape [tame]: "tame (row_shape_mismatches rx refs fs row)"
proof -
  have "tame (field_mismatch rx refs row f)" for f
    using tame_semantic_type[of rx refs "fd_type f" "pget row (fd_name f)" "fd_name f"]
    by (auto simp: field_mismatch_def tame_def split: sum.splits run_exc.splits if_splits)
  then show ?thesis unfolding row_shape_mismatches_def by (intro tame) simp_all
qed

lemma tame_lookup [tame]: "tame (resolve_lookup_key e l sc)"
  by (auto simp: resolve_lookup_key_def Let_def split: option.split)

lemma tame_fill [tame]: "tame (fill_values env e)"
  by (auto simp: fill_values_def intro!: tame split: option.split)

lemma tame_execute [tame]: "tame (fst (repo_execute h r e operation k))"
  by (auto simp: repo_execute_def Let_def split: option.split prod.split)

lemma tame_assigned [tame]: "tame (assigned_value env s t x aft)"
  unfolding assigned_value_def run_aggregate_def Let_def by (auto intro!: tame split: rhs.split)

lemma tame_net [tame]: "tame (net_request env s n)"
  unfolding net_request_def path_arg_def Let_def by (intro tame) simp_all

section \<open>Computations\<close>

text \<open>A run has not failed on an error of the document.\<close>

definition fine :: "istate \<Rightarrow> bool" where
  "fine s \<longleftrightarrow> (\<forall>nm e. st_failed s = Some (StepFailed nm e) \<longrightarrow> \<not> wiring_error e)"

definition sound :: "('a \<Rightarrow> bool) \<Rightarrow> 'a run \<Rightarrow> bool" where
  "sound Q m \<longleftrightarrow> (\<forall>s r t. fine s \<and> m s = (r, t) \<longrightarrow> fine t \<and> (case r of Inl e \<Rightarrow> \<not> wiring e | Inr x \<Rightarrow> Q x))"

abbreviation sound0 :: "'a run \<Rightarrow> bool" where
  "sound0 m \<equiv> sound (\<lambda>_. True) m"

named_theorems sound \<open>computations that keep a run fine\<close>

lemma soundD: "sound Q m \<Longrightarrow> fine s \<Longrightarrow> m s = (r, t) \<Longrightarrow> fine t \<and> (case r of Inl e \<Rightarrow> \<not> wiring e | Inr x \<Rightarrow> Q x)"
  unfolding sound_def by blast

lemma soundI:
  "(\<And>s r t. fine s \<Longrightarrow> m s = (r, t) \<Longrightarrow> fine t \<and> (case r of Inl e \<Rightarrow> \<not> wiring e | Inr x \<Rightarrow> Q x)) \<Longrightarrow> sound Q m"
  unfolding sound_def by blast

lemma sound_weaken: "sound P m \<Longrightarrow> (\<And>x. P x \<Longrightarrow> Q x) \<Longrightarrow> sound Q m"
proof (rule soundI)
  fix s r t assume "sound P m" "\<And>x. P x \<Longrightarrow> Q x" "fine s" "m s = (r, t)"
  with soundD[of P m s r t] show "fine t \<and> (case r of Inl e \<Rightarrow> \<not> wiring e | Inr x \<Rightarrow> Q x)" by (cases r) simp_all
qed

lemma sound_ret [sound]: "Q x \<Longrightarrow> sound Q (ret x)"
  by (simp add: sound_def ret_def)

lemma sound_raise [sound]: "\<not> wiring e \<Longrightarrow> sound Q (raise e)"
  by (simp add: sound_def raise_def)

lemma sound_bind:
  assumes "sound P m" and "\<And>x. P x \<Longrightarrow> sound Q (f x)" shows "sound Q (bindM m f)"
proof (rule soundI)
  fix s r t assume a: "fine s" "bindM m f s = (r, t)"
  obtain q u where q: "m s = (q, u)" by fastforce
  note m = soundD[OF assms(1) a(1) q]
  show "fine t \<and> (case r of Inl e \<Rightarrow> \<not> wiring e | Inr x \<Rightarrow> Q x)"
  proof (cases q)
    case (Inl e)
    with a q m show ?thesis by (auto simp: bindM_def)
  next
    case (Inr x)
    with a q m have "P x" "fine u" "f x u = (r, t)" by (auto simp: bindM_def)
    with soundD[OF assms(2)] show ?thesis by blast
  qed
qed

lemma sound_bind0 [sound]: "sound0 m \<Longrightarrow> (\<And>x. sound Q (f x)) \<Longrightarrow> sound Q (bindM m f)"
  by (rule sound_bind)

lemma sound_lift [sound]: "(\<And>s. tame (f s)) \<Longrightarrow> sound0 (liftM f)"
  by (auto simp: sound_def liftM_def tame_def split: sum.split)

lemma sound_lift_val: "(\<And>s. tame (f s)) \<Longrightarrow> (\<And>s x. f s = Inr x \<Longrightarrow> Q x) \<Longrightarrow> sound Q (liftM f)"
  by (auto simp: sound_def liftM_def tame_def split: sum.split)

lemma sound_get [sound]: "sound0 (getM g)"
  by (simp add: sound_def getM_def)

lemma sound_upd: "(\<And>s. fine s \<Longrightarrow> fine (f s)) \<Longrightarrow> sound0 (updM f)"
  by (simp add: sound_def updM_def)

lemma sound_upd_other [sound]: "(\<And>s. st_failed (f s) = st_failed s) \<Longrightarrow> sound0 (updM f)"
  by (rule sound_upd) (simp add: fine_def)

lemma sound_if [sound]: "(b \<Longrightarrow> sound Q m) \<Longrightarrow> (\<not> b \<Longrightarrow> sound Q n) \<Longrightarrow> sound Q (if b then m else n)"
  by simp

lemma sound_option [sound]:
  "(x = None \<Longrightarrow> sound Q m) \<Longrightarrow> (\<And>y. x = Some y \<Longrightarrow> sound Q (f y)) \<Longrightarrow> sound Q (case x of None \<Rightarrow> m | Some y \<Rightarrow> f y)"
  by (cases x) simp_all

lemma sound_pair [sound]: "(\<And>a b. p = (a, b) \<Longrightarrow> sound Q (f a b)) \<Longrightarrow> sound Q (case p of (a, b) \<Rightarrow> f a b)"
  by (cases p) simp

lemma sound_each [sound]: "(\<And>x. x \<in> set xs \<Longrightarrow> sound0 (m x)) \<Longrightarrow> sound0 (eachM m xs)"
  by (induction xs) (auto intro!: sound)

lemma sound_seq [sound]: "(\<And>x. x \<in> set xs \<Longrightarrow> sound0 (m x)) \<Longrightarrow> sound0 (seqM m xs)"
  by (induction xs) (auto intro!: sound)

lemma sound_repeat [sound]: "sound0 m \<Longrightarrow> sound0 (repeatM k m)"
  by (induction k) (auto intro!: sound)

lemma sound_try [sound]: "sound0 m \<Longrightarrow> sound (\<lambda>err. \<forall>e. err = Some e \<longrightarrow> \<not> wiring_error e) (tryM m)"
proof (rule soundI)
  fix s r t assume m: "sound0 m" and a: "fine s" "tryM m s = (r, t)"
  obtain q u where q: "m s = (q, u)" by fastforce
  from soundD[OF m a(1) q] have u: "fine u" "case q of Inl e \<Rightarrow> \<not> wiring e | Inr x \<Rightarrow> True" by blast+
  show "fine t \<and> (case r of Inl e \<Rightarrow> \<not> wiring e | Inr err \<Rightarrow> \<forall>e. err = Some e \<longrightarrow> \<not> wiring_error e)"
  proof (cases q)
    case (Inl e)
    with u a q show ?thesis by (cases e) (auto simp: tryM_def)
  next
    case (Inr x)
    with u a q show ?thesis by (auto simp: tryM_def)
  qed
qed

section \<open>Effects\<close>

lemma sound_ops [sound]: "sound0 (advance ms)" "sound0 (note_diag code place subj)" "sound0 (note_op p)" "sound0 (store_field a f v)"
    "sound0 (persist_row e k a)" "sound0 (strip_rows as)" "sound0 (drop_cached k)"
  unfolding advance_def note_diag_def note_op_def store_field_def persist_row_def strip_rows_def drop_cached_def
  by (rule sound_upd_other, simp)+

lemma sound_mark [sound]: "sound0 (mark_written env e k)"
  unfolding mark_written_def by (intro sound) simp_all

lemma sound_new [sound]: "sound0 (new_obj x)" "sound0 (call_network env q)" "sound0 (cache_lookup k)"
  by (auto simp: sound_def new_obj_def call_network_def cache_lookup_def fine_def split: prod.splits)

lemma sound_cache_store [sound]: "sound0 (cache_store env k a)"
  by (auto simp: sound_def cache_store_def cache_set_def fine_def split: sum.splits option.splits)

lemma sound_execute [sound]: "sound0 (execute_repo e operation k)"
proof -
  have "\<not> wiring x" if "fst (repo_execute h r e operation k) = Inl x" for h r x using tame_execute that unfolding tame_def by metis
  then show ?thesis by (auto simp: sound_def execute_repo_def fine_def split: prod.splits sum.splits) (metis fst_conv)
qed

lemma sound_assignment [sound]: "sound0 (run_assignment env t x aft)"
  unfolding run_assignment_def Let_def by (intro sound tame) simp_all

lemma sound_query [sound]: "sound0 (run_query env c)"
  unfolding run_query_def term_value_def by (intro sound tame) simp_all

lemma sound_no_row [sound]: "sound0 (no_row operation e)"
  unfolding no_row_def by (intro sound) simp_all

lemma sound_bind_read [sound]: "sound0 (bind_read env nid c key a)"
  unfolding bind_read_def
  by (simp split: option.split node.split) (intro allI impI conjI sound tame; simp)

lemma sound_fetch [sound]: "sound0 (fetch_row env c key)"
  unfolding fetch_row_def by (intro sound; simp)

lemma sound_repository [sound]: "sound0 (run_repository env nid c)"
  unfolding run_repository_def call_key_def finish_create_def Let_def by (intro sound tame; simp)

lemma sound_network [sound]: "sound0 (run_network env n)"
  unfolding run_network_def Let_def
  by (intro sound tame; auto intro!: sound split: sum.split prod.split)

section \<open>Reading a well-formed document\<close>

lemma node_of_mem:
  assumes "document_ok doc" shows "node_of doc i = Some n \<longleftrightarrow> (i, n) \<in> set doc"
proof -
  from assms have "distinct (map fst (rev doc))" by (simp add: document_ok_def rev_map[symmetric])
  then show ?thesis unfolding node_of_def by (simp add: map_of_eq_Some_iff)
qed

lemma node_of_ok: "document_ok doc \<Longrightarrow> node_of doc i = Some n \<Longrightarrow> node_ok doc n"
  by (auto simp: node_of_mem) (auto simp: document_ok_def list_all_iff)

lemma finds_node: "document_ok doc \<Longrightarrow> finds doc P i \<Longrightarrow> \<exists>n. node_of doc i = Some n \<and> P n"
  by (auto simp: finds_def node_of_mem)

lemma finds_step:
  assumes "document_ok doc" and "finds doc is_step i"
  obtains nm cs where "node_of doc i = Some (WorkflowStep nm cs)" and "list_all (finds doc is_effect) cs"
proof -
  from finds_node[OF assms] obtain n where n: "node_of doc i = Some n" "is_step n" by blast
  then obtain nm cs where "n = WorkflowStep nm cs" by (cases n) simp_all
  with n(1) node_of_ok[OF assms(1) n(1)] that show ?thesis by (auto simp: node_ok_def)
qed

section \<open>Steps\<close>

abbreviation error_ok :: "run_error option \<Rightarrow> bool" where
  "error_ok err \<equiv> \<forall>e. err = Some e \<longrightarrow> \<not> wiring_error e"

text \<open>No worker of a block has met such an error.\<close>

definition worker_ok :: "worker \<Rightarrow> bool" where
  "worker_ok w \<longleftrightarrow> (case w of Trying _ _ e \<Rightarrow> \<not> wiring_error e | Finished _ oc \<Rightarrow> error_ok (oc_error oc) | _ \<Rightarrow> True)"

abbreviation workers_ok :: "block_state \<Rightarrow> bool" where
  "workers_ok b \<equiv> list_all worker_ok (bs_workers b)"

text \<open>
  What a run relies on of the documents it is given: the environments a provider of documents serves hold
  a well-formed one. The recursion limit is at least the depth of a lowered body.
\<close>

locale sound_env =
  fixes serves :: "env \<Rightarrow> bool"
  assumes doc: "serves env \<Longrightarrow> well_formed (en_doc env)" and depth: "serves env \<Longrightarrow> 3 \<le> en_depth env"
begin

lemma ok: "serves env \<Longrightarrow> document_ok (en_doc env)"
  using doc by (simp add: well_formed_def)

lemma emit: "serves env \<Longrightarrow> node_of (en_doc env) i = Some (Effect (EventEmit ev pm)) \<Longrightarrow> sound0 (run_emit env nid ev pm)"
proof -
  assume r: "serves env" and "node_of (en_doc env) i = Some (Effect (EventEmit ev pm))"
  from this(2) have "(i, Effect (EventEmit ev pm)) \<in> set (en_doc env)" by (simp add: node_of_mem[OF ok[OF r]])
  with doc[OF r] have "\<exists>e. ev = Some e \<and> finds (en_doc env) is_event e"
    unfolding well_formed_def events_declared_def by (elim conjE) (drule bspec, assumption, simp)
  then obtain e where "ev = Some e" "finds (en_doc env) is_event e" by blast
  from finds_node[OF ok[OF r] this(2)] this(1) show ?thesis by (auto simp: run_emit_def intro!: sound)
qed

lemma perform: "serves env \<Longrightarrow> node_of (en_doc env) i = Some (Effect e) \<Longrightarrow> sound0 (perform env nid e)"
  by (cases e) (auto simp: run_validation_def run_cache_access_def run_authorization_def Let_def intro!: sound tame emit)

lemma effect: "serves env \<Longrightarrow> finds (en_doc env) is_effect c \<Longrightarrow> sound0 (run_effect env c)"
proof -
  assume r: "serves env" and "finds (en_doc env) is_effect c"
  from finds_node[OF ok[OF r] this(2)] obtain e where e: "node_of (en_doc env) c = Some (Effect e)"
    by (auto elim: is_effect.elims)
  then show ?thesis by (simp add: run_effect_def) (intro sound perform[OF r e])
qed

abbreviation effects :: "env \<Rightarrow> string list \<Rightarrow> bool" where
  "effects env cs \<equiv> list_all (finds (en_doc env) is_effect) cs"

lemma step: "serves env \<Longrightarrow> effects env cs \<Longrightarrow> sound0 (run_step env nm cs)"
  unfolding run_step_def by (intro sound effect) (simp_all add: list_all_iff)

lemma allow: "serves env \<Longrightarrow> effects env cs \<Longrightarrow> tame (children_allow (en_doc env) cs)"
  by (induction cs) (auto dest!: finds_node[OF ok, rotated])

lemma retry: "serves env \<Longrightarrow> effects env cs \<Longrightarrow> tame (retryable env cs n t)"
  unfolding retryable_def by (intro tame allow) simp_all

lemma kinds: "serves env \<Longrightarrow> effects env cs \<Longrightarrow> tame (step_kinds (en_doc env) cs)"
  unfolding step_kinds_def
  by (intro tame) (auto simp: list_all_iff dest!: finds_node[OF ok, rotated] split: option.split)

lemma harvest: "serves env \<Longrightarrow> effects env cs \<Longrightarrow> tame (harvest_step env s nm cs)"
  unfolding harvest_step_def harvest_child_def
  by (intro tame) (auto simp: list_all_iff dest!: finds_node[OF ok, rotated] split: option.split node.split effect.split)

lemma attempts:
  "serves env \<Longrightarrow> effects env cs \<Longrightarrow> n + k = max_step_attempts \<Longrightarrow> 0 < k \<Longrightarrow>
     sound (\<lambda>(m, err). error_ok err) (attempt_loop k env nm cs n)"
proof (induction k arbitrary: n)
  case (Suc k)
  have again: "sound (\<lambda>b. b \<longrightarrow> 0 < k) (liftM (\<lambda>s. retryable env cs (Suc n) (now_of s)))"
    by (rule sound_lift_val) (use retry[OF Suc.prems(1,2)] retryable_more Suc.prems(3) in fastforce)+
  show ?case
    unfolding attempt_loop.simps
  proof (rule sound_bind[OF sound_try[OF step[OF Suc.prems(1,2)]]], rule sound_option)
    fix err e assume "error_ok err" "err = Some e"
    then show "sound (\<lambda>(m, err). error_ok err)
       (bindM (liftM (\<lambda>s. retryable env cs (Suc n) (now_of s))) (\<lambda>again.
         if again then bindM (advance (Some (backoff_ms (Suc n)))) (\<lambda>_. attempt_loop k env nm cs (Suc n))
         else ret (Suc n, Some e)))"
      by (intro sound_bind[OF again] sound Suc.IH) (use Suc.prems in auto)
  qed (simp add: sound_ret)
qed simp

lemma fail: "\<not> wiring_error e \<Longrightarrow> sound0 (fail_run (StepFailed nm e))" "sound0 (fail_run (DeadlineAfter nm))"
  unfolding fail_run_def by (intro sound sound_upd; simp add: fine_def)+

lemma step_item: "serves env \<Longrightarrow> effects env cs \<Longrightarrow> sound0 (run_step_item env nm cs)"
  unfolding run_step_item_def
  by (rule sound_bind0[OF sound_get], rule sound_bind[OF attempts], simp, simp, simp, simp add: max_step_attempts_def, simp only: prod.case split_beta)
    (intro sound fail harvest kinds; simp add: add_harvest_def)

section \<open>Blocks\<close>

lemma finish: "serves env \<Longrightarrow> effects env cs \<Longrightarrow> error_ok err \<Longrightarrow> sound worker_ok (finish_worker env rank nm cs n err)"
  unfolding finish_worker_def by (intro sound kinds tame harvest) (simp_all add: worker_ok_def)

lemma attempt: "serves env \<Longrightarrow> effects env cs \<Longrightarrow> sound worker_ok (worker_attempt env rank nm cs n)"
  unfolding worker_attempt_def
  by (rule sound_bind[OF sound_try[OF step]], assumption, assumption, rule sound_option)
    (intro sound finish retry; simp add: worker_ok_def)+

lemma catch:
  assumes "sound worker_ok m" shows "sound worker_ok (catch_all m)"
proof (rule soundI)
  fix s r t assume a: "fine s" "catch_all m s = (r, t)"
  obtain q u where q: "m s = (q, u)" by fastforce
  from soundD[OF assms a(1) q] a(2) q show "fine t \<and> (case r of Inl e \<Rightarrow> \<not> wiring e | Inr x \<Rightarrow> worker_ok x)"
    by (cases q) (auto simp: catch_all_def worker_ok_def)
qed

abbreviation steps_ok :: "env \<Rightarrow> (string \<times> string list) list \<Rightarrow> bool" where
  "steps_ok env steps \<equiv> list_all (\<lambda>(_, cs). effects env cs) steps"

lemma set_worker_ok: "workers_ok b \<Longrightarrow> worker_ok w \<Longrightarrow> workers_ok (set_worker i w b)"
  unfolding set_worker_def by (cases "i < length (bs_workers b)") (auto simp: list_all_length nth_list_update)

lemma turn:
  assumes r: "serves env" and "steps_ok env steps" and "i < length steps" and "length (bs_workers b) = length steps" and "workers_ok b"
  shows "sound (\<lambda>b'. workers_ok b' \<and> length (bs_workers b') = length steps) (take_turn env steps i b)"
proof -
  obtain nm cs where st: "steps ! i = (nm, cs)" by fastforce
  with assms(2,3) have cs: "effects env cs" by (auto simp: list_all_length)
  from assms have w: "worker_ok (bs_workers b ! i)" by (simp add: list_all_length)
  have "sound worker_ok (worker_turn env (bs_cancel b) (bs_started b) nm cs (bs_workers b ! i))"
    unfolding worker_turn_def
    using w by (cases "bs_workers b ! i") (auto simp: worker_ok_def intro!: sound catch finish[OF r cs] attempt[OF r cs])
  then show ?thesis
    unfolding take_turn_def st fst_conv snd_conv
    by (rule sound_bind) (use assms set_worker_ok in \<open>simp add: sound_ret set_worker_def\<close>)
qed

lemma cancelled_ok: "workers_ok b \<Longrightarrow> workers_ok (cancel_pending b)" "length (bs_workers (cancel_pending b)) = length (bs_workers b)"
  by (auto simp: cancel_pending_def list_all_iff worker_ok_def)

abbreviation block_ok :: "(string \<times> string list) list \<Rightarrow> block_state \<Rightarrow> bool" where
  "block_ok steps b \<equiv> workers_ok b \<and> length (bs_workers b) = length steps"

lemma schedule: "serves env \<Longrightarrow> steps_ok env steps \<Longrightarrow> block_ok steps b \<Longrightarrow> sound (block_ok steps) (run_schedule env cap steps es b)"
proof (induction es arbitrary: b)
  case (Cons e es)
  show ?case
  proof (cases e)
    case (AttemptStep i)
    show ?thesis
    proof (cases "may_move cap i b")
      case True
      with Cons.prems have "i < length steps" by (simp add: may_move_def)
      have "sound (block_ok steps) (take_turn env steps i b)"
        using turn[OF Cons.prems(1,2) \<open>i < length steps\<close>, of b] Cons.prems(3) by blast
      then have "sound (block_ok steps) (bindM (take_turn env steps i b) (run_schedule env cap steps es))"
        by (rule sound_bind) (rule Cons.IH[OF Cons.prems(1,2)])
      with True AttemptStep show ?thesis by simp
    next
      case False
      with Cons AttemptStep show ?thesis by simp
    qed
  next
    case CancelPending
    with Cons cancelled_ok show ?thesis by simp
  qed
qed (simp add: sound_ret)

lemma first_open_less: "first_open ws = Some i \<Longrightarrow> i < length ws"
  by (induction ws arbitrary: i) (auto split: if_splits)

lemma join: "serves env \<Longrightarrow> steps_ok env steps \<Longrightarrow> block_ok steps b \<Longrightarrow> sound (block_ok steps) (join_workers k env steps b)"
proof (induction k arbitrary: b)
  case (Suc k)
  have s: "block_ok steps (settle b)" using Suc.prems(3) cancelled_ok by (simp add: settle_def)
  show ?case
    unfolding join_workers.simps
  proof (rule sound_option)
    show "sound (block_ok steps) (ret (settle b))" using s by (rule sound_ret)
    fix i assume "first_open (bs_workers (settle b)) = Some i"
    with s first_open_less have "i < length steps" by fastforce
    from turn[OF Suc.prems(1,2) this, of "settle b"] s have "sound (block_ok steps) (take_turn env steps i (settle b))" by blast
    then show "sound (block_ok steps) (bindM (take_turn env steps i (settle b)) (join_workers k env steps))"
      by (rule sound_bind) (rule Suc.IH[OF Suc.prems(1,2)])
  qed
qed (simp add: sound_ret)

lemma earliest_ok: "list_all worker_ok ws \<Longrightarrow> earliest_failure (zip ns ws) = Some (r, nm, e) \<Longrightarrow> \<not> wiring_error e"
proof (induction ws arbitrary: ns r nm e)
  case (Cons w ws)
  then obtain n ns' where ns: "ns = n # ns'" by (cases ns) auto
  with Cons show ?case
    by (auto simp: worker_ok_def split: worker.splits option.splits if_splits)
qed simp

lemma report_other: "st_failed (fold report_worker ws s) = st_failed s"
  by (induction ws arbitrary: s) (simp_all add: report_worker_def Let_def add_harvest_def split: worker.split)

lemma report: "list_all worker_ok ws \<Longrightarrow> sound0 (report_block env ns ws)"
  unfolding report_block_def
  by (intro sound fail) (auto simp: report_other dest: earliest_ok)

lemma parallel: "serves env \<Longrightarrow> list_all (finds (en_doc env) is_step) ids \<Longrightarrow> sound0 (run_parallel env nid ids)"
proof -
  assume r: "serves env" and ids: "list_all (finds (en_doc env) is_step) ids"
  have st: "\<exists>nm cs. step_of (en_doc env) i = Inr (nm, cs) \<and> effects env cs" if "i \<in> set ids" for i
  proof -
    from ids that have "finds (en_doc env) is_step i" by (simp add: list_all_iff)
    from finds_step[OF ok[OF r] this] obtain nm cs where "node_of (en_doc env) i = Some (WorkflowStep nm cs)" "effects env cs" .
    then show ?thesis by (simp add: step_of_def)
  qed
  have lift: "sound (steps_ok env) (liftM (\<lambda>_. mapE (step_of (en_doc env)) ids))"
  proof (rule sound_lift_val)
    show "tame (mapE (step_of (en_doc env)) ids)" by (rule tame_map) (use st in fastforce)
    fix ps assume ps: "mapE (step_of (en_doc env)) ids = Inr ps"
    have "effects env (snd p)" if "p \<in> set ps" for p
    proof -
      from mapE_mem[OF ps that] obtain i where "i \<in> set ids" "step_of (en_doc env) i = Inr p" by blast
      with st[of i] show ?thesis by auto
    qed
    then show "steps_ok env ps" by (auto simp: list_all_iff)
  qed
  have pool: "tame (pool_size v n)" for v n
    by (auto simp: pool_size_def split: pyval.split)
  show ?thesis
    unfolding run_parallel_def
  proof (rule sound_bind[OF lift], rule sound_bind0[OF sound_lift[OF pool]])
    fix steps cap assume s: "steps_ok env steps"
    have b: "block_ok steps \<lparr>bs_workers = replicate (length steps) Waiting, bs_started = 0, bs_cancel = False\<rparr>"
      by (simp add: list_all_length worker_ok_def)
    show "sound0 (bindM (run_schedule env cap steps (en_schedule env nid)
              \<lparr>bs_workers = replicate (length steps) Waiting, bs_started = 0, bs_cancel = False\<rparr>) (\<lambda>b.
     bindM (join_workers (join_fuel steps) env steps b) (\<lambda>b. report_block env (map fst steps) (bs_workers b))))"
      by (rule sound_bind[OF schedule[OF r s b]], rule sound_bind[OF join[OF r s]], assumption, rule report) simp
  qed
qed

section \<open>Guards\<close>

abbreviation item_names :: "env \<Rightarrow> nat \<Rightarrow> string \<Rightarrow> run_exc + string list" where
  "item_names env k i \<equiv> (case node_of (en_doc env) i of
      Some (WorkflowStep nm _) \<Rightarrow> Inr [nm]
    | Some (Concurrency cs) \<Rightarrow> guarded_step_names k (en_doc env) cs
    | Some (Pipeline cs) \<Rightarrow> guarded_step_names k (en_doc env) cs
    | Some (Guard g) \<Rightarrow> guarded_step_names k (en_doc env) (gn_children g)
    | _ \<Rightarrow> Inr [])"

lemma names_by_item:
  assumes "\<And>i. i \<in> set ids \<Longrightarrow> tame (item_names env k i)"
  shows "tame (guarded_step_names (Suc k) (en_doc env) ids)"
  unfolding guarded_step_names.simps by (rule tame_bind[OF tame_map[OF assms]]) (simp_all only: tame_simps)

lemma step_names: "serves env \<Longrightarrow> list_all (finds (en_doc env) is_step) ids \<Longrightarrow> tame (guarded_step_names (Suc k) (en_doc env) ids)"
proof (rule names_by_item)
  fix i assume r: "serves env" and "list_all (finds (en_doc env) is_step) ids" "i \<in> set ids"
  from this(2,3) have "finds (en_doc env) is_step i" by (simp add: list_all_iff)
  from finds_step[OF ok[OF r] this] obtain nm cs where "node_of (en_doc env) i = Some (WorkflowStep nm cs)" .
  then show "tame (item_names env k i)" by simp
qed

lemma body_names: "serves env \<Longrightarrow> list_all (finds (en_doc env) is_body) ids \<Longrightarrow> tame (guarded_step_names (Suc (Suc k)) (en_doc env) ids)"
proof (rule names_by_item)
  fix i assume r: "serves env" and "list_all (finds (en_doc env) is_body) ids" "i \<in> set ids"
  from this(2,3) have "finds (en_doc env) is_body i" by (simp add: list_all_iff)
  from finds_node[OF ok[OF r] this] obtain m where m: "node_of (en_doc env) i = Some m" "is_body m" by blast
  from node_of_ok[OF ok[OF r] m(1)] m step_names[OF r] show "tame (item_names env (Suc k) i)" by (cases m) (simp_all add: node_ok_def)
qed

lemma deep: assumes "serves env" obtains k where "en_depth env = Suc (Suc (Suc k))"
  using depth[OF assms] by (metis Suc_le_D numeral_3_eq_3 Suc_le_mono)

lemma skip:
  assumes r: "serves env" and "list_all (finds (en_doc env) is_body) (gn_children g)"
  shows "sound0 (record_skip env nid g ow rounds evs)"
proof -
  obtain k where k: "en_depth env = Suc (Suc (Suc k))" by (rule deep[OF r])
  have "list_all (finds (en_doc env) is_body) (take 1 (drop 1 (gn_children g)))"
    "list_all (finds (en_doc env) is_body) (take 1 (gn_children g))"
    using assms by (auto simp: list_all_iff dest!: in_set_takeD in_set_dropD)
  then have "tame (skip_entry env nid g ow rounds evs')" for evs'
    unfolding skip_entry_def k by (intro tame) (auto simp del: guarded_step_names.simps intro: body_names[OF r])
  then show ?thesis unfolding record_skip_def by (intro sound) simp_all
qed

lemma guard_text:
  assumes "guard_fits g" and "gn_mode g \<noteq> ''repeat''" and "p \<in> set (enumerate 0 (gn_condition g # map Some (gn_alternatives g)))"
  shows "tame (guard_text_verdict env s g p)"
proof -
  obtain i c where p: "p = (i, c)" by fastforce
  from assms(3) p have i: "i \<le> length (gn_alternatives g)" and c: "c \<in> set (gn_condition g # map Some (gn_alternatives g))"
    by (auto simp: in_set_enumerate_eq nth_Cons')
  from c assms(1,2) obtain t where t: "c = Some t" "condition_text_ok t" by (auto simp: guard_fits_def list_all_iff)
  from i assms(1) have "tame (text_ops g i)" by (auto simp: text_ops_def guard_fits_def)
  with tame_condition[OF t(2)] show ?thesis unfolding guard_text_verdict_def p t(1) by (intro tame) simp_all
qed

lemma guard_first: "guard_fits g \<Longrightarrow> gn_mode g \<noteq> ''repeat'' \<Longrightarrow> tame (guard_text_verdict env s g (0, gn_condition g))"
  by (rule guard_text) simp_all

lemma verdict: "guard_fits g \<Longrightarrow> gn_mode g \<noteq> ''repeat'' \<Longrightarrow> tame (guard_verdict env s g)"
  unfolding guard_verdict_def by (intro tame guard_text) simp_all

lemma until_rounds:
  assumes "guard_fits g" and "gn_mode g \<noteq> ''repeat''" and "sound0 body"
  shows "sound0 (until_loop k env g d body n)"
proof (induction k arbitrary: n)
  case 0
  then show ?case unfolding until_loop.simps until_condition_def by (intro sound tame guard_first assms) simp_all
next
  case (Suc k)
  then show ?case unfolding until_loop.simps until_condition_def by (intro sound tame guard_first assms) simp_all
qed

lemma guard:
  assumes r: "serves env" and "guard_fits g" and "list_all (finds (en_doc env) is_body) (gn_children g)"
    and body: "\<And>ids. set ids \<subseteq> set (gn_children g) \<Longrightarrow> sound0 (body ids)"
  shows "sound0 (run_guard env nid g body)"
proof -
  have sub: "sound0 (body (take 1 (drop 1 (gn_children g))))" "sound0 (body (take 1 (gn_children g)))" "sound0 (body (gn_children g))"
    by (rule body, auto dest!: in_set_takeD in_set_dropD)+
  show ?thesis
  proof (cases "gn_mode g = ''repeat''")
    case True
    with sub show ?thesis by (simp add: run_guard_def sound_repeat)
  next
    case False
    note mode = assms(2) False
    have "gn_mode g = ''when'' \<or> gn_mode g = ''until''" using assms(2) False by (auto simp: guard_fits_def)
    moreover have "sound0 (run_when env nid g body)"
      unfolding run_when_def by (intro sound tame verdict[OF mode] skip r assms(3) sub) simp_all
    moreover have "sound0 (run_until env nid g (body (gn_children g)))"
      unfolding run_until_def by (intro sound tame until_rounds[OF mode] guard_first[OF mode] skip r assms(3) sub) simp_all
    ultimately show ?thesis by (auto simp: run_guard_def)
  qed
qed

section \<open>Items\<close>

lemma step_run: "serves env \<Longrightarrow> finds (en_doc env) is_step i \<Longrightarrow> sound0 (run_item (Suc k) env i)"
proof -
  assume r: "serves env" and "finds (en_doc env) is_step i"
  from finds_step[OF ok[OF r] this(2)] obtain nm cs where "node_of (en_doc env) i = Some (WorkflowStep nm cs)" "effects env cs" .
  with r show ?thesis by (simp add: step_item)
qed

lemma body_run: "serves env \<Longrightarrow> finds (en_doc env) is_body i \<Longrightarrow> sound0 (run_item (Suc (Suc k)) env i)"
proof -
  assume r: "serves env" and "finds (en_doc env) is_body i"
  from finds_node[OF ok[OF r] this(2)] obtain m where m: "node_of (en_doc env) i = Some m" "is_body m" by blast
  note n = node_of_ok[OF ok[OF r] m(1)]
  show ?thesis
  proof (cases m)
    case (WorkflowStep nm cs)
    with n m show ?thesis by (simp add: node_ok_def step_item r)
  next
    case (Concurrency cs)
    with n m show ?thesis by (simp add: node_ok_def parallel r)
  next
    case (Pipeline cs)
    with n have "\<And>c. c \<in> set cs \<Longrightarrow> finds (en_doc env) is_step c" by (simp add: node_ok_def list_all_iff)
    with m(1) Pipeline show ?thesis by (simp del: run_item.simps(2) add: run_item.simps(2)[of "Suc k"]) (intro sound step_run[OF r])
  qed (use m(2) in simp_all)
qed

lemma item_run: "serves env \<Longrightarrow> finds (en_doc env) is_item i \<Longrightarrow> sound0 (run_item (Suc (Suc (Suc k))) env i)"
proof -
  assume r: "serves env" and "finds (en_doc env) is_item i"
  then show ?thesis
  proof (cases "finds (en_doc env) is_body i")
  case False
  from finds_node[OF ok[OF r] \<open>finds (en_doc env) is_item i\<close>] obtain m where m: "node_of (en_doc env) i = Some m" "is_item m" by blast
  with False have "\<not> is_body m" by (auto simp: finds_def node_of_mem[OF ok[OF r]])
  with m obtain g where g: "m = Guard g" by (cases m) auto
  with node_of_ok[OF ok[OF r] m(1)] have fit: "guard_fits g" "list_all (finds (en_doc env) is_body) (gn_children g)"
    by (simp_all add: node_ok_def)
  have "sound0 (run_guard env i g (seqM (run_item (Suc (Suc k)) env)))"
    by (rule guard[OF r fit]) (use fit(2) in \<open>auto simp: list_all_iff intro!: sound body_run[OF r]\<close>)
  with m(1) g show ?thesis by (simp only: run_item.simps(2) option.case node.case)
qed (rule body_run)
qed

lemma items: "serves env \<Longrightarrow> list_all (finds (en_doc env) is_item) ids \<Longrightarrow> sound0 (run_items env ids)"
proof -
  assume r: "serves env" and ids: "list_all (finds (en_doc env) is_item) ids"
  obtain k where k: "en_depth env = Suc (Suc (Suc k))" by (rule deep[OF r])
  show ?thesis unfolding run_items_def k by (intro sound item_run[OF r]) (use ids in \<open>simp add: list_all_iff\<close>)
qed

end

text \<open>Every environment with such a document is a provider.\<close>

definition runnable :: "env \<Rightarrow> bool" where
  "runnable env \<longleftrightarrow> well_formed (en_doc env) \<and> 3 \<le> en_depth env"

interpretation runs: sound_env runnable
  by unfold_locales (simp_all add: runnable_def)

section \<open>Workflows\<close>

lemma tame_terms: "tame (term_response env s ts r)"
proof (induction ts arbitrary: r)
  case (Cons t ts)
  obtain step n where t: "t = (step, n)" by fastforce
  have "tame (respond_terms env s n r)"
    unfolding respond_terms_def response_agg_term_def run_aggregate_def Let_def by (intro tame) (auto intro!: tame split: rhs.split)
  with Cons show ?case by (auto simp: t tame_def split: sum.splits run_exc.splits)
qed simp

text \<open>A term that fails does so on the rows it aggregates.\<close>

lemma term_failure: "term_response env s ts r = Inr (Inl f) \<Longrightarrow> \<exists>step e. f = StepFailed step e \<and> \<not> wiring_error e"
proof (induction ts arbitrary: r)
  case (Cons t ts)
  obtain step n where t: "t = (step, n)" by fastforce
  have "tame (respond_terms env s n r)"
    unfolding respond_terms_def response_agg_term_def run_aggregate_def Let_def by (intro tame) (auto intro!: tame split: rhs.split)
  with Cons show ?case by (auto simp: t tame_def split: sum.splits run_exc.splits)
qed simp

lemma sound_terms: "sound0 (evaluate_terms env)"
proof (rule soundI)
  fix s r t assume a: "fine s" "evaluate_terms env s = (r, t)"
  show "fine t \<and> (case r of Inl e \<Rightarrow> \<not> wiring e | Inr x \<Rightarrow> True)"
  proof (cases "st_failed s \<noteq> None \<or> st_terms s = []")
    case True
    with a show ?thesis by (auto simp: evaluate_terms_def)
  next
    case False
    show ?thesis
    proof (cases "term_response env s (st_terms s) []")
      case (Inl e)
      with tame_terms[of env s "st_terms s" "[]"] a False show ?thesis by (auto simp: evaluate_terms_def)
    next
      case (Inr x)
      show ?thesis
      proof (cases x)
        case (Inl f)
        with term_failure Inr obtain step e where "f = StepFailed step e" "\<not> wiring_error e" by blast
        with a False Inr Inl show ?thesis by (auto simp: evaluate_terms_def fine_def)
      qed (use a False Inr in \<open>auto simp: evaluate_terms_def\<close>)
    qed
  qed
qed

lemma sound_begin: "sound0 begin_run"
  by (auto simp: sound_def begin_run_def repo_begin_def fine_def split: option.splits prod.splits)

lemma sound_roll_back: "fine s \<Longrightarrow> fine (roll_back s)"
  by (simp add: fine_def roll_back_def drop_keys_def)

lemma sound_on_error: "sound0 m \<Longrightarrow> sound0 (on_run_error roll_back m)"
proof (rule soundI)
  fix s r t assume m: "sound0 m" "fine s" "on_run_error roll_back m s = (r, t)"
  obtain q u where q: "m s = (q, u)" by fastforce
  from soundD[OF m(1,2) q] m(3) q show "fine t \<and> (case r of Inl e \<Rightarrow> \<not> wiring e | Inr x \<Rightarrow> True)"
    by (auto simp: on_run_error_def sound_roll_back split: sum.splits run_exc.splits)
qed

lemma sound_close: "sound0 close_run"
  by (auto simp: sound_def close_run_def fine_def commit_run_def roll_back_def drop_keys_def)

definition result_ok :: "run_result \<Rightarrow> bool" where
  "result_ok r \<longleftrightarrow> (\<forall>nm e. rr_failure r = Some (StepFailed nm e) \<longrightarrow> \<not> wiring_error e)"

lemma sound_finish: "sound result_ok (finish_run env nm start terms)"
  by (auto simp: sound_def finish_run_def fine_def result_ok_def Let_def split: prod.splits)

lemma sound_body:
  assumes "runnable env" and "list_all (finds (en_doc env) is_item) ids"
  shows "sound result_ok (run_body env nm ids)"
  unfolding run_body_def
  by (intro sound_bind0 sound_get sound_begin sound_on_error runs.items assms sound_terms sound_close sound_finish)

lemma service_for_mem:
  assumes "service_for doc wid = Some cids" obtains i nm cs where "(i, Service nm cs cids) \<in> set doc"
proof -
  let ?p = "\<lambda>(_ :: string, n). case n of Service _ cs _ \<Rightarrow> wid \<in> set cs | _ \<Rightarrow> False"
  from assms obtain i n where f: "List.find ?p doc = Some (i, n)" and n: "(case n of Service _ _ cons \<Rightarrow> Some cons | _ \<Rightarrow> None) = Some cids"
    by (auto simp: service_for_def split: option.splits prod.splits)
  from f have "(i, n) \<in> set doc" by (metis find_Some_iff nth_mem)
  moreover from n obtain nm cs where "n = Service nm cs cids" by (cases n) auto
  ultimately show ?thesis using that by blast
qed

lemma tame_constraints:
  assumes "document_ok doc" shows "tame (constraints_of doc (service_for doc wid))"
proof -
  have dur: "tame (duration_of x)" for x
    by (auto simp: duration_of_def split: sum.split option.split lex_error.split)
  have int: "tame (int_of v)" for v by (simp add: int_of_def split: pyval.split option.split)
  have rules: "tame (policy_rule r con)" "tame (budget r con)" for r con
    unfolding policy_rule_def budget_def Let_def split_beta by (intro tame dur int; simp)+
  have node: "tame (constraint_node doc cid con)" if "finds doc is_constraint cid" for cid con
  proof -
    from finds_node[OF assms that] obtain n where "node_of doc cid = Some n" "is_constraint n" by blast
    then show ?thesis by (cases n) (auto simp: constraint_node_def intro!: tame rules)
  qed
  show ?thesis
  proof (cases "service_for doc wid")
    case (Some cids)
    from service_for_mem[OF this] obtain i nm cs where "(i, Service nm cs cids) \<in> set doc" .
    with assms have "node_ok doc (Service nm cs cids)" by (auto simp: document_ok_def list_all_iff)
    then have "list_all (finds doc is_constraint) cids" by (simp add: node_ok_def)
    with Some show ?thesis by (auto simp: constraints_of_def list_all_iff intro!: tame node)
  qed (simp add: constraints_of_def)
qed

lemma tame_context: "tame (decide_run_context rc fresh t)"
  unfolding decide_run_context_def context_text_def
  by (auto intro!: tame split: pyval.split list.split)

lemma well_formed_runs:
  assumes "well_formed (cf_doc cf)" and "3 \<le> cf_depth cf" and "finds (cf_doc cf) is_workflow wid"
    and "run_workflow cf wid payload rc s = (r, t)"
  shows "case r of Inl e \<Rightarrow> \<not> wiring e | Inr res \<Rightarrow> result_ok res"
proof -
  have ok: "document_ok (cf_doc cf)" using assms(1) by (simp add: well_formed_def)
  from finds_node[OF ok assms(3)] obtain nm ids where n: "node_of (cf_doc cf) wid = Some (Workflow nm ids)"
    by (auto elim: is_workflow.elims)
  from node_of_ok[OF ok n] have ids: "list_all (finds (cf_doc cf) is_item) ids" by (simp add: node_ok_def)
  have now: "now_of (s\<lparr>st_ops := []\<rparr>) = now_of s" by (simp add: now_of_def)
  show ?thesis
  proof (cases "decide_run_context rc (cf_fresh cf) (now_of s)")
    case (Inl e)
    with tame_context[of rc "cf_fresh cf" "now_of s"] assms(4) n now show ?thesis
      by (auto simp: run_workflow_def bindM_def run_defs)
  next
    case c: (Inr c)
    show ?thesis
    proof (cases "constraints_of (cf_doc cf) (service_for (cf_doc cf) wid)")
      case (Inl e)
      with tame_constraints[OF ok, of wid] assms(4) n c now show ?thesis
        by (auto simp: run_workflow_def bindM_def run_defs)
    next
      case (Inr con)
      let ?env = "run_env cf con c payload (now_of s)"
      from Inr assms(4) n c now have "run_body ?env nm ids (fresh_run (s\<lparr>st_ops := []\<rparr>)) = (r, t)"
        by (simp add: run_workflow_def bindM_def run_defs)
      moreover have "sound result_ok (run_body ?env nm ids)"
        by (rule sound_body) (simp_all add: runnable_def run_env_def assms ids)
      moreover have "fine (fresh_run (s\<lparr>st_ops := []\<rparr>))" by (simp add: fine_def fresh_run_def)
      ultimately show ?thesis by (blast dest: soundD)
    qed
  qed
qed

end
