(* ===== verification/Loader.thy ===== *)
theory Loader
  imports Lowering
begin

text \<open>
  \<open>load_sources\<close> of \<open>impl/lnpl/lower.py\<close>: which files a list of paths stands for, the namespace each file
  declares into, and the merge of their declarations. What is on disk under a path is an argument, a
  file with its text or a directory with its entries.
\<close>

datatype fs = File string | Dir "(string \<times> fs) list"

datatype (plugins only: code size) load_error =
    NoSource | NoFiles string | NestedNamespace string | NestedInternal string | DirectoryInList string
  | DuplicateDecl "string option" string "string \<times> nat" "string \<times> nat"
  | NotParsed string parse_exc
  | CannotRead string

record source_file =
  sf_path :: string
  sf_namespace :: "string option"
  sf_internal :: bool
  sf_node :: fs

text \<open>\<open>os.path.join\<close> of a directory and an entry name.\<close>

definition path_join :: "string \<Rightarrow> string \<Rightarrow> string" where
  "path_join a b = (if a = [] \<or> last a = CHR ''/'' then a @ b else a @ ''/'' @ b)"

definition is_dir :: "fs \<Rightarrow> bool" where
  "is_dir f = (case f of Dir _ \<Rightarrow> True | _ \<Rightarrow> False)"

text \<open>\<open>sorted(os.listdir(d))\<close> with what each entry is.\<close>

definition sorted_entries :: "(string \<times> 'a) list \<Rightarrow> (string \<times> 'a) list" where
  "sorted_entries es = sort_by (\<lambda>p q. str_less (fst p) (fst q)) es"

definition is_lnpl :: "string \<Rightarrow> bool" where
  "is_lnpl name = endswith name ''.lnpl''"

section \<open>Namespaces\<close>

text \<open>The entries of \<open>internal/\<close>, and one entry of a namespace directory: sort key and file.\<close>

definition internal_entry ::
  "string \<Rightarrow> string \<Rightarrow> string \<times> fs \<Rightarrow> load_error + (string \<times> source_file) list" where
  "internal_entry dir namespace p =
     (let (name, f) = p; full = path_join dir name in
      if is_dir f then Inl (NestedInternal full)
      else if is_lnpl name then
        Inr [(path_join ''internal'' name, \<lparr>sf_path = full, sf_namespace = Some namespace, sf_internal = True, sf_node = f\<rparr>)]
      else Inr [])"

definition namespace_entry ::
  "string \<Rightarrow> string \<Rightarrow> string \<times> fs \<Rightarrow> load_error + (string \<times> source_file) list" where
  "namespace_entry dir namespace p =
     (let (name, f) = p; full = path_join dir name in
      case f of
        Dir es \<Rightarrow>
          if name \<noteq> ''internal'' then Inl (NestedNamespace full)
          else bindE (mapE (internal_entry full namespace) (sorted_entries es)) (\<lambda>xs. Inr (concat xs))
      | File _ \<Rightarrow>
          if is_lnpl name then
            Inr [(name, \<lparr>sf_path = full, sf_namespace = Some namespace, sf_internal = False, sf_node = f\<rparr>)]
          else Inr [])"

definition namespace_files :: "string \<Rightarrow> string \<Rightarrow> (string \<times> fs) list \<Rightarrow> load_error + source_file list" where
  "namespace_files dir namespace es =
     bindE (mapE (namespace_entry dir namespace) (sorted_entries es)) (\<lambda>xs.
       if concat xs = [] then Inl (NoFiles dir) else Inr (map snd (sorted_entries (concat xs))))"

section \<open>The files of a path list\<close>

definition plain_file :: "string \<Rightarrow> fs \<Rightarrow> source_file" where
  "plain_file path f = \<lparr>sf_path = path, sf_namespace = None, sf_internal = False, sf_node = f\<rparr>"

definition directory_files :: "string \<Rightarrow> (string \<times> fs) list \<Rightarrow> load_error + source_file list" where
  "directory_files dir es =
     (let top = filter (\<lambda>(name, _). is_lnpl name) (sorted_entries es);
          namespaces = filter (\<lambda>(_, f). is_dir f) (sorted_entries es) in
      if top \<noteq> [] then Inr (map (\<lambda>(name, f). plain_file (path_join dir name) f) top)
      else if namespaces = [] then Inl (NoFiles dir)
      else bindE (mapE (\<lambda>(name, f). namespace_files (path_join dir name) name (case f of Dir sub \<Rightarrow> sub | File _ \<Rightarrow> []))
                    namespaces) (\<lambda>xs. Inr (concat xs)))"

definition source_files :: "(string \<times> fs) list \<Rightarrow> load_error + source_file list" where
  "source_files paths =
     (case paths of
        [] \<Rightarrow> Inl NoSource
      | [(dir, Dir es)] \<Rightarrow> directory_files dir es
      | _ \<Rightarrow> mapE (\<lambda>(path, f). if is_dir f then Inl (DirectoryInList path) else Inr (plain_file path f)) paths)"

section \<open>The merge\<close>

type_synonym declared = "(string option \<times> string, string \<times> nat) dict"

definition place_decl :: "source_file \<Rightarrow> decl \<Rightarrow> sourced" where
  "place_decl f d = decl.extend d \<lparr>sd_namespace = sf_namespace f, sd_internal = sf_internal f\<rparr>"

definition merge_decl :: "source_file \<Rightarrow> decl \<Rightarrow> declared \<Rightarrow> load_error + declared" where
  "merge_decl f d seen =
     (let key = (sf_namespace f, d_name d) in
      case dget seen key of
        Some prior \<Rightarrow>
          if fst prior \<noteq> sf_path f then Inl (DuplicateDecl (sf_namespace f) (d_name d) prior (sf_path f, d_lineno d))
          else Inr seen
      | None \<Rightarrow> Inr (dsetdefault key (sf_path f, d_lineno d) seen))"

definition merge_file :: "source_file \<Rightarrow> sourced list \<times> declared \<Rightarrow> load_error + sourced list \<times> declared" where
  "merge_file f acc =
     (case sf_node f of
        Dir _ \<Rightarrow> Inl (CannotRead (sf_path f))
      | File source \<Rightarrow>
          (case parse source of
             Inl e \<Rightarrow> Inl (NotParsed (sf_path f) e)
           | Inr ds \<Rightarrow>
               bindE (foldE (merge_decl f) ds (snd acc)) (\<lambda>seen. Inr (fst acc @ map (place_decl f) ds, seen))))"

definition load_sources :: "(string \<times> fs) list \<Rightarrow> load_error + sourced list" where
  "load_sources paths =
     bindE (source_files paths) (\<lambda>fs. bindE (foldE merge_file fs ([], [])) (\<lambda>(decls, _). Inr decls))"

section \<open>Compiling\<close>

text \<open>Loading and lowering one after the other, as \<open>cli.compile_source\<close> does.\<close>

datatype compile_error = LoadFailed load_error | LowerFailed lower_exc

definition compile_sources :: "py_lib \<Rightarrow> (string \<times> fs) list \<Rightarrow> string \<Rightarrow> compile_error + lmodule" where
  "compile_sources lib paths module_name =
     (case load_sources paths of
        Inl e \<Rightarrow> Inl (LoadFailed e)
      | Inr ds \<Rightarrow> (case lower lib ds module_name of Inl e \<Rightarrow> Inl (LowerFailed e) | Inr m \<Rightarrow> Inr m))"

end
