(* ===== verification/Frame.thy ===== *)
theory Frame
  imports Workflow
begin

text \<open>
  Which objects a run may write. \<open>used\<close> are the addresses the interpreter can reach: through the live
  tables, the bindings, the RowSets and the cache. \<open>framed s0 s\<close> says that \<open>s\<close> differs from \<open>s0\<close> only
  in objects reachable from \<open>s0\<close> or allocated since, and reaches nothing else; the snapshot of the
  open transaction is untouched. Every effect, guard and step keeps it, whatever the document.
\<close>

section \<open>Reachable objects\<close>

definition table_addrs :: "table \<Rightarrow> nat set" where
  "table_addrs t = snd ` set t"

definition tables_addrs :: "tables \<Rightarrow> nat set" where
  "tables_addrs ts = (\<Union>p \<in> set ts. table_addrs (snd p))"

definition repo_addrs :: "repo \<Rightarrow> nat set" where
  "repo_addrs r = tables_addrs (rp_rows r)"

definition cache_addrs :: "cache \<Rightarrow> nat set" where
  "cache_addrs c = (\<lambda>p. fst (snd p)) ` set (ch_store c)"

definition used :: "istate \<Rightarrow> nat set" where
  "used s = repo_addrs (st_repo s) \<union> snd ` set (st_bindings s) \<union> (\<Union>p \<in> set (st_rowsets s). set (snd p))
     \<union> cache_addrs (st_cache s)"

definition owned :: "istate \<Rightarrow> istate \<Rightarrow> nat set" where
  "owned s0 s = used s0 \<union> {length (st_objs s0)..<length (st_objs s)}"

definition framed :: "istate \<Rightarrow> istate \<Rightarrow> bool" where
  "framed s0 s \<longleftrightarrow>
     rp_snapshot (st_repo s) = rp_snapshot (st_repo s0) \<and>
     length (st_objs s0) \<le> length (st_objs s) \<and>
     (\<forall>a < length (st_objs s0). a \<notin> used s0 \<longrightarrow> st_objs s ! a = st_objs s0 ! a) \<and>
     used s \<subseteq> owned s0 s"

lemma framed_refl: "framed s s"
  by (simp add: framed_def owned_def)

lemma dset_values: "snd ` set (dset k v d) \<subseteq> insert v (snd ` set d)"
  by (induction d) auto

lemma dset_entries: "set (dset k v d) \<subseteq> insert (k, v) (set d)"
  by (induction d) auto

lemma dget_value: "map_of d k = Some v \<Longrightarrow> v \<in> snd ` set d"
  using map_of_SomeD[of d k v] by (force intro: image_eqI[of _ snd])

lemma table_addrs_dset: "table_addrs (dset k a t) \<subseteq> insert a (table_addrs t)"
  using dset_values[of k a t] by (simp add: table_addrs_def)

lemma table_addrs_ddel: "table_addrs (ddel k t) \<subseteq> table_addrs t"
  by (auto simp: table_addrs_def AList.delete_eq)

lemma tables_addrs_dset: "tables_addrs (dset e t ts) \<subseteq> table_addrs t \<union> tables_addrs ts"
  using dset_entries[of e t ts] by (fastforce simp: tables_addrs_def)

lemma tables_addrs_setdefault: "tables_addrs (dsetdefault e [] ts) = tables_addrs ts"
  by (auto simp: dsetdefault_def tables_addrs_def table_addrs_def)

lemma table_of_addrs: "table_addrs (table_of r e) \<subseteq> repo_addrs r"
proof (cases "map_of (rp_rows r) e")
  case (Some t)
  then have "(e, t) \<in> set (rp_rows r)" by (rule map_of_SomeD)
  with Some show ?thesis by (force simp: table_of_def repo_addrs_def tables_addrs_def)
qed (simp add: table_of_def table_addrs_def)

lemma put_row_addrs: "repo_addrs (put_row r e k a) \<subseteq> insert a (repo_addrs r)"
  using tables_addrs_dset[of e "dset k a (table_of r e)" "rp_rows r"] table_addrs_dset[of k a "table_of r e"]
    table_of_addrs[of r e] by (auto simp: put_row_def repo_addrs_def)

lemma put_row_snapshot [simp]: "rp_snapshot (put_row r e k a) = rp_snapshot r"
  by (simp add: put_row_def)

lemma pop_field_length [simp]: "length (pop_field h a f) = length h"
  by (simp add: pop_field_def)

lemma put_field_length [simp]: "length (put_field h a f v) = length h"
  by (simp add: put_field_def)

lemma pop_fields_length [simp]: "length (fold (\<lambda>a h. pop_field h a f) as h) = length h"
  by (induction as arbitrary: h) simp_all

lemma pop_fields_other: "b \<notin> set as \<Longrightarrow> fold (\<lambda>a h. pop_field h a f) as h ! b = h ! b"
  by (induction as arbitrary: h) (auto simp: pop_field_def)

section \<open>Triples\<close>

text \<open>
  \<open>owns s0 A m B\<close>: from a framed state that owns the addresses \<open>A\<close>, the computation reaches a framed
  state, and when it answers \<open>x\<close> that state owns \<open>B x\<close>.
\<close>

definition owns :: "istate \<Rightarrow> nat set \<Rightarrow> 'a run \<Rightarrow> ('a \<Rightarrow> nat set) \<Rightarrow> bool" where
  "owns s0 A m B \<longleftrightarrow>
     (\<forall>s. framed s0 s \<and> A \<subseteq> owned s0 s \<longrightarrow>
        framed s0 (snd (m s)) \<and> length (st_objs s) \<le> length (st_objs (snd (m s))) \<and>
        (\<forall>x. fst (m s) = Inr x \<longrightarrow> B x \<subseteq> owned s0 (snd (m s))))"

lemma ownsI:
  assumes "\<And>s. framed s0 s \<Longrightarrow> A \<subseteq> owned s0 s \<Longrightarrow>
    framed s0 (snd (m s)) \<and> length (st_objs s) \<le> length (st_objs (snd (m s))) \<and>
    (\<forall>x. fst (m s) = Inr x \<longrightarrow> B x \<subseteq> owned s0 (snd (m s)))"
  shows "owns s0 A m B"
  using assms by (simp add: owns_def)

lemma owned_mono: "length (st_objs s) \<le> length (st_objs t) \<Longrightarrow> owned s0 s \<subseteq> owned s0 t"
  by (auto simp: owned_def)

lemma owns_bind:
  assumes m: "owns s0 A m B" and f: "\<And>x. owns s0 (A \<union> B x) (f x) C"
  shows "owns s0 A (bindM m f) C"
proof (rule ownsI)
  fix s assume s: "framed s0 s" "A \<subseteq> owned s0 s"
  obtain r t where mt: "m s = (r, t)" by fastforce
  from m s have *: "framed s0 (snd (m s)) \<and> length (st_objs s) \<le> length (st_objs (snd (m s))) \<and>
    (\<forall>x. fst (m s) = Inr x \<longrightarrow> B x \<subseteq> owned s0 (snd (m s)))" by (simp add: owns_def)
  then have t: "framed s0 t" "length (st_objs s) \<le> length (st_objs t)" "\<And>x. r = Inr x \<Longrightarrow> B x \<subseteq> owned s0 t"
    by (simp_all add: mt)
  show "framed s0 (snd (bindM m f s)) \<and> length (st_objs s) \<le> length (st_objs (snd (bindM m f s))) \<and>
    (\<forall>x. fst (bindM m f s) = Inr x \<longrightarrow> C x \<subseteq> owned s0 (snd (bindM m f s)))"
  proof (cases r)
    case (Inl e)
    with mt t show ?thesis by (simp add: bindM_def)
  next
    case (Inr x)
    from t(2) s(2) have "A \<subseteq> owned s0 t" using owned_mono by blast
    with t(3)[OF Inr] have "A \<union> B x \<subseteq> owned s0 t" by blast
    with f[of x] t(1) have "framed s0 (snd (f x t)) \<and> length (st_objs t) \<le> length (st_objs (snd (f x t))) \<and>
      (\<forall>y. fst (f x t) = Inr y \<longrightarrow> C y \<subseteq> owned s0 (snd (f x t)))" by (simp add: owns_def)
    with Inr mt t(2) show ?thesis by (auto simp: bindM_def)
  qed
qed

lemma owns_weaken: "owns s0 A m B \<Longrightarrow> A \<subseteq> A' \<Longrightarrow> (\<And>x. B' x \<subseteq> B x) \<Longrightarrow> owns s0 A' m B'"
  unfolding owns_def by (meson subset_trans)

lemma owns_ret: "B x \<subseteq> A \<Longrightarrow> owns s0 A (ret x) B"
  by (auto simp: owns_def ret_def)

lemma owns_raise: "owns s0 A (raise e) B"
  by (simp add: owns_def raise_def)

lemma owns_lift: "(\<And>s x. f s = Inr x \<Longrightarrow> B x \<subseteq> A \<union> used s) \<Longrightarrow> owns s0 A (liftM f) B"
  by (rule ownsI) (auto simp: liftM_def framed_def, blast)

lemma owns_get: "(\<And>s. B (f s) \<subseteq> A \<union> used s) \<Longrightarrow> owns s0 A (getM f) B"
  by (rule ownsI) (auto simp: getM_def framed_def, blast)

text \<open>An update that leaves the objects alone.\<close>

lemma owns_upd:
  assumes "\<And>s. st_objs (f s) = st_objs s" and "\<And>s. rp_snapshot (st_repo (f s)) = rp_snapshot (st_repo s)"
    and "\<And>s. used (f s) \<subseteq> A \<union> used s"
  shows "owns s0 A (updM f) (\<lambda>_. {})"
proof (rule ownsI)
  fix s assume "framed s0 s" "A \<subseteq> owned s0 s"
  with assms(3)[of s] assms(1,2) show "framed s0 (snd (updM f s)) \<and> length (st_objs s) \<le> length (st_objs (snd (updM f s))) \<and>
      (\<forall>x. fst (updM f s) = Inr x \<longrightarrow> {} \<subseteq> owned s0 (snd (updM f s)))"
    by (auto simp: updM_def framed_def owned_def)
qed

lemma owns_if: "(b \<Longrightarrow> owns s0 A m B) \<Longrightarrow> (\<not> b \<Longrightarrow> owns s0 A n B) \<Longrightarrow> owns s0 A (if b then m else n) B"
  by simp

lemmas owns_rules = owns_ret owns_raise owns_lift owns_get owns_upd owns_if

text \<open>Sequencing when the intermediate addresses are not needed any more.\<close>

lemma owns_seq: "owns s0 A m B \<Longrightarrow> (\<And>x. owns s0 A (f x) C) \<Longrightarrow> owns s0 A (bindM m f) C"
  by (rule owns_bind, assumption) (blast intro: owns_weaken)

section \<open>The primitive effects\<close>

lemma used_simps [simp]:
  "used (s\<lparr>st_clock := c\<rparr>) = used s" "used (s\<lparr>st_outbox := o1\<rparr>) = used s" "used (s\<lparr>st_diags := d\<rparr>) = used s"
  "used (s\<lparr>st_ops := p\<rparr>) = used s" "used (s\<lparr>st_net := n\<rparr>) = used s" "used (s\<lparr>st_rt_writes := w\<rparr>) = used s"
  "used (s\<lparr>st_rt_invals := i\<rparr>) = used s" "used (s\<lparr>st_keys := k\<rparr>) = used s" "used (s\<lparr>st_steps := x1\<rparr>) = used s"
  "used (s\<lparr>st_skipped := x2\<rparr>) = used s" "used (s\<lparr>st_refs := x3\<rparr>) = used s" "used (s\<lparr>st_terms := x4\<rparr>) = used s"
  "used (s\<lparr>st_notes := x5\<rparr>) = used s" "used (s\<lparr>st_failed := x6\<rparr>) = used s" "used (s\<lparr>st_objs := h\<rparr>) = used s"
  by (simp_all add: used_def)

lemma owns_quiet:
  assumes "\<And>s. used (f s) = used s" "\<And>s. st_objs (f s) = st_objs s" "\<And>s. st_repo (f s) = st_repo s"
  shows "owns s0 A (updM f) (\<lambda>_. {})"
  by (rule owns_upd) (use assms in auto)

lemma owns_advance: "owns s0 A (advance ms) (\<lambda>_. {})"
  unfolding advance_def by (rule owns_quiet) simp_all

lemma owns_note_op: "owns s0 A (note_op p) (\<lambda>_. {})"
  unfolding note_op_def by (rule owns_quiet) simp_all

lemma owns_note_diag: "owns s0 A (note_diag a b c) (\<lambda>_. {})"
  unfolding note_diag_def by (rule owns_quiet) simp_all

lemma owns_new_obj: "owns s0 A (new_obj x) (\<lambda>a. {a})"
proof (rule ownsI)
  fix s assume "framed s0 s" "A \<subseteq> owned s0 s"
  then show "framed s0 (snd (new_obj x s)) \<and> length (st_objs s) \<le> length (st_objs (snd (new_obj x s))) \<and>
      (\<forall>a. fst (new_obj x s) = Inr a \<longrightarrow> {a} \<subseteq> owned s0 (snd (new_obj x s)))"
    by (auto simp: new_obj_def framed_def owned_def nth_append)
qed

lemma owns_store_field: "owns s0 (insert a A) (store_field a f v) (\<lambda>_. {})"
proof (rule ownsI)
  fix s assume s: "framed s0 s" "insert a A \<subseteq> owned s0 s"
  have "put_field (st_objs s) a f v ! b = st_objs s ! b" if "b < length (st_objs s0)" "b \<notin> used s0" for b
  proof -
    from s(2) that have "a \<noteq> b" by (auto simp: owned_def)
    then show ?thesis by (simp add: put_field_def)
  qed
  with s show "framed s0 (snd (store_field a f v s)) \<and> length (st_objs s) \<le> length (st_objs (snd (store_field a f v s))) \<and>
      (\<forall>x. fst (store_field a f v s) = Inr x \<longrightarrow> {} \<subseteq> owned s0 (snd (store_field a f v s)))"
    by (simp add: store_field_def updM_def framed_def owned_def)
qed

lemma owns_strip_rows: "owns s0 (set as \<union> A) (strip_rows as) (\<lambda>_. {})"
proof (rule ownsI)
  fix s assume s: "framed s0 s" "set as \<union> A \<subseteq> owned s0 s"
  then have "b \<notin> set as" if "b < length (st_objs s0)" "b \<notin> used s0" for b
    using that by (auto simp: owned_def)
  with s show "framed s0 (snd (strip_rows as s)) \<and> length (st_objs s) \<le> length (st_objs (snd (strip_rows as s))) \<and>
      (\<forall>x. fst (strip_rows as s) = Inr x \<longrightarrow> {} \<subseteq> owned s0 (snd (strip_rows as s)))"
    by (auto simp: strip_rows_def updM_def framed_def owned_def pop_fields_other)
qed

lemma owns_persist_row: "owns s0 (insert a A) (persist_row e k a) (\<lambda>_. {})"
proof -
  have "used (s\<lparr>st_repo := put_row (st_repo s) e k a\<rparr>) \<subseteq> insert a A \<union> used s" for s
    using put_row_addrs[of "st_repo s" e k a] by (auto simp: used_def)
  then show ?thesis unfolding persist_row_def repo_persist_def by (intro owns_upd) simp_all
qed

lemma owns_bind_name: "owns s0 (insert a A) (updM (\<lambda>s. s\<lparr>st_bindings := dset n a (st_bindings s)\<rparr>)) (\<lambda>_. {})"
proof -
  have "used (s\<lparr>st_bindings := dset n a (st_bindings s)\<rparr>) \<subseteq> insert a A \<union> used s" for s
    using dset_values[of n a "st_bindings s"] by (auto simp: used_def)
  then show ?thesis by (intro owns_upd) simp_all
qed

lemma owns_mark_written: "owns s0 A (mark_written env e k) (\<lambda>_. {})"
  unfolding mark_written_def by (intro owns_if owns_quiet owns_ret) simp_all

lemma execute_frame:
  assumes "repo_execute h r e operation k = (res, h', r')"
  shows "rp_snapshot r' = rp_snapshot r" and "length h \<le> length h'" and "take (length h) h' = h"
    and "repo_addrs r' \<subseteq> repo_addrs r \<union> {length h..<length h'}"
    and "res = Inr (Some a) \<Longrightarrow> a \<in> repo_addrs r \<union> {length h..<length h'}"
proof -
  define r1 where "r1 = r\<lparr>rp_calls := rp_calls r @ [(e, operation)], rp_rows := dsetdefault e [] (rp_rows r)\<rparr>"
  have r1: "rp_snapshot r1 = rp_snapshot r" "repo_addrs r1 = repo_addrs r"
    by (simp_all add: r1_def repo_addrs_def tables_addrs_setdefault)
  have del: "repo_addrs (r1\<lparr>rp_rows := dset e (ddel k (table_of r1 e)) (rp_rows r1)\<rparr>) \<subseteq> repo_addrs r"
    using tables_addrs_dset[of e "ddel k (table_of r1 e)" "rp_rows r1"] table_addrs_ddel[of k "table_of r1 e"]
      table_of_addrs[of r1 e] r1(2) by (auto simp: repo_addrs_def)
  have get: "a \<in> repo_addrs r" if "map_of (table_of r1 e) k = Some a"
    using dget_value[OF that] table_of_addrs[of r1 e] r1(2) by (auto simp: table_addrs_def)
  note put = put_row_addrs[of r1 e k "length h"]
  note defs = repo_execute_def[of h r e operation k, folded r1_def, unfolded Let_def]
  from assms show "rp_snapshot r' = rp_snapshot r" "length h \<le> length h'" "take (length h) h' = h"
    "repo_addrs r' \<subseteq> repo_addrs r \<union> {length h..<length h'}"
    using r1 del put by (auto simp: defs split: if_splits)
  from assms get show "res = Inr (Some a) \<Longrightarrow> a \<in> repo_addrs r \<union> {length h..<length h'}"
    by (auto simp: defs split: if_splits)
qed

lemma owns_execute: "owns s0 A (execute_repo e operation k) (\<lambda>x. set_option x)"
proof (rule ownsI)
  fix s assume s: "framed s0 s" "A \<subseteq> owned s0 s"
  obtain res h r where x: "repo_execute (st_objs s) (st_repo s) e operation k = (res, h, r)" by (metis prod_cases3)
  note f = execute_frame[OF x]
  have nth: "h ! a = st_objs s ! a" if "a < length (st_objs s)" for a
    using f(3) that by (metis nth_take)
  from f(4) have u: "used (s\<lparr>st_objs := h, st_repo := r\<rparr>) \<subseteq> used s \<union> {length (st_objs s)..<length h}"
    by (auto simp: used_def)
  from s(1) f(2) have o: "used s \<union> {length (st_objs s)..<length h} \<subseteq> owned s0 (s\<lparr>st_objs := h, st_repo := r\<rparr>)"
    by (auto simp: framed_def owned_def)
  from s(1) f(1,2) nth u o have "framed s0 (s\<lparr>st_objs := h, st_repo := r\<rparr>)"
    by (auto simp: framed_def)
  moreover have "set_option v \<subseteq> owned s0 (s\<lparr>st_objs := h, st_repo := r\<rparr>)" if "res = Inr v" for v
    using f(5) that o by (cases v) (auto simp: used_def)
  ultimately show "framed s0 (snd (execute_repo e operation k s)) \<and>
      length (st_objs s) \<le> length (st_objs (snd (execute_repo e operation k s))) \<and>
      (\<forall>v. fst (execute_repo e operation k s) = Inr v \<longrightarrow> set_option v \<subseteq> owned s0 (snd (execute_repo e operation k s)))"
    using f(2) by (simp add: execute_repo_def x)
qed

lemma cache_get_same: "ch_store (snd (cache_get t c k)) = ch_store c"
  by (simp add: cache_get_def split: option.split prod.split)

lemma cache_get_hit: "fst (cache_get t c k) = Some a \<Longrightarrow> a \<in> cache_addrs c"
  by (auto simp: cache_get_def cache_addrs_def split: option.splits prod.splits if_splits dest!: map_of_SomeD)
    (metis fst_conv image_eqI snd_conv)

lemma owns_cache_lookup: "owns s0 A (cache_lookup k) (\<lambda>x. set_option x)"
proof (rule ownsI)
  fix s assume s: "framed s0 s" "A \<subseteq> owned s0 s"
  obtain hit c where x: "cache_get (now_of s) (st_cache s) k = (hit, c)" by fastforce
  have "used (s\<lparr>st_cache := c\<rparr>) = used s"
    using cache_get_same[of "now_of s" "st_cache s" k] x by (simp add: used_def cache_addrs_def)
  moreover have "a \<in> used s" if "hit = Some a" for a
    using cache_get_hit[of "now_of s" "st_cache s" k a] x that by (simp add: used_def)
  ultimately show "framed s0 (snd (cache_lookup k s)) \<and> length (st_objs s) \<le> length (st_objs (snd (cache_lookup k s))) \<and>
      (\<forall>v. fst (cache_lookup k s) = Inr v \<longrightarrow> set_option v \<subseteq> owned s0 (snd (cache_lookup k s)))"
    using s by (auto simp: cache_lookup_def x framed_def owned_def)
qed

lemma cache_set_addrs: "cache_set t c k a ttl = Inr c' \<Longrightarrow> cache_addrs c' \<subseteq> insert a (cache_addrs c)"
  using dset_entries[of k "(a, t + the ttl)" "ch_store c"]
  by (fastforce simp: cache_set_def cache_addrs_def split: option.splits)

lemma owns_cache_store: "owns s0 (insert a A) (cache_store env k a) (\<lambda>_. {})"
proof (rule ownsI)
  fix s assume s: "framed s0 s" "insert a A \<subseteq> owned s0 s"
  show "framed s0 (snd (cache_store env k a s)) \<and> length (st_objs s) \<le> length (st_objs (snd (cache_store env k a s))) \<and>
      (\<forall>x. fst (cache_store env k a s) = Inr x \<longrightarrow> {} \<subseteq> owned s0 (snd (cache_store env k a s)))"
  proof (cases "cache_set (now_of s) (st_cache s) k a (cn_cache_ttl (en_con env))")
    case (Inl e)
    with s show ?thesis by (simp add: cache_store_def)
  next
    case (Inr c)
    from cache_set_addrs[OF Inr] have "used (s\<lparr>st_cache := c\<rparr>) \<subseteq> insert a (used s)" by (auto simp: used_def)
    with s Inr show ?thesis by (auto simp: cache_store_def framed_def owned_def)
  qed
qed

lemma cache_invalidate_addrs: "cache_addrs (cache_invalidate c k) \<subseteq> cache_addrs c"
  by (auto simp: cache_invalidate_def cache_addrs_def AList.delete_eq)

lemma owns_drop_cached: "owns s0 A (drop_cached k) (\<lambda>_. {})"
proof -
  have "used (s\<lparr>st_cache := cache_invalidate (st_cache s) k\<rparr>) \<subseteq> A \<union> used s" for s
    using cache_invalidate_addrs[of "st_cache s" k] by (auto simp: used_def)
  then show ?thesis unfolding drop_cached_def by (intro owns_upd) simp_all
qed

end
