(* ===== verification/FrameEffects.thy ===== *)
theory FrameEffects
  imports Frame
begin

text \<open>Every effect, step, block and guard of a run is framed (\<open>Frame.owns\<close>).\<close>

section \<open>Effects\<close>

lemma owns_pure: "owns s0 A (liftM f) (\<lambda>_. {})"
  by (rule owns_lift) simp

lemma owns_read: "owns s0 A (getM f) (\<lambda>_. {})"
  by (rule owns_get) simp

lemma owns_nothing: "owns s0 A (ret x) (\<lambda>_. {})"
  by (rule owns_ret) simp

lemma owns_const: "owns s0 A m B \<Longrightarrow> owns s0 (A \<union> A') m B"
  by (rule owns_weaken) auto

lemma owns_case_option:
  "(v = None \<Longrightarrow> owns s0 A m B) \<Longrightarrow> (\<And>x. v = Some x \<Longrightarrow> owns s0 A (f x) B) \<Longrightarrow>
     owns s0 A (case v of None \<Rightarrow> m | Some x \<Rightarrow> f x) B"
  by (cases v) auto

lemma owns_case_prod: "(\<And>x y. owns s0 A (f x y) B) \<Longrightarrow> owns s0 A (case p of (x, y) \<Rightarrow> f x y) B"
  by (cases p) auto

lemmas owns_quiets = owns_pure owns_read owns_nothing owns_raise owns_advance owns_note_op owns_note_diag
  owns_mark_written owns_drop_cached

lemma bound_used: "map_of (st_bindings s) b = Some a \<Longrightarrow> a \<in> used s"
  using dget_value[of "st_bindings s" b a] by (simp add: used_def)

lemma owns_assignment: "owns s0 A (run_assignment env target expr aft) (\<lambda>_. {})"
proof -
  obtain binding dotted field where p: "partition_at CHR ''.'' target = (binding, dotted, field)" by (metis prod_cases3)
  have g: "owns s0 A (getM (\<lambda>s. map_of (st_bindings s) binding)) (\<lambda>x. set_option x)"
    by (rule owns_get) (auto dest: bound_used)
  have "owns s0 (A \<union> set_option bound) (case bound of
        None \<Rightarrow> raise (RunError (AssignUnbound target))
      | Some a \<Rightarrow>
          bindM (liftM (\<lambda>s. assigned_value env s target expr aft)) (\<lambda>v.
          bindM (store_field a field v) (\<lambda>_.
          bindM (getM (\<lambda>s. assign_entity env s binding)) (\<lambda>entity.
          case entity of
            None \<Rightarrow> raise (RunError (AssignNoEntity target))
          | Some e \<Rightarrow>
              bindM (getM (\<lambda>s. assign_key env s binding e)) (\<lambda>key.
              bindM (note_op (e, ''persist'', Some key, None)) (\<lambda>_.
              bindM (persist_row e key a) (\<lambda>_.
                mark_written env e key))))))) (\<lambda>_. {})" for bound
  proof (cases bound)
    case (Some a)
    have A: "A \<union> set_option (Some a) = insert a A" by simp
    show ?thesis
      unfolding Some A option.case
      by (intro owns_seq[OF owns_pure] owns_seq[OF owns_store_field] owns_seq[OF owns_read] owns_case_option
          owns_seq[OF owns_note_op] owns_seq[OF owns_persist_row] owns_mark_written owns_raise)
  qed (simp add: owns_raise)
  then show ?thesis
    unfolding run_assignment_def p Let_def prod.case by (rule owns_bind[OF g])
qed

lemma mem_insert_by: "set (insert_by lt x xs) = insert x (set xs)"
  by (induction xs) auto

lemma mem_sort_by: "set (sort_by lt xs) = set xs"
  by (induction xs) (auto simp: sort_by_def mem_insert_by)

lemma filterE_subset: "filterE p xs = Inr ys \<Longrightarrow> set ys \<subseteq> set xs"
proof (induction xs arbitrary: ys)
  case (Cons x xs)
  then obtain b zs where "filterE p xs = Inr zs" "ys = (if b then x # zs else zs)" by (auto simp: bindE_iffs)
  with Cons.IH[of zs] show ?case by (auto split: if_splits)
qed simp

lemma order_rows_subset: "order_rows ok get f d rows = Inr ys \<Longrightarrow> set ys \<subseteq> set rows"
  by (auto simp: order_rows_def Let_def mem_sort_by split: if_splits)

lemma apply_predicate_subset:
  assumes "apply_predicate get rows p o1 l = Inr ys" shows "set ys \<subseteq> set rows"
proof -
  from assms obtain rs ts where
    r: "(case p of Some (t # u) \<Rightarrow> filterE (\<lambda>a. row_matches (get a) (t # u)) rows | _ \<Rightarrow> Inr rows) = Inr rs"
    and t: "(case o1 of None \<Rightarrow> Inr rs | Some (f, d) \<Rightarrow> order_rows less_defined get f d rs) = Inr ts"
    and y: "ys = (case l of None \<Rightarrow> ts | Some n \<Rightarrow> take n ts)"
    by (auto simp: apply_predicate_def bindE_iffs)
  have "set rs \<subseteq> set rows" using r by (auto split: option.splits list.splits dest: filterE_subset)
  moreover have "set ts \<subseteq> set rs" using t by (auto split: option.splits dest: order_rows_subset)
  moreover have "set ys \<subseteq> set ts" using y by (auto split: option.splits dest: in_set_takeD)
  ultimately show ?thesis by blast
qed

lemma query_rows_used:
  assumes "repo_query h r e p o1 l = Inr rows" shows "set rows \<subseteq> repo_addrs r"
proof -
  have "set (map snd (sorted_items (table_of r e))) = table_addrs (table_of r e)"
    by (simp add: sorted_items_def mem_sort_by table_addrs_def)
  with table_of_addrs[of r e] assms apply_predicate_subset[of "row_at h" "map snd (sorted_items (table_of r e))" p o1 l rows]
  show ?thesis by (auto simp: repo_query_def Let_def split: if_splits)
qed

lemma owns_bind_rowset:
  "owns s0 (set rows \<union> A) (updM (\<lambda>s. s\<lparr>st_rowsets := dset n rows (st_rowsets s)\<rparr>)) (\<lambda>_. {})"
proof -
  have "used (s\<lparr>st_rowsets := dset n rows (st_rowsets s)\<rparr>) \<subseteq> (set rows \<union> A) \<union> used s" for s
    using dset_entries[of n rows "st_rowsets s"] by (fastforce simp: used_def)
  then show ?thesis by (intro owns_upd) simp_all
qed

lemma owns_query: "owns s0 A (run_query env c) (\<lambda>_. {})"
proof -
  have q: "owns s0 A (liftM (\<lambda>s. repo_query (st_objs s) (st_repo s) (rc_entity c) p (rc_order c) (rc_limit c))) set" for p
    by (rule owns_lift) (use query_rows_used in \<open>fastforce simp: used_def\<close>)
  have "owns s0 (A \<union> set rows) (bindM (strip_rows rows) (\<lambda>_.
       (case entity_name (en_doc env) (rc_entity c) of
          None \<Rightarrow> ret ()
        | Some nm \<Rightarrow> updM (\<lambda>s. s\<lparr>st_rowsets := dset (binding_name nm) rows (st_rowsets s)\<rparr>)))) (\<lambda>_. {})" for rows
    unfolding Un_commute[of A]
    by (intro owns_seq[OF owns_strip_rows] owns_case_option owns_nothing owns_bind_rowset)
  then show ?thesis
    unfolding run_query_def
    by (intro owns_seq[OF owns_pure] owns_seq[OF owns_note_op] owns_bind[OF q])
qed

lemma owns_call_key: "owns s0 A (call_key env c) (\<lambda>_. {})"
  unfolding call_key_def by (intro owns_seq[OF owns_pure] owns_if owns_raise owns_nothing)

lemma owns_fetch: "owns s0 A (fetch_row env c key) (\<lambda>x. set_option x)"
proof -
  have l: "owns s0 A (if rc_cached c then cache_lookup key else ret None) (\<lambda>x. set_option x)"
    by (intro owns_if owns_cache_lookup owns_ret) simp
  have hit: "owns s0 (A \<union> set_option (Some a)) (ret (Some a)) (\<lambda>x. set_option x)" for a
    by (rule owns_ret) simp
  have rest: "owns s0 (B \<union> set_option row)
        (bindM (strip_rows (case row of None \<Rightarrow> [] | Some a \<Rightarrow> [a])) (\<lambda>_.
         bindM (case row of
                  Some a \<Rightarrow>
                    if rc_cached c then
                      bindM (cache_store env key a) (\<lambda>_. updM (\<lambda>s. s\<lparr>st_rt_writes := st_rt_writes s @ [key]\<rparr>))
                    else ret ()
                | None \<Rightarrow> ret ()) (\<lambda>_.
           ret row))) (\<lambda>x. set_option x)" for row B
  proof (cases row)
    case None
    have "owns s0 (set [] \<union> (B \<union> {})) (strip_rows []) (\<lambda>_. {})" by (rule owns_strip_rows)
    then show ?thesis unfolding None option.case option.set
      by (intro owns_seq[of s0 "B \<union> {}" "strip_rows []" "\<lambda>_. {}"] owns_seq[OF owns_nothing] owns_ret) simp_all
  next
    case (Some a)
    have B: "B \<union> set_option (Some a) = insert a B" by simp
    have s: "owns s0 (insert a B) (strip_rows [a]) (\<lambda>_. {})" using owns_strip_rows[of s0 "[a]" B] by simp
    have w: "owns s0 (insert a B) (updM (\<lambda>s. s\<lparr>st_rt_writes := st_rt_writes s @ [key]\<rparr>)) (\<lambda>_. {})"
      by (rule owns_quiet) simp_all
    have c: "owns s0 (insert a B) (if rc_cached c then bindM (cache_store env key a) (\<lambda>_. updM (\<lambda>s. s\<lparr>st_rt_writes := st_rt_writes s @ [key]\<rparr>)) else ret ()) (\<lambda>_. {})"
      by (intro owns_if owns_seq[OF owns_cache_store] w owns_nothing)
    have r: "owns s0 (insert a B) (ret (Some a)) (\<lambda>x. set_option x)" by (rule owns_ret) simp
    show ?thesis unfolding Some B option.case by (intro owns_seq[OF s] owns_seq[OF c] r)
  qed
  show ?thesis
    unfolding fetch_row_def
  proof (rule owns_bind[OF l])
    fix x
    show "owns s0 (A \<union> set_option x) (case x of
       Some a \<Rightarrow> ret (Some a)
     | None \<Rightarrow>
         bindM (execute_repo (rc_entity c) (rc_operation c) key) (\<lambda>row.
         bindM (strip_rows (case row of None \<Rightarrow> [] | Some a \<Rightarrow> [a])) (\<lambda>_.
         bindM (case row of
                  Some a \<Rightarrow>
                    if rc_cached c then
                      bindM (cache_store env key a) (\<lambda>_. updM (\<lambda>s. s\<lparr>st_rt_writes := st_rt_writes s @ [key]\<rparr>))
                    else ret ()
                | None \<Rightarrow> ret ()) (\<lambda>_.
           ret row)))) (\<lambda>x. set_option x)"
      by (cases x) (auto intro: hit[simplified] owns_bind[OF owns_execute rest])
  qed
qed

lemma owns_bind_read: "owns s0 (insert a A) (bind_read env nid c key a) (\<lambda>_. {})"
proof -
  have u: "owns s0 (insert a A) (updM (\<lambda>s. s\<lparr>st_bindings := dset n a (st_bindings s), st_keys := dset n key (st_keys s)\<rparr>)) (\<lambda>_. {})" for n
  proof -
    have "used (s\<lparr>st_bindings := dset n a (st_bindings s), st_keys := dset n key (st_keys s)\<rparr>) \<subseteq> insert a A \<union> used s" for s
      using dset_values[of n a "st_bindings s"] by (auto simp: used_def)
    then show ?thesis by (intro owns_upd) simp_all
  qed
  have d: "owns s0 (insert a A) (updM (\<lambda>s. s\<lparr>st_diags := st_diags s @ f ms\<rparr>)) (\<lambda>_. {})" for f :: "mismatch list \<Rightarrow> _" and ms
    by (rule owns_quiet) simp_all
  show ?thesis
    unfolding bind_read_def
    by (simp split: option.split node.split)
      (intro allI impI conjI owns_nothing owns_seq[OF u] owns_seq[OF owns_pure] d)
qed

lemma owns_no_row: "owns s0 A (no_row operation entity) (\<lambda>_. {})"
  unfolding no_row_def by (intro owns_seq[OF owns_advance] owns_raise)

lemma owns_finish_create: "owns s0 A (finish_create env c fills key) (\<lambda>_. {})"
proof -
  have p: "owns s0 A (bindM (new_obj x) (\<lambda>a. persist_row e key a)) (\<lambda>_. {})" for x e
    by (rule owns_bind[OF owns_new_obj]) (simp add: owns_persist_row)
  have b: "owns s0 A (bindM (new_obj x) (\<lambda>a. updM (\<lambda>s. s\<lparr>st_bindings := dset n a (st_bindings s)\<rparr>))) (\<lambda>_. {})" for x n
    by (rule owns_bind[OF owns_new_obj]) (simp add: owns_bind_name)
  have f: "owns s0 A (if q then bindM (note_op op) (\<lambda>_. bindM (new_obj x) (\<lambda>a. persist_row e key a)) else ret ()) (\<lambda>_. {})"
    for q op x e
    by (intro owns_if owns_seq[OF owns_note_op] p owns_nothing)
  show ?thesis unfolding finish_create_def Let_def
    by (intro owns_seq[OF f] owns_case_option owns_nothing b)
qed

lemma owns_repository: "owns s0 A (run_repository env nid c) (\<lambda>_. {})"
proof -
  have m: "owns s0 A' (if rc_operation c \<in> {''update'', ''delete''} then mark_written env (rc_entity c) key else ret ()) (\<lambda>_. {})" for A' key
    by (intro owns_if owns_mark_written owns_nothing)
  have w: "owns s0 A' (if b then no_row (rc_operation c) (rc_entity c) else ret ()) (\<lambda>_. {})" for A' b
    by (intro owns_if owns_no_row owns_nothing)
  have r: "owns s0 (A' \<union> set_option row) (if rc_operation c = ''read'' then
              (case row of None \<Rightarrow> no_row ''read'' (rc_entity c) | Some a \<Rightarrow> bind_read env nid c key a)
            else ret ()) (\<lambda>_. {})" for A' row key
    by (cases row) (auto intro: owns_no_row owns_nothing owns_bind_read)
  have f: "owns s0 A' (if rc_operation c = ''create'' then finish_create env c fills key else ret ()) (\<lambda>_. {})" for A' fills key
    by (intro owns_if owns_finish_create owns_nothing)
  show ?thesis
    unfolding run_repository_def
    by (intro owns_seq[OF owns_call_key] owns_case_prod owns_seq[OF owns_note_op] owns_bind[OF owns_fetch]
        owns_seq[OF m] owns_seq[OF owns_read] owns_seq[OF r] owns_seq[OF w] f)
qed

lemma owns_cache_access: "owns s0 A (run_cache_access env operation template) (\<lambda>_. {})"
proof -
  have "owns s0 A (bindM (new_obj x) (\<lambda>a. cache_store env k a)) (\<lambda>_. {})" for x k
    by (rule owns_bind[OF owns_new_obj]) (simp add: owns_cache_store)
  then show ?thesis
    unfolding run_cache_access_def Let_def
    by (intro owns_if owns_seq[OF owns_cache_lookup] owns_nothing owns_drop_cached)
qed

lemma owns_network: "owns s0 A (run_network env n) (\<lambda>_. {})"
proof -
  have c: "owns s0 A (call_network env q) (\<lambda>_. {})" for q
    by (rule ownsI) (auto simp: call_network_def framed_def owned_def)
  have b: "owns s0 A (bindM (new_obj x) (\<lambda>a. updM (\<lambda>s. s\<lparr>st_bindings := dset m a (st_bindings s)\<rparr>))) (\<lambda>_. {})" for x m
    by (rule owns_bind[OF owns_new_obj]) (simp add: owns_bind_name)
  have "owns s0 A (case nn_result n of
       None \<Rightarrow> (case answer of Inl msg \<Rightarrow> raise (RunError (NetworkFailed msg)) | Inr _ \<Rightarrow> ret ())
     | Some name \<Rightarrow>
         (let (status, body) = (case answer of Inl _ \<Rightarrow> (0, PDict []) | Inr p \<Rightarrow> p) in
          bindM (new_obj (plain (network_row status body))) (\<lambda>a.
            updM (\<lambda>s. s\<lparr>st_bindings := dset name a (st_bindings s)\<rparr>)))) (\<lambda>_. {})" for answer
    by (cases answer) (auto intro!: owns_case_option owns_raise owns_nothing b simp: Let_def split: prod.split)
  then show ?thesis
    unfolding run_network_def by (intro owns_seq[OF owns_pure] owns_seq[OF c])
qed

lemma owns_emit: "owns s0 A (run_emit env nid ev m) (\<lambda>_. {})"
  unfolding run_emit_def by (intro owns_case_option owns_if owns_raise owns_quiet) simp_all

lemma owns_perform: "owns s0 A (perform env nid e) (\<lambda>_. {})"
  by (cases e) (simp_all add: owns_assignment run_validation_def owns_pure owns_query owns_repository owns_cache_access
      run_authorization_def owns_note_diag owns_network owns_emit owns_nothing owns_raise)

lemma owns_effect: "owns s0 A (run_effect env nid) (\<lambda>_. {})"
  unfolding run_effect_def
  by (auto intro!: owns_raise owns_seq[OF owns_perform] owns_advance split: option.split node.split)

section \<open>Steps\<close>

lemma owns_each: "(\<And>x. owns s0 A (m x) (\<lambda>_. {})) \<Longrightarrow> owns s0 A (eachM m xs) (\<lambda>_. {})"
  by (induction xs) (auto intro: owns_nothing owns_seq)

lemma owns_step: "owns s0 A (run_step env name children) (\<lambda>_. {})"
  unfolding run_step_def
  by (intro owns_seq[OF owns_read] owns_if owns_raise owns_seq[OF owns_each[OF owns_effect]] owns_advance)

lemma owns_try:
  assumes "owns s0 A m (\<lambda>_. {})" shows "owns s0 A (tryM m) (\<lambda>_. {})"
proof (rule ownsI)
  fix s assume "framed s0 s" "A \<subseteq> owned s0 s"
  with assms have "framed s0 (snd (m s)) \<and> length (st_objs s) \<le> length (st_objs (snd (m s)))" by (simp add: owns_def)
  then show "framed s0 (snd (tryM m s)) \<and> length (st_objs s) \<le> length (st_objs (snd (tryM m s))) \<and>
      (\<forall>x. fst (tryM m s) = Inr x \<longrightarrow> {} \<subseteq> owned s0 (snd (tryM m s)))"
    by (auto simp: tryM_def split: prod.split sum.split run_exc.split)
qed

lemma owns_attempts: "owns s0 A (attempt_loop k env name children n) (\<lambda>_. {})"
proof (induction k arbitrary: n)
  case (Suc k)
  show ?case
    unfolding attempt_loop.simps
    by (intro owns_seq[OF owns_try[OF owns_step]] owns_case_option owns_nothing owns_seq[OF owns_pure] owns_if
        owns_seq[OF owns_advance] Suc.IH)
qed (simp add: owns_raise)

lemma owns_fail: "owns s0 A (fail_run f) (\<lambda>_. {})"
  unfolding fail_run_def by (intro owns_seq[OF owns_quiet] owns_nothing) simp_all

lemma owns_harvest: "owns s0 A (updM (add_harvest h)) (\<lambda>_. {})"
  by (rule owns_quiet) (simp_all add: add_harvest_def)

lemma owns_step_item: "owns s0 A (run_step_item env name children) (\<lambda>_. {})"
proof -
  have u: "owns s0 A (updM (\<lambda>s. s\<lparr>st_steps := st_steps s @ f s\<rparr>)) (\<lambda>_. {})" for f
    by (rule owns_quiet) simp_all
  show ?thesis
    unfolding run_step_item_def
    by (intro owns_seq[OF owns_read] owns_seq[OF owns_attempts] owns_case_prod owns_seq[OF owns_pure] owns_seq[OF u]
        owns_case_option owns_fail owns_seq[OF owns_harvest] owns_if owns_nothing)
qed

section \<open>Parallel blocks\<close>

lemma owns_finish_worker: "owns s0 A (finish_worker env rank name children n err) (\<lambda>_. {})"
  unfolding finish_worker_def by (intro owns_seq[OF owns_pure] owns_nothing)

lemma owns_worker_attempt: "owns s0 A (worker_attempt env rank name children n) (\<lambda>_. {})"
  unfolding worker_attempt_def
  by (intro owns_seq[OF owns_try[OF owns_step]] owns_case_option owns_finish_worker owns_seq[OF owns_pure] owns_if
      owns_seq[OF owns_advance] owns_nothing)

lemma owns_catch:
  assumes "owns s0 A m (\<lambda>_. {})" shows "owns s0 A (catch_all m) (\<lambda>_. {})"
proof (rule ownsI)
  fix s assume "framed s0 s" "A \<subseteq> owned s0 s"
  with assms have "framed s0 (snd (m s)) \<and> length (st_objs s) \<le> length (st_objs (snd (m s)))" by (simp add: owns_def)
  then show "framed s0 (snd (catch_all m s)) \<and> length (st_objs s) \<le> length (st_objs (snd (catch_all m s))) \<and>
      (\<forall>x. fst (catch_all m s) = Inr x \<longrightarrow> {} \<subseteq> owned s0 (snd (catch_all m s)))"
    by (auto simp: catch_all_def split: prod.split sum.split)
qed

lemma owns_worker_turn: "owns s0 A (worker_turn env cancel started name children w) (\<lambda>_. {})"
  unfolding worker_turn_def
  by (cases w) (auto intro!: owns_catch owns_worker_attempt owns_finish_worker owns_nothing)

lemma owns_turn: "owns s0 A (take_turn env steps i b) (\<lambda>_. {})"
  unfolding take_turn_def by (intro owns_seq[OF owns_worker_turn] owns_nothing)

lemma owns_schedule: "owns s0 A (run_schedule env cap steps es b) (\<lambda>_. {})"
proof (induction es arbitrary: b)
  case (Cons e es)
  then show ?case
    by (cases e) (auto intro!: owns_seq[OF owns_turn])
qed (simp add: owns_nothing)

lemma owns_join: "owns s0 A (join_workers k env steps b) (\<lambda>_. {})"
proof (induction k arbitrary: b)
  case (Suc k)
  then show ?case
    unfolding join_workers.simps by (intro owns_case_option owns_nothing owns_seq[OF owns_turn])
qed (simp add: owns_nothing)

lemma report_worker_same:
  "used (report_worker w s) = used s \<and> st_objs (report_worker w s) = st_objs s \<and> st_repo (report_worker w s) = st_repo s"
  by (cases w) (simp_all add: report_worker_def Let_def add_harvest_def)

lemma report_workers_same:
  "used (fold report_worker ws s) = used s \<and> st_objs (fold report_worker ws s) = st_objs s \<and>
   st_repo (fold report_worker ws s) = st_repo s"
  by (induction ws arbitrary: s) (simp_all add: report_worker_same)

lemma owns_parallel: "owns s0 A (run_parallel env nid ids) (\<lambda>_. {})"
proof -
  have r: "owns s0 A (updM (fold report_worker ws)) (\<lambda>_. {})" for ws
    by (rule owns_quiet) (simp_all add: report_workers_same)
  have b: "owns s0 A (report_block env names ws) (\<lambda>_. {})" for names ws
    unfolding report_block_def
    by (intro owns_seq[OF r] owns_seq[OF owns_read] owns_case_option owns_case_prod owns_fail owns_if owns_nothing)
  show ?thesis
    unfolding run_parallel_def
    by (intro owns_seq[OF owns_pure] owns_seq[OF owns_schedule] owns_seq[OF owns_join] b)
qed

section \<open>Guards and items\<close>

lemma owns_record_skip: "owns s0 A (record_skip env nid g ow rounds evs) (\<lambda>_. {})"
proof -
  have u: "owns s0 A (updM (\<lambda>s. s\<lparr>st_skipped := st_skipped s @ [r]\<rparr>)) (\<lambda>_. {})" for r
    by (rule owns_quiet) simp_all
  show ?thesis unfolding record_skip_def by (intro owns_seq[OF owns_pure] u)
qed

lemma owns_seqM: "(\<And>x. owns s0 A (m x) (\<lambda>_. {})) \<Longrightarrow> owns s0 A (seqM m xs) (\<lambda>_. {})"
proof (induction xs)
  case (Cons x xs)
  then show ?case unfolding seqM.simps by (intro owns_seq[of s0 A "m x" "\<lambda>_. {}"] owns_if owns_nothing) auto
qed (simp add: owns_nothing)

lemma owns_repeatM: "owns s0 A m (\<lambda>_. {}) \<Longrightarrow> owns s0 A (repeatM k m) (\<lambda>_. {})"
proof (induction k)
  case (Suc k)
  then show ?case unfolding repeatM.simps by (intro owns_seq[OF Suc.prems] owns_if owns_nothing) auto
qed (simp add: owns_nothing)

lemma owns_when:
  assumes "\<And>ids. owns s0 A (body ids) (\<lambda>_. {})" shows "owns s0 A (run_when env nid g body) (\<lambda>_. {})"
  unfolding run_when_def
  by (intro owns_seq[OF owns_pure] owns_case_prod owns_if owns_seq[OF owns_record_skip] assms owns_seq[OF assms]
      owns_nothing)

lemma owns_until_loop:
  assumes "owns s0 A body (\<lambda>_. {})" shows "owns s0 A (until_loop k env g deadline body rounds) (\<lambda>_. {})"
proof (induction k arbitrary: rounds)
  case 0
  show ?case unfolding until_loop.simps until_condition_def by (intro owns_seq[OF owns_pure] owns_nothing)
next
  case (Suc k)
  show ?case unfolding until_loop.simps until_condition_def
    by (intro owns_seq[OF owns_pure] owns_if owns_nothing owns_seq[OF owns_read] owns_seq[OF assms] Suc.IH)
qed

lemma owns_guard:
  assumes "\<And>ids. owns s0 A (body ids) (\<lambda>_. {})" shows "owns s0 A (run_guard env nid g body) (\<lambda>_. {})"
  unfolding run_guard_def run_until_def
  by (intro owns_if owns_when assms owns_repeatM owns_seq[OF owns_read] owns_seq[OF owns_until_loop] owns_case_prod
      owns_nothing owns_seq[OF owns_pure] owns_seq[OF owns_record_skip] owns_raise)

lemma owns_item: "owns s0 A (run_item n env nid) (\<lambda>_. {})"
proof (induction n arbitrary: nid)
  case (Suc n)
  show ?case
    by (auto intro!: owns_raise owns_step_item owns_parallel owns_seqM owns_guard Suc.IH split: option.split node.split)
qed (simp add: owns_raise)

lemma owns_items: "owns s0 A (run_items env ids) (\<lambda>_. {})"
  unfolding run_items_def by (intro owns_seqM owns_item)

lemma items_framed: "framed s (snd (run_items env ids s))"
  using owns_items[of s "{}" env ids] framed_refl[of s] by (simp add: owns_def)

end
