(* ===== verification/QueryProps.thy ===== *)
theory QueryProps
  imports FrameEffects "HOL-Library.Multiset"
begin

text \<open>
  \<open>list\<close>: what \<open>apply_predicate\<close> and \<open>FakeRepository.query\<close> return. The sort is specified through the
  contract of a strict weak order, interpreted on Python's comparison of texts and of numbers.
\<close>

section \<open>Stable sorting\<close>

locale weak_order =
  fixes lt :: "'a \<Rightarrow> 'a \<Rightarrow> bool" and A :: "'a set"
  assumes asym: "a \<in> A \<Longrightarrow> b \<in> A \<Longrightarrow> lt a b \<Longrightarrow> \<not> lt b a"
    and negtrans: "a \<in> A \<Longrightarrow> b \<in> A \<Longrightarrow> c \<in> A \<Longrightarrow> lt a c \<Longrightarrow> lt a b \<or> lt b c"
begin

definition tied :: "'a \<Rightarrow> 'a \<Rightarrow> bool" where
  "tied a b \<longleftrightarrow> \<not> lt a b \<and> \<not> lt b a"

lemma insert_sorted:
  assumes "k x \<in> A" "k ` set xs \<subseteq> A" "sorted_wrt (\<lambda>a b. \<not> lt (k b) (k a)) xs"
  shows "sorted_wrt (\<lambda>a b. \<not> lt (k b) (k a)) (insert_by (\<lambda>a b. lt (k a) (k b)) x xs)"
  using assms
proof (induction xs)
  case (Cons y ys)
  show ?case
  proof (cases "lt (k y) (k x)")
    case True
    with Cons asym show ?thesis by (auto simp: mem_insert_by)
  next
    case False
    have "\<not> lt (k z) (k x)" if "z \<in> set ys" for z
      using Cons.prems that False negtrans[of "k z" "k y" "k x"] by auto
    with Cons.prems False show ?thesis by auto
  qed
qed simp

lemma sort_sorted: "k ` set xs \<subseteq> A \<Longrightarrow> sorted_wrt (\<lambda>a b. \<not> lt (k b) (k a)) (sort_by (\<lambda>a b. lt (k a) (k b)) xs)"
proof (induction xs)
  case (Cons x xs)
  have "k ` set (sort_by (\<lambda>a b. lt (k a) (k b)) xs) \<subseteq> A" using Cons.prems by (auto simp: mem_sort_by)
  with Cons insert_sorted[of k x] show ?case by (simp add: sort_by_def)
qed (simp add: sort_by_def)

lemma insert_stable:
  assumes "k x \<in> A" "k ` set xs \<subseteq> A" "c \<in> A"
  shows "filter (\<lambda>a. tied c (k a)) (insert_by (\<lambda>a b. lt (k a) (k b)) x xs) = filter (\<lambda>a. tied c (k a)) (x # xs)"
  using assms
proof (induction xs)
  case (Cons y ys)
  show ?case
  proof (cases "lt (k y) (k x) \<and> tied c (k x)")
    case True
    then have "\<not> tied c (k y)"
      using negtrans[of "k y" c "k x"] Cons.prems by (auto simp: tied_def)
    with True Cons show ?thesis by auto
  next
    case False
    with Cons show ?thesis by auto
  qed
qed simp

lemma sort_stable:
  "k ` set xs \<subseteq> A \<Longrightarrow> c \<in> A \<Longrightarrow>
     filter (\<lambda>a. tied c (k a)) (sort_by (\<lambda>a b. lt (k a) (k b)) xs) = filter (\<lambda>a. tied c (k a)) xs"
proof (induction xs)
  case (Cons x xs)
  have "k ` set (sort_by (\<lambda>a b. lt (k a) (k b)) xs) \<subseteq> A" using Cons.prems by (auto simp: mem_sort_by)
  with Cons insert_stable[of k x _ c] show ?case by (auto simp: sort_by_def)
qed (simp add: sort_by_def)

end

lemma mset_sort_by: "mset (sort_by lt xs) = mset xs"
proof -
  have ins: "mset (insert_by lt x ys) = add_mset x (mset ys)" for x ys
    by (induction ys) auto
  show ?thesis by (induction xs) (simp_all add: sort_by_def ins)
qed

section \<open>Python's order on texts and numbers\<close>

abbreviation py_lt :: "pyval \<Rightarrow> pyval \<Rightarrow> bool" where
  "py_lt v w \<equiv> py_less v w = Some True"

definition texts :: "pyval set" where "texts = range PStr"

definition numbers :: "pyval set" where "numbers = {v. as_int v \<noteq> None}"

lemma str_less_asym: "str_less s t \<Longrightarrow> \<not> str_less t s"
  by (induction s t rule: str_less.induct) auto

lemma str_less_negtrans: "str_less s u \<Longrightarrow> str_less s t \<or> str_less t u"
proof (induction s u arbitrary: t rule: str_less.induct)
  case (2 d ds)
  then show ?case by (cases t) auto
next
  case (3 c cs d ds)
  show ?case
  proof (cases t)
    case (Cons e es)
    moreover have tri: "a = b \<or> ord a < ord b \<or> ord b < ord a" for a b :: char
      using linorder_neqE_nat[of "ord a" "ord b"] by (auto simp: ord_def)
    ultimately show ?thesis using 3 tri[of c e] tri[of e d] by (cases "c = e") auto
  qed (use 3 in simp)
qed simp

interpretation text_order: weak_order py_lt texts
  by unfold_locales (auto simp: texts_def dest: str_less_asym str_less_negtrans)

lemma py_less_numbers: "as_int v = Some m \<Longrightarrow> as_int w = Some n \<Longrightarrow> py_less v w = Some (m < n)"
  by (cases v; cases w) (auto simp: as_int_def)

interpretation number_order: weak_order py_lt numbers
  by unfold_locales (auto simp: numbers_def py_less_numbers)

text \<open>\<open>reverse=True\<close>: the same contracts for the converse.\<close>

interpretation text_desc: weak_order "\<lambda>v w. py_lt w v" texts
  by unfold_locales (use text_order.asym text_order.negtrans in blast)+

interpretation number_desc: weak_order "\<lambda>v w. py_lt w v" numbers
  by unfold_locales (use number_order.asym number_order.negtrans in blast)+

section \<open>The list predicate\<close>

lemma filterE_filter: "filterE p xs = Inr ys \<Longrightarrow> ys = filter (\<lambda>x. p x = Inr True) xs \<and> (\<forall>x \<in> set xs. \<exists>b. p x = Inr b)"
proof (induction xs arbitrary: ys)
  case (Cons x xs)
  then obtain b zs where "p x = Inr b" "filterE p xs = Inr zs" "ys = (if b then x # zs else zs)" by (auto simp: bindE_iffs)
  with Cons.IH[of zs] show ?case by auto
qed simp

text \<open>The rows a predicate keeps; without terms, all of them.\<close>

definition kept :: "(nat \<Rightarrow> row) \<Rightarrow> predicate option \<Rightarrow> nat list \<Rightarrow> nat list" where
  "kept get p rows = (case p of Some (t # ts) \<Rightarrow> filter (\<lambda>a. row_matches (get a) (t # ts) = Inr True) rows | _ \<Rightarrow> rows)"

definition has_key :: "(nat \<Rightarrow> row) \<Rightarrow> string \<Rightarrow> nat \<Rightarrow> bool" where
  "has_key get f a \<longleftrightarrow> pget (get a) f \<noteq> PNone"

text \<open>\<open>a\<close> may stand before \<open>b\<close>.\<close>

definition in_order :: "(nat \<Rightarrow> row) \<Rightarrow> string \<Rightarrow> bool \<Rightarrow> nat \<Rightarrow> nat \<Rightarrow> bool" where
  "in_order get f desc a b \<longleftrightarrow>
     (if desc then \<not> py_lt (pget (get a) f) (pget (get b) f) else \<not> py_lt (pget (get b) f) (pget (get a) f))"

text \<open>Neither key is before the other.\<close>

definition ties :: "(nat \<Rightarrow> row) \<Rightarrow> string \<Rightarrow> nat \<Rightarrow> nat \<Rightarrow> bool" where
  "ties get f a b \<longleftrightarrow> \<not> py_lt (pget (get a) f) (pget (get b) f) \<and> \<not> py_lt (pget (get b) f) (pget (get a) f)"

text \<open>\<open>zs\<close> is the stable sort of \<open>rows\<close>: its elements, in order, and those that tie in their old order.\<close>

definition stable_sort :: "(nat \<Rightarrow> row) \<Rightarrow> string \<Rightarrow> bool \<Rightarrow> nat list \<Rightarrow> nat list \<Rightarrow> bool" where
  "stable_sort get f desc rows zs \<longleftrightarrow>
     mset zs = mset rows \<and> sorted_wrt (in_order get f desc) zs \<and>
     (\<forall>c \<in> set rows. filter (ties get f c) zs = filter (ties get f c) rows)"

text \<open>Keys of one sortable kind.\<close>

definition uniform :: "(nat \<Rightarrow> row) \<Rightarrow> string \<Rightarrow> nat list \<Rightarrow> bool" where
  "uniform get f rows \<longleftrightarrow>
     (\<forall>a \<in> set rows. has_key get f a \<longrightarrow> pget (get a) f \<in> texts) \<or>
     (\<forall>a \<in> set rows. has_key get f a \<longrightarrow> pget (get a) f \<in> numbers)"

lemma sorted_present:
  assumes "uniform get f rows"
  shows "stable_sort get f desc (filter (has_key get f) rows)
    (sort_by (\<lambda>a b. if desc then value_less get f b a else value_less get f a b) (filter (has_key get f) rows))"
proof -
  let ?xs = "filter (has_key get f) rows" and ?k = "\<lambda>a. pget (get a) f"
  from assms consider "?k ` set ?xs \<subseteq> texts" | "?k ` set ?xs \<subseteq> numbers" by (auto simp: uniform_def)
  then show ?thesis
  proof cases
    case 1
    then have c: "\<forall>c \<in> set ?xs. ?k c \<in> texts" by auto
    from 1 c text_order.sort_sorted[OF 1] text_desc.sort_sorted[OF 1] text_order.sort_stable[OF 1] text_desc.sort_stable[OF 1]
    show ?thesis
      unfolding stable_sort_def mset_sort_by in_order_def[abs_def] ties_def[abs_def] value_less_def text_order.tied_def text_desc.tied_def
      by (cases desc) (simp_all add: conj_commute)
  next
    case 2
    then have c: "\<forall>c \<in> set ?xs. ?k c \<in> numbers" by auto
    from 2 c number_order.sort_sorted[OF 2] number_desc.sort_sorted[OF 2] number_order.sort_stable[OF 2] number_desc.sort_stable[OF 2]
    show ?thesis
      unfolding stable_sort_def mset_sort_by in_order_def[abs_def] ties_def[abs_def] value_less_def number_order.tied_def number_desc.tied_def
      by (cases desc) (simp_all add: conj_commute)
  qed
qed

lemma order_rows_result:
  assumes "order_rows ok get f desc rows = Inr ys" and "uniform get f rows"
  shows "\<exists>zs. ys = zs @ filter (\<lambda>a. \<not> has_key get f a) rows \<and> stable_sort get f desc (filter (has_key get f) rows) zs"
proof -
  have key: "(\<lambda>a. pget (get a) f \<noteq> PNone) = has_key get f" "(\<lambda>a. pget (get a) f = PNone) = (\<lambda>a. \<not> has_key get f a)"
    by (simp_all add: has_key_def[abs_def])
  from assms(1) have "ys = sort_by (\<lambda>a b. if desc then value_less get f b a else value_less get f a b) (filter (has_key get f) rows) @
      filter (\<lambda>a. \<not> has_key get f a) rows"
    unfolding order_rows_def Let_def key
    by (cases "comparable ok (map (\<lambda>a. pget (get a) f) (filter (has_key get f) rows))")
      (simp_all only: if_True if_False sum.inject sum.distinct)
  with sorted_present[OF assms(2)] show ?thesis by blast
qed

lemma apply_predicate_kept:
  assumes "apply_predicate get rows p order limit = Inr ys"
  obtains zs where "(case order of None \<Rightarrow> Inr (kept get p rows)
       | Some (f, desc) \<Rightarrow> order_rows less_defined get f desc (kept get p rows)) = Inr zs"
    and "ys = (case limit of None \<Rightarrow> zs | Some n \<Rightarrow> take n zs)"
proof -
  from assms obtain rs zs where
    r: "(case p of Some (t # ts) \<Rightarrow> filterE (\<lambda>a. row_matches (get a) (t # ts)) rows | _ \<Rightarrow> Inr rows) = Inr rs"
    and z: "(case order of None \<Rightarrow> Inr rs | Some (f, d) \<Rightarrow> order_rows less_defined get f d rs) = Inr zs"
    and y: "ys = (case limit of None \<Rightarrow> zs | Some n \<Rightarrow> take n zs)"
    by (auto simp: apply_predicate_def bindE_iffs)
  have "rs = kept get p rows"
  proof (cases "p = None \<or> p = Some []")
    case False
    then obtain t ts where p: "p = Some (t # ts)" by (metis list.exhaust option.exhaust)
    with r have "filterE (\<lambda>a. row_matches (get a) (t # ts)) rows = Inr rs" by (simp del: row_matches.simps)
    then show ?thesis using filterE_filter p unfolding kept_def by (auto simp del: row_matches.simps)
  qed (use r in \<open>auto simp: kept_def\<close>)
  with z y that show thesis by blast
qed

text \<open>
  C30: \<open>list ... where ... order by\<close> meets its specification. The rows returned are exactly the rows every
  term of the predicate accepts, stably sorted by the field in the direction asked for, and those without
  a value in it come last in the order they had; \<open>limit\<close> keeps a prefix (keys all texts or all numbers).
\<close>

theorem ordered_list_meets_spec:
  assumes "apply_predicate get rows p (Some (f, desc)) limit = Inr ys" and "uniform get f rows"
  shows "\<exists>zs. stable_sort get f desc (filter (has_key get f) (kept get p rows)) zs \<and>
    ys = (case limit of None \<Rightarrow> id | Some n \<Rightarrow> take n) (zs @ filter (\<lambda>a. \<not> has_key get f a) (kept get p rows))"
proof -
  obtain vs where v: "order_rows less_defined get f desc (kept get p rows) = Inr vs"
    and y: "ys = (case limit of None \<Rightarrow> vs | Some n \<Rightarrow> take n vs)"
    using assms(1) by (rule apply_predicate_kept) simp
  have "set (kept get p rows) \<subseteq> set rows" by (auto simp: kept_def split: option.splits list.splits)
  with assms(2) have "uniform get f (kept get p rows)" by (auto simp: uniform_def)
  from order_rows_result[OF v this] y show ?thesis by (auto split: option.split)
qed

theorem ordered_list_meets_spec_witness:
  "\<exists>zs. stable_sort (\<lambda>a. [[(''n'', PInt 3)], [], [(''n'', PInt 7)]] ! a) ''n'' True [0, 2] zs \<and> [2, 0, 1] = zs @ [1]"
proof -
  let ?get = "\<lambda>a. [[(''n'', PInt 3)], [], [(''n'', PInt 7)]] ! a"
  have "apply_predicate ?get [0, 1, 2] None (Some (''n'', True)) None = Inr [2, 0, 1]" by code_simp
  moreover have "uniform ?get ''n'' [0, 1, 2]" by (simp add: uniform_def has_key_def numbers_def as_int_def pget_def)
  ultimately obtain zs where "stable_sort ?get ''n'' True (filter (has_key ?get ''n'') (kept ?get None [0, 1, 2])) zs"
    "[2, 0, 1] = (case None of None \<Rightarrow> id | Some n \<Rightarrow> take n) (zs @ filter (\<lambda>a. \<not> has_key ?get ''n'' a) (kept ?get None [0, 1, 2]))"
    using ordered_list_meets_spec[of ?get "[0, 1, 2]" None "''n''" True None "[2, 0, 1]"] by blast
  then show ?thesis by (intro exI[of _ zs]) (simp add: kept_def has_key_def pget_def)
qed

end
