(* ===== verification/CycleFacts.thy ===== *)
theory CycleFacts
  imports ConsumeCycles FrameEffects QueryProps
begin

text \<open>
  The search for \<open>consume by\<close> cycles is exact: every report is a cycle of the graph, written from its
  smallest id, and nothing is reported exactly when the graph has no cycle.
\<close>

section \<open>Cycles\<close>

definition edges :: "graph \<Rightarrow> (string \<times> string) set" where
  "edges g = {(a, b). b \<in> set (neighbours g a)}"

lemma set_neighbours: "set (neighbours g n) = (case dget g n of None \<Rightarrow> {} | Some bs \<Rightarrow> set bs)"
  by (simp add: neighbours_def mem_sort_by split: option.split)

lemma edge_from_key: "(a, b) \<in> edges g \<Longrightarrow> dhas g a"
  by (auto simp: edges_def set_neighbours dhas_map_of split: option.splits)

abbreviation chain :: "graph \<Rightarrow> string list \<Rightarrow> bool" where
  "chain g p \<equiv> successively (\<lambda>a b. (a, b) \<in> edges g) p"

text \<open>A cycle as it is reported: from its smallest id back to that id, no other id twice.\<close>

definition is_cycle :: "graph \<Rightarrow> string list \<Rightarrow> bool" where
  "is_cycle g r \<longleftrightarrow> (\<exists>c. c \<noteq> [] \<and> r = c @ [hd c] \<and> distinct c \<and> chain g r \<and>
     (\<forall>x \<in> set c. \<not> str_less x (hd c)))"

lemma least_string_least:
  "xs \<noteq> [] \<Longrightarrow> least_string xs \<in> set xs \<and> (\<forall>x \<in> set xs. \<not> str_less x (least_string xs))"
proof (induction xs rule: least_string.induct)
  case (2 x)
  then show ?case using str_less_asym[of x x] by auto
next
  case (3 x y xs)
  let ?m = "least_string (y # xs)"
  from 3 have m: "?m \<in> set (y # xs)" "\<forall>z \<in> set (y # xs). \<not> str_less z ?m" by simp_all
  show ?case
  proof (cases "str_less ?m x")
    case True
    with m str_less_asym show ?thesis by (auto simp: Let_def)
  next
    case False
    have "\<not> str_less z x" if "z \<in> set (y # xs)" for z
      using m(2) that False str_less_negtrans[of z x ?m] by blast
    moreover have "\<not> str_less x x" using str_less_asym by blast
    ultimately show ?thesis using False by (simp add: Let_def)
  qed
qed simp

lemma cycle_not_acyclic:
  assumes "is_cycle g r" shows "\<not> acyclic (edges g)"
proof -
  have path: "chain g p \<Longrightarrow> length p > 1 \<Longrightarrow> (hd p, last p) \<in> (edges g)\<^sup>+" for p
  proof (induction p rule: induct_list012)
    case (3 x y zs)
    then show ?case by (cases zs) (auto intro: trancl_into_trancl2)
  qed simp_all
  from assms obtain c where c: "c \<noteq> []" "r = c @ [hd c]" "chain g r" by (auto simp: is_cycle_def)
  from path[OF c(3)] c(1,2) have "(hd c, hd c) \<in> (edges g)\<^sup>+" by (cases c) simp_all
  then show ?thesis by (auto simp: acyclic_def)
qed

section \<open>A report is a cycle\<close>

lemma rotate_cycle:
  assumes "c \<noteq> []" and "distinct c" and "chain g c" and "(last c, hd c) \<in> edges g"
  shows "is_cycle g (rotated_cycle c)"
proof -
  let ?x = "least_string c"
  have x: "?x \<in> set c" "\<forall>y \<in> set c. \<not> str_less y ?x" using least_string_least[OF assms(1)] by auto
  then obtain i where i: "index_of ?x c = Some i" by fastforce
  from index_of_Some[OF i] have n: "i < length c" "c ! i = ?x" by auto
  let ?a = "take i c" and ?b = "drop (Suc i) c"
  have c: "c = ?a @ ?x # ?b" using n id_take_nth_drop by metis
  have r: "rotated_cycle c = (?x # ?b @ ?a) @ [?x]"
    using n by (simp add: rotated_cycle_def position_def i Let_def Cons_nth_drop_Suc[symmetric])
  have "chain g ?a" "chain g (?x # ?b)" "?a \<noteq> [] \<Longrightarrow> (last ?a, ?x) \<in> edges g"
    using assms(3) by (metis c successively_append_iff list.sel(1) list.discI)+
  moreover have "last c = last (?x # ?b)" by (metis c last_append list.discI)
  moreover have "hd c = hd (?a @ [?x])" by (metis c hd_append list.sel(1))
  ultimately have "chain g (?a @ [?x])" "(last (?x # ?b), hd (?a @ [?x])) \<in> edges g" "chain g (?x # ?b)"
    using assms(4) by (auto simp: successively_append_iff)
  then have "chain g ((?x # ?b) @ ?a @ [?x])" by (subst successively_append_iff) blast
  moreover have "distinct (?x # ?b @ ?a)"
    using assms(2) by (metis c distinct_append distinct.simps(2) Un_iff set_append append_Cons disjoint_iff inf_commute list.set_intros(1) list.set_intros(2))
  moreover have "set (?x # ?b @ ?a) = set c" by (subst (4) c) auto
  ultimately show ?thesis
    unfolding is_cycle_def r using x(2) by (intro exI[of _ "?x # ?b @ ?a"]) simp
qed

lemma report_is_cycle:
  assumes "distinct path" and "chain g path" and "m \<in> set path" and "(last path, m) \<in> edges g"
    and "\<forall>r \<in> set reported. is_cycle g r"
  shows "\<forall>r \<in> set (report_cycle path m reported). is_cycle g r"
proof -
  from assms(3) obtain i where i: "index_of m path = Some i" by fastforce
  from index_of_Some[OF i] have n: "i < length path" "path ! i = m" by auto
  let ?c = "drop i path"
  have c: "open_cycle path m = ?c" by (simp add: open_cycle_def position_def i)
  have "?c \<noteq> []" "hd ?c = m" "last ?c = last path" using n by (simp_all add: hd_drop_conv_nth)
  moreover have "chain g ?c" using assms(2) by (metis append_take_drop_id successively_append_iff)
  ultimately have "is_cycle g (rotated_cycle ?c)" using assms(1,4) by (intro rotate_cycle) auto
  with assms(5) c show ?thesis by (simp add: report_cycle_def Let_def)
qed

lemma report_grows: "reported \<noteq> [] \<or> path \<noteq> [] \<Longrightarrow> report_cycle path m reported \<noteq> []"
  by (auto simp: report_cycle_def Let_def)

section \<open>The search\<close>

text \<open>The open path is what the frames say, it is what is gray, and its ids are joined by edges.\<close>

definition path_inv :: "graph \<Rightarrow> colors \<Rightarrow> string list \<Rightarrow> frame list \<Rightarrow> bool" where
  "path_inv g col path fs \<longleftrightarrow> path = rev (map fst fs) \<and> distinct path \<and> chain g path \<and>
     (\<forall>n. color_of col n = Gray \<longleftrightarrow> n \<in> set path) \<and> (\<forall>(n, ms) \<in> set fs. set ms \<subseteq> set (neighbours g n))"

lemma path_inv_pop:
  assumes "path_inv g col path ((n, []) # fs)"
  shows "path_inv g (dset n Black col) (butlast path) fs"
proof -
  from assms have "path = rev (map fst fs) @ [n]" by (simp add: path_inv_def)
  with assms show ?thesis by (simp add: path_inv_def successively_append_iff)
qed

lemma path_inv_parts:
  assumes "path_inv g col path fs"
  shows "path = rev (map fst fs)" and "distinct path" and "chain g path" and "color_of col m = Gray \<longleftrightarrow> m \<in> set path"
    and "(n, ms) \<in> set fs \<Longrightarrow> set ms \<subseteq> set (neighbours g n)"
  using assms unfolding path_inv_def by blast+

lemma path_inv_skip: "path_inv g col path ((n, m # ms) # fs) \<Longrightarrow> path_inv g col path ((n, ms) # fs)"
  unfolding path_inv_def by (elim conjE, intro conjI) simp_all

lemma path_inv_edge:
  assumes "path_inv g col path ((n, m # ms) # fs)"
  shows "last path = n \<and> path \<noteq> [] \<and> (n, m) \<in> edges g"
  using path_inv_parts(1)[OF assms] path_inv_parts(5)[OF assms, of n "m # ms"] by (simp add: edges_def)

lemma path_inv_push:
  assumes "path_inv g col path ((n, m # ms) # fs)" and "color_of col m = White"
  shows "path_inv g (dset m Gray col) (path @ [m]) ((m, neighbours g m) # (n, ms) # fs)"
proof -
  note p = path_inv_parts[OF assms(1)]
  have "m \<notin> set path" using p(4)[of m] assms(2) by simp
  moreover have "chain g (path @ [m])" using p(3) path_inv_edge[OF assms(1)] by (simp add: successively_append_iff)
  moreover have "path @ [m] = rev (map fst ((m, neighbours g m) # (n, ms) # fs))" using p(1) by simp
  moreover have "\<forall>(a, as) \<in> set ((m, neighbours g m) # (n, ms) # fs). set as \<subseteq> set (neighbours g a)"
    using p(5) p(5)[of n "m # ms"] by auto
  ultimately show ?thesis using p(2,4) unfolding path_inv_def by simp blast
qed

lemma search_sound:
  assumes "search g col path fs reported = (col', reported')"
    and "path_inv g col path fs" and "\<forall>r \<in> set reported. is_cycle g r"
  shows "(\<forall>r \<in> set reported'. is_cycle g r) \<and> (\<forall>n. color_of col' n \<noteq> Gray) \<and>
    (\<forall>n. color_of col n \<noteq> White \<longrightarrow> color_of col' n \<noteq> White)"
  using assms
proof (induction g col path fs reported rule: search.induct)
  case (1 g col path reported)
  then show ?case by (auto simp: path_inv_def)
next
  case (2 g col path n fs reported)
  from 2(1)[OF _ path_inv_pop[OF 2(3)] 2(4)] 2(2) show ?case by (auto split: if_splits)
next
  case (3 g col path n m ms fs reported)
  note e = path_inv_edge[OF 3(5)]
  show ?case
  proof (cases "color_of col m = Gray")
    case True
    with path_inv_parts[OF 3(5)] e have "distinct path" "chain g path" "m \<in> set path" "(last path, m) \<in> edges g" by metis+
    from report_is_cycle[OF this 3(6)] 3(1)[OF True _ path_inv_skip[OF 3(5)]] 3(4) True show ?thesis by simp
  next
    case False
    show ?thesis
    proof (cases "color_of col m = White \<and> dhas g m")
      case True
      from 3(2)[OF False True _ path_inv_push[OF 3(5)] 3(6)] 3(4) False True show ?thesis by (auto split: if_splits)
    next
      case other: False
      from 3(3)[OF False other _ path_inv_skip[OF 3(5)] 3(6)] 3(4) False other show ?thesis by auto
    qed
  qed
qed

text \<open>What a finished node has behind it is finished, and the edges of finished nodes form no cycle.\<close>

definition settled :: "graph \<Rightarrow> colors \<Rightarrow> string \<Rightarrow> bool" where
  "settled g col m \<longleftrightarrow> dhas g m \<longrightarrow> color_of col m = Black"

definition done_edges :: "graph \<Rightarrow> colors \<Rightarrow> (string \<times> string) set" where
  "done_edges g col = {(a, b) \<in> edges g. color_of col a = Black}"

definition done_inv :: "graph \<Rightarrow> colors \<Rightarrow> bool" where
  "done_inv g col \<longleftrightarrow> acyclic (done_edges g col) \<and> (\<forall>(a, b) \<in> done_edges g col. settled g col b)"

fun frames_inv :: "graph \<Rightarrow> colors \<Rightarrow> string option \<Rightarrow> frame list \<Rightarrow> bool" where
  "frames_inv g col child [] = True"
| "frames_inv g col child ((n, ms) # fs) =
     ((\<forall>m \<in> set (neighbours g n). m \<in> set ms \<or> settled g col m \<or> child = Some m) \<and> frames_inv g col (Some n) fs)"

lemma frames_inv_mono:
  "frames_inv g col child fs \<Longrightarrow> (\<And>m. settled g col m \<Longrightarrow> settled g col' m) \<Longrightarrow>
   (\<And>m. child = Some m \<Longrightarrow> settled g col' m \<or> child' = Some m) \<Longrightarrow> frames_inv g col' child' fs"
  by (induction fs arbitrary: child child') fastforce+

lemma acyclic_new_source:
  assumes "acyclic r" and "n \<notin> Range (r \<union> {n} \<times> B)"
  shows "acyclic (r \<union> {n} \<times> B)"
proof -
  have "(x, y) \<in> r\<^sup>+" if "(x, y) \<in> (r \<union> {n} \<times> B)\<^sup>+" "x \<noteq> n" for x y
    using that
  proof (induction rule: trancl_induct)
    case (step y z)
    from step(1) have "y \<in> Range (r \<union> {n} \<times> B)" using trancl_range by (metis Range.intros)
    with assms(2) step show ?case by (auto intro: trancl_into_trancl)
  qed auto
  moreover have "(n, n) \<notin> (r \<union> {n} \<times> B)\<^sup>+" using assms(2) trancl_range by (metis Range.intros)
  ultimately show ?thesis using assms(1) by (auto simp: acyclic_def)
qed

lemma done_inv_pop:
  assumes "done_inv g col" and "color_of col n = Gray" and "\<forall>m \<in> set (neighbours g n). settled g col m"
  shows "done_inv g (dset n Black col)"
proof (cases "dhas g n")
  case True
  let ?B = "set (neighbours g n)"
  have e: "done_edges g (dset n Black col) = done_edges g col \<union> {n} \<times> ?B"
    by (auto simp: done_edges_def edges_def split: if_splits)
  have "n \<notin> Range (done_edges g col \<union> {n} \<times> ?B)"
    using assms True by (auto simp: done_inv_def settled_def)
  from acyclic_new_source[OF _ this] assms show ?thesis
    unfolding done_inv_def e by (auto simp: settled_def)
next
  case False
  then have "a \<noteq> n" if "(a, b) \<in> edges g" for a b using edge_from_key[OF that] by blast
  then have e: "done_edges g (dset n Black col) = done_edges g col" by (auto simp: done_edges_def)
  from assms show ?thesis unfolding done_inv_def e by (auto simp: settled_def)
qed

lemma done_edges_paint: "c \<noteq> Black \<Longrightarrow> color_of col n \<noteq> Black \<Longrightarrow> done_edges g (dset n c col) = done_edges g col"
  unfolding done_edges_def color_of_dset by (rule Collect_cong) (auto split: if_splits)

lemma settled_paint: "c = Black \<or> color_of col n \<noteq> Black \<Longrightarrow> settled g col m \<Longrightarrow> settled g (dset n c col) m"
  by (auto simp: settled_def)

lemma search_keeps_reports: "reported \<noteq> [] \<Longrightarrow> snd (search g col path fs reported) \<noteq> []"
proof (induction g col path fs reported rule: search.induct)
  case (3 g col path n m ms fs reported)
  from 3(4) have "report_cycle path m reported \<noteq> []" by (auto simp: report_cycle_def Let_def)
  with 3 show ?case by simp
qed simp_all

lemma search_complete:
  assumes "search g col path fs reported = (col', [])"
    and "path_inv g col path fs" and "done_inv g col" and "frames_inv g col None fs"
  shows "done_inv g col'"
  using assms
proof (induction g col path fs reported rule: search.induct)
  case (2 g col path n fs reported)
  from path_inv_parts(1)[OF 2(3)] path_inv_parts(4)[OF 2(3), of n] have n: "color_of col n = Gray" by simp
  with 2(4,5) have "done_inv g (dset n Black col)" by (intro done_inv_pop) auto
  moreover from 2(5) have "frames_inv g (dset n Black col) None fs"
    by (auto intro: settled_paint elim!: frames_inv_mono simp: settled_def)
  ultimately show ?case using 2(1)[OF _ path_inv_pop[OF 2(3)]] 2(2) by simp
next
  case (3 g col path n m ms fs reported)
  note e = path_inv_edge[OF 3(5)] and skip = path_inv_skip[OF 3(5)]
  show ?case
  proof (cases "color_of col m = Gray")
    case True
    with 3(4) have "search g col path ((n, ms) # fs) (report_cycle path m reported) = (col', [])" by simp
    with search_keeps_reports[OF report_grows] e show ?thesis by (metis snd_conv)
  next
    case False
    show ?thesis
    proof (cases "color_of col m = White \<and> dhas g m")
      case True
      let ?col = "dset m Gray col"
      have "done_edges g ?col = done_edges g col" using True by (simp add: done_edges_paint)
      then have "done_inv g ?col" using 3(6) True by (auto simp: done_inv_def settled_paint)
      moreover have "frames_inv g ?col None ((m, neighbours g m) # (n, ms) # fs)"
        using 3(7) True by (auto intro: settled_paint elim!: frames_inv_mono)
      ultimately show ?thesis using 3(2)[OF False True _ path_inv_push[OF 3(5)]] 3(4) False True by simp
    next
      case other: False
      then have "settled g col m" using False by (cases "color_of col m") (auto simp: settled_def)
      with 3(7) have "frames_inv g col None ((n, ms) # fs)" by auto
      from 3(3)[OF False other _ skip 3(6) this] 3(4) False other show ?thesis by auto
    qed
  qed
qed simp

section \<open>All roots\<close>

lemma new_root:
  assumes "\<forall>n. color_of col n \<noteq> Gray" and "color_of col root = White"
  shows "path_inv g (dset root Gray col) [root] [(root, neighbours g root)]"
    and "done_inv g col \<Longrightarrow> done_inv g (dset root Gray col)"
    and "frames_inv g (dset root Gray col) None [(root, neighbours g root)]"
proof -
  show "path_inv g (dset root Gray col) [root] [(root, neighbours g root)]" using assms by (auto simp: path_inv_def)
  have "done_edges g (dset root Gray col) = done_edges g col" using assms(2) by (simp add: done_edges_paint)
  then show "done_inv g col \<Longrightarrow> done_inv g (dset root Gray col)" using assms(2) by (auto simp: done_inv_def settled_paint)
qed simp

lemma roots_sound:
  assumes "fold (search_root g) roots (col, reported) = (col', reported')"
    and "\<forall>n. color_of col n \<noteq> Gray" and "\<forall>r \<in> set reported. is_cycle g r"
  shows "(\<forall>r \<in> set reported'. is_cycle g r) \<and> (\<forall>n. color_of col' n \<noteq> Gray) \<and>
    (\<forall>n. n \<in> set roots \<or> color_of col n \<noteq> White \<longrightarrow> color_of col' n \<noteq> White)"
  using assms
proof (induction roots arbitrary: col reported)
  case (Cons root roots)
  obtain c r where s: "search_root g root (col, reported) = (c, r)" by fastforce
  have "(\<forall>x \<in> set r. is_cycle g x) \<and> (\<forall>n. color_of c n \<noteq> Gray) \<and>
    (\<forall>n. n = root \<or> color_of col n \<noteq> White \<longrightarrow> color_of c n \<noteq> White)"
  proof (cases "color_of col root = White")
    case True
    with s have "search g (dset root Gray col) [root] [(root, neighbours g root)] reported = (c, r)"
      by (simp add: search_root_def)
    from search_sound[OF this new_root(1)[OF Cons.prems(2) True] Cons.prems(3)] show ?thesis by (auto split: if_splits)
  qed (use s Cons.prems in \<open>auto simp: search_root_def\<close>)
  with Cons.IH[of c r] Cons.prems(1) s show ?case by simp
qed simp

lemma roots_complete:
  assumes "fold (search_root g) roots (col, reported) = (col', [])"
    and "\<forall>n. color_of col n \<noteq> Gray" and "\<forall>r \<in> set reported. is_cycle g r" and "done_inv g col"
  shows "done_inv g col'"
  using assms
proof (induction roots arbitrary: col reported)
  case (Cons root roots)
  obtain c r where s: "search_root g root (col, reported) = (c, r)" by fastforce
  with roots_sound[of g "[root]" col reported c r] Cons.prems have ok: "\<forall>x \<in> set r. is_cycle g x" "\<forall>n. color_of c n \<noteq> Gray"
    by simp_all
  have grows: "reports \<noteq> [] \<Longrightarrow> snd (fold (search_root g) rs (cl, reports)) \<noteq> []" for rs cl reports
  proof (induction rs arbitrary: cl reports)
    case (Cons x xs)
    obtain d q where d: "search_root g x (cl, reports) = (d, q)" by fastforce
    with Cons.prems search_keeps_reports[of reports g] have "q \<noteq> []"
      by (auto simp: search_root_def split: if_splits) (metis snd_conv)
    from Cons.IH[OF this] d show ?case by simp
  qed simp
  from Cons.prems(1) s grows[of r roots c] have r: "r = []" by auto
  have "done_inv g c"
  proof (cases "color_of col root = White")
    case True
    with s r have "search g (dset root Gray col) [root] [(root, neighbours g root)] reported = (c, [])"
      by (simp add: search_root_def)
    from search_complete[OF this new_root(1)[OF Cons.prems(2) True] new_root(2)[OF Cons.prems(2) True Cons.prems(4)]
        new_root(3)[OF Cons.prems(2) True]] show ?thesis .
  qed (use s Cons.prems in \<open>auto simp: search_root_def\<close>)
  with Cons.IH[of c r] Cons.prems(1) s ok r show ?case by simp
qed simp

lemma consume_cycles_exact:
  "(\<forall>r \<in> set (consume_cycles g). is_cycle g r) \<and> (consume_cycles g = [] \<longleftrightarrow> acyclic (edges g))"
proof -
  obtain col reported where f: "fold (search_root g) (map fst g) ([], []) = (col, reported)" by fastforce
  then have r: "consume_cycles g = reported" by (simp add: consume_cycles_def)
  have white: "color_of [] n \<noteq> Gray" for n by (simp add: color_of_def)
  have all: "(\<forall>r \<in> set reported. is_cycle g r) \<and> (\<forall>n. color_of col n \<noteq> Gray) \<and>
    (\<forall>n. n \<in> set (map fst g) \<or> color_of [] n \<noteq> White \<longrightarrow> color_of col n \<noteq> White)"
    by (rule roots_sound[OF f]) (simp_all add: white)
  then have s: "\<forall>r \<in> set reported. is_cycle g r" by blast
  have black: "color_of col a = Black" if "(a, b) \<in> edges g" for a b
  proof -
    from edge_from_key[OF that] have "a \<in> set (map fst g)" by (simp add: dhas_iff)
    with all show ?thesis by (cases "color_of col a") auto
  qed
  have "acyclic (edges g)" if "reported = []"
  proof -
    have "done_edges g [] = {}" by (simp add: done_edges_def color_of_def)
    then have "done_inv g []" by (simp add: done_inv_def acyclic_def)
    from roots_complete[OF f[unfolded that] _ _ this] white have "acyclic (done_edges g col)" by (simp add: done_inv_def)
    moreover have "done_edges g col = edges g" unfolding done_edges_def using black by blast
    ultimately show ?thesis by simp
  qed
  moreover have "\<not> acyclic (edges g)" if "reported \<noteq> []"
    using that s cycle_not_acyclic by (cases reported) auto
  ultimately show ?thesis unfolding r using s by blast
qed

section \<open>The graph of a document\<close>

lemma edges_add: "edges (add_edge a b g) = insert (a, b) (edges g)"
  by (auto simp: edges_def set_neighbours add_edge_def dget_dset split: option.splits if_splits)

lemma edges_adds: "edges (fold (\<lambda>b g. add_edge a b g) bs g) = {a} \<times> set bs \<union> edges g"
  by (induction bs arbitrary: g) (auto simp: edges_add)

lemma edges_consumes: "edges (fold (\<lambda>(a, b) g. add_edge a b g) es g) = set es \<union> edges g"
  by (induction es arbitrary: g) (auto simp: edges_add)

lemma edges_emits:
  "edges (fold (\<lambda>(a, bs) g. fold (\<lambda>b g. add_edge a b g) bs g) es g) = {(a, b). \<exists>bs. (a, bs) \<in> set es \<and> b \<in> set bs} \<union> edges g"
  by (induction es arbitrary: g) (auto simp: edges_adds)

lemma edges_consume_graph:
  "edges (consume_graph consumes emits) = set consumes \<union> {(w, ev). \<exists>evs. (w, evs) \<in> set emits \<and> ev \<in> set evs}"
proof -
  have "edges [] = {}" by (auto simp: edges_def set_neighbours)
  then show ?thesis by (auto simp: consume_graph_def edges_emits edges_consumes)
qed

text \<open>
  C28: the search for \<open>consume by\<close> cycles is exact. Every diagnostic is a cycle of events and workflows,
  written from its smallest id, and there is no diagnostic exactly when the events a workflow emits never
  lead, through the workflows that consume them, back to that workflow.
\<close>

theorem consume_loops_found:
  "(\<forall>d \<in> set (check_event_consume_cycles consumes emits).
      \<exists>r. is_cycle (consume_graph consumes emits) r \<and> d = cycle_diag r) \<and>
   (check_event_consume_cycles consumes emits = [] \<longleftrightarrow>
      acyclic (set consumes \<union> {(w, ev). \<exists>evs. (w, evs) \<in> set emits \<and> ev \<in> set evs}))"
  using consume_cycles_exact[of "consume_graph consumes emits"]
  by (auto simp: check_event_consume_cycles_def edges_consume_graph)

theorem consume_loops_found_witness:
  "check_event_consume_cycles [(''event.e'', ''workflow.w'')] [(''workflow.w'', [''event.e''])] \<noteq> []"
proof -
  let ?edges = "set [(''event.e'', ''workflow.w'')] \<union> {(w, ev). \<exists>evs. (w, evs) \<in> set [(''workflow.w'', [''event.e''])] \<and> ev \<in> set evs}"
  have "(''event.e'', ''event.e'') \<in> ?edges\<^sup>+"
    by (rule trancl_into_trancl[OF r_into_trancl, where b = "''workflow.w''"]) simp_all
  then have "\<not> acyclic ?edges" unfolding acyclic_def by blast
  then show ?thesis using consume_loops_found[of "[(''event.e'', ''workflow.w'')]" "[(''workflow.w'', [''event.e''])]"] by blast
qed
end
