(* ===== verification/Examples.thy ===== *)
theory Examples
  imports Workflow
begin

text \<open>
  Small documents and the interpreters that run them: the inputs of the witnesses and of the
  lemmas that execute a run. Each document is what the compiler writes for a few lines of LNPL.
\<close>

section \<open>Building blocks\<close>

definition ex_field :: "string \<Rightarrow> string \<Rightarrow> field_decl" where
  "ex_field n t = \<lparr>fd_name = n, fd_type = t, fd_base = None, fd_optional = False, fd_derived = False, fd_fill = None\<rparr>"

definition ex_call :: "string \<Rightarrow> string \<Rightarrow> string option \<Rightarrow> repo_call" where
  "ex_call e operation res = \<lparr>rc_entity = e, rc_operation = operation, rc_lookup = None, rc_cached = False,
     rc_result = res, rc_predicate = [], rc_order = None, rc_limit = None\<rparr>"

definition ex_config :: "document \<Rightarrow> config" where
  "ex_config doc = \<lparr>cf_doc = doc, cf_claims = None, cf_search = (\<lambda>_ _. True),
     cf_network = (\<lambda>_ _. Inl ''refused''), cf_fresh = ''u'', cf_depth = 5, cf_schedule = (\<lambda>_. []), cf_wall = (\<lambda>_. 0)\<rparr>"

definition ex_run :: "document \<Rightarrow> row \<Rightarrow> run_result run" where
  "ex_run doc payload = run_workflow (ex_config doc) ''w'' payload []"

section \<open>Create, then reject\<close>

text \<open>\<open>create order\<close> and, in the next step, a rejection.\<close>

definition reject_doc :: document where
  "reject_doc =
    [(''e'', Entity ''O'' [ex_field ''id'' ''Text'']),
     (''w'', Workflow ''W'' [''s'', ''t'']),
     (''s'', WorkflowStep ''S'' [''c'']), (''t'', WorkflowStep ''T'' [''r'']),
     (''c'', Effect (RepositoryCall (ex_call ''e'' ''create'' None))),
     (''r'', Effect (Rejection ''no''))]"

lemma reject_run:
  "(case ex_run reject_doc [(''id'', PStr ''1'')] (new_interpreter []) of
      (Inr res, t) \<Rightarrow> rr_failure res = Some (StepFailed ''T'' (Rejected ''no'')) \<and> length (rp_calls (st_repo t)) = 1
    | _ \<Rightarrow> False)"
  by code_simp

section \<open>A bound compared with NaN\<close>

text \<open>\<open>validate order\<close> where a field's refinement of \<open>Decimal\<close> has a minimum.\<close>

definition bound_doc :: document where
  "bound_doc =
    [(''e'', Entity ''O'' [ex_field ''id'' ''Text'', ex_field ''a'' ''P'']),
     (''p'', Refinement ''P'' ''Decimal'' (no_facets\<lparr>ft_min := Some (PInt 1)\<rparr>)),
     (''w'', Workflow ''W'' [''s'']), (''s'', WorkflowStep ''S'' [''v'']),
     (''v'', Effect (Validation ''e'' ''semantic-types''))]"

definition bound_payload :: "string \<Rightarrow> row" where
  "bound_payload a = [(''id'', PStr ''1''), (''a'', PStr a)]"

section \<open>A cached read that is written through\<close>

text \<open>\<open>w\<close> reads the order through the cache; \<open>v\<close> also assigns to it and is then rejected.\<close>

definition cached_doc :: document where
  "cached_doc =
    [(''e'', Entity ''O'' [ex_field ''id'' ''Text'', ex_field ''a'' ''Integer'']),
     (''w'', Workflow ''W'' [''s'']), (''v'', Workflow ''V'' [''s'', ''t'']),
     (''s'', WorkflowStep ''S'' [''c'']), (''t'', WorkflowStep ''T'' [''m'', ''r'']),
     (''c'', Effect (RepositoryCall ((ex_call ''e'' ''read'' None)\<lparr>rc_cached := True\<rparr>))),
     (''m'', Effect (Assignment ''o.a'' ''5'' None)), (''r'', Effect (Rejection ''no'')),
     (''p'', Performance [(''cache'', PStr ''1m'')]), (''x'', Service ''X'' [''w'', ''v''] [''p''])]"

definition cached_seed :: seed where
  "cached_seed = [(''e'', [(''e#1'', [(''id'', PStr ''1''), (''a'', PInt 1)])])]"

section \<open>A created row whose id the server generates\<close>

definition generated_doc :: document where
  "generated_doc =
    [(''e'', Entity ''O'' [(ex_field ''id'' ''Text'')\<lparr>fd_derived := True, fd_fill := Some ''generated''\<rparr>,
       ex_field ''a'' ''Integer'']),
     (''w'', Workflow ''W'' [''s'']), (''s'', WorkflowStep ''S'' [''c'', ''m'']),
     (''c'', Effect (RepositoryCall (ex_call ''e'' ''create'' (Some ''n'')))),
     (''m'', Effect (Assignment ''n.a'' ''5'' None))]"

section \<open>A retried step\<close>

text \<open>\<open>update order\<close> on a row that does not exist, under \<open>retry 2\<close>.\<close>

definition retry_doc :: document where
  "retry_doc =
    [(''e'', Entity ''O'' [ex_field ''id'' ''Text'']),
     (''w'', Workflow ''W'' [''s'']), (''s'', WorkflowStep ''S'' [''u'']),
     (''u'', Effect (RepositoryCall (ex_call ''e'' ''update'' None))),
     (''p'', Policy [(''retry'', PInt 2)]), (''x'', Service ''X'' [''w''] [''p''])]"

section \<open>Two events\<close>

text \<open>\<open>emit\<close> twice in a document of two entities, the second with a password.\<close>

definition emit_doc :: document where
  "emit_doc =
    [(''e'', Entity ''O'' [ex_field ''id'' ''Text'']), (''f'', Entity ''U'' [ex_field ''pw'' ''Password'']),
     (''v'', Event ''V''), (''w'', Workflow ''W'' [''s'']), (''s'', WorkflowStep ''S'' [''a'', ''b'']),
     (''a'', Effect (EventEmit (Some ''v'') [])), (''b'', Effect (EventEmit (Some ''v'') []))]"

end
