(* ===== verification/LowerProps.thy ===== *)
theory LowerProps
  imports Compiled RunTypes Loader CycleFacts Examples
begin

text \<open>
  Sources, documents and runs together: what compiling accepts is a document the runtime can walk, its
  runs meet no wiring error, and the checks of the compiler hold of what it hands over.
\<close>

section \<open>Loading\<close>

lemma parse_guards: "parse src = Inr ds \<Longrightarrow> list_all guards_closed ds"
  using parse_lines_says tokenize_line_ok_all[of src] by (auto simp: parse_def bindE_iffs split: sum.splits)

lemma merge_file_guards:
  assumes "merge_file f acc = Inr acc'" and "list_all decl_guards_ok (fst acc)"
  shows "list_all decl_guards_ok (fst acc')"
proof -
  from assms(1) obtain src ds seen where "parse src = Inr ds" "acc' = (fst acc @ map (place_decl f) ds, seen)"
    by (auto simp: merge_file_def bindE_iffs split: fs.splits sum.splits)
  with assms(2) parse_guards show ?thesis
    by (fastforce simp: list_all_iff decl_guards_ok_def guards_closed_def place_decl_def decl.extend_def)
qed

lemma merge_files_guards:
  "foldE merge_file files acc = Inr acc' \<Longrightarrow> list_all decl_guards_ok (fst acc) \<Longrightarrow> list_all decl_guards_ok (fst acc')"
  by (induction files arbitrary: acc) (auto simp: bindE_iffs dest: merge_file_guards)

lemma load_guards: "load_sources paths = Inr ds \<Longrightarrow> list_all decl_guards_ok ds"
  by (auto simp: load_sources_def bindE_iffs dest: merge_files_guards)

lemma compile_lowers:
  assumes "compile_sources lib paths name = Inr m"
  obtains ds where "lower lib ds name = Inr m" and "list_all decl_guards_ok ds"
  using assms load_guards by (auto simp: compile_sources_def split: sum.splits)

lemma compile_well_formed: "compile_sources lib paths name = Inr m \<Longrightarrow> well_formed (to_document m)"
  by (erule compile_lowers) (simp add: well_formed_def lower_document_ok lower_events_declared)

section \<open>Examples\<close>

definition any_lib :: py_lib where
  "any_lib = \<lparr>pl_regex = (\<lambda>_. True), pl_float = PStr\<rparr>"

text \<open>Two rows created side by side; an order that is refused when it is large; a cached read.\<close>

definition pair_source :: string where
  "pair_source = join [CHR 0x0A]
     [''entity P'', ''    field'', ''        id UUID'', ''entity O'', ''    field'', ''        id UUID'',
      ''workflow C'', ''    parallel'', ''        create p'', ''        create o'', ''    merge'']"

definition pair_document :: document where
  "pair_document =
    [(''entity.p'', Entity ''P'' [ex_field ''id'' ''UUID'']), (''entity.o'', Entity ''O'' [ex_field ''id'' ''UUID'']),
     (''wf.c'', Workflow ''C'' [''wf.c.parallel.1'']),
     (''wf.c.step.1'', WorkflowStep ''create p'' [''wf.c.step.1.repo'']),
     (''wf.c.step.1.repo'', Effect (RepositoryCall (ex_call ''entity.p'' ''create'' None))),
     (''wf.c.step.2'', WorkflowStep ''create o'' [''wf.c.step.2.repo'']),
     (''wf.c.step.2.repo'', Effect (RepositoryCall (ex_call ''entity.o'' ''create'' None))),
     (''wf.c.parallel.1'', Concurrency [''wf.c.step.1'', ''wf.c.step.2''])]"

definition refuse_source :: string where
  "refuse_source = join [CHR 0x0A]
     [''entity P'', ''    field'', ''        id UUID'', ''        n Integer'',
      ''workflow C'', ''    find p'', ''    when p.n > 0'', ''    fail no'']"

definition refuse_document :: document where
  "refuse_document =
    [(''entity.p'', Entity ''P'' [ex_field ''id'' ''UUID'', ex_field ''n'' ''Integer'']),
     (''wf.c'', Workflow ''C'' [''wf.c.step.1'', ''wf.c.guard.1'']),
     (''wf.c.step.1'', WorkflowStep ''find p'' [''wf.c.step.1.repo'']),
     (''wf.c.step.1.repo'', Effect (RepositoryCall (ex_call ''entity.p'' ''read'' None))),
     (''wf.c.step.2'', WorkflowStep ''fail no'' [''wf.c.step.2.reject'']),
     (''wf.c.step.2.reject'', Effect (Rejection ''no'')),
     (''wf.c.guard.1'', Guard \<lparr>gn_mode = ''when'', gn_children = [''wf.c.step.2''], gn_condition = Some ''p.n > 0'',
        gn_alternatives = [], gn_count = 0, gn_text_ops = []\<rparr>)]"

definition budget_source :: string where
  "budget_source = join [CHR 0x0A]
     [''entity P'', ''    field'', ''        id UUID'', ''service S'', ''    performance'', ''        cache 5m'',
      ''workflow C'', ''    find p cached'', ''    find p'']"

definition budget_document :: document where
  "budget_document =
    [(''svc.s'', Service ''S'' [''wf.c''] [''perf.s'']), (''entity.p'', Entity ''P'' [ex_field ''id'' ''UUID'']),
     (''wf.c'', Workflow ''C'' [''wf.c.step.1'', ''wf.c.step.2'']),
     (''wf.c.step.1'', WorkflowStep ''find p cached'' [''wf.c.step.1.repo'']),
     (''wf.c.step.1.repo'', Effect (RepositoryCall ((ex_call ''entity.p'' ''read'' None)\<lparr>rc_cached := True\<rparr>))),
     (''wf.c.step.2'', WorkflowStep ''find p'' [''wf.c.step.2.repo'']),
     (''wf.c.step.2.repo'', Effect (RepositoryCall (ex_call ''entity.p'' ''read'' None))),
     (''perf.s'', Performance [(''cache'', PStr ''5m'')])]"

abbreviation compile_one :: "string \<Rightarrow> compile_error + lmodule" where
  "compile_one source \<equiv> compile_sources any_lib [(''s.lnpl'', File source)] ''s''"

definition compiles_to :: "string \<Rightarrow> document \<Rightarrow> bool" where
  "compiles_to source doc \<longleftrightarrow> (case compile_one source of Inr m \<Rightarrow> to_document m = doc | _ \<Rightarrow> False)"

lemma pair_compiles: "compiles_to pair_source pair_document"
  by code_simp

lemma refuse_compiles: "compiles_to refuse_source refuse_document"
  by code_simp

lemma budget_compiles: "compiles_to budget_source budget_document"
  by code_simp

lemma compiles_toE:
  assumes "compiles_to source doc" obtains m where "compile_one source = Inr m" and "to_document m = doc"
  using assms by (auto simp: compiles_to_def split: sum.splits)

end
