(* ===== verification/BodyDepth.thy ===== *)
theory BodyDepth
  imports PlanForest
begin

text \<open>
  The walks of the checks over a planned body go down the ids of nodes with a recursion limit. A body is four
  nodes deep (a guard, a block, a step, an effect), so a limit of four or more gives the same answer.
\<close>

section \<open>Walks\<close>

text \<open>A walk computes a node from what it computes for its children, one level further down.\<close>

locale body_walk =
  fixes body :: "lnode list" and walk :: "nat \<Rightarrow> 'a \<Rightarrow> string \<Rightarrow> 'b" and visit_node :: "('a \<Rightarrow> string \<Rightarrow> 'b) \<Rightarrow> 'a \<Rightarrow> string \<Rightarrow> 'b"
  assumes unfold: "walk (Suc k) a i = visit_node (walk k) a i"
    and same: "(\<And>n b c. by_id body i = Some n \<Longrightarrow> c \<in> set (node_children (ln_node n)) \<Longrightarrow> v b c = u b c) \<Longrightarrow>
      visit_node v a i = visit_node u a i"
begin

lemma deeper:
  assumes "\<And>n b c. by_id body i = Some n \<Longrightarrow> c \<in> set (node_children (ln_node n)) \<Longrightarrow> walk (m + k) b c = walk m b c"
  shows "walk (Suc m + k) a i = walk (Suc m) a i"
  using same[of i "walk (m + k)" "walk m" a] assms by (simp add: unfold)

lemma settled:
  assumes "emits_ok body" and "distinct (ids body)"
  shows "finds (doc_of body) is_effect i \<Longrightarrow> walk (1 + k) a i = walk 1 a i"
    and "finds (doc_of body) is_step i \<Longrightarrow> walk (2 + k) a i = walk 2 a i"
    and "finds (doc_of body) is_body i \<Longrightarrow> walk (3 + k) a i = walk 3 a i"
    and "finds (doc_of body) is_item i \<Longrightarrow> walk (4 + k) a i = walk 4 a i"
proof -
  have four: "4 = Suc (Suc (Suc (Suc 0)))" by simp
  have found: "P (ln_node n) \<and> node_ok (doc_of body) (ln_node n)" if "finds (doc_of body) P i" "by_id body i = Some n" for P i n
  proof -
    from that(1) obtain k where k: "k \<in> set body" "ln_id k = i" "P (ln_node k)" by (auto simp: finds_def doc_of_def)
    with by_id_distinct[OF assms(2) k(1)] that(2) have "n = k" by simp
    with k assms(1) show ?thesis by (auto simp: emits_ok_def list_all_iff)
  qed
  have e: "walk (Suc 0 + k) a i = walk (Suc 0) a i" if "finds (doc_of body) is_effect i" for a i k
    by (rule deeper) (use found[OF that] effect_children in fastforce)
  have s: "walk (Suc (Suc 0) + k) a i = walk (Suc (Suc 0)) a i" if "finds (doc_of body) is_step i" for a i k
  proof (rule deeper)
    fix n b c assume "by_id body i = Some n" "c \<in> set (node_children (ln_node n))"
    with found[OF that] have "finds (doc_of body) is_effect c" by (cases "ln_node n") (auto simp: node_ok_def list_all_iff)
    then show "walk (Suc 0 + k) b c = walk (Suc 0) b c" by (rule e)
  qed
  have b: "walk (Suc (Suc (Suc 0)) + k) a i = walk (Suc (Suc (Suc 0))) a i" if "finds (doc_of body) is_body i" for a i k
  proof (rule deeper)
    fix n b c assume "by_id body i = Some n" "c \<in> set (node_children (ln_node n))"
    with found[OF that] have "finds (doc_of body) is_effect c \<or> finds (doc_of body) is_step c"
      by (cases "ln_node n") (auto simp: node_ok_def list_all_iff)
    then show "walk (Suc (Suc 0) + k) b c = walk (Suc (Suc 0)) b c"
    proof
      assume "finds (doc_of body) is_effect c"
      from e[OF this, of "Suc k" b] e[OF this, of "Suc 0" b] show ?thesis by simp
    qed (rule s)
  qed
  have t: "walk (Suc (Suc (Suc (Suc 0))) + k) a i = walk (Suc (Suc (Suc (Suc 0)))) a i" if "finds (doc_of body) is_item i" for a i k
  proof (rule deeper)
    fix n b' c assume n: "by_id body i = Some n" "c \<in> set (node_children (ln_node n))"
    with found[OF that] consider "finds (doc_of body) is_effect c" | "finds (doc_of body) is_step c" | "finds (doc_of body) is_body c"
      by (cases "ln_node n") (auto simp: node_ok_def list_all_iff)
    then show "walk (Suc (Suc (Suc 0)) + k) b' c = walk (Suc (Suc (Suc 0))) b' c"
    proof cases
      case 1
      from e[OF this, of "Suc (Suc k)" b'] e[OF this, of "Suc (Suc 0)" b'] show ?thesis by simp
    next
      case 2
      from s[OF this, of "Suc k" b'] s[OF this, of "Suc 0" b'] show ?thesis by simp
    qed (rule b)
  qed
  show "finds (doc_of body) is_effect i \<Longrightarrow> walk (1 + k) a i = walk 1 a i"
    and "finds (doc_of body) is_step i \<Longrightarrow> walk (2 + k) a i = walk 2 a i"
    and "finds (doc_of body) is_body i \<Longrightarrow> walk (3 + k) a i = walk 3 a i"
    and "finds (doc_of body) is_item i \<Longrightarrow> walk (4 + k) a i = walk 4 a i"
    using e[of i k a] s[of i k a] b[of i k a] t[of i k a]
    by (simp_all only: One_nat_def numeral_2_eq_2 numeral_3_eq_3 four)
qed

lemma enough:
  assumes "emits_ok body" and "distinct (ids body)" and "finds (doc_of body) is_item i" and "body_depth \<le> k"
  shows "walk k a i = walk body_depth a i"
proof -
  from assms(4) obtain j where "k = 5 + j" unfolding body_depth_def using le_Suc_ex by blast
  then have "k = 4 + Suc j" by simp
  moreover have "body_depth = 4 + 1" by (simp add: body_depth_def)
  ultimately show ?thesis using settled(4)[OF assms(1-3)] by metis
qed

end

section \<open>The walks of the checks\<close>

text \<open>One level of each walk, as a function of the walk of the children.\<close>

definition owner_node :: "lnode list \<Rightarrow> (owner \<Rightarrow> string \<Rightarrow> lower_exc + (string \<times> owner) list) \<Rightarrow> owner \<Rightarrow> string \<Rightarrow>
    lower_exc + (string \<times> owner) list" where
  "owner_node body rec ow nid =
     (case by_id body nid of
        None \<Rightarrow> Inr []
      | Some n \<Rightarrow>
          bindE (case ln_node n of
                   Guard g \<Rightarrow> mapE (\<lambda>(i, c). rec (Some g, i = 1) c) (enumerate 0 (take 2 (gn_children g)))
                 | m \<Rightarrow> mapE (rec ow) (node_children m)) (\<lambda>subs. Inr ((nid, ow) # concat subs)))"

lemma mapE_same: "(\<And>x. x \<in> set xs \<Longrightarrow> f x = g x) \<Longrightarrow> mapE f xs = mapE g xs"
  by (rule mapE_cong) simp_all

lemma foldE_same: "(\<And>x s. x \<in> set xs \<Longrightarrow> f x s = g x s) \<Longrightarrow> foldE f xs s = foldE g xs s"
  by (induction xs arbitrary: s) (auto intro!: arg_cong[where f = "bindE _"])

interpretation owner: body_walk body "\<lambda>k. owner_walk k body" "owner_node body" for body
proof
  fix k ow nid show "owner_walk (Suc k) body ow nid = owner_node body (owner_walk k body) ow nid" by (simp add: owner_node_def)
next
  fix nid and v u :: "owner \<Rightarrow> string \<Rightarrow> lower_exc + (string \<times> owner) list" and ow
  assume h: "\<And>n b c. by_id body nid = Some n \<Longrightarrow> c \<in> set (node_children (ln_node n)) \<Longrightarrow> v b c = u b c"
  show "owner_node body v ow nid = owner_node body u ow nid"
  proof (cases "by_id body nid")
    case (Some n)
    note eq = h[OF this]
    show ?thesis
    proof (cases "\<exists>g. ln_node n = Guard g")
      case True
      then obtain g where g: "ln_node n = Guard g" by blast
      have "mapE (\<lambda>(i, c). v (Some g, i = 1) c) (enumerate 0 (take 2 (gn_children g))) =
          mapE (\<lambda>(i, c). u (Some g, i = 1) c) (enumerate 0 (take 2 (gn_children g)))"
      proof (rule mapE_same)
        fix p assume "p \<in> set (enumerate (0 :: nat) (take 2 (gn_children g)))"
        then have "snd p \<in> set (map snd (enumerate (0 :: nat) (take 2 (gn_children g))))" unfolding set_map by (rule imageI)
        then have "snd p \<in> set (gn_children g)" by (auto dest: in_set_takeD)
        with eq g show "(case p of (i, c) \<Rightarrow> v (Some g, i = 1) c) = (case p of (i, c) \<Rightarrow> u (Some g, i = 1) c)" by (auto split: prod.split)
      qed
      with Some g show ?thesis by (simp add: owner_node_def)
    next
      case False
      have "mapE (v ow) (node_children (ln_node n)) = mapE (u ow) (node_children (ln_node n))" by (rule mapE_same) (rule eq)
      with Some False show ?thesis by (cases "ln_node n") (simp_all add: owner_node_def)
    qed
  qed (simp add: owner_node_def)
qed

definition outside_node :: "lnode list \<Rightarrow> (unit \<Rightarrow> string \<Rightarrow> lower_exc + lnode list) \<Rightarrow> unit \<Rightarrow> string \<Rightarrow> lower_exc + lnode list" where
  "outside_node body rec x nid =
     (case by_id body nid of
        None \<Rightarrow> Inr []
      | Some n \<Rightarrow>
          (case ln_node n of
             Guard _ \<Rightarrow> Inr []
           | WorkflowStep _ _ \<Rightarrow> Inr [n]
           | m \<Rightarrow> bindE (mapE (rec ()) (node_children m)) (\<lambda>xs. Inr (concat xs))))"

interpretation outside: body_walk body "\<lambda>k (_ :: unit). steps_outside_guards k body" "outside_node body" for body
proof
  fix k x nid show "steps_outside_guards (Suc k) body nid = outside_node body (\<lambda>_. steps_outside_guards k body) x nid"
    by (simp add: outside_node_def)
next
  fix nid and v u :: "unit \<Rightarrow> string \<Rightarrow> lower_exc + lnode list" and x
  assume h: "\<And>n b c. by_id body nid = Some n \<Longrightarrow> c \<in> set (node_children (ln_node n)) \<Longrightarrow> v b c = u b c"
  show "outside_node body v x nid = outside_node body u x nid"
  proof (cases "by_id body nid")
    case (Some n)
    have "mapE (v ()) (node_children (ln_node n)) = mapE (u ()) (node_children (ln_node n))" by (rule mapE_same) (rule h[OF Some])
    with Some show ?thesis by (cases "ln_node n") (simp_all add: outside_node_def)
  qed (simp add: outside_node_def)
qed

definition visit_one :: "doc_scope \<Rightarrow> lnode list \<Rightarrow> (string \<times> owner) list \<Rightarrow> (bool \<times> walk \<Rightarrow> string \<Rightarrow> lower_exc + walk) \<Rightarrow>
    bool \<times> walk \<Rightarrow> string \<Rightarrow> lower_exc + walk" where
  "visit_one sc body om rec gw nid =
     (case gw of (guarded, w) \<Rightarrow>
      case by_id body nid of
        None \<Rightarrow> Inr w
      | Some n \<Rightarrow>
          (case ln_node n of
             Guard g \<Rightarrow>
               bindE (check_guard sc g) (\<lambda>g'.
                 foldE (\<lambda>c w. rec (True, w) c) (gn_children g) (change_node (n\<lparr>ln_node := Guard g'\<rparr>) w))
           | WorkflowStep _ cs \<Rightarrow>
               foldE (\<lambda>c w. case by_id body c of None \<Rightarrow> Inr w | Some m \<Rightarrow> walk_effect sc om guarded m w) cs w
           | m \<Rightarrow> foldE (\<lambda>c w. rec (guarded, w) c) (node_children m) w))"

interpretation visited: body_walk body "\<lambda>k (guarded, w) nid. visit k sc body om guarded nid w" "visit_one sc body om" for body sc om
proof
  fix k nid and gw :: "bool \<times> walk"
  show "(case gw of (guarded, w) \<Rightarrow> \<lambda>nid. visit (Suc k) sc body om guarded nid w) nid =
      visit_one sc body om (\<lambda>(guarded, w) nid. visit k sc body om guarded nid w) gw nid"
    by (cases gw, cases "by_id body nid") (simp_all add: visit_one_def split: node.split)
next
  fix nid and v u :: "bool \<times> walk \<Rightarrow> string \<Rightarrow> lower_exc + walk" and gw
  assume h: "\<And>n b c. by_id body nid = Some n \<Longrightarrow> c \<in> set (node_children (ln_node n)) \<Longrightarrow> v b c = u b c"
  show "visit_one sc body om v gw nid = visit_one sc body om u gw nid"
  proof (cases "by_id body nid")
    case (Some n)
    have "foldE (\<lambda>c w. v (g, w) c) (node_children (ln_node n)) x = foldE (\<lambda>c w. u (g, w) c) (node_children (ln_node n)) x" for g x
      by (rule foldE_same) (rule h[OF Some])
    with Some show ?thesis by (cases gw, cases "ln_node n") (simp_all add: visit_one_def)
  qed (simp add: visit_one_def split: prod.split)
qed

end
