(* ===== verification/CompileProps.thy ===== *)
theory CompileProps
  imports LowerProps BodyDepth
begin

text \<open>
  What compiling guarantees of a document, stated on the document: it is well-formed and runs as such, its
  bodies are forests, rejections are guarded, parallel steps write different entities, cached rows are not
  written, and the recursion limits of the checks decide nothing.
\<close>

section \<open>Bodies in the document\<close>

lemma compiled_parts:
  assumes "compile_sources lib paths name = Inr m"
  obtains de where "bodies de (lm_nodes m)" and "balanced (lm_nodes m)" and "distinct (ids (lm_nodes m))"
    and "document_ok (doc_of (lm_nodes m))" and "to_document m = doc_of (lm_nodes m)"
proof -
  from compile_lowers[OF assms] obtain ds where l: "lower lib ds name = Inr m" "list_all decl_guards_ok ds" .
  from lower_bodies[OF this] obtain de where de: "bodies de (lm_nodes m)" "balanced (lm_nodes m)" .
  have ok: "document_ok (doc_of (lm_nodes m))" using lower_document_ok[OF l] by (simp add: to_document_doc_of)
  then have "distinct (ids (lm_nodes m))" by (simp add: document_ok_def doc_of_def comp_def)
  with de ok that show ?thesis by (simp add: to_document_doc_of)
qed

lemma mem_doc_of: "(i, n) \<in> set (doc_of ns) \<longleftrightarrow> (\<exists>k \<in> set ns. ln_id k = i \<and> ln_node k = n)"
  by (auto simp: doc_of_def)

lemma node_of_doc_of:
  assumes "document_ok (doc_of ns)" and "k \<in> set ns" shows "node_of (doc_of ns) (ln_id k) = Some (ln_node k)"
  using assms node_of_mem mem_doc_of by blast

lemma node_of_eq:
  assumes "document_ok (doc_of ns)" and "k \<in> set ns" and "node_of (doc_of ns) (ln_id k) = Some n" shows "n = ln_node k"
  using node_of_doc_of[OF assms(1,2)] assms(3) by simp

lemma body_forest: "body_of de ns w body \<Longrightarrow> forest body (node_children (ln_node w))"
  by (auto simp: body_of_def checked_body_def)

lemma body_top: "body_of de ns w body \<Longrightarrow> c \<in> set (node_children (ln_node w)) \<Longrightarrow> c \<in> set (ids body)"
  using forest_owners(4)[OF body_forest] by blast

lemma body_child:
  assumes "body_of de ns w body" and "n \<in> set body" and "c \<in> set (node_children (ln_node n))"
  shows "c \<in> set (ids body)"
  using forest_owners(4)[OF body_forest[OF assms(1)]] assms(2,3) by auto

lemma body_by_id: "body_of de ns w body \<Longrightarrow> n \<in> set body \<Longrightarrow> by_id body (ln_id n) = Some n"
  using body_forest by (intro by_id_distinct) (auto simp: forest_def)

text \<open>What is reached from a node through nodes of a kind.\<close>

inductive reached :: "document \<Rightarrow> (node \<Rightarrow> bool) \<Rightarrow> string \<Rightarrow> string \<Rightarrow> bool" for doc P i where
  itself: "reached doc P i i"
| child: "reached doc P i j \<Longrightarrow> node_of doc j = Some n \<Longrightarrow> P n \<Longrightarrow> c \<in> set (node_children n) \<Longrightarrow> reached doc P i c"

text \<open>Everything under a workflow is in its body.\<close>

lemma reached_body:
  assumes "reached (doc_of ns) P (ln_id w) c" and "document_ok (doc_of ns)" and "body_of de ns w body" and "w \<in> set ns"
  shows "c = ln_id w \<or> (\<exists>n \<in> set body. ln_id n = c)"
  using assms(1)
proof (induction rule: reached.induct)
  case (child j n c)
  have sub: "set body \<subseteq> set ns" using assms(3) by (simp add: body_of_def)
  from child.IH show ?case
  proof
    assume "j = ln_id w"
    with child.hyps(2) node_of_eq[OF assms(2,4)] have "n = ln_node w" by blast
    with body_top[OF assms(3)] child.hyps(4) show ?thesis by auto
  next
    assume "\<exists>n \<in> set body. ln_id n = j"
    then obtain k where k: "k \<in> set body" "ln_id k = j" by blast
    with child.hyps(2) node_of_eq[OF assms(2), of k] sub have "n = ln_node k" by blast
    with body_child[OF assms(3) k(1)] child.hyps(4) show ?thesis by auto
  qed
qed simp

section \<open>One owner\<close>

lemma children_owner:
  assumes "document_ok (doc_of ns)" and "k \<in> set ns" and "c \<in> set (node_children (ln_node k))"
  shows "is_own (ln_node k) \<or> is_workflow (ln_node k) \<or> finds (doc_of ns) is_service_child c"
proof -
  have "node_ok (doc_of ns) (ln_node k)" using assms(1,2) by (auto simp: document_ok_def doc_of_def list_all_iff)
  with assms(3) show ?thesis by (cases "ln_node k") (auto simp: is_own_def node_ok_def list_all_iff)
qed

lemma owned_once:
  assumes "document_ok (doc_of ns)" and "balanced ns" and "n \<in> set ns" and "is_own (ln_node n)"
  shows "\<exists>!p. \<exists>k. (p, k) \<in> set (doc_of ns) \<and> ln_id n \<in> set (node_children k)"
proof -
  let ?own = "filter (\<lambda>n. is_own (ln_node n)) ns" and ?all = "filter (\<lambda>n. is_own (ln_node n) \<or> is_workflow (ln_node n)) ns"
  have d: "distinct (ids ns)" using assms(1) by (simp add: document_ok_def doc_of_def comp_def)
  have eq: "mset (ids ?own) = mset (PlanForest.owned ?all)" using assms(2) by (simp add: balanced_def)
  have "distinct (ids ?own)" using d by (rule distinct_map_filter)
  with eq have distinct: "distinct (PlanForest.owned ?all)" by (metis mset_eq_imp_distinct_iff)
  have "ln_id n \<in> set (ids ?own)" using assms(3,4) by simp
  with eq have "ln_id n \<in> set (PlanForest.owned ?all)" by (metis mset_eq_setD)
  then obtain k where k: "k \<in> set ?all" "ln_id n \<in> set (node_children (ln_node k))" by auto
  show ?thesis
  proof (rule ex1I[of _ "ln_id k"])
    show "\<exists>v. (ln_id k, v) \<in> set (doc_of ns) \<and> ln_id n \<in> set (node_children v)" using k by (auto simp: mem_doc_of)
    fix p assume "\<exists>v. (p, v) \<in> set (doc_of ns) \<and> ln_id n \<in> set (node_children v)"
    then obtain k' where k': "k' \<in> set ns" "p = ln_id k'" "ln_id n \<in> set (node_children (ln_node k'))" by (auto simp: mem_doc_of)
    from children_owner[OF assms(1) k'(1,3)] have "k' \<in> set ?all"
    proof (elim disjE)
      assume "finds (doc_of ns) is_service_child (ln_id n)"
      from finds_node[OF assms(1) this] node_of_doc_of[OF assms(1,3)] have "is_service_child (ln_node n)" by auto
      with assms(4) show ?thesis by (cases "ln_node n") (auto simp: is_own_def is_service_child_def)
    qed (use k'(1) in simp_all)
    from distinct_concat_owner[OF distinct this k(1) k'(3) k(2)] k'(2) show "p = ln_id k" by simp
  qed
qed

section \<open>Parallel writers\<close>

definition write_calls :: "document \<Rightarrow> string \<Rightarrow> string \<Rightarrow> bool" where
  "write_calls doc i e \<longleftrightarrow> (\<exists>nm cs c rc. node_of doc i = Some (WorkflowStep nm cs) \<and> c \<in> set cs \<and>
     node_of doc c = Some (Effect (RepositoryCall rc)) \<and> rc_operation rc \<in> set write_ops \<and> rc_entity rc = e)"

lemma first_repeated_None: "first_repeated xs = None \<Longrightarrow> distinct xs"
  by (induction xs) (auto split: if_splits)

lemma body_node:
  assumes "document_ok (doc_of ns)" and "body_of de ns w body" and "i \<in> set (ids body)" and "node_of (doc_of ns) i = Some n"
  shows "\<exists>k \<in> set body. ln_id k = i \<and> ln_node k = n \<and> by_id body i = Some k"
proof -
  from assms(3) obtain k where k: "k \<in> set body" "ln_id k = i" by auto
  moreover have "k \<in> set ns" using assms(2) k(1) by (auto simp: body_of_def)
  ultimately show ?thesis using node_of_eq[OF assms(1), of k n] assms(4) body_by_id[OF assms(2)] by auto
qed

text \<open>What the check counts for a step is what the step writes.\<close>

lemma write_calls_writer:
  assumes "document_ok (doc_of ns)" and "body_of de ns w body" and "i \<in> set (ids body)" and "write_calls (doc_of ns) i e"
  shows "e \<in> set (case by_id body i of None \<Rightarrow> [] | Some n \<Rightarrow> (case ln_node n of
     WorkflowStep _ _ \<Rightarrow> (case written_entity body n of None \<Rightarrow> [] | Some e \<Rightarrow> [e]) | _ \<Rightarrow> []))"
proof -
  from assms(4) obtain nm cs c rc where s: "node_of (doc_of ns) i = Some (WorkflowStep nm cs)" "c \<in> set cs"
    "node_of (doc_of ns) c = Some (Effect (RepositoryCall rc))" "rc_operation rc \<in> set write_ops" "rc_entity rc = e"
    by (auto simp: write_calls_def)
  from body_node[OF assms(1-3) s(1)] obtain k where k: "k \<in> set body" "ln_node k = WorkflowStep nm cs" "by_id body i = Some k" by blast
  from node_of_ok[OF assms(1) s(1)] s(2) have cs: "cs = [c]" by (cases cs) (auto simp: node_ok_def)
  from body_child[OF assms(2) k(1)] k(2) s(2) have "c \<in> set (ids body)" by simp
  from body_node[OF assms(1,2) this s(3)] obtain r where "ln_node r = Effect (RepositoryCall rc)" "by_id body c = Some r" by blast
  with s(4,5) have "written_entity body k = Some e" by (simp add: written_entity_def children_of_def k(2) cs)
  with k show ?thesis by simp
qed

lemma parallel_apart:
  assumes "document_ok (doc_of ns)" and "bodies de ns" and "(b, Concurrency cs) \<in> set (doc_of ns)"
    and "i \<in> set cs" and "j \<in> set cs" and "write_calls (doc_of ns) i e" and "write_calls (doc_of ns) j e"
  shows "i = j"
proof -
  from assms(3) obtain n where n: "n \<in> set ns" "ln_node n = Concurrency cs" by (auto simp: mem_doc_of)
  with assms(2) obtain w body where w: "body_of de ns w body" "n \<in> set body" by (fastforce simp: bodies_def is_own_def)
  then obtain name where "check_parallel_write_conflict body name = Inr ()" by (auto simp: body_of_def checked_body_def)
  from eachE_Inr[OF this[unfolded check_parallel_write_conflict_def] w(2)] n(2) have "distinct (block_writers body cs)"
    by (auto split: option.splits intro: first_repeated_None)
  note d = this[unfolded block_writers_def]
  have "i \<in> set (ids body)" "j \<in> set (ids body)" using body_child[OF w] n(2) assms(4,5) by simp_all
  with write_calls_writer[OF assms(1) w(1)] assms(6,7) show "i = j"
    by (intro distinct_concat_owner[OF d assms(4,5), of e]) blast+
qed

section \<open>Cached rows\<close>

lemma cached_unwritten:
  assumes "document_ok (doc_of ns)" and "body_of de ns w body" and "w \<in> set ns"
    and "reached (doc_of ns) P (ln_id w) a" and "node_of (doc_of ns) a = Some (Effect (RepositoryCall ca))" and "rc_cached ca"
    and "reached (doc_of ns) Q (ln_id w) b" and "node_of (doc_of ns) b = Some (Effect (RepositoryCall cb))"
    and "rc_entity cb = rc_entity ca" and "is_workflow (ln_node w)"
  shows "rc_operation cb \<notin> {''update'', ''delete''}"
proof -
  have "node_of (doc_of ns) (ln_id w) = Some (ln_node w)" by (rule node_of_doc_of[OF assms(1,3)])
  with assms(5,8,10) have "a \<noteq> ln_id w" "b \<noteq> ln_id w" by auto
  with reached_body[OF assms(4,1-3)] reached_body[OF assms(7,1-3)] have "a \<in> set (ids body)" "b \<in> set (ids body)" by auto
  from body_node[OF assms(1,2) this(1) assms(5)] body_node[OF assms(1,2) this(2) assms(8)] obtain k l where
    k: "k \<in> set body" "ln_node k = Effect (RepositoryCall ca)" and l: "l \<in> set body" "ln_node l = Effect (RepositoryCall cb)" by blast
  have "(k, ca) \<in> set (repo_calls body)" using k by (force simp: repo_calls_def)
  with assms(6) have c: "rc_entity ca \<in> set (cached_entities body)" by (force simp: cached_entities_def)
  from assms(2) obtain name where "check_cached_read_not_written body (de_registry de) name = Inr ()"
    by (auto simp: body_of_def checked_body_def)
  from eachE_Inr[OF this[unfolded check_cached_read_not_written_def Let_def] l(1)] l(2) c assms(9)
  show ?thesis by (auto simp: entity_key_def writes_through_def)
qed

section \<open>Rejections\<close>

text \<open>The guard that owns a node of a body, as the check computes it, by rules.\<close>

inductive owned_as :: "lnode list \<Rightarrow> string list \<Rightarrow> string \<Rightarrow> owner \<Rightarrow> bool" for body top_ids where
  at_top: "i \<in> set top_ids \<Longrightarrow> owned_as body top_ids i (None, False)"
| by_guard: "owned_as body top_ids j ow \<Longrightarrow> by_id body j = Some n \<Longrightarrow> ln_node n = Guard g \<Longrightarrow>
    (x, c) \<in> set (enumerate 0 (take 2 (gn_children g))) \<Longrightarrow> owned_as body top_ids c (Some g, x = 1)"
| by_other: "owned_as body top_ids j ow \<Longrightarrow> by_id body j = Some n \<Longrightarrow> (\<And>g. ln_node n \<noteq> Guard g) \<Longrightarrow>
    c \<in> set (node_children (ln_node n)) \<Longrightarrow> owned_as body top_ids c ow"

lemma enumerate_mem: "(x, c) \<in> set (enumerate 0 xs) \<Longrightarrow> c \<in> set xs"
  by (auto simp: in_set_enumerate_eq)

lemma enumerate_has: "c \<in> set xs \<Longrightarrow> \<exists>x. (x, c) \<in> set (enumerate 0 xs)"
proof -
  assume "c \<in> set xs"
  then obtain i where "i < length xs" "xs ! i = c" unfolding in_set_conv_nth by blast
  then have "(i, c) \<in> set (enumerate 0 xs)" by (simp add: in_set_enumerate_eq)
  then show ?thesis ..
qed

lemma enumerate_fun: "distinct xs \<Longrightarrow> (x, c) \<in> set (enumerate 0 xs) \<Longrightarrow> (y, c) \<in> set (enumerate 0 xs) \<Longrightarrow> x = y"
proof -
  assume d: "distinct xs" and "(x, c) \<in> set (enumerate 0 xs)" "(y, c) \<in> set (enumerate 0 xs)"
  then have "x < length xs" "xs ! x = c" "y < length xs" "xs ! y = c" by (simp_all add: in_set_enumerate_eq)
  with nth_eq_iff_index_eq[OF d, of x y] show "x = y" by simp
qed

lemma owned_child: "forest body top_ids \<Longrightarrow> n \<in> set body \<Longrightarrow> c \<in> set (node_children (ln_node n)) \<Longrightarrow> c \<notin> set top_ids"
  using forest_owners(3) by fastforce

lemma owned_as_unique:
  assumes "forest body top_ids" shows "owned_as body top_ids c o1 \<Longrightarrow> owned_as body top_ids c o2 \<Longrightarrow> o1 = o2"
proof (induction arbitrary: o2 rule: owned_as.induct)
  case (at_top i)
  from at_top.prems show ?case
  proof cases
    case (by_guard j ow n g x)
    then have "i \<in> set (gn_children g)" by (auto dest: enumerate_mem in_set_takeD)
    with owned_child[OF assms] by_id_mem by_guard at_top.hyps show ?thesis by fastforce
  next
    case (by_other j n)
    with owned_child[OF assms] by_id_mem at_top.hyps show ?thesis by fastforce
  qed simp
next
  case (by_guard j ow n g x c)
  have n: "n \<in> set body" "c \<in> set (node_children (ln_node n))"
    using by_guard.hyps by_id_mem by (auto dest: enumerate_mem in_set_takeD)
  from by_guard.prems show ?case
  proof cases
    case at_top
    with owned_child[OF assms n] show ?thesis by simp
  next
    case (by_guard j' ow' n' g' x')
    note h = this
    then have "n' \<in> set body" "c \<in> set (node_children (ln_node n'))" using by_id_mem by (auto dest: enumerate_mem in_set_takeD)
    with forest_owner[OF assms n(1) this(1) n(2) this(2)] have "n' = n" by simp
    with h by_guard.hyps(3) have g: "g' = g" by simp
    have "distinct (gn_children g)" using forest_child_distinct[OF assms n(1)] by_guard.hyps(3) by simp
    then have "distinct (take 2 (gn_children g))" by simp
    from enumerate_fun[OF this by_guard.hyps(4)] h g show ?thesis by simp
  next
    case (by_other j' n')
    then have "n' \<in> set body" "c \<in> set (node_children (ln_node n'))" using by_id_mem by auto
    with forest_owner[OF assms n(1) this(1) n(2) this(2)] by_other by_guard.hyps(3) show ?thesis by simp
  qed
next
  case (by_other j ow n c)
  have n: "n \<in> set body" using by_other.hyps by_id_mem by blast
  from by_other.prems show ?case
  proof cases
    case at_top
    with owned_child[OF assms n by_other.hyps(4)] show ?thesis by simp
  next
    case (by_guard j' ow' n' g' x')
    then have "n' \<in> set body" "c \<in> set (node_children (ln_node n'))" using by_id_mem by (auto dest: enumerate_mem in_set_takeD)
    with forest_owner[OF assms n this(1) by_other.hyps(4) this(2)] by_guard have "ln_node n = Guard g'" by simp
    with by_other.hyps(3) show ?thesis by blast
  next
    case (by_other j' n')
    note h = this
    then have "n' \<in> set body" using by_id_mem by auto
    with forest_owner[OF assms n this by_other.hyps(4) h(4)] have "n' = n" by simp
    with h by_other.hyps(2) by_id_mem have "j' = j" by metis
    with h by_other.IH show ?thesis by blast
  qed
qed

lemma owner_walk_owned:
  "owner_walk k body ow j = Inr r \<Longrightarrow> owned_as body top_ids j ow \<Longrightarrow> (c, o') \<in> set r \<Longrightarrow> owned_as body top_ids c o'"
proof (induction k arbitrary: ow j r c o')
  case (Suc k)
  show ?case
  proof (cases "by_id body j")
    case (Some n)
    note j = Some
    show ?thesis
    proof (cases "(c, o') = (j, ow)")
      case False
      show ?thesis
      proof (cases "\<exists>g. ln_node n = Guard g")
        case True
        then obtain g where g: "ln_node n = Guard g" by blast
        with Suc.prems(1) j obtain subs where
          "mapE (\<lambda>(i, c). owner_walk k body (Some g, i = 1) c) (enumerate 0 (take 2 (gn_children g))) = Inr subs" "r = (j, ow) # concat subs"
          by (auto simp: bindE_iffs)
        moreover from this(2) Suc.prems(3) False obtain s where "s \<in> set subs" "(c, o') \<in> set s" by auto
        moreover from mapE_mem[OF calculation(1,3)] obtain p where
          "p \<in> set (enumerate 0 (take 2 (gn_children g)))" "(case p of (i, c) \<Rightarrow> owner_walk k body (Some g, i = 1) c) = Inr s" by blast
        ultimately show ?thesis
          using Suc.IH owned_as.by_guard[OF Suc.prems(2) j g] by (cases p) fastforce
      next
        case False
        with Suc.prems(1) j obtain subs where
          "mapE (owner_walk k body ow) (node_children (ln_node n)) = Inr subs" "r = (j, ow) # concat subs"
          by (cases "ln_node n") (auto simp: bindE_iffs)
        moreover from this(2) Suc.prems(3) \<open>(c, o') \<noteq> (j, ow)\<close> obtain s where "s \<in> set subs" "(c, o') \<in> set s" by auto
        moreover from mapE_mem[OF calculation(1,3)] obtain d where
          "d \<in> set (node_children (ln_node n))" "owner_walk k body ow d = Inr s" by blast
        ultimately show ?thesis using Suc.IH owned_as.by_other[OF Suc.prems(2) j] False by blast
      qed
    qed (use Suc.prems in simp)
  qed (use Suc.prems in simp)
qed simp


text \<open>The walk covers what it enters: a child that is a node of the body is listed too.\<close>

lemma owner_walk_self: "owner_walk k body ow j = Inr r \<Longrightarrow> by_id body j = Some n \<Longrightarrow> (j, ow) \<in> set r"
  by (cases k) (auto simp: bindE_iffs)

lemma owner_walk_child:
  "owner_walk k body ow j = Inr r \<Longrightarrow> (i, o') \<in> set r \<Longrightarrow> by_id body i = Some n \<Longrightarrow>
     c \<in> set (case ln_node n of Guard g \<Rightarrow> take 2 (gn_children g) | m \<Rightarrow> node_children m) \<Longrightarrow> by_id body c = Some m \<Longrightarrow>
     \<exists>o''. (c, o'') \<in> set r"
proof (induction k arbitrary: ow j r)
  case (Suc k)
  show ?case
  proof (cases "by_id body j")
    case (Some nj)
    note j = Some
    show ?thesis
    proof (cases "\<exists>g. ln_node nj = Guard g")
      case True
      then obtain g where g: "ln_node nj = Guard g" by blast
      with Suc.prems(1) j obtain subs where
        subs: "mapE (\<lambda>(i, c). owner_walk k body (Some g, i = 1) c) (enumerate 0 (take 2 (gn_children g))) = Inr subs" "r = (j, ow) # concat subs"
        by (auto simp: bindE_iffs)
      show ?thesis
      proof (cases "(i, o') = (j, ow)")
        case True
        with j Suc.prems(3,4) g have "c \<in> set (take 2 (gn_children g))" by simp
        from enumerate_has[OF this] obtain x where "(x, c) \<in> set (enumerate 0 (take 2 (gn_children g)))" ..
        from mapE_image[OF subs(1) this] obtain s where "owner_walk k body (Some g, x = 1) c = Inr s" "s \<in> set subs" by auto
        with owner_walk_self[OF this(1) Suc.prems(5)] subs(2) show ?thesis by auto
      next
        case False
        with subs(2) Suc.prems(2) obtain s where s: "s \<in> set subs" "(i, o') \<in> set s" by auto
        from mapE_mem[OF subs(1) s(1)] obtain p where
          "p \<in> set (enumerate 0 (take 2 (gn_children g)))" "(case p of (i, c) \<Rightarrow> owner_walk k body (Some g, i = 1) c) = Inr s" by blast
        moreover obtain x d where "p = (x, d)" by (cases p)
        ultimately have "owner_walk k body (Some g, x = 1) d = Inr s" by simp
        from Suc.IH[OF this s(2) Suc.prems(3-5)] obtain o'' where "(c, o'') \<in> set s" ..
        with s(1) subs(2) have "(c, o'') \<in> set r" by auto
        then show ?thesis ..
      qed
    next
      case False
      with Suc.prems(1) j obtain subs where
        subs: "mapE (owner_walk k body ow) (node_children (ln_node nj)) = Inr subs" "r = (j, ow) # concat subs"
        by (cases "ln_node nj") (auto simp: bindE_iffs)
      show ?thesis
      proof (cases "(i, o') = (j, ow)")
        case True
        with j Suc.prems(3,4) False have "c \<in> set (node_children (ln_node nj))" by (cases "ln_node nj") simp_all
        from mapE_image[OF subs(1) this] obtain s where "owner_walk k body ow c = Inr s" "s \<in> set subs" by auto
        with owner_walk_self[OF this(1) Suc.prems(5)] subs(2) have "(c, ow) \<in> set r" by auto
        then show ?thesis ..
      next
        case False
        with subs(2) Suc.prems(2) obtain s where s: "s \<in> set subs" "(i, o') \<in> set s" by auto
        from mapE_mem[OF subs(1) s(1)] obtain d where "owner_walk k body ow d = Inr s" by blast
        from Suc.IH[OF this s(2) Suc.prems(3-5)] obtain o'' where "(c, o'') \<in> set s" ..
        with s(1) subs(2) have "(c, o'') \<in> set r" by auto
        then show ?thesis ..
      qed
    qed
  qed (use Suc.prems in simp)
qed simp

definition conditional :: "node \<Rightarrow> bool" where
  "conditional n \<longleftrightarrow> (case n of Guard g \<Rightarrow> gn_mode g \<noteq> ''repeat'' | _ \<Rightarrow> False)"

text \<open>What no \<open>when\<close> or \<open>until\<close> is above has an owner, if any, that cannot skip it.\<close>

lemma reached_owner:
  assumes ok: "document_ok (doc_of ns)" and w: "body_of de ns w body" "w \<in> set ns"
    and om: "guard_owner_map body (node_children (ln_node w)) = Inr om"
    and "reached (doc_of ns) (\<lambda>n. \<not> conditional n) (ln_id w) c"
  shows "c = ln_id w \<or> (\<exists>ow. owned_as body (node_children (ln_node w)) c ow \<and> \<not> conditional_owner (Some ow) \<and> c \<in> fst ` set om)"
  using assms(5)
proof (induction rule: reached.induct)
  case (child j n c)
  let ?top = "node_children (ln_node w)"
  from om obtain ws where ws: "mapE (owner_walk body_depth body (None, False)) ?top = Inr ws" "om = concat ws"
    by (auto simp: guard_owner_map_def bindE_iffs)
  show ?case
  proof (cases "j = ln_id w")
    case True
    with child.hyps(2) node_of_eq[OF ok w(2)] have "n = ln_node w" by blast
    with child.hyps(4) have c: "c \<in> set ?top" by simp
    then have "c \<in> set (ids body)" by (rule body_top[OF w(1)])
    then obtain m where m: "by_id body c = Some m" using body_by_id[OF w(1)] by auto
    from mapE_image[OF ws(1) c] obtain r where "owner_walk body_depth body (None, False) c = Inr r" "r \<in> set ws" by auto
    with owner_walk_self[OF this(1) m] ws(2) have "c \<in> fst ` set om" by force
    moreover have "owned_as body ?top c (None, False)" using c by (rule owned_as.at_top)
    ultimately show ?thesis by (auto simp: conditional_owner_def)
  next
    case False
    with child.IH obtain ow where ow: "owned_as body ?top j ow" "\<not> conditional_owner (Some ow)" "j \<in> fst ` set om" by blast
    from reached_body[OF child.hyps(1) ok w] False have "j \<in> set (ids body)" by auto
    from body_node[OF ok w(1) this child.hyps(2)] obtain k where k: "k \<in> set body" "ln_node k = n" "by_id body j = Some k" by blast
    have "c \<in> set (ids body)" using body_child[OF w(1) k(1)] k(2) child.hyps(4) by simp
    then obtain m where m: "by_id body c = Some m" using body_by_id[OF w(1)] by auto
    have two: "take 2 (gn_children g) = gn_children g \<and> gn_mode g = ''repeat''" if "n = Guard g" for g
      using node_of_ok[OF ok child.hyps(2)] child.hyps(3) that by (auto simp: node_ok_def guard_fits_def conditional_def)
    have "c \<in> set (case ln_node k of Guard g \<Rightarrow> take 2 (gn_children g) | m \<Rightarrow> node_children m)"
      using child.hyps(4) two k(2) by (cases n) auto
    moreover from ow(3) ws(2) obtain r o' where r: "r \<in> set ws" "(j, o') \<in> set r" by auto
    moreover from mapE_mem[OF ws(1) r(1)] obtain d where "owner_walk body_depth body (None, False) d = Inr r" by blast
    ultimately obtain o'' where "(c, o'') \<in> set r" using owner_walk_child k(3) m by blast
    with r(1) ws(2) have listed: "c \<in> fst ` set om" by force
    have "\<exists>ow'. owned_as body ?top c ow' \<and> \<not> conditional_owner (Some ow')"
    proof (cases "\<exists>g. n = Guard g")
      case True
      then obtain g where g: "n = Guard g" by blast
      with child.hyps(4) two have "c \<in> set (take 2 (gn_children g))" by simp
      from enumerate_has[OF this] obtain x where "(x, c) \<in> set (enumerate 0 (take 2 (gn_children g)))" ..
      from owned_as.by_guard[OF ow(1) k(3) _ this] k(2) g two[OF g] show ?thesis
        by (auto simp: conditional_owner_def)
    next
      case False
      with owned_as.by_other[OF ow(1) k(3)] k(2) child.hyps(4) ow(2) show ?thesis by blast
    qed
    with listed show ?thesis by blast
  qed
qed simp

lemma unguarded_no_rejection:
  assumes ok: "document_ok (doc_of ns)" and w: "body_of de ns w body" "w \<in> set ns" "is_workflow (ln_node w)"
    and r: "reached (doc_of ns) (\<lambda>n. \<not> conditional n) (ln_id w) c"
  shows "node_of (doc_of ns) c \<noteq> Some (Effect (Rejection code))"
proof
  let ?top = "node_children (ln_node w)"
  assume n: "node_of (doc_of ns) c = Some (Effect (Rejection code))"
  from w(1) obtain name where "check_fail_is_guarded body ?top name = Inr ()" by (auto simp: body_of_def checked_body_def)
  then obtain om where om: "guard_owner_map body ?top = Inr om" and each: "eachE (\<lambda>n. case rejection_code n of
      None \<Rightarrow> Inr ()
    | Some c \<Rightarrow> if conditional_owner (owner_of om (ln_id n)) then Inr () else workflow_bad name (UnguardedFail c)) body = Inr ()"
    by (auto simp: check_fail_is_guarded_def bindE_iffs)
  have "node_of (doc_of ns) (ln_id w) = Some (ln_node w)" by (rule node_of_doc_of[OF ok w(2)])
  with n w(3) have "c \<noteq> ln_id w" by auto
  with reached_owner[OF ok w(1,2) om r] obtain ow where
    ow: "owned_as body ?top c ow" "\<not> conditional_owner (Some ow)" "c \<in> fst ` set om" by blast
  from reached_body[OF r ok w(1,2)] \<open>c \<noteq> ln_id w\<close> have "c \<in> set (ids body)" by auto
  from body_node[OF ok w(1) this n] obtain k where k: "k \<in> set body" "ln_id k = c" "ln_node k = Effect (Rejection code)" by blast
  from eachE_Inr[OF each k(1)] k(2,3) have cond: "conditional_owner (owner_of om c)"
    by (auto simp: rejection_code_def split: if_splits)
  from om obtain ws where ws: "mapE (owner_walk body_depth body (None, False)) ?top = Inr ws" "om = concat ws"
    by (auto simp: guard_owner_map_def bindE_iffs)
  from ow(3) have "map_of (rev om) c \<noteq> None" by (simp add: map_of_eq_None_iff)
  then obtain o' where o': "owner_of om c = Some o'" by (auto simp: owner_of_def)
  then have "(c, o') \<in> set om" unfolding owner_of_def by (metis map_of_SomeD set_rev)
  with ws(2) obtain s where s: "s \<in> set ws" "(c, o') \<in> set s" by auto
  from mapE_mem[OF ws(1) s(1)] obtain j where "j \<in> set ?top" "owner_walk body_depth body (None, False) j = Inr s" by blast
  from owner_walk_owned[OF this(2) owned_as.at_top[OF this(1)] s(2)] have "owned_as body ?top c o'" .
  with owned_as_unique[OF body_forest[OF w(1)] ow(1)] have "o' = ow" by blast
  with cond o' ow(2) show False by simp
qed

section \<open>A planned body\<close>

definition bare_env :: doc_env where
  "bare_env = \<lparr>de_registry = [], de_bases = [], de_caps = [], de_enums = [], de_events = [], de_sources = [],
     de_rollback = [], de_budget = []\<rparr>"

definition ponder_decl :: "sourced option" where
  "ponder_decl = (case parse (join [CHR 0x0A] [''workflow C'', ''    ponder'']) of
     Inr [d] \<Rightarrow> Some (place_decl (plain_file ''s'' (File [])) d) | _ \<Rightarrow> None)"

lemma ponder_plans:
  "case ponder_decl of None \<Rightarrow> False | Some d \<Rightarrow>
     (case plan_workflow bare_env d None of Inl _ \<Rightarrow> False
      | Inr (top_ids, cx) \<Rightarrow> top_ids = [''wf.c.step.1''] \<and> distinct (map ln_id (wx_emitted cx)))"
  by code_simp

lemma ponder_guards: "ponder_decl = Some d \<Longrightarrow> list_all item_guard_ok (items (d_body d))"
proof -
  assume "ponder_decl = Some d"
  then obtain d' where "parse (join [CHR 0x0A] [''workflow C'', ''    ponder'']) = Inr [d']"
    and d: "d = place_decl (plain_file ''s'' (File [])) d'"
    by (auto simp: ponder_decl_def split: sum.splits list.splits)
  from parse_guards[OF this(1)] show ?thesis by (simp add: d guards_closed_def place_decl_def decl.extend_def)
qed

section \<open>Properties\<close>

text \<open>
  C2: Whatever sources compile, the document is well-formed: ids are distinct; every child exists and is of
  the kind its parent may have; every guard has a mode the runtime knows, a condition that parses, at most
  two children, and text operands for all of its conditions or none; every constraint a service names and
  every event a step emits is declared.
\<close>

theorem compiled_well_formed:
  assumes "compile_sources lib paths name = Inr m"
  shows "well_formed (to_document m)"
  using assms by (rule compile_well_formed)

theorem compiled_well_formed_witness:
  "\<exists>m. compile_one refuse_source = Inr m \<and> to_document m = refuse_document \<and> well_formed (to_document m)"
  using compiles_toE[OF refuse_compiles] compiled_well_formed by metis



text \<open>
  C25: The body nodes of a compiled document form a forest: each step, block, guard and effect is a child of
  exactly one node, and nothing the planner emitted is left out.
\<close>

theorem compiled_body_owned_once:
  assumes "compile_sources lib paths name = Inr m" and "(c, n) \<in> set (to_document m)" and "is_own n"
  shows "\<exists>!p. \<exists>k. (p, k) \<in> set (to_document m) \<and> c \<in> set (node_children k)"
proof -
  from compiled_parts[OF assms(1)] obtain de where m: "balanced (lm_nodes m)" "document_ok (doc_of (lm_nodes m))"
    "to_document m = doc_of (lm_nodes m)" .
  from assms(2) m(3) obtain k where "k \<in> set (lm_nodes m)" "ln_id k = c" "ln_node k = n" by (auto simp: mem_doc_of)
  with owned_once[OF m(2,1), of k] assms(3) show ?thesis unfolding m(3) by simp
qed

theorem compiled_body_owned_once_witness:
  "\<exists>!p. \<exists>k. (p, k) \<in> set pair_document \<and> ''wf.c.step.2'' \<in> set (node_children k)"
proof -
  from compiles_toE[OF pair_compiles] obtain m where m: "compile_one pair_source = Inr m" "to_document m = pair_document" .
  from compiled_body_owned_once[OF m(1), of "''wf.c.step.2''" "WorkflowStep ''create o'' [''wf.c.step.2.repo'']"]
  show ?thesis by (simp add: m(2) is_own_def) (simp add: pair_document_def)
qed

text \<open>
  C26: Two different steps of a parallel block never both have a repository call that creates, updates or
  deletes rows of one entity. Assignments are not such calls: two steps of a block may both \<open>set\<close> fields of one
  row, which the check of the compiler, and with it this theorem, does not count.
\<close>

theorem parallel_steps_write_apart:
  assumes "compile_sources lib paths name = Inr m" and "(b, Concurrency cs) \<in> set (to_document m)"
    and "i \<in> set cs" and "j \<in> set cs" and "i \<noteq> j" and "write_calls (to_document m) i e"
  shows "\<not> write_calls (to_document m) j e"
proof -
  from compiled_parts[OF assms(1)] obtain de where m: "bodies de (lm_nodes m)" "document_ok (doc_of (lm_nodes m))"
    "to_document m = doc_of (lm_nodes m)" .
  from parallel_apart[OF m(2,1)] assms(2-6) show ?thesis unfolding m(3) by blast
qed

theorem parallel_steps_write_apart_witness:
  "\<not> write_calls pair_document ''wf.c.step.2'' ''entity.p''"
proof -
  from compiles_toE[OF pair_compiles] obtain m where m: "compile_one pair_source = Inr m" "to_document m = pair_document" .
  have "write_calls pair_document ''wf.c.step.1'' ''entity.p''"
    by (simp add: write_calls_def pair_document_def node_of_def ex_call_def write_ops_def)
  with parallel_steps_write_apart[OF m(1), of "''wf.c.parallel.1''" "[''wf.c.step.1'', ''wf.c.step.2'']" "''wf.c.step.1''" "''wf.c.step.2''"]
  show ?thesis by (simp add: m(2)) (simp add: pair_document_def)
qed

text \<open>What is not counted: two steps of a block that assign to one row compile.\<close>

definition sets_source :: string where
  "sets_source = join [CHR 0x0A]
     [''entity P'', ''    field'', ''        id UUID'', ''        n Integer'', ''workflow C'', ''    find p'',
      ''    parallel'', ''        set p.n to 1'', ''        set p.n to 2'', ''    merge'']"

definition sets_document :: document where
  "sets_document =
    [(''entity.p'', Entity ''P'' [ex_field ''id'' ''UUID'', ex_field ''n'' ''Integer'']),
     (''wf.c'', Workflow ''C'' [''wf.c.step.1'', ''wf.c.parallel.1'']),
     (''wf.c.step.1'', WorkflowStep ''find p'' [''wf.c.step.1.repo'']),
     (''wf.c.step.1.repo'', Effect (RepositoryCall (ex_call ''entity.p'' ''read'' None))),
     (''wf.c.step.2'', WorkflowStep ''set p.n to 1'' [''wf.c.step.2.assign'']),
     (''wf.c.step.2.assign'', Effect (Assignment ''p.n'' ''1'' None)),
     (''wf.c.step.3'', WorkflowStep ''set p.n to 2'' [''wf.c.step.3.assign'']),
     (''wf.c.step.3.assign'', Effect (Assignment ''p.n'' ''2'' None)),
     (''wf.c.parallel.1'', Concurrency [''wf.c.step.2'', ''wf.c.step.3''])]"

theorem parallel_sets_compile: "compiles_to sets_source sets_document"
  by code_simp

text \<open>
  C40: Every \<open>fail\<close> of a compiled workflow is under a \<open>when\<close> or an \<open>until\<close>: nothing that is reached from the
  workflow through steps, blocks and \<open>repeat\<close> guards alone is a rejection.
\<close>

theorem rejections_are_guarded:
  assumes "compile_sources lib paths name = Inr m" and "(wid, Workflow nm top_ids) \<in> set (to_document m)"
    and "reached (to_document m) (\<lambda>n. \<not> conditional n) wid c"
  shows "node_of (to_document m) c \<noteq> Some (Effect (Rejection code))"
proof -
  from compiled_parts[OF assms(1)] obtain de where m: "bodies de (lm_nodes m)" "document_ok (doc_of (lm_nodes m))"
    "to_document m = doc_of (lm_nodes m)" .
  from assms(2) m(3) obtain w where w: "w \<in> set (lm_nodes m)" "ln_id w = wid" "ln_node w = Workflow nm top_ids" by (auto simp: mem_doc_of)
  with m(1) obtain body where "body_of de (lm_nodes m) w body" by (fastforce simp: bodies_def)
  from unguarded_no_rejection[OF m(2) this w(1)] w assms(3) show ?thesis unfolding m(3) by simp
qed

theorem rejections_are_guarded_witness:
  "\<not> reached refuse_document (\<lambda>n. \<not> conditional n) ''wf.c'' ''wf.c.step.2.reject''"
proof -
  from compiles_toE[OF refuse_compiles] obtain m where m: "compile_one refuse_source = Inr m" "to_document m = refuse_document" .
  have "node_of refuse_document ''wf.c.step.2.reject'' = Some (Effect (Rejection ''no''))" by (simp add: refuse_document_def node_of_def)
  with rejections_are_guarded[OF m(1), of "''wf.c''" "''C''" "[''wf.c.step.1'', ''wf.c.guard.1'']" "''wf.c.step.2.reject''" "''no''"]
  show ?thesis by (auto simp: m(2)) (simp add: refuse_document_def)
qed

text \<open>
  C27: A compiled workflow that reads an entity through the cache neither updates nor deletes that entity, so
  no repository write of a run makes its own cached read stale.
\<close>

theorem cached_rows_not_written:
  assumes "compile_sources lib paths name = Inr m" and "(wid, Workflow nm top_ids) \<in> set (to_document m)"
    and "reached (to_document m) P wid a" and "node_of (to_document m) a = Some (Effect (RepositoryCall ca))" and "rc_cached ca"
    and "reached (to_document m) Q wid b" and "node_of (to_document m) b = Some (Effect (RepositoryCall cb))"
    and "rc_entity cb = rc_entity ca"
  shows "rc_operation cb \<notin> {''update'', ''delete''}"
proof -
  from compiled_parts[OF assms(1)] obtain de where m: "bodies de (lm_nodes m)" "document_ok (doc_of (lm_nodes m))"
    "to_document m = doc_of (lm_nodes m)" .
  from assms(2) m(3) obtain w where w: "w \<in> set (lm_nodes m)" "ln_id w = wid" "ln_node w = Workflow nm top_ids" by (auto simp: mem_doc_of)
  with m(1) obtain body where "body_of de (lm_nodes m) w body" by (fastforce simp: bodies_def)
  note assms(3-8)[unfolded m(3), folded w(2)]
  from cached_unwritten[OF m(2) \<open>body_of de (lm_nodes m) w body\<close> w(1) this] w(3) show ?thesis by simp
qed

theorem cached_rows_not_written_witness:
  "rc_operation (ex_call ''entity.p'' ''read'' None) \<notin> {''update'', ''delete''}"
proof -
  from compiles_toE[OF budget_compiles] obtain m where m: "compile_one budget_source = Inr m" "to_document m = budget_document" .
  have top: "node_of budget_document ''wf.c'' = Some (Workflow ''C'' [''wf.c.step.1'', ''wf.c.step.2''])"
    and one: "node_of budget_document ''wf.c.step.1'' = Some (WorkflowStep ''find p cached'' [''wf.c.step.1.repo''])"
    and two: "node_of budget_document ''wf.c.step.2'' = Some (WorkflowStep ''find p'' [''wf.c.step.2.repo''])"
    and r1: "node_of budget_document ''wf.c.step.1.repo'' = Some (Effect (RepositoryCall ((ex_call ''entity.p'' ''read'' None)\<lparr>rc_cached := True\<rparr>)))"
    and r2: "node_of budget_document ''wf.c.step.2.repo'' = Some (Effect (RepositoryCall (ex_call ''entity.p'' ''read'' None)))"
    and w: "(''wf.c'', Workflow ''C'' [''wf.c.step.1'', ''wf.c.step.2'']) \<in> set budget_document"
    by (simp_all add: budget_document_def node_of_def)
  have "reached budget_document (\<lambda>_. True) ''wf.c'' ''wf.c.step.1''" "reached budget_document (\<lambda>_. True) ''wf.c'' ''wf.c.step.2''"
    by (rule reached.child[OF reached.itself top]; simp)+
  then have "reached budget_document (\<lambda>_. True) ''wf.c'' ''wf.c.step.1.repo''" "reached budget_document (\<lambda>_. True) ''wf.c'' ''wf.c.step.2.repo''"
    using reached.child[OF _ one] reached.child[OF _ two] by simp_all
  from cached_rows_not_written[OF m(1), unfolded m(2), OF w this(1) r1 _ this(2) r2] show ?thesis by (simp add: ex_call_def)
qed

text \<open>
  The recursion limit the checks are given decides nothing: on a planned body with distinct ids the
  owner map, the search for steps outside guards and the walk over the effects of every item answer the
  same under any limit of at least \<open>body_depth\<close>, so none of them ends at the limit.
\<close>

theorem body_depth_enough:
  assumes "plan_workflow de d service = Inr (top_ids, cx)" and "list_all item_guard_ok (items (d_body d))"
    and "distinct (map ln_id (wx_emitted cx))" and "i \<in> set top_ids" and "body_depth \<le> k"
  shows "owner_walk k (wx_emitted cx) ow i = owner_walk body_depth (wx_emitted cx) ow i \<and>
    steps_outside_guards k (wx_emitted cx) i = steps_outside_guards body_depth (wx_emitted cx) i \<and>
    visit k sc (wx_emitted cx) om guarded i w = visit body_depth sc (wx_emitted cx) om guarded i w"
proof -
  from plan_workflow_ok[OF assms(1,2)] assms(4) have ok: "emits_ok (wx_emitted cx)" "finds (doc_of (wx_emitted cx)) is_item i"
    by (simp_all add: list_all_iff)
  from owner.enough[OF ok(1) assms(3) ok(2) assms(5)] outside.enough[OF ok(1) assms(3) ok(2) assms(5)]
    visited.enough[OF ok(1) assms(3) ok(2) assms(5), of sc om "(guarded, w)"]
  show ?thesis by simp
qed

theorem body_depth_enough_witness:
  "\<exists>d top_ids cx. plan_workflow bare_env d None = Inr (top_ids, cx) \<and> top_ids = [''wf.c.step.1''] \<and>
     owner_walk 100 (wx_emitted cx) (None, False) ''wf.c.step.1'' = owner_walk body_depth (wx_emitted cx) (None, False) ''wf.c.step.1''"
proof -
  from ponder_plans obtain d top_ids cx where p: "ponder_decl = Some d"
    and d: "plan_workflow bare_env d None = Inr (top_ids, cx)" "top_ids = [''wf.c.step.1'']" "distinct (map ln_id (wx_emitted cx))"
    by (auto split: option.splits sum.splits prod.splits)
  from body_depth_enough[OF d(1) ponder_guards[OF p] d(3), of "''wf.c.step.1''" 100 "(None, False)"] d(2)
  have "owner_walk 100 (wx_emitted cx) (None, False) ''wf.c.step.1'' = owner_walk body_depth (wx_emitted cx) (None, False) ''wf.c.step.1''"
    by (simp add: body_depth_def)
  with d(1,2) show ?thesis by blast
qed

end
