(* ===== verification/Resilience.thy ===== *)
theory Resilience
  imports Clauses Aggregates
begin

text \<open>
  The in-process part of the network drivers of \<open>impl/lnpl/drivers.py\<close>: retryable statuses, \<open>Retry-After\<close>,
  \<open>_Breaker\<close>, \<open>_call_with_resilience\<close>, \<open>_assemble_path\<close> and \<open>FakeNetworkDriver\<close>. The clock is the
  sequence of its readings in milliseconds; a jittered delay is recorded by the bound it is drawn
  below, because nothing depends on the value drawn. Calls run one after the other.
\<close>

section \<open>Statuses and headers\<close>

definition is_retryable_status :: "int \<Rightarrow> bool" where
  "is_retryable_status status = (status \<in> {408, 429} \<or> 500 \<le> status \<and> status < 600 \<and> status \<noteq> 501)"

type_synonym response = "int \<times> pyval \<times> (string, string) dict"

definition retry_after_seconds :: "(string, string) dict \<Rightarrow> int option" where
  "retry_after_seconds headers = (case dget headers ''retry-after'' of None \<Rightarrow> None | Some v \<Rightarrow> py_int v)"

section \<open>\<open>_Breaker\<close>\<close>

record breaker =
  br_threshold :: nat
  br_window :: int
  br_failures :: nat
  br_opened :: "int option"
  br_half_open :: bool

definition new_breaker :: "http_breaker \<Rightarrow> breaker" where
  "new_breaker c = \<lparr>br_threshold = hb_threshold c, br_window = hb_window_ms c, br_failures = 0, br_opened = None,
     br_half_open = False\<rparr>"

definition breaker_allow :: "int \<Rightarrow> breaker \<Rightarrow> bool \<times> breaker" where
  "breaker_allow now b =
     (case br_opened b of
        None \<Rightarrow> (True, b)
      | Some t \<Rightarrow> if now - t \<ge> br_window b then (True, b\<lparr>br_half_open := True\<rparr>) else (False, b))"

definition record_success :: "breaker \<Rightarrow> breaker" where
  "record_success b = b\<lparr>br_failures := 0, br_opened := None, br_half_open := False\<rparr>"

definition record_failure :: "int \<Rightarrow> breaker \<Rightarrow> breaker" where
  "record_failure now b =
     (if br_half_open b then b\<lparr>br_opened := Some now, br_half_open := False\<rparr>
      else let b = b\<lparr>br_failures := Suc (br_failures b)\<rparr> in
        if br_failures b \<ge> br_threshold b then b\<lparr>br_opened := Some now\<rparr> else b)"

section \<open>\<open>_call_with_resilience\<close>\<close>

text \<open>A \<open>DriverError\<close> with what its message distinguishes; \<open>NetEscaped\<close> is any other exception.\<close>

datatype net_exc = BreakerOpen string nat | NoPathDeclared string | CallFailed string | NetEscaped

definition is_driver_error :: "net_exc \<Rightarrow> bool" where
  "is_driver_error e = (e \<noteq> NetEscaped)"

datatype sleep = Delay int | JitteredBelow int

text \<open>Whether an attempt is to be repeated.\<close>

definition attempt_failed :: "net_exc + response \<Rightarrow> bool" where
  "attempt_failed r = (case r of Inl _ \<Rightarrow> True | Inr (status, _) \<Rightarrow> is_retryable_status status)"

definition retry_delay :: "http_retry \<Rightarrow> nat \<Rightarrow> net_exc + response \<Rightarrow> sleep" where
  "retry_delay c attempt r =
     (let delay = hr_backoff_ms c * 2 ^ (attempt - 1);
          delay = (case r of
             Inr (status, _, headers) \<Rightarrow>
               if status \<in> {429, 503} then
                 (case retry_after_seconds headers of None \<Rightarrow> delay | Some s \<Rightarrow> max delay (s * 1000))
               else delay
           | Inl _ \<Rightarrow> delay) in
      if hr_jitter c then JitteredBelow delay else Delay delay)"

text \<open>
  The rounds of the loop, \<open>left\<close> of them after this one: the last outcome and the delays slept. An exception
  that is no \<open>DriverError\<close> leaves at once.
\<close>

fun try_attempts ::
  "nat \<Rightarrow> nat \<Rightarrow> http_retry option \<Rightarrow> ('s \<Rightarrow> (net_exc + response) \<times> 's) \<Rightarrow> 's \<Rightarrow> sleep list \<Rightarrow> (net_exc + response) \<times> 's \<times> sleep list" where
  "try_attempts 0 attempt c f s slept = (let (r, s) = f s in (r, s, slept))"
| "try_attempts (Suc left) attempt c f s slept =
     (let (r, s) = f s in
      if r = Inl NetEscaped \<or> \<not> attempt_failed r then (r, s, slept)
      else try_attempts left (Suc attempt) c f s (slept @ (case c of None \<Rightarrow> [] | Some c \<Rightarrow> [retry_delay c attempt r])))"

text \<open>What a driver keeps between calls, with the state its attempts change.\<close>

record 's net_state =
  ns_breakers :: "(string, breaker) dict"
  ns_reads :: nat
  ns_slept :: "sleep list"
  ns_driver :: 's

definition breaker_of :: "string \<Rightarrow> http_breaker \<Rightarrow> 's net_state \<Rightarrow> breaker" where
  "breaker_of target c st = (case dget (ns_breakers st) target of Some b \<Rightarrow> b | None \<Rightarrow> new_breaker c)"

definition run_attempts ::
  "http_caps option \<Rightarrow> ('s \<Rightarrow> (net_exc + response) \<times> 's) \<Rightarrow> 's net_state \<Rightarrow> (net_exc + response) \<times> 's net_state" where
  "run_attempts cap f st =
     (let retry = (case cap of None \<Rightarrow> None | Some c \<Rightarrow> hc_retry c);
          (r, s, slept) = try_attempts (case retry of None \<Rightarrow> 0 | Some c \<Rightarrow> hr_count c) 1 retry f (ns_driver st) [] in
      (r, st\<lparr>ns_driver := s, ns_slept := ns_slept st @ slept\<rparr>))"

definition call_with_resilience ::
  "string \<Rightarrow> http_caps option \<Rightarrow> (nat \<Rightarrow> int) \<Rightarrow> ('s \<Rightarrow> (net_exc + response) \<times> 's) \<Rightarrow> 's net_state \<Rightarrow>
     (net_exc + response) \<times> 's net_state" where
  "call_with_resilience target cap clock f st =
     (case (case cap of None \<Rightarrow> None | Some c \<Rightarrow> hc_breaker c) of
        None \<Rightarrow> run_attempts cap f st
      | Some c \<Rightarrow>
          (let (allowed, b) = breaker_allow (clock (ns_reads st)) (breaker_of target c st);
               st = st\<lparr>ns_breakers := dset target b (ns_breakers st), ns_reads := Suc (ns_reads st)\<rparr> in
           if \<not> allowed then (Inl (BreakerOpen target (br_threshold b)), st)
           else let (r, st) = run_attempts cap f st in
             if r = Inl NetEscaped then (r, st)
             else if attempt_failed r then
               (r, st\<lparr>ns_breakers := dset target (record_failure (clock (ns_reads st)) b) (ns_breakers st),
                      ns_reads := Suc (ns_reads st)\<rparr>)
             else (r, st\<lparr>ns_breakers := dset target (record_success b) (ns_breakers st)\<rparr>)))"

section \<open>Paths\<close>

text \<open>\<open>urllib.parse.quote(s, safe="")\<close>: the UTF-8 bytes of a Latin-1 text, unreserved characters as they are.\<close>

definition utf8_bytes :: "char \<Rightarrow> nat list" where
  "utf8_bytes c = (let n = ord c in if n < 128 then [n] else [192 + n div 64, 128 + n mod 64])"

definition unreserved :: "nat \<Rightarrow> bool" where
  "unreserved n = (65 \<le> n \<and> n \<le> 90 \<or> 97 \<le> n \<and> n \<le> 122 \<or> 48 \<le> n \<and> n \<le> 57 \<or> n \<in> {95, 46, 45, 126})"

definition upper_hex :: "nat \<Rightarrow> char" where
  "upper_hex n = (if n < 10 then char_of (48 + n) else char_of (55 + n))"

definition quote_byte :: "nat \<Rightarrow> string" where
  "quote_byte n = (if unreserved n then [char_of n] else [CHR ''%'', upper_hex (n div 16), upper_hex (n mod 16)])"

definition quote :: "string \<Rightarrow> string" where
  "quote s = concat (map quote_byte (concat (map utf8_bytes s)))"

definition assemble_path :: "string \<Rightarrow> pyval list \<Rightarrow> string" where
  "assemble_path template args = fold (\<lambda>v out. fill_hole (quote (py_str v)) out) args template"

text \<open>The audience of a served path; \<open>None\<close> is the \<open>ValueError\<close>.\<close>

definition audience_for_path :: "string \<Rightarrow> string option" where
  "audience_for_path path =
     (case split_on CHR ''/'' path of
        s0 # s1 # _ \<Rightarrow> if s0 \<noteq> [] \<or> s1 = [] then None else Some s1
      | _ \<Rightarrow> None)"

section \<open>\<open>FakeNetworkDriver\<close>\<close>

text \<open>A stub of two items has no headers; a list of stubs answers one attempt each and holds on the last.\<close>

datatype stub = Always response | Scripted "response list"

record received_call =
  rv_target :: string
  rv_payload :: pyval
  rv_trace :: "(string, string) dict"
  rv_path :: "string option"

record fake_net =
  fk_received :: "received_call list"
  fk_attempts :: "(string, nat) dict"

definition fake_attempt ::
  "(string, stub) dict \<Rightarrow> received_call \<Rightarrow> fake_net \<Rightarrow> (net_exc + response) \<times> fake_net" where
  "fake_attempt stubs call s =
     (let s = s\<lparr>fk_received := fk_received s @ [call]\<rparr>; target = rv_target call in
      case (case dget stubs target of None \<Rightarrow> Always (200, PDict [], []) | Some x \<Rightarrow> x) of
        Always r \<Rightarrow> (Inr r, s)
      | Scripted rs \<Rightarrow>
          if rs = [] then (Inl NetEscaped, s)
          else let i = (case dget (fk_attempts s) target of None \<Rightarrow> 0 | Some i \<Rightarrow> i) in
            (Inr (rs ! min i (length rs - 1)), s\<lparr>fk_attempts := dset target (Suc i) (fk_attempts s)\<rparr>))"

definition fake_call ::
  "(string, stub) dict \<Rightarrow> (string, http_caps) dict \<Rightarrow> (nat \<Rightarrow> int) \<Rightarrow> string \<Rightarrow> pyval \<Rightarrow> (string, string) dict \<Rightarrow>
     pyval list option \<Rightarrow> fake_net net_state \<Rightarrow> (net_exc + response) \<times> fake_net net_state" where
  "fake_call stubs caps clock target payload trace args st =
     (let cap = dget caps target in
      case (case args of
              None \<Rightarrow> Inr None
            | Some vs \<Rightarrow>
                (case (case cap of None \<Rightarrow> None | Some c \<Rightarrow> hc_path c) of
                   None \<Rightarrow> Inl (NoPathDeclared target)
                 | Some template \<Rightarrow> Inr (Some (assemble_path template vs)))) of
        Inl e \<Rightarrow> (Inl e, st)
      | Inr path \<Rightarrow>
          call_with_resilience target cap clock
            (fake_attempt stubs \<lparr>rv_target = target, rv_payload = payload, rv_trace = trace, rv_path = path\<rparr>) st)"

definition new_fake :: "fake_net net_state" where
  "new_fake = \<lparr>ns_breakers = [], ns_reads = 0, ns_slept = [], ns_driver = \<lparr>fk_received = [], fk_attempts = []\<rparr>\<rparr>"

end
