(* ===== verification/InstantFacts.thy ===== *)
theory InstantFacts
  imports Instants ConditionFacts
begin

text \<open>
  The instant codec round-trips: every millisecond count \<open>decode_instant\<close> can render reads
  back to itself, and what \<open>encode_instant\<close> returns stays in the signed 64-bit domain.
\<close>

section \<open>Zero-padded fields\<close>

lemma pad_to_digits: "list_all is_decimal_c (pad_to w k)"
  by (auto simp: pad_to_def list_all_iff is_decimal_c_def ord_def dest: show_nat_decimal[unfolded is_decimal_c_def ord_def])

lemma pad_to_length: "k < 10 ^ w \<Longrightarrow> 0 < w \<Longrightarrow> length (pad_to w k) = w"
  using show_nat_length[of k w] by (simp add: pad_to_def)

lemma num_field_pad:
  assumes "k < 10 ^ w" and "0 < w" shows "num_field w (pad_to w k @ r) = Some (k, r)"
  using pad_to_length[OF assms] pad_to_digits[of w k]
  by (simp add: num_field_def digits_val_zeros pad_to_def)

lemma one_of_hit [simp]: "c \<in> set cs \<Longrightarrow> one_of cs (c # r) = Some r"
  by (simp add: one_of_def)

lemma match_shape_render:
  assumes "y < 10000" "mo < 100" "d < 100" "h < 100" "mi < 100" "s < 100"
  shows "match_shape (pad_to 4 y @ ''-'' @ pad_to 2 mo @ ''-'' @ pad_to 2 d @ ''T'' @ pad_to 2 h @ '':'' @
     pad_to 2 mi @ '':'' @ pad_to 2 s @ r) = Some ((y, mo, d, h, mi, s), r)"
  using assms by (simp add: match_shape_def num_field_pad)

lemma pad_to_not_Nil [simp]: "pad_to w k \<noteq> []"
  by (simp add: pad_to_def)

lemma match_frac_render: "match_frac (''.'' @ pad_to w k @ ''Z'') = (Some (pad_to w k), ''Z'')"
proof -
  have nz: "\<not> is_decimal_c CHR ''Z''" by (simp add: is_decimal_c_def ord_def)
  have d: "\<forall>c \<in> set (pad_to w k). is_decimal_c c" using pad_to_digits by (simp add: list_all_iff)
  from d nz have "takeWhile is_decimal_c (pad_to w k @ ''Z'') = pad_to w k"
    by (simp add: takeWhile_append2)
  moreover from d nz have "dropWhile is_decimal_c (pad_to w k @ ''Z'') = ''Z''"
    by (simp add: dropWhile_append2)
  ultimately show ?thesis by (simp add: match_frac_def)
qed

lemma match_instant_render:
  assumes "y < 10000" "mo < 100" "d < 100" "h < 100" "mi < 100" "s < 100"
  shows "match_instant (render_instant y mo d h mi s ms) =
    Some \<lparr>f_year = y, f_month = mo, f_day = d, f_hour = h, f_minute = mi, f_second = s,
          f_frac = Some (pad_to 3 ms), f_zone = Zulu\<rparr>"
  unfolding render_instant_def match_instant_def match_shape_render[OF assms]
  using match_frac_render[of 3 ms] by (simp add: match_zone_def at_end_def)

lemma frac_millis_pad: "ms < 1000 \<Longrightarrow> frac_millis (Some (pad_to 3 ms)) = ms"
  using pad_to_length[of ms 3] by (simp add: frac_millis_def pad_to_def digits_val_zeros)

section \<open>Round trip\<close>

lemma days_before_year_ge: "1 \<le> y \<Longrightarrow> 365 * (y - 1) \<le> days_before_year y"
proof -
  assume "1 \<le> y"
  have "(y - 1) div 100 \<le> (y - 1) div 4" using \<open>1 \<le> y\<close> by (intro zdiv_mono2) simp_all
  moreover have "0 \<le> (y - 1) div 400" using \<open>1 \<le> y\<close> by (simp add: pos_imp_zdiv_nonneg_iff)
  ultimately show ?thesis unfolding days_before_year_def by linarith
qed

lemma days_before_year_mono: "y \<le> z \<Longrightarrow> days_before_year y \<le> days_before_year z"
proof (induction z rule: int_ge_induct)
  case base
  show ?case by simp
next
  case (step z)
  with year_roll[of z] show ?case by simp
qed

lemma month_starts_nonneg: "1 \<le> m \<Longrightarrow> m \<le> 12 \<Longrightarrow> 0 \<le> days_before_month y m"
proof -
  assume "1 \<le> m" "m \<le> 12"
  then have "m \<in> set [1..<13]" by auto
  moreover have "list_all (\<lambda>m. 0 \<le> month_starts ! m) [1..<13]" by code_simp
  ultimately show ?thesis by (simp add: days_before_month_def list_all_iff)
qed

lemma ordinal_year_bound:
  assumes "ymd2ord y m d \<le> max_ordinal" and "1 \<le> m" "m \<le> 12" "1 \<le> d"
  shows "y \<le> 9999"
proof (rule ccontr)
  assume "\<not> y \<le> 9999"
  then have "days_before_year 10000 \<le> days_before_year y" by (intro days_before_year_mono) simp
  moreover have "days_before_year 10000 = max_ordinal"
    by (simp add: days_before_year_def max_ordinal_def)
  ultimately show False
    using assms month_starts_nonneg[OF assms(2,3), of y] by (simp add: ymd2ord_def)
qed

lemma mixed_radix:
  fixes r q1 q2 q3 u s m :: int
  assumes "1000 * q1 + u = r" and "60 * q2 + s = q1" and "60 * q3 + m = q2"
  shows "q3 * 3600000 + m * 60000 + s * 1000 + u = r"
  using assms by linarith

lemma mixed_total:
  fixes r n e dd h m s u ms :: int
  assumes "h * 3600000 + m * 60000 + s * 1000 + u = r" and "86400000 * dd + r = ms" and "n = e + dd"
  shows "(((n - e) * 86400 + h * 3600 + m * 60 + s) * 1000) + u = ms"
proof -
  have "n - e = dd" using assms(3) by simp
  then show ?thesis using assms(1,2) by (simp add: distrib_right)
qed

lemma millis_parts:
  fixes rem :: int
  assumes "0 \<le> rem" "rem < 86400000"
  shows "(rem div 3600000) * 3600000 + (rem div 60000 mod 60) * 60000 + (rem div 1000 mod 60) * 1000 + rem mod 1000 = rem"
    and "0 \<le> rem div 3600000" "rem div 3600000 \<le> 23"
proof -
  have d: "rem div 60000 = rem div 1000 div 60"
    using zdiv_zmult2_eq[of 60 rem 1000] by simp
  have "rem div 3600000 = rem div 60000 div 60"
    using zdiv_zmult2_eq[of 60 rem 60000] by simp
  then have "60 * (rem div 3600000) + rem div 60000 mod 60 = rem div 60000"
    using mult_div_mod_eq[of 60 "rem div 60000"] by argo
  moreover have "60 * (rem div 60000) + rem div 1000 mod 60 = rem div 1000"
    using mult_div_mod_eq[of 60 "rem div 1000"] unfolding d by blast
  ultimately show "(rem div 3600000) * 3600000 + (rem div 60000 mod 60) * 60000 + (rem div 1000 mod 60) * 1000 + rem mod 1000 = rem"
    using mult_div_mod_eq[of 1000 rem] by (blast intro: mixed_radix)
  show "0 \<le> rem div 3600000" using assms by (simp add: pos_imp_zdiv_nonneg_iff)
  have "rem div 3600000 \<le> 86399999 div 3600000" using assms by (intro zdiv_mono1) simp_all
  then show "rem div 3600000 \<le> 23" by simp
qed

lemma encode_render:
  assumes "1 \<le> y" "y \<le> 9999" "1 \<le> mo" "mo \<le> 12" "1 \<le> d" "d \<le> 31" "h \<le> 23" "mi \<le> 59" "s \<le> 59" "ms < 1000"
    and "in_int64 ((((ymd2ord (int y) mo (int d) - epoch_ord) * 86400 + int h * 3600 + int mi * 60 + int s) * 1000) + int ms)"
  shows "encode_instant (render_instant y mo d h mi s ms) =
    Inr ((((ymd2ord (int y) mo (int d) - epoch_ord) * 86400 + int h * 3600 + int mi * 60 + int s) * 1000) + int ms)"
proof -
  have "match_instant (render_instant y mo d h mi s ms) =
    Some \<lparr>f_year = y, f_month = mo, f_day = d, f_hour = h, f_minute = mi, f_second = s,
          f_frac = Some (pad_to 3 ms), f_zone = Zulu\<rparr>"
    using assms by (intro match_instant_render) simp_all
  moreover have "timegm y mo d = Some ((ymd2ord (int y) mo (int d) - epoch_ord) * 86400)"
    using assms by (simp add: timegm_def ymd2ord_def)
  ultimately show ?thesis
    using assms frac_millis_pad[of ms] by (simp add: encode_instant_def zone_offset_ms_def Let_def)
qed

lemma encode_render_int:
  fixes h mi s u :: int
  assumes "1 \<le> y" "y \<le> 9999" "1 \<le> mo" "mo \<le> 12" "1 \<le> d" "d \<le> 31"
    and "0 \<le> h" "h \<le> 23" "0 \<le> mi" "mi < 60" "0 \<le> s" "s < 60" "0 \<le> u" "u < 1000"
    and "(((ymd2ord y mo d - epoch_ord) * 86400 + h * 3600 + mi * 60 + s) * 1000) + u = ms" and "in_int64 ms"
  shows "encode_instant (render_instant (nat y) mo (nat d) (nat h) (nat mi) (nat s) (nat u)) = Inr ms"
proof -
  have i: "int (nat y) = y" "int (nat d) = d" "int (nat h) = h" "int (nat mi) = mi" "int (nat s) = s" "int (nat u) = u"
    using assms by simp_all
  have "1 \<le> nat y" "nat y \<le> 9999" "1 \<le> nat d" "nat d \<le> 31" "nat h \<le> 23" "nat mi \<le> 59" "nat s \<le> 59" "nat u < 1000"
    using assms(1-14) by (simp_all add: nat_le_iff)
  from encode_render[OF this(1,2) assms(3,4) this(3-8)] show ?thesis
    unfolding i assms(15) using assms(16) by blast
qed

lemma decode_encode:
  assumes "decode_instant ms = Inr t"
  shows "encode_instant t = Inr ms"
proof -
  define days rem n where "days = ms div 86400000" and "rem = ms mod 86400000" and "n = epoch_ord + days"
  obtain y m d where ymd: "ord2ymd n = (y, m, d)" by (metis prod_cases3)
  from assms have n: "1 \<le> n" "n \<le> max_ordinal"
    and t: "t = render_instant (nat y) m (nat d) (nat (rem div 3600000)) (nat (rem div 60000 mod 60))
                 (nat (rem div 1000 mod 60)) (nat (rem mod 1000))"
    by (auto simp: decode_instant_def Let_def days_def rem_def n_def ymd[unfolded n_def days_def]
        split: if_splits)
  from ord2ymd_correct[OF n(1)] ymd have p: "1 \<le> y" "1 \<le> m" "m \<le> 12" "1 \<le> d" "d \<le> 31" "ymd2ord y m d = n"
    by simp_all
  have y: "y \<le> 9999" using ordinal_year_bound[of y m d] p n by simp
  have rem: "0 \<le> rem" "rem < 86400000" by (simp_all add: rem_def)
  note parts = millis_parts[OF rem]
  have total: "(((ymd2ord y m d - epoch_ord) * 86400 + rem div 3600000 * 3600 + rem div 60000 mod 60 * 60
      + rem div 1000 mod 60) * 1000) + rem mod 1000 = ms"
    unfolding p(6) by (rule mixed_total[OF parts(1) mult_div_mod_eq[of 86400000 ms, folded days_def rem_def] n_def])
  have "- 719163 \<le> days" "days \<le> 2932896" using n by (simp_all add: n_def epoch_ord_def max_ordinal_def)
  moreover have "ms = 86400000 * days + rem" by (simp add: days_def rem_def)
  ultimately have "in_int64 ms" using rem by (simp add: in_int64_def int64_numerals)
  have fields: "0 \<le> rem div 60000 mod 60" "rem div 60000 mod 60 < 60" "0 \<le> rem div 1000 mod 60"
    "rem div 1000 mod 60 < 60" "0 \<le> rem mod 1000" "rem mod 1000 < 1000"
    by (rule pos_mod_sign pos_mod_bound, simp)+
  show ?thesis
    unfolding t by (rule encode_render_int[OF p(1) y p(2-5) parts(2,3) fields total \<open>in_int64 ms\<close>])
qed

lemma encode_range: "encode_instant s = Inr v \<Longrightarrow> in_int64 v"
  by (auto simp: encode_instant_def Let_def split: option.splits if_splits)

lemma encode_error: "encode_instant s = Inl e \<Longrightarrow> \<exists>r. e = ConditionError r"
  by (auto simp: encode_instant_def Let_def split: option.splits if_splits)

lemma encode_accepts: "encode_instant s = Inr v \<Longrightarrow> is_instant_text s \<and> looks_like_instant s"
  by (auto simp: encode_instant_def is_instant_text_def looks_like_instant_def match_instant_def
      split: option.splits bind_splits)

end
