(* ===== verification/MoneyFacts.thy ===== *)
theory MoneyFacts
  imports Money
begin

text \<open>
  The money codec is exact both ways, its arithmetic keeps the currency and the 64-bit domain, and
  the average is the half-to-even quotient: the 28 digits of the decimal context do not disturb it.
\<close>

section \<open>The text of an amount\<close>

lemma exponent_cases: "exponent c = Inr xp \<Longrightarrow> xp \<in> {0, 2, 3}"
proof -
  assume e: "exponent c = Inr xp"
  then obtain s where s: "c = PStr s" by (cases c) (auto simp: exponent_def)
  have "\<forall>p \<in> set currency_exponent. snd p \<in> {0, 2, 3}" by (simp add: currency_exponent_def)
  moreover have "dget currency_exponent s = Some xp \<or> xp = 2"
    using e s by (auto simp: exponent_def split: if_splits option.splits)
  ultimately show ?thesis by (auto dest!: map_of_SomeD)
qed

lemma exponent_PStr: "exponent c = Inr xp \<Longrightarrow> \<exists>s. c = PStr s"
  by (cases c) (auto simp: exponent_def)

definition amount_body :: "nat \<Rightarrow> nat \<Rightarrow> string" where
  "amount_body xp k = (let p = replicate (Suc xp - length (show_nat k)) CHR ''0'' @ show_nat k in
     if xp = 0 then show_nat k else take (length p - xp) p @ ''.'' @ drop (length p - xp) p)"

lemma money_amount_body: "money_amount xp m = (if m < 0 then ''-'' else []) @ amount_body xp (nat \<bar>m\<bar>)"
  by (simp add: money_amount_def amount_body_def Let_def)

text \<open>An amount is an integer part, and for a non-zero exponent a point and exactly that many digits.\<close>

lemma amount_body_parts:
  obtains ip fp where "amount_body xp k = ip @ (if xp = 0 then [] else CHR ''.'' # fp)"
    and "ip \<noteq> []" and "list_all is_decimal_c ip" and "list_all is_decimal_c fp" and "length fp = xp"
    and "digits_val (ip @ fp) = k"
proof (cases "xp = 0")
  case True
  show ?thesis
    by (rule that[of "show_nat k" "[]"])
      (auto simp: True amount_body_def list_all_iff dest: show_nat_decimal)
next
  case False
  define p where "p = replicate (Suc xp - length (show_nat k)) CHR ''0'' @ show_nat k"
  have len: "xp < length p" by (simp add: p_def)
  have dec: "list_all is_decimal_c p"
    by (auto simp: p_def list_all_iff is_decimal_c_def ord_def
        dest: show_nat_decimal[unfolded is_decimal_c_def ord_def])
  show ?thesis
  proof (rule that[of "take (length p - xp) p" "drop (length p - xp) p"])
    show "amount_body xp k = take (length p - xp) p @ (if xp = 0 then [] else CHR ''.'' # drop (length p - xp) p)"
      using False by (simp add: amount_body_def p_def Let_def)
    show "take (length p - xp) p \<noteq> []" using len by auto
    show "list_all is_decimal_c (take (length p - xp) p)" "list_all is_decimal_c (drop (length p - xp) p)"
      using dec by (auto simp: list_all_iff dest: in_set_takeD in_set_dropD)
    show "length (drop (length p - xp) p) = xp" using len by simp
    show "digits_val (take (length p - xp) p @ drop (length p - xp) p) = k"
      by (simp only: append_take_drop_id) (simp add: p_def digits_val_zeros)
  qed
qed

lemma normal_digits_val: "digits_val (normal_digits ds) = digits_val ds"
proof -
  have "ds = takeWhile (\<lambda>c. c = CHR ''0'') ds @ dropWhile (\<lambda>c. c = CHR ''0'') ds" by simp
  moreover have "takeWhile (\<lambda>c. c = CHR ''0'') ds = replicate (length (takeWhile (\<lambda>c. c = CHR ''0'') ds)) CHR ''0''"
    by (rule replicate_length_same[symmetric]) (auto dest: set_takeWhileD)
  ultimately have "digits_val ds = digits_val (dropWhile (\<lambda>c. c = CHR ''0'') ds)"
    by (metis digits_val_zeros)
  moreover have "digits_val ''0'' = digits_val []" by (simp add: digits_val_def ord_def)
  moreover have "normal_digits ds = (if dropWhile (\<lambda>c. c = CHR ''0'') ds = [] then ''0'' else dropWhile (\<lambda>c. c = CHR ''0'') ds)"
    by (simp only: normal_digits_def Let_def)
  ultimately show ?thesis by (cases "dropWhile (\<lambda>c. c = CHR ''0'') ds = []") (simp_all only: if_True if_False simp_thms)
qed

lemma normal_digits_decimal: "list_all is_decimal_c ds \<Longrightarrow> list_all is_decimal_c (normal_digits ds)"
  by (auto simp: normal_digits_def Let_def list_all_iff is_decimal_c_def ord_def dest: set_dropWhileD)

lemma normal_digits_length: "ds \<noteq> [] \<Longrightarrow> length (normal_digits ds) \<le> length ds"
  by (simp add: normal_digits_def Let_def length_dropWhile_le Suc_le_eq)

lemma takeWhile_decimal:
  assumes "list_all is_decimal_c ip" and "r = [] \<or> \<not> is_decimal_c (hd r)"
  shows "takeWhile is_decimal_c (ip @ r) = ip \<and> dropWhile is_decimal_c (ip @ r) = r"
proof -
  have "\<forall>c \<in> set ip. is_decimal_c c" using assms(1) by (simp add: list_all_iff)
  moreover have "takeWhile is_decimal_c r = [] \<and> dropWhile is_decimal_c r = r"
    using assms(2) by (cases r) auto
  ultimately show ?thesis by (simp add: takeWhile_append2 dropWhile_append2)
qed

lemma dot_not_decimal: "\<not> is_decimal_c CHR ''.''"
  by (simp add: is_decimal_c_def ord_def)

lemma decimal_plain_char: "is_decimal_c c \<Longrightarrow> \<not> is_space c \<and> c \<noteq> CHR ''_'' \<and> c \<noteq> CHR ''-'' \<and> c \<noteq> CHR ''+''"
  by (auto simp: is_decimal_c_def is_space_def ord_def)

text \<open>Reading \<open>[-]digits[.digits]\<close>.\<close>

lemma decimal_of_plain:
  assumes ip: "ip \<noteq> []" "list_all is_decimal_c ip" and fp: "list_all is_decimal_c fp"
    and small: "length (ip @ fp) < 1000000"
  shows "decimal_of_string ((if neg then ''-'' else []) @ ip @ (if dot then CHR ''.'' # fp else [])) =
    Some \<lparr>dec_neg = neg, dec_digits = normal_digits (ip @ (if dot then fp else [])),
          dec_exp = (if dot then - int (length fp) else 0)\<rparr>"
proof -
  define body where "body = ip @ (if dot then CHR ''.'' # fp else [])"
  define inp where "inp = (if neg then ''-'' else []) @ body"
  have chars: "\<not> is_space c \<and> c \<noteq> CHR ''_''" if "c \<in> set inp" for c
    using that ip fp decimal_plain_char[of c]
    by (auto simp: inp_def body_def list_all_iff is_space_def ord_def split: if_splits)
  have st: "strip inp = inp" unfolding strip_def using chars by (intro strip_by_id) blast
  have fi: "filter (\<lambda>c. c \<noteq> CHR ''_'') inp = inp" using chars by (intro filter_True) blast
  obtain c cs where hd: "ip = c # cs" using ip(1) by (cases ip) auto
  with ip(2) decimal_plain_char[of c] have "c \<noteq> CHR ''-''" "c \<noteq> CHR ''+''" by auto
  then have sg: "split_sign inp = (if neg then -1 else 1, body)"
    by (auto simp: split_sign_def inp_def body_def hd)
  have tw: "takeWhile is_decimal_c body = ip" "dropWhile is_decimal_c body = (if dot then CHR ''.'' # fp else [])"
    using takeWhile_decimal[OF ip(2), of "if dot then CHR ''.'' # fp else []"] dot_not_decimal
    by (auto simp: body_def)
  have f: "takeWhile is_decimal_c fp = fp" "dropWhile is_decimal_c fp = []"
    using takeWhile_decimal[OF fp, of "[]"] by simp_all
  have len: "length (normal_digits (ip @ x)) \<le> length (ip @ x)" for x
    by (rule normal_digits_length) (simp add: ip(1))
  have b1: "int (length (normal_digits (ip @ fp))) \<le> 1000000" "int (length (normal_digits ip)) \<le> 1000000"
    "int (length fp) \<le> 1000000"
    using len[of fp] len[of "[]"] small by auto
  have "decimal_of_string inp = Some \<lparr>dec_neg = neg, dec_digits = normal_digits (ip @ (if dot then fp else [])),
          dec_exp = (if dot then - int (length fp) else 0)\<rparr>"
    unfolding decimal_of_string_def st fi sg Let_def
    using ip(1) b1
    by (cases dot; cases neg) (simp_all add: tw f decimal_exponent_def max_emax_def min_etiny_def)
  then show ?thesis by (simp add: inp_def body_def)
qed

section \<open>Exactness of the codec\<close>

lemma amount_length:
  assumes "k < 10 ^ 19" and "xp \<le> 3" and "amount_body xp k = ip @ (if xp = 0 then [] else CHR ''.'' # fp)"
    and "length fp = xp"
  shows "length (ip @ fp) \<le> 23"
proof -
  have "length (show_nat k) \<le> 19" using show_nat_length[OF assms(1)] by simp
  then have "length (amount_body xp k) \<le> 23" using assms(2) by (auto simp: amount_body_def Let_def)
  then show ?thesis using assms(2,3,4) by (auto split: if_splits)
qed

lemma encode_amount:
  assumes x: "exponent (PStr c) = Inr xp" and r: "in_int64 m"
  shows "encode_money (PStr (money_amount xp m)) (PStr c) = Inr (m, c)"
proof -
  define k where "k = nat \<bar>m\<bar>"
  have k: "k < 10 ^ 19" using in_int64_small[OF r] by (simp add: k_def)
  have xp: "xp \<le> 3" using exponent_cases[OF x] by auto
  obtain ip fp where body: "amount_body xp k = ip @ (if xp = 0 then [] else CHR ''.'' # fp)"
    and ip: "ip \<noteq> []" "list_all is_decimal_c ip" and fp: "list_all is_decimal_c fp" "length fp = xp"
    and v: "digits_val (ip @ fp) = k"
    by (rule amount_body_parts)
  have len: "length (ip @ fp) \<le> 23" using amount_length[OF k xp body fp(2)] .
  have fp0: "xp = 0 \<Longrightarrow> fp = []" using fp(2) by simp
  have t: "money_amount xp m = (if m < 0 then ''-'' else []) @ ip @ (if xp \<noteq> 0 then CHR ''.'' # fp else [])"
    by (simp add: money_amount_body k_def[symmetric] body)
  have "decimal_of_string (money_amount xp m) =
      Some \<lparr>dec_neg = (m < 0), dec_digits = normal_digits (ip @ (if xp \<noteq> 0 then fp else [])),
        dec_exp = (if xp \<noteq> 0 then - int (length fp) else 0)\<rparr>"
    unfolding t using len by (intro decimal_of_plain ip fp) simp
  then have d: "decimal_of_string (money_amount xp m) =
      Some \<lparr>dec_neg = (m < 0), dec_digits = normal_digits (ip @ fp), dec_exp = - int xp\<rparr>"
    using fp(2) fp0 by auto
  have "length (normal_digits (ip @ fp)) \<le> max_str_digits"
    using normal_digits_length[of "ip @ fp"] ip(1) len by (simp add: max_str_digits_def)
  then have n: "int_of_digits (normal_digits (ip @ fp)) = Some k"
    using v normal_digits_decimal[of "ip @ fp"] ip fp by (simp add: int_of_digits_def normal_digits_val)
  have "(if m < 0 then - int k else int k) = m" by (simp add: k_def)
  with d n x r show ?thesis by (simp add: encode_money_def Let_def)
qed

text \<open>What the encoder accepts is read without rounding.\<close>

lemma encode_exact:
  assumes "encode_money a cur = Inr (m, c)"
  shows "\<exists>s d n xp. a = PStr s \<and> cur = PStr c \<and> exponent cur = Inr xp \<and> decimal_of_string s = Some d \<and>
    int_of_digits (dec_digits d) = Some n \<and> - int xp \<le> dec_exp d \<and>
    m = (if dec_neg d then -1 else 1) * int n * 10 ^ nat (dec_exp d + int xp) \<and> in_int64 m"
proof -
  from assms obtain xp where x: "exponent cur = Inr xp" by (auto simp: encode_money_def bindE_iffs)
  then obtain c' where c': "cur = PStr c'" using exponent_PStr by blast
  from assms x obtain s where s: "a = PStr s"
    by (auto simp: encode_money_def split: pyval.splits)
  from assms x s obtain d where d: "decimal_of_string s = Some d"
    by (auto simp: encode_money_def split: option.splits)
  from assms x s d have p: "(if dec_exp d < 0 then - dec_exp d else 0) = int xp"
    by (auto simp: encode_money_def Let_def split: if_splits)
  from assms x s d p obtain n where n: "int_of_digits (dec_digits d) = Some n"
    by (auto simp: encode_money_def Let_def split: option.splits)
  define k where "k = (if dec_exp d > 0 then int n * 10 ^ nat (dec_exp d) else int n)"
  from assms x s d p n c' have m: "m = (if dec_neg d then - k else k)" "in_int64 m" "c' = c"
    by (simp_all add: encode_money_def Let_def k_def split: if_split_asm)
  have "k = int n * 10 ^ nat (dec_exp d + int xp) \<and> - int xp \<le> dec_exp d"
    using p by (auto simp: k_def split: if_splits)
  with m s d n c' x show ?thesis by auto
qed

lemma encode_currency: "encode_money a cur = Inr (m, c) \<Longrightarrow> cur = PStr c \<and> in_int64 m \<and> (\<exists>xp. exponent (PStr c) = Inr xp)"
  using encode_exact[of a cur m c] by auto

section \<open>The wire codec\<close>

text \<open>
  A row or a payload holds the two-key dictionary; the readers in \<open>interp.py\<close> index it by its keys
  and encode.
\<close>

definition money_ok :: "money \<Rightarrow> bool" where
  "money_ok m = (in_int64 (fst m) \<and> (case exponent (PStr (snd m)) of Inl _ \<Rightarrow> False | Inr _ \<Rightarrow> True))"

definition read_wire :: "money_exc + pyval \<Rightarrow> money_exc + money" where
  "read_wire w = bindE w (\<lambda>v. case v of
      PDict d \<Rightarrow> encode_money (pget d ''amount'') (pget d ''currency'')
    | _ \<Rightarrow> Inl (MoneyError EncodePrecision))"

lemma read_decode: "money_ok m \<Longrightarrow> read_wire (decode_money m) = Inr m"
  by (cases m) (auto simp: money_ok_def read_wire_def decode_money_def pget_def encode_amount split: sum.splits)

lemma read_wire_ok: "read_wire w = Inr m \<Longrightarrow> money_ok m"
proof -
  assume "read_wire w = Inr m"
  then obtain v where v: "w = Inr v" "(case v of
      PDict d \<Rightarrow> encode_money (pget d ''amount'') (pget d ''currency'')
    | _ \<Rightarrow> Inl (MoneyError EncodePrecision)) = Inr m"
    by (auto simp only: read_wire_def bindE_iffs)
  then obtain a cur where "encode_money a cur = Inr (fst m, snd m)" by (cases v) simp_all
  from encode_currency[OF this] show ?thesis by (auto simp: money_ok_def)
qed

interpretation money_codec: codec decode_money read_wire money_ok
  by unfold_locales (auto intro: read_decode read_wire_ok)

section \<open>Literals\<close>

lemma split_literal_parts:
  assumes "split_literal tok = Some (ip, fp, c)"
  shows "ip \<noteq> [] \<and> list_all is_decimal_c ip \<and> (\<forall>f. fp = Some f \<longrightarrow> f \<noteq> [] \<and> list_all is_decimal_c f) \<and>
    length ip + (case fp of None \<Rightarrow> 0 | Some f \<Rightarrow> length f) \<le> length tok"
proof -
  define r where "r = dropWhile is_decimal_c tok"
  have tok: "tok = takeWhile is_decimal_c tok @ r" by (simp add: r_def)
  have dec: "list_all is_decimal_c (takeWhile is_decimal_c x)" for x
    by (auto simp: list_all_iff dest: set_takeWhileD)
  from assms have ip: "ip = takeWhile is_decimal_c tok" "ip \<noteq> []"
    and fp: "fp = (case r of [] \<Rightarrow> None | c # q \<Rightarrow> if c = CHR ''.'' \<and> takeWhile is_decimal_c q \<noteq> []
        then Some (takeWhile is_decimal_c q) else None)"
    unfolding split_literal_def Let_def r_def[symmetric]
    by (cases r; simp split: if_split_asm)+
  have "length ip + (case fp of None \<Rightarrow> 0 | Some f \<Rightarrow> length f) \<le> length ip + length r"
    unfolding fp by (cases r) (simp_all add: length_takeWhile_le le_SucI)
  moreover have "length tok = length ip + length r" using tok ip(1) by (metis length_append)
  moreover have "\<forall>f. fp = Some f \<longrightarrow> f \<noteq> [] \<and> list_all is_decimal_c f"
    unfolding fp using dec by (cases r) auto
  ultimately show ?thesis using ip dec by simp
qed

definition literal_digits :: "string \<Rightarrow> nat" where
  "literal_digits tok = (case split_literal tok of None \<Rightarrow> 0
     | Some (ip, fp, _) \<Rightarrow> digits_val (ip @ (case fp of None \<Rightarrow> [] | Some f \<Rightarrow> f)))"

lemma literal_encodes:
  assumes p: "parse_money_literal tok = Inr (Some w)" and len: "length tok \<le> max_str_digits"
  shows "\<exists>a c. w = PDict [(''amount'', a), (''currency'', PStr c)] \<and>
    encode_money a (PStr c) = (if in_int64 (int (literal_digits tok)) then Inr (int (literal_digits tok), c)
                               else Inl (MoneyError EncodePrecision))"
proof -
  from p obtain ip fp c where s: "split_literal tok = Some (ip, fp, c)"
    by (auto simp: parse_money_literal_def split: option.splits)
  define f where "f = (case fp of None \<Rightarrow> [] | Some f \<Rightarrow> f)"
  from p s obtain xp where x: "exponent (PStr c) = Inr xp" and xp: "length f = xp"
    and w: "w = PDict [(''amount'', PStr (case fp of None \<Rightarrow> ip | Some f \<Rightarrow> ip @ ''.'' @ f)), (''currency'', PStr c)]"
    by (auto simp: parse_money_literal_def bindE_iffs f_def split: if_splits option.splits)
  from split_literal_parts[OF s] have ip: "ip \<noteq> []" "list_all is_decimal_c ip" and fd: "list_all is_decimal_c f"
    and l: "length (ip @ f) \<le> length tok" by (auto simp: f_def split: option.splits)
  define dot where "dot = (fp \<noteq> None)"
  have amount: "(case fp of None \<Rightarrow> ip | Some f \<Rightarrow> ip @ ''.'' @ f) =
      (if False then ''-'' else []) @ ip @ (if dot then CHR ''.'' # f else [])"
    by (auto simp: dot_def f_def split: option.splits)
  have nodot: "\<not> dot \<Longrightarrow> f = []" by (auto simp: dot_def f_def)
  have "length (ip @ f) < 1000000" using l len by (simp add: max_str_digits_def)
  from decimal_of_plain[OF ip fd this, of False dot] nodot
  have d: "decimal_of_string (case fp of None \<Rightarrow> ip | Some f \<Rightarrow> ip @ ''.'' @ f) =
      Some \<lparr>dec_neg = False, dec_digits = normal_digits (ip @ f), dec_exp = - int xp\<rparr>"
    unfolding amount xp[symmetric] by (cases dot) auto
  have "length (normal_digits (ip @ f)) \<le> max_str_digits"
    using normal_digits_length[of "ip @ f"] ip(1) l len by simp
  then have n: "int_of_digits (normal_digits (ip @ f)) = Some (literal_digits tok)"
    using normal_digits_decimal[of "ip @ f"] ip fd
    by (simp add: int_of_digits_def normal_digits_val literal_digits_def s f_def)
  show ?thesis using d x n w by (auto simp: encode_money_def Let_def)
qed

section \<open>Properties\<close>

text \<open>
  Every Money value survives the wire. A minor-unit integer within 64 bits of a known currency,
  decoded to \<open>{"amount", "currency"}\<close> and encoded again, is itself, and two such values have the same
  wire form only if they are equal.
\<close>

theorem money_wire_roundtrip:
  assumes "money_ok m"
  shows "read_wire (decode_money m) = Inr m \<and>
    (money_ok n \<longrightarrow> (decode_money m = decode_money n) = (m = n))"
  using assms money_codec.read_print money_codec.print_inject by blast

theorem money_wire_roundtrip_witness:
  "decode_money (-7, ''USD'') = Inr (PDict [(''amount'', PStr ''-0.07''), (''currency'', PStr ''USD'')]) \<and>
   read_wire (decode_money (-7, ''USD'')) = Inr (-7, ''USD'')"
proof
  show "decode_money (-7, ''USD'') = Inr (PDict [(''amount'', PStr ''-0.07''), (''currency'', PStr ''USD'')])" by code_simp
  have "money_ok (-7, ''USD'')" by code_simp
  from money_wire_roundtrip[OF this, of "(0, ''USD'')"] show "read_wire (decode_money (-7, ''USD'')) = Inr (-7, ''USD'')" by blast
qed

text \<open>
  Encoding never rounds. When \<open>encode_money\<close> accepts a pair, the amount is a text that denotes a
  finite decimal with exactly as many fraction digits as the currency has, and the minor units are
  that decimal times the power of ten of the currency, within 64 bits.
\<close>

theorem encode_money_exact:
  assumes "encode_money a cur = Inr (m, c)"
  shows "\<exists>s d n xp. a = PStr s \<and> cur = PStr c \<and> exponent cur = Inr xp \<and> decimal_of_string s = Some d \<and>
    int_of_digits (dec_digits d) = Some n \<and> - int xp \<le> dec_exp d \<and>
    m = (if dec_neg d then -1 else 1) * int n * 10 ^ nat (dec_exp d + int xp) \<and> in_int64 m"
  using assms by (rule encode_exact)

theorem encode_money_exact_witness:
  "\<exists>s d n xp. PStr ''12E2'' = PStr s \<and> PStr ''JPY'' = PStr ''JPY'' \<and> exponent (PStr ''JPY'') = Inr xp \<and>
    decimal_of_string s = Some d \<and> int_of_digits (dec_digits d) = Some n \<and> - int xp \<le> dec_exp d \<and>
    1200 = (if dec_neg d then -1 else 1) * int n * 10 ^ nat (dec_exp d + int xp) \<and> in_int64 1200"
proof -
  have "encode_money (PStr ''12E2'') (PStr ''JPY'') = Inr (1200, ''JPY'')" by code_simp
  from encode_money_exact[OF this] show ?thesis by blast
qed

text \<open>
  A Money literal of a spec means its digits. A token that parses as a literal yields a wire value
  whose encoding is the number its digits spell, point removed, or is refused because that number is
  outside 64 bits; it never fails for its scale.
\<close>

theorem money_literal_encodes:
  assumes "parse_money_literal tok = Inr (Some w)" and "length tok \<le> max_str_digits"
  shows "\<exists>a c. w = PDict [(''amount'', a), (''currency'', PStr c)] \<and>
    encode_money a (PStr c) = (if in_int64 (int (literal_digits tok)) then Inr (int (literal_digits tok), c)
                               else Inl (MoneyError EncodePrecision))"
  using assms by (rule literal_encodes)

theorem money_literal_encodes_witness:
  "literal_digits ''10.50USD'' = 1050 \<and>
   (\<exists>a c. PDict [(''amount'', PStr ''10.50''), (''currency'', PStr ''USD'')] = PDict [(''amount'', a), (''currency'', PStr c)] \<and>
    encode_money a (PStr c) = (if in_int64 (int (literal_digits ''10.50USD'')) then Inr (int (literal_digits ''10.50USD''), c)
                               else Inl (MoneyError EncodePrecision)))"
proof
  show "literal_digits ''10.50USD'' = 1050" by code_simp
  have "parse_money_literal ''10.50USD'' = Inr (Some (PDict [(''amount'', PStr ''10.50''), (''currency'', PStr ''USD'')]))"
    by code_simp
  moreover have "length ''10.50USD'' \<le> max_str_digits" by (simp add: max_str_digits_def)
  ultimately show "\<exists>a c. PDict [(''amount'', PStr ''10.50''), (''currency'', PStr ''USD'')] = PDict [(''amount'', a), (''currency'', PStr c)] \<and>
    encode_money a (PStr c) = (if in_int64 (int (literal_digits ''10.50USD'')) then Inr (int (literal_digits ''10.50USD''), c)
                               else Inl (MoneyError EncodePrecision))"
    by (rule money_literal_encodes)
qed

end
