(* ===== verification/MoneyAvg.thy ===== *)
theory MoneyAvg
  imports MoneyFacts
begin

text \<open>
  \<open>avg_round\<close> divides through \<open>decimal.Decimal\<close> in its 28-digit context and rounds a second time to
  an integer. The two roundings give the half-to-even quotient for every total below \<open>10 ^ 27\<close>.
\<close>

section \<open>Digits of a number\<close>

lemma show_nat_bounds: "n < 10 ^ length (show_nat n) \<and> (0 < n \<longrightarrow> 10 ^ (length (show_nat n) - 1) \<le> n)"
proof (induction n rule: show_nat.induct)
  case (1 n)
  show ?case
  proof (cases "n < 10")
    case True
    then show ?thesis by (simp add: show_nat.simps)
  next
    case False
    define d where "d = n div 10"
    with 1 False have IH: "d < 10 ^ length (show_nat d)" "10 ^ (length (show_nat d) - 1) \<le> d"
      by (auto simp: d_def div_greater_zero_iff)
    have len: "length (show_nat n) = Suc (length (show_nat d))"
      using False by (simp add: show_nat.simps[of n] d_def)
    have "n < 10 * (d + 1)" by (simp add: d_def)
    also have "\<dots> \<le> 10 * 10 ^ length (show_nat d)" using IH(1) by simp
    finally have a: "n < 10 ^ length (show_nat n)" by (simp add: len)
    have "0 < length (show_nat d)" by simp
    then have "10 ^ length (show_nat d) = 10 * (10::nat) ^ (length (show_nat d) - 1)"
      by (metis Suc_diff_1 power_Suc)
    also have "\<dots> \<le> 10 * d" using IH(2) by simp
    also have "\<dots> \<le> n" by (simp add: d_def)
    finally show ?thesis using a by (simp add: len)
  qed
qed

lemma num_digits_upper: "n < 10 ^ num_digits n"
  and num_digits_lower: "0 < n \<Longrightarrow> 10 ^ (num_digits n - 1) \<le> n"
  using show_nat_bounds[of n] by (simp_all add: num_digits_def)

lemma num_digits_pos: "0 < num_digits n"
  by (simp add: num_digits_def)

lemma num_digits_le: "n < 10 ^ k \<Longrightarrow> 0 < k \<Longrightarrow> num_digits n \<le> k"
  unfolding num_digits_def by (rule show_nat_length)

lemma num_digits_ge:
  assumes "10 ^ k \<le> n" shows "k < num_digits n"
proof (rule ccontr)
  assume "\<not> k < num_digits n"
  then have "(10::nat) ^ num_digits n \<le> 10 ^ k" by (intro power_increasing) simp_all
  with num_digits_upper[of n] assms show False by simp
qed

section \<open>Rounding half to even\<close>

text \<open>\<open>q\<close> is the quotient of \<open>n\<close> by \<open>d\<close> rounded half to even.\<close>

definition rounds_to :: "int \<Rightarrow> int \<Rightarrow> int \<Rightarrow> bool" where
  "rounds_to n d q \<longleftrightarrow> 2 * \<bar>n - q * d\<bar> \<le> d \<and> (2 * \<bar>n - q * d\<bar> = d \<longrightarrow> even q)"

lemma rounds_to_unique:
  assumes d: "0 < d" and p: "rounds_to n d p" and q: "rounds_to n d q"
  shows "p = q"
proof -
  have le: "p \<le> q" if "rounds_to n d p" "rounds_to n d q" for p q
  proof (rule ccontr)
    assume "\<not> p \<le> q"
    then have k: "1 \<le> p - q" by simp
    have a: "2 * \<bar>n - p * d\<bar> \<le> d" "2 * \<bar>n - q * d\<bar> \<le> d" using that by (simp_all add: rounds_to_def)
    have e: "(p - q) * d = (n - q * d) - (n - p * d)" by (simp add: algebra_simps)
    have "x - y \<le> d \<and> (x - y = d \<longrightarrow> 2 * \<bar>x\<bar> = d \<and> 2 * \<bar>y\<bar> = d)"
      if "2 * \<bar>y\<bar> \<le> d" "2 * \<bar>x\<bar> \<le> d" for x y :: int using that by linarith
    from this[OF a] have le: "(p - q) * d \<le> d"
      and tie: "(p - q) * d = d \<longrightarrow> 2 * \<bar>n - q * d\<bar> = d \<and> 2 * \<bar>n - p * d\<bar> = d" unfolding e by blast+
    have "p - q = 1" using k d le by (simp add: mult_le_cancel_right1)
    with tie have "2 * \<bar>n - p * d\<bar> = d" "2 * \<bar>n - q * d\<bar> = d" by simp_all
    with that have "even p" "even q" by (simp_all add: rounds_to_def)
    with \<open>p - q = 1\<close> show False by presburger
  qed
  from le[OF p q] le[OF q p] show ?thesis by simp
qed

lemma div_half_even_rounds:
  assumes "0 < d" shows "rounds_to (int n) (int d) (int (div_half_even n d))"
proof -
  define q r where "q = n div d" and "r = n mod d"
  have n: "int n = int q * int d + int r"
    unfolding q_def r_def by (simp flip: of_nat_mult of_nat_add)
  have r: "r < d" using assms by (simp add: r_def)
  have a: "int n - int q * int d = int r" using n by simp
  have b: "int n - int (Suc q) * int d = int r - int d" using n by (simp add: algebra_simps)
  have f: "div_half_even n d = (if 2 * r < d then q else if 2 * r > d then Suc q else if even q then q else Suc q)"
    by (simp only: div_half_even_def Let_def q_def r_def)
  consider "2 * r < d" | "2 * r > d" | "2 * r = d" "even q" | "2 * r = d" "odd q" by linarith
  then show ?thesis
  proof cases
    case 1
    then have "div_half_even n d = q" by (simp add: f)
    with 1 show ?thesis by (simp add: rounds_to_def a)
  next
    case 2
    then have e: "div_half_even n d = Suc q" by (simp add: f)
    have "2 * \<bar>int r - int d\<bar> < int d" using 2 r by presburger
    then have "2 * \<bar>int n - int (Suc q) * int d\<bar> < int d" unfolding b .
    then show ?thesis unfolding rounds_to_def e by auto
  next
    case 3
    then have "div_half_even n d = q" by (simp add: f)
    with 3 show ?thesis by (simp add: rounds_to_def a)
  next
    case 4
    then have e: "div_half_even n d = Suc q" by (simp add: f)
    have "2 * \<bar>int r - int d\<bar> = int d" using 4 by presburger
    then show ?thesis using 4 unfolding rounds_to_def e b by simp
  qed
qed

lemma div_half_even_unique: "0 < d \<Longrightarrow> rounds_to (int n) (int d) (int q) \<Longrightarrow> div_half_even n d = q"
  using rounds_to_unique[of "int d" "int n" "int q" "int (div_half_even n d)"] div_half_even_rounds[of d n] by simp

section \<open>The sticky digit\<close>

lemma sticky_nearest:
  fixes N b P m c c' :: int
  assumes b: "0 < b" and P: "P = 10 * P'" "0 < P'" and c: "c = N div b"
    and c': "c' = (if N mod b \<noteq> 0 \<and> c mod 5 = 0 then c + 1 else c)" and m: "2 * \<bar>c' - m * P\<bar> \<le> P"
  shows "2 * \<bar>m * (P * b) - N\<bar> \<le> P * b"
proof (cases "N mod b = 0")
  case True
  then have N: "N = c * b" "c' = c" using c c' by auto
  have "\<bar>m * (P * b) - N\<bar> = \<bar>c' - m * P\<bar> * b"
  proof -
    have "m * (P * b) - c * b = (m * P - c) * b" by (simp add: algebra_simps)
    then show ?thesis unfolding N using b by (simp add: abs_mult abs_minus_commute)
  qed
  then have "2 * \<bar>m * (P * b) - N\<bar> = (2 * \<bar>c' - m * P\<bar>) * b" by simp
  also have "\<dots> \<le> P * b" using m b by (intro mult_right_mono) simp_all
  finally show ?thesis .
next
  case False
  define r where "r = N mod b"
  have r: "0 < r" "r < b" using False pos_mod_sign[OF b, of N] pos_mod_bound[OF b, of N] unfolding r_def by linarith+
  have N: "N = c * b + r" by (simp add: c r_def)
  have "c' = (if c mod 5 = 0 then c + 1 else c)" using c' False by simp
  then have "c' mod 5 \<noteq> 0" by presburger
  moreover have "c' mod 5 = 0" if "2 * \<bar>c' - m * P\<bar> = P"
  proof -
    have "2 * (c' - m * P) = P \<or> 2 * (c' - m * P) = - P" using that by linarith
    then have "c' = 5 * (2 * m * P' + P') \<or> c' = 5 * (2 * m * P' - P')" unfolding P(1) by auto
    then show ?thesis by auto
  qed
  ultimately have "2 * \<bar>c' - m * P\<bar> \<noteq> P" by blast
  then have s: "2 * \<bar>c' - m * P\<bar> + 2 \<le> P"
  proof -
    have "2 * x + 2 \<le> P" if "2 * x \<le> P" "2 * x \<noteq> P" for x :: int using that P(1) by presburger
    with m \<open>2 * \<bar>c' - m * P\<bar> \<noteq> P\<close> show ?thesis by blast
  qed
  have near: "\<bar>c' * b - N\<bar> \<le> b" using c' False N r by (auto simp: algebra_simps)
  have "\<bar>m * (P * b) - N\<bar> = \<bar>(m * P - c') * b + (c' * b - N)\<bar>" by (simp add: algebra_simps)
  also have "\<dots> \<le> \<bar>(m * P - c') * b\<bar> + \<bar>c' * b - N\<bar>" by (rule abs_triangle_ineq)
  also have "\<bar>(m * P - c') * b\<bar> = \<bar>c' - m * P\<bar> * b" using b by (simp add: abs_mult abs_minus_commute)
  finally have "2 * \<bar>m * (P * b) - N\<bar> \<le> (2 * \<bar>c' - m * P\<bar> + 2) * b"
    using near by (simp add: distrib_right)
  also have "\<dots> \<le> P * b" using s b by (intro mult_right_mono) simp_all
  finally show ?thesis .
qed

text \<open>The second rounding, of a value within half a unit \<open>1 / Q\<close> of the exact quotient.\<close>

lemma second_rounding:
  fixes a b m Q q :: int
  assumes b: "0 < b" and Q: "b < Q" "even Q" and m: "2 * \<bar>m * b - a * Q\<bar> \<le> b" and q: "rounds_to a b q"
  shows "rounds_to m Q q"
proof -
  have "(m - q * Q) * b = (m * b - a * Q) + (a - q * b) * Q" by (simp add: algebra_simps)
  then have "\<bar>m - q * Q\<bar> * b = \<bar>(m * b - a * Q) + (a - q * b) * Q\<bar>" using b by (metis abs_mult abs_of_pos)
  also have "\<dots> \<le> \<bar>m * b - a * Q\<bar> + \<bar>a - q * b\<bar> * Q"
    using b Q(1) abs_triangle_ineq[of "m * b - a * Q" "(a - q * b) * Q"] by (simp add: abs_mult)
  finally have t: "\<bar>m - q * Q\<bar> * b \<le> \<bar>m * b - a * Q\<bar> + \<bar>a - q * b\<bar> * Q" .
  have "2 * x \<le> b + 2 * z" if "x \<le> y + z" "2 * y \<le> b" for x y z :: int using that by linarith
  from this[OF t m] have main: "2 * \<bar>m - q * Q\<bar> * b \<le> b + 2 * \<bar>a - q * b\<bar> * Q"
    by (simp only: mult.assoc)
  show ?thesis
  proof (cases "2 * \<bar>a - q * b\<bar> = b")
    case True
    with q have ev: "even q" by (simp add: rounds_to_def)
    from main True have "2 * \<bar>m - q * Q\<bar> * b \<le> (1 + Q) * b" by (simp add: distrib_right mult.commute[of b Q])
    then have "2 * \<bar>m - q * Q\<bar> \<le> 1 + Q" using b by simp
    with Q(2) have "2 * \<bar>m - q * Q\<bar> \<le> Q" by presburger
    with ev show ?thesis by (simp add: rounds_to_def)
  next
    case False
    with q have "2 * \<bar>a - q * b\<bar> \<le> b - 1" by (simp add: rounds_to_def)
    then have "2 * \<bar>a - q * b\<bar> * Q \<le> (b - 1) * Q" using b Q(1) by (intro mult_right_mono) simp_all
    with main have "2 * \<bar>m - q * Q\<bar> * b \<le> b + (b - 1) * Q"
      by (meson add_left_mono order_trans)
    also have "\<dots> < Q * b" using Q(1) by (simp add: algebra_simps)
    finally have "2 * \<bar>m - q * Q\<bar> < Q" using b by simp
    then show ?thesis by (simp add: rounds_to_def)
  qed
qed

section \<open>The average\<close>

lemma dec_divide_nearest:
  assumes a: "0 < a" "a < 10 ^ 27" and b: "0 < b" and d: "dec_divide a b = (m, t)"
  shows "b < 10 ^ nat t" and "0 \<le> t" and "2 * \<bar>int m * int b - int a * 10 ^ nat t\<bar> \<le> int b"
proof -
  define la lb s where "la = num_digits a" and "lb = num_digits b" and "s = lb + 29 - la"
  have la: "la \<le> 27" unfolding la_def by (rule num_digits_le[OF a(2)]) simp
  have lp: "0 < la" "0 < lb" by (simp_all add: la_def lb_def num_digits_pos)
  have ab: "10 ^ (la - 1) \<le> a" "a < 10 ^ la" "10 ^ (lb - 1) \<le> b" "b < 10 ^ lb"
    unfolding la_def lb_def using a(1) b by (simp_all only: num_digits_lower num_digits_upper)
  define c where "c = a * 10 ^ s div b"
  define c' where "c' = (if a * 10 ^ s mod b \<noteq> 0 \<and> c mod 5 = 0 then Suc c else c)"
  have ls: "la + s = lb + 29" using la by (simp add: s_def)
  have lo: "10 ^ 28 \<le> c"
  proof -
    have "10 ^ 28 * b \<le> 10 ^ 28 * 10 ^ lb" using ab(4) by (intro mult_le_mono2) simp
    also have "\<dots> = (10::nat) ^ (28 + lb)" by (simp only: power_add)
    also have "28 + lb = (la - 1) + s" using ls lp by simp
    also have "(10::nat) ^ ((la - 1) + s) = 10 ^ (la - 1) * 10 ^ s" by (simp only: power_add)
    also have "\<dots> \<le> a * 10 ^ s" using ab(1) by (rule mult_le_mono1)
    finally show ?thesis unfolding c_def less_eq_div_iff_mult_less_eq[OF b] .
  qed
  have hi: "c < 10 ^ 30"
  proof -
    have "a * 10 ^ s < 10 ^ la * 10 ^ s" using ab(2) by simp
    also have "\<dots> = (10::nat) ^ (la + s)" by (simp only: power_add)
    also have "la + s = 30 + (lb - 1)" using ls lp by simp
    also have "(10::nat) ^ (30 + (lb - 1)) = 10 ^ 30 * 10 ^ (lb - 1)" by (simp only: power_add)
    also have "\<dots> \<le> 10 ^ 30 * b" using ab(3) by (rule mult_le_mono2)
    finally show ?thesis unfolding c_def div_less_iff_less_mult[OF b] .
  qed
  have c'_hi: "c' < 10 ^ 30"
  proof -
    have "c \<noteq> 10 ^ 30 - 1" if "c mod 5 = 0"
    proof
      assume "c = 10 ^ 30 - 1"
      then have "c mod 5 = 4" by simp
      with that show False by simp
    qed
    with hi show ?thesis by (auto simp: c'_def)
  qed
  define nd k where "nd = num_digits c'" and "k = nd - 28"
  have "28 < nd" unfolding nd_def by (rule num_digits_ge) (use lo in \<open>simp add: c'_def\<close>)
  moreover have "nd \<le> 30" unfolding nd_def by (rule num_digits_le[OF c'_hi]) simp
  ultimately have k: "1 \<le> k" "k \<le> 2" "28 < nd" by (simp_all add: k_def)
  have sh: "int lb - int la + int dec_prec + 1 = int s" using la by (simp add: s_def dec_prec_def)
  have dd: "dec_divide a b = (div_half_even c' (10 ^ k), int s - int k)"
  proof -
    have "dec_divide a b = (if num_digits c' > dec_prec
        then (div_half_even c' (10 ^ (num_digits c' - dec_prec)), int s - int (num_digits c' - dec_prec)) else (c', int s))"
      unfolding dec_divide_def la_def[symmetric] lb_def[symmetric] sh Let_def c'_def c_def by simp
    then show ?thesis using k(3) by (simp add: nd_def[symmetric] k_def dec_prec_def)
  qed
  with d have m: "m = div_half_even c' (10 ^ k)" and t: "t = int s - int k" by simp_all
  have sk: "s = nat t + k" "0 \<le> t" using t k la lp by (simp_all add: s_def)
  show "0 \<le> t" by (rule sk(2))
  have "lb \<le> nat t" using t k la by (simp add: s_def)
  then have "(10::nat) ^ lb \<le> 10 ^ nat t" by (intro power_increasing) simp_all
  with ab(4) show "b < 10 ^ nat t" by (rule less_le_trans)
  have P: "(10::int) ^ k = 10 * 10 ^ (k - 1)" using k by (metis Suc_diff_1 less_le_trans power_Suc zero_less_one)
  have near: "2 * \<bar>int c' - int m * 10 ^ k\<bar> \<le> 10 ^ k"
    using div_half_even_rounds[of "10 ^ k" c'] unfolding m by (simp add: rounds_to_def)
  have ci: "int c = (int a * 10 ^ s) div int b" by (simp add: c_def zdiv_int)
  have c'i: "int c' = (if (int a * 10 ^ s) mod int b \<noteq> 0 \<and> int c mod 5 = 0 then int c + 1 else int c)"
  proof -
    have "(int a * 10 ^ s) mod int b = int (a * 10 ^ s mod b)" by (simp add: zmod_int)
    moreover have "int c mod 5 = int (c mod 5)" by (simp add: zmod_int)
    ultimately show ?thesis by (simp add: c'_def)
  qed
  have "0 < int b" using b by simp
  from sticky_nearest[OF this P _ ci c'i near]
  have "2 * \<bar>int m * (10 ^ k * int b) - int a * 10 ^ s\<bar> \<le> 10 ^ k * int b" by simp
  moreover have "int m * (10 ^ k * int b) - int a * 10 ^ s = 10 ^ k * (int m * int b - int a * 10 ^ nat t)"
    by (simp add: sk(1) power_add algebra_simps)
  ultimately have "10 ^ k * (2 * \<bar>int m * int b - int a * 10 ^ nat t\<bar>) \<le> 10 ^ k * int b"
    by (simp add: abs_mult)
  then show "2 * \<bar>int m * int b - int a * 10 ^ nat t\<bar> \<le> int b" by simp
qed

lemma div_half_even_le: "0 < d \<Longrightarrow> div_half_even n d \<le> Suc n"
  using div_le_dividend[of n d] unfolding div_half_even_def Let_def by (auto intro: le_SucI)

lemma dec_average:
  assumes "a < 10 ^ 27" and b: "0 < b"
  shows "dec_quantize (dec_divide a b) = Some (div_half_even a b)"
proof (cases "a = 0")
  case True
  have nd: "num_digits 0 = 1" by (simp add: num_digits_def show_nat.simps)
  have z: "div_half_even 0 d = 0" for d by (simp add: div_half_even_def)
  have "\<exists>s. dec_divide 0 b = (0, s)" by (simp add: dec_divide_def Let_def nd dec_prec_def split: prod.splits)
  then show ?thesis using True nd z by (auto simp: dec_quantize_def dec_prec_def Let_def)
next
  case False
  then have a: "0 < a" by simp
  obtain m t where d: "dec_divide a b = (m, t)" by fastforce
  note n = dec_divide_nearest[OF a assms(1) b d]
  have t: "nat t \<noteq> 0" using n(1) b by (cases "nat t") auto
  have "int b < int (10 ^ nat t)" using n(1) unfolding of_nat_less_iff .
  then have lt: "int b < 10 ^ nat t" by simp
  have ev: "even ((10::int) ^ nat t)" using t by simp
  have "0 < int b" using b by simp
  from second_rounding[OF this lt ev n(3) div_half_even_rounds[OF b]]
  have "rounds_to (int m) (10 ^ nat t) (int (div_half_even a b))" .
  then have "div_half_even m (10 ^ nat t) = div_half_even a b"
    by (intro div_half_even_unique) simp_all
  moreover have "num_digits (div_half_even a b) \<le> dec_prec"
    using div_half_even_le[OF b, of a] assms(1) unfolding dec_prec_def by (intro num_digits_le) simp_all
  ultimately show ?thesis using n(2) by (simp add: dec_quantize_def d Let_def)
qed

lemma avg_round_eval:
  "\<bar>tot\<bar> < 10 ^ 27 \<Longrightarrow> 0 < count \<Longrightarrow> avg_round tot count =
     Inr (if tot < 0 then - int (div_half_even (nat \<bar>tot\<bar>) (nat count)) else int (div_half_even (nat \<bar>tot\<bar>) (nat count)))"
  by (simp add: avg_round_def dec_average nat_less_iff)

lemma avg_round_half_even:
  assumes "\<bar>tot\<bar> < 10 ^ 27" and "0 < count"
  shows "\<exists>q. avg_round tot count = Inr q \<and> rounds_to tot count q"
proof -
  have n: "nat \<bar>tot\<bar> < 10 ^ 27" using assms(1) by (simp add: nat_less_iff)
  have b: "0 < nat count" using assms(2) by simp
  define q where "q = div_half_even (nat \<bar>tot\<bar>) (nat count)"
  have r: "rounds_to \<bar>tot\<bar> count (int q)"
    using div_half_even_rounds[OF b, of "nat \<bar>tot\<bar>"] assms(2) by (simp add: q_def)
  have "avg_round tot count = Inr (if tot < 0 then - int q else int q)"
    using dec_average[OF n b] assms(2) by (simp add: avg_round_def q_def)
  moreover have "rounds_to tot count (if tot < 0 then - int q else int q)"
  proof (cases "tot < 0")
    case True
    then have "\<bar>tot\<bar> - int q * count = - (tot - - int q * count)" by simp
    then have "\<bar>\<bar>tot\<bar> - int q * count\<bar> = \<bar>tot - - int q * count\<bar>" by (simp only: abs_minus_cancel)
    with r True show ?thesis unfolding rounds_to_def by simp
  qed (use r in simp)
  ultimately show ?thesis by blast
qed

section \<open>Properties\<close>

text \<open>
  C35: \<open>avg_round\<close> is the half-to-even quotient. For every total below \<open>10 ^ 27\<close>, which covers the
  64-bit totals its callers pass, and every positive count, rounding first to the 28 digits of the
  decimal context and then to an integer gives the nearest integer to the exact quotient, and the
  even one of the two at a tie.
\<close>

theorem avg_round_is_half_even:
  assumes "\<bar>tot\<bar> < 10 ^ 27" and "0 < count"
  shows "\<exists>q. avg_round tot count = Inr q \<and> rounds_to tot count q"
  using assms by (rule avg_round_half_even)

theorem avg_round_is_half_even_witness:
  "\<exists>q. avg_round (-5) 2 = Inr q \<and> rounds_to (-5) 2 q"
  by (rule avg_round_is_half_even) simp_all

end
