(* ===== verification/EvalFacts.thy ===== *)
theory EvalFacts
  imports Aggregates ConditionFacts InstantFacts MoneyAvg
begin

text \<open>
  Evaluation stays in the signed 64-bit domain and never wraps, the predicates agree with the
  evaluator they describe, and an aggregate is the fold it is meant to be.
\<close>

section \<open>Arithmetic\<close>

lemma checked_Inr [simp]: "checked n = Inr m \<longleftrightarrow> m = n \<and> in_int64 n"
  by (auto simp: checked_def)

lemma checked_Inl: "checked n = Inl e \<longleftrightarrow> e = RunError OutOfInt64 \<and> \<not> in_int64 n"
  by (auto simp: checked_def)

text \<open>Division rounds toward zero: the quotient times the divisor leaves a remainder smaller than it, with the sign of the dividend.\<close>

lemma trunc_div_spec:
  assumes "r \<noteq> 0"
  shows "\<exists>m. l = trunc_div l r * r + m \<and> \<bar>m\<bar> < \<bar>r\<bar> \<and> (m = 0 \<or> (m < 0) = (l < 0))"
proof -
  define q m where "q = \<bar>l\<bar> div \<bar>r\<bar>" and "m = \<bar>l\<bar> mod \<bar>r\<bar>"
  have rp: "0 < \<bar>r\<bar>" using assms by simp
  have l: "\<bar>l\<bar> = q * \<bar>r\<bar> + m" by (simp add: q_def m_def)
  have m: "0 \<le> m" "m < \<bar>r\<bar>" using pos_mod_sign[OF rp] pos_mod_bound[OF rp] by (simp_all add: m_def)
  have t: "trunc_div l r = (if (l < 0) \<noteq> (r < 0) then - q else q)" by (simp add: trunc_div_def q_def)
  show ?thesis
  proof (cases "l < 0")
    case True
    have "l = trunc_div l r * r + (- m)" using True l t by (cases "r < 0") auto
    with m True show ?thesis by (intro exI[of _ "- m"]) auto
  next
    case False
    have "l = trunc_div l r * r + m" using False l t by (cases "r < 0") auto
    with m False show ?thesis by (intro exI[of _ m]) auto
  qed
qed

definition exact_arith :: "arith_op \<Rightarrow> int \<Rightarrow> int \<Rightarrow> int \<Rightarrow> bool" where
  "exact_arith op l r n \<longleftrightarrow>
     (case op of OpAdd \<Rightarrow> n = l + r | OpSub \<Rightarrow> n = l - r | OpMul \<Rightarrow> n = l * r
      | OpDiv \<Rightarrow> r \<noteq> 0 \<and> (\<exists>m. l = n * r + m \<and> \<bar>m\<bar> < \<bar>r\<bar> \<and> (m = 0 \<or> (m < 0) = (l < 0))))"

definition arith_result :: "arith_op \<Rightarrow> int \<Rightarrow> int \<Rightarrow> int" where
  "arith_result op l r = (case op of OpAdd \<Rightarrow> l + r | OpSub \<Rightarrow> l - r | OpMul \<Rightarrow> l * r | OpDiv \<Rightarrow> trunc_div l r)"

lemma arith_result_exact: "\<not> (op = OpDiv \<and> r = 0) \<Longrightarrow> exact_arith op l r (arith_result op l r)"
  using trunc_div_spec[of r l] by (cases op) (simp_all add: exact_arith_def arith_result_def)

lemma int_arith_cases:
  "int_arith op l r = (if op = OpDiv \<and> r = 0 then Inl (RunError DivisionByZero) else checked (arith_result op l r))"
  by (cases op) (simp_all add: int_arith_def arith_result_def)

lemma int_arith_exact: "int_arith op l r = Inr n \<Longrightarrow> in_int64 n \<and> exact_arith op l r n"
  using arith_result_exact[of op r l] by (auto simp: int_arith_cases split: if_splits)

lemma int_arith_error:
  "int_arith op l r = Inl e \<Longrightarrow>
     (e = RunError DivisionByZero \<and> op = OpDiv \<and> r = 0) \<or>
     (e = RunError OutOfInt64 \<and> (\<exists>n. exact_arith op l r n \<and> \<not> in_int64 n))"
  using arith_result_exact[of op r l] by (auto simp: int_arith_cases checked_Inl split: if_splits)

section \<open>The 64-bit domain\<close>

fun num_ok :: "num \<Rightarrow> bool" where
  "num_ok (Num n) = in_int64 n"
| "num_ok (Pair m) = money_ok m"

definition num_opt_ok :: "num option \<Rightarrow> bool" where
  "num_opt_ok x = (case x of None \<Rightarrow> True | Some n \<Rightarrow> num_ok n)"

lemma money_ok_encode: "encode_money a c = Inr m \<Longrightarrow> money_ok m"
  using encode_currency[of a c "fst m" "snd m"] by (auto simp: money_ok_def)

lemma of_money_Inr [simp]: "of_money x = Inr m \<longleftrightarrow> x = Inr m"
  by (auto simp: of_money_def split: sum.splits money_exc.splits)

lemma read_number_ok: "read_number name w = Inr x \<Longrightarrow> num_opt_ok x"
  by (cases w)
    (auto simp: read_number_def num_opt_ok_def bindE_iffs in_int64_def int64_numerals
      dest: money_ok_encode split: if_splits sum.splits cond_exc.splits option.splits)

lemma eval_operand_ok: "eval_operand sc x = Inr n \<Longrightarrow> wf_operand x \<Longrightarrow> num_opt_ok n"
  by (cases x) (auto simp: eval_operand_def num_opt_ok_def in_int64_def int64_numerals dest: read_number_ok)

lemma money_arith_ok:
  "eval_money_arith op a b = Inr n \<Longrightarrow> num_ok a \<Longrightarrow> num_ok b \<Longrightarrow> num_ok n"
  by (cases a; cases b)
    (auto simp: eval_money_arith_def bindE_iffs money_ok_def money_add_def money_sub_def money_mul_int_def in_domain_def
      split: arith_op.splits if_splits)

lemma eval_value_ok: "eval_value sc v = Inr n \<Longrightarrow> wf_val v \<Longrightarrow> num_opt_ok n"
proof (cases v)
  case (Arith l op r)
  assume e: "eval_value sc v = Inr n" and wf: "wf_val v"
  from e Arith obtain a b where a: "eval_operand sc l = Inr a" and b: "eval_operand sc r = Inr b"
    by (auto simp: eval_value_def bindE_iffs)
  from wf Arith have "num_opt_ok a" "num_opt_ok b" using eval_operand_ok[OF a] eval_operand_ok[OF b] by simp_all
  with e Arith a b show ?thesis
    by (auto simp: eval_value_def num_opt_ok_def bindE_iffs dest: int_arith_exact money_arith_ok
        split: option.splits num.splits)
qed (auto simp: eval_value_def dest: eval_operand_ok)

lemma num_wire_total: "num_opt_ok x \<Longrightarrow> \<exists>v. num_wire x = Inr v"
  by (auto simp: num_opt_ok_def num_wire_def money_ok_def decode_money_def split: option.splits num.splits sum.splits prod.splits)

section \<open>Numeric predicates\<close>

lemma encode_in_range: "encode_instant s = Inr ms \<Longrightarrow> checked ms = Inr ms"
  using encode_range by simp

lemma numeric_shape_agrees:
  assumes "w \<noteq> PNone" and "\<not> is_dict w"
  shows "is_numeric_shaped w \<longleftrightarrow>
    (\<exists>n. read_number name w = Inr (Some (Num n))) \<or> read_number name w = Inl (RunError OutOfInt64)"
proof (cases w)
  case (PInt n)
  then show ?thesis by (auto simp: is_numeric_shaped_def read_number_def checked_def)
next
  case (PStr s)
  show ?thesis
  proof (cases "is_instant_shaped s")
    case True
    with PStr encode_in_range[of s] encode_error[of s] show ?thesis
      by (cases "encode_instant s") (auto simp: is_numeric_shaped_def read_number_def checked_def)
  next
    case False
    with PStr show ?thesis
      by (cases "py_int s") (auto simp: is_numeric_shaped_def read_number_def checked_def)
  qed
qed (use assms in \<open>auto simp: is_numeric_shaped_def read_number_def is_dict_def\<close>)

section \<open>Substitution in a format\<close>

text \<open>The placeholders filled from left to right in one pass over the template.\<close>

fun fill_all :: "string list \<Rightarrow> string \<Rightarrow> string" where
  "fill_all [] s = s"
| "fill_all (p # ps) [] = []"
| "fill_all (p # ps) [c] = [c]"
| "fill_all (p # ps) (c # d # s) =
     (if c = CHR ''{'' \<and> d = CHR ''}'' then p @ fill_all ps s else c # fill_all (p # ps) (d # s))"

definition brace_free :: "string \<Rightarrow> bool" where
  "brace_free p = (p \<noteq> [] \<and> CHR ''{'' \<notin> set p \<and> CHR ''}'' \<notin> set p)"

definition opens_hole :: "char \<Rightarrow> string \<Rightarrow> bool" where
  "opens_hole c s = (c = CHR ''{'' \<and> s \<noteq> [] \<and> hd s = CHR ''}'')"

lemma fill_hole_skip: "\<not> opens_hole c s \<Longrightarrow> fill_hole p (c # s) = c # fill_hole p s"
  by (cases s) (auto simp: opens_hole_def)

lemma fill_hole_hd:
  "brace_free p \<Longrightarrow> \<not> opens_hole c s \<Longrightarrow> \<not> opens_hole c (fill_hole p s)"
  by (cases p; cases "(p, s)" rule: fill_hole.cases) (auto simp: opens_hole_def brace_free_def)

lemma fold_fill_skip:
  "list_all brace_free ps \<Longrightarrow> \<not> opens_hole c s \<Longrightarrow> fold fill_hole ps (c # s) = c # fold fill_hole ps s"
  by (induction ps arbitrary: s) (simp_all add: fill_hole_skip fill_hole_hd)

lemma fold_fill_prefix:
  assumes "list_all brace_free ps" and "CHR ''{'' \<notin> set p"
  shows "fold fill_hole ps (p @ s) = p @ fold fill_hole ps s"
  using assms(2)
proof (induction p)
  case (Cons c p)
  then have "\<not> opens_hole c (p @ s)" by (auto simp: opens_hole_def)
  with fold_fill_skip[OF assms(1) this] Cons show ?case by simp
qed simp

lemma fold_fill_Nil: "fold fill_hole ps [] = []"
  by (induction ps) simp_all

lemma fold_fill_all: "list_all brace_free ps \<Longrightarrow> fold fill_hole ps s = fill_all ps s"
proof (induction ps s rule: fill_all.induct)
  case (4 p ps c d s)
  show ?case
  proof (cases "c = CHR ''{'' \<and> d = CHR ''}''")
    case True
    have "fold fill_hole ps (p @ s) = p @ fold fill_hole ps s"
      using 4(3) by (intro fold_fill_prefix) (simp_all add: brace_free_def[of p])
    with 4 True show ?thesis by simp
  next
    case False
    then have "\<not> opens_hole c (d # s)" by (simp add: opens_hole_def)
    from fold_fill_skip[OF 4(3) this] 4(2)[OF False 4(3)]
    have "fold fill_hole (p # ps) (c # d # s) = c # fill_all (p # ps) (d # s)" by simp
    also have "\<dots> = fill_all (p # ps) (c # d # s)" using False by (auto simp del: fold_simps)
    finally show ?thesis .
  qed
next
  case (3 p ps c)
  have "fold fill_hole qs [c] = [c]" for qs by (induction qs) simp_all
  then show ?case by simp
qed (simp_all add: fold_fill_Nil)

section \<open>Sums\<close>

lemma sum_ints_foldE:
  "foldE (\<lambda>v tot. bindE (row_int v) (\<lambda>n. checked (tot + n))) vs s = Inr t \<longleftrightarrow>
     (\<exists>ns. mapE row_int vs = Inr ns \<and> t = s + sum_list ns \<and>
       (\<forall>k \<in> {1..length ns}. in_int64 (s + sum_list (take k ns))))"
proof (induction vs arbitrary: s)
  case (Cons v vs)
  have split: "(\<forall>k \<in> {1..Suc m}. P k) \<longleftrightarrow> P 1 \<and> (\<forall>k \<in> {1..m}. P (Suc k))" for P and m :: nat
  proof -
    have "{1..Suc m} = insert 1 (Suc ` {1..m})"
      unfolding image_Suc_atLeastAtMost by (simp add: atLeastAtMost_insertL)
    then have "(\<forall>k \<in> {1..Suc m}. P k) \<longleftrightarrow> (\<forall>k \<in> insert 1 (Suc ` {1..m}). P k)" by (simp only:)
    then show ?thesis unfolding ball_simps image_iff by blast
  qed
  have pre: "(\<forall>k \<in> {1..length (x # ns)}. in_int64 (s + sum_list (take k (x # ns)))) \<longleftrightarrow>
      in_int64 (s + x) \<and> (\<forall>k \<in> {1..length ns}. in_int64 (s + x + sum_list (take k ns)))" for x ns
    unfolding list.size add_0_right add_Suc_right split by (simp add: add.assoc)
  have "foldE (\<lambda>v tot. bindE (row_int v) (\<lambda>n. checked (tot + n))) (v # vs) s = Inr t \<longleftrightarrow>
      (\<exists>x ns. row_int v = Inr x \<and> mapE row_int vs = Inr ns \<and> t = s + x + sum_list ns \<and>
        in_int64 (s + x) \<and> (\<forall>k \<in> {1..length ns}. in_int64 (s + x + sum_list (take k ns))))"
    by (auto simp: bindE_iffs Cons.IH simp del: One_nat_def)
  also have "\<dots> \<longleftrightarrow> (\<exists>x ns. row_int v = Inr x \<and> mapE row_int vs = Inr ns \<and> t = s + sum_list (x # ns) \<and>
        (\<forall>k \<in> {1..length (x # ns)}. in_int64 (s + sum_list (take k (x # ns)))))"
    unfolding pre by (simp add: add.assoc)
  also have "\<dots> \<longleftrightarrow> (\<exists>ns. mapE row_int (v # vs) = Inr ns \<and> t = s + sum_list ns \<and>
        (\<forall>k \<in> {1..length ns}. in_int64 (s + sum_list (take k ns))))"
    by (simp only: mapE.simps bindE_iffs sum.inject) blast
  finally show ?case .
qed auto

lemma sum_ints_iff:
  "sum_ints vs = Inr t \<longleftrightarrow>
     (\<exists>ns. mapE row_int vs = Inr ns \<and> t = sum_list ns \<and> (\<forall>k \<in> {1..length ns}. in_int64 (sum_list (take k ns))))"
  unfolding sum_ints_def sum_ints_foldE by simp

lemma sum_money_iff:
  "sum_money m ms = Inr t \<longleftrightarrow> (\<forall>p \<in> set ms. snd p = snd m) \<and> t = (fst m + sum_list (map fst ms), snd m)"
  unfolding sum_money_def
  by (induction ms arbitrary: m) (auto simp: bindE_iffs money_add_def split: if_splits)

section \<open>Contract: an order by keys\<close>

text \<open>
  The \<open>min\<close>/\<open>max\<close> loops rely on one thing of their comparison: when it answers, it compares the ranks
  of two keys that are of the same sort (for Money, of one currency).
\<close>

locale ranked =
  fixes better :: "'k \<Rightarrow> 'k \<Rightarrow> run_exc + bool"
    and rank :: "'k \<Rightarrow> int"
    and same :: "'k \<Rightarrow> 'k \<Rightarrow> bool"
  assumes better_rank: "better k b = Inr x \<Longrightarrow> x = (rank k < rank b) \<and> same k b"
    and same_refl: "same k k"
    and same_sym: "same k b \<Longrightarrow> same b k"
    and same_trans: "same k b \<Longrightarrow> same b c \<Longrightarrow> same k c"
begin

lemma loop_result:
  assumes "minmax_loop better key best bk vs = Inr v"
  shows "\<exists>k. ((v = best \<and> k = bk) \<or> (v \<in> set vs \<and> key v = Inr k \<and> rank k < rank bk)) \<and> rank k \<le> rank bk \<and> same k bk \<and>
    (\<forall>w \<in> set vs. \<exists>kw. key w = Inr kw \<and> rank k \<le> rank kw \<and> same kw k)"
  using assms
proof (induction vs arbitrary: best bk)
  case (Cons w vs)
  from Cons.prems obtain kw b where kw: "key w = Inr kw" and b: "better kw bk = Inr b"
    and r: "(if b then minmax_loop better key w kw vs else minmax_loop better key best bk vs) = Inr v"
    by (auto simp: bindE_iffs)
  from better_rank[OF b] have bx: "b = (rank kw < rank bk)" and s: "same kw bk" by blast+
  show ?case
  proof (cases b)
    case True
    with r Cons.IH[of w kw] obtain k where k: "(v = w \<and> k = kw) \<or> (v \<in> set vs \<and> key v = Inr k \<and> rank k < rank kw)"
      "rank k \<le> rank kw" "same k kw" "\<forall>w \<in> set vs. \<exists>kw. key w = Inr kw \<and> rank k \<le> rank kw \<and> same kw k" by auto
    from True bx have lt: "rank kw < rank bk" by simp
    show ?thesis
      by (rule exI[of _ k]) (use k kw lt s in \<open>auto intro: same_trans same_sym\<close>)
  next
    case False
    with r Cons.IH[of best bk] obtain k where k: "(v = best \<and> k = bk) \<or> (v \<in> set vs \<and> key v = Inr k \<and> rank k < rank bk)"
      "rank k \<le> rank bk" "same k bk" "\<forall>w \<in> set vs. \<exists>kw. key w = Inr kw \<and> rank k \<le> rank kw \<and> same kw k" by auto
    from False bx have le: "rank bk \<le> rank kw" by simp
    show ?thesis
      by (rule exI[of _ k]) (use k kw le s in \<open>auto intro: same_trans same_sym\<close>)
  qed
qed (auto intro: same_refl)

lemma minmax_result:
  assumes "minmax_by better key vs = Inr v" and "vs \<noteq> []"
  shows "\<exists>k. v \<in> set vs \<and> key v = Inr k \<and>
    (\<forall>w \<in> set vs. \<exists>kw. key w = Inr kw \<and> rank k \<le> rank kw \<and> same kw k)"
proof -
  obtain h t where vs: "vs = h # t" using assms(2) by (cases vs) auto
  with assms(1) obtain bk where bk: "key h = Inr bk" and l: "minmax_loop better key h bk t = Inr v"
    by (auto simp: minmax_by_def bindE_iffs)
  from loop_result[OF l] obtain k where
    k: "(v = h \<and> k = bk) \<or> (v \<in> set t \<and> key v = Inr k \<and> rank k < rank bk)" "rank k \<le> rank bk" "same k bk"
      "\<forall>w \<in> set t. \<exists>kw. key w = Inr kw \<and> rank k \<le> rank kw \<and> same kw k" by blast
  show ?thesis
    by (rule exI[of _ k]) (use k bk same_sym[OF k(3)] in \<open>auto simp: vs\<close>)
qed

end

definition rank_of :: "bool \<Rightarrow> int \<Rightarrow> int" where
  "rank_of minimum n = (if minimum then n else - n)"

definition money_rank :: "bool \<Rightarrow> money \<Rightarrow> int" where
  "money_rank minimum m = rank_of minimum (fst m)"

definition same_currency :: "money \<Rightarrow> money \<Rightarrow> bool" where
  "same_currency a b = (snd a = snd b)"

interpretation least_int: ranked "better_int True" "rank_of True" "\<lambda>_ _. True"
  by unfold_locales (auto simp: better_int_def rank_of_def)

interpretation greatest_int: ranked "better_int False" "rank_of False" "\<lambda>_ _. True"
  by unfold_locales (auto simp: better_int_def rank_of_def)

lemma better_money_rank:
  "better_money minimum k b = Inr x \<Longrightarrow> x = (money_rank minimum k < money_rank minimum b) \<and> same_currency k b"
  by (auto simp: better_money_def bindE_iffs money_compare_def money_rank_def rank_of_def same_currency_def split: if_splits)

interpretation least_money: ranked "better_money True" "money_rank True" same_currency
  by unfold_locales (use better_money_rank in \<open>auto simp: same_currency_def\<close>)

interpretation greatest_money: ranked "better_money False" "money_rank False" same_currency
  by unfold_locales (use better_money_rank in \<open>auto simp: same_currency_def\<close>)

section \<open>Comparisons and aggregates\<close>

lemma comparison_unresolved:
  assumes "eval_value sc l = Inr x" and "eval_value sc r = Inr y" and "x = None \<or> y = None"
    and "wf_val l" and "wf_val r" and "\<not> is_text_term recorded text_fields l r"
  shows "\<exists>evs. comparison_holds sc recorded text_fields l op r = Inr (False, evs)"
proof -
  from num_wire_total[OF eval_value_ok[OF assms(1,4)]] num_wire_total[OF eval_value_ok[OF assms(2,5)]]
  obtain lw rw where "num_wire x = Inr lw" "num_wire y = Inr rw" by blast
  moreover have "cmp_num op x y = Inr False"
    using assms(3) by (auto simp: cmp_num_def split: option.splits num.splits)
  ultimately show ?thesis using assms by (auto simp: comparison_holds_def)
qed

lemma of_money_fault [simp]: "of_money x \<noteq> Inl (Escaped PyMoneyError)"
  by (auto simp: of_money_def split: sum.splits money_exc.splits)

text \<open>A Money operand in a row never makes the trace entry fail: its wire form exists.\<close>

lemma comparison_value_faults:
  assumes "comparison_holds sc recorded text_fields l op r = Inl e" and "wf_val l" and "wf_val r"
  shows "e \<noteq> Escaped PyMoneyError"
proof
  assume e: "e = Escaped PyMoneyError"
  have ev: "eval_value sc v \<noteq> Inl (Escaped PyMoneyError)" for v
  proof -
    have op: "eval_operand sc x \<noteq> Inl (Escaped PyMoneyError)" for x
      by (cases x) (auto simp: eval_operand_def read_number_def bindE_iffs checked_Inl
          split: pyval.splits option.splits sum.splits cond_exc.splits if_splits)
    show ?thesis
      by (cases v) (auto simp: eval_value_def bindE_iffs op int_arith_cases eval_money_arith_def checked_Inl
          split: option.splits num.splits arith_op.splits if_splits)
  qed
  have tx: "text_comparison_holds sc' l op r \<noteq> Inl (Escaped PyMoneyError)" for sc'
    by (auto simp: text_comparison_holds_def text_of_def bindE_iffs Let_def split: val.splits operand.splits)
  from assms(1)[unfolded e] ev tx obtain x y where x: "eval_value sc l = Inr x" and y: "eval_value sc r = Inr y"
    and bad: "bindE (cmp_num op x y) (\<lambda>holds. bindE (num_wire x) (\<lambda>lw. bindE (num_wire y) (\<lambda>rw.
        Inr (holds, [\<lparr>ev_ref = value_to_string l, ev_value = lw, ev_op = cmp_text op, ev_expected = rw, ev_holds = holds\<rparr>])))) =
      Inl (Escaped PyMoneyError)"
    by (auto simp: comparison_holds_def bindE_eq_Inl_iff split: if_splits)
  from num_wire_total[OF eval_value_ok[OF x assms(2)]] num_wire_total[OF eval_value_ok[OF y assms(3)]] bad
  have "cmp_num op x y = Inl (Escaped PyMoneyError)" by (auto simp: bindE_eq_Inl_iff)
  then show False
    by (cases op) (auto simp: cmp_num_def cmp_money_def bindE_iffs split: option.splits num.splits)
qed

lemma sum_avg_ints:
  assumes "vs \<noteq> []" and "\<not> is_dict (hd vs)" and "eval_sum_avg avg vs t = Inr w"
  shows "\<exists>ns. mapE row_int vs = Inr ns \<and> (\<forall>k \<in> {1..length ns}. in_int64 (sum_list (take k ns))) \<and>
    (\<exists>q. w = PInt q \<and> (if avg then rounds_to (sum_list ns) (int (length ns)) q else q = sum_list ns))"
proof -
  from assms obtain tot where s: "sum_ints vs = Inr tot"
    and w: "(if avg then bindE (of_avg (avg_round tot (int (length vs)))) (\<lambda>q. Inr (PInt q)) else Inr (PInt tot)) = Inr w"
    by (auto simp: eval_sum_avg_def bindE_iffs split: if_splits)
  from s obtain ns where ns: "mapE row_int vs = Inr ns" "tot = sum_list ns" "\<forall>k \<in> {1..length ns}. in_int64 (sum_list (take k ns))"
    unfolding sum_ints_iff by blast
  have len: "length ns = length vs" using ns(1) by (rule mapE_length)
  with assms(1) have "in_int64 tot" using ns(2) ns(3)[rule_format, of "length ns"] by (auto simp: Suc_le_eq)
  then have "\<bar>tot\<bar> < 10 ^ 27" by (auto simp: in_int64_def int64_numerals)
  moreover have "0 < int (length vs)" using assms(1) by simp
  ultimately obtain q where q: "avg_round tot (int (length vs)) = Inr q" "rounds_to tot (int (length vs)) q"
    using avg_round_half_even by blast
  with w ns len show ?thesis by (auto simp: of_avg_def split: if_splits)
qed

lemma sum_avg_money:
  assumes "vs \<noteq> []" and "is_dict (hd vs)" and "eval_sum_avg avg vs t = Inr w"
  shows "\<exists>ms c. mapE encode_row vs = Inr ms \<and> (\<forall>m \<in> set ms. snd m = c) \<and> in_int64 (sum_list (map fst ms)) \<and>
    (\<exists>q. decode_money (q, c) = Inr w \<and>
      (if avg then rounds_to (sum_list (map fst ms)) (int (length ms)) q else q = sum_list (map fst ms)))"
proof -
  from assms obtain ms tot q where ms: "mapE encode_row vs = Inr ms" and s: "sum_money (hd ms) (tl ms) = Inr tot"
    and r: "in_int64 (fst tot)"
    and q: "(if avg then of_avg (avg_round (fst tot) (int (length vs))) else Inr (fst tot)) = Inr q"
    and w: "wire_of (q, snd tot) = Inr w"
    by (cases avg) (auto simp: eval_sum_avg_def bindE_iffs)
  have len: "length ms = length vs" using ms by (rule mapE_length)
  with assms(1) obtain m ms' where cons: "ms = m # ms'" by (cases ms) auto
  from s have tot: "\<forall>p \<in> set ms'. snd p = snd m" "tot = (fst m + sum_list (map fst ms'), snd m)"
    unfolding cons sum_money_iff by simp_all
  have "\<bar>fst tot\<bar> < 10 ^ 27" using r by (auto simp: in_int64_def int64_numerals)
  moreover have "0 < int (length vs)" using assms(1) by simp
  ultimately obtain k where k: "avg_round (fst tot) (int (length vs)) = Inr k" "rounds_to (fst tot) (int (length vs)) k"
    using avg_round_half_even by blast
  have "decode_money (q, snd tot) = Inr w" using w by (auto simp: wire_of_def split: sum.splits)
  with k q tot len cons ms r show ?thesis
    by (auto simp: of_avg_def split: if_splits intro!: exI[of _ ms] exI[of _ "snd m"] exI[of _ q])
qed

lemma eval_minmax_member:
  assumes "eval_minmax minimum vs = Inr v"
  shows "v \<in> set vs"
  using assms
  by (cases minimum)
    (auto simp: eval_minmax_def split: if_splits
      dest!: least_int.minmax_result greatest_int.minmax_result least_money.minmax_result greatest_money.minmax_result)

lemma minmax_ints:
  assumes "vs \<noteq> []" and "\<not> is_dict (hd vs)" and "eval_minmax minimum vs = Inr v"
  shows "\<exists>key k. (key = row_int \<or> key = instant_key) \<and> v \<in> set vs \<and> key v = Inr k \<and>
    (\<forall>w \<in> set vs. \<exists>kw. key w = Inr kw \<and> (if minimum then k \<le> kw else kw \<le> k))"
  using assms
  by (cases minimum; cases "is_str (hd vs)")
    (fastforce simp: eval_minmax_def rank_of_def dest!: least_int.minmax_result greatest_int.minmax_result)+

lemma minmax_money:
  assumes "vs \<noteq> []" and "is_dict (hd vs)" and "eval_minmax minimum vs = Inr v"
  shows "\<exists>k. v \<in> set vs \<and> encode_row v = Inr k \<and>
    (\<forall>w \<in> set vs. \<exists>kw. encode_row w = Inr kw \<and> snd kw = snd k \<and> (if minimum then fst k \<le> fst kw else fst kw \<le> fst k))"
  using assms
  by (cases minimum)
    (fastforce simp: eval_minmax_def money_rank_def rank_of_def same_currency_def
      dest!: least_money.minmax_result greatest_money.minmax_result)+

section \<open>Properties\<close>

definition sample_scope :: scope where
  "sample_scope = \<lparr>sc_payload = [(''a'', PInt (-7)), (''b'', PStr ''2''), (''s'', PStr ''x''), (''q'', PStr ''{}'')],
     sc_bindings = [(''order'', PDict [(''total'', PDict [(''amount'', PStr ''1.50''), (''currency'', PStr ''USD'')])])],
     sc_caller = None, sc_response = None\<rparr>"

text \<open>
  C36: Evaluation never leaves the signed 64-bit domain. Whatever the payload, the rows and the claims
  of the caller hold, a value expression that the parser accepted evaluates to nothing, to an integer
  within 64 bits, or to a Money pair within 64 bits of a known currency.
\<close>

theorem eval_value_in_domain:
  assumes "parse_value (Some text') = Inr v" and "eval_value sc v = Inr n"
  shows "num_opt_ok n"
proof -
  from assms(1) have "parse_value_tokens (split_ws text') = Inr v"
    by (auto simp: parse_value_def Let_def split: if_splits)
  from eval_value_ok[OF assms(2) parse_value_tokens_wf[OF this]] show ?thesis .
qed

theorem eval_value_in_domain_witness:
  "eval_value sample_scope (Operand (Ref ''order.total'')) = Inr (Some (Pair (150, ''USD''))) \<and>
   num_opt_ok (Some (Pair (150, ''USD'')))"
proof
  show e: "eval_value sample_scope (Operand (Ref ''order.total'')) = Inr (Some (Pair (150, ''USD'')))" by code_simp
  have "parse_value (Some ''order.total'') = Inr (Operand (Ref ''order.total''))" by code_simp
  from eval_value_in_domain[OF this e] show "num_opt_ok (Some (Pair (150, ''USD'')))" .
qed

text \<open>
  Guard and assignment arithmetic is exact. When \<open>l op r\<close> evaluates to an integer, both operands
  did, and the result is their exact sum, difference or product, or for \<open>/\<close> the quotient truncated
  toward zero by a non-zero divisor; nothing wraps.
\<close>

theorem eval_arith_exact:
  assumes "eval_value sc (Arith l op r) = Inr (Some (Num n))"
  shows "\<exists>a b. eval_operand sc l = Inr (Some (Num a)) \<and> eval_operand sc r = Inr (Some (Num b)) \<and>
    exact_arith op a b n \<and> in_int64 n"
proof -
  from assms obtain x y where x: "eval_operand sc l = Inr x" and y: "eval_operand sc r = Inr y"
    by (auto simp: eval_value_def bindE_iffs)
  have money: "eval_money_arith op c d \<noteq> Inr (Num n)" for c d
    by (auto simp: eval_money_arith_def bindE_iffs)
  from assms x y money obtain a b where "x = Some (Num a)" "y = Some (Num b)" "int_arith op a b = Inr n"
    by (auto simp: eval_value_def bindE_iffs split: option.splits num.splits)
  with x y int_arith_exact show ?thesis by blast
qed

theorem eval_arith_exact_witness:
  "eval_value sample_scope (Arith (Ref ''a'') OpDiv (Ref ''b'')) = Inr (Some (Num (-3))) \<and>
   (\<exists>a b. eval_operand sample_scope (Ref ''a'') = Inr (Some (Num a)) \<and>
      eval_operand sample_scope (Ref ''b'') = Inr (Some (Num b)) \<and> exact_arith OpDiv a b (-3) \<and> in_int64 (-3))"
proof
  show e: "eval_value sample_scope (Arith (Ref ''a'') OpDiv (Ref ''b'')) = Inr (Some (Num (-3)))" by code_simp
  from eval_arith_exact[OF e]
  show "\<exists>a b. eval_operand sample_scope (Ref ''a'') = Inr (Some (Num a)) \<and>
      eval_operand sample_scope (Ref ''b'') = Inr (Some (Num b)) \<and> exact_arith OpDiv a b (-3) \<and> in_int64 (-3)" .
qed

text \<open>
  A reference that names nothing makes every comparison false. If either side of a numeric or
  Money comparison evaluates to nothing and the other side does not fail, the comparison answers
  \<open>False\<close> for each of the six operators, and never fails itself.
\<close>

theorem unresolved_comparison_false:
  assumes "eval_value sc l = Inr x" and "eval_value sc r = Inr y" and "x = None \<or> y = None"
    and "wf_val l" and "wf_val r" and "\<not> is_text_term recorded text_fields l r"
  shows "\<exists>evs. comparison_holds sc recorded text_fields l op r = Inr (False, evs)"
  using assms by (rule comparison_unresolved)

theorem unresolved_comparison_false_witness:
  "\<exists>evs. comparison_holds sample_scope [] None (Operand (Ref ''order.gone'')) OpNe (Operand (Lit 3 False)) = Inr (False, evs)"
proof -
  have l: "eval_value sample_scope (Operand (Ref ''order.gone'')) = Inr None" by code_simp
  have r: "eval_value sample_scope (Operand (Lit 3 False)) = Inr (Some (Num 3))" by code_simp
  have w: "wf_val (Operand (Ref ''order.gone''))" "wf_val (Operand (Lit 3 False))" by code_simp+
  have t: "\<not> is_text_term [] None (Operand (Ref ''order.gone'')) (Operand (Lit 3 False))" by code_simp
  show ?thesis by (rule unresolved_comparison_false[OF l r _ w t]) simp
qed

text \<open>
  \<open>is-numeric\<close> says what the evaluator does. For every value that is present and no dictionary, the
  predicate holds exactly when the evaluator reads the value as an integer, or would but for the
  64-bit bound.
\<close>

theorem numeric_predicate_agrees:
  assumes "w \<noteq> PNone" and "\<not> is_dict w"
  shows "is_numeric_shaped w \<longleftrightarrow>
    (\<exists>n. read_number name w = Inr (Some (Num n))) \<or> read_number name w = Inl (RunError OutOfInt64)"
  using assms by (rule numeric_shape_agrees)

theorem numeric_predicate_agrees_witness:
  "is_numeric_shaped (PStr '' 4_2 '') \<and>
   ((\<exists>n. read_number ''f'' (PStr '' 4_2 '') = Inr (Some (Num n))) \<or> read_number ''f'' (PStr '' 4_2 '') = Inl (RunError OutOfInt64))"
proof -
  have n: "is_numeric_shaped (PStr '' 4_2 '')" by code_simp
  have "PStr '' 4_2 '' \<noteq> PNone" "\<not> is_dict (PStr '' 4_2 '')" by (simp_all add: is_dict_def)
  from numeric_predicate_agrees[OF this] n show ?thesis by blast
qed

text \<open>
  \<open>format\<close> is positional. When no argument resolves to nothing and the texts of the arguments are
  non-empty and without braces, the result is the template with its placeholders filled from left to
  right, each by its own argument.
\<close>

theorem format_positional:
  assumes "\<forall>a \<in> set args. resolve_reference (no_response sc) a \<noteq> PNone"
    and "\<forall>a \<in> set args. brace_free (py_str (resolve_reference (no_response sc) a))"
  shows "eval_format sc template args =
    Some (fill_all (map (\<lambda>a. py_str (resolve_reference (no_response sc) a)) args) template)"
proof -
  have "fold (\<lambda>v out. fill_hole (py_str v) out) vs t = fold fill_hole (map py_str vs) t" for vs t
    by (induction vs arbitrary: t) simp_all
  moreover have "list_all brace_free (map (\<lambda>a. py_str (resolve_reference (no_response sc) a)) args)"
    using assms(2) by (simp add: list_all_iff)
  ultimately show ?thesis
    using assms(1) fold_fill_all by (force simp: eval_format_def Let_def comp_def)
qed

theorem format_positional_witness:
  "eval_format sample_scope ''{}/{}'' [''a'', ''s''] = Some ''-7/x''"
proof -
  have "\<forall>a \<in> set [''a'', ''s'']. resolve_reference (no_response sample_scope) a \<noteq> PNone" by code_simp
  moreover have "\<forall>a \<in> set [''a'', ''s'']. brace_free (py_str (resolve_reference (no_response sample_scope) a))" by code_simp
  ultimately have "eval_format sample_scope ''{}/{}'' [''a'', ''s''] =
      Some (fill_all (map (\<lambda>a. py_str (resolve_reference (no_response sample_scope) a)) [''a'', ''s'']) ''{}/{}'')"
    by (rule format_positional)
  also have "\<dots> = Some ''-7/x''" by code_simp
  finally show ?thesis .
qed

text \<open>
  Without that restriction it is not positional: a value that itself contains the two braces is
  filled again by the next argument, so the text of one field decides where another one lands.
\<close>

theorem format_refills_argument:
  "eval_format sample_scope ''{} {}'' [''q'', ''s''] = Some ''x {}'' \<and>
   fill_all (map (\<lambda>a. py_str (resolve_reference (no_response sample_scope) a)) [''q'', ''s'']) ''{} {}'' = ''{} x''"
  by code_simp

text \<open>
  \<open>sum\<close> and \<open>avg\<close> over integers. A result is the exact sum of the rows, every prefix of which stays
  within 64 bits, or the exact quotient of that sum by the number of rows, rounded half to even.
\<close>

theorem sum_avg_of_integers:
  assumes "vs \<noteq> []" and "\<not> is_dict (hd vs)" and "eval_sum_avg avg vs t = Inr w"
  shows "\<exists>ns. mapE row_int vs = Inr ns \<and> (\<forall>k \<in> {1..length ns}. in_int64 (sum_list (take k ns))) \<and>
    (\<exists>q. w = PInt q \<and> (if avg then rounds_to (sum_list ns) (int (length ns)) q else q = sum_list ns))"
  using assms by (rule sum_avg_ints)

theorem sum_avg_of_integers_witness:
  "\<exists>ns. mapE row_int [PInt 2, PBool True, PInt 4, PInt (-1)] = Inr ns \<and>
     (\<forall>k \<in> {1..length ns}. in_int64 (sum_list (take k ns))) \<and>
     (\<exists>q. PInt 2 = PInt q \<and> (if True then rounds_to (sum_list ns) (int (length ns)) q else q = sum_list ns))"
proof -
  have "avg_round 6 4 = Inr 2" by (simp add: avg_round_eval div_half_even_def)
  then have "eval_sum_avg True [PInt 2, PBool True, PInt 4, PInt (-1)] None = Inr (PInt 2)"
    by (simp add: eval_sum_avg_def sum_ints_def row_int_def as_int_def checked_def in_int64_def int64_numerals
        of_avg_def is_dict_def)
  from sum_avg_of_integers[OF _ _ this] show ?thesis by (simp add: is_dict_def)
qed

text \<open>
  \<open>sum\<close> and \<open>avg\<close> over Money. All rows are of one currency, the sum of their minor units is exact
  and within 64 bits, and the answer is the wire form of that sum or of its half-to-even average.
\<close>

theorem sum_avg_of_money:
  assumes "vs \<noteq> []" and "is_dict (hd vs)" and "eval_sum_avg avg vs t = Inr w"
  shows "\<exists>ms c. mapE encode_row vs = Inr ms \<and> (\<forall>m \<in> set ms. snd m = c) \<and> in_int64 (sum_list (map fst ms)) \<and>
    (\<exists>q. decode_money (q, c) = Inr w \<and>
      (if avg then rounds_to (sum_list (map fst ms)) (int (length ms)) q else q = sum_list (map fst ms)))"
  using assms by (rule sum_avg_money)

definition krw :: "string \<Rightarrow> pyval" where
  "krw a = PDict [(''amount'', PStr a), (''currency'', PStr ''KRW'')]"

theorem sum_avg_of_money_witness:
  "eval_sum_avg True [krw ''5'', krw ''4''] None = Inr (krw ''4'') \<and>
   (\<exists>ms c. mapE encode_row [krw ''5'', krw ''4''] = Inr ms \<and> (\<forall>m \<in> set ms. snd m = c) \<and> in_int64 (sum_list (map fst ms)) \<and>
    (\<exists>q. decode_money (q, c) = Inr (krw ''4'') \<and>
      (if True then rounds_to (sum_list (map fst ms)) (int (length ms)) q else q = sum_list (map fst ms))))"
proof
  have "mapE encode_row [krw ''5'', krw ''4''] = Inr [(5, ''KRW''), (4, ''KRW'')]" by code_simp
  moreover have "wire_of (4, ''KRW'') = Inr (krw ''4'')" by code_simp
  moreover have "avg_round 9 2 = Inr 4" by (simp add: avg_round_eval div_half_even_def)
  moreover have "is_dict (krw ''5'')" by (simp add: krw_def is_dict_def)
  ultimately show e: "eval_sum_avg True [krw ''5'', krw ''4''] None = Inr (krw ''4'')"
    by (simp add: eval_sum_avg_def sum_money_def money_add_def of_money_def checked_def in_int64_def int64_numerals of_avg_def)
  have "[krw ''5'', krw ''4''] \<noteq> []" "is_dict (hd [krw ''5'', krw ''4''])" by (simp_all add: krw_def is_dict_def)
  from sum_avg_of_money[OF this e]
  show "\<exists>ms c. mapE encode_row [krw ''5'', krw ''4''] = Inr ms \<and> (\<forall>m \<in> set ms. snd m = c) \<and> in_int64 (sum_list (map fst ms)) \<and>
    (\<exists>q. decode_money (q, c) = Inr (krw ''4'') \<and>
      (if True then rounds_to (sum_list (map fst ms)) (int (length ms)) q else q = sum_list (map fst ms)))" .
qed

text \<open>
  \<open>min\<close> and \<open>max\<close> over Money return one of the rows, untouched; all rows are then of one currency,
  and no row is smaller (for \<open>max\<close>, larger) in minor units.
\<close>

theorem minmax_of_money:
  assumes "vs \<noteq> []" and "is_dict (hd vs)" and "eval_minmax minimum vs = Inr v"
  shows "\<exists>k. v \<in> set vs \<and> encode_row v = Inr k \<and>
    (\<forall>w \<in> set vs. \<exists>kw. encode_row w = Inr kw \<and> snd kw = snd k \<and> (if minimum then fst k \<le> fst kw else fst kw \<le> fst k))"
  using assms by (rule minmax_money)

theorem minmax_of_money_witness:
  "eval_minmax True [krw ''5'', krw ''4'', krw ''9''] = Inr (krw ''4'') \<and>
   (\<exists>k. krw ''4'' \<in> set [krw ''5'', krw ''4'', krw ''9''] \<and> encode_row (krw ''4'') = Inr k \<and>
    (\<forall>w \<in> set [krw ''5'', krw ''4'', krw ''9'']. \<exists>kw. encode_row w = Inr kw \<and> snd kw = snd k \<and>
      (if True then fst k \<le> fst kw else fst kw \<le> fst k)))"
proof
  show e: "eval_minmax True [krw ''5'', krw ''4'', krw ''9''] = Inr (krw ''4'')" by code_simp
  have "[krw ''5'', krw ''4'', krw ''9''] \<noteq> []" "is_dict (hd [krw ''5'', krw ''4'', krw ''9''])"
    by (simp_all add: krw_def is_dict_def)
  from minmax_of_money[OF this e]
  show "\<exists>k. krw ''4'' \<in> set [krw ''5'', krw ''4'', krw ''9''] \<and> encode_row (krw ''4'') = Inr k \<and>
    (\<forall>w \<in> set [krw ''5'', krw ''4'', krw ''9'']. \<exists>kw. encode_row w = Inr kw \<and> snd kw = snd k \<and>
      (if True then fst k \<le> fst kw else fst kw \<le> fst k))" .
qed

end
