(* ===== verification/NetProps.thy ===== *)
theory NetProps
  imports Resilience EvalFacts
begin

text \<open>
  The network drivers: how often a call is attempted and what it answers, what the breaker promises, and
  where a path argument can go.
\<close>

section \<open>Attempts\<close>

text \<open>The outcomes of \<open>n\<close> attempts in a row, and the state they leave.\<close>

primrec outcomes :: "nat \<Rightarrow> ('s \<Rightarrow> 'r \<times> 's) \<Rightarrow> 's \<Rightarrow> 'r list \<times> 's" where
  "outcomes 0 f s = ([], s)"
| "outcomes (Suc n) f s = (let (r, s) = f s; (rs, s) = outcomes n f s in (r # rs, s))"

lemma outcomes_length: "length (fst (outcomes n f s)) = n"
  by (induction n arbitrary: s) (simp_all add: split_beta)

text \<open>
  A call's outcomes: only the last may be final. It is final when it is no failure, when it is an exception
  that is no \<open>DriverError\<close>, or when no attempt is left.
\<close>

definition attempts_made :: "nat \<Rightarrow> (net_exc + response) list \<Rightarrow> bool" where
  "attempts_made extra rs \<longleftrightarrow> rs \<noteq> [] \<and> length rs \<le> Suc extra \<and>
     (\<forall>r \<in> set (butlast rs). attempt_failed r \<and> r \<noteq> Inl NetEscaped) \<and>
     (length rs \<le> extra \<longrightarrow> \<not> attempt_failed (last rs) \<or> last rs = Inl NetEscaped)"

definition delays :: "http_retry option \<Rightarrow> nat \<Rightarrow> (net_exc + response) list \<Rightarrow> sleep list" where
  "delays c k rs = (case c of None \<Rightarrow> [] | Some c \<Rightarrow> map (\<lambda>(i, r). retry_delay c i r) (enumerate k (butlast rs)))"

lemma try_attempts_outcomes:
  assumes "try_attempts extra k c f s slept = (r, t, slept')"
  shows "\<exists>n. attempts_made extra (fst (outcomes n f s)) \<and> r = last (fst (outcomes n f s)) \<and> t = snd (outcomes n f s) \<and>
    slept' = slept @ delays c k (fst (outcomes n f s))"
  using assms
proof (induction extra arbitrary: k s slept)
  case 0
  obtain r' s' where "f s = (r', s')" by fastforce
  with 0 have "outcomes 1 f s = ([r], t)" "slept' = slept" by simp_all
  then have "attempts_made 0 (fst (outcomes 1 f s)) \<and> r = last (fst (outcomes 1 f s)) \<and> t = snd (outcomes 1 f s) \<and>
    slept' = slept @ delays c k (fst (outcomes 1 f s))"
    by (simp add: attempts_made_def delays_def split: option.split)
  then show ?case ..
next
  case (Suc extra)
  obtain r' s' where f: "f s = (r', s')" by fastforce
  show ?case
  proof (cases "r' = Inl NetEscaped \<or> \<not> attempt_failed r'")
    case True
    with Suc.prems f have "outcomes 1 f s = ([r], t)" "slept' = slept" "r' = r" by simp_all
    with True have "attempts_made (Suc extra) (fst (outcomes 1 f s)) \<and> r = last (fst (outcomes 1 f s)) \<and> t = snd (outcomes 1 f s) \<and>
      slept' = slept @ delays c k (fst (outcomes 1 f s))"
      by (auto simp: attempts_made_def delays_def split: option.split)
    then show ?thesis ..
  next
    case False
    with Suc.prems f have "try_attempts extra (Suc k) c f s' (slept @ (case c of None \<Rightarrow> [] | Some c \<Rightarrow> [retry_delay c k r'])) = (r, t, slept')"
      by simp
    from Suc.IH[OF this] obtain n where n: "attempts_made extra (fst (outcomes n f s'))" "r = last (fst (outcomes n f s'))" "t = snd (outcomes n f s')"
      "slept' = (slept @ (case c of None \<Rightarrow> [] | Some c \<Rightarrow> [retry_delay c k r'])) @ delays c (Suc k) (fst (outcomes n f s'))" by blast
    obtain rs u where o: "outcomes n f s' = (rs, u)" by fastforce
    with f have o': "outcomes (Suc n) f s = (r' # rs, u)" by simp
    have "rs \<noteq> []" using n(1) o by (simp add: attempts_made_def)
    then have "attempts_made (Suc extra) (r' # rs)" "delays c k (r' # rs) = (case c of None \<Rightarrow> [] | Some c \<Rightarrow> [retry_delay c k r']) @ delays c (Suc k) rs"
      using n(1) False o by (auto simp: attempts_made_def delays_def split: option.split)
    with n o o' \<open>rs \<noteq> []\<close> show ?thesis by (intro exI[of _ "Suc n"]) simp
  qed
qed

section \<open>The breaker\<close>

text \<open>What a breaker promises: closed with a number of failed calls, open since a time, or on trial.\<close>

datatype phase = Closed nat | Open int | Trial int

definition phase_allow :: "int \<Rightarrow> int \<Rightarrow> phase \<Rightarrow> bool \<times> phase" where
  "phase_allow window now p =
     (case p of
        Closed n \<Rightarrow> (True, Closed n)
      | Open t \<Rightarrow> if now < t + window then (False, Open t) else (True, Trial t)
      | Trial t \<Rightarrow> (t + window \<le> now, Trial t))"

definition phase_failure :: "nat \<Rightarrow> int \<Rightarrow> phase \<Rightarrow> phase" where
  "phase_failure threshold now p =
     (case p of Closed n \<Rightarrow> if Suc n < threshold then Closed (Suc n) else Open now | _ \<Rightarrow> Open now)"

definition phase_of :: "breaker \<Rightarrow> phase" where
  "phase_of b = (case br_opened b of None \<Rightarrow> Closed (br_failures b) | Some t \<Rightarrow> if br_half_open b then Trial t else Open t)"

definition breaker_inv :: "breaker \<Rightarrow> bool" where
  "breaker_inv b \<longleftrightarrow> (case br_opened b of None \<Rightarrow> br_failures b < br_threshold b \<and> \<not> br_half_open b
     | Some _ \<Rightarrow> br_threshold b \<le> br_failures b)"

lemma allow_refines:
  assumes "breaker_inv b" and "breaker_allow now b = (a, b')"
  shows "phase_allow (br_window b) now (phase_of b) = (a, phase_of b') \<and> breaker_inv b' \<and>
    br_threshold b' = br_threshold b \<and> br_window b' = br_window b"
  using assms by (auto simp: breaker_allow_def phase_allow_def phase_of_def breaker_inv_def split: option.splits if_splits)

lemma failure_refines:
  assumes "breaker_inv b"
  shows "phase_of (record_failure now b) = phase_failure (br_threshold b) now (phase_of b) \<and> breaker_inv (record_failure now b)"
  using assms by (auto simp: record_failure_def Let_def phase_of_def phase_failure_def breaker_inv_def split: option.splits if_splits)

lemma success_refines: "0 < br_threshold b \<Longrightarrow> phase_of (record_success b) = Closed 0 \<and> breaker_inv (record_success b)"
  by (simp add: record_success_def phase_of_def breaker_inv_def)

lemma new_breaker_refines: "0 < hb_threshold c \<Longrightarrow> phase_of (new_breaker c) = Closed 0 \<and> breaker_inv (new_breaker c)"
  by (simp add: new_breaker_def phase_of_def breaker_inv_def)

section \<open>Paths\<close>

lemma count_fill_hole:
  assumes "c \<notin> set p" and "c \<noteq> CHR ''{''" and "c \<noteq> CHR ''}''"
  shows "count_list (fill_hole p s) c = count_list s c"
  using assms(1) by (induction p s rule: fill_hole.induct) (use assms(2,3) in \<open>auto simp: count_notin\<close>)

definition url_safe :: "char \<Rightarrow> bool" where
  "url_safe c \<longleftrightarrow> unreserved (ord c) \<or> c = CHR ''%''"

lemma unreserved_char: "unreserved n \<Longrightarrow> ord (char_of n :: char) = n"
  by (auto simp: unreserved_def ord_def)

lemma upper_hex_safe: "n < 16 \<Longrightarrow> url_safe (upper_hex n)"
proof -
  assume n: "n < 16"
  then have "unreserved (if n < 10 then 48 + n else 55 + n)" by (auto simp: unreserved_def)
  with unreserved_char show ?thesis by (auto simp: url_safe_def upper_hex_def split: if_splits)
qed

lemma quote_safe: "c \<in> set (quote s) \<Longrightarrow> url_safe c"
proof -
  have byte: "url_safe c" if "c \<in> set (quote_byte n)" "n < 256" for n
    using that upper_hex_safe[of "n div 16"] upper_hex_safe[of "n mod 16"]
    by (auto simp: quote_byte_def url_safe_def unreserved_char split: if_splits)
  have "n < 256" if "n \<in> set (utf8_bytes d)" for n d
    using that ord_less_256[of d] by (auto simp: utf8_bytes_def Let_def split: if_splits)
  then show "c \<in> set (quote s) \<Longrightarrow> url_safe c" using byte by (auto simp: quote_def)
qed

lemma assemble_count:
  assumes "\<not> url_safe c" and "c \<noteq> CHR ''{''" and "c \<noteq> CHR ''}''"
  shows "count_list (assemble_path template args) c = count_list template c"
proof (induction args arbitrary: template)
  case (Cons v args)
  have "c \<notin> set (quote (py_str v))" using assms(1) quote_safe by blast
  from count_fill_hole[OF this assms(2,3)] Cons show ?case by (simp add: assemble_path_def)
qed (simp add: assemble_path_def)

lemma call_phase:
  assumes "hc_breaker cap = Some c" and "breaker_inv (breaker_of target c st)" and "0 < br_threshold (breaker_of target c st)"
    and "call_with_resilience target (Some cap) clock f st = (r, st')" and "r \<noteq> Inl NetEscaped"
  shows "br_threshold (breaker_of target c st') = br_threshold (breaker_of target c st) \<and>
    breaker_inv (breaker_of target c st') \<and>
    (let b = breaker_of target c st; (ok, p) = phase_allow (br_window b) (clock (ns_reads st)) (phase_of b) in
       phase_of (breaker_of target c st') =
         (if \<not> ok then p
          else if attempt_failed r then phase_failure (br_threshold b) (clock (Suc (ns_reads st))) p
          else Closed 0) \<and>
       (\<not> ok \<longrightarrow> r = Inl (BreakerOpen target (br_threshold b))))"
proof -
  let ?b = "breaker_of target c st"
  obtain ok b where a: "breaker_allow (clock (ns_reads st)) ?b = (ok, b)" by fastforce
  note al = allow_refines[OF assms(2) a]
  let ?st = "st\<lparr>ns_breakers := dset target b (ns_breakers st), ns_reads := Suc (ns_reads st)\<rparr>"
  show ?thesis
  proof (cases ok)
    case False
    with assms(1,4) a have "r = Inl (BreakerOpen target (br_threshold b))" "st' = ?st"
      by (simp_all add: call_with_resilience_def)
    with al False show ?thesis by (simp add: breaker_of_def dget_dset)
  next
    case True
    obtain r1 st1 where r1: "run_attempts (Some cap) f ?st = (r1, st1)" by fastforce
    then have reads: "ns_reads st1 = Suc (ns_reads st)"
      by (auto simp: run_attempts_def Let_def split: prod.splits)
    have r: "r = r1" using assms(1,4) a True r1 by (auto simp: call_with_resilience_def split: if_splits)
    have br: "breaker_of target c st' = (if attempt_failed r then record_failure (clock (Suc (ns_reads st))) b else record_success b)"
      using assms(1,4,5) a True r1 r reads
      by (auto simp: call_with_resilience_def breaker_of_def dget_dset split: if_splits)
    have "0 < br_threshold b" using al assms(3) by simp
    with al True failure_refines[of b "clock (Suc (ns_reads st))"] success_refines[of b] show ?thesis
      unfolding br by (simp add: Let_def record_failure_def record_success_def)
  qed
qed

lemma try_attempts_failing:
  assumes "\<And>s. attempt_failed (fst (f s)) \<and> fst (f s) \<noteq> Inl NetEscaped"
  shows "attempt_failed (fst (try_attempts k n c f s slept)) \<and> fst (try_attempts k n c f s slept) \<noteq> Inl NetEscaped"
proof (induction k arbitrary: n s slept)
  case 0
  with assms[of s] show ?case by (simp add: split_beta)
next
  case (Suc k)
  with assms[of s] show ?case by (simp add: split_beta)
qed

text \<open>Calls one after the other.\<close>

primrec calls :: "nat \<Rightarrow> ('s net_state \<Rightarrow> 'r \<times> 's net_state) \<Rightarrow> 's net_state \<Rightarrow> 's net_state" where
  "calls 0 g st = st"
| "calls (Suc n) g st = snd (g (calls n g st))"

lemma failing_call:
  fixes clock :: "nat \<Rightarrow> int"
  assumes "hc_breaker cap = Some c" and "breaker_inv (breaker_of target c st)" and "phase_of (breaker_of target c st) = Closed n"
    and "n < br_threshold (breaker_of target c st)"
    and fails: "\<And>s. attempt_failed (fst (f s)) \<and> fst (f s) \<noteq> Inl NetEscaped"
  defines "st' \<equiv> snd (call_with_resilience target (Some cap) clock f st)"
  shows "breaker_inv (breaker_of target c st')" "br_threshold (breaker_of target c st') = br_threshold (breaker_of target c st)"
    and "phase_of (breaker_of target c st') =
      (if Suc n < br_threshold (breaker_of target c st) then Closed (Suc n) else Open (clock (Suc (ns_reads st))))"
    and "ns_reads st' = Suc (Suc (ns_reads st))"
proof -
  obtain r where r: "call_with_resilience target (Some cap) clock f st = (r, st')" unfolding st'_def by (metis prod.collapse)
  let ?b = "breaker_of target c st"
  have op: "br_opened ?b = None" using assms(3) by (auto simp: phase_of_def split: option.splits if_splits)
  let ?st = "st\<lparr>ns_breakers := dset target ?b (ns_breakers st), ns_reads := Suc (ns_reads st)\<rparr>"
  obtain r1 st1 where r1: "run_attempts (Some cap) f ?st = (r1, st1)" by fastforce
  then have reads: "ns_reads st1 = Suc (ns_reads st)" and "attempt_failed r1 \<and> r1 \<noteq> Inl NetEscaped"
    using try_attempts_failing[of f, OF fails]
    by (auto simp: run_attempts_def Let_def split_beta)
  with r assms(1) op r1 have rr: "r = r1" "attempt_failed r" "r \<noteq> Inl NetEscaped" and "ns_reads st' = Suc (Suc (ns_reads st))"
    by (auto simp: call_with_resilience_def breaker_allow_def)
  then show "ns_reads st' = Suc (Suc (ns_reads st))" by simp
  have "0 < br_threshold ?b" using assms(4) by simp
  from call_phase[OF assms(1,2) this r rr(3)] rr(2) assms(3)
  show "breaker_inv (breaker_of target c st')" "br_threshold (breaker_of target c st') = br_threshold ?b"
    "phase_of (breaker_of target c st') = (if Suc n < br_threshold ?b then Closed (Suc n) else Open (clock (Suc (ns_reads st))))"
    by (simp_all add: phase_allow_def phase_failure_def)
qed

lemma failing_calls:
  fixes clock :: "nat \<Rightarrow> int"
  assumes "hc_breaker cap = Some c" and "0 < hb_threshold c" and "dget (ns_breakers st) target = None"
    and fails: "\<And>s. attempt_failed (fst (f s)) \<and> fst (f s) \<noteq> Inl NetEscaped" and "n \<le> hb_threshold c"
  defines "after \<equiv> \<lambda>n. calls n (call_with_resilience target (Some cap) clock f) st"
  shows "breaker_inv (breaker_of target c (after n)) \<and> br_threshold (breaker_of target c (after n)) = hb_threshold c \<and>
    ns_reads (after n) = ns_reads st + 2 * n \<and>
    phase_of (breaker_of target c (after n)) = (if n < hb_threshold c then Closed n else Open (clock (ns_reads st + 2 * n - 1)))"
  using assms(5)
proof (induction n)
  case 0
  have "breaker_of target c st = new_breaker c" using assms(3) by (simp add: breaker_of_def)
  with new_breaker_refines[OF assms(2)] assms(2) show ?case by (simp add: after_def new_breaker_def)
next
  case (Suc n)
  then have n: "n < hb_threshold c" by simp
  with Suc.IH have b: "breaker_inv (breaker_of target c (after n))" "br_threshold (breaker_of target c (after n)) = hb_threshold c"
    "ns_reads (after n) = ns_reads st + 2 * n" "phase_of (breaker_of target c (after n)) = Closed n" by simp_all
  have s: "after (Suc n) = snd (call_with_resilience target (Some cap) clock f (after n))" by (simp add: after_def)
  from failing_call[OF assms(1) b(1,4) _ fails, of clock] b n show ?case unfolding s by simp
qed

section \<open>Properties\<close>

text \<open>
  C20: A call is either rejected by the open breaker, without an attempt and without a delay, or it makes
  between one and \<open>1 + retry count\<close> attempts: each but the last failed in a way that is retried, the last is
  final or exhausts the count, its outcome is the answer, and a delay was slept after every other attempt,
  the back-off doubled each time and lengthened to \<open>Retry-After\<close> on 429 and 503.
\<close>

theorem call_answers_last_attempt:
  assumes "call_with_resilience target cap clock f st = (r, st')"
  shows "(\<exists>n. r = Inl (BreakerOpen target n) \<and> ns_driver st' = ns_driver st \<and> ns_slept st' = ns_slept st) \<or>
    (\<exists>n. let retry = (case cap of None \<Rightarrow> None | Some c \<Rightarrow> hc_retry c); (rs, s) = outcomes n f (ns_driver st) in
       attempts_made (case retry of None \<Rightarrow> 0 | Some c \<Rightarrow> hr_count c) rs \<and> r = last rs \<and> ns_driver st' = s \<and>
       ns_slept st' = ns_slept st @ delays retry 1 rs)"
proof -
  let ?retry = "case cap of None \<Rightarrow> None | Some c \<Rightarrow> hc_retry c"
  let ?made = "\<lambda>r s slept st0. \<exists>n. let (rs, t) = outcomes n f (ns_driver st0) in
       attempts_made (case ?retry of None \<Rightarrow> 0 | Some c \<Rightarrow> hr_count c) rs \<and> r = last rs \<and> s = t \<and> slept = ns_slept st0 @ delays ?retry 1 rs"
  have run: "?made r (ns_driver st1) (ns_slept st1) st0" if run: "run_attempts cap f st0 = (r, st1)" for r st1 and st0 :: "'a net_state"
  proof -
    from run obtain s slept where
      t: "try_attempts (case ?retry of None \<Rightarrow> 0 | Some c \<Rightarrow> hr_count c) 1 ?retry f (ns_driver st0) [] = (r, s, slept)"
      and st1: "st1 = st0\<lparr>ns_driver := s, ns_slept := ns_slept st0 @ slept\<rparr>"
      by (auto simp: run_attempts_def Let_def split: prod.splits)
    from try_attempts_outcomes[OF t] st1 show ?thesis by (auto simp: split_beta)
  qed
  show ?thesis
  proof (cases "case cap of None \<Rightarrow> None | Some c \<Rightarrow> hc_breaker c")
    case None
    with assms have "run_attempts cap f st = (r, st')" by (simp add: call_with_resilience_def)
    from run[OF this] show ?thesis by (auto simp: Let_def)
  next
    case (Some c)
    obtain ok b where a: "breaker_allow (clock (ns_reads st)) (breaker_of target c st) = (ok, b)" by fastforce
    let ?st = "st\<lparr>ns_breakers := dset target b (ns_breakers st), ns_reads := Suc (ns_reads st)\<rparr>"
    show ?thesis
    proof (cases ok)
      case False
      with assms Some a show ?thesis by (auto simp: call_with_resilience_def)
    next
      case True
      obtain r1 st1 where r1: "run_attempts cap f ?st = (r1, st1)" by fastforce
      with assms Some a True have "r = r1" "ns_driver st' = ns_driver st1" "ns_slept st' = ns_slept st1"
        by (auto simp: call_with_resilience_def split: if_splits)
      with run[OF r1] show ?thesis by (auto simp: Let_def)
    qed
  qed
qed

definition flaky_caps :: http_caps where
  "flaky_caps = \<lparr>hc_method = None, hc_auth = None,
     hc_retry = Some \<lparr>hr_count = 2, hr_backoff_ms = 100, hr_jitter = False\<rparr>,
     hc_breaker = Some \<lparr>hb_threshold = 1, hb_window_ms = 1000\<rparr>, hc_path = None\<rparr>"

definition flaky_attempt :: "fake_net \<Rightarrow> (net_exc + response) \<times> fake_net" where
  "flaky_attempt = fake_attempt [(''Pay'', Scripted [(503, PNone, [(''retry-after'', ''2'')]), (200, PNone, [])])]
     \<lparr>rv_target = ''Pay'', rv_payload = PNone, rv_trace = [], rv_path = None\<rparr>"

lemma flaky_call:
  "case call_with_resilience ''Pay'' (Some flaky_caps) (\<lambda>_. 0) flaky_attempt new_fake of (r, st) \<Rightarrow>
     r = Inr (200, PNone, []) \<and> ns_slept st = [Delay 2000] \<and> length (fk_received (ns_driver st)) = 2"
  by code_simp

theorem call_answers_last_attempt_witness:
  "\<exists>n. let (rs, s) = outcomes n flaky_attempt (ns_driver new_fake) in
     attempts_made 2 rs \<and> last rs = Inr (200, PNone, []) \<and> delays (hc_retry flaky_caps) 1 rs = [Delay 2000]"
proof -
  obtain st where c: "call_with_resilience ''Pay'' (Some flaky_caps) (\<lambda>_. 0) flaky_attempt new_fake = (Inr (200, PNone, []), st)"
    and slept: "ns_slept st = [Delay 2000]"
    using flaky_call by (auto split: prod.splits)
  from call_answers_last_attempt[OF c] slept show ?thesis
    by (auto simp: flaky_caps_def new_fake_def split_beta Let_def)
qed

text \<open>
  C21: The breaker of a capability refines its phases: an open one rejects every call until its window has
  passed and then lets one through on trial; a call whose answer is a failure counts once however often it
  was attempted, the threshold-th in a row opens the breaker and a failed trial opens it again at once; any
  other answer closes it.
\<close>

theorem breaker_refines_phases:
  assumes "hc_breaker cap = Some c" and "breaker_inv (breaker_of target c st)" and "0 < br_threshold (breaker_of target c st)"
    and "call_with_resilience target (Some cap) clock f st = (r, st')" and "r \<noteq> Inl NetEscaped"
  shows "breaker_inv (breaker_of target c st') \<and>
    (let b = breaker_of target c st; (ok, p) = phase_allow (br_window b) (clock (ns_reads st)) (phase_of b) in
       phase_of (breaker_of target c st') =
         (if \<not> ok then p
          else if attempt_failed r then phase_failure (br_threshold b) (clock (Suc (ns_reads st))) p
          else Closed 0) \<and>
       (\<not> ok \<longrightarrow> r = Inl (BreakerOpen target (br_threshold b))))"
  using call_phase[OF assms] by blast

theorem breaker_refines_phases_witness:
  "case call_with_resilience ''Pay'' (Some flaky_caps) (\<lambda>_. 0) flaky_attempt new_fake of (r, st) \<Rightarrow>
     phase_of (breaker_of ''Pay'' \<lparr>hb_threshold = 1, hb_window_ms = 1000\<rparr> st) = Closed 0"
proof -
  let ?c = "\<lparr>hb_threshold = 1, hb_window_ms = 1000\<rparr>"
  have b: "breaker_of ''Pay'' ?c new_fake = new_breaker ?c" by (simp add: breaker_of_def new_fake_def)
  obtain st where c: "call_with_resilience ''Pay'' (Some flaky_caps) (\<lambda>_. 0) flaky_attempt new_fake = (Inr (200, PNone, []), st)"
    using flaky_call by (auto split: prod.splits)
  have "breaker_inv (breaker_of ''Pay'' ?c new_fake)" "0 < br_threshold (breaker_of ''Pay'' ?c new_fake)"
    unfolding b by (simp_all add: new_breaker_def breaker_inv_def)
  from breaker_refines_phases[OF _ this c] show ?thesis unfolding b c
    by (simp add: flaky_caps_def phase_allow_def phase_of_def new_breaker_def attempt_failed_def is_retryable_status_def)
qed

text \<open>
  A breaker trips on the threshold-th call in a row that fails, not earlier and not later: while calls
  fail from a fresh state it counts them, and the last of them opens it at the time that call ended.
\<close>

theorem breaker_trips_at_threshold:
  assumes "hc_breaker cap = Some c" and "0 < hb_threshold c" and "dget (ns_breakers st) target = None"
    and "\<And>s. attempt_failed (fst (f s)) \<and> fst (f s) \<noteq> Inl NetEscaped" and "n \<le> hb_threshold c"
  shows "phase_of (breaker_of target c (calls n (call_with_resilience target (Some cap) clock f) st)) =
    (if n < hb_threshold c then Closed n else Open (clock (ns_reads st + 2 * n - 1)))"
  using failing_calls[OF assms] by simp

theorem breaker_trips_at_threshold_witness:
  "phase_of (breaker_of ''Pay'' \<lparr>hb_threshold = 1, hb_window_ms = 1000\<rparr>
     (calls 1 (call_with_resilience ''Pay'' (Some flaky_caps) int (\<lambda>s. (Inr (500, PNone, []), s))) new_fake)) = Open 1"
  using breaker_trips_at_threshold[of flaky_caps "\<lparr>hb_threshold = 1, hb_window_ms = 1000\<rparr>" new_fake "''Pay''"
      "\<lambda>s. (Inr (500, PNone, []), s)" 1 int]
  by (simp add: flaky_caps_def new_fake_def attempt_failed_def is_retryable_status_def)

text \<open>
  A path argument stays inside its segment as far as separators go: the assembled path has as many
  slashes, question marks and hash signs as its template, whatever the arguments.
\<close>

theorem path_args_add_no_separator:
  assumes "c \<in> {CHR ''/'', CHR ''?'', CHR ''#'', CHR '' '', CHR 0x5C}"
  shows "count_list (assemble_path template args) c = count_list template c"
  by (rule assemble_count) (use assms in \<open>auto simp: url_safe_def unreserved_def ord_def\<close>)

theorem path_args_add_no_separator_witness:
  "count_list (assemble_path ''/orders/{}/lines/{}'' [PStr ''../../etc/passwd'', PInt 3]) CHR ''/'' = 4"
  using path_args_add_no_separator[of "CHR ''/''" "''/orders/{}/lines/{}''" "[PStr ''../../etc/passwd'', PInt 3]"] by simp

text \<open>
  An argument that is two dots still becomes a parent segment, because percent-encoding leaves dots as
  they are: the path of \<open>/orders/{}/lines\<close> with it is \<open>/orders/../lines\<close>.
\<close>

theorem dot_dot_argument_is_parent:
  "assemble_path ''/orders/{}/lines'' [PStr ''..''] = ''/orders/../lines''"
  by code_simp

end
