(* ===== verification/Sqlite.thy ===== *)
theory Sqlite
  imports Store
begin

text \<open>
  \<open>SqliteRepositoryDriver\<close> of \<open>impl/lnpl/drivers.py\<close>: a connection to a file that holds the rows with their
  versions, the outbox and the idempotency claims. Each operation is the effect of the constant SQL
  statements it executes; a fault of the engine itself (a locked or unreadable file) is left out, and so
  is the pushed-down predicate of \<open>query\<close>. A row is kept as the value of its JSON text.
\<close>

section \<open>The file\<close>

record db_row =
  dr_payload :: pyval
  dr_version :: nat

record outbox_row =
  ox_seq :: nat
  ox_emission :: string
  ox_event :: string
  ox_payload :: pyval
  ox_created :: int
  ox_delivered :: "int option"

record claim_row =
  cl_status :: string
  cl_http :: "int option"
  cl_body :: "pyval option"
  cl_created :: int

type_synonym row_id = "string \<times> string"

record database =
  db_rows :: "(row_id, db_row) dict"
  db_outbox :: "outbox_row list"
  db_last_seq :: nat
  db_claims :: "(row_id, claim_row) dict"

definition empty_db :: database where
  "empty_db = \<lparr>db_rows = [], db_outbox = [], db_last_seq = 0, db_claims = []\<rparr>"

text \<open>\<open>_encode\<close>, read back: every dictionary with its keys in order.\<close>

fun encoded :: "pyval \<Rightarrow> pyval" where
  "encoded (PList vs) = PList (map encoded vs)"
| "encoded (PDict d) = PDict (sort_by (\<lambda>p q. str_less (fst p) (fst q)) (map (\<lambda>(k, v). (k, encoded v)) d))"
| "encoded v = v"

section \<open>The connection\<close>

text \<open>
  A \<open>_VersionedRow\<close> is an object, numbered in the order they are handed out: the version each observed, and
  the object last read under each key. The SQL transaction keeps what a rollback restores.
\<close>

record conn =
  cn_in_transaction :: bool
  cn_snapshot :: "database option"
  cn_observed :: "nat list"
  cn_bound :: "(row_id, nat) dict"

definition new_conn :: conn where
  "new_conn = \<lparr>cn_in_transaction = False, cn_snapshot = None, cn_observed = [], cn_bound = []\<rparr>"

datatype sql_error =
    NestedBegin | RowExists string | StaleRow string string | UnsupportedOp string | UnknownSeqs "nat list"

type_synonym 'a sql = "database \<times> conn \<Rightarrow> (sql_error + 'a) \<times> database \<times> conn"

definition sql_begin :: "unit sql" where
  "sql_begin = (\<lambda>(db, c). if cn_in_transaction c then (Inl NestedBegin, db, c)
     else (Inr (), db, c\<lparr>cn_in_transaction := True\<rparr>))"

definition sql_commit :: "unit sql" where
  "sql_commit = (\<lambda>(db, c). (Inr (), db, c\<lparr>cn_in_transaction := False, cn_snapshot := None\<rparr>))"

definition sql_rollback :: "unit sql" where
  "sql_rollback = (\<lambda>(db, c). (Inr (), (case cn_snapshot c of None \<Rightarrow> db | Some db0 \<Rightarrow> db0),
     c\<lparr>cn_in_transaction := False, cn_snapshot := None\<rparr>))"

text \<open>\<open>_ensure_sql_transaction\<close>, before the first write of a transaction.\<close>

definition ensure_transaction :: "database \<Rightarrow> conn \<Rightarrow> conn" where
  "ensure_transaction db c = (if cn_in_transaction c \<and> cn_snapshot c = None then c\<lparr>cn_snapshot := Some db\<rparr> else c)"

section \<open>Rows\<close>

definition insert_if_absent :: "string \<Rightarrow> string \<Rightarrow> pyval \<Rightarrow> database \<Rightarrow> database" where
  "insert_if_absent e k row db =
     (if dhas (db_rows db) (e, k) then db
      else db\<lparr>db_rows := dset (e, k) \<lparr>dr_payload = encoded row, dr_version = 0\<rparr> (db_rows db)\<rparr>)"

definition sql_seed :: "(string \<times> (string \<times> pyval) list) list \<Rightarrow> unit sql" where
  "sql_seed tables = (\<lambda>(db, c). (Inr (),
     fold (\<lambda>(e, table). fold (\<lambda>(k, row). insert_if_absent e k row) table) tables db, ensure_transaction db c))"

text \<open>\<open>_read\<close> hands out a new object; only \<open>execute\<close> with \<open>read\<close> registers it.\<close>

definition read_row :: "string \<Rightarrow> string \<Rightarrow> database \<Rightarrow> (pyval \<times> nat) option" where
  "read_row e k db = map_option (\<lambda>r. (dr_payload r, dr_version r)) (dget (db_rows db) (e, k))"

definition sql_read :: "bool \<Rightarrow> string \<Rightarrow> string \<Rightarrow> (pyval \<times> nat) option sql" where
  "sql_read register e k = (\<lambda>(db, c).
     case read_row e k db of
       None \<Rightarrow> (Inr None, db, c)
     | Some (row, version) \<Rightarrow>
         let obj = length (cn_observed c); c = c\<lparr>cn_observed := cn_observed c @ [version]\<rparr> in
         (Inr (Some (row, obj)), db, if register then c\<lparr>cn_bound := dset (e, k) obj (cn_bound c)\<rparr> else c))"

definition sql_create :: "string \<Rightarrow> string \<Rightarrow> nat sql" where
  "sql_create e k = (\<lambda>(db, c).
     let c = ensure_transaction db c in
     if dhas (db_rows db) (e, k) then (Inl (RowExists e), db, c)
     else (Inr 1, db\<lparr>db_rows := dset (e, k) \<lparr>dr_payload = PDict [(''id'', PStr k)], dr_version = 0\<rparr> (db_rows db)\<rparr>, c))"

text \<open>\<open>_UPDATE_ROW\<close>, with the version it must find if there is one: the rows affected.\<close>

definition update_row :: "string \<Rightarrow> string \<Rightarrow> pyval \<Rightarrow> nat option \<Rightarrow> database \<Rightarrow> nat \<times> database" where
  "update_row e k row version db =
     (case dget (db_rows db) (e, k) of
        None \<Rightarrow> (0, db)
      | Some r \<Rightarrow>
          if version \<noteq> None \<and> version \<noteq> Some (dr_version r) then (0, db)
          else (1, db\<lparr>db_rows := dset (e, k) \<lparr>dr_payload = encoded row, dr_version = Suc (dr_version r)\<rparr> (db_rows db)\<rparr>))"

definition delete_row :: "string \<Rightarrow> string \<Rightarrow> database \<Rightarrow> nat \<times> database" where
  "delete_row e k db = (if dhas (db_rows db) (e, k) then (1, db\<lparr>db_rows := ddel (e, k) (db_rows db)\<rparr>) else (0, db))"

text \<open>\<open>_touch\<close>: an update advances the row this connection has bound under the key.\<close>

definition advance_bound :: "string \<Rightarrow> string \<Rightarrow> conn \<Rightarrow> conn" where
  "advance_bound e k c =
     (case dget (cn_bound c) (e, k) of
        None \<Rightarrow> c
      | Some obj \<Rightarrow> c\<lparr>cn_observed := (cn_observed c)[obj := Suc (cn_observed c ! obj)]\<rparr>)"

definition sql_touch :: "string \<Rightarrow> string \<Rightarrow> string \<Rightarrow> nat sql" where
  "sql_touch operation e k = (\<lambda>(db, c).
     let c = ensure_transaction db c in
     if operation = ''delete'' then (let (n, db) = delete_row e k db in (Inr n, db, c))
     else
       let row = (case read_row e k db of None \<Rightarrow> PDict [(''id'', PStr k)] | Some (row, _) \<Rightarrow> row);
           (n, db) = update_row e k row None db in
       (Inr n, db, if n > 0 then advance_bound e k c else c))"

datatype sql_answer = RowFound "(pyval \<times> nat) option" | Affected nat

definition sql_execute :: "string \<Rightarrow> string \<Rightarrow> string \<Rightarrow> sql_answer sql" where
  "sql_execute e operation k s =
     (if operation \<in> {''read'', ''query''} then
        (let (r, s) = sql_read (operation = ''read'') e k s in (case r of Inl x \<Rightarrow> Inl x | Inr x \<Rightarrow> Inr (RowFound x), s))
      else if operation = ''create'' then
        (let (r, s) = sql_create e k s in (case r of Inl x \<Rightarrow> Inl x | Inr x \<Rightarrow> Inr (Affected x), s))
      else if operation \<in> {''update'', ''delete''} then
        (let (r, s) = sql_touch operation e k s in (case r of Inl x \<Rightarrow> Inl x | Inr x \<Rightarrow> Inr (Affected x), s))
      else (Inl (UnsupportedOp operation), s))"

text \<open>
  \<open>persist\<close> of a row, which is an object handed out by a read or a plain dictionary (\<open>None\<close>). Outside a
  transaction a stale version rolls back the statement that matched nothing.
\<close>

definition sql_persist :: "string \<Rightarrow> string \<Rightarrow> pyval \<Rightarrow> nat option \<Rightarrow> unit sql" where
  "sql_persist e k row obj = (\<lambda>(db, c).
     let c = ensure_transaction db c;
         version = (case obj of None \<Rightarrow> None | Some i \<Rightarrow> if i < length (cn_observed c) then Some (cn_observed c ! i) else None);
         (n, db) = update_row e k row version db in
     case version of
       None \<Rightarrow> (Inr (), db, c)
     | Some v \<Rightarrow>
         if n = 0 then (Inl (StaleRow e k), db, c)
         else (Inr (), db, c\<lparr>cn_observed := (cn_observed c)[the obj := Suc v]\<rparr>))"

definition sql_query_all :: "string \<Rightarrow> pyval list sql" where
  "sql_query_all e = (\<lambda>(db, c). (Inr (map (\<lambda>(_, r). dr_payload r)
     (sort_by (\<lambda>p q. str_less (snd (fst p)) (snd (fst q))) (filter (\<lambda>((x, _), _). x = e) (db_rows db)))), db, c))"

text \<open>
  \<open>query_sorted\<close>: the value of the field as \<open>json_extract\<close> gives it (integers of 64 bits), absent and null values
  last, numbers before texts, then the key of the row. \<open>to_text\<close> is the JSON text of an array or an object.
\<close>

definition sql_value :: "(pyval \<Rightarrow> string) \<Rightarrow> pyval \<Rightarrow> (int + string) option" where
  "sql_value to_text v =
     (case v of
        PNone \<Rightarrow> None
      | PBool b \<Rightarrow> Some (Inl (if b then 1 else 0))
      | PInt n \<Rightarrow> Some (Inl n)
      | PStr s \<Rightarrow> Some (Inr s)
      | _ \<Rightarrow> Some (Inr (to_text v)))"

fun sql_less :: "(int + string) option \<Rightarrow> (int + string) option \<Rightarrow> bool" where
  "sql_less (Some (Inl m)) (Some (Inl n)) = (m < n)"
| "sql_less (Some (Inl m)) (Some (Inr t)) = True"
| "sql_less (Some (Inr s)) (Some (Inl n)) = False"
| "sql_less (Some (Inr s)) (Some (Inr t)) = str_less s t"
| "sql_less (Some _) None = True"
| "sql_less None _ = False"

definition row_field :: "string \<Rightarrow> pyval \<Rightarrow> pyval" where
  "row_field field v = (case v of PDict d \<Rightarrow> pget d field | _ \<Rightarrow> PNone)"

definition sql_query_sorted :: "(pyval \<Rightarrow> string) \<Rightarrow> string \<Rightarrow> string \<Rightarrow> pyval list sql" where
  "sql_query_sorted to_text e field = (\<lambda>(db, c).
     let key = (\<lambda>(i, r). (sql_value to_text (row_field field (dr_payload r)), snd i));
         less = (\<lambda>p q. sql_less (fst (key p)) (fst (key q)) \<or>
                   fst (key p) = fst (key q) \<and> str_less (snd (key p)) (snd (key q))) in
     (Inr (map (\<lambda>(_, r). dr_payload r) (sort_by less (filter (\<lambda>((x, _), _). x = e) (db_rows db)))), db, c))"

text \<open>\<open>close\<close>, which drops a SQL transaction that is still open.\<close>

definition sql_close :: "database \<times> conn \<Rightarrow> database" where
  "sql_close = (\<lambda>(db, c). case cn_snapshot c of None \<Rightarrow> db | Some db0 \<Rightarrow> db0)"

section \<open>Outbox\<close>

definition sql_record_emission :: "string \<Rightarrow> string \<Rightarrow> pyval \<Rightarrow> int \<Rightarrow> unit sql" where
  "sql_record_emission emission event payload now = (\<lambda>(db, c).
     let seq = Suc (db_last_seq db) in
     (Inr (), db\<lparr>db_last_seq := seq, db_outbox := db_outbox db @
        [\<lparr>ox_seq = seq, ox_emission = emission, ox_event = event, ox_payload = encoded payload, ox_created = now,
          ox_delivered = None\<rparr>]\<rparr>, ensure_transaction db c))"

definition undelivered :: "database \<Rightarrow> outbox_row list" where
  "undelivered db = filter (\<lambda>r. ox_delivered r = None) (db_outbox db)"

definition sql_drain :: "nat option \<Rightarrow> outbox_row list sql" where
  "sql_drain limit = (\<lambda>(db, c). (Inr (case limit of None \<Rightarrow> undelivered db | Some n \<Rightarrow> take n (undelivered db)), db, c))"

definition sql_undelivered_count :: "nat sql" where
  "sql_undelivered_count = (\<lambda>(db, c). (Inr (length (undelivered db)), db, c))"

definition sql_read_outbox :: "string \<Rightarrow> nat \<Rightarrow> outbox_row list sql" where
  "sql_read_outbox event after_seq = (\<lambda>(db, c).
     (Inr (filter (\<lambda>r. ox_event r = event \<and> ox_seq r > after_seq) (db_outbox db)), db, c))"

definition mark_delivered :: "int \<Rightarrow> nat \<Rightarrow> outbox_row \<Rightarrow> outbox_row" where
  "mark_delivered now seq r = (if ox_seq r = seq \<and> ox_delivered r = None then r\<lparr>ox_delivered := Some now\<rparr> else r)"

text \<open>
  \<open>commit\<close> of the SQL connection itself. Inside a transaction of the driver it commits what was written so far:
  a later rollback restores the file as it is now.
\<close>

definition commit_now :: "database \<Rightarrow> conn \<Rightarrow> conn" where
  "commit_now db c = c\<lparr>cn_snapshot := map_option (\<lambda>_. db) (cn_snapshot c)\<rparr>"

definition sql_ack :: "nat list \<Rightarrow> int \<Rightarrow> unit sql" where
  "sql_ack seqs now = (\<lambda>(db, c).
     let missing = filter (\<lambda>s. s \<notin> ox_seq ` set (db_outbox db)) seqs in
     if missing \<noteq> [] then (Inl (UnknownSeqs missing), db, c)
     else let db = db\<lparr>db_outbox := map (fold (mark_delivered now) seqs) (db_outbox db)\<rparr> in (Inr (), db, commit_now db c))"

section \<open>Idempotency claims\<close>

text \<open>
  A claim is taken by up to three statements, each committed by itself: the select, the removal of an
  expired row, and the insert, which finds the row present when another connection came first.
\<close>

datatype claim_answer = Started | InProgress | Done "int option" "pyval option"

definition claim_select :: "row_id \<Rightarrow> int \<Rightarrow> int \<Rightarrow> database \<Rightarrow> (bool + claim_answer)" where
  "claim_select k now ttl db =
     (case dget (db_claims db) k of
        None \<Rightarrow> Inl False
      | Some r \<Rightarrow>
          if now - cl_created r < ttl
          then Inr (if cl_status r = ''in-progress'' then InProgress else Done (cl_http r) (cl_body r))
          else Inl True)"

definition claim_delete :: "row_id \<Rightarrow> database \<Rightarrow> database" where
  "claim_delete k db = db\<lparr>db_claims := ddel k (db_claims db)\<rparr>"

definition claim_insert :: "row_id \<Rightarrow> int \<Rightarrow> database \<Rightarrow> claim_answer \<times> database" where
  "claim_insert k now db =
     (if dhas (db_claims db) k then (InProgress, db)
      else (Started, db\<lparr>db_claims := dset k \<lparr>cl_status = ''in-progress'', cl_http = None, cl_body = None, cl_created = now\<rparr>
              (db_claims db)\<rparr>))"

definition idempotency_begin :: "string \<Rightarrow> string \<Rightarrow> int \<Rightarrow> int \<Rightarrow> claim_answer sql" where
  "idempotency_begin wid key now ttl = (\<lambda>(db, c).
     case claim_select (wid, key) now ttl db of
       Inr answer \<Rightarrow> (Inr answer, db, c)
     | Inl expired \<Rightarrow>
         let db = if expired then claim_delete (wid, key) db else db;
             c = if expired then commit_now db c else c;
             (answer, db) = claim_insert (wid, key) now db in
         (Inr answer, db, commit_now db c))"

definition idempotency_finish :: "string \<Rightarrow> string \<Rightarrow> int \<Rightarrow> pyval \<Rightarrow> unit sql" where
  "idempotency_finish wid key status body = (\<lambda>(db, c).
     let db = (case dget (db_claims db) (wid, key) of
                 None \<Rightarrow> db
               | Some r \<Rightarrow> db\<lparr>db_claims := dset (wid, key)
                   (r\<lparr>cl_status := ''done'', cl_http := Some status, cl_body := Some body\<rparr>) (db_claims db)\<rparr>) in
     (Inr (), db, commit_now db c))"

definition idempotency_release :: "string \<Rightarrow> string \<Rightarrow> unit sql" where
  "idempotency_release wid key = (\<lambda>(db, c).
     let db = claim_delete (wid, key) db in (Inr (), db, commit_now db c))"

end
