(* ===== verification/StoreProps.thy ===== *)
theory StoreProps
  imports Sqlite
begin

text \<open>
  The SQLite driver: what a rollback restores, which writes the version check refuses, what becomes of the
  rows of the outbox, and how often an idempotency key is claimed.
\<close>

section \<open>Sequences of calls\<close>

datatype sql_op =
    OpSeed "(string \<times> (string \<times> pyval) list) list"
  | OpExecute string string string
  | OpPersist string string pyval "nat option"
  | OpEmit string string pyval int

primrec do_op :: "sql_op \<Rightarrow> database \<times> conn \<Rightarrow> database \<times> conn" where
  "do_op (OpSeed tables) s = snd (sql_seed tables s)"
| "do_op (OpExecute e operation k) s = snd (sql_execute e operation k s)"
| "do_op (OpPersist e k row obj) s = snd (sql_persist e k row obj s)"
| "do_op (OpEmit emission event payload now) s = snd (sql_record_emission emission event payload now s)"

definition do_ops :: "sql_op list \<Rightarrow> database \<times> conn \<Rightarrow> database \<times> conn" where
  "do_ops ops = fold do_op ops"

lemmas sql_ops = sql_seed_def sql_read_def sql_create_def sql_touch_def sql_persist_def sql_record_emission_def

lemma ensure_observed: "cn_observed (ensure_transaction db c) = cn_observed c"
  by (simp add: ensure_transaction_def)

text \<open>What every call keeps, every sequence keeps.\<close>

lemma do_ops_keeps:
  assumes "\<And>op s. op \<in> set ops \<Longrightarrow> P s \<Longrightarrow> P (do_op op s)" and "P s"
  shows "P (do_ops ops s)"
  using assms unfolding do_ops_def by (induction ops arbitrary: s) auto

text \<open>\<open>execute\<close> is one of four calls.\<close>

lemma execute_cases:
  "snd (sql_execute e operation k s) =
     (if operation \<in> {''read'', ''query''} then snd (sql_read (operation = ''read'') e k s)
      else if operation = ''create'' then snd (sql_create e k s)
      else if operation \<in> {''update'', ''delete''} then snd (sql_touch operation e k s) else s)"
  by (simp add: sql_execute_def split_beta)

section \<open>Transactions\<close>

text \<open>A transaction opened on the file \<open>db0\<close>, on its way.\<close>

definition opened_on :: "database \<Rightarrow> database \<times> conn \<Rightarrow> bool" where
  "opened_on db0 s \<longleftrightarrow> cn_in_transaction (snd s) \<and>
     (cn_snapshot (snd s) = Some db0 \<or> cn_snapshot (snd s) = None \<and> fst s = db0)"

lemma opened_ensure: "opened_on db0 (db, c) \<Longrightarrow> opened_on db0 (db', ensure_transaction db c)"
  by (auto simp: opened_on_def ensure_transaction_def)

lemma opened_observed: "opened_on db0 (db, c\<lparr>cn_observed := x\<rparr>) = opened_on db0 (db, c)"
  "opened_on db0 (db, c\<lparr>cn_observed := x, cn_bound := y\<rparr>) = opened_on db0 (db, c)"
  "opened_on db0 (db, c\<lparr>cn_bound := y\<rparr>) = opened_on db0 (db, c)"
  "opened_on db0 (db, advance_bound e k c) = opened_on db0 (db, c)"
  by (simp_all add: opened_on_def advance_bound_def split: option.split)

lemma opened_do_op: "opened_on db0 s \<Longrightarrow> opened_on db0 (do_op op s)"
  by (cases s; cases op)
    (auto simp: execute_cases sql_ops opened_ensure opened_observed Let_def split_beta split: option.splits)

text \<open>
  C8: a rollback undoes the run. Whatever sequence of the calls a run makes between \<open>begin\<close> and \<open>rollback\<close> -
  seeds, \<open>execute\<close> of any operation, \<open>persist\<close>, recorded emissions - the file holds afterwards exactly the rows,
  the emissions and the claims it held before, and the connection can begin again. (The calls of the server
  around a run, \<open>ack_outbox\<close> and the three of idempotency, commit by themselves and are not among these.)
\<close>

theorem rollback_restores_file:
  assumes "sql_begin (db, c) = (Inr (), db1, c1)" and "cn_snapshot c = None"
    and "sql_rollback (do_ops ops (db1, c1)) = (r, db2, c2)"
  shows "db2 = db \<and> fst (sql_begin (db2, c2)) = Inr ()"
proof -
  obtain db' c' where d: "do_ops ops (db1, c1) = (db', c')" by (rule prod.exhaust)
  have "opened_on db (db1, c1)"
    using assms(1,2) by (auto simp: sql_begin_def opened_on_def split: if_split_asm)
  then have "opened_on db (do_ops ops (db1, c1))" by (rule do_ops_keeps[where P = "opened_on db", rotated]) (rule opened_do_op)
  then have o: "opened_on db (db', c')" unfolding d .
  have "db2 = (case cn_snapshot c' of None \<Rightarrow> db' | Some db0 \<Rightarrow> db0)" "\<not> cn_in_transaction c2"
    using assms(3) unfolding d sql_rollback_def by auto
  with o show ?thesis by (auto simp: opened_on_def sql_begin_def)
qed

theorem rollback_restores_file_witness:
  "sql_rollback (do_ops [OpExecute ''e'' ''create'' ''k'', OpEmit ''m'' ''v'' PNone 0] (empty_db, new_conn\<lparr>cn_in_transaction := True\<rparr>))
     = (Inr (), empty_db, new_conn)
   \<and> fst (do_ops [OpExecute ''e'' ''create'' ''k'', OpEmit ''m'' ''v'' PNone 0] (empty_db, new_conn\<lparr>cn_in_transaction := True\<rparr>)) \<noteq> empty_db"
proof -
  let ?ops = "[OpExecute ''e'' ''create'' ''k'', OpEmit ''m'' ''v'' PNone 0]"
  let ?c = "new_conn\<lparr>cn_in_transaction := True\<rparr>"
  have "sql_begin (empty_db, new_conn) = (Inr (), empty_db, ?c)" by (simp add: sql_begin_def new_conn_def)
  moreover have run: "sql_rollback (do_ops ?ops (empty_db, ?c)) = (Inr (), empty_db, new_conn)" by code_simp
  moreover have "cn_snapshot new_conn = None" by (simp add: new_conn_def)
  ultimately have "empty_db = empty_db \<and> fst (sql_begin (empty_db, new_conn)) = Inr ()"
    by (metis rollback_restores_file)
  moreover have "fst (do_ops ?ops (empty_db, ?c)) \<noteq> empty_db" by code_simp
  ultimately show ?thesis using run by simp
qed

section \<open>Versions\<close>

text \<open>
  A row another connection only updates: its version never falls, and it is the row read as long as the
  version is the one read.
\<close>

definition later_row :: "db_row \<Rightarrow> db_row option \<Rightarrow> bool" where
  "later_row r x \<longleftrightarrow> (case x of None \<Rightarrow> False | Some r' \<Rightarrow> dr_version r < dr_version r' \<or> r' = r)"

abbreviation row_of :: "database \<times> conn \<Rightarrow> row_id \<Rightarrow> db_row option" where
  "row_of s i \<equiv> dget (db_rows (fst s)) i"

lemma row_insert_if_absent: "dget (db_rows (insert_if_absent e k row db)) i =
  (if i = (e, k) \<and> dget (db_rows db) i = None then Some \<lparr>dr_payload = encoded row, dr_version = 0\<rparr> else dget (db_rows db) i)"
  by (auto simp: insert_if_absent_def dhas_map_of dget_dset)

lemma row_update_row: "dget (db_rows (snd (update_row e k row v db))) i =
  (if i = (e, k) \<and> fst (update_row e k row v db) = 1
   then Some \<lparr>dr_payload = encoded row, dr_version = Suc (dr_version (the (dget (db_rows db) i)))\<rparr> else dget (db_rows db) i)"
  by (auto simp: update_row_def dget_dset split: option.split)

lemma update_row_hits: "fst (update_row e k row v db) = 1 \<Longrightarrow> dget (db_rows db) (e, k) \<noteq> None"
  by (auto simp: update_row_def split: option.splits)

lemma update_row_count: "fst (update_row e k row v db) \<in> {0, 1}"
  by (auto simp: update_row_def split: option.splits)

lemma later_insert:
  "later_row r (dget (db_rows db) i) \<Longrightarrow> later_row r (dget (db_rows (insert_if_absent e k row db)) i)"
  by (auto simp: row_insert_if_absent later_row_def)

lemma seed_invariant:
  assumes "\<And>e k row d. P d \<Longrightarrow> P (insert_if_absent e k row d)" and "P db"
  shows "P (fold (\<lambda>(e, t). fold (\<lambda>(k, row). insert_if_absent e k row) t) ts db)"
  by (rule fold_invariant[where Q = "\<lambda>_. True"])
    (auto intro!: fold_invariant[where Q = "\<lambda>_. True" and P = P] assms)

lemma later_seed:
  "later_row r (dget (db_rows db) i) \<Longrightarrow>
     later_row r (dget (db_rows (fold (\<lambda>(e, t). fold (\<lambda>(k, row). insert_if_absent e k row) t) ts db)) i)"
  by (rule seed_invariant[where P = "\<lambda>d. later_row r (dget (db_rows d) i)"]) (rule later_insert)

lemma later_update: "later_row r (dget (db_rows db) i) \<Longrightarrow> later_row r (dget (db_rows (snd (update_row e k row v db))) i)"
  using update_row_hits[of e k row v db] by (auto simp: row_update_row later_row_def split: option.splits)

definition deletes :: "row_id \<Rightarrow> sql_op \<Rightarrow> bool" where
  "deletes i op \<longleftrightarrow> (case op of OpExecute e operation k \<Rightarrow> operation = ''delete'' \<and> (e, k) = i | _ \<Rightarrow> False)"

lemma later_do_op:
  assumes "\<not> deletes i op" and "later_row r (row_of s i)"
  shows "later_row r (row_of (do_op op s) i)"
proof (cases s)
  case s: (Pair db c)
  have d: "later_row r (dget (db_rows db) i)" using assms(2) s by simp
  show ?thesis
  proof (cases op)
    case (OpSeed ts)
    then show ?thesis using later_seed[OF d] s by (simp add: sql_seed_def)
  next
    case (OpExecute e operation k)
    have "later_row r (row_of (snd (sql_read reg e k s)) i)" for reg
      using d s by (simp add: sql_read_def Let_def split: option.split)
    moreover have "later_row r (row_of (snd (sql_create e k s)) i)"
      using d s by (auto simp: sql_create_def dhas_map_of dget_dset later_row_def Let_def)
    moreover have "later_row r (row_of (snd (sql_touch operation e k s)) i)" if "operation = ''delete'' \<Longrightarrow> (e, k) \<noteq> i"
      using d s that later_update[OF d] by (auto simp: sql_touch_def delete_row_def dget_ddel Let_def split_beta)
    ultimately show ?thesis
      using assms d s OpExecute by (auto simp: deletes_def execute_cases)
  next
    case (OpPersist e k row obj)
    then show ?thesis using later_update[OF d] s
      by (auto simp: sql_persist_def Let_def split_beta split: option.splits)
  next
    case (OpEmit emission event payload now)
    then show ?thesis using d s by (simp add: sql_record_emission_def Let_def)
  qed
qed

lemma later_do_ops:
  assumes "\<forall>op \<in> set ops. \<not> deletes i op" and "later_row r (row_of s i)"
  shows "later_row r (row_of (do_ops ops s) i)"
  using assms do_ops_keeps[of ops "\<lambda>s. later_row r (row_of s i)" s] later_do_op by blast

lemma sql_read_row:
  assumes "sql_read reg e k (db, c) = (Inr (Some (row, obj)), db1, c1)"
  shows "db1 = db \<and> dget (db_rows db) (e, k) = Some \<lparr>dr_payload = row, dr_version = cn_observed c1 ! obj\<rparr> \<and>
    obj < length (cn_observed c1)"
  using assms by (auto simp: sql_read_def read_row_def Let_def nth_append split: option.splits)

lemma update_versioned:
  assumes "dget (db_rows db) (e, k) = Some r"
  shows "update_row e k row (Some v) db =
    (if v = dr_version r then (1, db\<lparr>db_rows := dset (e, k) \<lparr>dr_payload = encoded row, dr_version = Suc v\<rparr> (db_rows db)\<rparr>)
     else (0, db))"
  using assms by (auto simp: update_row_def)

text \<open>Deleted, and after that made again, by the calls of another connection.\<close>

definition makes :: "row_id \<Rightarrow> sql_op \<Rightarrow> bool" where
  "makes i op \<longleftrightarrow>
     (case op of
        OpSeed tables \<Rightarrow> \<exists>(e, table) \<in> set tables. \<exists>(k, _) \<in> set table. (e, k) = i
      | OpExecute e operation k \<Rightarrow> operation = ''create'' \<and> (e, k) = i
      | _ \<Rightarrow> False)"

primrec made_again :: "row_id \<Rightarrow> sql_op list \<Rightarrow> bool" where
  "made_again i [] = False"
| "made_again i (op # ops) = (if deletes i op then \<exists>op \<in> set ops. makes i op else made_again i ops)"

lemma seeded_elsewhere:
  assumes "\<not> makes i (OpSeed tables)"
  shows "dget (db_rows (fold (\<lambda>(e, t). fold (\<lambda>(k, row). insert_if_absent e k row) t) tables db)) i = dget (db_rows db) i"
  by (rule fold_invariant[where Q = "\<lambda>(e, t). \<forall>(k, _) \<in> set t. (e, k) \<noteq> i"
        and P = "\<lambda>d. dget (db_rows d) i = dget (db_rows db) i"])
    (use assms in \<open>force simp: makes_def\<close>, simp,
     auto simp: row_insert_if_absent intro!: fold_invariant[where Q = "\<lambda>(k, _). (e, k) \<noteq> i" and P = "\<lambda>d. dget (db_rows d) i = dget (db_rows db) i" for e])

lemma gone_do_op:
  assumes "\<not> makes i op" and "row_of s i = None"
  shows "row_of (do_op op s) i = None"
proof (cases s)
  case s: (Pair db c)
  have d: "dget (db_rows db) i = None" using assms(2) s by simp
  then have u: "dget (db_rows (snd (update_row e k row v db))) i = None" for e k row v
    using update_row_hits[of e k row v db] by (auto simp: row_update_row)
  show ?thesis
  proof (cases op)
    case (OpSeed tables)
    then show ?thesis using seeded_elsewhere assms(1) d s by (simp add: sql_seed_def)
  next
    case (OpExecute e operation k)
    then show ?thesis using assms(1) d u s
      by (auto simp: makes_def execute_cases sql_read_def sql_create_def sql_touch_def delete_row_def dget_ddel dget_dset Let_def split_beta
          split: option.split)
  next
    case (OpPersist e k row obj)
    then show ?thesis using u s by (auto simp: sql_persist_def Let_def split_beta split: option.splits)
  next
    case (OpEmit emission event payload now)
    then show ?thesis using d s by (simp add: sql_record_emission_def Let_def)
  qed
qed

lemma deleted_row: "deletes i op \<Longrightarrow> row_of (do_op op s) i = None"
  by (cases s) (auto simp: deletes_def execute_cases sql_touch_def delete_row_def dget_ddel dhas_map_of Let_def split: sql_op.splits)

text \<open>A row that is not deleted and made again is gone, or it is the row read, or a later one.\<close>

lemma later_or_gone:
  assumes "\<not> made_again i ops" and "later_row r (row_of s i)"
  shows "row_of (do_ops ops s) i = None \<or> later_row r (row_of (do_ops ops s) i)"
  using assms
proof (induction ops arbitrary: s)
  case (Cons op ops)
  have step: "do_ops (op # ops) s = do_ops ops (do_op op s)" by (simp add: do_ops_def)
  show ?case
  proof (cases "deletes i op")
    case True
    then have all: "\<forall>op \<in> set ops. \<not> makes i op" using Cons.prems(1) by simp
    have "row_of (do_ops ops (do_op op s)) i = None"
    proof (rule do_ops_keeps[where P = "\<lambda>s. row_of s i = None"])
      show "row_of (do_op x s') i = None" if "x \<in> set ops" "row_of s' i = None" for x s'
        using gone_do_op all that by blast
    qed (rule deleted_row[OF True])
    then show ?thesis by (simp add: step)
  next
    case False
    with Cons.IH[of "do_op op s"] later_do_op[OF False Cons.prems(2)] Cons.prems(1) show ?thesis by (simp add: step)
  qed
qed (simp add: do_ops_def)

text \<open>
  C9: lost updates are refused, and nothing else. A row was read, and then another connection did anything,
  short of deleting it and making it again. Writing the read row back succeeds exactly when the stored row is still
  the one that was read; otherwise, when it was written or is gone, the answer is the write conflict and the file
  is left alone. A write of the same content by the other connection counts as a change.
\<close>

theorem stale_write_refused:
  assumes "sql_read reg e k (db, c) = (Inr (Some (row, obj)), db1, c1)"
    and "do_ops ops (db1, c2) = (db2, c3)" and "\<not> made_again (e, k) ops"
    and "sql_persist e k row' (Some obj) (db2, c1) = (answer, db3, c4)"
  shows "if dget (db_rows db2) (e, k) = dget (db_rows db1) (e, k)
    then answer = Inr () \<and> map_option dr_payload (dget (db_rows db3) (e, k)) = Some (encoded row')
    else answer = Inl (StaleRow e k) \<and> db3 = db2"
proof -
  let ?r = "\<lparr>dr_payload = row, dr_version = cn_observed c1 ! obj\<rparr>"
  have r: "dget (db_rows db1) (e, k) = Some ?r" and o: "obj < length (cn_observed c1)"
    using sql_read_row[OF assms(1)] by auto
  have later: "dget (db_rows db2) (e, k) = None \<or> later_row ?r (dget (db_rows db2) (e, k))"
    using later_or_gone[OF assms(3), of ?r "(db1, c2)"] r assms(2) by (simp add: later_row_def)
  show ?thesis
  proof (cases "dget (db_rows db2) (e, k)")
    case None
    then show ?thesis using assms(4) o r by (simp add: sql_persist_def update_row_def ensure_observed Let_def)
  next
    case r': (Some r')
    then have "dr_version ?r < dr_version r' \<or> r' = ?r" using later by (simp add: later_row_def)
    then have u: "update_row e k row' (Some (cn_observed c1 ! obj)) db2 =
      (if r' = ?r then (1, db2\<lparr>db_rows := dset (e, k) \<lparr>dr_payload = encoded row', dr_version = Suc (dr_version ?r)\<rparr> (db_rows db2)\<rparr>)
       else (0, db2))"
      by (auto simp: update_versioned[OF r'])
    with assms(4) o have "(answer, db3) = (if r' = ?r then (Inr (), snd (update_row e k row' (Some (cn_observed c1 ! obj)) db2)) else (Inl (StaleRow e k), db2))"
      by (simp add: sql_persist_def Let_def u ensure_observed split: if_split_asm)
    then show ?thesis using u r r' by (simp add: dget_dset split: if_split_asm)
  qed
qed

definition two_rows :: "database \<times> conn" where
  "two_rows = do_ops [OpExecute ''e'' ''create'' ''k'', OpExecute ''e'' ''create'' ''l''] (empty_db, new_conn)"

theorem stale_write_refused_witness:
  "let (r, db1, c1) = sql_read True ''e'' ''k'' (fst two_rows, new_conn);
       (db2, c2) = do_ops [OpPersist ''e'' ''k'' (PDict [(''n'', PInt 1)]) None] (db1, new_conn);
       (answer, db3, c3) = sql_persist ''e'' ''k'' (PDict [(''n'', PInt 2)]) (Some 0) (db2, c1) in
   answer = Inl (StaleRow ''e'' ''k'') \<and> db3 = db2"
proof -
  obtain r db1 c1 where 1: "sql_read True ''e'' ''k'' (fst two_rows, new_conn) = (r, db1, c1)" by (rule prod_cases3)
  obtain db2 c2 where 2: "do_ops [OpPersist ''e'' ''k'' (PDict [(''n'', PInt 1)]) None] (db1, new_conn) = (db2, c2)" by (rule prod.exhaust)
  obtain answer db3 c3 where 3: "sql_persist ''e'' ''k'' (PDict [(''n'', PInt 2)]) (Some 0) (db2, c1) = (answer, db3, c3)" by (rule prod_cases3)
  have "fst (sql_read True ''e'' ''k'' (fst two_rows, new_conn)) = Inr (Some (PDict [(''id'', PStr ''k'')], 0))" by code_simp
  then have r: "sql_read True ''e'' ''k'' (fst two_rows, new_conn) = (Inr (Some (PDict [(''id'', PStr ''k'')], 0)), db1, c1)" using 1 by simp
  have "(let s = snd (sql_read True ''e'' ''k'' (fst two_rows, new_conn)) in
     dget (db_rows (fst (do_ops [OpPersist ''e'' ''k'' (PDict [(''n'', PInt 1)]) None] (fst s, new_conn)))) (''e'', ''k'') =
     dget (db_rows (fst s)) (''e'', ''k'')) = False" by code_simp
  then have n: "dget (db_rows db2) (''e'', ''k'') \<noteq> dget (db_rows db1) (''e'', ''k'')" by (simp add: 1 2 Let_def)
  have "answer = Inl (StaleRow ''e'' ''k'') \<and> db3 = db2"
    using stale_write_refused[OF r 2 _ 3] n by (simp add: deletes_def)
  then show ?thesis by (simp add: 1 2 3)
qed

text \<open>
  The version check misses a row that was deleted and created again. The new row starts at version 0,
  which is the version every row starts with: a write of the old row, read before the first update,
  overwrites the new one.
\<close>

theorem recreated_row_overwritten:
  assumes "dget (db_rows db) (e, k) = Some \<lparr>dr_payload = old, dr_version = 0\<rparr>"
    and "sql_read reg e k (db, c) = (Inr (Some (row, obj)), db1, c1)"
    and "do_ops [OpExecute e ''delete'' k, OpExecute e ''create'' k] (db1, c2) = (db2, c3)"
    and "sql_persist e k row' (Some obj) (db2, c1) = (answer, db3, c4)"
  shows "answer = Inr () \<and> map_option dr_payload (dget (db_rows db2) (e, k)) = Some (PDict [(''id'', PStr k)]) \<and>
    map_option dr_payload (dget (db_rows db3) (e, k)) = Some (encoded row')"
proof -
  have d: "db1 = db" and o: "obj < length (cn_observed c1)" "cn_observed c1 ! obj = 0"
    using sql_read_row[OF assms(2)] assms(1) by auto
  have "dget (db_rows (fst (do_ops [OpExecute e ''delete'' k, OpExecute e ''create'' k] (db1, c2)))) (e, k) =
    Some \<lparr>dr_payload = PDict [(''id'', PStr k)], dr_version = 0\<rparr>"
    using assms(1) by (simp add: do_ops_def execute_cases sql_touch_def delete_row_def sql_create_def Let_def dhas_map_of dget_ddel dget_dset d)
  then have r: "dget (db_rows db2) (e, k) = Some \<lparr>dr_payload = PDict [(''id'', PStr k)], dr_version = 0\<rparr>"
    using assms(3) by simp
  then show ?thesis
    using assms(4) o by (auto simp: sql_persist_def Let_def ensure_observed update_versioned[OF r] dget_dset)
qed

theorem recreated_row_overwritten_witness:
  "let (r, db1, c1) = sql_read True ''e'' ''k'' (fst two_rows, new_conn);
       (db2, c2) = do_ops [OpExecute ''e'' ''delete'' ''k'', OpExecute ''e'' ''create'' ''k''] (db1, new_conn) in
   fst (sql_persist ''e'' ''k'' (PDict [(''n'', PInt 2)]) (Some 0) (db2, c1)) = Inr ()"
proof -
  obtain r db1 c1 where 1: "sql_read True ''e'' ''k'' (fst two_rows, new_conn) = (r, db1, c1)" by (rule prod_cases3)
  obtain db2 c2 where 2: "do_ops [OpExecute ''e'' ''delete'' ''k'', OpExecute ''e'' ''create'' ''k''] (db1, new_conn) = (db2, c2)"
    by (rule prod.exhaust)
  obtain answer db3 c3 where 3: "sql_persist ''e'' ''k'' (PDict [(''n'', PInt 2)]) (Some 0) (db2, c1) = (answer, db3, c3)" by (rule prod_cases3)
  have "fst (sql_read True ''e'' ''k'' (fst two_rows, new_conn)) = Inr (Some (PDict [(''id'', PStr ''k'')], 0))" by code_simp
  then have r: "sql_read True ''e'' ''k'' (fst two_rows, new_conn) = (Inr (Some (PDict [(''id'', PStr ''k'')], 0)), db1, c1)" using 1 by simp
  have "dget (db_rows (fst two_rows)) (''e'', ''k'') = Some \<lparr>dr_payload = PDict [(''id'', PStr ''k'')], dr_version = 0\<rparr>" by code_simp
  from recreated_row_overwritten[OF this r 2 3] show ?thesis by (simp add: 1 2 3)
qed

section \<open>Outbox\<close>




















section \<open>Idempotency claims\<close>

subsection \<open>Requests that race for a key\<close>

text \<open>A request between two of the statements of \<open>idempotency_begin\<close>.\<close>

datatype claim_phase = Selecting | Clearing | Inserting | Answered claim_answer

text \<open>One statement of one of the requests; \<open>nows\<close> holds the time each of them read.\<close>

inductive claim_step :: "row_id \<Rightarrow> int list \<Rightarrow> int \<Rightarrow> database \<times> claim_phase list \<Rightarrow> database \<times> claim_phase list \<Rightarrow> bool"
  for k :: row_id and nows :: "int list" and ttl :: int where
  found: "i < length ps \<Longrightarrow> ps ! i = Selecting \<Longrightarrow> claim_select k (nows ! i) ttl db = Inr a \<Longrightarrow>
    claim_step k nows ttl (db, ps) (db, ps[i := Answered a])"
| not_found: "i < length ps \<Longrightarrow> ps ! i = Selecting \<Longrightarrow> claim_select k (nows ! i) ttl db = Inl expired \<Longrightarrow>
    claim_step k nows ttl (db, ps) (db, ps[i := if expired then Clearing else Inserting])"
| cleared: "i < length ps \<Longrightarrow> ps ! i = Clearing \<Longrightarrow>
    claim_step k nows ttl (db, ps) (claim_delete k db, ps[i := Inserting])"
| inserted: "i < length ps \<Longrightarrow> ps ! i = Inserting \<Longrightarrow> claim_insert k (nows ! i) db = (a, db') \<Longrightarrow>
    claim_step k nows ttl (db, ps) (db', ps[i := Answered a])"

inductive_cases claim_stepE: "claim_step k nows ttl (db, ps) (db', ps')"

text \<open>
  The race as it stands: no request is about to clear the row; without a row nobody is answered; with one,
  its owner was told to start and everybody else answered so far that a request is running.
\<close>

definition race_inv :: "row_id \<Rightarrow> int list \<Rightarrow> database \<times> claim_phase list \<Rightarrow> bool" where
  "race_inv k nows s \<longleftrightarrow> (case s of (db, ps) \<Rightarrow> length ps = length nows \<and>
     (case dget (db_claims db) k of
        None \<Rightarrow> \<forall>p \<in> set ps. p \<in> {Selecting, Inserting}
      | Some r \<Rightarrow> cl_status r = ''in-progress'' \<and> (\<exists>j < length ps. cl_created r = nows ! j \<and> ps ! j = Answered Started \<and>
          (\<forall>i < length ps. i \<noteq> j \<longrightarrow> ps ! i \<in> {Selecting, Inserting, Answered InProgress}))))"

lemma race_inv_step:
  assumes "claim_step k nows ttl s t" and "race_inv k nows s"
    and close: "\<forall>a \<in> set nows. \<forall>b \<in> set nows. a - b < ttl"
  shows "race_inv k nows t"
  using assms(1,2)
proof cases
  case (found i ps db a)
  then have l: "length ps = length nows" using assms(2) by (simp add: race_inv_def)
  obtain r where r: "dget (db_claims db) k = Some r" using found by (auto simp: claim_select_def split: option.splits)
  then obtain j where j: "cl_status r = ''in-progress''" "j < length ps" "cl_created r = nows ! j" "ps ! j = Answered Started"
    "\<forall>i < length ps. i \<noteq> j \<longrightarrow> ps ! i \<in> {Selecting, Inserting, Answered InProgress}"
    using assms(2) found by (auto simp: race_inv_def)
  have "a = InProgress" using found r j by (auto simp: claim_select_def split: if_splits)
  moreover have "i \<noteq> j" using found j by auto
  ultimately show ?thesis using found r j l by (auto simp: race_inv_def nth_list_update intro!: exI[of _ j])
next
  case (not_found i ps db expired)
  then have l: "length ps = length nows" using assms(2) by (simp add: race_inv_def)
  show ?thesis
  proof (cases "dget (db_claims db) k")
    case None
    then have "\<not> expired" using not_found by (simp add: claim_select_def)
    then show ?thesis using not_found None assms(2) by (auto simp: race_inv_def dest!: set_update_subset_insert[THEN subsetD])
  next
    case (Some r)
    then obtain j where j: "j < length ps" "cl_created r = nows ! j" using assms(2) not_found by (auto simp: race_inv_def)
    then have "nows ! i - cl_created r < ttl" using close not_found l by simp
    then show ?thesis using not_found Some by (auto simp: claim_select_def split: if_splits)
  qed
next
  case (cleared i ps db)
  have "Clearing \<in> set ps" using cleared by (metis nth_mem)
  then have False using assms(2) cleared
    by (auto simp: race_inv_def in_set_conv_nth split: option.splits)
  then show ?thesis ..
next
  case (inserted i ps db a db')
  then have l: "length ps = length nows" using assms(2) by (simp add: race_inv_def)
  show ?thesis
  proof (cases "dget (db_claims db) k")
    case None
    then have a: "a = Started" "dget (db_claims db') k = Some \<lparr>cl_status = ''in-progress'', cl_http = None, cl_body = None, cl_created = nows ! i\<rparr>"
      using inserted by (auto simp: claim_insert_def dhas_map_of dget_dset)
    have "\<forall>m < length ps. ps ! m \<in> {Selecting, Inserting}" using None assms(2) inserted by (auto simp: race_inv_def)
    then show ?thesis using inserted a l by (auto simp: race_inv_def nth_list_update intro!: exI[of _ i])
  next
    case (Some r)
    then obtain j where j: "cl_status r = ''in-progress''" "j < length ps" "cl_created r = nows ! j" "ps ! j = Answered Started"
      "\<forall>i < length ps. i \<noteq> j \<longrightarrow> ps ! i \<in> {Selecting, Inserting, Answered InProgress}"
      using assms(2) inserted by (auto simp: race_inv_def)
    have "a = InProgress" "db' = db" using inserted Some by (auto simp: claim_insert_def dhas_map_of)
    moreover have "i \<noteq> j" using inserted j by auto
    ultimately show ?thesis using inserted Some j l by (auto simp: race_inv_def nth_list_update intro!: exI[of _ j])
  qed
qed

lemma race_inv_steps:
  assumes "(claim_step k nows ttl)\<^sup>*\<^sup>* s t" and "race_inv k nows s" and "\<forall>a \<in> set nows. \<forall>b \<in> set nows. a - b < ttl"
  shows "race_inv k nows t"
  using assms by (induction rule: rtranclp_induct) (auto intro: race_inv_step)

text \<open>
  C10: a fresh key is claimed once. However the statements of any number of requests for a key interleave,
  when no row holds the key at the start and the requests are closer together than the lifetime of a claim:
  once all are answered, exactly one was told to start and every other that a request is running.
\<close>

theorem fresh_key_claimed_once:
  assumes "dget (db_claims db) k = None" and "nows \<noteq> []"
    and "\<forall>a \<in> set nows. \<forall>b \<in> set nows. a - b < ttl"
    and "(claim_step k nows ttl)\<^sup>*\<^sup>* (db, map (\<lambda>_. Selecting) nows) (db', map Answered answers)"
  shows "\<exists>j < length answers. answers ! j = Started \<and> (\<forall>i < length answers. i \<noteq> j \<longrightarrow> answers ! i = InProgress)"
proof -
  have "race_inv k nows (db, map (\<lambda>_. Selecting) nows)" using assms(1) by (simp add: race_inv_def)
  then have inv: "race_inv k nows (db', map Answered answers)" using race_inv_steps[OF assms(4) _ assms(3)] by simp
  then have l: "length answers = length nows" by (simp add: race_inv_def)
  show ?thesis
  proof (cases "dget (db_claims db') k")
    case None
    then have "\<forall>p \<in> set (map Answered answers). p \<in> {Selecting, Inserting}" using inv by (simp add: race_inv_def)
    then show ?thesis using l assms(2) by (cases answers) auto
  next
    case (Some r)
    then show ?thesis using inv by (auto simp: race_inv_def)
  qed
qed

theorem fresh_key_claimed_once_witness:
  "\<exists>db' j. (claim_step (''w'', ''k'') [5, 6] 10)\<^sup>*\<^sup>* (empty_db, [Selecting, Selecting]) (db', map Answered [InProgress, Started]) \<and>
     j < length [InProgress, Started] \<and> [InProgress, Started] ! j = Started"
proof -
  let ?k = "(''w'', ''k'') :: row_id" and ?s = "claim_step (''w'', ''k'') [5, 6] 10"
  let ?db = "snd (claim_insert ?k 6 empty_db)"
  have c: "claim_select ?k 5 10 empty_db = Inl False" "claim_select ?k 6 10 empty_db = Inl False"
    "claim_insert ?k 6 empty_db = (Started, ?db)" "claim_insert ?k 5 ?db = (InProgress, ?db)"
    by code_simp+
  note step = rtranclp.rtrancl_into_rtrancl[where r = ?s]
  have "?s\<^sup>*\<^sup>* (empty_db, [Selecting, Selecting]) (empty_db, [Selecting, Selecting])" by simp
  also have "?s (empty_db, [Selecting, Selecting]) (empty_db, [Inserting, Selecting])"
    using not_found[of 0 "[Selecting, Selecting]" ?k "[5, 6]" 10 empty_db False] c by simp
  also (step) have "?s (empty_db, [Inserting, Selecting]) (empty_db, [Inserting, Inserting])"
    using not_found[of 1 "[Inserting, Selecting]" ?k "[5, 6]" 10 empty_db False] c by simp
  also (step) have "?s (empty_db, [Inserting, Inserting]) (?db, [Inserting, Answered Started])"
    using inserted[of 1 "[Inserting, Inserting]" ?k "[5, 6]" empty_db Started ?db 10] c by simp
  also (step) have "?s (?db, [Inserting, Answered Started]) (?db, [Answered InProgress, Answered Started])"
    using inserted[of 0 "[Inserting, Answered Started]" ?k "[5, 6]" ?db InProgress ?db 10] c by simp
  finally (step) have "?s\<^sup>*\<^sup>* (empty_db, [Selecting, Selecting]) (?db, map Answered [InProgress, Started])" by simp
  then show ?thesis
    using fresh_key_claimed_once[of empty_db ?k "[5, 6]" 10 ?db "[InProgress, Started]"] by (auto simp: empty_db_def)
qed

text \<open>
  An expired key can be claimed twice. Two requests that both find the expired row race: the second
  removes the claim the first has just inserted, inserts its own, and both are told to start.
\<close>

theorem expired_key_claimed_twice:
  assumes "dget (db_claims db) k = Some r" and "ttl \<le> now1 - cl_created r" and "ttl \<le> now2 - cl_created r"
  shows "\<exists>db'. (claim_step k [now1, now2] ttl)\<^sup>*\<^sup>* (db, [Selecting, Selecting]) (db', [Answered Started, Answered Started])"
proof -
  let ?s = "claim_step k [now1, now2] ttl"
  let ?d1 = "claim_delete k db"
  let ?d2 = "snd (claim_insert k now1 ?d1)"
  let ?d3 = "claim_delete k ?d2"
  let ?d4 = "snd (claim_insert k now2 ?d3)"
  have c: "claim_select k now1 ttl db = Inl True" "claim_select k now2 ttl db = Inl True"
    using assms by (simp_all add: claim_select_def)
  have i: "claim_insert k now1 ?d1 = (Started, ?d2)" "claim_insert k now2 ?d3 = (Started, ?d4)"
    by (simp_all add: claim_insert_def claim_delete_def dhas_map_of dget_ddel)
  note step = rtranclp.rtrancl_into_rtrancl[where r = ?s]
  have "?s\<^sup>*\<^sup>* (db, [Selecting, Selecting]) (db, [Selecting, Selecting])" by simp
  also have "?s (db, [Selecting, Selecting]) (db, [Clearing, Selecting])"
    using not_found[of 0 "[Selecting, Selecting]" k "[now1, now2]" ttl db True] c by simp
  also (step) have "?s (db, [Clearing, Selecting]) (db, [Clearing, Clearing])"
    using not_found[of 1 "[Clearing, Selecting]" k "[now1, now2]" ttl db True] c by simp
  also (step) have "?s (db, [Clearing, Clearing]) (?d1, [Inserting, Clearing])"
    using cleared[of 0 "[Clearing, Clearing]" k "[now1, now2]" ttl db] by simp
  also (step) have "?s (?d1, [Inserting, Clearing]) (?d2, [Answered Started, Clearing])"
    using inserted[of 0 "[Inserting, Clearing]" k "[now1, now2]" ?d1 Started ?d2 ttl] i by simp
  also (step) have "?s (?d2, [Answered Started, Clearing]) (?d3, [Answered Started, Inserting])"
    using cleared[of 1 "[Answered Started, Clearing]" k "[now1, now2]" ttl ?d2] by simp
  also (step) have "?s (?d3, [Answered Started, Inserting]) (?d4, [Answered Started, Answered Started])"
    using inserted[of 1 "[Answered Started, Inserting]" k "[now1, now2]" ?d3 Started ?d4 ttl] i by simp
  finally (step) show ?thesis by blast
qed

theorem expired_key_claimed_twice_witness:
  "\<exists>db'. (claim_step (''w'', ''k'') [20, 21] 10)\<^sup>*\<^sup>*
     (snd (claim_insert (''w'', ''k'') 0 empty_db), [Selecting, Selecting]) (db', [Answered Started, Answered Started])"
proof -
  have "dget (db_claims (snd (claim_insert (''w'', ''k'') 0 empty_db))) (''w'', ''k'') =
    Some \<lparr>cl_status = ''in-progress'', cl_http = None, cl_body = None, cl_created = 0\<rparr>" by code_simp
  then show ?thesis by (rule expired_key_claimed_twice) simp_all
qed

subsection \<open>A claim over its life\<close>

datatype claim_op = CBegin row_id int | CFinish row_id int pyval | CRelease row_id

primrec do_claim :: "int \<Rightarrow> claim_op \<Rightarrow> database \<times> conn \<Rightarrow> database \<times> conn" where
  "do_claim ttl (CBegin i now) s = snd (idempotency_begin (fst i) (snd i) now ttl s)"
| "do_claim ttl (CFinish i status body) s = snd (idempotency_finish (fst i) (snd i) status body s)"
| "do_claim ttl (CRelease i) s = snd (idempotency_release (fst i) (snd i) s)"

text \<open>What other requests do while a claim taken at \<open>t0\<close> lives: nobody else finishes or releases it.\<close>

definition quiet :: "row_id \<Rightarrow> int \<Rightarrow> int \<Rightarrow> claim_op \<Rightarrow> bool" where
  "quiet k t0 ttl op \<longleftrightarrow> (case op of CBegin i now \<Rightarrow> i = k \<longrightarrow> now - t0 < ttl | CFinish i _ _ \<Rightarrow> i \<noteq> k | CRelease i \<Rightarrow> i \<noteq> k)"

abbreviation claim_of :: "database \<times> conn \<Rightarrow> row_id \<Rightarrow> claim_row option" where
  "claim_of s k \<equiv> dget (db_claims (fst s)) k"

lemmas claim_ops = idempotency_begin_def idempotency_finish_def idempotency_release_def claim_select_def claim_delete_def
  claim_insert_def

lemma quiet_keeps:
  assumes "quiet k t0 ttl op" and "claim_of s k = Some r" and "cl_created r = t0"
  shows "claim_of (do_claim ttl op s) k = Some r"
  using assms
  by (cases s; cases op; cases k)
    (auto simp: quiet_def claim_ops Let_def dget_dset dget_ddel split: option.split)

lemma quiet_run_keeps:
  assumes "\<forall>op \<in> set ops. quiet k t0 ttl op" and "claim_of s k = Some r" and "cl_created r = t0"
  shows "claim_of (fold (do_claim ttl) ops s) k = Some r"
  using assms(1,2)
proof (induction ops arbitrary: s)
  case (Cons op ops)
  then show ?case using quiet_keeps[OF _ _ assms(3)] by simp
qed simp

text \<open>
  A request is answered from its first run. After one request has claimed a key, every other request
  for it within the lifetime of the claim is told that one is running, until the first records its status
  and body; from then on every one gets exactly that status and body.
\<close>

theorem finished_claim_replayed:
  assumes "idempotency_begin w k t0 ttl s = (Inr Started, s1)"
    and "\<forall>op \<in> set (during @ later). quiet (w, k) t0 ttl op"
    and "s2 = fold (do_claim ttl) during s1"
    and "s3 = fold (do_claim ttl) later (snd (idempotency_finish w k status body s2))"
    and "t - t0 < ttl"
  shows "fst (idempotency_begin w k t ttl s2) = Inr InProgress \<and>
    fst (idempotency_begin w k t ttl s3) = Inr (Done (Some status) (Some body))"
proof -
  have "claim_of s1 (w, k) = Some \<lparr>cl_status = ''in-progress'', cl_http = None, cl_body = None, cl_created = t0\<rparr>"
    using assms(1) by (cases s) (auto simp: claim_ops Let_def dhas_map_of dget_dset split: option.splits if_split_asm)
  then have r: "claim_of s2 (w, k) = Some \<lparr>cl_status = ''in-progress'', cl_http = None, cl_body = None, cl_created = t0\<rparr>"
    unfolding assms(3) using assms(2) by (intro quiet_run_keeps) simp_all
  then have "claim_of (snd (idempotency_finish w k status body s2)) (w, k) =
      Some \<lparr>cl_status = ''done'', cl_http = Some status, cl_body = Some body, cl_created = t0\<rparr>"
    by (cases s2) (simp add: idempotency_finish_def Let_def dget_dset)
  then have f: "claim_of s3 (w, k) = Some \<lparr>cl_status = ''done'', cl_http = Some status, cl_body = Some body, cl_created = t0\<rparr>"
    unfolding assms(4) using assms(2) by (intro quiet_run_keeps) simp_all
  show ?thesis
    using r f assms(5) by (cases s2; cases s3) (simp add: idempotency_begin_def claim_select_def)
qed

theorem finished_claim_replayed_witness:
  "let s1 = snd (idempotency_begin ''w'' ''k'' 0 10 (empty_db, new_conn));
       s2 = do_claim 10 (CBegin (''w'', ''k'') 1) s1;
       s3 = do_claim 10 (CRelease (''w'', ''l'')) (snd (idempotency_finish ''w'' ''k'' 200 PNone s2)) in
   fst (idempotency_begin ''w'' ''k'' 9 10 s2) = Inr InProgress \<and>
   fst (idempotency_begin ''w'' ''k'' 9 10 s3) = Inr (Done (Some 200) (Some PNone))"
proof -
  let ?s = "idempotency_begin ''w'' ''k'' 0 10 (empty_db, new_conn)"
  have "fst ?s = Inr Started" by code_simp
  then have "?s = (Inr Started, snd ?s)" by (metis prod.collapse)
  from finished_claim_replayed[OF this, where during = "[CBegin (''w'', ''k'') 1]" and later = "[CRelease (''w'', ''l'')]" and t = 9
      and status = 200 and body = PNone]
  show ?thesis by (simp add: quiet_def Let_def)
qed

end
