(* ===== verification/Drivers.thy ===== *)
theory Drivers
  imports StoreProps QueryProps
begin

text \<open>
  The contract of \<open>RepositoryDriver\<close> over the contents of rows as an interface, and the two drivers that keep
  it: \<open>FakeRepository\<close> of \<open>interp.py\<close> and \<open>SqliteRepositoryDriver\<close> of \<open>drivers.py\<close>.
\<close>

section \<open>Contents\<close>

text \<open>What is encoded already stays as it is.\<close>

declare encoded.simps(2) [simp del]

interpretation key_order: weak_order str_less UNIV
  by unfold_locales (auto dest: str_less_asym str_less_negtrans)

lemma insert_by_first: "\<forall>y \<in> set ys. \<not> lt y x \<Longrightarrow> insert_by lt x ys = x # ys"
  by (cases ys) auto

lemma sort_by_sorted: "sorted_wrt (\<lambda>a b. \<not> lt b a) xs \<Longrightarrow> sort_by lt xs = xs"
  by (induction xs) (simp_all add: sort_by_def insert_by_first)

lemma encoded_again: "encoded (encoded v) = encoded v"
proof (induction v rule: encoded.induct)
  case (2 d)
  let ?lt = "\<lambda>p q :: string \<times> pyval. str_less (fst p) (fst q)"
  let ?d = "sort_by ?lt (map (\<lambda>(k, v). (k, encoded v)) d)"
  have "encoded v = v" if "(k, v) \<in> set ?d" for k v
    using that 2 by (auto simp: mem_sort_by)
  then have same: "map (\<lambda>(k, v). (k, encoded v)) ?d = ?d"
    by (auto intro!: map_idI)
  have "sort_by ?lt ?d = ?d"
    by (rule sort_by_sorted) (rule key_order.sort_sorted[of fst], simp)
  with same show ?case by (simp add: encoded.simps(2))
qed simp_all

section \<open>The contract\<close>

text \<open>
  A call of \<open>execute\<close>, or of \<open>persist\<close> with a dictionary. Contents are compared as Python compares dictionaries,
  without regard to the order of keys: as \<open>encoded\<close> puts it. \<open>Broken\<close> is every answer the contract does not know.
\<close>

datatype call = Execute string row_id | Persist row_id row

datatype call_answer = Found "pyval option" | Taken string | Affects nat | Stored | Broken

type_synonym contents = "row_id \<Rightarrow> pyval option"

definition fresh_row :: "string \<Rightarrow> pyval" where
  "fresh_row k = PDict [(''id'', PStr k)]"

definition spec_execute :: "string \<Rightarrow> row_id \<Rightarrow> contents \<Rightarrow> call_answer \<times> contents" where
  "spec_execute operation i m =
     (let affected = Affects (if m i = None then 0 else 1) in
      if operation = ''read'' then (Found (m i), m)
      else if operation = ''create'' then (if m i = None then (Affects 1, m(i \<mapsto> fresh_row (snd i))) else (Taken (fst i), m))
      else if operation = ''delete'' then (affected, m(i := None))
      else (affected, m))"

fun spec_call :: "call \<Rightarrow> contents \<Rightarrow> call_answer \<times> contents" where
  "spec_call (Execute operation i) m = spec_execute operation i m"
| "spec_call (Persist i row) m = (Stored, m(i \<mapsto> encoded (PDict row)))"

text \<open>The four operations, and the persist of a row that is there.\<close>

definition row_calls :: "string set" where "row_calls = {''read'', ''create'', ''update'', ''delete''}"

fun lawful :: "call \<Rightarrow> contents \<Rightarrow> bool" where
  "lawful (Execute operation _) m = (operation \<in> row_calls)"
| "lawful (Persist i _) m = (m i \<noteq> None)"

primrec all_lawful :: "call list \<Rightarrow> contents \<Rightarrow> bool" where
  "all_lawful [] m = True"
| "all_lawful (c # cs) m = (lawful c m \<and> all_lawful cs (snd (spec_call c m)))"

primrec run_calls :: "(call \<Rightarrow> 's \<Rightarrow> 'a \<times> 's) \<Rightarrow> call list \<Rightarrow> 's \<Rightarrow> 'a list \<times> 's" where
  "run_calls f [] s = ([], s)"
| "run_calls f (c # cs) s = (let (a, s) = f c s; (as, s) = run_calls f cs s in (a # as, s))"

locale row_driver =
  fixes answer :: "call \<Rightarrow> 's \<Rightarrow> call_answer \<times> 's" and rows :: "'s \<Rightarrow> contents" and sound :: "'s \<Rightarrow> bool"
  assumes read_call: "sound s \<Longrightarrow> answer (Execute ''read'' i) s = (a, t) \<Longrightarrow> sound t \<and> a = Found (rows s i) \<and> rows t = rows s"
    and create_fresh: "sound s \<Longrightarrow> rows s i = None \<Longrightarrow> answer (Execute ''create'' i) s = (a, t) \<Longrightarrow>
      sound t \<and> a = Affects 1 \<and> rows t = (rows s)(i \<mapsto> fresh_row (snd i))"
    and create_taken: "sound s \<Longrightarrow> rows s i \<noteq> None \<Longrightarrow> answer (Execute ''create'' i) s = (a, t) \<Longrightarrow>
      sound t \<and> a = Taken (fst i) \<and> rows t = rows s"
    and update_call: "sound s \<Longrightarrow> answer (Execute ''update'' i) s = (a, t) \<Longrightarrow>
      sound t \<and> a = Affects (if rows s i = None then 0 else 1) \<and> rows t = rows s"
    and delete_call: "sound s \<Longrightarrow> answer (Execute ''delete'' i) s = (a, t) \<Longrightarrow>
      sound t \<and> a = Affects (if rows s i = None then 0 else 1) \<and> rows t = (rows s)(i := None)"
    and persist_call: "sound s \<Longrightarrow> rows s i \<noteq> None \<Longrightarrow> answer (Persist i row) s = (a, t) \<Longrightarrow>
      sound t \<and> a = Stored \<and> rows t = (rows s)(i \<mapsto> encoded (PDict row))"
begin

lemma refines_call:
  assumes "sound s" and "lawful c (rows s)" and "answer c s = (a, t)"
  shows "sound t \<and> spec_call c (rows s) = (a, rows t)"
proof (cases c)
  case (Persist i row)
  then have "rows s i \<noteq> None" "answer (Persist i row) s = (a, t)" using assms(2,3) by simp_all
  from persist_call[OF assms(1) this] show ?thesis by (simp add: Persist)
next
  case (Execute operation i)
  then consider "operation = ''read''" | "operation = ''create''" "rows s i \<noteq> None" | "operation = ''create''" "rows s i = None"
    | "operation = ''update''" | "operation = ''delete''"
    using assms(2) by (auto simp: row_calls_def)
  then show ?thesis
  proof cases
    case 1 then show ?thesis using assms(3) read_call[OF assms(1)] by (simp add: Execute spec_execute_def)
  next
    case 2 then show ?thesis using assms(3) create_taken[OF assms(1) 2(2)] by (simp add: Execute spec_execute_def)
  next
    case 3 then show ?thesis using assms(3) create_fresh[OF assms(1) 3(2)] by (simp add: Execute spec_execute_def)
  next
    case 4 then show ?thesis using assms(3) update_call[OF assms(1)] by (simp add: Execute spec_execute_def)
  next
    case 5 then show ?thesis using assms(3) delete_call[OF assms(1)] by (simp add: Execute spec_execute_def)
  qed
qed

lemma refines_calls:
  "sound s \<Longrightarrow> all_lawful cs (rows s) \<Longrightarrow>
     run_calls spec_call cs (rows s) = (fst (run_calls answer cs s), rows (snd (run_calls answer cs s)))"
proof (induction cs arbitrary: s)
  case (Cons c cs)
  obtain a t where t: "answer c s = (a, t)" by (rule prod.exhaust)
  from refines_call[OF Cons.prems(1) _ t] Cons.prems(2) have "sound t" "spec_call c (rows s) = (a, rows t)" by auto
  with Cons.IH[of t] Cons.prems(2) t show ?case by (simp add: split_beta)
qed simp

end

section \<open>FakeRepository\<close>

text \<open>A persisted dictionary is an object of the heap; an answered address is read there.\<close>

fun fake_answer :: "call \<Rightarrow> heap \<times> repo \<Rightarrow> call_answer \<times> heap \<times> repo" where
  "fake_answer (Execute operation i) s =
     (let (r, h, rp) = repo_execute (fst s) (snd s) (fst i) operation (snd i) in
      (case r of
         Inl (RunError (CreateConflict e)) \<Rightarrow> Taken e
       | Inl _ \<Rightarrow> Broken
       | Inr None \<Rightarrow> Found None
       | Inr (Some a) \<Rightarrow>
           if operation = ''read'' then Found (Some (encoded (PDict (row_at h a))))
           else (case dget (row_at h a) ''affected'' of Some (PInt n) \<Rightarrow> Affects (nat n) | _ \<Rightarrow> Broken), h, rp))"
| "fake_answer (Persist i row) s = (Stored, fst s @ [plain row], repo_persist (snd s) (fst i) (snd i) (length (fst s)))"

definition fake_rows :: "heap \<times> repo \<Rightarrow> contents" where
  "fake_rows s i = map_option (\<lambda>a. encoded (PDict (row_at (fst s) a))) (dget (table_of (snd s) (fst i)) (snd i))"

text \<open>Every stored address is one of the heap.\<close>

definition fake_sound :: "heap \<times> repo \<Rightarrow> bool" where
  "fake_sound s \<longleftrightarrow> (\<forall>e k a. dget (table_of (snd s) e) k = Some a \<longrightarrow> a < length (fst s))"

lemma table_made: "table_of (r\<lparr>rp_calls := cs, rp_rows := dsetdefault e [] (rp_rows r)\<rparr>) x = table_of r x"
  by (simp add: table_of_def map_of_dsetdefault split: option.split)

lemma table_put: "table_of (r\<lparr>rp_calls := cs, rp_rows := dset e t (dsetdefault e [] (rp_rows r))\<rparr>) x = (if x = e then t else table_of r x)"
  by (simp add: table_of_def dget_dset map_of_dsetdefault split: option.split)

lemma table_put_row: "table_of (put_row r e k a) x = (if x = e then dset k a (table_of r e) else table_of r x)"
  by (simp add: put_row_def table_of_def dget_dset split: option.split)

lemma table_empty: "table_of (r\<lparr>rp_calls := cs\<rparr>) x = table_of r x"
  by (simp add: table_of_def)

text \<open>Rows keep their contents while the heap grows.\<close>

lemma row_at_grown: "a < length h \<Longrightarrow> row_at (h @ xs) a = row_at h a"
  by (simp add: row_at_def nth_append)

lemma sound_address: "fake_sound s \<Longrightarrow> dget (table_of (snd s) e) k = Some a \<Longrightarrow> a < length (fst s)"
  by (simp add: fake_sound_def)

lemma fake_rows_grow:
  assumes "fake_sound (h, r)" and "\<And>e. table_of r' e = table_of r e"
  shows "fake_rows (h @ xs, r') = fake_rows (h, r)"
proof
  fix i
  show "fake_rows (h @ xs, r') i = fake_rows (h, r) i"
    using sound_address[OF assms(1), of "fst i" "snd i"]
    by (cases "dget (table_of r (fst i)) (snd i)") (simp_all add: fake_rows_def assms(2) row_at_grown)
qed

lemma fake_sound_grow:
  assumes "fake_sound (h, r)" and "\<And>e. table_of r' e = table_of r e"
  shows "fake_sound (h @ xs, r')"
  using sound_address[OF assms(1)] by (fastforce simp: fake_sound_def assms(2))

text \<open>A row written under a key.\<close>

lemma fake_rows_put:
  assumes "fake_sound (h, r)" and "\<And>x. table_of r' x = (if x = e then dset k (length h) (table_of r e) else table_of r x)"
  shows "fake_rows (h @ o1 # xs, r') = (fake_rows (h, r))((e, k) \<mapsto> encoded (PDict (ob_row o1)))"
    and "fake_sound (h @ o1 # xs, r')"
proof -
  show "fake_rows (h @ o1 # xs, r') = (fake_rows (h, r))((e, k) \<mapsto> encoded (PDict (ob_row o1)))"
  proof
    fix i
    show "fake_rows (h @ o1 # xs, r') i = ((fake_rows (h, r))((e, k) \<mapsto> encoded (PDict (ob_row o1)))) i"
    proof (cases "i = (e, k)")
      case True
      then show ?thesis by (simp add: fake_rows_def assms(2) dget_dset row_at_def)
    next
      case False
      then have "dget (table_of r' (fst i)) (snd i) = dget (table_of r (fst i)) (snd i)"
        by (cases i) (auto simp: assms(2) dget_dset)
      then show ?thesis
        using False sound_address[OF assms(1), of "fst i" "snd i"]
        by (cases "dget (table_of r (fst i)) (snd i)") (simp_all add: fake_rows_def row_at_grown)
    qed
  qed
  show "fake_sound (h @ o1 # xs, r')"
    unfolding fake_sound_def
  proof (intro allI impI)
    fix x y a
    assume "dget (table_of (snd (h @ o1 # xs, r')) x) y = Some a"
    then have "a = length h \<or> dget (table_of r x) y = Some a"
      by (auto simp: assms(2) dget_dset split: if_split_asm)
    then show "a < length (fst (h @ o1 # xs, r'))" using sound_address[OF assms(1), of x y a] by auto
  qed
qed

text \<open>A row taken out.\<close>

lemma fake_rows_drop:
  assumes "fake_sound (h, r)" and "\<And>x. table_of r' x = (if x = e then ddel k (table_of r e) else table_of r x)"
  shows "fake_rows (h @ xs, r') = (fake_rows (h, r))((e, k) := None)" and "fake_sound (h @ xs, r')"
proof -
  have kept: "dget (table_of r' x) y = (if (x, y) = (e, k) then None else dget (table_of r x) y)" for x y
    by (simp add: assms(2) dget_ddel)
  show "fake_sound (h @ xs, r')"
    using sound_address[OF assms(1)] by (fastforce simp: fake_sound_def kept split: if_split_asm)
  show "fake_rows (h @ xs, r') = (fake_rows (h, r))((e, k) := None)"
  proof
    fix i
    show "fake_rows (h @ xs, r') i = ((fake_rows (h, r))((e, k) := None)) i"
      using sound_address[OF assms(1), of "fst i" "snd i"]
      by (cases "dget (table_of r (fst i)) (snd i)") (auto simp: fake_rows_def kept row_at_grown)
  qed
qed

lemma encoded_fresh: "encoded (PDict [(''id'', PStr k)]) = fresh_row k"
  by (simp add: encoded.simps(2) sort_by_def fresh_row_def)

interpretation fake: row_driver fake_answer fake_rows fake_sound
proof unfold_locales
  fix i :: row_id and s t :: "heap \<times> repo" and a row
  obtain e k where i: "i = (e, k)" by (rule prod.exhaust)
  obtain h r where s: "s = (h, r)" by (rule prod.exhaust)
  assume sound: "fake_sound s"
  note sound' = sound[unfolded s]
  note made = repo_execute_def Let_def table_made dhas_map_of
  let ?r = "\<lambda>operation. r\<lparr>rp_calls := rp_calls r @ [(e, operation)], rp_rows := dsetdefault e [] (rp_rows r)\<rparr>"
  have same: "fake_rows (h @ xs, ?r operation) = fake_rows s" "fake_sound (h @ xs, ?r operation)" for operation xs
    unfolding s by (rule fake_rows_grow[OF sound'] fake_sound_grow[OF sound'], rule table_made)+
  have here: "(fake_rows s i = None) = (dget (table_of r e) k = None)" by (simp add: fake_rows_def s i)
  show "fake_sound t \<and> a = Found (fake_rows s i) \<and> fake_rows t = fake_rows s" if "fake_answer (Execute ''read'' i) s = (a, t)"
    using that same[of "[]" "''read''"]
    by (cases "dget (table_of r e) k") (auto simp: made s i fake_rows_def)
  show "fake_sound t \<and> a = Taken (fst i) \<and> fake_rows t = fake_rows s"
    if "fake_rows s i \<noteq> None" "fake_answer (Execute ''create'' i) s = (a, t)"
    using that same[of "[]" "''create''"] here by (auto simp: made s i)
  show "fake_sound t \<and> a = Affects 1 \<and> fake_rows t = (fake_rows s)(i \<mapsto> fresh_row (snd i))"
    if "fake_rows s i = None" "fake_answer (Execute ''create'' i) s = (a, t)"
  proof -
    let ?t = "(h @ [plain [(''id'', PStr k)], affected 1], put_row (?r ''create'') e k (length h))"
    have "a = Affects 1 \<and> t = ?t"
      using that here by (auto simp: made s i nth_append row_at_def affected_def plain_def)
    moreover have "table_of (put_row (?r ''create'') e k (length h)) x = (if x = e then dset k (length h) (table_of r e) else table_of r x)" for x
      by (simp add: table_put_row table_made)
    note put = fake_rows_put[OF sound' this]
    ultimately show ?thesis
      using put[of "plain [(''id'', PStr k)]" "[affected 1]"] by (simp add: s i plain_def encoded_fresh)
  qed
  show "fake_sound t \<and> a = Affects (if fake_rows s i = None then 0 else 1) \<and> fake_rows t = fake_rows s"
    if "fake_answer (Execute ''update'' i) s = (a, t)"
    using that same[of _ "''update''"] here by (auto simp: made s i nth_append row_at_def affected_def plain_def)
  show "fake_sound t \<and> a = Affects (if fake_rows s i = None then 0 else 1) \<and> fake_rows t = (fake_rows s)(i := None)"
    if "fake_answer (Execute ''delete'' i) s = (a, t)"

  proof -
    let ?t = "(h @ [affected (if dhas (table_of r e) k then 1 else 0)],
      (?r ''delete'')\<lparr>rp_rows := dset e (ddel k (table_of r e)) (rp_rows (?r ''delete''))\<rparr>)"
    have "a = Affects (if fake_rows s i = None then 0 else 1) \<and> t = ?t"
      using that here by (auto simp: made s i nth_append row_at_def affected_def plain_def)
    then show ?thesis using fake_rows_drop[OF sound' table_put] by (simp add: s i)
  qed
  show "fake_sound t \<and> a = Stored \<and> fake_rows t = (fake_rows s)(i \<mapsto> encoded (PDict row))"
    if "fake_answer (Persist i row) s = (a, t)"
  proof -
    have "table_of (repo_persist r e k (length h)) x = (if x = e then dset k (length h) (table_of r e) else table_of r x)" for x
      by (simp add: repo_persist_def table_put_row)
    note put = fake_rows_put[OF sound' this]
    show ?thesis using that put[of "plain row" "[]"] by (auto simp: s i plain_def)
  qed
qed

section \<open>SqliteRepositoryDriver\<close>

fun sqlite_answer :: "call \<Rightarrow> database \<times> conn \<Rightarrow> call_answer \<times> database \<times> conn" where
  "sqlite_answer (Execute operation i) s =
     (let (r, s) = sql_execute (fst i) operation (snd i) s in
      (case r of
         Inl (RowExists e) \<Rightarrow> Taken e
       | Inl _ \<Rightarrow> Broken
       | Inr (RowFound x) \<Rightarrow> Found (map_option (\<lambda>(row, _). encoded row) x)
       | Inr (Affected n) \<Rightarrow> Affects n, s))"
| "sqlite_answer (Persist i row) s =
     (let (r, s) = sql_persist (fst i) (snd i) (PDict row) None s in (case r of Inl _ \<Rightarrow> Broken | Inr _ \<Rightarrow> Stored, s))"

definition sqlite_rows :: "database \<times> conn \<Rightarrow> contents" where
  "sqlite_rows s i = map_option (\<lambda>r. encoded (dr_payload r)) (dget (db_rows (fst s)) i)"

lemma sqlite_rows_put:
  "sqlite_rows (db\<lparr>db_rows := dset i r (db_rows db)\<rparr>, c) = (sqlite_rows (db, c'))(i \<mapsto> encoded (dr_payload r))"
  by (simp add: sqlite_rows_def fun_eq_iff dget_dset)

lemma sqlite_rows_drop: "sqlite_rows (db\<lparr>db_rows := ddel i (db_rows db)\<rparr>, c) = (sqlite_rows (db, c'))(i := None)"
  by (simp add: sqlite_rows_def fun_eq_iff dget_ddel)

lemma sqlite_rows_conn: "sqlite_rows (db, c) = sqlite_rows (db, c')"
  by (simp add: sqlite_rows_def fun_eq_iff)

lemma sqlite_rows_touched:
  assumes "dget (db_rows db) i = Some r"
  shows "(sqlite_rows (db, c))(i \<mapsto> encoded (dr_payload r)) = sqlite_rows (db, c')"
  using assms by (simp add: sqlite_rows_def fun_eq_iff)

interpretation sqlite: row_driver sqlite_answer sqlite_rows "\<lambda>_. True"
proof unfold_locales
  fix i :: row_id and s t :: "database \<times> conn" and a row
  obtain e k where i: "i = (e, k)" by (rule prod.exhaust)
  obtain db c where s: "s = (db, c)" by (rule prod.exhaust)
  note defs = sql_execute_def sql_read_def sql_create_def sql_touch_def read_row_def update_row_def delete_row_def sql_persist_def Let_def dhas_map_of
  have here: "sqlite_rows s i = map_option (\<lambda>r. encoded (dr_payload r)) (dget (db_rows db) (e, k))" by (simp add: sqlite_rows_def s i)
  note rows = sqlite_rows_put[where db = db and c' = c] sqlite_rows_drop[where db = db and c' = c] sqlite_rows_conn[of db "ensure_transaction db c" c]
  show "True \<and> a = Found (sqlite_rows s i) \<and> sqlite_rows t = sqlite_rows s" if "sqlite_answer (Execute ''read'' i) s = (a, t)"
    using that here rows by (cases "dget (db_rows db) (e, k)") (auto simp: defs s i intro: sqlite_rows_conn)
  show "True \<and> a = Taken (fst i) \<and> sqlite_rows t = sqlite_rows s"
    if "sqlite_rows s i \<noteq> None" "sqlite_answer (Execute ''create'' i) s = (a, t)"
    using that here rows by (auto simp: defs s i)
  show "True \<and> a = Affects 1 \<and> sqlite_rows t = (sqlite_rows s)(i \<mapsto> fresh_row (snd i))"
    if "sqlite_rows s i = None" "sqlite_answer (Execute ''create'' i) s = (a, t)"
    using that here rows by (auto simp: defs s i encoded_fresh)
  show "True \<and> a = Affects (if sqlite_rows s i = None then 0 else 1) \<and> sqlite_rows t = sqlite_rows s"
    if "sqlite_answer (Execute ''update'' i) s = (a, t)"
    using that here rows sqlite_rows_touched[of db i _ c c]
    by (cases "dget (db_rows db) (e, k)") (auto simp: defs s i encoded_again fun_upd_idem intro: sqlite_rows_conn)
  show "True \<and> a = Affects (if sqlite_rows s i = None then 0 else 1) \<and> sqlite_rows t = (sqlite_rows s)(i := None)"
    if "sqlite_answer (Execute ''delete'' i) s = (a, t)"
    using that here rows by (cases "dget (db_rows db) (e, k)") (auto simp: defs s i fun_upd_idem)
  show "True \<and> a = Stored \<and> sqlite_rows t = (sqlite_rows s)(i \<mapsto> encoded (PDict row))"
    if "sqlite_rows s i \<noteq> None" "sqlite_answer (Persist i row) s = (a, t)"
    using that here rows by (auto simp: defs s i encoded_again)
qed

text \<open>
  C11: the two drivers cannot be told apart through a run's calls on rows. From stores whose rows have the same
  contents (dictionaries compared without regard to the order of keys), any sequence of reads, creates, updates,
  deletes and persists of rows that are there, the persisted row a plain dictionary, is answered alike call by call:
  the contents a read finds, the conflict of a create on a key that is taken, the number of rows affected, the
  persist done. It leaves stores whose rows have the same contents. (A persist of a row that is not there
  is left out: \<open>FakeRepository\<close> stores the row, and the SQLite driver's \<open>UPDATE\<close> writes nothing.)
\<close>

theorem drivers_answer_alike:
  assumes "fake_sound s" and "fake_rows s = sqlite_rows t" and "all_lawful cs (fake_rows s)"
  shows "fst (run_calls fake_answer cs s) = fst (run_calls sqlite_answer cs t) \<and>
    fake_rows (snd (run_calls fake_answer cs s)) = sqlite_rows (snd (run_calls sqlite_answer cs t))"
  using fake.refines_calls[OF assms(1,3)] sqlite.refines_calls[OF TrueI assms(3)[unfolded assms(2)]] assms(2) by simp

definition shop_calls :: "call list" where
  "shop_calls =
     [Execute ''create'' (''e'', ''k''), Persist (''e'', ''k'') [(''n'', PInt 2), (''id'', PStr ''k'')],
      Execute ''update'' (''e'', ''k''), Execute ''read'' (''e'', ''k''), Execute ''create'' (''e'', ''k''),
      Execute ''delete'' (''e'', ''k''), Execute ''read'' (''e'', ''k'')]"

theorem drivers_answer_alike_witness:
  "fst (run_calls fake_answer shop_calls ([], empty_repo)) = fst (run_calls sqlite_answer shop_calls (empty_db, new_conn)) \<and>
   fst (run_calls fake_answer shop_calls ([], empty_repo)) =
     [Affects 1, Stored, Affects 1, Found (Some (PDict [(''id'', PStr ''k''), (''n'', PInt 2)])), Taken ''e'', Affects 1, Found None]"
proof -
  have "fake_sound ([], empty_repo)" "fake_rows ([], empty_repo) = sqlite_rows (empty_db, new_conn)"
    by (simp_all add: fake_sound_def fake_rows_def sqlite_rows_def empty_repo_def empty_db_def table_of_def fun_eq_iff)
  moreover have "all_lawful shop_calls (fake_rows ([], empty_repo))"
    by (simp add: shop_calls_def row_calls_def spec_execute_def fake_rows_def empty_repo_def table_of_def Let_def)
  moreover have "fst (run_calls fake_answer shop_calls ([], empty_repo)) =
     [Affects 1, Stored, Affects 1, Found (Some (PDict [(''id'', PStr ''k''), (''n'', PInt 2)])), Taken ''e'', Affects 1, Found None]"
    by code_simp
  ultimately show ?thesis using drivers_answer_alike by simp
qed

end
