(* ===== verification/RepoPolicy.thy ===== *)
theory RepoPolicy
  imports Workflow Examples
begin

text \<open>
  The seed rule of \<open>impl/lnpl/repo_policy.py\<close> and the name resolution of \<open>impl/lnpl/resolve.py\<close>. The
  walks over a workflow recurse through its containers; \<open>n\<close> is the depth at which Python's recursion
  limit stops them, an error here. A Python set of entities is a list in the order of first operations;
  the iteration order of the set only permutes the tables of the seed.
\<close>

section \<open>Walks over a workflow\<close>

fun walk_calls :: "nat \<Rightarrow> document \<Rightarrow> string list \<Rightarrow> run_exc + repo_call list" where
  "walk_calls 0 doc ids = Inl (Escaped PyRecursionError)"
| "walk_calls (Suc n) doc ids =
     bindE (mapE (\<lambda>i. case node_of doc i of
                        None \<Rightarrow> Inr []
                      | Some (WorkflowStep _ cs) \<Rightarrow>
                          Inr (List.map_filter (\<lambda>c. case node_of doc c of
                              Some (Effect (RepositoryCall rc)) \<Rightarrow> Some rc | _ \<Rightarrow> None) cs)
                      | Some nd \<Rightarrow> walk_calls n doc (node_children nd)) ids) (\<lambda>css. Inr (concat css))"

definition workflow_children :: "document \<Rightarrow> string \<Rightarrow> string list option" where
  "workflow_children doc wid = (case node_of doc wid of Some (Workflow _ cs) \<Rightarrow> Some cs | _ \<Rightarrow> None)"

definition repository_calls :: "nat \<Rightarrow> document \<Rightarrow> string \<Rightarrow> run_exc + (string \<times> string) list" where
  "repository_calls n doc wid =
     (case workflow_children doc wid of
        None \<Rightarrow> Inr []
      | Some ids \<Rightarrow> bindE (walk_calls n doc ids) (\<lambda>cs. Inr (map (\<lambda>c. (rc_entity c, rc_operation c)) cs)))"

text \<open>\<open>first_read\<close>: the same walk, stopped at the first read of the entity.\<close>

fun first_step_read :: "document \<Rightarrow> string \<Rightarrow> string list \<Rightarrow> repo_call option" where
  "first_step_read doc e [] = None"
| "first_step_read doc e (c # cs) =
     (case node_of doc c of
        Some (Effect (RepositoryCall rc)) \<Rightarrow>
          if rc_entity rc = e \<and> rc_operation rc = ''read'' then Some rc else first_step_read doc e cs
      | _ \<Rightarrow> first_step_read doc e cs)"

fun firstE :: "('a \<Rightarrow> 'e + 'b option) \<Rightarrow> 'a list \<Rightarrow> 'e + 'b option" where
  "firstE f [] = Inr None"
| "firstE f (x # xs) = bindE (f x) (\<lambda>r. case r of Some y \<Rightarrow> Inr (Some y) | None \<Rightarrow> firstE f xs)"

lemma firstE_cong [fundef_cong]:
  "xs = ys \<Longrightarrow> (\<And>x. x \<in> set ys \<Longrightarrow> f x = g x) \<Longrightarrow> firstE f xs = firstE g ys"
proof (induction ys arbitrary: xs)
  case (Cons y ys)
  then have "firstE f ys = firstE g ys" "f y = g y" by auto
  with Cons.prems(1) show ?case by simp
qed simp

fun first_read :: "nat \<Rightarrow> document \<Rightarrow> string \<Rightarrow> string list \<Rightarrow> run_exc + repo_call option" where
  "first_read 0 doc e ids = Inl (Escaped PyRecursionError)"
| "first_read (Suc n) doc e ids =
     firstE (\<lambda>i. case node_of doc i of
                   None \<Rightarrow> Inr None
                 | Some (WorkflowStep _ cs) \<Rightarrow> Inr (first_step_read doc e cs)
                 | Some nd \<Rightarrow> first_read n doc e (node_children nd)) ids"

definition lookup_key_source :: "nat \<Rightarrow> document \<Rightarrow> string \<Rightarrow> string \<Rightarrow> run_exc + string option" where
  "lookup_key_source n doc wid e =
     (case workflow_children doc wid of
        None \<Rightarrow> Inr None
      | Some ids \<Rightarrow> bindE (first_read n doc e ids) (\<lambda>r. Inr (case r of None \<Rightarrow> None | Some c \<Rightarrow> rc_lookup c)))"

text \<open>\<open>event_emissions\<close>: the event of an \<open>EventEmit\<close> is required there.\<close>

fun step_events :: "document \<Rightarrow> string list \<Rightarrow> run_exc + string list" where
  "step_events doc [] = Inr []"
| "step_events doc (c # cs) =
     (case node_of doc c of
        Some (Effect (EventEmit ev _)) \<Rightarrow>
          (case ev of
             None \<Rightarrow> Inl (Escaped PyKeyError)
           | Some e \<Rightarrow> bindE (step_events doc cs) (\<lambda>es. Inr (e # es)))
      | _ \<Rightarrow> step_events doc cs)"

fun walk_events :: "nat \<Rightarrow> document \<Rightarrow> string list \<Rightarrow> run_exc + string list" where
  "walk_events 0 doc ids = Inl (Escaped PyRecursionError)"
| "walk_events (Suc n) doc ids =
     bindE (mapE (\<lambda>i. case node_of doc i of
                        None \<Rightarrow> Inr []
                      | Some (WorkflowStep _ cs) \<Rightarrow> step_events doc cs
                      | Some nd \<Rightarrow> walk_events n doc (node_children nd)) ids) (\<lambda>ess. Inr (concat ess))"

definition event_emissions :: "nat \<Rightarrow> document \<Rightarrow> string \<Rightarrow> run_exc + string list" where
  "event_emissions n doc wid =
     (case workflow_children doc wid of None \<Rightarrow> Inr [] | Some ids \<Rightarrow> walk_events n doc ids)"

section \<open>The seed\<close>

definition first_ops :: "(string \<times> string) list \<Rightarrow> (string, string) dict" where
  "first_ops calls =
     fold (\<lambda>(e, operation) ops. if operation \<in> {''read'', ''create''} then dsetdefault e operation ops else ops) calls []"

definition seeded_entities :: "nat \<Rightarrow> document \<Rightarrow> string \<Rightarrow> run_exc + string list" where
  "seeded_entities n doc wid =
     bindE (repository_calls n doc wid) (\<lambda>calls.
       Inr (map fst (filter (\<lambda>(_, operation). operation = ''read'') (first_ops calls))))"

definition default_row :: "nat \<Rightarrow> document \<Rightarrow> string \<Rightarrow> row \<Rightarrow> string \<Rightarrow> run_exc + (string \<times> (string, row) dict) list" where
  "default_row n doc wid payload e =
     bindE (lookup_key_source n doc wid e) (\<lambda>source.
     case source of
       Some ref \<Rightarrow>
         if take (Suc (length payload_namespace)) ref = payload_namespace @ ''.'' then
           (let v = pget payload (snd (snd (partition_at CHR ''.'' ref))) in
            Inr (if v = PNone then [] else [(e, [(row_key e [(''id'', v)], payload)])]))
         else Inr [(e, [(row_key e payload, payload)])]
     | None \<Rightarrow> Inr [(e, [(row_key e payload, payload)])])"

definition default_rows :: "nat \<Rightarrow> document \<Rightarrow> string \<Rightarrow> row \<Rightarrow> run_exc + seed" where
  "default_rows n doc wid payload =
     bindE (seeded_entities n doc wid) (\<lambda>es.
     bindE (mapE (default_row n doc wid payload) es) (\<lambda>rows. Inr (concat rows)))"

text \<open>\<open>seed_bindings\<close>; only an entity is ever seeded, so the named node is one.\<close>

definition seed_bindings :: "nat \<Rightarrow> document \<Rightarrow> string \<Rightarrow> row \<Rightarrow> string list option \<Rightarrow> run_exc + (string, row) dict" where
  "seed_bindings n doc wid payload seeded =
     bindE (case seeded of None \<Rightarrow> seeded_entities n doc wid | Some es \<Rightarrow> Inr es) (\<lambda>es.
       Inr (fold (\<lambda>e scope. case entity_name doc e of None \<Rightarrow> scope | Some nm \<Rightarrow> dset (binding_name nm) payload scope) es []))"

section \<open>Name resolution\<close>

text \<open>The keys of a node that \<open>resolve_node\<close> reads.\<close>

record named_node =
  na_id :: string
  na_kind :: string
  na_name :: string
  na_namespace :: string

definition qualified_name :: "named_node \<Rightarrow> string" where
  "qualified_name n = (if na_namespace n = [] then na_name n else na_namespace n @ ''.'' @ na_name n)"

text \<open>\<open>AmbiguousName\<close> with the candidates its message lists.\<close>

datatype resolve_error = SharedQualified "string list" | SharedBare "string list"

definition sorted_texts :: "string list \<Rightarrow> string list" where
  "sorted_texts = sort_by str_less"

definition resolve_node :: "named_node list \<Rightarrow> string \<Rightarrow> string \<Rightarrow> resolve_error + named_node option" where
  "resolve_node nodes kind name =
     (let candidates = filter (\<lambda>n. na_kind n = kind) nodes;
          exact = filter (\<lambda>n. qualified_name n = name) candidates;
          bare = filter (\<lambda>n. na_name n = name) candidates in
      if length exact > 1 then Inl (SharedQualified (sorted_texts (map na_id exact)))
      else if exact \<noteq> [] then Inr (Some (hd exact))
      else if length bare > 1 then Inl (SharedBare (sorted_texts (map qualified_name bare)))
      else Inr (case bare of [] \<Rightarrow> None | n # _ \<Rightarrow> Some n))"

section \<open>Properties\<close>

definition opening_op :: "string \<Rightarrow> string \<times> string \<Rightarrow> bool" where
  "opening_op e c \<longleftrightarrow> fst c = e \<and> snd c \<in> {''read'', ''create''}"

lemma find_snoc: "List.find P (xs @ [x]) = (case List.find P xs of None \<Rightarrow> if P x then Some x else None | Some y \<Rightarrow> Some y)"
  by (induction xs) auto

lemma find_split: "List.find P xs = Some x \<longleftrightarrow> P x \<and> (\<exists>pre post. xs = pre @ x # post \<and> (\<forall>y \<in> set pre. \<not> P y))"
proof (induction xs)
  case (Cons y ys)
  show ?case
  proof (cases "P y")
    case True
    then show ?thesis by (auto simp: Cons_eq_append_conv)
  next
    case False
    have "(\<exists>pre post. y # ys = pre @ x # post \<and> (\<forall>y \<in> set pre. \<not> P y)) \<longleftrightarrow>
        (\<exists>pre post. ys = pre @ x # post \<and> (\<forall>y \<in> set pre. \<not> P y))" if "P x"
    proof
      assume "\<exists>pre post. y # ys = pre @ x # post \<and> (\<forall>y \<in> set pre. \<not> P y)"
      then show "\<exists>pre post. ys = pre @ x # post \<and> (\<forall>y \<in> set pre. \<not> P y)"
        using False that by (fastforce simp: Cons_eq_append_conv)
    next
      assume "\<exists>pre post. ys = pre @ x # post \<and> (\<forall>y \<in> set pre. \<not> P y)"
      then obtain pre post where "y # ys = (y # pre) @ x # post" "\<forall>y \<in> set (y # pre). \<not> P y" using False by auto
      then show "\<exists>pre post. y # ys = pre @ x # post \<and> (\<forall>y \<in> set pre. \<not> P y)" by blast
    qed
    with False Cons show ?thesis by auto
  qed
qed simp

lemma first_ops_find: "map_of (first_ops calls) e = map_option snd (List.find (opening_op e) calls)"
proof (induction calls rule: rev_induct)
  case (snoc c cs)
  obtain d p where c: "c = (d, p)" by (cases c)
  have "first_ops (cs @ [c]) = (if p \<in> {''read'', ''create''} then dsetdefault d p (first_ops cs) else first_ops cs)"
    by (simp add: first_ops_def c)
  with snoc show ?case
    by (simp add: find_snoc c opening_op_def map_of_dsetdefault split: option.split)
qed (simp add: first_ops_def)

lemma first_ops_ok: "dict_ok (first_ops calls)"
proof (induction calls rule: rev_induct)
  case (snoc c cs)
  then show ?case by (cases c) (simp add: first_ops_def dict_ok_dsetdefault)
qed (simp add: first_ops_def)

lemma seeded_iff:
  assumes "repository_calls n doc wid = Inr calls" and "seeded_entities n doc wid = Inr es"
  shows "e \<in> set es \<longleftrightarrow> (\<exists>pre post. calls = pre @ (e, ''read'') # post \<and> (e, ''read'') \<notin> set pre \<and> (e, ''create'') \<notin> set pre)"
proof -
  have "e \<in> set es \<longleftrightarrow> (e, ''read'') \<in> set (first_ops calls)"
    using assms by (force simp: seeded_entities_def)
  also have "\<dots> \<longleftrightarrow> List.find (opening_op e) calls = Some (e, ''read'')"
    using first_ops_find[of calls e] first_ops_ok[of calls] map_of_eq_Some_iff[of "first_ops calls" e "''read''"]
    by (auto simp: find_split opening_op_def)
  also have "\<dots> \<longleftrightarrow> (\<exists>pre post. calls = pre @ (e, ''read'') # post \<and> (e, ''read'') \<notin> set pre \<and> (e, ''create'') \<notin> set pre)"
  proof -
    have "(\<forall>c \<in> set pre. \<not> opening_op e c) \<longleftrightarrow> (e, ''read'') \<notin> set pre \<and> (e, ''create'') \<notin> set pre" for pre
      by (force simp: opening_op_def)
    moreover have "opening_op e (e, ''read'')" by (simp add: opening_op_def)
    ultimately show ?thesis by (simp add: find_split)
  qed
  finally show ?thesis .
qed

lemma seeded_distinct: "seeded_entities n doc wid = Inr es \<Longrightarrow> distinct es"
  using first_ops_ok distinct_map_filter[of fst] by (auto simp: seeded_entities_def bindE_iffs)

section \<open>A seeded read finds its row\<close>

text \<open>The repository built from a seed of one row for each entity.\<close>

definition single :: "string \<times> (string, row) dict \<Rightarrow> bool" where
  "single p \<longleftrightarrow> length (snd p) = 1"

lemma seed_singles:
  assumes "seed_tables h ts s = (h', ts')" and "list_all single s" and "distinct (map fst s)"
    and "\<forall>p \<in> set s. \<not> dhas ts (fst p)"
  shows "take (length h) h' = h \<and> length h \<le> length h' \<and>
    (\<forall>e. e \<notin> fst ` set s \<longrightarrow> map_of ts' e = map_of ts e) \<and>
    (\<forall>e k r. (e, [(k, r)]) \<in> set s \<longrightarrow> (\<exists>a < length h'. map_of ts' e = Some [(k, a)] \<and> h' ! a = plain r))"
  using assms
proof (induction s arbitrary: h ts)
  case (Cons p s)
  obtain e k r where p: "p = (e, [(k, r)])"
    using Cons.prems(2) by (cases p) (auto simp: single_def length_Suc_conv)
  have new: "map_of ts e = None" using Cons.prems(4) p by (simp add: dhas_map_of)
  let ?h = "h @ [plain r]" and ?ts = "dset e [(k, length h)] ts"
  have rec: "seed_tables ?h ?ts s = (h', ts')"
    using Cons.prems(1) p new by (simp add: dhas_def)
  have "\<forall>p \<in> set s. \<not> dhas ?ts (fst p)"
    using Cons.prems(3,4) p by (auto simp: dhas_map_of dget_dset)
  with Cons.IH[OF rec] Cons.prems(2,3)
  have IH: "take (length ?h) h' = ?h" "length ?h \<le> length h'"
    "\<And>e. e \<notin> fst ` set s \<Longrightarrow> map_of ts' e = map_of ?ts e"
    "\<And>e k r. (e, [(k, r)]) \<in> set s \<Longrightarrow> \<exists>a < length h'. map_of ts' e = Some [(k, a)] \<and> h' ! a = plain r"
    by auto
  have e: "e \<notin> fst ` set s" using Cons.prems(3) p by simp
  have "h' ! length h = plain r" using IH(1,2) by (metis lessI length_append_singleton nth_append_length nth_take)
  with IH(2) IH(3)[OF e] have here: "\<exists>a < length h'. map_of ts' e = Some [(k, a)] \<and> h' ! a = plain r"
    by (intro exI[of _ "length h"]) (simp add: dget_dset)
  have th: "take (length h) h' = h"
    using IH(1) by (metis append_eq_conv_conj length_append le_add1 min.absorb1 take_take)
  show ?case
  proof (intro conjI allI impI)
    fix d assume "d \<notin> fst ` set (p # s)"
    with IH(3)[of d] p show "map_of ts' d = map_of ts d" by (simp add: dget_dset)
  next
    fix d j q assume "(d, [(j, q)]) \<in> set (p # s)"
    with p here IH(4)[of d j q] show "\<exists>a < length h'. map_of ts' d = Some [(j, a)] \<and> h' ! a = plain q" by auto
  qed (use th IH(2) in simp_all)
qed simp

lemma default_row_shape:
  "default_row n doc wid payload e = Inr rows \<Longrightarrow> rows = [] \<or> (\<exists>k. rows = [(e, [(k, payload)])])"
  by (auto simp: default_row_def bindE_iffs Let_def split: option.splits if_splits)

lemma concat_singles_distinct:
  "distinct es \<Longrightarrow> list_all2 (\<lambda>e rows. rows = [] \<or> (\<exists>t. rows = [(e, t)])) es rss \<Longrightarrow>
     distinct (map fst (concat rss)) \<and> fst ` set (concat rss) \<subseteq> set es"
proof (induction es arbitrary: rss)
  case (Cons e es)
  from Cons.prems(2) obtain rs rss' where r: "rss = rs # rss'" "rs = [] \<or> (\<exists>t. rs = [(e, t)])"
    "list_all2 (\<lambda>e rows. rows = [] \<or> (\<exists>t. rows = [(e, t)])) es rss'" by (auto simp: list_all2_Cons1)
  have ih: "distinct (map fst (concat rss'))" "fst ` set (concat rss') \<subseteq> set es"
    using Cons.IH[OF _ r(3)] Cons.prems(1) by simp_all
  then have "\<forall>t. (e, t) \<notin> set (concat rss')" using Cons.prems(1) by force
  then show ?case using r(1,2) ih by (auto simp del: set_concat)
qed simp

lemma default_rows_shape:
  assumes "default_rows n doc wid payload = Inr rows"
  shows "list_all single rows \<and> distinct (map fst rows)"
proof -
  from assms obtain es rss where es: "seeded_entities n doc wid = Inr es"
    and m: "mapE (default_row n doc wid payload) es = Inr rss" and rows: "rows = concat rss"
    by (auto simp: default_rows_def bindE_iffs)
  from m have shape: "list_all2 (\<lambda>e rs. rs = [] \<or> (\<exists>k. rs = [(e, [(k, payload)])])) es rss"
    unfolding mapE_Inr_iff by (rule list_all2_mono) (rule default_row_shape)
  then have two: "list_all2 (\<lambda>e rs. rs = [] \<or> (\<exists>t. rs = [(e, t)])) es rss"
    by (rule list_all2_mono) blast
  have "list_all single rs" if "rs \<in> set rss" for rs
  proof -
    from mapE_mem[OF m that] obtain e where "default_row n doc wid payload e = Inr rs" by blast
    from default_row_shape[OF this] show ?thesis by (auto simp: single_def)
  qed
  then have "list_all single (concat rss)" by (auto simp: list_all_iff)
  moreover have "distinct (map fst (concat rss))"
    using concat_singles_distinct[OF seeded_distinct[OF es] two] by blast
  ultimately show ?thesis using rows by simp
qed

text \<open>
  C31: the seed rule serves the first read of a plain workflow. Let the default seed have a row for an entity
  whose first read names no key, or one of the payload by \<open>by input.f\<close>. Then a new interpreter on that seed, before
  anything has run on it, answers a read under the key this read computes (from the payload's \<open>id\<close>, or from \<open>f\<close>)
  with a copy of the payload. For other keys (\<open>by caller.x\<close>, a bare name) the seeded row stays under the
  payload's \<open>id\<close>, and nothing is claimed.
\<close>

theorem seeded_read_finds_payload:
  assumes "default_rows n doc wid payload = Inr rows" and "e \<in> fst ` set rows"
    and "lookup_key_source n doc wid e = Inr lk" and "lk = None \<or> (\<exists>f. lk = Some (''input.'' @ f))"
    and "sc_payload sc = payload" and "resolve_lookup_key e lk sc = Inr key"
  shows "\<exists>a h r. repo_execute (st_objs (new_interpreter rows)) (st_repo (new_interpreter rows)) e ''read'' key = (Inr (Some a), h, r) \<and>
    row_at h a = payload"
proof -
  from assms(1) obtain es rss where m: "mapE (default_row n doc wid payload) es = Inr rss" and rows: "rows = concat rss"
    by (auto simp: default_rows_def bindE_iffs)
  from assms(2) rows obtain rs where rs: "rs \<in> set rss" "e \<in> fst ` set rs" by auto
  with mapE_mem[OF m] obtain d where d: "default_row n doc wid payload d = Inr rs" by blast
  with default_row_shape[OF d] rs(2) have de: "d = e" by auto
  have "rs = [(e, [(key, payload)])]"
  proof (cases lk)
    case None
    with d de assms(3,5,6) show ?thesis by (simp add: default_row_def resolve_lookup_key_def)
  next
    case (Some ref)
    with assms(4) obtain f where ref: "ref = ''input.'' @ f" by blast
    have "resolve_reference (no_response sc) ref = pget payload (snd (snd (partition_at CHR ''.'' ref)))"
      using assms(5) by (simp add: ref resolve_reference_def ref_namespace_def ref_field_def partition_at_def no_response_def
          caller_namespace_def payload_namespace_def)
    with Some d de assms(3,6) rs(2) show ?thesis
      by (auto simp: default_row_def resolve_lookup_key_def ref payload_namespace_def Let_def split: if_splits)
  qed
  with rs(1) rows have mem: "(e, [(key, payload)]) \<in> set rows" by force
  obtain h ts where st: "seed_tables [] [] rows = (h, ts)" by fastforce
  have "\<forall>e k r. (e, [(k, r)]) \<in> set rows \<longrightarrow> (\<exists>a < length h. map_of ts e = Some [(k, a)] \<and> h ! a = plain r)"
    using seed_singles[OF st] default_rows_shape[OF assms(1)] by (simp add: dhas_def)
  with mem obtain a where a: "map_of ts e = Some [(key, a)]" "h ! a = plain payload" by blast
  have ni: "st_objs (new_interpreter rows) = h" "rp_rows (st_repo (new_interpreter rows)) = ts"
    using st by (simp_all add: new_interpreter_def repo_seed_def empty_repo_def new_istate_def)
  have "map_of (dsetdefault e [] ts) e = Some [(key, a)]" using a(1) by (simp add: map_of_dsetdefault)
  with a(2) show ?thesis by (simp add: repo_execute_def Let_def ni table_of_def row_at_def plain_def)
qed

theorem seeded_read_finds_payload_witness:
  "\<exists>rows a h r. default_rows 5 cached_doc ''w'' [(''id'', PStr ''1'')] = Inr rows \<and>
     repo_execute (st_objs (new_interpreter rows)) (st_repo (new_interpreter rows)) ''e'' ''read'' ''e#1'' = (Inr (Some a), h, r) \<and>
     row_at h a = [(''id'', PStr ''1'')]"
proof -
  let ?sc = "\<lparr>sc_payload = [(''id'', PStr ''1'')], sc_bindings = [], sc_caller = None, sc_response = None\<rparr>"
  have d: "default_rows 5 cached_doc ''w'' [(''id'', PStr ''1'')] = Inr [(''e'', [(''e#1'', [(''id'', PStr ''1'')])])]"
    and l: "lookup_key_source 5 cached_doc ''w'' ''e'' = Inr None"
    and k: "resolve_lookup_key ''e'' None ?sc = Inr ''e#1''"
    by code_simp+
  from seeded_read_finds_payload[OF d _ l _ _ k] d show ?thesis by simp
qed

text \<open>
  Name resolution never guesses. \<open>resolve_node\<close> answers a node only when the name is the qualified name of
  no other node of the kind, or, where no qualified name matches, the bare name of no other; it answers
  nothing only when no node of the kind has the name in either spelling.
\<close>

theorem resolve_never_guesses:
  "case resolve_node nodes kind name of
     Inr (Some n) \<Rightarrow> filter (\<lambda>m. na_kind m = kind \<and> qualified_name m = name) nodes = [n] \<or>
       filter (\<lambda>m. na_kind m = kind \<and> qualified_name m = name) nodes = [] \<and>
       filter (\<lambda>m. na_kind m = kind \<and> na_name m = name) nodes = [n]
   | Inr None \<Rightarrow> filter (\<lambda>m. na_kind m = kind \<and> (qualified_name m = name \<or> na_name m = name)) nodes = []
   | Inl e \<Rightarrow> length (filter (\<lambda>m. na_kind m = kind \<and> (qualified_name m = name \<or> na_name m = name)) nodes) > 1"
proof -
  let ?q = "filter (\<lambda>m. na_kind m = kind \<and> qualified_name m = name) nodes"
  let ?b = "filter (\<lambda>m. na_kind m = kind \<and> na_name m = name) nodes"
  let ?a = "filter (\<lambda>m. na_kind m = kind \<and> (qualified_name m = name \<or> na_name m = name)) nodes"
  have r: "resolve_node nodes kind name =
     (if length ?q > 1 then Inl (SharedQualified (sorted_texts (map na_id ?q)))
      else if ?q \<noteq> [] then Inr (Some (hd ?q))
      else if length ?b > 1 then Inl (SharedBare (sorted_texts (map qualified_name ?b)))
      else Inr (case ?b of [] \<Rightarrow> None | n # _ \<Rightarrow> Some n))"
    by (simp add: resolve_node_def Let_def conj_commute)
  have "length ?q \<le> length ?a" "length ?b \<le> length ?a"
    by (induction nodes) auto
  moreover have "?q = [] \<Longrightarrow> ?b = [] \<Longrightarrow> ?a = []" by (auto simp: filter_empty_conv)
  ultimately show ?thesis
    unfolding r by (cases ?q; cases "tl ?q"; cases ?b; cases "tl ?b") (auto split: list.splits)
qed

end
