(* ===== verification/Base64.thy ===== *)
theory Base64
  imports PyVal
begin

text \<open>
  Base64 as the tokens and the page cursors use it: \<open>urlsafe_b64encode\<close> without its padding, and
  \<open>urlsafe_b64decode\<close>, which skips the characters that are not of the alphabet, takes \<open>+\<close> and
  \<open>/\<close> for \<open>-\<close> and \<open>_\<close>, and stops at the padding of a group. A byte is a number below 256.
\<close>

type_synonym bytes = "nat list"

definition byte_list :: "bytes \<Rightarrow> bool" where
  "byte_list bs \<longleftrightarrow> list_all (\<lambda>b. b < 256) bs"

section \<open>Encoding\<close>

definition b64_char :: "nat \<Rightarrow> char" where
  "b64_char n = (if n < 26 then char_of (65 + n) else if n < 52 then char_of (71 + n) else if n < 62 then char_of (n - 4)
     else if n = 62 then CHR ''-'' else CHR ''_'')"

fun urlsafe_b64encode :: "bytes \<Rightarrow> string" where
  "urlsafe_b64encode [] = []"
| "urlsafe_b64encode [a] = map b64_char [a div 4, a mod 4 * 16] @ ''==''"
| "urlsafe_b64encode [a, b] = map b64_char [a div 4, a mod 4 * 16 + b div 16, b mod 16 * 4] @ ''=''"
| "urlsafe_b64encode (a # b # c # bs) =
     map b64_char [a div 4, a mod 4 * 16 + b div 16, b mod 16 * 4 + c div 64, c mod 64] @ urlsafe_b64encode bs"

definition rstrip_pad :: "string \<Rightarrow> string" where
  "rstrip_pad s = rev (dropWhile (\<lambda>c. c = CHR ''='') (rev s))"

definition b64u_encode :: "bytes \<Rightarrow> string" where
  "b64u_encode raw = rstrip_pad (urlsafe_b64encode raw)"

section \<open>Decoding\<close>

definition b64_value :: "char \<Rightarrow> nat option" where
  "b64_value c = (let n = of_char c :: nat in
     if 65 \<le> n \<and> n \<le> 90 then Some (n - 65) else if 97 \<le> n \<and> n \<le> 122 then Some (n - 71)
     else if 48 \<le> n \<and> n \<le> 57 then Some (n + 4) else if n = 45 \<or> n = 43 then Some 62
     else if n = 95 \<or> n = 47 then Some 63 else None)"

text \<open>
  The decoder reads with the position in the group of four, the bits left over and the pad characters
  seen since the last character of the alphabet; an unfinished group at the end of the text is an error.
\<close>

fun b64_scan :: "string \<Rightarrow> nat \<Rightarrow> nat \<Rightarrow> nat \<Rightarrow> bytes option" where
  "b64_scan [] q left pads = (if q = 0 then Some [] else None)"
| "b64_scan (c # cs) q left pads =
     (if c = CHR ''='' then
        (if q < 2 then b64_scan cs q left pads
         else if 4 \<le> q + pads + 1 then Some [] else b64_scan cs q left (Suc pads))
      else case b64_value c of
        None \<Rightarrow> b64_scan cs q left pads
      | Some v \<Rightarrow>
          if q = 0 then b64_scan cs 1 v 0
          else if q = 1 then map_option (Cons (left * 4 + v div 16)) (b64_scan cs 2 (v mod 16) 0)
          else if q = 2 then map_option (Cons (left * 16 + v div 4)) (b64_scan cs 3 (v mod 4) 0)
          else map_option (Cons (left * 64 + v)) (b64_scan cs 0 0 0))"

definition ascii_char :: "char \<Rightarrow> bool" where
  "ascii_char c \<longleftrightarrow> (of_char c :: nat) < 128"

definition repad :: "string \<Rightarrow> string" where
  "repad s = s @ replicate ((4 - length s mod 4) mod 4) (CHR ''='')"

definition b64u_decode :: "string \<Rightarrow> bytes option" where
  "b64u_decode s = (if list_all ascii_char s then b64_scan (repad s) 0 0 0 else None)"

section \<open>Round trip\<close>

lemma b64_char_code:
  assumes "n < 64"
  shows "(of_char (b64_char n) :: nat) = (if n < 26 then 65 + n else if n < 52 then 71 + n else if n < 62 then n - 4 else if n = 62 then 45 else 95)"
  using assms by (simp add: b64_char_def of_char_of)

lemma b64_char_facts:
  assumes "n < 64"
  shows "b64_value (b64_char n) = Some n" "ascii_char (b64_char n)" "b64_char n \<noteq> CHR ''=''" "b64_char n \<noteq> CHR ''.''"
proof -
  note code = b64_char_code[OF assms]
  show "b64_value (b64_char n) = Some n" using assms by (auto simp: b64_value_def code Let_def)
  show "ascii_char (b64_char n)" using assms by (auto simp: ascii_char_def code)
  have "(of_char (b64_char n) :: nat) \<noteq> of_char (CHR ''='')" "(of_char (b64_char n) :: nat) \<noteq> of_char (CHR ''.'')"
    using assms by (auto simp: code)
  then show "b64_char n \<noteq> CHR ''=''" "b64_char n \<noteq> CHR ''.''" by metis+
qed

text \<open>What the encoder writes before the padding.\<close>

fun sextets :: "bytes \<Rightarrow> nat list" where
  "sextets [] = []"
| "sextets [a] = [a div 4, a mod 4 * 16]"
| "sextets [a, b] = [a div 4, a mod 4 * 16 + b div 16, b mod 16 * 4]"
| "sextets (a # b # c # bs) = [a div 4, a mod 4 * 16 + b div 16, b mod 16 * 4 + c div 64, c mod 64] @ sextets bs"

lemma bits_bound:
  fixes a b :: nat
  assumes "b < 256" shows "a mod 4 * 16 + b div 16 < 64" and "a mod 16 * 4 + b div 64 < 64" and "b div 4 < 64"
proof -
  have "b div 16 < 16" "a mod 4 < 4" "b div 64 < 4" "a mod 16 < 16" using assms by (simp_all add: less_mult_imp_div_less)
  then show "a mod 4 * 16 + b div 16 < 64" and "a mod 16 * 4 + b div 64 < 64" by linarith+
  show "b div 4 < 64" using assms by (simp add: less_mult_imp_div_less)
qed

lemma bits_split:
  fixes b :: nat
  assumes "b < 256"
  shows "b div 16 mod 16 = b div 16" "b div 16 div 16 = 0" "b div 64 mod 4 = b div 64" "b div 64 div 4 = 0"
proof -
  have "b div 16 < 16" "b div 64 < 4" using assms by (simp_all add: less_mult_imp_div_less)
  then show "b div 16 mod 16 = b div 16" "b div 16 div 16 = 0" "b div 64 mod 4 = b div 64" "b div 64 div 4 = 0" by simp_all
qed

lemma bits_bound_last: "(b :: nat) mod 16 * 4 < 64" "(a :: nat) mod 4 * 16 < 64"
proof -
  have "b mod 16 < 16" "a mod 4 < 4" by simp_all
  then show "b mod 16 * 4 < 64" "a mod 4 * 16 < 64" by linarith+
qed

lemma sextets_bound: "byte_list bs \<Longrightarrow> list_all (\<lambda>n. n < 64) (sextets bs)"
  by (induction bs rule: sextets.induct) (simp_all add: byte_list_def bits_bound bits_bound_last)

lemma encode_sextets: "\<exists>p. urlsafe_b64encode bs = map b64_char (sextets bs) @ replicate p (CHR ''='')"
proof (induction bs rule: sextets.induct)
  case 1 show ?case by (simp add: exI[of _ 0])
next
  case (2 a)
  have "urlsafe_b64encode [a] = map b64_char (sextets [a]) @ replicate 2 (CHR ''='')" by (simp add: numeral_2_eq_2)
  then show ?case ..
next
  case (3 a b)
  have "urlsafe_b64encode [a, b] = map b64_char (sextets [a, b]) @ replicate 1 (CHR ''='')" by simp
  then show ?case ..
next
  case (4 a b c bs) then show ?case by auto
qed

lemma rstrip_pad_append: "\<forall>c \<in> set s. c \<noteq> CHR ''='' \<Longrightarrow> rstrip_pad (s @ replicate p (CHR ''='')) = s"
proof -
  assume "\<forall>c \<in> set s. c \<noteq> CHR ''=''"
  then have "dropWhile (\<lambda>c. c = CHR ''='') (rev s) = rev s" by (cases "rev s") (auto dest!: arg_cong[of _ _ set])
  moreover have "dropWhile (\<lambda>c. c = CHR ''='') (replicate p (CHR ''='') @ rev s) = dropWhile (\<lambda>c. c = CHR ''='') (rev s)"
    by (induction p) simp_all
  ultimately show ?thesis by (simp add: rstrip_pad_def)
qed

lemma b64u_encode_sextets:
  assumes "byte_list bs"
  shows "b64u_encode bs = map b64_char (sextets bs)"
proof -
  have "\<forall>c \<in> set (map b64_char (sextets bs)). c \<noteq> CHR ''=''"
    using sextets_bound[OF assms] b64_char_facts(3) by (auto simp: list_all_iff)
  then show ?thesis using encode_sextets[of bs] rstrip_pad_append by (auto simp: b64u_encode_def)
qed

lemma scan_char:
  assumes "n < 64"
  shows "b64_scan (b64_char n # cs) q left pads =
     (if q = 0 then b64_scan cs 1 n 0
      else if q = 1 then map_option (Cons (left * 4 + n div 16)) (b64_scan cs 2 (n mod 16) 0)
      else if q = 2 then map_option (Cons (left * 16 + n div 4)) (b64_scan cs 3 (n mod 4) 0)
      else map_option (Cons (left * 64 + n)) (b64_scan cs 0 0 0))"
  using b64_char_facts[OF assms] by simp

lemma scan_pad:
  "b64_scan (CHR ''='' # cs) q left pads = (if q < 2 then b64_scan cs q left pads
     else if 4 \<le> q + pads + 1 then Some [] else b64_scan cs q left (Suc pads))"
  by simp

lemmas scan_steps = scan_char scan_pad bits_bound bits_bound_last bits_split

lemma repad_app: "length s mod 4 = 0 \<Longrightarrow> s @ repad t = repad (s @ t)"
  by (simp add: repad_def mod_add_left_eq[symmetric])

lemma scan_sextets:
  assumes "byte_list bs"
  shows "b64_scan (repad (map b64_char (sextets bs))) 0 0 0 = Some bs"
  using assms
proof (induction bs rule: sextets.induct)
  case (2 a)
  have "repad (map b64_char (sextets [a])) = [b64_char (a div 4), b64_char (a mod 4 * 16), CHR ''='', CHR ''='']"
    by (simp add: repad_def numeral_2_eq_2)
  then show ?case using 2 by (simp add: scan_steps byte_list_def del: b64_scan.simps(2))
next
  case (3 a b)
  have "repad (map b64_char (sextets [a, b])) =
      [b64_char (a div 4), b64_char (a mod 4 * 16 + b div 16), b64_char (b mod 16 * 4), CHR ''='']"
    by (simp add: repad_def)
  then show ?case using 3 by (simp add: scan_steps byte_list_def del: b64_scan.simps(2))
next
  case (4 a b c bs)
  have l: "a div 4 < 64" "a mod 4 * 16 + b div 16 < 64" "b mod 16 * 4 + c div 64 < 64" "c mod 64 < 64"
    using "4.prems" by (simp_all add: byte_list_def bits_bound)
  have "repad (map b64_char (sextets (a # b # c # bs))) =
    map b64_char [a div 4, a mod 4 * 16 + b div 16, b mod 16 * 4 + c div 64, c mod 64] @ repad (map b64_char (sextets bs))"
    by (subst repad_app) simp_all
  then show ?case using 4 l by (simp add: scan_char byte_list_def bits_split del: b64_scan.simps(2))
qed (simp add: repad_def)

theorem b64u_round_trip:
  assumes "byte_list bs"
  shows "b64u_decode (b64u_encode bs) = Some bs"
proof -
  have "list_all ascii_char (map b64_char (sextets bs))"
    using sextets_bound[OF assms] b64_char_facts(2) by (auto simp: list_all_iff)
  then show ?thesis by (simp add: b64u_decode_def b64u_encode_sextets[OF assms] scan_sextets[OF assms])
qed

text \<open>An encoded text has no dot: the segments of a token come apart as they were put together.\<close>

lemma b64u_no_dot: "byte_list bs \<Longrightarrow> CHR ''.'' \<notin> set (b64u_encode bs)"
  using sextets_bound[of bs] b64_char_facts(4) by (fastforce simp: b64u_encode_sextets list_all_iff)

lemma b64u_ascii: "byte_list bs \<Longrightarrow> list_all ascii_char (b64u_encode bs)"
  using sextets_bound[of bs] b64_char_facts(2) by (auto simp: b64u_encode_sextets list_all_iff)

end
