(* ===== verification/Tokens.thy ===== *)
theory Tokens
  imports Base64 Resilience Store
begin

text \<open>
  The bearer tokens of \<open>impl/lnpl/drivers.py\<close>: \<open>HmacTokenProvider\<close> and
  \<open>RotatingHmacTokenProvider\<close>. JSON and HMAC-SHA256 are functions of the library (\<open>token_lib\<close>); the
  clock, the token's random id and what the secret provider answers are arguments.
\<close>

section \<open>Segments\<close>

record token_lib =
  tl_dump :: "row \<Rightarrow> bytes"
  tl_load :: "bytes \<Rightarrow> pyval option"
  tl_mac :: "bytes \<Rightarrow> bytes \<Rightarrow> bytes"

datatype token_error =
    NotCompact nat | NotBase64 | NotJson string | NotObject string | AlgRefused pyval | BadSignature | InputNotAscii
  | BadTyp pyval | BadIssuer pyval | BadAudience pyval | NoExp | NotYet | Expired
  | ShortSecret nat | ShortPrevious nat | EmptyIssuer | SecretFailed | SecretNotBytes

definition decode_segment :: "string \<Rightarrow> token_error + bytes" where
  "decode_segment s = (case b64u_decode s of None \<Rightarrow> Inl NotBase64 | Some bs \<Rightarrow> Inr bs)"

definition decode_json_segment :: "token_lib \<Rightarrow> string \<Rightarrow> string \<Rightarrow> token_error + row" where
  "decode_json_segment lib s what =
     bindE (decode_segment s) (\<lambda>bs.
       case tl_load lib bs of
         None \<Rightarrow> Inl (NotJson what)
       | Some (PDict d) \<Rightarrow> Inr d
       | Some _ \<Rightarrow> Inl (NotObject what))"

text \<open>\<open>json.dumps(d, sort_keys=True)\<close>.\<close>

definition sorted_row :: "row \<Rightarrow> row" where
  "sorted_row d = sort_by (\<lambda>p q. str_less (fst p) (fst q)) d"

definition json_segment :: "token_lib \<Rightarrow> row \<Rightarrow> string" where
  "json_segment lib d = b64u_encode (tl_dump lib (sorted_row d))"

section \<open>Keys\<close>

datatype key_text = KeyBytes bytes | KeyStr string

fun key_bytes :: "key_text \<Rightarrow> bytes" where
  "key_bytes (KeyBytes bs) = bs"
| "key_bytes (KeyStr s) = concat (map utf8_bytes s)"

definition min_secret_bytes :: nat where "min_secret_bytes = 32"

type_synonym keys = "bytes \<times> bytes option"

definition set_keys :: "key_text \<Rightarrow> key_text option \<Rightarrow> token_error + keys" where
  "set_keys current previous =
     (let cur = key_bytes current; prev = map_option key_bytes previous in
      if length cur < min_secret_bytes then Inl (ShortSecret (length cur))
      else case prev of
             None \<Rightarrow> Inr (cur, None)
           | Some p \<Rightarrow> if length p < min_secret_bytes then Inl (ShortPrevious (length p)) else Inr (cur, Some p))"

record provider =
  tp_keys :: keys
  tp_issuer :: string

definition new_provider :: "key_text \<Rightarrow> string option \<Rightarrow> key_text option \<Rightarrow> token_error + provider" where
  "new_provider secret issuer previous =
     bindE (set_keys secret previous) (\<lambda>ks.
       if issuer = Some [] then Inl EmptyIssuer
       else Inr \<lparr>tp_keys = ks, tp_issuer = (case issuer of None \<Rightarrow> ''lnpl'' | Some i \<Rightarrow> i)\<rparr>)"

section \<open>Issuing\<close>

definition default_token_ttl :: int where "default_token_ttl = 15 * 60 * 1000"

definition leeway :: int where "leeway = 60"

definition ascii_bytes :: "string \<Rightarrow> bytes" where "ascii_bytes s = map of_char s"

definition sign :: "token_lib \<Rightarrow> bytes \<Rightarrow> string \<Rightarrow> token_error + bytes" where
  "sign lib key input = (if list_all ascii_char input then Inr (tl_mac lib key (ascii_bytes input)) else Inl InputNotAscii)"

definition token_header :: row where
  "token_header = [(''alg'', PStr ''HS256''), (''typ'', PStr ''JWT'')]"

definition token_claims :: "provider \<Rightarrow> int \<Rightarrow> string \<Rightarrow> string \<Rightarrow> string \<Rightarrow> int option \<Rightarrow> string option \<Rightarrow> row" where
  "token_claims p now jti subject audience ttl role =
     (let ttl_s = (case ttl of None \<Rightarrow> default_token_ttl | Some t \<Rightarrow> t) div 1000 in
      [(''iss'', PStr (tp_issuer p)), (''aud'', PStr audience), (''sub'', PStr subject), (''jti'', PStr jti),
       (''iat'', PInt now), (''nbf'', PInt now), (''exp'', PInt (now + ttl_s))] @
      (case role of None \<Rightarrow> [] | Some r \<Rightarrow> [(''role'', PStr r)]))"

definition issue ::
  "token_lib \<Rightarrow> provider \<Rightarrow> int \<Rightarrow> string \<Rightarrow> string \<Rightarrow> string \<Rightarrow> int option \<Rightarrow> string option \<Rightarrow> token_error + string" where
  "issue lib p now jti subject audience ttl role =
     (let input = json_segment lib token_header @ ''.'' @ json_segment lib (token_claims p now jti subject audience ttl role) in
      bindE (sign lib (fst (tp_keys p)) input) (\<lambda>mac. Inr (input @ ''.'' @ b64u_encode mac)))"

section \<open>Verifying\<close>

definition verify_signature :: "token_lib \<Rightarrow> keys \<Rightarrow> string \<Rightarrow> string \<Rightarrow> string \<Rightarrow> token_error + unit" where
  "verify_signature lib ks header claims signature =
     bindE (decode_segment signature) (\<lambda>given.
       let input = header @ ''.'' @ claims in
       bindE (sign lib (fst ks) input) (\<lambda>mac.
       bindE (case snd ks of None \<Rightarrow> Inr False | Some k \<Rightarrow> bindE (sign lib k input) (\<lambda>m. Inr (m = given))) (\<lambda>previous.
         if mac = given \<or> previous then Inr () else Inl BadSignature)))"

text \<open>The checks on the claims. A Python bool is an int; a time that is a float is not modelled.\<close>

definition check_claims :: "provider \<Rightarrow> int \<Rightarrow> string \<Rightarrow> row \<Rightarrow> token_error + row" where
  "check_claims p now audience claims =
     (let declared = pget claims ''aud'';
          holds = (case declared of PList vs \<Rightarrow> vs | v \<Rightarrow> [v]) in
      if pget claims ''iss'' \<noteq> PStr (tp_issuer p) then Inl (BadIssuer (pget claims ''iss''))
      else if PStr audience \<notin> set holds then Inl (BadAudience declared)
      else case as_int (pget claims ''exp'') of
             None \<Rightarrow> Inl NoExp
           | Some exp \<Rightarrow>
               if (case as_int (pget claims ''nbf'') of None \<Rightarrow> False | Some nbf \<Rightarrow> now < nbf - leeway) then Inl NotYet
               else if exp + leeway \<le> now then Inl Expired
               else Inr claims)"

definition verify :: "token_lib \<Rightarrow> provider \<Rightarrow> int \<Rightarrow> string \<Rightarrow> string \<Rightarrow> token_error + row" where
  "verify lib p now token audience =
     (case split_on CHR ''.'' token of
        [eh, ec, es] \<Rightarrow>
          bindE (decode_json_segment lib eh ''header'') (\<lambda>header.
          if pget header ''alg'' \<noteq> PStr ''HS256'' then Inl (AlgRefused (pget header ''alg''))
          else
            bindE (verify_signature lib (tp_keys p) eh ec es) (\<lambda>_.
            if pget header ''typ'' \<noteq> PStr ''JWT'' then Inl (BadTyp (pget header ''typ''))
            else bindE (decode_json_segment lib ec ''claims'') (check_claims p now audience)))
      | parts \<Rightarrow> Inl (NotCompact (length parts)))"

section \<open>Rotating keys\<close>

datatype secret_value = IsBytes bytes | NotBytes

datatype secret_read = ReadFails | ReadGives secret_value "secret_value option"

text \<open>\<open>_read_pair\<close>, of what the secret provider answers.\<close>

fun read_pair :: "secret_read \<Rightarrow> token_error + bytes \<times> bytes option" where
  "read_pair ReadFails = Inl SecretFailed"
| "read_pair (ReadGives (IsBytes c) None) = Inr (c, None)"
| "read_pair (ReadGives (IsBytes c) (Some (IsBytes p))) = Inr (c, Some p)"
| "read_pair (ReadGives _ _) = Inl SecretNotBytes"

record rotating =
  ro_provider :: provider
  ro_read_at :: int
  ro_refresh :: int
  ro_read_ok :: bool

definition read_keys :: "secret_read \<Rightarrow> token_error + keys" where
  "read_keys r = bindE (read_pair r) (\<lambda>(c, p). set_keys (KeyBytes c) (map_option KeyBytes p))"

definition open_rotating :: "secret_read \<Rightarrow> string option \<Rightarrow> int \<Rightarrow> int \<Rightarrow> token_error + rotating" where
  "open_rotating r issuer refresh now =
     bindE (read_pair r) (\<lambda>(c, p).
     bindE (new_provider (KeyBytes c) issuer (map_option KeyBytes p)) (\<lambda>prov.
       Inr \<lparr>ro_provider = prov, ro_read_at = now, ro_refresh = refresh, ro_read_ok = True\<rparr>))"

text \<open>\<open>_read_and_install\<close>: stamped first; a failed read leaves the keys.\<close>

definition read_and_install :: "int \<Rightarrow> secret_read \<Rightarrow> rotating \<Rightarrow> (token_error + unit) \<times> rotating" where
  "read_and_install now r ro =
     (let ro = ro\<lparr>ro_read_at := now\<rparr> in
      case read_keys r of
        Inl e \<Rightarrow> (Inl e, ro\<lparr>ro_read_ok := False\<rparr>)
      | Inr ks \<Rightarrow> (Inr (), ro\<lparr>ro_provider := (ro_provider ro)\<lparr>tp_keys := ks\<rparr>, ro_read_ok := True\<rparr>))"

text \<open>\<open>taken\<close>: another thread holds the lock of the refresh.\<close>

definition refresh_if_stale :: "int \<Rightarrow> bool \<Rightarrow> secret_read \<Rightarrow> rotating \<Rightarrow> rotating" where
  "refresh_if_stale now taken r ro =
     (if now - ro_read_at ro < ro_refresh ro \<or> taken then ro else snd (read_and_install now r ro))"

definition refresh_for_probe :: "int \<Rightarrow> int \<Rightarrow> secret_read \<Rightarrow> rotating \<Rightarrow> bool \<times> rotating" where
  "refresh_for_probe floor now r ro =
     (let ro = (if floor \<le> now - ro_read_at ro then snd (read_and_install now r ro) else ro) in (ro_read_ok ro, ro))"

definition rotating_issue ::
  "token_lib \<Rightarrow> int \<Rightarrow> bool \<Rightarrow> secret_read \<Rightarrow> int \<Rightarrow> string \<Rightarrow> string \<Rightarrow> string \<Rightarrow> int option \<Rightarrow> string option \<Rightarrow> rotating \<Rightarrow>
     (token_error + string) \<times> rotating" where
  "rotating_issue lib tick taken r now jti subject audience ttl role ro =
     (let ro = refresh_if_stale tick taken r ro in (issue lib (ro_provider ro) now jti subject audience ttl role, ro))"

definition rotating_verify ::
  "token_lib \<Rightarrow> int \<Rightarrow> bool \<Rightarrow> secret_read \<Rightarrow> int \<Rightarrow> string \<Rightarrow> string \<Rightarrow> rotating \<Rightarrow> (token_error + row) \<times> rotating" where
  "rotating_verify lib tick taken r now token audience ro =
     (let ro = refresh_if_stale tick taken r ro in (verify lib (ro_provider ro) now token audience, ro))"

end
