(* ===== verification/Web.thy ===== *)
theory Web
  imports RepoPolicy Tokens Sqlite
begin

text \<open>
  The functions of \<open>impl/lnpl/wsgi.py\<close> that decide without touching anything: validators and cursors, the
  CloudEvents envelope, pages, and the mapping of a run to a response. JSON is the library's (\<open>json_lib\<close>).
\<close>

record json_lib =
  js_dump :: "pyval \<Rightarrow> bytes"
  js_load :: "bytes \<Rightarrow> pyval option"

section \<open>Validators\<close>

definition dquote :: char where "dquote = CHR 0x22"

definition etag_value :: "nat \<Rightarrow> string" where
  "etag_value version = ''W/'' @ [dquote] @ show_nat version @ [dquote]"

text \<open>\<open>int\<close> of a text that \<open>isdigit\<close> accepts can still raise: a superscript, or too many digits.\<close>

definition int_of_isdigit :: "string \<Rightarrow> py_exc + nat" where
  "int_of_isdigit s = (case int_of_digits s of None \<Rightarrow> Inl PyValueError | Some n \<Rightarrow> Inr n)"

definition parse_if_match :: "string \<Rightarrow> py_exc + nat option" where
  "parse_if_match value =
     (let t = strip value;
          t = (if take 2 t = ''W/'' then drop 2 t else t) in
      if length t < 2 \<or> hd t \<noteq> dquote \<or> last t \<noteq> dquote then Inr None
      else let ds = butlast (tl t) in
        if \<not> str_isdigit ds then Inr None else bindE (int_of_isdigit ds) (\<lambda>n. Inr (Some n)))"

definition default_limit :: nat where "default_limit = 50"
definition max_limit :: nat where "max_limit = 200"

text \<open>\<open>None\<close> is the \<open>ValueError\<close>, which the caller answers with a 400, as it does the one \<open>int\<close> raises.\<close>

definition parse_limit :: "string option \<Rightarrow> nat option" where
  "parse_limit param =
     (case param of
        None \<Rightarrow> Some default_limit
      | Some s \<Rightarrow>
          if \<not> str_isdigit s then None
          else case int_of_isdigit s of
                 Inl _ \<Rightarrow> None
               | Inr n \<Rightarrow> if 1 \<le> n \<and> n \<le> max_limit then Some n else None)"

text \<open>\<open>_last_event_id\<close>: \<open>None\<close> is the 400.\<close>

definition last_event_id :: "string option \<Rightarrow> py_exc + nat option" where
  "last_event_id header =
     (case header of
        None \<Rightarrow> Inr (Some 0)
      | Some s \<Rightarrow> if \<not> str_isdigit s then Inr None else bindE (int_of_isdigit s) (\<lambda>n. Inr (Some n)))"

fun required_role :: "string list \<Rightarrow> string option" where
  "required_role [] = None"
| "required_role (m # ms) = (if take 5 m = ''role '' then Some (drop 5 m) else required_role ms)"

section \<open>Events\<close>

definition cloudevents_required :: "string list" where
  "cloudevents_required = [''specversion'', ''id'', ''source'', ''type'']"

text \<open>\<open>_validate_cloudevents_envelope\<close>: the field at fault. Every text of the model encodes as UTF-8.\<close>

definition nonempty_text :: "pyval \<Rightarrow> bool" where
  "nonempty_text v = (case v of PStr s \<Rightarrow> s \<noteq> [] | _ \<Rightarrow> False)"

definition envelope_fault :: "row \<Rightarrow> string option" where
  "envelope_fault p =
     (case List.find (\<lambda>f. \<not> nonempty_text (pget p f)) cloudevents_required of
        Some f \<Rightarrow> Some f
      | None \<Rightarrow>
          if pget p ''specversion'' \<noteq> PStr ''1.0'' then Some ''specversion''
          else if dhas p ''data_base64'' then Some ''data_base64''
          else if (case pget p ''datacontenttype'' of
                     PNone \<Rightarrow> False
                   | PStr s \<Rightarrow> strip (hd (split_on CHR '';'' s)) \<noteq> ''application/json''
                   | _ \<Rightarrow> True) then Some ''datacontenttype''
          else if dhas p ''data'' \<and> (case pget p ''data'' of PDict _ \<Rightarrow> False | _ \<Rightarrow> True) then Some ''data''
          else None)"

section \<open>Pages\<close>

definition encode_cursor :: "json_lib \<Rightarrow> pyval \<Rightarrow> pyval \<Rightarrow> string" where
  "encode_cursor lib v k = b64u_encode (js_dump lib (PDict [(''v'', v), (''k'', k)]))"

definition decode_cursor :: "json_lib \<Rightarrow> string \<Rightarrow> (pyval \<times> pyval) option" where
  "decode_cursor lib token =
     (case b64u_decode token of
        None \<Rightarrow> None
      | Some bs \<Rightarrow>
          (case js_load lib bs of
             Some (PDict d) \<Rightarrow> if dhas d ''v'' \<and> dhas d ''k'' then Some (pget d ''v'', pget d ''k'') else None
           | _ \<Rightarrow> None))"

text \<open>\<open>_sort_key\<close>, a tuple of two lengths, and \<open>>\<close> on two of them; \<open>None\<close> is the \<open>TypeError\<close>.\<close>

datatype sort_pos = Present pyval pyval | Absent pyval

definition page_key :: "pyval \<Rightarrow> pyval \<Rightarrow> sort_pos" where
  "page_key v k = (if v = PNone then Absent k else Present v k)"

fun key_after :: "sort_pos \<Rightarrow> sort_pos \<Rightarrow> bool option" where
  "key_after (Present v k) (Present w l) =
     (if py_eq v w then (if py_eq k l then Some False else py_less l k) else py_less w v)"
| "key_after (Absent k) (Absent l) = (if py_eq k l then Some False else py_less l k)"
| "key_after (Absent _) (Present _ _) = Some True"
| "key_after (Present _ _) (Absent _) = Some False"

definition row_pos :: "string \<Rightarrow> string \<Rightarrow> row \<Rightarrow> sort_pos" where
  "row_pos e field r = page_key (pget r field) (PStr (row_key e r))"

fun rows_after :: "(row \<Rightarrow> bool option) \<Rightarrow> row list \<Rightarrow> row list option" where
  "rows_after f [] = Some []"
| "rows_after f (r # rs) =
     (case f r of
        None \<Rightarrow> None
      | Some b \<Rightarrow> map_option (\<lambda>ys. if b then r # ys else ys) (rows_after f rs))"

text \<open>\<open>paginate\<close>: \<open>None\<close> is the \<open>CursorError\<close>.\<close>

definition paginate ::
  "json_lib \<Rightarrow> row list \<Rightarrow> string \<Rightarrow> string \<Rightarrow> (pyval \<times> pyval) option \<Rightarrow> nat \<Rightarrow> (row list \<times> string option) option" where
  "paginate lib rows field e after limit =
     (case (case after of
              None \<Rightarrow> Some rows
            | Some (v, k) \<Rightarrow> rows_after (\<lambda>r. key_after (row_pos e field r) (page_key v k)) rows) of
        None \<Rightarrow> None
      | Some rs \<Rightarrow>
          let page = take limit rs in
          Some (page, if limit < length rs
                      then Some (encode_cursor lib (pget (last page) field) (PStr (row_key e (last page)))) else None))"

section \<open>Results\<close>

text \<open>
  What the server reads of the result of a run: its status, \<open>failure_kind\<close>, \<open>failed_step\<close> and
  \<open>failure_reason\<close>, the steps with their effects, the guards skipped, and the dictionary itself.
\<close>

record run_outcome =
  oc_completed :: bool
  oc_kind :: "string option"
  oc_failed :: string
  oc_reason :: string
  oc_steps :: "(string \<times> string list) list"
  oc_skipped :: pyval
  oc_body :: pyval

definition effect_counts :: "run_outcome \<Rightarrow> (string, nat) dict" where
  "effect_counts r =
     fold (\<lambda>(_, ks). fold (\<lambda>k d. dset k (Suc (case dget d k of None \<Rightarrow> 0 | Some n \<Rightarrow> n)) d) ks) (oc_steps r) []"

definition failed_with :: "string list \<Rightarrow> run_outcome \<Rightarrow> bool" where
  "failed_with kinds r = list_ex (\<lambda>(s, ks). s = oc_failed r \<and> list_ex (\<lambda>k. k \<in> set kinds) ks) (oc_steps r)"

definition map_result :: "run_outcome \<Rightarrow> int \<times> string option" where
  "map_result r =
     (if oc_completed r then (200, None)
      else if oc_kind r = Some ''deadline'' then (504, Some ''deadline-exceeded'')
      else if failed_with [''Validation''] r then (400, Some ''validation-failed'')
      else if oc_kind r = Some ''conflict'' then (409, Some ''conflict'')
      else if oc_kind r = Some ''not-found'' then (404, Some ''not-found'')
      else if oc_kind r = Some ''write-conflict'' then (409, Some ''write-conflict'')
      else if oc_kind r = Some ''id-required'' then (400, Some ''id-required'')
      else if oc_kind r = Some ''rejected'' then (422, Some (oc_reason r))
      else (500, Some ''workflow-failed''))"

text \<open>The first entry of the failed step decides whether an event is worth a retry.\<close>

definition failed_effects :: "run_outcome \<Rightarrow> string list" where
  "failed_effects r = (case List.find (\<lambda>(s, _). s = oc_failed r) (oc_steps r) of None \<Rightarrow> [] | Some (_, ks) \<Rightarrow> ks)"

definition map_consume_result :: "run_outcome \<Rightarrow> int \<times> string option" where
  "map_consume_result r =
     (let retry = (503, Some ''event-retry-later''); rejected = (422, Some ''event-rejected'') in
      if oc_completed r then (200, None)
      else if oc_kind r = Some ''deadline'' then retry
      else if oc_kind r \<in> {Some ''conflict'', Some ''not-found'', Some ''id-required'', Some ''rejected''} then rejected
      else if oc_kind r = Some ''write-conflict'' then retry
      else if ''RepositoryCall'' \<in> set (failed_effects r) \<or> ''NetworkCall'' \<in> set (failed_effects r) then retry
      else rejected)"

section \<open>Problems\<close>

text \<open>The problem document of an error, without its title and its detail text.\<close>

definition problem :: "int \<Rightarrow> string \<Rightarrow> (string \<times> pyval) list \<Rightarrow> pyval" where
  "problem status code extras = PDict ([(''status'', PInt status), (''code'', PStr code)] @ extras)"

section \<open>Names in paths\<close>

text \<open>\<open>openapi._slug\<close>: at character \<open>c\<close>, with the one before it and the rest of the name.\<close>

fun slug_from :: "char option \<Rightarrow> string \<Rightarrow> string" where
  "slug_from prev [] = []"
| "slug_from prev (c # cs) =
     (if (case prev of None \<Rightarrow> False
          | Some p \<Rightarrow> is_upper_c c \<and> (\<not> is_upper_c p \<or> (case cs of [] \<Rightarrow> False | d # _ \<Rightarrow> is_lower_c d)))
      then [CHR ''-''] else []) @ lower_c c # slug_from (Some c) cs"

definition slug :: "string \<Rightarrow> string" where
  "slug name = slug_from None name"

end
