(* ===== verification/Serve.thy ===== *)
theory Serve
  imports Web
begin

text \<open>
  A request of \<open>LnplWsgiApp\<close> (\<open>impl/lnpl/wsgi.py\<close>), from its route to its response. Its arguments are what
  the outside gives: the clock, a correlation id, the bytes of the body, and the run of a workflow, which
  works on the request's own connection and either answers an outcome or raises (\<open>None\<close>). Logs, metrics,
  traces and audit records are left out, and so are the texts of a problem.
\<close>

section \<open>The application\<close>

datatype route_kind =
    RWorkflow string | RGetSingle string | RGetList string string | RSubscribe string
  | RConsume string string | RHealth | RReady | RMetrics

record route =
  rt_kind :: route_kind
  rt_auth :: bool
  rt_role :: "string option"

text \<open>What the repository factory makes, and \<open>_idempotency_mode\<close> of it.\<close>

datatype repo_kind = NoRepository | ClaimingDriver | PlainDriver | LegacyClaiming | LegacyPlain

datatype claim_mode = Claim | Refuse | LegacyClaim | LegacySkip

fun idempotency_mode :: "repo_kind \<Rightarrow> claim_mode" where
  "idempotency_mode ClaimingDriver = Claim"
| "idempotency_mode PlainDriver = Refuse"
| "idempotency_mode LegacyClaiming = LegacyClaim"
| "idempotency_mode LegacyPlain = LegacySkip"
| "idempotency_mode NoRepository = LegacySkip"

record app =
  ap_doc :: document
  ap_depth :: nat
  ap_routes :: "(string, route) dict"
  ap_repo :: repo_kind
  ap_ttl :: int
  ap_tokens :: token_lib
  ap_provider :: "provider option"
  ap_json :: json_lib
  ap_text :: "pyval \<Rightarrow> string"

record request =
  rq_path :: string
  rq_query :: string
  rq_params :: "(string, string) dict"
  rq_auth :: "string option"
  rq_length :: "string option"
  rq_input :: bytes
  rq_key :: "string option"
  rq_if_match :: "string option"

definition raw_path :: "request \<Rightarrow> string" where
  "raw_path rq = rq_path rq @ (if rq_query rq = [] then [] else CHR ''?'' # rq_query rq)"

record http_response =
  rs_status :: int
  rs_body :: pyval
  rs_headers :: "(string, string) dict"

text \<open>What a handler raises: an exception of Python, or an error of a walk or of the driver.\<close>

datatype http_exc = HttpRaised py_exc | HttpRun run_exc | HttpSql sql_error

definition problem_response :: "int \<Rightarrow> string \<Rightarrow> (string \<times> pyval) list \<Rightarrow> (string \<times> string) list \<Rightarrow> http_response" where
  "problem_response status code extras headers = \<lparr>rs_status = status, rs_body = problem status code extras, rs_headers = headers\<rparr>"

abbreviation refused :: "int \<Rightarrow> string \<Rightarrow> http_response" where
  "refused status code \<equiv> problem_response status code [] []"

section \<open>Authorization\<close>

text \<open>A handler that stops with a response, or goes on.\<close>

definition token_accepted :: "app \<Rightarrow> int \<Rightarrow> string \<Rightarrow> string \<Rightarrow> row option" where
  "token_accepted app now header path =
     (case partition_at CHR '' '' header of
        (scheme, _, token) \<Rightarrow>
          if str_lower scheme \<noteq> ''bearer'' \<or> strip token = [] then None
          else case (ap_provider app, audience_for_path path) of
                 (Some p, Some audience) \<Rightarrow>
                   (case verify (ap_tokens app) p now (strip token) audience of Inl _ \<Rightarrow> None | Inr claims \<Rightarrow> Some claims)
               | _ \<Rightarrow> None)"

definition role_accepted :: "route \<Rightarrow> row \<Rightarrow> bool" where
  "role_accepted rt claims =
     (case rt_role rt of
        None \<Rightarrow> True
      | Some role \<Rightarrow> role = [] \<or> caller_role claims = PStr role)"

definition check_auth :: "app \<Rightarrow> int \<Rightarrow> route \<Rightarrow> request \<Rightarrow> http_response + row option" where
  "check_auth app now rt rq =
     (if \<not> rt_auth rt then Inr None
      else case rq_auth rq of
        None \<Rightarrow> Inl (refused 401 ''auth-missing'')
      | Some header \<Rightarrow>
          if ap_provider app = None then Inr None
          else case token_accepted app now header (rq_path rq) of
                 None \<Rightarrow> Inl (refused 401 ''auth-invalid'')
               | Some claims \<Rightarrow> if role_accepted rt claims then Inr (Some claims) else Inl (refused 403 ''forbidden''))"

section \<open>The body\<close>

definition max_body_bytes :: int where "max_body_bytes = 2 ^ 20"

definition read_json_body :: "app \<Rightarrow> request \<Rightarrow> http_response + row" where
  "read_json_body app rq =
     (let n = (case rq_length rq of None \<Rightarrow> 0 | Some [] \<Rightarrow> 0 | Some s \<Rightarrow> (case py_int s of None \<Rightarrow> 0 | Some n \<Rightarrow> n)) in
      if n > max_body_bytes then Inl (refused 413 ''body-too-large'')
      else let body = (if n > 0 then take (nat n) (rq_input rq) else []) in
        if body = [] then Inr []
        else case js_load (ap_json app) body of
               Some (PDict d) \<Rightarrow> Inr d
             | _ \<Rightarrow> Inl (refused 400 ''body-unreadable''))"

section \<open>Preconditions\<close>

text \<open>\<open>_check_if_match\<close>: the refusal, if there is one. It reads the row through the request's connection.\<close>

definition is_dotted :: "string \<Rightarrow> bool" where "is_dotted s \<longleftrightarrow> CHR ''.'' \<in> set s"

definition computed_key :: "string option \<Rightarrow> bool" where
  "computed_key lookup =
     (case lookup of
        None \<Rightarrow> False
      | Some ref \<Rightarrow> is_dotted ref \<and> fst (partition_at CHR ''.'' ref) \<notin> {payload_namespace, caller_namespace})"

definition row_precondition :: "nat \<Rightarrow> string \<Rightarrow> string \<Rightarrow> database \<times> conn \<Rightarrow> (http_exc + http_response option) \<times> database \<times> conn" where
  "row_precondition claimed e key s =
     (case sql_execute e ''read'' key s of
        (Inl x, s) \<Rightarrow> (Inl (HttpSql x), s)
      | (Inr (RowFound (Some (row, obj))), s) \<Rightarrow>
          (Inr (if cn_observed (snd s) ! obj = claimed then None else Some (refused 412 ''precondition-failed'')), s)
      | (Inr _, s) \<Rightarrow> (Inr (Some (refused 412 ''precondition-failed'')), s))"

definition check_if_match ::
  "app \<Rightarrow> string \<Rightarrow> row \<Rightarrow> row option \<Rightarrow> string \<Rightarrow> database \<times> conn \<Rightarrow> (http_exc + http_response option) \<times> database \<times> conn" where
  "check_if_match app wid payload claims if_match s =
     (case parse_if_match if_match of
        Inl x \<Rightarrow> (Inl (HttpRaised x), s)
      | Inr None \<Rightarrow> (Inr (Some (refused 400 ''precondition-invalid'')), s)
      | Inr (Some claimed) \<Rightarrow>
          if ap_repo app = NoRepository then (Inr None, s)
          else case repository_calls (ap_depth app) (ap_doc app) wid of
            Inl x \<Rightarrow> (Inl (HttpRun x), s)
          | Inr calls \<Rightarrow>
              (case List.find (\<lambda>(_, op). op = ''read'') calls of
                 None \<Rightarrow> (Inr None, s)
               | Some (e, _) \<Rightarrow>
                   (case lookup_key_source (ap_depth app) (ap_doc app) wid e of
                      Inl x \<Rightarrow> (Inl (HttpRun x), s)
                    | Inr lookup \<Rightarrow>
                        if computed_key lookup then (Inr (Some (refused 400 ''precondition-unsupported'')), s)
                        else case resolve_lookup_key e lookup
                               \<lparr>sc_payload = payload, sc_bindings = [], sc_caller = caller_view claims, sc_response = None\<rparr> of
                          Inl (RunError _) \<Rightarrow> (Inr (Some (refused 400 ''precondition-unsupported'')), s)
                        | Inl x \<Rightarrow> (Inl (HttpRun x), s)
                        | Inr key \<Rightarrow> row_precondition claimed e key s)))"

section \<open>Running a workflow\<close>

type_synonym runner = "string \<Rightarrow> row \<Rightarrow> row option \<Rightarrow> database \<times> conn \<Rightarrow> run_outcome option \<times> database \<times> conn"

definition outcome_response :: "int \<times> string option \<Rightarrow> run_outcome \<Rightarrow> http_response" where
  "outcome_response m r =
     (case m of
        (status, None) \<Rightarrow> \<lparr>rs_status = status, rs_body = oc_body r, rs_headers = []\<rparr>
      | (status, Some code) \<Rightarrow>
          problem_response status code [(''failed_step'', PStr (oc_failed r)), (''skipped'', oc_skipped r)] [])"

text \<open>A recorded answer; its body was stored as JSON.\<close>

definition replay :: "int option \<Rightarrow> pyval option \<Rightarrow> http_response" where
  "replay status body =
     \<lparr>rs_status = (case status of None \<Rightarrow> 0 | Some n \<Rightarrow> n), rs_body = (case body of None \<Rightarrow> PNone | Some b \<Rightarrow> b), rs_headers = []\<rparr>"

definition finish_claim :: "bool \<Rightarrow> string \<Rightarrow> string \<Rightarrow> http_response \<Rightarrow> database \<times> conn \<Rightarrow> (http_exc + http_response) \<times> database \<times> conn" where
  "finish_claim claimed wid key r s =
     (Inr r, if claimed then snd (idempotency_finish wid key (rs_status r) (rs_body r) s) else s)"

text \<open>After the claim: the precondition, the run, and the record of its answer.\<close>

definition respond_claimed ::
  "app \<Rightarrow> runner \<Rightarrow> bool \<Rightarrow> string \<Rightarrow> row \<Rightarrow> row option \<Rightarrow> string \<Rightarrow> string option \<Rightarrow> database \<times> conn \<Rightarrow>
     (http_exc + http_response) \<times> database \<times> conn" where
  "respond_claimed app run claimed wid payload claims key if_match s =
     (case (case if_match of None \<Rightarrow> (Inr None, s) | Some m \<Rightarrow> check_if_match app wid payload claims m s) of
        (Inl x, s) \<Rightarrow> (Inl x, s)
      | (Inr (Some r), s) \<Rightarrow> finish_claim claimed wid key r s
      | (Inr None, s) \<Rightarrow>
          (case run wid payload claims s of
             (None, s) \<Rightarrow> (Inr (refused 500 ''workflow-failed''), s)
           | (Some result, s) \<Rightarrow> finish_claim claimed wid key (outcome_response (map_result result) result) s))"

definition respond ::
  "app \<Rightarrow> runner \<Rightarrow> int \<Rightarrow> string \<Rightarrow> row \<Rightarrow> row option \<Rightarrow> string option \<Rightarrow> string option \<Rightarrow> database \<times> conn \<Rightarrow>
     (http_exc + http_response) \<times> database \<times> conn" where
  "respond app run now wid payload claims key if_match s =
     (case key of
        None \<Rightarrow> respond_claimed app run False wid payload claims [] if_match s
      | Some k \<Rightarrow>
          (case idempotency_mode (ap_repo app) of
             Refuse \<Rightarrow> (Inr (refused 501 ''idempotency-unsupported''), s)
           | LegacySkip \<Rightarrow> respond_claimed app run False wid payload claims k if_match s
           | _ \<Rightarrow>
               (case idempotency_begin wid k now (ap_ttl app) s of
                  (Inl x, s) \<Rightarrow> (Inl (HttpSql x), s)
                | (Inr InProgress, s) \<Rightarrow> (Inr (refused 409 ''idempotency-in-progress''), s)
                | (Inr (Done status body), s) \<Rightarrow> (Inr (replay status body), s)
                | (Inr Started, s) \<Rightarrow> respond_claimed app run True wid payload claims k if_match s)))"

text \<open>\<open>_run\<close>: a connection of its own, closed on every way out.\<close>

definition run_request ::
  "app \<Rightarrow> runner \<Rightarrow> int \<Rightarrow> string \<Rightarrow> row \<Rightarrow> row option \<Rightarrow> string option \<Rightarrow> string option \<Rightarrow> database \<Rightarrow>
     (http_exc + http_response) \<times> database" where
  "run_request app run now wid payload claims key if_match db =
     (let (r, s) = respond app run now wid payload claims key if_match (db, new_conn) in (r, sql_close s))"

section \<open>Consuming an event\<close>

definition max_key_length :: nat where "max_key_length = 255"

definition retry_later :: "(string \<times> pyval) list \<Rightarrow> http_response" where
  "retry_later extras = problem_response 503 ''event-retry-later'' extras [(''Retry-After'', ''1'')]"

text \<open>A run that raised: rolled back, then released. The driver of the model does not fail to roll back.\<close>

definition consume_run ::
  "app \<Rightarrow> runner \<Rightarrow> bool \<Rightarrow> string \<Rightarrow> row \<Rightarrow> row option \<Rightarrow> string \<Rightarrow> database \<times> conn \<Rightarrow> (http_exc + http_response) \<times> database \<times> conn" where
  "consume_run app run claimed wid data claims key s =
     (case run wid data claims s of
        (None, s) \<Rightarrow>
          (Inr (retry_later []), if claimed then snd (idempotency_release wid key (snd (sql_rollback s))) else s)
      | (Some result, s) \<Rightarrow>
          (let r = outcome_response (map_consume_result result) result in
           if rs_status r = 503 then
             (Inr (r\<lparr>rs_headers := [(''Retry-After'', ''1'')]\<rparr>), if claimed then snd (idempotency_release wid key s) else s)
           else finish_claim claimed wid key r s))"

definition consume_event ::
  "app \<Rightarrow> runner \<Rightarrow> int \<Rightarrow> string \<Rightarrow> row \<Rightarrow> row option \<Rightarrow> database \<Rightarrow> (http_exc + http_response) \<times> database" where
  "consume_event app run now wid payload claims db =
     (case envelope_fault payload of
        Some field \<Rightarrow> (Inr (refused 400 ''cloudevents-invalid''), db)
      | None \<Rightarrow>
          (case pget payload ''id'' of
             PStr key \<Rightarrow>
               if length (concat (map utf8_bytes key)) > max_key_length then (Inr (refused 400 ''cloudevents-id-too-long''), db)
               else
                 let data = (case pget payload ''data'' of PDict d \<Rightarrow> d | _ \<Rightarrow> []);
                     s = (db, new_conn);
                     (r, s) =
                       (case idempotency_mode (ap_repo app) of
                          Refuse \<Rightarrow> (Inr (refused 501 ''idempotency-unsupported''), s)
                        | LegacySkip \<Rightarrow> consume_run app run False wid data claims key s
                        | _ \<Rightarrow>
                            (case idempotency_begin wid key now (ap_ttl app) s of
                               (Inl x, s) \<Rightarrow> (Inl (HttpSql x), s)
                             | (Inr InProgress, s) \<Rightarrow> (Inr (refused 409 ''idempotency-in-progress''), s)
                             | (Inr (Done status body), s) \<Rightarrow> (Inr (replay status body), s)
                             | (Inr Started, s) \<Rightarrow> consume_run app run True wid data claims key s)) in
                 (r, sql_close s)
           | _ \<Rightarrow> (Inl (HttpRaised PyAttributeError), db)))"

section \<open>POST\<close>

definition do_post :: "app \<Rightarrow> runner \<Rightarrow> int \<Rightarrow> request \<Rightarrow> database \<Rightarrow> (http_exc + http_response) \<times> database" where
  "do_post app run now rq db =
     (case dget (ap_routes app) (raw_path rq) of
        None \<Rightarrow> (Inr (refused 404 ''not-found''), db)
      | Some rt \<Rightarrow>
          let guarded = (\<lambda>handle.
                case check_auth app (now div 1000) rt rq of
                  Inl r \<Rightarrow> (Inr r, db)
                | Inr claims \<Rightarrow>
                    (case read_json_body app rq of
                       Inl r \<Rightarrow> (Inr r, db)
                     | Inr payload \<Rightarrow> handle claims payload)) in
          case rt_kind rt of
            RConsume wid ev \<Rightarrow> guarded (\<lambda>claims payload. consume_event app run now wid payload claims db)
          | RWorkflow wid \<Rightarrow>
              guarded (\<lambda>claims payload.
                if (case rq_key rq of None \<Rightarrow> False | Some k \<Rightarrow> length k > max_key_length)
                then (Inr (refused 400 ''idempotency-key-too-long''), db)
                else run_request app run now wid payload claims (rq_key rq) (rq_if_match rq) db)
          | _ \<Rightarrow> (Inr (problem_response 405 ''method-not-allowed'' [] [(''Allow'', ''GET'')]), db))"

section \<open>GET\<close>

definition json_response :: "pyval \<Rightarrow> (string \<times> string) list \<Rightarrow> http_response" where
  "json_response body headers = \<lparr>rs_status = 200, rs_body = body, rs_headers = headers\<rparr>"

definition entity_mask :: "app \<Rightarrow> string \<Rightarrow> pyval \<Rightarrow> pyval" where
  "entity_mask app e row = mask_payload row (view_of (ap_doc app) (entity_fields (ap_doc app) e))"

text \<open>Only a driver that keeps versions gives an entity tag.\<close>

definition get_single :: "app \<Rightarrow> string \<Rightarrow> string \<Rightarrow> database \<Rightarrow> http_exc + http_response" where
  "get_single app e id_value db =
     (if ap_repo app = NoRepository then Inr (refused 404 ''not-found'')
      else case sql_execute e ''read'' (row_key e [(''id'', PStr id_value)]) (db, new_conn) of
             (Inl x, _) \<Rightarrow> Inl (HttpSql x)
           | (Inr (RowFound (Some (row, obj))), _, c) \<Rightarrow>
               Inr (json_response (entity_mask app e (strip_schema_gen row)) [(''ETag'', etag_value (cn_observed c ! obj))])
           | _ \<Rightarrow> Inr (refused 404 ''not-found''))"

definition as_row :: "pyval \<Rightarrow> row" where
  "as_row v = (case v of PDict d \<Rightarrow> d | _ \<Rightarrow> [])"

definition get_list :: "app \<Rightarrow> string \<Rightarrow> string \<Rightarrow> request \<Rightarrow> database \<Rightarrow> http_exc + http_response" where
  "get_list app e field rq db =
     (case parse_limit (dget (rq_params rq) ''limit'') of
        None \<Rightarrow> Inr (refused 400 ''limit-invalid'')
      | Some limit \<Rightarrow>
          (case (case dget (rq_params rq) ''after'' of None \<Rightarrow> Some None | Some t \<Rightarrow> map_option Some (decode_cursor (ap_json app) t)) of
             None \<Rightarrow> Inr (refused 400 ''cursor-invalid'')
           | Some after \<Rightarrow>
               (case (if ap_repo app = NoRepository then (Inr [], db, new_conn) else sql_query_sorted (ap_text app) e field (db, new_conn)) of
                  (Inl x, _) \<Rightarrow> Inl (HttpSql x)
                | (Inr rows, _) \<Rightarrow>
                    (case paginate (ap_json app) (map (\<lambda>r. as_row (strip_schema_gen r)) rows) field e after limit of
                       None \<Rightarrow> Inr (refused 400 ''cursor-invalid'')
                     | Some (page, next) \<Rightarrow>
                         Inr (json_response (PDict [(''items'', PList (map (\<lambda>r. entity_mask app e (PDict r)) page)),
                           (''next'', case next of None \<Rightarrow> PNone | Some t \<Rightarrow> PStr t)]) [])))))"

datatype get_answer = Answer "http_exc + http_response" | Stream string | Ops route_kind

definition do_get :: "app \<Rightarrow> int \<Rightarrow> request \<Rightarrow> database \<Rightarrow> get_answer" where
  "do_get app now rq db =
     (let missing = Answer (Inr (refused 404 ''not-found''));
          guarded = (\<lambda>rt answer. case check_auth app (now div 1000) rt rq of Inl r \<Rightarrow> Answer (Inr r) | Inr _ \<Rightarrow> answer);
          direct = dget (ap_routes app) (rq_path rq);
          segments = split_on CHR ''/'' (rq_path rq) in
      if length segments = 4 \<and> segments ! 3 \<noteq> [] then
        let template = dget (ap_routes app) (''/'' @ segments ! 1 @ ''/'' @ segments ! 2 @ ''/{id}'') in
        case (map_option rt_kind template, map_option rt_kind direct) of
          (Some (RGetSingle e), _) \<Rightarrow> guarded (the template) (Answer (get_single app e (segments ! 3) db))
        | (_, Some (RSubscribe ev)) \<Rightarrow> guarded (the direct) (Stream ev)
        | _ \<Rightarrow> missing
      else
        case direct of
          None \<Rightarrow> missing
        | Some rt \<Rightarrow>
            (case rt_kind rt of
               RGetList e field \<Rightarrow> guarded rt (Answer (get_list app e field rq db))
             | RHealth \<Rightarrow> guarded rt (Ops RHealth)
             | RReady \<Rightarrow> guarded rt (Ops RReady)
             | RMetrics \<Rightarrow> guarded rt (Ops RMetrics)
             | _ \<Rightarrow> Answer (Inr (problem_response 405 ''method-not-allowed'' [] [(''Allow'', ''POST'')]))))"

definition reject_method :: "app \<Rightarrow> request \<Rightarrow> http_response" where
  "reject_method app rq =
     (if dhas (ap_routes app) (raw_path rq) then problem_response 405 ''method-not-allowed'' [] [(''Allow'', ''POST'')]
      else refused 404 ''not-found'')"

end
