(* ===== verification/Routes.thy ===== *)
theory Routes
  imports Serve Lowered
begin

text \<open>
  The route tables of \<open>impl/lnpl/wsgi.py\<close> and the paths of \<open>openapi.generate\<close>, on the nodes of a compiled
  module. The sets of entities and events a service touches are lists here, in the order of first use; the
  schemas and descriptions of the OpenAPI document are left out.
\<close>

section \<open>The walk over a service\<close>

datatype route_exc = RouteKey | RouteRun run_exc | ContractMismatch | ScheduleUnowned string | ScheduleAmbiguous string nat
  | RoleWithoutTokens "string list"

text \<open>\<open>node["name"]\<close>.\<close>

fun node_name :: "node \<Rightarrow> string option" where
  "node_name (Entity nm _) = Some nm"
| "node_name (Refinement nm _ _) = Some nm"
| "node_name (Event nm) = Some nm"
| "node_name (Service nm _ _) = Some nm"
| "node_name (Workflow nm _) = Some nm"
| "node_name (WorkflowStep nm _) = Some nm"
| "node_name _ = None"

definition node_at :: "lnode list \<Rightarrow> string \<Rightarrow> route_exc + lnode" where
  "node_at ns i = (case by_id ns i of None \<Rightarrow> Inl RouteKey | Some k \<Rightarrow> Inr k)"

definition name_at :: "lnode list \<Rightarrow> string \<Rightarrow> route_exc + string" where
  "name_at ns i = bindE (node_at ns i) (\<lambda>k. case node_name (ln_node k) of None \<Rightarrow> Inl RouteKey | Some nm \<Rightarrow> Inr nm)"

definition key_at :: "lnode \<Rightarrow> string \<Rightarrow> route_exc + string" where
  "key_at k key = (case dget (ln_keys k) key of Some (PStr s) \<Rightarrow> Inr s | _ \<Rightarrow> Inl RouteKey)"

definition nodes_doc :: "lnode list \<Rightarrow> document" where
  "nodes_doc ns = map (\<lambda>k. (ln_id k, ln_node k)) ns"

definition of_run :: "run_exc + 'a \<Rightarrow> route_exc + 'a" where
  "of_run r = (case r of Inl x \<Rightarrow> Inl (RouteRun x) | Inr v \<Rightarrow> Inr v)"

text \<open>The last \<open>Security\<close> constraint decides.\<close>

definition service_security :: "lnode list \<Rightarrow> string list \<Rightarrow> bool \<times> string option" where
  "service_security ns cids =
     fold (\<lambda>i acc. case by_id ns i of
             None \<Rightarrow> acc
           | Some k \<Rightarrow> (case ln_node k of Security ms \<Rightarrow> (''jwt'' \<in> set ms, required_role ms) | _ \<Rightarrow> acc)) cids (False, None)"

text \<open>What a child of a service publishes: a workflow's own path, a list, or nothing; and what it touches.\<close>

datatype service_child = ChildWorkflow string string "string list" "string list" | ChildExpose string string string | ChildOther

definition service_child :: "nat \<Rightarrow> lnode list \<Rightarrow> string \<Rightarrow> route_exc + service_child" where
  "service_child n ns cid =
     bindE (node_at ns cid) (\<lambda>k.
       case ln_node k of
         Workflow nm _ \<Rightarrow>
           bindE (of_run (repository_calls n (nodes_doc ns) cid)) (\<lambda>calls.
           bindE (of_run (event_emissions n (nodes_doc ns) cid)) (\<lambda>evs. Inr (ChildWorkflow cid nm (map fst calls) evs)))
       | OtherNode kind \<Rightarrow>
           if kind = ''Expose'' then
             bindE (key_at k ''entity'') (\<lambda>e. bindE (name_at ns e) (\<lambda>nm. bindE (key_at k ''field'') (\<lambda>f. Inr (ChildExpose e nm f))))
           else Inr ChildOther
       | _ \<Rightarrow> Inr ChildOther)"

definition child_entities :: "service_child list \<Rightarrow> string list" where
  "child_entities cs = rev (remdups (rev (concat (map (\<lambda>c. case c of ChildWorkflow _ _ es _ \<Rightarrow> es | _ \<Rightarrow> []) cs))))"

definition child_events :: "service_child list \<Rightarrow> string list" where
  "child_events cs = rev (remdups (rev (concat (map (\<lambda>c. case c of ChildWorkflow _ _ _ evs \<Rightarrow> evs | _ \<Rightarrow> []) cs))))"

definition under :: "string \<Rightarrow> string \<Rightarrow> string" where
  "under svc nm = ''/'' @ slug svc @ ''/'' @ slug nm"

definition single_path :: "string \<Rightarrow> string \<Rightarrow> string" where
  "single_path svc nm = under svc nm @ ''/{id}''"

definition events_path :: "string \<Rightarrow> string \<Rightarrow> string" where
  "events_path svc nm = ''/'' @ slug svc @ ''/events/'' @ slug nm"

definition subscribed :: "lnode list \<Rightarrow> string list \<Rightarrow> route_exc + (string \<times> string) list" where
  "subscribed ns evs =
     bindE (mapE (\<lambda>i. bindE (node_at ns i) (\<lambda>k.
        if dget (ln_keys k) ''subscribe'' = Some (PBool True) then bindE (name_at ns i) (\<lambda>nm. Inr [(i, nm)]) else Inr [])) evs)
       (\<lambda>xs. Inr (concat xs))"

section \<open>The table\<close>

definition service_routes :: "nat \<Rightarrow> lnode list \<Rightarrow> lnode \<Rightarrow> (string, route) dict \<Rightarrow> route_exc + (string, route) dict" where
  "service_routes n ns k routes =
     (case ln_node k of
        Service svc children cids \<Rightarrow>
          (let (auth, role) = service_security ns cids;
               add = (\<lambda>path kind routes. dset path \<lparr>rt_kind = kind, rt_auth = auth, rt_role = role\<rparr> routes) in
           bindE (mapE (service_child n ns) children) (\<lambda>cs.
           bindE (mapE (\<lambda>e. bindE (name_at ns e) (\<lambda>nm. Inr (e, nm))) (child_entities cs)) (\<lambda>es.
           bindE (subscribed ns (child_events cs)) (\<lambda>evs.
             Inr (fold (\<lambda>(i, nm). add (events_path svc nm) (RSubscribe i)) evs
                   (fold (\<lambda>(e, nm). add (single_path svc nm) (RGetSingle e)) es
                     (fold (\<lambda>c routes. case c of
                         ChildWorkflow wid nm _ _ \<Rightarrow> add (under svc nm) (RWorkflow wid) routes
                       | ChildExpose e nm f \<Rightarrow> add (under svc nm) (RGetList e f) routes
                       | ChildOther \<Rightarrow> routes) cs routes)))))))
      | _ \<Rightarrow> Inr routes)"

text \<open>The paths of the contract, each with its methods: a workflow's replaces what the path held.\<close>

type_synonym path_methods = "(string, string list) dict"

definition add_get :: "string \<Rightarrow> path_methods \<Rightarrow> path_methods" where
  "add_get path paths = dset path ((case dget paths path of None \<Rightarrow> [] | Some ms \<Rightarrow> ms) @ [''get'']) paths"

definition service_paths :: "nat \<Rightarrow> lnode list \<Rightarrow> lnode \<Rightarrow> path_methods \<Rightarrow> route_exc + path_methods" where
  "service_paths n ns k paths =
     (case ln_node k of
        Service svc children cids \<Rightarrow>
           bindE (mapE (service_child n ns) children) (\<lambda>cs.
           bindE (mapE (\<lambda>e. bindE (name_at ns e) (\<lambda>nm. Inr (e, nm))) (child_entities cs)) (\<lambda>es.
           bindE (subscribed ns (child_events cs)) (\<lambda>evs.
             Inr (fold (\<lambda>(i, nm). add_get (events_path svc nm)) evs
                   (fold (\<lambda>(e, nm). add_get (single_path svc nm)) es
                     (fold (\<lambda>c paths. case c of
                         ChildWorkflow wid nm _ _ \<Rightarrow> dset (under svc nm) [''post''] paths
                       | ChildExpose e nm f \<Rightarrow> add_get (under svc nm) paths
                       | ChildOther \<Rightarrow> paths) cs paths))))))
      | _ \<Rightarrow> Inr paths)"

definition contract_paths :: "nat \<Rightarrow> lnode list \<Rightarrow> route_exc + path_methods" where
  "contract_paths n ns = foldE (service_paths n ns) ns []"

definition build_routes :: "nat \<Rightarrow> lnode list \<Rightarrow> route_exc + (string, route) dict" where
  "build_routes n ns =
     bindE (foldE (service_routes n ns) ns []) (\<lambda>routes.
     bindE (contract_paths n ns) (\<lambda>paths.
       if fst ` set routes \<noteq> fst ` set paths then Inl ContractMismatch else Inr routes))"

section \<open>Schedules, ingress and operations\<close>

definition schedule_events :: "lnode list \<Rightarrow> lnode list" where
  "schedule_events ns =
     filter (\<lambda>k. case (ln_node k, dget (ln_keys k) ''source'') of
       (Event _, Some (PDict d)) \<Rightarrow> dhas d ''every'' | _ \<Rightarrow> False) ns"

definition service_node :: "lnode \<Rightarrow> bool" where
  "service_node k = (case ln_node k of Service _ _ _ \<Rightarrow> True | _ \<Rightarrow> False)"

definition line_of :: "lnode \<Rightarrow> nat" where
  "line_of k = (case ln_line k of None \<Rightarrow> 0 | Some l \<Rightarrow> l)"

text \<open>The services in the order of their lines, and the last that does not come after the event.\<close>

fun owning_service :: "nat \<Rightarrow> lnode list \<Rightarrow> lnode option \<Rightarrow> lnode option" where
  "owning_service line [] owner = owner"
| "owning_service line (s # ss) owner = (if line_of s \<le> line then owning_service line ss (Some s) else owner)"

definition workflow_children_of :: "lnode list \<Rightarrow> lnode \<Rightarrow> route_exc + string list" where
  "workflow_children_of ns s =
     bindE (mapE (\<lambda>c. bindE (node_at ns c) (\<lambda>k. Inr (case ln_node k of Workflow _ _ \<Rightarrow> [c] | _ \<Rightarrow> []))) (node_children (ln_node s)))
       (\<lambda>xs. Inr (concat xs))"

definition schedule_trigger :: "lnode list \<Rightarrow> lnode \<Rightarrow> route_exc + string \<times> string \<times> lnode" where
  "schedule_trigger ns ev =
     (let services = sort_by (\<lambda>a b. line_of a < line_of b) (filter service_node ns) in
      case owning_service (line_of ev) services None of
        None \<Rightarrow> Inl (ScheduleUnowned (ln_id ev))
      | Some s \<Rightarrow>
          bindE (workflow_children_of ns s) (\<lambda>ws.
            case ws of [w] \<Rightarrow> Inr (ln_id ev, w, s) | _ \<Rightarrow> Inl (ScheduleAmbiguous (ln_id ev) (length ws))))"

definition resolve_schedule_triggers :: "lnode list \<Rightarrow> lnode list \<Rightarrow> route_exc + (string \<times> string \<times> lnode) list" where
  "resolve_schedule_triggers ns events = mapE (schedule_trigger ns) events"

fun service_constraint_ids :: "node \<Rightarrow> string list" where
  "service_constraint_ids (Service _ _ cids) = cids"
| "service_constraint_ids _ = []"

definition reserved_route :: "lnode list \<Rightarrow> lnode option \<Rightarrow> route_kind \<Rightarrow> route" where
  "reserved_route ns service kind =
     (let (auth, role) = (case service of None \<Rightarrow> (False, None) | Some s \<Rightarrow> service_security ns (service_constraint_ids (ln_node s))) in
      \<lparr>rt_kind = kind, rt_auth = auth, rt_role = role\<rparr>)"

definition build_schedule_routes :: "lnode list \<Rightarrow> route_exc + (string, route) dict" where
  "build_schedule_routes ns =
     bindE (resolve_schedule_triggers ns (schedule_events ns)) (\<lambda>ts.
     foldE (\<lambda>(eid, wid, s) routes.
       bindE (name_at ns eid) (\<lambda>nm. Inr (dset (''/-/schedules/'' @ slug nm) (reserved_route ns (Some s) (RWorkflow wid)) routes))) ts [])"

text \<open>\<open>_workflow_owner_service\<close>: the last service that names the workflow.\<close>

definition workflow_owner :: "lnode list \<Rightarrow> route_exc + (string, lnode) dict" where
  "workflow_owner ns =
     foldE (\<lambda>s owners. bindE (workflow_children_of ns s) (\<lambda>ws. Inr (fold (\<lambda>w. dset w s) ws owners))) (filter service_node ns) []"

definition build_event_consume_routes :: "lnode list \<Rightarrow> route_exc + (string, route) dict" where
  "build_event_consume_routes ns =
     bindE (workflow_owner ns) (\<lambda>owners.
       Inr (fold (\<lambda>k routes. case (ln_node k, dget (ln_keys k) ''consume'') of
              (Event nm, Some (PStr wid)) \<Rightarrow>
                if wid = [] then routes
                else dset (''/-/events/'' @ slug nm) (reserved_route ns (dget owners wid) (RConsume wid (ln_id k))) routes
            | _ \<Rightarrow> routes) ns []))"

definition open_route :: "route_kind \<Rightarrow> route" where
  "open_route kind = \<lparr>rt_kind = kind, rt_auth = False, rt_role = None\<rparr>"

definition build_ops_routes :: "(string, route) dict" where
  "build_ops_routes = [(''/-/healthz'', open_route RHealth), (''/-/readyz'', open_route RReady)]"

definition build_metrics_route :: "(string, route) dict" where
  "build_metrics_route = [(''/-/metrics'', open_route RMetrics)]"

definition merge_routes :: "(string, route) dict \<Rightarrow> (string, route) dict \<Rightarrow> (string, route) dict" where
  "merge_routes routes more_routes = fold (\<lambda>(p, r). dset p r) more_routes routes"

text \<open>The table \<open>make_wsgi_app\<close> serves, with \<open>--metrics\<close> or without.\<close>

definition all_routes :: "nat \<Rightarrow> bool \<Rightarrow> lnode list \<Rightarrow> route_exc + (string, route) dict" where
  "all_routes n metrics ns =
     bindE (build_routes n ns) (\<lambda>routes.
     bindE (build_schedule_routes ns) (\<lambda>schedules.
     bindE (build_event_consume_routes ns) (\<lambda>ingress.
       Inr (let routes = merge_routes (merge_routes (merge_routes routes schedules) ingress) build_ops_routes in
            if metrics then merge_routes routes build_metrics_route else routes))))"

text \<open>\<open>make_wsgi_app\<close>: a role nobody can check refuses to start.\<close>

definition needs_role :: "route \<Rightarrow> bool" where
  "needs_role r = (case rt_role r of None \<Rightarrow> False | Some role \<Rightarrow> role \<noteq> [])"

definition make_app :: "app \<Rightarrow> bool \<Rightarrow> lnode list \<Rightarrow> route_exc + app" where
  "make_app app metrics ns =
     bindE (all_routes (ap_depth app) metrics ns) (\<lambda>routes.
       let gated = map fst (filter (\<lambda>(_, r). needs_role r) routes) in
       if ap_provider app = None \<and> gated \<noteq> [] then Inl (RoleWithoutTokens gated)
       else Inr (app\<lparr>ap_doc := nodes_doc ns, ap_routes := routes\<rparr>))"

text \<open>The methods a route answers.\<close>

fun served_methods :: "route_kind \<Rightarrow> string list" where
  "served_methods (RWorkflow _) = [''post'']"
| "served_methods (RConsume _ _) = [''post'']"
| "served_methods _ = [''get'']"

end
