(* ===== verification/Programs.thy ===== *)
theory Programs
  imports Serve StoreProps
begin

text \<open>
  The workflow behind a request, as the server sees it: a program that calls the methods of
  \<open>RepositoryDriver\<close> a run of \<open>interp.py\<close> calls (\<open>begin\<close>, \<open>execute\<close>, \<open>persist\<close>, \<open>query\<close>, \<open>record_emission\<close>, \<open>commit\<close> and
  \<open>rollback\<close>), decides after each answer what to do next, and ends with an outcome or an exception. No such
  program touches the claims of idempotency keys, in the file or in what a close would leave of it.
\<close>

section \<open>Calls of a run\<close>

text \<open>A query pushed down to the driver is a function of the rows of its entity, which \<open>AskQuery\<close> answers.\<close>

datatype repo_request =
    AskBegin | AskCommit | AskRollback
  | AskExecute string string string
  | AskPersist string string pyval "nat option"
  | AskQuery string
  | AskRecord string string pyval int

datatype repo_answer = RepoFailed sql_error | RepoDone | RepoExecuted sql_answer | RepoRows "pyval list"

definition answered :: "('a \<Rightarrow> repo_answer) \<Rightarrow> (sql_error + 'a) \<times> database \<times> conn \<Rightarrow> repo_answer \<times> database \<times> conn" where
  "answered f r = (case fst r of Inl e \<Rightarrow> RepoFailed e | Inr x \<Rightarrow> f x, snd r)"

primrec ask :: "repo_request \<Rightarrow> database \<times> conn \<Rightarrow> repo_answer \<times> database \<times> conn" where
  "ask AskBegin s = answered (\<lambda>_. RepoDone) (sql_begin s)"
| "ask AskCommit s = answered (\<lambda>_. RepoDone) (sql_commit s)"
| "ask AskRollback s = answered (\<lambda>_. RepoDone) (sql_rollback s)"
| "ask (AskExecute e operation k) s = answered RepoExecuted (sql_execute e operation k s)"
| "ask (AskPersist e k row obj) s = answered (\<lambda>_. RepoDone) (sql_persist e k row obj s)"
| "ask (AskQuery e) s = answered RepoRows (sql_query_all e s)"
| "ask (AskRecord emission event payload now) s = answered (\<lambda>_. RepoDone) (sql_record_emission emission event payload now s)"

text \<open>\<open>None\<close> is a run that raised.\<close>

datatype program = Finish "run_outcome option" | Ask repo_request "repo_answer \<Rightarrow> program"

primrec run_program :: "program \<Rightarrow> database \<times> conn \<Rightarrow> run_outcome option \<times> database \<times> conn" where
  "run_program (Finish r) s = (r, s)"
| "run_program (Ask q k) s = (let (a, s) = ask q s in run_program (k a) s)"

definition runner_of :: "(string \<Rightarrow> row \<Rightarrow> row option \<Rightarrow> program) \<Rightarrow> runner" where
  "runner_of w wid p c = run_program (w wid p c)"

section \<open>Claims around a run\<close>

text \<open>The claims of a state, and of what a close would leave of it.\<close>

definition claims_settled :: "(row_id, claim_row) dict \<Rightarrow> database \<times> conn \<Rightarrow> bool" where
  "claims_settled cl s \<longleftrightarrow> db_claims (fst s) = cl \<and> db_claims (sql_close s) = cl"

lemma settled_close: "claims_settled cl s \<Longrightarrow> db_claims (sql_close s) = cl"
  by (simp add: claims_settled_def)

lemma settled_new: "claims_settled (db_claims db) (db, new_conn)"
  by (simp add: claims_settled_def sql_close_def new_conn_def)

lemma settled_commit: "claims_settled (db_claims db) (db, commit_now db c)"
  by (simp add: claims_settled_def sql_close_def commit_now_def split: option.split)

lemma settled_rollback: "claims_settled cl s \<Longrightarrow> claims_settled cl (snd (sql_rollback s))"
  by (cases s) (auto simp: claims_settled_def sql_rollback_def sql_close_def split: option.splits)

text \<open>Writes to rows and to the outbox, after the transaction they need.\<close>

lemma settled_write:
  "claims_settled cl (db, c) \<Longrightarrow> db_claims db' = db_claims db \<Longrightarrow> claims_settled cl (db', ensure_transaction db c)"
  by (auto simp: claims_settled_def sql_close_def ensure_transaction_def split: option.splits if_splits)

lemma settled_observed:
  "claims_settled cl (db, c\<lparr>cn_observed := x\<rparr>) = claims_settled cl (db, c)"
  "claims_settled cl (db, c\<lparr>cn_observed := x, cn_bound := y\<rparr>) = claims_settled cl (db, c)"
  "claims_settled cl (db, advance_bound e k c) = claims_settled cl (db, c)"
  by (simp_all add: claims_settled_def sql_close_def advance_bound_def split: option.split)

lemma claims_row_write:
  "db_claims (snd (update_row e k row v db)) = db_claims db" "db_claims (snd (delete_row e k db)) = db_claims db"
  by (simp_all add: update_row_def delete_row_def split: option.split)

lemma settled_execute: "claims_settled cl s \<Longrightarrow> claims_settled cl (snd (sql_execute e operation k s))"
  by (cases s)
    (auto simp: execute_cases sql_read_def sql_create_def sql_touch_def settled_write settled_observed claims_row_write Let_def split_beta
      split: option.split)

lemma settled_persist: "claims_settled cl s \<Longrightarrow> claims_settled cl (snd (sql_persist e k row obj s))"
  by (cases s) (auto simp: sql_persist_def settled_write settled_observed claims_row_write Let_def split_beta split: option.split)

lemma settled_record: "claims_settled cl s \<Longrightarrow> claims_settled cl (snd (sql_record_emission emission event payload now s))"
  by (cases s) (auto simp: sql_record_emission_def settled_write Let_def)

lemma settled_begin: "claims_settled cl s \<Longrightarrow> claims_settled cl (snd (sql_begin s))"
  by (cases s) (simp add: sql_begin_def claims_settled_def sql_close_def)

lemma settled_end: "claims_settled cl s \<Longrightarrow> claims_settled cl (snd (sql_commit s))"
  by (cases s) (simp add: sql_commit_def claims_settled_def sql_close_def)

lemma settled_ask: "claims_settled cl s \<Longrightarrow> claims_settled cl (snd (ask q s))"
  by (cases q)
    (simp_all add: answered_def settled_begin settled_end settled_rollback settled_execute settled_persist settled_record sql_query_all_def split_beta)

lemma settled_program: "claims_settled cl s \<Longrightarrow> claims_settled cl (snd (run_program w s))"
  by (induction w arbitrary: s) (simp_all add: split_beta settled_ask)

text \<open>A run of a workflow leaves the claims alone, whatever it does to the rows and the outbox.\<close>

lemma settled_run: "claims_settled cl s \<Longrightarrow> runner_of w wid p c s = (r, s') \<Longrightarrow> claims_settled cl s'"
  using settled_program[of cl s "w wid p c"] by (simp add: runner_of_def)

end
