(* ===== verification/TokenProps.thy ===== *)
theory TokenProps
  imports Tokens QueryProps
begin

text \<open>Tokens: what is issued is accepted, what is accepted was signed, and keys are never weak.\<close>

section \<open>Dictionaries in key order\<close>

lemma map_of_sorted_row:
  assumes "distinct (map fst d)"
  shows "map_of (sorted_row d) = map_of d"
proof (rule map_of_eqI)
  have m: "mset (sorted_row d) = mset d" by (simp add: sorted_row_def mset_sort_by)
  then have s: "set (sorted_row d) = set d" by (rule mset_eq_setD)
  have "mset (map fst (sorted_row d)) = mset (map fst d)" by (simp add: m)
  then have dd: "distinct (map fst (sorted_row d))" using assms by (metis mset_eq_imp_distinct_iff)
  show "set (map fst (sorted_row d)) = set (map fst d)" using s by simp
  show "\<forall>k \<in> set (map fst (sorted_row d)). map_of (sorted_row d) k = map_of d k"
  proof
    fix k assume "k \<in> set (map fst (sorted_row d))"
    then obtain v where "(k, v) \<in> set (sorted_row d)" by auto
    then show "map_of (sorted_row d) k = map_of d k" using s dd assms by (metis map_of_is_SomeI)
  qed
qed

lemma pget_sorted_row: "distinct (map fst d) \<Longrightarrow> pget (sorted_row d) k = pget d k"
  by (simp add: pget_def map_of_sorted_row)

section \<open>Issued tokens\<close>

text \<open>What the JSON library does with one dictionary: it reads back what it wrote, in bytes.\<close>

definition dumps_ok :: "token_lib \<Rightarrow> row \<Rightarrow> bool" where
  "dumps_ok lib d \<longleftrightarrow> byte_list (tl_dump lib (sorted_row d)) \<and> tl_load lib (tl_dump lib (sorted_row d)) = Some (PDict (sorted_row d))"

lemma json_segment_decodes:
  assumes "dumps_ok lib d"
  shows "decode_json_segment lib (json_segment lib d) what = Inr (sorted_row d)" "CHR ''.'' \<notin> set (json_segment lib d)"
    "list_all ascii_char (json_segment lib d)"
  using assms by (simp_all add: dumps_ok_def decode_json_segment_def decode_segment_def json_segment_def b64u_round_trip b64u_no_dot b64u_ascii)

lemma claims_distinct: "distinct (map fst (token_claims p now jti subject audience ttl role))"
  by (simp add: token_claims_def Let_def split: option.split)

lemma header_distinct: "distinct (map fst token_header)"
  by (simp add: token_header_def)

text \<open>
  C15: what one key issues, the key's grace period accepts. A token verifies at any provider of the same issuer that holds
  the signing key as its current or its previous key, for the audience it was issued for and no other, from
  a minute before its issue until a minute after its lifetime; the answer is the claims it was issued with.
\<close>

theorem issued_token_verifies:
  assumes "dumps_ok lib token_header" and "dumps_ok lib (token_claims p now jti subject audience ttl role)"
    and "\<And>k m. byte_list (tl_mac lib k m)"
    and "issue lib p now jti subject audience ttl role = Inr token"
    and "tp_issuer q = tp_issuer p" and "fst (tp_keys p) \<in> {fst (tp_keys q)} \<union> set_option (snd (tp_keys q))"
  shows "verify lib q now' token audience' =
    (if audience' \<noteq> audience then Inl (BadAudience (PStr audience))
     else if now' < now - leeway then Inl NotYet
     else if now + (case ttl of None \<Rightarrow> default_token_ttl | Some t \<Rightarrow> t) div 1000 + leeway \<le> now' then Inl Expired
     else Inr (sorted_row (token_claims p now jti subject audience ttl role)))"
proof -
  let ?c = "token_claims p now jti subject audience ttl role"
  let ?h = "json_segment lib token_header" and ?s = "json_segment lib ?c"
  let ?mac = "\<lambda>k. tl_mac lib k (ascii_bytes (?h @ CHR ''.'' # ?s))"
  note h = json_segment_decodes[OF assms(1)] and c = json_segment_decodes[OF assms(2)]
  have a: "list_all ascii_char (?h @ ''.'' @ ?s)" using h(3) c(3) by (simp add: ascii_char_def)
  have token: "token = ?h @ CHR ''.'' # ?s @ CHR ''.'' # b64u_encode (?mac (fst (tp_keys p)))"
    using assms(4) a by (simp add: issue_def sign_def Let_def)
  have parts: "split_on CHR ''.'' token = [?h, ?s, b64u_encode (?mac (fst (tp_keys p)))]"
    using h(2) c(2) b64u_no_dot[OF assms(3)] by (simp add: token split_on_append split_on_absent)
  have "decode_segment (b64u_encode (?mac (fst (tp_keys p)))) = Inr (?mac (fst (tp_keys p)))"
    by (simp add: decode_segment_def b64u_round_trip[OF assms(3)])
  then have sig: "verify_signature lib (tp_keys q) ?h ?s (b64u_encode (?mac (fst (tp_keys p)))) = Inr ()"
    using a assms(6) by (auto simp: verify_signature_def sign_def Let_def split: option.split)
  have header: "pget (sorted_row token_header) ''alg'' = PStr ''HS256''" "pget (sorted_row token_header) ''typ'' = PStr ''JWT''"
    by (simp_all add: pget_sorted_row header_distinct) (simp_all add: token_header_def pget_def)
  note get = pget_sorted_row[OF claims_distinct]
  have claims: "pget (sorted_row ?c) ''iss'' = PStr (tp_issuer p)" "pget (sorted_row ?c) ''aud'' = PStr audience"
    "pget (sorted_row ?c) ''nbf'' = PInt now"
    "pget (sorted_row ?c) ''exp'' = PInt (now + (case ttl of None \<Rightarrow> default_token_ttl | Some t \<Rightarrow> t) div 1000)"
    by (simp_all add: get) (simp_all add: token_claims_def pget_def Let_def)
  show ?thesis
    using assms(5) by (simp add: verify_def parts h(1) c(1) header sig check_claims_def claims as_int_def Let_def)
qed

text \<open>A library and two providers: the second has rotated its key.\<close>

definition toy_lib :: token_lib where
  "toy_lib = \<lparr>tl_dump = (\<lambda>d. if dhas d ''alg'' then [0] else [1]),
     tl_load = (\<lambda>bs. if bs = [0] then Some (PDict (sorted_row token_header))
        else Some (PDict (sorted_row (token_claims \<lparr>tp_keys = ([7], None), tp_issuer = ''lnpl''\<rparr> 1000 ''j'' ''u'' ''a'' None None)))),
     tl_mac = (\<lambda>k m. [length k mod 256])\<rparr>"

definition old_provider :: provider where
  "old_provider = \<lparr>tp_keys = ([7], None), tp_issuer = ''lnpl''\<rparr>"

definition rotated_provider :: provider where
  "rotated_provider = \<lparr>tp_keys = ([8, 9], Some [7]), tp_issuer = ''lnpl''\<rparr>"

theorem issued_token_verifies_witness:
  "(case issue toy_lib old_provider 1000 ''j'' ''u'' ''a'' None None of
      Inr token \<Rightarrow> (case verify toy_lib rotated_provider 1001 token ''a'' of Inr claims \<Rightarrow> pget claims ''sub'' = PStr ''u'' | _ \<Rightarrow> False)
    | _ \<Rightarrow> False)"
proof -
  let ?lib = toy_lib and ?c = "token_claims old_provider 1000 ''j'' ''u'' ''a'' None None"
  have h: "dumps_ok ?lib token_header" by code_simp
  have c: "dumps_ok ?lib ?c" by code_simp
  have m: "byte_list (tl_mac ?lib k m)" for k m by (simp add: byte_list_def toy_lib_def)
  have "case issue ?lib old_provider 1000 ''j'' ''u'' ''a'' None None of Inr t \<Rightarrow> True | _ \<Rightarrow> False" by code_simp
  then obtain token where t: "issue ?lib old_provider 1000 ''j'' ''u'' ''a'' None None = Inr token" by (auto split: sum.splits)
  have "verify ?lib rotated_provider 1001 token ''a'' = Inr (sorted_row ?c)"
    using issued_token_verifies[OF h c m t, of rotated_provider 1001 "''a''"]
    by (simp add: old_provider_def rotated_provider_def leeway_def default_token_ttl_def)
  moreover have "pget (sorted_row ?c) ''sub'' = PStr ''u''" by code_simp
  ultimately show ?thesis using t by simp
qed

section \<open>Accepted tokens\<close>

lemma signature_matches:
  assumes "verify_signature lib ks eh ec es = Inr ()"
  shows "\<exists>k \<in> {fst ks} \<union> set_option (snd ks). b64u_decode es = Some (tl_mac lib k (ascii_bytes (eh @ ''.'' @ ec)))"
  using assms
  by (auto simp: verify_signature_def decode_segment_def sign_def Let_def bindE_eq_Inr_iff split: option.splits if_splits)

text \<open>
  C16: what is accepted was signed. Behind every accepted token there is a MAC over exactly its header and
  claims segments under the current or the previous key; its claims are what the second segment says, name the
  provider as issuer and the audience asked for, and are in force at the time, give or take the minute.
\<close>

theorem accepted_token_was_signed:
  assumes "verify lib p now token audience = Inr claims"
  shows "\<exists>eh ec es. token = eh @ ''.'' @ ec @ ''.'' @ es \<and>
    (\<exists>k \<in> {fst (tp_keys p)} \<union> set_option (snd (tp_keys p)). b64u_decode es = Some (tl_mac lib k (ascii_bytes (eh @ ''.'' @ ec)))) \<and>
    decode_json_segment lib ec ''claims'' = Inr claims \<and> pget claims ''iss'' = PStr (tp_issuer p) \<and>
    (pget claims ''aud'' = PStr audience \<or> (\<exists>vs. pget claims ''aud'' = PList vs \<and> PStr audience \<in> set vs)) \<and>
    (\<exists>exp. as_int (pget claims ''exp'') = Some exp \<and> now < exp + leeway) \<and>
    (\<forall>nbf. as_int (pget claims ''nbf'') = Some nbf \<longrightarrow> nbf - leeway \<le> now)"
proof -
  obtain eh ec es where parts: "split_on CHR ''.'' token = [eh, ec, es]"
    using assms by (auto simp: verify_def split: list.splits)
  then have token: "token = eh @ ''.'' @ ec @ ''.'' @ es" using split_on_join[of "CHR ''.''" token] by simp
  from assms parts have sig: "verify_signature lib (tp_keys p) eh ec es = Inr ()"
    and dec: "decode_json_segment lib ec ''claims'' = Inr claims" and check: "check_claims p now audience claims = Inr claims"
    by (auto simp: verify_def bindE_eq_Inr_iff check_claims_def Let_def split: if_splits option.splits)
  have aud: "pget claims ''aud'' = PStr audience \<or> (\<exists>vs. pget claims ''aud'' = PList vs \<and> PStr audience \<in> set vs)"
    using check by (auto simp: check_claims_def Let_def split: if_splits pyval.splits)
  have rest: "pget claims ''iss'' = PStr (tp_issuer p) \<and> (\<exists>exp. as_int (pget claims ''exp'') = Some exp \<and> now < exp + leeway) \<and>
    (\<forall>nbf. as_int (pget claims ''nbf'') = Some nbf \<longrightarrow> nbf - leeway \<le> now)"
    using check by (auto simp: check_claims_def Let_def split: if_splits option.splits)
  show ?thesis using token signature_matches[OF sig] dec aud rest by blast
qed

theorem accepted_token_was_signed_witness:
  "(case issue toy_lib old_provider 1000 ''j'' ''u'' ''a'' None None of
      Inr token \<Rightarrow> (case verify toy_lib rotated_provider 1001 token ''a'' of
         Inr claims \<Rightarrow> pget claims ''iss'' = PStr ''lnpl'' \<and> (\<exists>eh ec es. token = eh @ ''.'' @ ec @ ''.'' @ es)
       | _ \<Rightarrow> False)
    | _ \<Rightarrow> False)"
proof -
  let ?t = "issue toy_lib old_provider 1000 ''j'' ''u'' ''a'' None None"
  have "case ?t of Inr t \<Rightarrow> True | _ \<Rightarrow> False" by code_simp
  then obtain token where t: "?t = Inr token" by (auto split: sum.splits)
  have "case ?t of Inr t \<Rightarrow> (case verify toy_lib rotated_provider 1001 t ''a'' of Inr c \<Rightarrow> True | _ \<Rightarrow> False) | _ \<Rightarrow> False" by code_simp
  then obtain claims where v: "verify toy_lib rotated_provider 1001 token ''a'' = Inr claims" using t by (auto split: sum.splits)
  from accepted_token_was_signed[OF this] have "pget claims ''iss'' = PStr ''lnpl'' \<and> (\<exists>eh ec es. token = eh @ ''.'' @ ec @ ''.'' @ es)"
    by (auto simp: rotated_provider_def)
  then show ?thesis by (simp add: t v)
qed

section \<open>Rotation\<close>

datatype key_op = LazyRefresh int bool secret_read | ForcedRefresh int secret_read | Probe int int secret_read

primrec do_key_op :: "key_op \<Rightarrow> rotating \<Rightarrow> rotating" where
  "do_key_op (LazyRefresh now taken r) ro = refresh_if_stale now taken r ro"
| "do_key_op (ForcedRefresh now r) ro = snd (read_and_install now r ro)"
| "do_key_op (Probe floor now r) ro = snd (refresh_for_probe floor now r ro)"

primrec read_of :: "key_op \<Rightarrow> secret_read" where
  "read_of (LazyRefresh now taken r) = r"
| "read_of (ForcedRefresh now r) = r"
| "read_of (Probe floor now r) = r"

definition strong :: "keys \<Rightarrow> bool" where
  "strong ks \<longleftrightarrow> min_secret_bytes \<le> length (fst ks) \<and> (\<forall>p \<in> set_option (snd ks). min_secret_bytes \<le> length p)"

lemma set_keys_strong: "set_keys c p = Inr ks \<Longrightarrow> strong ks"
  by (auto simp: set_keys_def strong_def Let_def split: if_splits option.splits)

lemma key_op_keys:
  "tp_keys (ro_provider (do_key_op op ro)) = tp_keys (ro_provider ro) \<or>
     read_keys (read_of op) = Inr (tp_keys (ro_provider (do_key_op op ro)))"
  by (cases op) (auto simp: refresh_if_stale_def refresh_for_probe_def read_and_install_def Let_def split: sum.split)

text \<open>
  C17: the keys in use are always good ones. Whatever a provider of secrets answers to the refreshes of a
  running verifier (an exception, a value that is no bytes, a short key), the pair in use is one that some
  read gave, whole, with at least 32 bytes in each key.
\<close>

theorem keys_in_use_are_good:
  assumes "open_rotating r issuer refresh now = Inr ro"
  shows "strong (tp_keys (ro_provider (fold do_key_op ops ro))) \<and>
    (\<exists>x \<in> {r} \<union> read_of ` set ops. read_keys x = Inr (tp_keys (ro_provider (fold do_key_op ops ro))))"
proof -
  have "read_keys r = Inr (tp_keys (ro_provider ro))"
    using assms by (auto simp: open_rotating_def read_keys_def new_provider_def bindE_eq_Inr_iff split: if_splits)
  then have "\<exists>x \<in> {r} \<union> read_of ` set ops. read_keys x = Inr (tp_keys (ro_provider (fold do_key_op ops ro)))"
  proof (induction ops arbitrary: r ro)
    case (Cons op ops)
    from key_op_keys[of op ro] show ?case
    proof
      assume "tp_keys (ro_provider (do_key_op op ro)) = tp_keys (ro_provider ro)"
      then have "read_keys r = Inr (tp_keys (ro_provider (do_key_op op ro)))" using Cons.prems by simp
      from Cons.IH[OF this] show ?thesis by auto
    next
      assume "read_keys (read_of op) = Inr (tp_keys (ro_provider (do_key_op op ro)))"
      from Cons.IH[OF this] show ?thesis by auto
    qed
  qed simp
  moreover have "strong ks" if "read_keys x = Inr ks" for x ks
    using that by (auto simp: read_keys_def bindE_eq_Inr_iff dest: set_keys_strong)
  ultimately show ?thesis by blast
qed

theorem keys_in_use_are_good_witness:
  "case open_rotating (ReadGives (IsBytes (replicate 32 1)) None) None 60 0 of
     Inr ro \<Rightarrow> strong (tp_keys (ro_provider (fold do_key_op [LazyRefresh 61 False ReadFails, ForcedRefresh 62 (ReadGives (IsBytes [1]) None)] ro)))
   | Inl _ \<Rightarrow> False"
proof -
  have "case open_rotating (ReadGives (IsBytes (replicate 32 1)) None) None 60 0 of Inr ro \<Rightarrow> True | _ \<Rightarrow> False" by code_simp
  then obtain ro where "open_rotating (ReadGives (IsBytes (replicate 32 1)) None) None 60 0 = Inr ro" by (auto split: sum.splits)
  with keys_in_use_are_good[OF this, of "[LazyRefresh 61 False ReadFails, ForcedRefresh 62 (ReadGives (IsBytes [1]) None)]"]
  show ?thesis by simp
qed

end
