(* ===== verification/GrammarProps.thy ===== *)
theory GrammarProps
  imports ConditionFacts InstantFacts
begin

text \<open>
  Properties of the token and condition layer: \<open>tokenize\<close> against a list-comprehension
  specification, the duration literals, and the two codecs the IR relies on (guard texts and
  instants).
\<close>

section \<open>The tokenizer against its specification\<close>

text \<open>
  What the documentation of \<open>tokenize\<close> promises: the non-empty lines, numbered from one, each
  with the words before its comment.
\<close>

definition line_words :: "string \<Rightarrow> string list" where
  "line_words r = split_ws (strip_comment r)"

definition bad_line :: "string \<Rightarrow> bool" where
  "bad_line r \<longleftrightarrow> CHR 0x09 \<in> set r \<or> (\<exists>t \<in> set (line_words r). t \<in> set reserved_words)"

definition numbered_words :: "nat \<Rightarrow> string list \<Rightarrow> (nat \<times> string list) list" where
  "numbered_words i rs = filter (\<lambda>p. snd p \<noteq> []) (enumerate i (map line_words rs))"

lemma tokenize_line_spec:
  "tokenize_line i r = Inr l \<Longrightarrow> \<not> bad_line r \<and>
     (case l of None \<Rightarrow> line_words r = [] | Some x \<Rightarrow> line_words r \<noteq> [] \<and> lineno x = i \<and> tokens x = line_words r)"
proof (cases l)
  case None
  moreover assume "tokenize_line i r = Inr l"
  ultimately show ?thesis by (simp add: tokenize_line_skip bad_line_def line_words_def)
next
  case (Some x)
  moreover assume "tokenize_line i r = Inr l"
  ultimately have *: "line_ok x" "lineno x = i" "raw x = r" using tokenize_line_ok by blast+
  then have "tokens x = line_words r" by (simp add: line_ok_def line_words_def)
  with * Some show ?thesis by (auto simp: line_ok_def bad_line_def)
qed

lemma tokenize_line_bad:
  "tokenize_line i r = Inl e \<Longrightarrow> bad_line r \<and> (e = TabForbidden i \<or> (\<exists>t \<in> set (line_words r). t \<in> set reserved_words \<and> e = ReservedWord i t))"
  by (auto simp: tokenize_line_def Let_def bad_line_def line_words_def find_Some_iff split_Nil_strip[symmetric]
      split_strip split: if_splits option.splits dest: nth_mem)

lemma tokenize_lines_spec:
  "tokenize_lines i rs = Inr ls \<Longrightarrow>
     map (\<lambda>l. (lineno l, tokens l)) ls = numbered_words i rs \<and> (\<forall>r \<in> set rs. \<not> bad_line r)"
proof (induction rs arbitrary: i ls)
  case Nil
  then show ?case by (simp add: numbered_words_def)
next
  case (Cons r rs)
  from Cons.prems obtain l ms where l: "tokenize_line i r = Inr l"
    and ms: "tokenize_lines (Suc i) rs = Inr ms"
    and ls: "ls = (case l of None \<Rightarrow> ms | Some x \<Rightarrow> x # ms)"
    unfolding tokenize_lines_Cons_Inr by blast
  from Cons.IH[OF ms] tokenize_line_spec[OF l] ls show ?case
    by (auto simp: numbered_words_def split: option.splits)
qed

lemma tokenize_lines_bad:
  "tokenize_lines i rs = Inl e \<Longrightarrow>
     \<exists>k < length rs. bad_line (rs ! k) \<and> (\<forall>j < k. \<not> bad_line (rs ! j)) \<and>
       (e = TabForbidden (i + k) \<or> (\<exists>t \<in> set (line_words (rs ! k)). t \<in> set reserved_words \<and> e = ReservedWord (i + k) t))"
proof (induction rs arbitrary: i)
  case Nil
  then show ?case by simp
next
  case (Cons r rs)
  show ?case
  proof (cases "tokenize_line i r")
    case (Inl d)
    with Cons.prems tokenize_line_bad[of i r d] have "bad_line ((r # rs) ! 0) \<and>
        (e = TabForbidden (i + 0) \<or> (\<exists>t \<in> set (line_words ((r # rs) ! 0)). t \<in> set reserved_words \<and> e = ReservedWord (i + 0) t))" by simp
    then show ?thesis by (intro exI[of _ 0]) auto
  next
    case (Inr l)
    with Cons.prems have "tokenize_lines (Suc i) rs = Inl e" by (auto simp: bindE_iffs)
    from Cons.IH[OF this] obtain k where k: "k < length rs" "bad_line (rs ! k)" "\<forall>j < k. \<not> bad_line (rs ! j)"
      "e = TabForbidden (Suc i + k) \<or> (\<exists>t \<in> set (line_words (rs ! k)). t \<in> set reserved_words \<and> e = ReservedWord (Suc i + k) t)"
      by blast
    from tokenize_line_spec[OF Inr] k(3) have "\<not> bad_line ((r # rs) ! j)" if "j < Suc k" for j
      using that by (cases j) auto
    with k show ?thesis by (intro exI[of _ "Suc k"]) simp
  qed
qed

section \<open>Properties\<close>

text \<open>
  The tokenizer reads every line. A source either becomes exactly its non-empty lines in
  order, each with its line number from one and the words before the comment, and then no line
  held a tab or a reserved word; or the error is a tab or reserved word of the first line that
  has one, with that line's number.
\<close>

theorem tokenize_meets_spec:
  "case tokenize src of
     Inr ls \<Rightarrow> map (\<lambda>l. (lineno l, tokens l)) ls = numbered_words 1 (splitlines src) \<and>
       list_all (\<lambda>r. \<not> bad_line r) (splitlines src)
   | Inl e \<Rightarrow> \<exists>k < length (splitlines src). bad_line (splitlines src ! k) \<and>
       list_all (\<lambda>r. \<not> bad_line r) (take k (splitlines src)) \<and>
       (e = TabForbidden (1 + k) \<or>
        (\<exists>t \<in> set (line_words (splitlines src ! k)). t \<in> set reserved_words \<and> e = ReservedWord (1 + k) t))"
proof (cases "tokenize src")
  case (Inr ls)
  with tokenize_lines_spec[of 1 "splitlines src" ls] show ?thesis by (simp add: tokenize_def list_all_iff)
next
  case (Inl e)
  with tokenize_lines_bad[of 1 "splitlines src" e] obtain k where
    k: "k < length (splitlines src)" "bad_line (splitlines src ! k)" "\<forall>j < k. \<not> bad_line (splitlines src ! j)"
      "e = TabForbidden (1 + k) \<or> (\<exists>t \<in> set (line_words (splitlines src ! k)). t \<in> set reserved_words \<and> e = ReservedWord (1 + k) t)"
    unfolding tokenize_def by blast
  then have "list_all (\<lambda>r. \<not> bad_line r) (take k (splitlines src))"
    by (auto simp: list_all_iff in_set_conv_nth)
  with k show ?thesis unfolding Inl sum.case by blast
qed

theorem tokenize_meets_spec_witness:
  "numbered_words 1 (splitlines ''a b # c'') = [(1, [''a'', ''b''])] \<and>
   (\<exists>l. tokenize ''a b # c'' = Inr [l] \<and> (lineno l, tokens l) = (1, [''a'', ''b'']))"
proof
  show n: "numbered_words 1 (splitlines ''a b # c'') = [(1, [''a'', ''b''])]" by code_simp
  have "case tokenize ''a b # c'' of Inl _ \<Rightarrow> False | Inr _ \<Rightarrow> True" by code_simp
  with tokenize_meets_spec[of "''a b # c''"] n
  show "\<exists>l. tokenize ''a b # c'' = Inr [l] \<and> (lineno l, tokens l) = (1, [''a'', ''b''])"
    by (auto split: sum.splits)
qed

text \<open>
  A duration literal is its digits times the milliseconds of its unit, or is refused when
  that exceeds 64 bits; the \<open>s\<close> of \<open>ms\<close> is never taken for seconds.
\<close>

theorem duration_literal_value:
  assumes "(u, k) \<in> set duration_unit_ms" and "ds \<noteq> []" and "list_all is_decimal_c ds"
    and "length ds \<le> max_str_digits"
  shows "parse_duration_ms (ds @ u) =
     (if int (digits_val ds) * k > INT64_MAX then Inl (DurationOverflow (ds @ u))
      else Inr (int (digits_val ds) * k))"
  using duration_literal[OF assms] by (simp add: parse_duration_ms_def)

theorem duration_literal_value_witness:
  "parse_duration_ms ''15ms'' = Inr 15 \<and> (''ms'', 1) \<in> set duration_unit_ms"
proof
  show u: "(''ms'', 1) \<in> set duration_unit_ms" by (simp add: duration_unit_ms_def)
  have d: "list_all is_decimal_c ''15''" by code_simp
  have v: "digits_val ''15'' = 15" by code_simp
  have "length ''15'' \<le> max_str_digits" by (simp add: max_str_digits_def)
  from duration_literal_value[OF u _ d this] v show "parse_duration_ms ''15ms'' = Inr 15"
    by (simp add: int64_numerals)
qed

text \<open>
  C34: The text of a guard kept in the IR means the guard. Every condition the parser accepts
  prints to a text that parses back to the same condition, printing is stable, two accepted
  conditions are equal exactly when their texts are, and every name it mentions is a reference name.
\<close>

theorem condition_text_roundtrip:
  assumes "parse_condition (Some s) = Inr (Some c)"
  shows "parse_condition (Some (condition_text c)) = Inr (Some c) \<and> list_all is_reference_name (references c) \<and>
    (\<forall>t d. parse_condition (Some t) = Inr (Some d) \<longrightarrow> (c = d) = (condition_text c = condition_text d))"
proof -
  note wf = parse_condition_wf[OF assms]
  have "(c = d) = (condition_text c = condition_text d)" if "parse_condition (Some t) = Inr (Some d)" for t d
    using cond_codec.print_inject[OF wf parse_condition_wf[OF that]] by blast
  moreover have "list_all is_reference_name (references c)"
    using references_ok[OF wf] by (simp add: list_all_iff)
  ultimately show ?thesis using condition_reads_back[OF wf] by blast
qed

theorem condition_text_roundtrip_witness:
  "\<exists>c. parse_condition (Some ''  order.total  >=  60s'') = Inr (Some c) \<and>
     condition_text c = ''order.total >= 1m'' \<and> parse_condition (Some ''order.total >= 1m'') = Inr (Some c)"
proof -
  define c where "c = Comparison (Operand (Ref ''order.total'')) OpGe (Operand (Lit 60000 True))"
  have p: "parse_condition (Some ''  order.total  >=  60s'') = Inr (Some c)" unfolding c_def by code_simp
  have t: "condition_text c = ''order.total >= 1m''" unfolding c_def by code_simp
  from condition_text_roundtrip[OF p] have "parse_condition (Some (condition_text c)) = Inr (Some c)" by (rule conjunct1)
  with p t show ?thesis by (intro exI[of _ c]) simp
qed

text \<open>
  On ASCII text without oversized numbers the condition parser fails only with its own
  \<open>ConditionError\<close>, the one exception its callers handle.
\<close>

theorem condition_parser_own_errors:
  assumes "list_all ordinary_token (split_ws s)" and "parse_condition (Some s) = Inl e"
  shows "\<exists>r. e = ConditionError r"
proof (rule parse_tokens_ordinary)
  show "\<forall>t \<in> set (split_ws s). ordinary_token t" using assms(1) by (simp only: list_all_iff)
  from assms(2) show "parse_tokens (split_ws s) = Inl e"
    by (cases "strip s = []") (simp_all add: parse_condition_def bindE_eq_Inl_iff)
qed

theorem condition_parser_own_errors_witness:
  "parse_condition (Some ''a > 1 and b exists'') \<noteq> Inr None \<and>
   (\<exists>e r. parse_condition (Some ''a > 1 and b exists'') = Inl e \<and> e = ConditionError r)"
proof -
  have o: "list_all ordinary_token (split_ws ''a > 1 and b exists'')" by code_simp
  have "case parse_condition (Some ''a > 1 and b exists'') of Inl _ \<Rightarrow> True | Inr _ \<Rightarrow> False" by code_simp
  then obtain e where e: "parse_condition (Some ''a > 1 and b exists'') = Inl e" by (auto split: sum.splits)
  from condition_parser_own_errors[OF o e] e show ?thesis by auto
qed

text \<open>
  C37: Instants survive their text. The ISO text of every epoch millisecond that has one encodes
  back to the same millisecond, and every text that encodes is instant-shaped and within 64 bits.
\<close>

theorem instant_roundtrip:
  assumes "decode_instant ms = Inr t"
  shows "encode_instant t = Inr ms \<and> is_instant_text t \<and> looks_like_instant t \<and> in_int64 ms"
  using decode_encode[OF assms] encode_accepts encode_range by blast

theorem instant_roundtrip_witness:
  "decode_instant (-1) = Inr ''1969-12-31T23:59:59.999Z'' \<and> encode_instant ''1969-12-31T23:59:59.999Z'' = Inr (-1)"
proof
  show d: "decode_instant (-1) = Inr ''1969-12-31T23:59:59.999Z''" by code_simp
  from instant_roundtrip[OF d] show "encode_instant ''1969-12-31T23:59:59.999Z'' = Inr (-1)" by blast
qed

end
