(* ===== verification/WebProps.thy ===== *)
theory WebProps
  imports Web GrammarProps
begin

text \<open>Names in paths, entity tags, and pages that cover a list.\<close>

section \<open>Slugs\<close>

lemma words_slug:
  "cur \<noteq> [] \<Longrightarrow> \<exists>w ws. pascal_words cur cs = (cur @ w) # ws \<and>
     slug_from (Some (last cur)) cs = str_lower w @ concat (map (\<lambda>v. CHR ''-'' # str_lower v) ws)"
proof (induction cs arbitrary: cur)
  case Nil then show ?case by (simp add: str_lower_def)
next
  case (Cons c cs)
  show ?case
  proof (cases "starts_word cur c cs")
    case True
    obtain w ws where w: "pascal_words [c] cs = ([c] @ w) # ws"
      "slug_from (Some c) cs = str_lower w @ concat (map (\<lambda>v. CHR ''-'' # str_lower v) ws)"
      using Cons.IH[of "[c]"] by auto
    have "slug_from (Some (last cur)) (c # cs) = str_lower [] @ concat (map (\<lambda>v. CHR ''-'' # str_lower v) (([c] @ w) # ws))"
      using True w(2) by (simp add: starts_word_def str_lower_def)
    moreover have "pascal_words cur (c # cs) = (cur @ []) # ([c] @ w) # ws" using True w(1) by simp
    ultimately show ?thesis by blast
  next
    case False
    obtain w ws where w: "pascal_words (cur @ [c]) cs = ((cur @ [c]) @ w) # ws"
      "slug_from (Some c) cs = str_lower w @ concat (map (\<lambda>v. CHR ''-'' # str_lower v) ws)"
      using Cons.IH[of "cur @ [c]"] by auto
    have "slug_from (Some (last cur)) (c # cs) = str_lower ([c] @ w) @ concat (map (\<lambda>v. CHR ''-'' # str_lower v) ws)"
      using False w(2) Cons.prems by (auto simp: starts_word_def str_lower_def)
    moreover have "pascal_words cur (c # cs) = (cur @ [c] @ w) # ws" using False w(1) by simp
    ultimately show ?thesis by blast
  qed
qed

lemma join_dash: "join ''-'' (w # ws) = w @ concat (map (\<lambda>v. CHR ''-'' # v) ws)"
  by (induction ws arbitrary: w) simp_all

text \<open>
  A node's id and its URL say the same words. The loop \<open>_slug\<close> runs over a name, deciding character by
  character where a word begins, writes exactly the words the loop of \<open>split_pascal\<close> finds.
\<close>

theorem slug_joins_words: "slug name = join ''-'' (split_pascal name)"
proof (cases name)
  case Nil then show ?thesis by (simp add: slug_def split_pascal_def)
next
  case (Cons c cs)
  obtain w ws where "pascal_words [c] cs = ([c] @ w) # ws"
    "slug_from (Some c) cs = str_lower w @ concat (map (\<lambda>v. CHR ''-'' # str_lower v) ws)"
    using words_slug[of "[c]" cs] by auto
  moreover have "\<not> starts_word [] c cs" by (simp add: starts_word_def)
  ultimately show ?thesis
    by (simp add: Cons slug_def split_pascal_def join_dash str_lower_def comp_def)
qed

section \<open>Entity tags\<close>

lemma strip_ends: "\<not> p c \<Longrightarrow> \<not> p d \<Longrightarrow> strip_by p (c # s @ [d]) = c # s @ [d]"
  by (simp add: strip_by_def)

lemma tag_ends: "\<not> is_space (CHR ''W'')" "\<not> is_space dquote" "dquote \<noteq> CHR ''W''"
  by code_simp+

lemma parse_quoted:
  "parse_if_match ([dquote] @ ds @ [dquote]) = (if str_isdigit ds then bindE (int_of_isdigit ds) (\<lambda>n. Inr (Some n)) else Inr None)"
proof -
  have "strip ([dquote] @ ds @ [dquote]) = [dquote] @ ds @ [dquote]" using strip_ends[where p = is_space, OF tag_ends(2) tag_ends(2)] by (simp add: strip_def)
  then show ?thesis by (simp add: parse_if_match_def Let_def tag_ends(3))
qed

lemma parse_weak: "parse_if_match (''W/'' @ [dquote] @ ds @ [dquote]) = parse_if_match ([dquote] @ ds @ [dquote])"
proof -
  have "strip (''W/'' @ [dquote] @ ds @ [dquote]) = ''W/'' @ [dquote] @ ds @ [dquote]"
    using strip_ends[where p = is_space, OF tag_ends(1,2), of "''/'' @ [dquote] @ ds"] by (simp add: strip_def)
  then have "parse_if_match (''W/'' @ [dquote] @ ds @ [dquote]) =
      (if str_isdigit ds then bindE (int_of_isdigit ds) (\<lambda>n. Inr (Some n)) else Inr None)"
    by (simp add: parse_if_match_def Let_def)
  then show ?thesis by (simp only: parse_quoted)
qed

text \<open>
  A client that sends back the tag it was given, weak or strong, names the version the row was read at,
  so long as the version has at most 19 digits.
\<close>

theorem etag_round_trip:
  assumes "v < 10 ^ 19"
  shows "parse_if_match (etag_value v) = Inr (Some v) \<and> parse_if_match (drop 2 (etag_value v)) = Inr (Some v)"
proof -
  have "parse_if_match ([dquote] @ show_nat v @ [dquote]) = Inr (Some v)"
    using int_of_digits_show[OF assms] by (simp only: parse_quoted show_nat_isdigit if_True) (simp add: int_of_isdigit_def)
  then show ?thesis using parse_weak[of "show_nat v"] by (simp add: etag_value_def)
qed

theorem etag_round_trip_witness:
  "parse_if_match (etag_value 12) = Inr (Some 12) \<and> parse_if_match (drop 2 (etag_value 12)) = Inr (Some 12)"
  by (rule etag_round_trip) simp

lemma superscript_tag:
  assumes "str_isdigit ds" and "\<not> list_all is_decimal_c ds"
  shows "parse_if_match ([dquote] @ ds @ [dquote]) = Inl PyValueError"
  using assms by (simp only: parse_quoted if_True) (simp add: int_of_isdigit_def int_of_digits_def)

section \<open>Pages\<close>

text \<open>A client that follows the cursors: the pages it sees, from the token it holds; \<open>None\<close> where a request is refused.\<close>

fun pages :: "nat \<Rightarrow> json_lib \<Rightarrow> row list \<Rightarrow> string \<Rightarrow> string \<Rightarrow> nat \<Rightarrow> string option \<Rightarrow> row list list option" where
  "pages 0 lib rows field e limit token = None"
| "pages (Suc n) lib rows field e limit token =
     (case (case token of None \<Rightarrow> Some None | Some t \<Rightarrow> map_option Some (decode_cursor lib t)) of
        None \<Rightarrow> None
      | Some after \<Rightarrow>
          (case paginate lib rows field e after limit of
             None \<Rightarrow> None
           | Some (page, None) \<Rightarrow> Some [page]
           | Some (page, Some t) \<Rightarrow> map_option (Cons page) (pages n lib rows field e limit (Some t))))"

declare pages.simps [simp del]

lemmas page_step = pages.simps(2)

text \<open>Rows in the order of the list: each comes after those before it, and after none of the others.\<close>

definition listed :: "string \<Rightarrow> string \<Rightarrow> row list \<Rightarrow> bool" where
  "listed e field rows \<longleftrightarrow>
     sorted_wrt (\<lambda>r s. key_after (row_pos e field s) (row_pos e field r) = Some True \<and>
       key_after (row_pos e field r) (row_pos e field s) = Some False) rows \<and>
     (\<forall>r \<in> set rows. key_after (row_pos e field r) (row_pos e field r) = Some False)"

definition cursor_ok :: "json_lib \<Rightarrow> string \<Rightarrow> string \<Rightarrow> row \<Rightarrow> bool" where
  "cursor_ok lib e field r \<longleftrightarrow>
     (let d = PDict [(''v'', pget r field), (''k'', PStr (row_key e r))] in byte_list (js_dump lib d) \<and> js_load lib (js_dump lib d) = Some d)"

lemma cursor_round_trip:
  assumes "cursor_ok lib e field r"
  shows "decode_cursor lib (encode_cursor lib (pget r field) (PStr (row_key e r))) = Some (pget r field, PStr (row_key e r))"
  using assms by (simp add: cursor_ok_def encode_cursor_def decode_cursor_def b64u_round_trip Let_def dhas_def pget_def)

lemma rows_after_none: "(\<And>r. r \<in> set xs \<Longrightarrow> f r = Some False) \<Longrightarrow> rows_after f (xs @ ys) = rows_after f ys"
  by (induction xs) (simp_all add: option.map_id0[unfolded id_def])

lemma rows_after_all: "(\<And>r. r \<in> set ys \<Longrightarrow> f r = Some True) \<Longrightarrow> rows_after f ys = Some ys"
  by (induction ys) simp_all

lemma rows_after_row:
  assumes "listed e field (xs @ r # ys)"
  shows "rows_after (\<lambda>s. key_after (row_pos e field s) (page_key (pget r field) (PStr (row_key e r)))) (xs @ r # ys) = Some ys"
proof -
  let ?f = "\<lambda>s. key_after (row_pos e field s) (row_pos e field r)"
  have "rows_after ?f ((xs @ [r]) @ ys) = rows_after ?f ys"
    using assms by (intro rows_after_none) (auto simp: listed_def sorted_wrt_append)
  also have "... = Some ys"
    using assms by (intro rows_after_all) (auto simp: listed_def sorted_wrt_append)
  finally show ?thesis by (simp add: row_pos_def)
qed

lemma pages_from:
  assumes "listed e field (xs @ r # ys)" and "\<forall>s \<in> set (xs @ r # ys). cursor_ok lib e field s" and "0 < limit" and "length ys \<le> n"
  shows "\<exists>ps. pages (Suc n) lib (xs @ r # ys) field e limit (Some (encode_cursor lib (pget r field) (PStr (row_key e r)))) = Some ps \<and>
    concat ps = ys \<and> list_all (\<lambda>p. length p \<le> limit) ps \<and> list_all (\<lambda>p. length p = limit) (butlast ps)"
  using assms
proof (induction n arbitrary: xs r ys)
  case 0
  then have c: "cursor_ok lib e field r" and ys: "ys = []" by auto
  have "rows_after (\<lambda>s. key_after (row_pos e field s) (page_key (pget r field) (PStr (row_key e r)))) (xs @ [r]) = Some []"
    using rows_after_row[of e field xs r "[]"] 0 by simp
  then show ?case using 0 by (simp add: page_step ys cursor_round_trip[OF c] paginate_def Let_def)
next
  case (Suc n)
  have c: "cursor_ok lib e field r" using Suc.prems(2) by simp
  note after = rows_after_row[OF Suc.prems(1)]
  show ?case
  proof (cases "limit < length ys")
    case False
    then show ?thesis by (simp add: page_step cursor_round_trip[OF c] paginate_def after Let_def)
  next
    case True
    let ?page = "take limit ys"
    let ?l = "last ?page"
    have ne: "?page \<noteq> []" using True Suc.prems(3) by (cases ys) auto
    have split: "xs @ r # ys = (xs @ r # butlast ?page) @ ?l # drop limit ys"
      using append_butlast_last_id[OF ne] append_take_drop_id[of limit ys] by (metis append.assoc append_Cons append_Nil)
    have "length (drop limit ys) \<le> n" using Suc.prems(3,4) by simp
    then obtain ps where ps: "pages (Suc n) lib (xs @ r # ys) field e limit (Some (encode_cursor lib (pget ?l field) (PStr (row_key e ?l)))) = Some ps"
      "concat ps = drop limit ys" "list_all (\<lambda>p. length p \<le> limit) ps" "list_all (\<lambda>p. length p = limit) (butlast ps)"
      using Suc.IH[of "xs @ r # butlast ?page" ?l "drop limit ys"] Suc.prems True unfolding split[symmetric] by auto
    have "pages (Suc (Suc n)) lib (xs @ r # ys) field e limit (Some (encode_cursor lib (pget r field) (PStr (row_key e r)))) = Some (?page # ps)"
      using ps(1) True by (subst page_step) (simp add: cursor_round_trip[OF c] paginate_def after Let_def)
    moreover have "concat (?page # ps) = ys" using ps(2) by simp
    moreover have "list_all (\<lambda>p. length p = limit) (butlast (?page # ps))" using ps(4) True by (cases ps) auto
    moreover have "list_all (\<lambda>p. length p \<le> limit) (?page # ps)" using ps(3) by simp
    ultimately show ?thesis by blast
  qed
qed

text \<open>
  C22: the pages cover the list. A client that starts without a cursor and follows the cursors it is given sees every
  row once, in order, in pages that are all full but the last, and gets its last page after at most one
  request per row and one more. The rows must be listed by the field and then by their keys.
\<close>

theorem pages_cover_rows:
  assumes "listed e field rows" and "\<forall>r \<in> set rows. cursor_ok lib e field r" and "0 < limit" and "length rows \<le> n"
  shows "\<exists>ps. pages (Suc n) lib rows field e limit None = Some ps \<and> concat ps = rows \<and>
    list_all (\<lambda>p. length p \<le> limit) ps \<and> list_all (\<lambda>p. length p = limit) (butlast ps)"
proof (cases "limit < length rows")
  case False
  then show ?thesis by (simp add: page_step paginate_def Let_def)
next
  case True
  let ?page = "take limit rows"
  let ?l = "last ?page"
  have ne: "?page \<noteq> []" using True assms(3) by (cases rows) auto
  have split: "rows = butlast ?page @ ?l # drop limit rows"
    using append_butlast_last_id[OF ne] append_take_drop_id[of limit rows] by (metis append.assoc append_Cons append_Nil)
  obtain m where n: "n = Suc m" using True assms(4) by (cases n) auto
  have "length (drop limit rows) \<le> m" using assms(3,4) n by simp
  then obtain ps where ps: "pages n lib rows field e limit (Some (encode_cursor lib (pget ?l field) (PStr (row_key e ?l)))) = Some ps"
    "concat ps = drop limit rows" "list_all (\<lambda>p. length p \<le> limit) ps" "list_all (\<lambda>p. length p = limit) (butlast ps)"
    using pages_from[of e field "butlast ?page" ?l "drop limit rows" lib limit m] assms unfolding split[symmetric] n by auto
  have "pages (Suc n) lib rows field e limit None = Some (?page # ps)"
    using ps(1) True by (subst page_step) (simp add: paginate_def Let_def)
  moreover have "concat (?page # ps) = rows" using ps(2) by simp
  moreover have "list_all (\<lambda>p. length p = limit) (butlast (?page # ps))" using ps(4) True by (cases ps) auto
  moreover have "list_all (\<lambda>p. length p \<le> limit) (?page # ps)" using ps(3) by simp
  ultimately show ?thesis by blast
qed

definition small_rows :: "row list" where
  "small_rows = [[(''id'', PStr ''1''), (''n'', PStr ''a'')], [(''id'', PStr ''2''), (''n'', PStr ''a'')], [(''id'', PStr ''3'')]]"

text \<open>A JSON library that knows the cursors of these rows.\<close>

definition small_cursors :: "pyval list" where
  "small_cursors = map (\<lambda>r. PDict [(''v'', pget r ''n''), (''k'', PStr (row_key ''e'' r))]) small_rows"

definition small_json :: json_lib where
  "small_json = \<lparr>js_dump = (\<lambda>v. if v = small_cursors ! 0 then [0] else if v = small_cursors ! 1 then [1] else [2]),
     js_load = (\<lambda>bs. case bs of [n] \<Rightarrow> if n < 3 then Some (small_cursors ! n) else None | _ \<Rightarrow> None)\<rparr>"

theorem pages_cover_rows_witness:
  "\<exists>ps. pages 4 small_json small_rows ''n'' ''e'' 2 None = Some ps \<and> concat ps = small_rows"
proof -
  have "listed ''e'' ''n'' small_rows" by code_simp
  moreover have "\<forall>r \<in> set small_rows. cursor_ok small_json ''e'' ''n'' r" by code_simp
  ultimately show ?thesis using pages_cover_rows[of "''e''" "''n''" small_rows small_json 2 3] by (auto simp: small_rows_def)
qed

end
