(* ===== verification/ServeProps.thy ===== *)
theory ServeProps
  imports Programs TokenProps WebProps
begin

text \<open>
  Requests: a key is answered from its first run, a precondition decides before anything runs, a guarded route
  needs a token, and a delivery that failed for now can be delivered again.
\<close>

section \<open>Claims around a run\<close>

lemma settled_row_precondition:
  assumes "claims_settled cl s"
  shows "claims_settled cl (snd (row_precondition v e key s))"
  using settled_execute[OF assms, of e "''read''" key]
  by (auto simp: row_precondition_def split: prod.splits sum.splits sql_answer.splits option.splits)

lemma settled_if_match: "claims_settled cl s \<Longrightarrow> claims_settled cl (snd (check_if_match app wid p c m s))"
  by (simp add: check_if_match_def settled_row_precondition split: sum.split option.split prod.split run_exc.split)

lemma settled_finish:
  assumes "claims_settled cl s" and "dget cl (wid, key) = Some row"
  shows "claims_settled (dset (wid, key) (row\<lparr>cl_status := ''done'', cl_http := Some st, cl_body := Some b\<rparr>) cl)
    (snd (idempotency_finish wid key st b s))"
proof (cases s)
  case (Pair db c)
  then have "db_claims db = cl" using assms(1) by (simp add: claims_settled_def)
  then show ?thesis
    using Pair assms(2) settled_commit[of "db\<lparr>db_claims := dset (wid, key) (row\<lparr>cl_status := ''done'', cl_http := Some st, cl_body := Some b\<rparr>) cl\<rparr>" c]
    by (simp add: idempotency_finish_def Let_def)
qed

text \<open>What a first request leaves of its claim.\<close>

abbreviation started_claim :: "int \<Rightarrow> claim_row" where
  "started_claim now \<equiv> \<lparr>cl_status = ''in-progress'', cl_http = None, cl_body = None, cl_created = now\<rparr>"

definition left_by :: "int \<Rightarrow> (http_exc + http_response) \<Rightarrow> claim_row" where
  "left_by now r =
     (case r of
        Inr x \<Rightarrow> if x = refused 500 ''workflow-failed'' then started_claim now
          else \<lparr>cl_status = ''done'', cl_http = Some (rs_status x), cl_body = Some (rs_body x), cl_created = now\<rparr>
      | Inl _ \<Rightarrow> started_claim now)"

lemma outcome_not_raised: "outcome_response (map_result r) r \<noteq> refused 500 ''workflow-failed''"
  by (simp add: map_result_def outcome_response_def problem_response_def problem_def)

lemma precondition_not_raised:
  "fst (check_if_match app wid p c m s) = Inr (Some r) \<Longrightarrow> r \<noteq> refused 500 ''workflow-failed''"
  by (auto simp: check_if_match_def row_precondition_def problem_response_def split: sum.splits option.splits prod.splits run_exc.splits sql_answer.splits if_split_asm)

lemma respond_claimed_leaves:
  assumes "claims_settled cl s" and "dget cl (wid, k) = Some (started_claim now)"
    and "respond_claimed app (runner_of w) True wid p c k m s = (r, s')"
  shows "dget (db_claims (sql_close s')) (wid, k) = Some (left_by now r)"
proof -
  let ?pre = "case m of None \<Rightarrow> (Inr None, s) | Some m \<Rightarrow> check_if_match app wid p c m s"
  obtain x s1 where pre: "?pre = (x, s1)" by (rule prod.exhaust)
  have s1: "claims_settled cl s1"
    using pre assms(1) settled_if_match[OF assms(1), of app wid p c] by (cases m) (auto, metis snd_conv)
  have fin: "dget (db_claims (sql_close s')) (wid, k) = Some (left_by now (Inr y))"
    if "(r, s') = finish_claim True wid k y t" "claims_settled cl t" "y \<noteq> refused 500 ''workflow-failed''" for y t
    using that settled_close[OF settled_finish[OF that(2) assms(2)]] by (simp add: finish_claim_def left_by_def dget_dset)
  show ?thesis
  proof (cases x)
    case (Inl e)
    then have "r = Inl e" "s' = s1" using assms(3) pre by (simp_all add: respond_claimed_def)
    then show ?thesis using settled_close[OF s1] assms(2) by (simp add: left_by_def)
  next
    case (Inr o1)
    show ?thesis
    proof (cases o1)
      case (Some y)
      then have r: "(r, s') = finish_claim True wid k y s1" using assms(3) pre Inr by (simp add: respond_claimed_def)
      have "y \<noteq> refused 500 ''workflow-failed''"
      proof (cases m)
        case None
        with pre Inr Some show ?thesis by simp
      next
        case m: (Some a)
        with pre Inr Some have "fst (check_if_match app wid p c a s) = Inr (Some y)" by simp
        then show ?thesis by (rule precondition_not_raised)
      qed
      then have "dget (db_claims (sql_close s')) (wid, k) = Some (left_by now (Inr y))" using fin r s1 by blast
      moreover have "r = Inr y" using r by (simp add: finish_claim_def)
      ultimately show ?thesis by simp
    next
      case None
      obtain y s2 where run: "runner_of w wid p c s1 = (y, s2)" by (rule prod.exhaust)
      have s2: "claims_settled cl s2" using settled_run[OF s1 run] .
      show ?thesis
      proof (cases y)
        case None
        then have "r = Inr (refused 500 ''workflow-failed'')" "s' = s2"
          using assms(3) pre Inr \<open>o1 = None\<close> run by (simp_all add: respond_claimed_def)
        then show ?thesis using settled_close[OF s2] assms(2) by (simp add: left_by_def)
      next
        case (Some out)
        then have r: "(r, s') = finish_claim True wid k (outcome_response (map_result out) out) s2"
          using assms(3) pre Inr None run by (simp add: respond_claimed_def)
        moreover have "r = Inr (outcome_response (map_result out) out)" using r by (simp add: finish_claim_def)
        ultimately show ?thesis using fin s2 outcome_not_raised by blast
      qed
    qed
  qed
qed

text \<open>
  C6: within its lifetime an idempotency key is not run a second time. On a driver that keeps claims, let a first
  request come under a key that has no claim, with any workflow behind it: any program of repository calls, with any
  payload, caller and precondition. A second request with the same key, after the first has been answered and within the
  lifetime of the claim, whatever its payload, caller or precondition, leaves the file as it is and does not run
  the workflow. It is answered exactly what the first was, or, when the first raised an exception, that a request
  is running.
\<close>

theorem same_key_runs_once:
  assumes "ap_repo app = ClaimingDriver" and "dget (db_claims db) (wid, k) = None"
    and "run_request app (runner_of w) t0 wid p c (Some k) m db = (r, db1)" and "t - t0 < ap_ttl app"
  shows "run_request app run' t wid p' c' (Some k) m' db1 =
    (case r of
       Inr x \<Rightarrow> if x = refused 500 ''workflow-failed'' then Inr (refused 409 ''idempotency-in-progress'')
         else Inr (replay (Some (rs_status x)) (Some (rs_body x)))
     | Inl _ \<Rightarrow> Inr (refused 409 ''idempotency-in-progress''), db1)"
proof -
  let ?db = "snd (claim_insert (wid, k) t0 db)"
  have start: "idempotency_begin wid k t0 (ap_ttl app) (db, new_conn) = (Inr Started, ?db, commit_now ?db new_conn)"
    using assms(2) by (simp add: idempotency_begin_def claim_select_def claim_insert_def dhas_map_of Let_def)
  obtain s' where resp: "respond_claimed app (runner_of w) True wid p c k m (?db, commit_now ?db new_conn) = (r, s')" "db1 = sql_close s'"
    using assms(1,3) start by (auto simp: run_request_def respond_def split: prod.splits)
  have "dget (db_claims ?db) (wid, k) = Some (started_claim t0)"
    using assms(2) by (simp add: claim_insert_def dhas_map_of dget_dset)
  then have "dget (db_claims db1) (wid, k) = Some (left_by t0 r)"
    using respond_claimed_leaves[OF settled_commit _ resp(1)] resp(2) by simp
  then show ?thesis
    using assms(1,4)
    by (auto simp: run_request_def respond_def idempotency_begin_def claim_select_def left_by_def sql_close_def new_conn_def split: sum.split)
qed

text \<open>A workflow that creates a row in a transaction and answers what it was asked.\<close>

definition create_run :: runner where
  "create_run = runner_of (\<lambda>wid p c. Ask AskBegin (\<lambda>_. Ask (AskExecute ''e'' ''create'' ''k'') (\<lambda>_. Ask AskCommit (\<lambda>_.
     Finish (Some \<lparr>oc_completed = True, oc_kind = None, oc_failed = [], oc_reason = [], oc_steps = [], oc_skipped = PList [],
       oc_body = PDict p\<rparr>)))))"

lemma create_run_answers:
  "fst (create_run wid p c s) =
     Some \<lparr>oc_completed = True, oc_kind = None, oc_failed = [], oc_reason = [], oc_steps = [], oc_skipped = PList [], oc_body = PDict p\<rparr>"
  by (simp add: create_run_def runner_of_def split_beta)

definition test_app :: app where
  "test_app = \<lparr>ap_doc = [], ap_depth = 9, ap_routes = [(''/s/w'', \<lparr>rt_kind = RWorkflow ''w'', rt_auth = True, rt_role = None\<rparr>)],
     ap_repo = ClaimingDriver, ap_ttl = 1000, ap_tokens = toy_lib, ap_provider = Some rotated_provider, ap_json = small_json,
     ap_text = (\<lambda>_. [])\<rparr>"

theorem same_key_runs_once_witness:
  "fst (run_request test_app create_run 5 ''w'' [(''n'', PInt 2)] None (Some ''k'') None
      (snd (run_request test_app create_run 0 ''w'' [(''n'', PInt 1)] None (Some ''k'') None empty_db))) =
    Inr (replay (Some 200) (Some (PDict [(''n'', PInt 1)])))"
proof -
  obtain r db1 where 1: "run_request test_app create_run 0 ''w'' [(''n'', PInt 1)] None (Some ''k'') None empty_db = (r, db1)"
    by (rule prod.exhaust)
  have "fst (run_request test_app create_run 0 ''w'' [(''n'', PInt 1)] None (Some ''k'') None empty_db) =
    Inr \<lparr>rs_status = 200, rs_body = PDict [(''n'', PInt 1)], rs_headers = []\<rparr>" by code_simp
  then have r: "r = Inr \<lparr>rs_status = 200, rs_body = PDict [(''n'', PInt 1)], rs_headers = []\<rparr>" using 1 by simp
  have "dget (db_claims empty_db) (''w'', ''k'') = None" "ap_repo test_app = ClaimingDriver" "5 - 0 < ap_ttl test_app"
    by (simp_all add: empty_db_def test_app_def)
  from same_key_runs_once[OF this(2,1) 1[unfolded create_run_def] this(3), of create_run "[(''n'', PInt 2)]" None None]
  show ?thesis by (simp add: 1 r problem_response_def)
qed

section \<open>Preconditions\<close>

lemma new_snapshot: "cn_snapshot new_conn = None"
  by (simp add: new_conn_def)

lemma read_fresh:
  "sql_execute e ''read'' key (db, new_conn) =
     (case dget (db_rows db) (e, key) of
        None \<Rightarrow> (Inr (RowFound None), db, new_conn)
      | Some r \<Rightarrow> (Inr (RowFound (Some (dr_payload r, 0))), db,
          new_conn\<lparr>cn_observed := [dr_version r], cn_bound := [((e, key), 0)]\<rparr>))"
  by (simp add: sql_execute_def sql_read_def read_row_def new_conn_def Let_def split: option.split)

lemma precondition_refuses:
  assumes "map_option dr_version (dget (db_rows db) (e, key)) \<noteq> Some v"
  shows "\<exists>c'. row_precondition v e key (db, new_conn) = (Inr (Some (refused 412 ''precondition-failed'')), db, c') \<and> cn_snapshot c' = None"
  using assms by (cases "dget (db_rows db) (e, key)") (simp_all add: row_precondition_def read_fresh new_snapshot)

lemma precondition_holds:
  assumes "map_option dr_version (dget (db_rows db) (e, key)) = Some v"
  shows "row_precondition v e key (db, new_conn) = (Inr None, db, snd (snd (sql_execute e ''read'' key (db, new_conn))))"
  using assms by (cases "dget (db_rows db) (e, key)") (simp_all add: row_precondition_def read_fresh)

text \<open>
  C23: \<open>If-Match\<close> decides before anything runs. For a workflow whose first read names its row by the request alone, a
  request with \<open>If-Match\<close> of another version than the stored one, or of a row that does not exist, is answered
  412 and changes nothing; with the stored version the workflow runs, on the state the request found.
\<close>

theorem if_match_decides:
  assumes "parse_if_match m = Inr (Some v)" and "ap_repo app = ClaimingDriver"
    and "repository_calls (ap_depth app) (ap_doc app) wid = Inr calls" and "List.find (\<lambda>(_, op). op = ''read'') calls = Some (e, op)"
    and "lookup_key_source (ap_depth app) (ap_doc app) wid e = Inr lookup" and "\<not> computed_key lookup"
    and "resolve_lookup_key e lookup \<lparr>sc_payload = p, sc_bindings = [], sc_caller = caller_view c, sc_response = None\<rparr> = Inr key"
  shows "run_request app run now wid p c None (Some m) db =
    (if map_option dr_version (dget (db_rows db) (e, key)) = Some v
     then let s = (db, snd (snd (sql_execute e ''read'' key (db, new_conn)))) in
       (case run wid p c s of
          (None, s) \<Rightarrow> (Inr (refused 500 ''workflow-failed''), sql_close s)
        | (Some r, s) \<Rightarrow> (Inr (outcome_response (map_result r) r), sql_close s))
     else (Inr (refused 412 ''precondition-failed''), db))"
proof -
  let ?c = "snd (snd (sql_execute e ''read'' key (db, new_conn)))"
  have pre: "check_if_match app wid p c m (db, new_conn) = row_precondition v e key (db, new_conn)"
    by (simp add: check_if_match_def assms)
  show ?thesis
  proof (cases "map_option dr_version (dget (db_rows db) (e, key)) = Some v")
    case False
    then obtain c' where "row_precondition v e key (db, new_conn) = (Inr (Some (refused 412 ''precondition-failed'')), db, c')"
      and "cn_snapshot c' = None"
      using precondition_refuses by blast
    then have "run_request app run now wid p c None (Some m) db = (Inr (refused 412 ''precondition-failed''), db)"
      by (simp add: run_request_def respond_def respond_claimed_def finish_claim_def pre sql_close_def)
    then show ?thesis by (simp only: if_not_P[OF False])
  next
    case True
    then have "row_precondition v e key (db, new_conn) = (Inr None, db, ?c)" by (rule precondition_holds)
    moreover obtain out s' where "run wid p c (db, ?c) = (out, s')" by (rule prod.exhaust)
    ultimately show ?thesis using True
      by (cases out) (simp_all add: run_request_def respond_def respond_claimed_def finish_claim_def pre Let_def)
  qed
qed

definition read_doc :: document where
  "read_doc = [(''w'', Workflow ''W'' [''s'']), (''s'', WorkflowStep ''S'' [''c'']), (''c'', Effect (RepositoryCall (ex_call ''e'' ''read'' None)))]"

definition one_row :: database where
  "one_row = fst (do_ops [OpExecute ''e'' ''create'' ''e#1''] (empty_db, new_conn))"

theorem if_match_decides_witness:
  "run_request (test_app\<lparr>ap_doc := read_doc\<rparr>) create_run 0 ''w'' [(''id'', PStr ''1'')] None None (Some (etag_value 1)) one_row =
     (Inr (refused 412 ''precondition-failed''), one_row)
   \<and> fst (run_request (test_app\<lparr>ap_doc := read_doc\<rparr>) create_run 0 ''w'' [(''id'', PStr ''1'')] None None (Some (etag_value 0)) one_row) =
     Inr \<lparr>rs_status = 200, rs_body = PDict [(''id'', PStr ''1'')], rs_headers = []\<rparr>"
proof -
  let ?app = "test_app\<lparr>ap_doc := read_doc\<rparr>"
  have m: "parse_if_match (etag_value 1) = Inr (Some 1)" "parse_if_match (etag_value 0) = Inr (Some 0)" by code_simp+
  have r: "ap_repo ?app = ClaimingDriver" by (simp add: test_app_def)
  have c: "repository_calls (ap_depth ?app) (ap_doc ?app) ''w'' = Inr [(''e'', ''read'')]"
    "lookup_key_source (ap_depth ?app) (ap_doc ?app) ''w'' ''e'' = Inr None" by code_simp+
  have f: "List.find (\<lambda>(_, op). op = ''read'') [(''e'', ''read'')] = Some (''e'', ''read'')" by simp
  have n: "\<not> computed_key None" by (simp add: computed_key_def)
  have k: "resolve_lookup_key ''e'' None \<lparr>sc_payload = [(''id'', PStr ''1'')], sc_bindings = [], sc_caller = caller_view None, sc_response = None\<rparr> = Inr ''e#1''"
    by code_simp
  have v: "map_option dr_version (dget (db_rows one_row) (''e'', ''e#1'')) = Some 0" by code_simp
  have "fst (create_run ''w'' [(''id'', PStr ''1'')] None s) =
    Some \<lparr>oc_completed = True, oc_kind = None, oc_failed = [], oc_reason = [], oc_steps = [], oc_skipped = PList [],
      oc_body = PDict [(''id'', PStr ''1'')]\<rparr>" for s by (rule create_run_answers)
  then obtain s' where run: "create_run ''w'' [(''id'', PStr ''1'')] None (one_row, snd (snd (sql_execute ''e'' ''read'' ''e#1'' (one_row, new_conn)))) =
      (Some \<lparr>oc_completed = True, oc_kind = None, oc_failed = [], oc_reason = [], oc_steps = [], oc_skipped = PList [],
        oc_body = PDict [(''id'', PStr ''1'')]\<rparr>, s')" by (metis prod.collapse)
  show ?thesis
    using if_match_decides[OF m(1) r c(1) f c(2) n k, of create_run 0 one_row]
      if_match_decides[OF m(2) r c(1) f c(2) n k, of create_run 0 one_row]
    by (simp add: v run outcome_response_def map_result_def)
qed

text \<open>
  A malformed \<open>If-Match\<close> wedges its key. A tag whose text is digits but not all decimal ones, such as a
  superscript two, is not answered as malformed: the handler raises \<open>ValueError\<close> after the key was claimed and
  before anything ran, and every repetition within the lifetime of the claim, with whatever tag, is told that
  a request is running.
\<close>

theorem superscript_tag_wedges_key:
  assumes "str_isdigit ds" and "\<not> list_all is_decimal_c ds" and "ap_repo app = ClaimingDriver" and "dget (db_claims db) (wid, k) = None"
    and "run_request app run t0 wid p c (Some k) (Some ([dquote] @ ds @ [dquote])) db = (r, db1)" and "t - t0 < ap_ttl app"
  shows "r = Inl (HttpRaised PyValueError) \<and> db_rows db1 = db_rows db \<and>
    run_request app run' t wid p' c' (Some k) m' db1 = (Inr (refused 409 ''idempotency-in-progress''), db1)"
proof -
  let ?db = "snd (claim_insert (wid, k) t0 db)"
  have start: "idempotency_begin wid k t0 (ap_ttl app) (db, new_conn) = (Inr Started, ?db, commit_now ?db new_conn)"
    using assms(4) by (simp add: idempotency_begin_def claim_select_def claim_insert_def dhas_map_of Let_def)
  have "check_if_match app wid p c ([dquote] @ ds @ [dquote]) s = (Inl (HttpRaised PyValueError), s)" for s
    unfolding check_if_match_def superscript_tag[OF assms(1,2)] by simp
  then have "respond app run t0 wid p c (Some k) (Some ([dquote] @ ds @ [dquote])) (db, new_conn) =
      (Inl (HttpRaised PyValueError), ?db, commit_now ?db new_conn)"
    using start assms(3) by (simp add: respond_def respond_claimed_def)
  then have r: "r = Inl (HttpRaised PyValueError)" and d: "db1 = ?db"
    using assms(5) by (auto simp: run_request_def sql_close_def commit_now_def new_conn_def)
  have "dget (db_claims db1) (wid, k) = Some (started_claim t0)" "db_rows db1 = db_rows db"
    using assms(4) by (simp_all add: d claim_insert_def dhas_map_of dget_dset)
  then show ?thesis using r assms(3,6)
    by (simp add: run_request_def respond_def idempotency_begin_def claim_select_def sql_close_def new_conn_def)
qed

theorem superscript_tag_wedges_key_witness:
  "fst (run_request test_app create_run 0 ''w'' [] None (Some ''k'') (Some [dquote, CHR 0xB2, dquote]) empty_db) = Inl (HttpRaised PyValueError)"
proof -
  obtain r db1 where 1: "run_request test_app create_run 0 ''w'' [] None (Some ''k'') (Some ([dquote] @ [CHR 0xB2] @ [dquote])) empty_db = (r, db1)"
    by (rule prod.exhaust)
  have d: "str_isdigit [CHR 0xB2]" "\<not> list_all is_decimal_c [CHR 0xB2]" by code_simp+
  have "ap_repo test_app = ClaimingDriver" "dget (db_claims empty_db) (''w'', ''k'') = None" "1 - 0 < ap_ttl test_app"
    by (simp_all add: test_app_def empty_db_def)
  from superscript_tag_wedges_key[OF d this(1,2) 1 this(3), of create_run "[]" None None] show ?thesis using 1 by simp
qed

section \<open>Guarded routes\<close>

text \<open>
  A guarded route does nothing without a token. If a POST to a route of a service that declares
  \<open>security jwt\<close> changes anything in the store, the request carried a bearer token that verifies for the
  service's path at the time, and the caller has the role the route demands.
\<close>

theorem guarded_post_needs_token:
  assumes "dget (ap_routes app) (raw_path rq) = Some rt" and "rt_auth rt" and "ap_provider app = Some p"
    and "snd (do_post app run now rq db) \<noteq> db"
  shows "\<exists>token audience claims. (\<exists>header. rq_auth rq = Some header \<and> token = strip (snd (snd (partition_at CHR '' '' header)))) \<and>
    audience_for_path (rq_path rq) = Some audience \<and> verify (ap_tokens app) p (now div 1000) token audience = Inr claims \<and>
    (\<forall>role. rt_role rt = Some role \<and> role \<noteq> [] \<longrightarrow> caller_role claims = PStr role)"
proof -
  have "\<exists>c. check_auth app (now div 1000) rt rq = Inr c"
    using assms(1,4) by (auto simp: do_post_def Let_def split: route_kind.splits sum.splits)
  then obtain header claims where h: "rq_auth rq = Some header" "token_accepted app (now div 1000) header (rq_path rq) = Some claims"
    "role_accepted rt claims"
    using assms(2,3) by (auto simp: check_auth_def split: option.splits if_splits)
  then obtain audience where a: "audience_for_path (rq_path rq) = Some audience"
    "verify (ap_tokens app) p (now div 1000) (strip (snd (snd (partition_at CHR '' '' header)))) audience = Inr claims"
    using assms(3) by (auto simp: token_accepted_def split: prod.splits option.splits sum.splits if_splits)
  moreover have "\<forall>role. rt_role rt = Some role \<and> role \<noteq> [] \<longrightarrow> caller_role claims = PStr role"
    using h(3) by (auto simp: role_accepted_def)
  ultimately show ?thesis using h(1) by blast
qed

definition guarded_app :: app where
  "guarded_app = test_app\<lparr>ap_routes := [(''/a/w'', \<lparr>rt_kind = RWorkflow ''w'', rt_auth = True, rt_role = None\<rparr>)]\<rparr>"

definition bearer_request :: request where
  "bearer_request = \<lparr>rq_path = ''/a/w'', rq_query = [], rq_params = [],
     rq_auth = (case issue toy_lib old_provider 1000 ''j'' ''u'' ''a'' None None of Inr t \<Rightarrow> Some (''Bearer '' @ t) | Inl _ \<Rightarrow> None),
     rq_length = None, rq_input = [], rq_key = None, rq_if_match = None\<rparr>"

theorem guarded_post_needs_token_witness:
  "\<exists>claims token. verify toy_lib rotated_provider 1001 token ''a'' = Inr claims \<and>
     rq_auth bearer_request \<noteq> None \<and> snd (do_post guarded_app create_run 1001000 bearer_request empty_db) \<noteq> empty_db"
proof -
  have r: "dget (ap_routes guarded_app) (raw_path bearer_request) = Some \<lparr>rt_kind = RWorkflow ''w'', rt_auth = True, rt_role = None\<rparr>"
    "ap_provider guarded_app = Some rotated_provider" "ap_tokens guarded_app = toy_lib"
    by (simp_all add: guarded_app_def test_app_def bearer_request_def raw_path_def)
  have d: "snd (do_post guarded_app create_run 1001000 bearer_request empty_db) \<noteq> empty_db" by code_simp
  obtain token audience claims where t: "rq_auth bearer_request \<noteq> None" "audience_for_path ''/a/w'' = Some audience"
    "verify toy_lib rotated_provider 1001 token audience = Inr claims"
    using guarded_post_needs_token[OF r(1) _ r(2) d] by (auto simp: r(3) bearer_request_def)
  have "audience_for_path ''/a/w'' = Some ''a''" by code_simp
  with t d show ?thesis by auto
qed

section \<open>Events\<close>

lemma consume_not_raised: "rs_status (outcome_response (map_consume_result r) r) \<in> {200, 422, 503}"
  by (simp add: map_consume_result_def outcome_response_def problem_response_def Let_def)

lemma release_forgets:
  "dget (db_claims (sql_close (snd (idempotency_release wid k s)))) (wid, k) = None"
  by (cases s) (simp add: idempotency_release_def claim_delete_def sql_close_def commit_now_def dget_ddel Let_def split: option.split)

lemma consume_leaves:
  assumes "claims_settled cl s" and "dget cl (wid, k) = Some (started_claim now)"
    and "consume_run app (runner_of w) True wid data c k s = (Inr r, s')"
  shows "dget (db_claims (sql_close s')) (wid, k) =
    (if rs_status r = 503 then None
     else Some \<lparr>cl_status = ''done'', cl_http = Some (rs_status r), cl_body = Some (rs_body r), cl_created = now\<rparr>)"
proof -
  obtain out t where run: "runner_of w wid data c s = (out, t)" by (rule prod.exhaust)
  have t: "claims_settled cl t" using settled_run[OF assms(1) run] .
  show ?thesis
  proof (cases out)
    case None
    then show ?thesis using assms(3) run
      by (auto simp: consume_run_def retry_later_def problem_response_def release_forgets)
  next
    case (Some o1)
    let ?r = "outcome_response (map_consume_result o1) o1"
    show ?thesis
    proof (cases "rs_status ?r = 503")
      case True
      then show ?thesis using assms(3) run Some by (auto simp: consume_run_def release_forgets Let_def)
    next
      case False
      then have "r = ?r" "s' = snd (idempotency_finish wid k (rs_status ?r) (rs_body ?r) t)"
        using assms(3) run Some by (auto simp: consume_run_def finish_claim_def Let_def)
      then show ?thesis using False settled_close[OF settled_finish[OF t assms(2)]] by (simp add: dget_dset)
    qed
  qed
qed

text \<open>
  C19: a delivery that failed for now can be delivered again, and one that was decided is not run again. On a driver
  that keeps claims, let a sound event whose id has no claim be delivered to a workflow: any program of
  repository calls. After a first delivery that was answered, the claim is gone if the answer was 503, so the event
  is as free to run as before; otherwise a second delivery within the lifetime of the claim is answered the status
  and body of the first, does not run, and leaves the file as it is.
\<close>

theorem redelivery_retries_or_replays:
  assumes "ap_repo app = ClaimingDriver" and "pget payload ''id'' = PStr k"
    and "envelope_fault payload = None" and "length (concat (map utf8_bytes k)) \<le> max_key_length"
    and "dget (db_claims db) (wid, k) = None" and "consume_event app (runner_of w) t0 wid payload c db = (Inr r, db1)" and "t - t0 < ap_ttl app"
  shows "if rs_status r = 503 then dget (db_claims db1) (wid, k) = None
    else consume_event app run' t wid payload c' db1 = (Inr (replay (Some (rs_status r)) (Some (rs_body r))), db1)"
proof -
  let ?db = "snd (claim_insert (wid, k) t0 db)"
  have start: "idempotency_begin wid k t0 (ap_ttl app) (db, new_conn) = (Inr Started, ?db, commit_now ?db new_conn)"
    using assms(5) by (simp add: idempotency_begin_def claim_select_def claim_insert_def dhas_map_of Let_def)
  let ?data = "case pget payload ''data'' of PDict d \<Rightarrow> d | _ \<Rightarrow> []"
  obtain s' where run: "consume_run app (runner_of w) True wid ?data c k (?db, commit_now ?db new_conn) = (Inr r, s')" "db1 = sql_close s'"
    using assms(1-4,6) start by (auto simp: consume_event_def Let_def split: prod.splits)
  have "dget (db_claims ?db) (wid, k) = Some (started_claim t0)"
    using assms(5) by (simp add: claim_insert_def dhas_map_of dget_dset)
  note left = consume_leaves[OF settled_commit this run(1), folded run(2)]
  show ?thesis
  proof (cases "rs_status r = 503")
    case True then show ?thesis using left by simp
  next
    case False
    then show ?thesis using left assms(1-4,7)
      by (simp add: consume_event_def idempotency_begin_def claim_select_def sql_close_def new_conn_def Let_def)
  qed
qed

text \<open>A workflow whose first run meets a fault of the network, and a sound one.\<close>

definition faulty_run :: runner where
  "faulty_run = runner_of (\<lambda>wid p c. Ask AskBegin (\<lambda>_. Ask AskRollback (\<lambda>_.
     Finish (Some \<lparr>oc_completed = False, oc_kind = None, oc_failed = ''s'', oc_reason = [], oc_steps = [(''s'', [''NetworkCall''])],
       oc_skipped = PList [], oc_body = PNone\<rparr>))))"

definition test_event :: row where
  "test_event = [(''specversion'', PStr ''1.0''), (''id'', PStr ''k''), (''source'', PStr ''x''), (''type'', PStr ''y'')]"

theorem redelivery_retries_or_replays_witness:
  "(case consume_event test_app faulty_run 0 ''w'' test_event None empty_db of
      (Inr r, db1) \<Rightarrow> rs_status r = 503 \<and> dget (db_claims db1) (''w'', ''k'') = None | _ \<Rightarrow> False) \<and>
   (case consume_event test_app create_run 0 ''w'' test_event None empty_db of
      (Inr r, db1) \<Rightarrow> consume_event test_app create_run 5 ''w'' test_event None db1 = (Inr (replay (Some 200) (Some (PDict []))), db1) | _ \<Rightarrow> False)"
proof -
  have a: "ap_repo test_app = ClaimingDriver" "5 - 0 < ap_ttl test_app" by (simp_all add: test_app_def)
  have k: "pget test_event ''id'' = PStr ''k''" "envelope_fault test_event = None" "length (concat (map utf8_bytes ''k'')) \<le> max_key_length"
    "dget (db_claims empty_db) (''w'', ''k'') = None" by code_simp+
  obtain x db1 where 1: "consume_event test_app faulty_run 0 ''w'' test_event None empty_db = (x, db1)" by (rule prod.exhaust)
  have "case fst (consume_event test_app faulty_run 0 ''w'' test_event None empty_db) of Inr r \<Rightarrow> rs_status r = 503 | Inl _ \<Rightarrow> False" by code_simp
  then obtain r where r: "x = Inr r" "rs_status r = 503" using 1 by (auto split: sum.splits)
  obtain y db2 where 2: "consume_event test_app create_run 0 ''w'' test_event None empty_db = (y, db2)" by (rule prod.exhaust)
  have "case fst (consume_event test_app create_run 0 ''w'' test_event None empty_db) of
    Inr r \<Rightarrow> rs_status r = 200 \<and> rs_body r = PDict [] | Inl _ \<Rightarrow> False" by code_simp
  then obtain q where q: "y = Inr q" "rs_status q = 200" "rs_body q = PDict []" using 2 by (auto split: sum.splits)
  show ?thesis
    using redelivery_retries_or_replays[OF a(1) k 1[unfolded r(1) faulty_run_def] a(2), of create_run None] r
      redelivery_retries_or_replays[OF a(1) k 2[unfolded q(1) create_run_def] a(2), of create_run None] q 1 2
    by simp
qed

end
