(* ===== verification/RouteProps.thy ===== *)
theory RouteProps
  imports Routes ServeProps LowerProps
begin

text \<open>The routes that are served: against the published contract, and against the security of their services.\<close>

section \<open>The contract\<close>

definition route_in :: "route \<Rightarrow> string list \<Rightarrow> bool" where
  "route_in r ms \<longleftrightarrow> (\<exists>m. served_methods (rt_kind r) = [m] \<and> m \<in> set ms)"

definition agree :: "(string, route) dict \<Rightarrow> path_methods \<Rightarrow> bool" where
  "agree routes paths \<longleftrightarrow> (\<forall>p. rel_option route_in (dget routes p) (dget paths p))"

lemma agree_set: "agree routes paths \<Longrightarrow> route_in r ms \<Longrightarrow> agree (dset p r routes) (dset p ms paths)"
  by (simp add: agree_def dget_dset)

lemma agree_get: "agree routes paths \<Longrightarrow> served_methods (rt_kind r) = [''get''] \<Longrightarrow> agree (dset p r routes) (add_get p paths)"
  unfolding add_get_def by (erule agree_set) (simp add: route_in_def)

lemma agree_fold:
  assumes "\<And>x routes paths. agree routes paths \<Longrightarrow> agree (f x routes) (g x paths)" and "agree routes paths"
  shows "agree (fold f xs routes) (fold g xs paths)"
  using assms(2) by (induction xs arbitrary: routes paths) (simp_all add: assms(1))

lemma agree_service:
  assumes "service_routes n ns k routes = Inr routes'" and "service_paths n ns k paths = Inr paths'" and "agree routes paths"
  shows "agree routes' paths'"
proof (cases "ln_node k")
  case (Service svc children cids)
  obtain auth role where sec: "service_security ns cids = (auth, role)" by (rule prod.exhaust)
  let ?add = "\<lambda>path kind routes. dset path \<lparr>rt_kind = kind, rt_auth = auth, rt_role = role\<rparr> routes"
  obtain cs es evs where parts: "mapE (service_child n ns) children = Inr cs"
    "mapE (\<lambda>e. bindE (name_at ns e) (\<lambda>nm. Inr (e, nm))) (child_entities cs) = Inr es" "subscribed ns (child_events cs) = Inr evs"
    and r: "routes' = fold (\<lambda>(i, nm). ?add (events_path svc nm) (RSubscribe i)) evs
       (fold (\<lambda>(e, nm). ?add (single_path svc nm) (RGetSingle e)) es
         (fold (\<lambda>c routes. case c of
             ChildWorkflow wid nm _ _ \<Rightarrow> ?add (under svc nm) (RWorkflow wid) routes
           | ChildExpose e nm f \<Rightarrow> ?add (under svc nm) (RGetList e f) routes
           | ChildOther \<Rightarrow> routes) cs routes))"
    using assms(1) Service sec by (auto simp: service_routes_def bindE_iffs Let_def)
  have p: "paths' = fold (\<lambda>(i, nm). add_get (events_path svc nm)) evs
       (fold (\<lambda>(e, nm). add_get (single_path svc nm)) es
         (fold (\<lambda>c paths. case c of
             ChildWorkflow wid nm _ _ \<Rightarrow> dset (under svc nm) [''post''] paths
           | ChildExpose e nm f \<Rightarrow> add_get (under svc nm) paths
           | ChildOther \<Rightarrow> paths) cs paths))"
    using assms(2) Service parts by (simp add: service_paths_def)
  have c: "agree (fold (\<lambda>c routes. case c of
             ChildWorkflow wid nm _ _ \<Rightarrow> ?add (under svc nm) (RWorkflow wid) routes
           | ChildExpose e nm f \<Rightarrow> ?add (under svc nm) (RGetList e f) routes
           | ChildOther \<Rightarrow> routes) cs routes)
       (fold (\<lambda>c paths. case c of
             ChildWorkflow wid nm _ _ \<Rightarrow> dset (under svc nm) [''post''] paths
           | ChildExpose e nm f \<Rightarrow> add_get (under svc nm) paths
           | ChildOther \<Rightarrow> paths) cs paths)"
    by (rule agree_fold[OF _ assms(3)]) (auto split: service_child.split intro!: agree_get agree_set simp: route_in_def)
  show ?thesis unfolding r p
    by (rule agree_fold; (rule agree_fold)?) (auto intro!: agree_get c)
qed (use assms in \<open>simp_all add: service_routes_def service_paths_def\<close>)

lemma agree_services:
  "foldE (service_routes n ns) ks routes = Inr routes' \<Longrightarrow> foldE (service_paths n ns) ks paths = Inr paths' \<Longrightarrow>
     agree routes paths \<Longrightarrow> agree routes' paths'"
  by (induction ks arbitrary: routes paths) (auto simp: bindE_iffs dest: agree_service)

lemma agree_keys: "agree routes paths \<Longrightarrow> fst ` set routes = fst ` set paths"
proof -
  assume a: "agree routes paths"
  have "dget routes p = None \<longleftrightarrow> dget paths p = None" for p
    using a by (auto simp: agree_def dest!: spec[of _ p] elim: option.rel_cases)
  then show ?thesis by (auto simp: map_of_eq_None_iff)
qed

text \<open>
  C24: the served paths are the published ones. Starting never fails for a mismatch with the OpenAPI document:
  both walks arrive at the same paths; and the route behind a path answers one of the methods the document gives it.
\<close>

theorem routes_match_contract:
  assumes "foldE (service_routes n ns) ns [] = Inr routes" and "contract_paths n ns = Inr paths"
  shows "build_routes n ns = Inr routes \<and> fst ` set routes = fst ` set paths \<and>
    (\<forall>p r ms. dget routes p = Some r \<and> dget paths p = Some ms \<longrightarrow> (\<exists>m. served_methods (rt_kind r) = [m] \<and> m \<in> set ms))"
proof -
  have "agree [] []" by (simp add: agree_def)
  then have a: "agree routes paths" using agree_services assms by (simp add: contract_paths_def)
  then have k: "fst ` set routes = fst ` set paths" by (rule agree_keys)
  then have b: "build_routes n ns = Inr routes" using assms by (simp add: build_routes_def)
  have "\<exists>m. served_methods (rt_kind r) = [m] \<and> m \<in> set ms" if "dget routes p = Some r" "dget paths p = Some ms" for p r ms
    using a that by (auto simp: agree_def route_in_def dest!: spec[of _ p])
  with b k show ?thesis by blast
qed

text \<open>Entities and workflows may share a name: here both are \<open>Orders\<close>.\<close>

definition orders_source :: string where
  "orders_source = join [CHR 0x0A]
     [''entity Orders'', ''    field'', ''        id UUID'', ''        n Integer'', ''service S'', ''    expose'', ''        list Orders by n'',
      ''workflow Orders'', ''    create orders'']"

definition orders_nodes :: "lnode list" where
  "orders_nodes = (case compile_one orders_source of Inr m \<Rightarrow> lm_nodes m | Inl _ \<Rightarrow> [])"

definition order_request :: request where
  "order_request = \<lparr>rq_path = ''/s/orders'', rq_query = [], rq_params = [], rq_auth = None, rq_length = None, rq_input = [],
     rq_key = None, rq_if_match = None\<rparr>"

lemma orders_table:
  "build_routes 9 orders_nodes = Inr
     [(''/s/orders'', \<lparr>rt_kind = RGetList ''entity.orders'' ''n'', rt_auth = False, rt_role = None\<rparr>),
      (''/s/orders/{id}'', \<lparr>rt_kind = RGetSingle ''entity.orders'', rt_auth = False, rt_role = None\<rparr>)]"
  by code_simp

lemma orders_contract:
  "contract_paths 9 orders_nodes = Inr [(''/s/orders'', [''post'', ''get'']), (''/s/orders/{id}'', [''get''])]"
  by code_simp

text \<open>
  A published operation can be shadowed. The compiler accepts a workflow and an exposed entity of one name; the document
  then publishes both a POST and a GET on their path, and the check at the start passes, but the list has
  replaced the workflow's route: every POST to it is answered 405, and the workflow can never be run.
\<close>

theorem shadowed_workflow:
  "\<exists>m routes paths. compile_one orders_source = Inr m \<and> build_routes 9 (lm_nodes m) = Inr routes \<and>
     contract_paths 9 (lm_nodes m) = Inr paths \<and> dget paths ''/s/orders'' = Some [''post'', ''get''] \<and>
     (\<forall>app run now db. ap_routes app = routes \<longrightarrow>
        do_post app run now order_request db = (Inr (problem_response 405 ''method-not-allowed'' [] [(''Allow'', ''GET'')]), db))"
proof (cases "compile_one orders_source")
  case (Inl e)
  then have "orders_nodes = []" by (simp add: orders_nodes_def)
  then show ?thesis using orders_table by (simp add: build_routes_def contract_paths_def)
next
  case (Inr m)
  then have n: "lm_nodes m = orders_nodes" by (simp add: orders_nodes_def)
  have "raw_path order_request = ''/s/orders''" by (simp add: raw_path_def order_request_def)
  then show ?thesis using Inr
    by (simp add: n orders_table orders_contract do_post_def)
qed

theorem shadowed_workflow_witness:
  "do_post (test_app\<lparr>ap_routes := case build_routes 9 orders_nodes of Inr r \<Rightarrow> r | Inl _ \<Rightarrow> []\<rparr>) create_run 0 order_request empty_db =
     (Inr (problem_response 405 ''method-not-allowed'' [] [(''Allow'', ''GET'')]), empty_db)"
proof -
  obtain m routes where m: "compile_one orders_source = Inr m" "build_routes 9 (lm_nodes m) = Inr routes"
    "\<forall>app run now db. ap_routes app = routes \<longrightarrow>
        do_post app run now order_request db = (Inr (problem_response 405 ''method-not-allowed'' [] [(''Allow'', ''GET'')]), db)"
    using shadowed_workflow by blast
  from m(1,2) show ?thesis by (intro m(3)[rule_format]) (simp add: orders_nodes_def)
qed

theorem routes_match_contract_witness:
  "build_routes 9 orders_nodes =
     Inr [(''/s/orders'', \<lparr>rt_kind = RGetList ''entity.orders'' ''n'', rt_auth = False, rt_role = None\<rparr>),
      (''/s/orders/{id}'', \<lparr>rt_kind = RGetSingle ''entity.orders'', rt_auth = False, rt_role = None\<rparr>)]"
proof -
  obtain routes where "foldE (service_routes 9 orders_nodes) orders_nodes [] = Inr routes"
    using orders_table by (auto simp: build_routes_def bindE_iffs)
  from routes_match_contract[OF this orders_contract] orders_table show ?thesis by simp
qed

section \<open>Security\<close>

definition workflows_of :: "lnode list \<Rightarrow> lnode \<Rightarrow> string set" where
  "workflows_of ns s = {c \<in> set (node_children (ln_node s)). \<exists>k nm cs. by_id ns c = Some k \<and> ln_node k = Workflow nm cs}"

definition secured_by :: "lnode list \<Rightarrow> route \<Rightarrow> lnode \<Rightarrow> bool" where
  "secured_by ns r s \<longleftrightarrow> s \<in> set ns \<and> service_node s \<and>
     (rt_auth r, rt_role r) = service_security ns (service_constraint_ids (ln_node s))"

definition route_secure :: "lnode list \<Rightarrow> route \<Rightarrow> bool" where
  "route_secure ns r \<longleftrightarrow>
     (case rt_kind r of
        RWorkflow w \<Rightarrow> \<exists>s. secured_by ns r s \<and> w \<in> workflows_of ns s
      | RConsume w _ \<Rightarrow> (\<exists>s. secured_by ns r s \<and> w \<in> workflows_of ns s) \<or> (\<forall>s \<in> set ns. service_node s \<longrightarrow> w \<notin> workflows_of ns s)
      | RHealth \<Rightarrow> True | RReady \<Rightarrow> True | RMetrics \<Rightarrow> True
      | _ \<Rightarrow> \<exists>s. secured_by ns r s)"

definition table_secure :: "lnode list \<Rightarrow> (string, route) dict \<Rightarrow> bool" where
  "table_secure ns t \<longleftrightarrow> (\<forall>(p, r) \<in> set t. route_secure ns r)"

lemma set_dset: "set (dset p r t) \<subseteq> insert (p, r) (set t)"
  by (induction t) auto

lemma secure_set: "table_secure ns t \<Longrightarrow> route_secure ns r \<Longrightarrow> table_secure ns (dset p r t)"
  unfolding table_secure_def using set_dset[of p r t] by fast

lemma secure_fold:
  assumes "table_secure ns t" and "\<And>x t. x \<in> set xs \<Longrightarrow> table_secure ns t \<Longrightarrow> table_secure ns (f x t)"
  shows "table_secure ns (fold f xs t)"
  using assms by (induction xs arbitrary: t) simp_all

lemma service_child_workflow:
  "service_child n ns c = Inr (ChildWorkflow w nm es evs) \<Longrightarrow> w = c \<and> (\<exists>k nm cs. by_id ns c = Some k \<and> ln_node k = Workflow nm cs)"
  by (auto simp: service_child_def node_at_def bindE_iffs split: option.splits node.splits if_splits)

lemma secure_service:
  assumes "service_routes n ns k t = Inr t'" and "k \<in> set ns" and "table_secure ns t"
  shows "table_secure ns t'"
proof (cases "ln_node k")
  case (Service svc children cids)
  obtain auth role where sec: "service_security ns cids = (auth, role)" by (rule prod.exhaust)
  let ?add = "\<lambda>path kind routes. dset path \<lparr>rt_kind = kind, rt_auth = auth, rt_role = role\<rparr> routes"
  obtain cs es evs where parts: "mapE (service_child n ns) children = Inr cs"
    and t': "t' = fold (\<lambda>(i, nm). ?add (events_path svc nm) (RSubscribe i)) evs
       (fold (\<lambda>(e, nm). ?add (single_path svc nm) (RGetSingle e)) es
         (fold (\<lambda>c routes. case c of
             ChildWorkflow wid nm _ _ \<Rightarrow> ?add (under svc nm) (RWorkflow wid) routes
           | ChildExpose e nm f \<Rightarrow> ?add (under svc nm) (RGetList e f) routes
           | ChildOther \<Rightarrow> routes) cs t))"
    using assms(1) Service sec by (auto simp: service_routes_def bindE_iffs Let_def)
  have s: "secured_by ns \<lparr>rt_kind = kind, rt_auth = auth, rt_role = role\<rparr> k" for kind
    using assms(2) Service sec by (simp add: secured_by_def service_node_def)
  have w: "w \<in> workflows_of ns k" if m: "ChildWorkflow w nm xs ys \<in> set cs" for w nm xs ys
  proof -
    obtain c where "c \<in> set children" "service_child n ns c = Inr (ChildWorkflow w nm xs ys)"
      using mapE_mem[OF parts m] by blast
    then show ?thesis using service_child_workflow[of n ns c w nm xs ys] Service by (simp add: workflows_of_def)
  qed
  have "route_secure ns \<lparr>rt_kind = RWorkflow w, rt_auth = auth, rt_role = role\<rparr>" if "ChildWorkflow w nm xs ys \<in> set cs" for w nm xs ys
    using s w[OF that] by (auto simp: route_secure_def)
  moreover have "route_secure ns \<lparr>rt_kind = RGetList e f, rt_auth = auth, rt_role = role\<rparr>"
    "route_secure ns \<lparr>rt_kind = RGetSingle e, rt_auth = auth, rt_role = role\<rparr>"
    "route_secure ns \<lparr>rt_kind = RSubscribe e, rt_auth = auth, rt_role = role\<rparr>" for e f
    using s by (auto simp: route_secure_def)
  ultimately show ?thesis unfolding t'
    by (intro secure_fold assms(3)) (auto intro!: secure_set split: service_child.split)
qed (use assms in \<open>simp_all add: service_routes_def\<close>)

lemma secure_services:
  "foldE (service_routes n ns) ks t = Inr t' \<Longrightarrow> set ks \<subseteq> set ns \<Longrightarrow> table_secure ns t \<Longrightarrow> table_secure ns t'"
  by (rule foldE_invariant[where I = "table_secure ns"]) (auto intro: secure_service)

lemma workflow_children_set:
  assumes "workflow_children_of ns s = Inr ws"
  shows "set ws = workflows_of ns s"
proof -
  let ?f = "\<lambda>c. bindE (node_at ns c) (\<lambda>k. Inr (case ln_node k of Workflow _ _ \<Rightarrow> [c] | _ \<Rightarrow> []))"
  obtain xs where xs: "mapE ?f (node_children (ln_node s)) = Inr xs" and ws: "ws = concat xs"
    using assms by (auto simp: workflow_children_of_def bindE_iffs)
  have "set (concat ys) = {c \<in> set cs. \<exists>k nm ds. by_id ns c = Some k \<and> ln_node k = Workflow nm ds}" if "mapE ?f cs = Inr ys" for cs ys
    using that
  proof (induction cs arbitrary: ys)
    case (Cons c cs)
    then obtain k zs where k: "by_id ns c = Some k" and zs: "mapE ?f cs = Inr zs"
      and ys: "ys = (case ln_node k of Workflow _ _ \<Rightarrow> [c] | _ \<Rightarrow> []) # zs"
      by (auto simp: bindE_iffs node_at_def split: option.splits)
    from Cons.IH[OF zs] k show ?case by (cases "ln_node k") (auto simp: ys)
  qed simp
  from this[OF xs] ws show ?thesis by (simp add: workflows_of_def)
qed

lemma owning_service_mem: "owning_service l ss o1 = Some s \<Longrightarrow> s \<in> set ss \<or> o1 = Some s"
  by (induction ss arbitrary: o1) (auto split: if_split_asm)

lemma reserved_secured:
  "s \<in> set ns \<Longrightarrow> service_node s \<Longrightarrow> secured_by ns (reserved_route ns (Some s) kind) s"
  by (simp add: secured_by_def reserved_route_def split_beta)

lemma schedule_trigger_owner:
  assumes "schedule_trigger ns ev = Inr (eid, wid, s)"
  shows "s \<in> set ns \<and> service_node s \<and> wid \<in> workflows_of ns s"
proof -
  let ?services = "sort_by (\<lambda>a b. line_of a < line_of b) (filter service_node ns)"
  obtain s' where s': "owning_service (line_of ev) ?services None = Some s'"
    using assms by (cases "owning_service (line_of ev) ?services None") (simp_all add: schedule_trigger_def)
  then obtain ws where ws: "workflow_children_of ns s' = Inr ws"
    and r: "(case ws of [w] \<Rightarrow> Inr (ln_id ev, w, s') | _ \<Rightarrow> Inl (ScheduleAmbiguous (ln_id ev) (length ws))) = Inr (eid, wid, s)"
    using assms by (auto simp: schedule_trigger_def bindE_iffs)
  from r have "ws = [wid] \<and> s' = s" by (cases ws; cases "tl ws") simp_all
  with s' ws show ?thesis
    using owning_service_mem[OF s'] workflow_children_set[OF ws] by (auto simp: mem_sort_by)
qed

lemma secure_schedules:
  assumes "build_schedule_routes ns = Inr t"
  shows "table_secure ns t"
proof -
  obtain ts where ts: "mapE (schedule_trigger ns) (schedule_events ns) = Inr ts"
    and t: "foldE (\<lambda>(eid, wid, s) routes.
       bindE (name_at ns eid) (\<lambda>nm. Inr (dset (''/-/schedules/'' @ slug nm) (reserved_route ns (Some s) (RWorkflow wid)) routes))) ts [] = Inr t"
    using assms by (auto simp: build_schedule_routes_def resolve_schedule_triggers_def bindE_iffs)
  have sec: "route_secure ns (reserved_route ns (Some s) (RWorkflow wid))" if m: "(eid, wid, s) \<in> set ts" for eid wid s
  proof -
    obtain ev where "schedule_trigger ns ev = Inr (eid, wid, s)" using mapE_mem[OF ts m] by blast
    then have s: "s \<in> set ns" "service_node s" and w: "wid \<in> workflows_of ns s" using schedule_trigger_owner by blast+
    from s have "secured_by ns (reserved_route ns (Some s) (RWorkflow wid)) s" by (rule reserved_secured)
    moreover note w
    moreover have "rt_kind (reserved_route ns (Some s) (RWorkflow wid)) = RWorkflow wid" by (simp add: reserved_route_def split_beta)
    ultimately show ?thesis by (auto simp: route_secure_def)
  qed
  show ?thesis
    by (rule foldE_invariant[OF t]) (auto simp: bindE_iffs table_secure_def[of ns "[]"] intro!: secure_set sec)
qed

lemma owner_names:
  assumes "foldE (\<lambda>s owners. bindE (workflow_children_of ns s) (\<lambda>ws. Inr (fold (\<lambda>w. dset w s) ws owners))) ss o1 = Inr o2"
  shows "(case dget o2 w of
      Some s \<Rightarrow> dget o1 w = Some s \<or> s \<in> set ss \<and> w \<in> workflows_of ns s
    | None \<Rightarrow> dget o1 w = None \<and> (\<forall>s \<in> set ss. w \<notin> workflows_of ns s))"
  using assms
proof (induction ss arbitrary: o1)
  case Nil then show ?case by (simp split: option.split)
next
  case (Cons s ss)
  then obtain ws where ws: "workflow_children_of ns s = Inr ws"
    and rest: "foldE (\<lambda>s owners. bindE (workflow_children_of ns s) (\<lambda>ws. Inr (fold (\<lambda>w. dset w s) ws owners))) ss (fold (\<lambda>w. dset w s) ws o1) = Inr o2"
    by (auto simp: bindE_iffs)
  have "dget (fold (\<lambda>w. dset w s) vs o3) w = (if w \<in> set vs then Some s else dget o3 w)" for vs o3
    by (induction vs arbitrary: o3) (auto simp: dget_dset)
  then show ?case
    using Cons.IH[OF rest] workflow_children_set[OF ws] by (auto split: option.splits if_split_asm)
qed

lemma secure_ingress:
  assumes "build_event_consume_routes ns = Inr t"
  shows "table_secure ns t"
proof -
  obtain owners where ow: "workflow_owner ns = Inr owners"
    and t: "t = fold (\<lambda>k routes. case (ln_node k, dget (ln_keys k) ''consume'') of
              (Event nm, Some (PStr wid)) \<Rightarrow>
                if wid = [] then routes
                else dset (''/-/events/'' @ slug nm) (reserved_route ns (dget owners wid) (RConsume wid (ln_id k))) routes
            | _ \<Rightarrow> routes) ns []"
    using assms by (auto simp: build_event_consume_routes_def bindE_iffs)
  have sec: "route_secure ns (reserved_route ns (dget owners wid) (RConsume wid ev))" for wid ev
  proof -
    have kind: "rt_kind (reserved_route ns x (RConsume wid ev)) = RConsume wid ev" for x by (simp add: reserved_route_def split_beta)
    show ?thesis
    proof (cases "dget owners wid")
      case None
      then show ?thesis using owner_names[OF ow[unfolded workflow_owner_def], of wid] kind[of None] by (simp add: route_secure_def)
    next
      case (Some s)
      then have "s \<in> set ns" "service_node s" "wid \<in> workflows_of ns s"
        using owner_names[OF ow[unfolded workflow_owner_def], of wid] by auto
      then show ?thesis using reserved_secured[of s ns "RConsume wid ev"] Some kind[of "Some s"] by (auto simp: route_secure_def)
    qed
  qed
  show ?thesis unfolding t
    by (rule secure_fold) (auto simp: table_secure_def[of ns "[]"] intro!: secure_set sec split: node.split option.split pyval.split)
qed

lemma secure_open: "kind \<in> {RHealth, RReady, RMetrics} \<Longrightarrow> route_secure ns (open_route kind)"
  by (auto simp: route_secure_def open_route_def)

lemma secure_merge: "table_secure ns t \<Longrightarrow> table_secure ns u \<Longrightarrow> table_secure ns (merge_routes t u)"
  unfolding merge_routes_def by (rule secure_fold) (auto simp: table_secure_def[of ns u] intro!: secure_set)

lemma secure_all:
  assumes "all_routes n metrics ns = Inr routes"
  shows "table_secure ns routes"
proof -
  obtain t1 t2 t3 where t1: "build_routes n ns = Inr t1" and t2: "build_schedule_routes ns = Inr t2"
    and t3: "build_event_consume_routes ns = Inr t3"
    and r: "routes = (let t = merge_routes (merge_routes (merge_routes t1 t2) t3) build_ops_routes in
      if metrics then merge_routes t build_metrics_route else t)"
    using assms by (auto simp: all_routes_def bindE_iffs)
  have "foldE (service_routes n ns) ns [] = Inr t1" using t1 by (auto simp: build_routes_def bindE_iffs split: if_split_asm)
  then have "table_secure ns t1" by (rule secure_services) (simp_all add: table_secure_def)
  moreover have "table_secure ns build_ops_routes" "table_secure ns build_metrics_route"
    by (simp_all add: table_secure_def build_ops_routes_def build_metrics_route_def secure_open)
  ultimately show ?thesis
    unfolding r Let_def using secure_schedules[OF t2] secure_ingress[OF t3] by (simp add: secure_merge)
qed

text \<open>
  C7: no side door to a guarded workflow. If every service that lists a workflow declares \<open>security jwt\<close>, then
  whatever path leads to it on a started server - its own, a schedule's or the ingress of an event - a POST
  without a bearer token that verifies for that path is refused with 401 or 403 and leaves the store alone.
\<close>

theorem no_side_door:
  assumes "make_app base metrics ns = Inr app" and "ap_provider base = Some p"
    and "\<exists>s \<in> set ns. service_node s \<and> w \<in> workflows_of ns s"
    and "\<forall>s \<in> set ns. service_node s \<and> w \<in> workflows_of ns s \<longrightarrow> fst (service_security ns (service_constraint_ids (ln_node s)))"
    and "dget (ap_routes app) (raw_path rq) = Some rt" and "rt_kind rt = RWorkflow w \<or> rt_kind rt = RConsume w ev"
    and "do_post app run now rq db = (r, db')"
  shows "db' = db \<and> (\<exists>status why. status \<in> {401, 403} \<and> r = Inr (refused status why)) \<or>
    (\<exists>header audience claims. rq_auth rq = Some header \<and> audience_for_path (rq_path rq) = Some audience \<and>
       verify (ap_tokens base) p (now div 1000) (strip (snd (snd (partition_at CHR '' '' header)))) audience = Inr claims)"
proof -
  obtain routes where routes: "all_routes (ap_depth base) metrics ns = Inr routes"
    and app: "app = base\<lparr>ap_doc := nodes_doc ns, ap_routes := routes\<rparr>"
    using assms(1) by (auto simp: make_app_def bindE_iffs Let_def split: if_split_asm)
  have "(raw_path rq, rt) \<in> set routes" using assms(5) by (simp add: app map_of_SomeD)
  then have "route_secure ns rt" using secure_all[OF routes] by (auto simp: table_secure_def)
  then obtain s where "secured_by ns rt s" "w \<in> workflows_of ns s"
    using assms(3,6) by (auto simp: route_secure_def)
  then have "rt_auth rt" using assms(4) by (auto simp: secured_by_def dest!: arg_cong[of "(_, _)" _ fst])
  show ?thesis
  proof (cases "check_auth app (now div 1000) rt rq")
    case (Inl x)
    then have "\<exists>status why. status \<in> {401, 403} \<and> x = refused status why"
      by (auto simp: check_auth_def split: if_split_asm option.splits)
    moreover have "r = Inr x" "db' = db" using assms(5-7) Inl by (auto simp: do_post_def)
    ultimately show ?thesis by blast
  next
    case (Inr c)
    then obtain header claims where "rq_auth rq = Some header" "token_accepted app (now div 1000) header (rq_path rq) = Some claims"
      using \<open>rt_auth rt\<close> assms(2) by (auto simp: check_auth_def app split: option.splits if_split_asm)
    then show ?thesis using assms(2) by (auto simp: token_accepted_def app split: prod.splits option.splits sum.splits if_split_asm)
  qed
qed

text \<open>A ledger that is closed on a schedule and booked into by an event.\<close>

definition ledger_nodes :: "lnode list" where
  "ledger_nodes =
     [mk_node ''service.ledger'' (Service ''Ledger'' [''workflow.close''] [''security.ledger'']) 1 [],
      mk_node ''security.ledger'' (Security [''jwt'']) 2 [],
      mk_node ''workflow.close'' (Workflow ''Close'' []) 3 [],
      mk_node ''event.nightly'' (Event ''Nightly'') 4 [(''source'', PDict [(''every'', PStr ''daily'')])],
      mk_node ''event.booked'' (Event ''Booked'') 5 [(''consume'', PStr ''workflow.close'')]]"

lemma ledger_routes:
  "map_sum id (\<lambda>app. (dget (ap_routes app) ''/-/schedules/nightly'', dget (ap_routes app) ''/-/events/booked''))
     (make_app test_app False ledger_nodes) =
   Inr (Some \<lparr>rt_kind = RWorkflow ''workflow.close'', rt_auth = True, rt_role = None\<rparr>,
     Some \<lparr>rt_kind = RConsume ''workflow.close'' ''event.booked'', rt_auth = True, rt_role = None\<rparr>)"
  by code_simp

theorem no_side_door_witness:
  "\<exists>app status why. make_app test_app False ledger_nodes = Inr app \<and> status \<in> {401, 403} \<and>
     do_post app create_run 0 (order_request\<lparr>rq_path := ''/-/schedules/nightly''\<rparr>) empty_db = (Inr (refused status why), empty_db)"
proof -
  let ?rq = "order_request\<lparr>rq_path := ''/-/schedules/nightly''\<rparr>"
  obtain app where app: "make_app test_app False ledger_nodes = Inr app"
    and rt: "dget (ap_routes app) ''/-/schedules/nightly'' = Some \<lparr>rt_kind = RWorkflow ''workflow.close'', rt_auth = True, rt_role = None\<rparr>"
    using ledger_routes by (cases "make_app test_app False ledger_nodes") auto
  have p: "ap_provider test_app = Some rotated_provider" by (simp add: test_app_def)
  have path: "raw_path ?rq = ''/-/schedules/nightly''" by (simp add: raw_path_def order_request_def)
  have w: "\<exists>s \<in> set ledger_nodes. service_node s \<and> ''workflow.close'' \<in> workflows_of ledger_nodes s"
    by (simp add: ledger_nodes_def mk_node_def service_node_def workflows_of_def by_id_def)
  have g: "\<forall>s \<in> set ledger_nodes. service_node s \<and> ''workflow.close'' \<in> workflows_of ledger_nodes s \<longrightarrow>
      fst (service_security ledger_nodes (service_constraint_ids (ln_node s)))"
    by (simp add: ledger_nodes_def mk_node_def service_node_def service_security_def by_id_def)
  obtain r db' where d: "do_post app create_run 0 ?rq empty_db = (r, db')" by (rule prod.exhaust)
  have none: "rq_auth ?rq = None" by (simp add: order_request_def)
  from no_side_door[OF app p w g, of ?rq, unfolded path, OF rt _ d] none app d show ?thesis by auto
qed

end
