(* ===== verification/RunFacts.thy ===== *)
theory RunFacts
  imports FrameEffects
begin

text \<open>
  A run as a transaction: what the store holds after \<open>run_workflow\<close>, on every way out of it. The
  snapshot \<open>begin\<close> takes consists of fresh copies, no effect of the run reaches them (\<open>FrameEffects\<close>),
  so \<open>rollback\<close> puts the rows back as they were although rows are written in place.
\<close>

section \<open>Contents of the store\<close>

definition table_rows :: "heap \<Rightarrow> table \<Rightarrow> (string, row) dict" where
  "table_rows h t = map (\<lambda>(k, a). (k, row_at h a)) t"

definition contents :: "heap \<Rightarrow> tables \<Rightarrow> (string, (string, row) dict) dict" where
  "contents h ts = map (\<lambda>(e, t). (e, table_rows h t)) ts"

definition stored :: "istate \<Rightarrow> (string, (string, row) dict) dict" where
  "stored s = contents (st_objs s) (rp_rows (st_repo s))"

definition snapshot_addrs :: "istate \<Rightarrow> nat set" where
  "snapshot_addrs s = (case rp_snapshot (st_repo s) of None \<Rightarrow> {} | Some ts \<Rightarrow> tables_addrs ts)"

text \<open>No dangling address.\<close>

definition heap_ok :: "istate \<Rightarrow> bool" where
  "heap_ok s \<longleftrightarrow> used s \<union> snapshot_addrs s \<subseteq> {..<length (st_objs s)}"

lemma table_rows_same: "(\<And>a. a \<in> table_addrs t \<Longrightarrow> h' ! a = h ! a) \<Longrightarrow> table_rows h' t = table_rows h t"
  by (force simp: table_rows_def table_addrs_def row_at_def)

lemma contents_same:
  assumes "\<And>a. a \<in> tables_addrs ts \<Longrightarrow> h' ! a = h ! a" shows "contents h' ts = contents h ts"
proof -
  have "table_rows h' t = table_rows h t" if "(e, t) \<in> set ts" for e t
    using that by (intro table_rows_same assms) (force simp: tables_addrs_def)
  then show ?thesis by (auto simp: contents_def)
qed

section \<open>The snapshot\<close>

lemma take_same: "take (length h) h' = h \<Longrightarrow> a < length h \<Longrightarrow> h' ! a = h ! a"
  by (metis nth_take)

lemma copy_table_copies:
  assumes "copy_table h t = (h', t')" and "table_addrs t \<subseteq> {..<length h}"
  shows "length h \<le> length h' \<and> take (length h) h' = h \<and> table_addrs t' \<subseteq> {length h..<length h'} \<and>
    table_rows h' t' = table_rows h t"
  using assms
proof (induction h t arbitrary: h' t' rule: copy_table.induct)
  case (2 h k a t)
  obtain h1 t1 where c: "copy_table (h @ [plain (row_at h a)]) t = (h1, t1)" by fastforce
  with 2(2) have o: "h' = h1" "t' = (k, length h) # t1" by auto
  let ?h = "h @ [plain (row_at h a)]"
  from 2(3) have t: "table_addrs t \<subseteq> {..<length ?h}" and a: "a < length h" "table_addrs t \<subseteq> {..<length h}"
    by (auto simp: table_addrs_def)
  note IH = 2(1)[OF c t]
  from IH have tk: "take (length ?h) h1 = ?h" by blast
  then have n: "h1 ! length h = plain (row_at h a)" using take_same[OF tk, of "length h"] by simp
  from tk have th: "take (length h) h1 = h"
    by (metis append_eq_conv_conj length_append le_add1 min.absorb1 take_take)
  have "table_rows ?h t = table_rows h t" using a(2) by (intro table_rows_same) (auto simp: nth_append)
  with IH n have "table_rows h1 ((k, length h) # t1) = table_rows h ((k, a) # t)"
    by (simp add: table_rows_def row_at_def plain_def)
  with IH th show ?case unfolding o by (auto simp: table_addrs_def)
qed (simp add: table_addrs_def)

lemma copy_tables_copies:
  assumes "copy_tables h ts = (h', ts')" and "tables_addrs ts \<subseteq> {..<length h}"
  shows "length h \<le> length h' \<and> take (length h) h' = h \<and> tables_addrs ts' \<subseteq> {length h..<length h'} \<and>
    contents h' ts' = contents h ts"
  using assms
proof (induction h ts arbitrary: h' ts' rule: copy_tables.induct)
  case (2 h e t ts)
  obtain h1 t1 where c1: "copy_table h t = (h1, t1)" by fastforce
  obtain h2 ts2 where c2: "copy_tables h1 ts = (h2, ts2)" by fastforce
  from 2(2) c1 c2 have o: "h' = h2" "ts' = (e, t1) # ts2" by auto
  from 2(3) have t: "table_addrs t \<subseteq> {..<length h}" "tables_addrs ts \<subseteq> {..<length h}"
    by (auto simp: tables_addrs_def)
  note C = copy_table_copies[OF c1 t(1)]
  from t(2) C have "tables_addrs ts \<subseteq> {..<length h1}" by auto
  note IH = 2(1)[OF c1[symmetric] refl c2 this]
  have tk: "take (length h) h2 = h"
  proof -
    from C IH have "take (length h1) h2 = h1" "take (length h) h1 = h" "length h \<le> length h1" by auto
    then show ?thesis by (metis min.absorb1 take_take)
  qed
  from C IH have "table_rows h2 t1 = table_rows h1 t1" by (intro table_rows_same take_same) auto
  moreover from C t(2) have "contents h1 ts = contents h ts" by (intro contents_same take_same) auto
  ultimately have "contents h2 ((e, t1) # ts2) = contents h ((e, t) # ts)" using C IH by (simp add: contents_def)
  moreover have "tables_addrs ((e, t1) # ts2) \<subseteq> {length h..<length h2}" using C IH by (auto simp: tables_addrs_def)
  ultimately show ?case unfolding o using C IH tk by auto
qed (simp add: tables_addrs_def)

text \<open>A state inside a transaction opened where the store held \<open>c\<close>.\<close>

definition in_transaction :: "(string, (string, row) dict) dict \<Rightarrow> istate \<Rightarrow> bool" where
  "in_transaction c s \<longleftrightarrow> heap_ok s \<and> snapshot_addrs s \<inter> used s = {} \<and>
     (\<exists>ts. rp_snapshot (st_repo s) = Some ts \<and> contents (st_objs s) ts = c)"

lemma begin_opens:
  assumes "heap_ok s" and "rp_snapshot (st_repo s) = None"
  shows "\<exists>t. begin_run s = (Inr (), t) \<and> in_transaction (stored s) t"
proof -
  obtain h ts where c: "copy_tables (st_objs s) (rp_rows (st_repo s)) = (h, ts)" by fastforce
  from assms(1) have u: "used s \<subseteq> {..<length (st_objs s)}" by (simp add: heap_ok_def)
  then have "tables_addrs (rp_rows (st_repo s)) \<subseteq> {..<length (st_objs s)}" by (auto simp: used_def repo_addrs_def)
  note C = copy_tables_copies[OF c this]
  let ?t = "s\<lparr>st_objs := h, st_repo := (st_repo s)\<lparr>rp_snapshot := Some ts\<rparr>\<rparr>"
  have ut: "used ?t = used s" by (simp add: used_def repo_addrs_def)
  from C u ut have "in_transaction (stored s) ?t"
    by (fastforce simp: in_transaction_def heap_ok_def snapshot_addrs_def stored_def)
  moreover have "begin_run s = (Inr (), ?t)"
    by (simp add: begin_run_def repo_begin_def assms(2) c)
  ultimately show ?thesis by blast
qed

lemma framed_transaction:
  assumes "in_transaction c s" and "framed s t"
  shows "in_transaction c t"
proof -
  from assms(1) obtain ts where ts: "rp_snapshot (st_repo s) = Some ts" "contents (st_objs s) ts = c"
    and a: "used s \<union> tables_addrs ts \<subseteq> {..<length (st_objs s)}" "tables_addrs ts \<inter> used s = {}"
    by (auto simp: in_transaction_def heap_ok_def snapshot_addrs_def)
  from assms(2) ts have sn: "rp_snapshot (st_repo t) = Some ts" and le: "length (st_objs s) \<le> length (st_objs t)"
    and u: "used t \<subseteq> used s \<union> {length (st_objs s)..<length (st_objs t)}"
    and k: "\<And>a. a < length (st_objs s) \<Longrightarrow> a \<notin> used s \<Longrightarrow> st_objs t ! a = st_objs s ! a"
    by (auto simp: framed_def owned_def)
  have "contents (st_objs t) ts = contents (st_objs s) ts" using a by (intro contents_same k) auto
  with ts a u le sn show ?thesis by (fastforce simp: in_transaction_def heap_ok_def snapshot_addrs_def)
qed

lemma drop_keys_frame:
  "used (drop_keys ks s) \<subseteq> used s \<and> st_objs (drop_keys ks s) = st_objs s \<and> st_repo (drop_keys ks s) = st_repo s"
proof -
  have "cache_addrs (fold (\<lambda>k c. cache_invalidate c k) ks c) \<subseteq> cache_addrs c" for c
    by (induction ks arbitrary: c) (auto dest: subsetD[OF cache_invalidate_addrs] subsetD)
  from this[of "st_cache s"] show ?thesis by (auto simp: drop_keys_def used_def)
qed

lemma roll_back_restores:
  assumes "in_transaction c s"
  shows "heap_ok (roll_back s) \<and> rp_snapshot (st_repo (roll_back s)) = None \<and> stored (roll_back s) = c"
proof -
  from assms obtain ts where ts: "rp_snapshot (st_repo s) = Some ts" "contents (st_objs s) ts = c"
    and a: "used s \<union> tables_addrs ts \<subseteq> {..<length (st_objs s)}"
    by (auto simp: in_transaction_def heap_ok_def snapshot_addrs_def)
  let ?t = "s\<lparr>st_repo := repo_rollback (st_repo s)\<rparr>"
  have r: "st_repo ?t = (st_repo s)\<lparr>rp_rows := ts, rp_snapshot := None\<rparr>" by (simp add: repo_rollback_def ts)
  have "used ?t \<subseteq> used s \<union> tables_addrs ts" unfolding r used_def by (auto simp: r repo_addrs_def)
  with drop_keys_frame[of "st_rt_writes s" ?t] a r ts show ?thesis
    unfolding roll_back_def by (auto simp: heap_ok_def snapshot_addrs_def stored_def)
qed

lemma commit_closes:
  assumes "in_transaction c s"
  shows "heap_ok (commit_run s) \<and> rp_snapshot (st_repo (commit_run s)) = None \<and> stored (commit_run s) = stored s"
proof -
  let ?t = "s\<lparr>st_repo := repo_commit (st_repo s)\<rparr>"
  have "used ?t = used s" by (simp add: used_def repo_commit_def repo_addrs_def)
  with drop_keys_frame[of "st_rt_invals s" ?t] assms show ?thesis
    unfolding commit_run_def
    by (auto simp: in_transaction_def heap_ok_def snapshot_addrs_def stored_def repo_commit_def)
qed

section \<open>The whole run\<close>

text \<open>No transaction is open, no address dangles, and the store holds \<open>c\<close>.\<close>

definition settled :: "(string, (string, row) dict) dict \<Rightarrow> istate \<Rightarrow> bool" where
  "settled c s \<longleftrightarrow> heap_ok s \<and> rp_snapshot (st_repo s) = None \<and> stored s = c"

text \<open>How a run that started on \<open>c\<close> may leave the interpreter.\<close>

definition atomic_outcome :: "(string, (string, row) dict) dict \<Rightarrow> run_exc + run_result \<Rightarrow> istate \<Rightarrow> bool" where
  "atomic_outcome c r t =
     (case r of
        Inr res \<Rightarrow> if rr_failure res = None then settled (stored t) t else settled c t
      | Inl (RunError e) \<Rightarrow> settled c t
      | Inl (Escaped e) \<Rightarrow> settled c t \<or> in_transaction c t)"

lemma settled_same:
  assumes "used s \<subseteq> used t" "st_objs s = st_objs t" "st_repo s = st_repo t" shows "settled c t \<Longrightarrow> settled c s"
  using assms by (auto simp: settled_def heap_ok_def snapshot_addrs_def stored_def)

lemma in_transaction_same:
  assumes "used s = used t" "st_objs s = st_objs t" "st_repo s = st_repo t" shows "in_transaction c t \<Longrightarrow> in_transaction c s"
  using assms by (simp add: in_transaction_def heap_ok_def snapshot_addrs_def)

lemma term_response_escapes: "term_response env s ts r = Inl e \<Longrightarrow> \<exists>x. e = Escaped x"
proof (induction ts arbitrary: r)
  case (Cons p ts)
  obtain step node where p: "p = (step, node)" by (cases p)
  show ?case
  proof (cases "respond_terms env s node r")
    case (Inl x)
    with Cons.prems p show ?thesis by (cases x) auto
  next
    case (Inr y)
    with Cons p show ?thesis by simp
  qed
qed simp

lemma evaluate_terms_transaction:
  assumes "evaluate_terms env s = (r, t)" "in_transaction c s"
  shows "in_transaction c t \<and> (\<forall>e. r = Inl e \<longrightarrow> (\<exists>x. e = Escaped x))"
  using assms in_transaction_same[of "s\<lparr>st_failed := f\<rparr>" s c for f]
  by (auto simp: evaluate_terms_def dest: term_response_escapes split: if_splits sum.splits)

lemma close_run_settles:
  assumes "in_transaction c s"
  shows "settled (if st_failed s = None then stored s else c) (snd (close_run s))"
  using roll_back_restores[OF assms] commit_closes[OF assms] by (simp add: close_run_def settled_def)

lemma finish_run_outcome:
  obtains res d where "finish_run env w start terms s = (Inr res, s\<lparr>st_diags := d\<rparr>)" "rr_failure res = st_failed s"
  by (cases "if st_failed s = None then build_response env s terms else (None, [])")
    (simp add: finish_run_def Let_def)

lemma roll_back_failed [simp]: "st_failed (roll_back s) = st_failed s"
  by (simp add: roll_back_def drop_keys_def)

lemma commit_run_failed [simp]: "st_failed (commit_run s) = st_failed s"
  by (simp add: commit_run_def drop_keys_def)

lemma run_body_atomic:
  assumes s: "heap_ok s" "rp_snapshot (st_repo s) = None" and run: "run_body env w ids s = (r, t)"
  shows "atomic_outcome (stored s) r t"
proof -
  let ?c = "stored s"
  from begin_opens[OF s] obtain s1 where b: "begin_run s = (Inr (), s1)" and t1: "in_transaction ?c s1" by blast
  obtain r2 s2 where i: "run_items env ids s1 = (r2, s2)" by fastforce
  have t2: "in_transaction ?c s2" using framed_transaction[OF t1] items_framed[of s1 env ids] i by simp
  show ?thesis
  proof (cases r2)
    case (Inl e)
    then show ?thesis
    proof (cases e)
      case (RunError x)
      with Inl run b i have "r = Inl (RunError x)" "t = roll_back s2"
        by (auto simp: run_body_def bindM_def getM_def on_run_error_def)
      with roll_back_restores[OF t2] show ?thesis by (simp add: atomic_outcome_def settled_def)
    next
      case (Escaped x)
      with Inl run b i have "r = Inl (Escaped x)" "t = s2"
        by (auto simp: run_body_def bindM_def getM_def on_run_error_def)
      with t2 show ?thesis by (simp add: atomic_outcome_def)
    qed
  next
    case (Inr stop)
    obtain r3 s3 where e: "evaluate_terms env s2 = (r3, s3)" by fastforce
    note t3 = evaluate_terms_transaction[OF e t2]
    have m: "run_body env w ids s = (case r3 of Inl e \<Rightarrow> (Inl e, s3)
        | Inr terms \<Rightarrow> finish_run env w (now_of s) terms (snd (close_run s3)))"
      using b i Inr e by (simp add: run_body_def bindM_def getM_def on_run_error_def close_run_def split: sum.split)
    show ?thesis
    proof (cases r3)
      case (Inl x)
      with t3 m run show ?thesis by (auto simp: atomic_outcome_def)
    next
      case (Inr terms)
      let ?s4 = "snd (close_run s3)"
      from t3 have c4: "settled (if st_failed s3 = None then stored s3 else ?c) ?s4" by (intro close_run_settles) simp
      have f4: "st_failed ?s4 = st_failed s3" by (simp add: close_run_def)
      obtain res d where "finish_run env w (now_of s) terms ?s4 = (Inr res, ?s4\<lparr>st_diags := d\<rparr>)"
        and f: "rr_failure res = st_failed ?s4" by (rule finish_run_outcome)
      with m Inr run have rt: "r = Inr res" "t = ?s4\<lparr>st_diags := d\<rparr>" by simp_all
      have "settled (if st_failed s3 = None then stored s3 else ?c) t"
        by (rule settled_same[OF _ _ _ c4]) (simp_all add: rt)
      then show ?thesis using f f4 rt by (auto simp: atomic_outcome_def settled_def)
    qed
  qed
qed

text \<open>The states a run passes through before \<open>begin\<close>.\<close>

lemma fresh_run_same:
  "used (fresh_run s) \<subseteq> used s \<and> st_objs (fresh_run s) = st_objs s \<and> st_repo (fresh_run s) = st_repo s"
  by (auto simp: fresh_run_def used_def)

text \<open>A run either stops before \<open>begin\<close>, with the store as it was, or is one \<open>run_body\<close>.\<close>

lemma run_workflow_cases:
  assumes "run_workflow cf wid payload ctx s = (r, t)"
  obtains e where "r = Inl e" "t = s\<lparr>st_ops := []\<rparr>"
  | nm ids con c where "node_of (cf_doc cf) wid = Some (Workflow nm ids)"
      "decide_run_context ctx (cf_fresh cf) (now_of s) = Inr c"
      "constraints_of (cf_doc cf) (service_for (cf_doc cf) wid) = Inr con"
      "run_body (run_env cf con c payload (now_of s)) nm ids (fresh_run (s\<lparr>st_ops := []\<rparr>)) = (r, t)"
proof -
  let ?s = "s\<lparr>st_ops := []\<rparr>"
  show thesis
  proof (cases "\<exists>nm ids. node_of (cf_doc cf) wid = Some (Workflow nm ids)")
    case True
    then obtain nm ids where n: "node_of (cf_doc cf) wid = Some (Workflow nm ids)" by blast
    have w: "now_of ?s = now_of s" by (simp add: now_of_def)
    show thesis
    proof (cases "decide_run_context ctx (cf_fresh cf) (now_of s)")
      case (Inl e)
      with assms n w have "r = Inl e" "t = ?s" by (simp_all add: run_workflow_def bindM_def run_defs)
      then show thesis by (rule that(1))
    next
      case c: (Inr c)
      show thesis
      proof (cases "constraints_of (cf_doc cf) (service_for (cf_doc cf) wid)")
        case (Inl e)
        with assms n w c have "r = Inl e" "t = ?s" by (simp_all add: run_workflow_def bindM_def run_defs)
        then show thesis by (rule that(1))
      next
        case (Inr con)
        with assms n w c that(2) show thesis by (simp add: run_workflow_def bindM_def run_defs)
      qed
    qed
  next
    case False
    then have "(case node_of (cf_doc cf) wid of Some (Workflow nm cs) \<Rightarrow> f nm cs | _ \<Rightarrow> m) = m" for f and m :: "run_result run"
      by (auto split: option.split node.split)
    with assms have "r = Inl (RunError (NoSuchWorkflow wid))" "t = ?s"
      by (simp_all add: run_workflow_def bindM_def run_defs)
    then show thesis by (rule that(1))
  qed
qed

end
