(* ===== verification/RunProps.thy ===== *)
theory RunProps
  imports RunFacts Moves Examples
begin

text \<open>What a run promises about the store, whatever the document does.\<close>

text \<open>
  C1: a run is atomic. Started with no transaction open and no dangling address, \<open>run_workflow\<close> leaves
  no transaction open and, when it reports a failure or raises a \<open>RunError\<close>, the rows it started from,
  although rows are mutated in place; only an exception that is not a \<open>RunError\<close> can leave the
  transaction open, with those rows still in the snapshot.
\<close>

theorem run_atomic:
  assumes "heap_ok s" and "rp_snapshot (st_repo s) = None"
    and run: "run_workflow cf wid payload ctx s = (r, t)"
  shows "atomic_outcome (stored s) r t"
  using run
proof (cases rule: run_workflow_cases)
  case (1 e)
  have "settled (stored s) t"
    unfolding 1 by (rule settled_same[of _ s]) (use assms in \<open>simp_all add: settled_def\<close>)
  with 1 show ?thesis by (cases e) (simp_all add: atomic_outcome_def)
next
  case (2 nm ids con c)
  let ?s = "fresh_run (s\<lparr>st_ops := []\<rparr>)"
  have same: "used ?s \<subseteq> used s" "st_objs ?s = st_objs s" "st_repo ?s = st_repo s"
    using fresh_run_same[of "s\<lparr>st_ops := []\<rparr>"] by simp_all
  have "settled (stored s) ?s"
    by (rule settled_same[OF same]) (use assms in \<open>simp add: settled_def\<close>)
  with run_body_atomic[OF _ _ 2(4)] show ?thesis by (simp add: settled_def)
qed

lemma new_interpreter_none: "heap_ok (new_interpreter []) \<and> rp_snapshot (st_repo (new_interpreter [])) = None"
  by (simp add: new_interpreter_def repo_seed_def empty_repo_def new_istate_def heap_ok_def snapshot_addrs_def used_def
      repo_addrs_def tables_addrs_def cache_addrs_def empty_cache_def)

text \<open>The run creates a row, is rejected in its next step, and the store is empty again.\<close>

theorem run_atomic_witness:
  "\<exists>res t. ex_run reject_doc [(''id'', PStr ''1'')] (new_interpreter []) = (Inr res, t) \<and>
     rr_failure res = Some (StepFailed ''T'' (Rejected ''no'')) \<and> settled (stored (new_interpreter [])) t"
proof -
  obtain r t where run: "ex_run reject_doc [(''id'', PStr ''1'')] (new_interpreter []) = (r, t)" by fastforce
  with reject_run obtain res where r: "r = Inr res" "rr_failure res = Some (StepFailed ''T'' (Rejected ''no''))"
    by (auto split: sum.splits)
  from run have "run_workflow (ex_config reject_doc) ''w'' [(''id'', PStr ''1'')] [] (new_interpreter []) = (r, t)"
    by (simp add: ex_run_def)
  then have "atomic_outcome (stored (new_interpreter [])) r t"
    by (rule run_atomic[rotated 2]) (use new_interpreter_none in simp_all)
  with run r show ?thesis by (auto simp: atomic_outcome_def)
qed

text \<open>
  An open transaction blocks the interpreter. When a run left its transaction open, no later run of
  any workflow answers: each one raises, and the snapshot and the rows stay as they are.
\<close>

theorem open_transaction_blocks:
  assumes "rp_snapshot (st_repo s) = Some ts" and run: "run_workflow cf wid payload ctx s = (r, t)"
  shows "(\<exists>e. r = Inl e) \<and> rp_snapshot (st_repo t) = Some ts \<and> stored t = stored s"
  using run
proof (cases rule: run_workflow_cases)
  case (1 e)
  with assms(1) show ?thesis by (simp add: stored_def)
next
  case (2 nm ids con c)
  have "st_repo (fresh_run (s\<lparr>st_ops := []\<rparr>)) = st_repo s" "st_objs (fresh_run (s\<lparr>st_ops := []\<rparr>)) = st_objs s"
    by (simp_all add: fresh_run_def)
  with 2(4) assms(1) show ?thesis
    by (auto simp: run_body_def bindM_def getM_def begin_run_def repo_begin_def stored_def)
qed

text \<open>A NaN against a \<open>min\<close> bound escapes as \<open>InvalidOperation\<close>; the next, valid request raises too.\<close>

lemma nan_run:
  "(case ex_run bound_doc (bound_payload ''NaN'') (new_interpreter []) of (r, t) \<Rightarrow>
      r = Inl (Escaped PyDecimalError) \<and> rp_snapshot (st_repo t) = Some [])"
  by code_simp

theorem open_transaction_blocks_witness:
  "\<exists>t u e. ex_run bound_doc (bound_payload ''NaN'') (new_interpreter []) = (Inl (Escaped PyDecimalError), t) \<and>
     ex_run bound_doc (bound_payload ''2'') t = (Inl e, u) \<and> rp_snapshot (st_repo u) = Some []"
proof -
  obtain r t where run: "ex_run bound_doc (bound_payload ''NaN'') (new_interpreter []) = (r, t)" by fastforce
  with nan_run have t: "r = Inl (Escaped PyDecimalError)" "rp_snapshot (st_repo t) = Some []" by auto
  obtain q u where next_run: "ex_run bound_doc (bound_payload ''2'') t = (q, u)" by fastforce
  with open_transaction_blocks[OF t(2), of "ex_config bound_doc" "''w''" "bound_payload ''2''" "[]" q u]
  show ?thesis using run t by (auto simp: ex_run_def)
qed

text \<open>
  C5: retries are bounded. Every step a completed or failed run reports was attempted at least once, at
  most \<open>retry + 1\<close> times where \<open>retry\<close> is the policy of the owning service, and never more than a
  hundred times, whether it ran in sequence or in a \<open>parallel\<close> block under any schedule.
\<close>

theorem attempts_bounded:
  assumes "run_workflow cf wid payload ctx s = (Inr res, t)"
    and "constraints_of (cf_doc cf) (service_for (cf_doc cf) wid) = Inr con"
    and "r \<in> set (rr_steps res)"
  shows "1 \<le> sr_attempts r \<and> sr_attempts r \<le> 100 \<and> int (sr_attempts r) \<le> max 1 (cn_retry con + 1)"
  using assms(1)
proof (cases rule: run_workflow_cases)
  case (2 nm ids con' c)
  with assms(2) have con: "con' = con" by simp
  from 2(4) obtain s1 stop s2 where b: "begin_run (fresh_run (s\<lparr>st_ops := []\<rparr>)) = (Inr (), s1)"
    and i: "run_items (run_env cf con' c payload (now_of s)) ids s1 = (Inr stop, s2)" and st: "rr_steps res = st_steps s2"
    by (rule run_body_result)
  from begin_run_same[OF b] have "st_steps s1 = []" by (auto simp: fresh_run_def)
  moreover have "keeps_attempts con s1 s2"
    using att.move_items[of "run_env cf con' c payload (now_of s)" con ids] i con by (simp add: run_env_def moves_def) (metis snd_conv)
  ultimately have "attempts_ok con (sr_attempts r)" using assms(3) st by (simp add: keeps_attempts_def)
  then show ?thesis by (simp add: attempts_ok_def max_step_attempts_def)
qed simp

text \<open>An update of a missing row under \<open>retry 2\<close>: three attempts.\<close>

lemma retry_run:
  "(case ex_run retry_doc [(''id'', PStr ''1'')] (new_interpreter []) of
      (Inr res, t) \<Rightarrow> map sr_attempts (rr_steps res) = [3] | _ \<Rightarrow> False) \<and>
   constraints_of retry_doc (service_for retry_doc ''w'') = Inr (no_constraints\<lparr>cn_retry := 2\<rparr>)"
  by code_simp

theorem attempts_bounded_witness:
  "\<exists>res t r. ex_run retry_doc [(''id'', PStr ''1'')] (new_interpreter []) = (Inr res, t) \<and>
     rr_steps res = [r] \<and> sr_attempts r = 3 \<and> int (sr_attempts r) \<le> max 1 (2 + 1)"
proof -
  obtain q t where run: "ex_run retry_doc [(''id'', PStr ''1'')] (new_interpreter []) = (q, t)" by fastforce
  with retry_run obtain res r where q: "q = Inr res" "rr_steps res = [r]" "sr_attempts r = 3"
    by (auto split: sum.splits)
  with run have "run_workflow (ex_config retry_doc) ''w'' [(''id'', PStr ''1'')] [] (new_interpreter []) = (Inr res, t)"
    by (simp add: ex_run_def)
  from attempts_bounded[OF this, of "no_constraints\<lparr>cn_retry := 2\<rparr>" r] retry_run q(2)
  have "int (sr_attempts r) \<le> max 1 (2 + 1)" by (simp add: ex_config_def no_constraints_def)
  with run q show ?thesis by blast
qed

text \<open>The last part of an id determines the position.\<close>

lemma last_part_unique:
  assumes "a @ c # xs = b @ c # ys" "c \<notin> set xs" "c \<notin> set ys" shows "xs = ys"
proof -
  have "takeWhile (\<lambda>d. d \<noteq> c) (zs @ c # ws) = zs" if "c \<notin> set zs" for zs ws
    using that by (induction zs) auto
  from this[of "rev xs" "rev a"] this[of "rev ys" "rev b"] assms have "rev xs = rev ys"
    by (metis append.assoc append_Cons append_Nil rev.simps(2) rev_append set_rev)
  then show ?thesis by simp
qed

lemma numbered_distinct: "numbered es \<Longrightarrow> distinct (map em_id es)"
proof -
  assume n: "numbered es"
  have hash: "CHR ''#'' \<notin> set (show_nat k)" for k
  proof -
    have "\<not> is_decimal_c CHR ''#''" by code_simp
    then show ?thesis using show_nat_decimal[of "CHR ''#''" k] by blast
  qed
  have "i = j" if "i < length es" "j < length es" "em_id (es ! i) = em_id (es ! j)" for i j
  proof -
    from n that obtain a b where "a @ CHR ''#'' # show_nat (i + 1) = b @ CHR ''#'' # show_nat (j + 1)"
      by (auto simp: numbered_def) metis
    from last_part_unique[OF this hash hash] show ?thesis by simp
  qed
  then show ?thesis by (auto simp: distinct_conv_nth)
qed

text \<open>
  The outbox is a log. Over any run, whether it completes, fails or raises, the emissions made before
  stay where they are and the ids of all of them remain distinct, so a consumer can deduplicate by id.
\<close>

theorem outbox_is_a_log:
  assumes "numbered (st_outbox s)" and "run_workflow cf wid payload ctx s = (r, t)"
  shows "prefix (st_outbox s) (st_outbox t) \<and> numbered (st_outbox t) \<and> distinct (map em_id (st_outbox t))"
proof -
  have "log_grows s t" using log.move_run[of cf wid payload ctx] assms(2) by (simp add: moves_def) (metis snd_conv)
  moreover have "keeps_numbers s t"
    using numbers.move_run[of cf wid payload ctx] assms(2) by (simp add: moves_def) (metis snd_conv)
  ultimately show ?thesis using assms(1) numbered_distinct by (simp add: log_grows_def keeps_numbers_def)
qed

lemma emit_run:
  "(case ex_run emit_doc [(''id'', PStr ''1''), (''pw'', PStr ''s'')] (new_interpreter []) of
     (Inr res, t) \<Rightarrow> rr_failure res = None \<and>
        map em_id (st_outbox t) = [''a#1'', ''b#2''] \<and>
        map em_payload (st_outbox t) = replicate 2 (PDict [(''id'', PStr ''1''), (''pw'', PStr ''s'')])
   | _ \<Rightarrow> False)"
  by code_simp

theorem outbox_is_a_log_witness:
  "\<exists>r t u. ex_run emit_doc [(''id'', PStr ''1''), (''pw'', PStr ''s'')] (new_interpreter []) = (r, t) \<and>
     length (st_outbox t) = 2 \<and> distinct (map em_id (st_outbox (snd (ex_run emit_doc [] t))))"
proof -
  obtain r t where run: "ex_run emit_doc [(''id'', PStr ''1''), (''pw'', PStr ''s'')] (new_interpreter []) = (r, t)"
    by fastforce
  have "numbered (st_outbox (new_interpreter []))"
    by (simp add: numbered_def new_interpreter_def repo_seed_def new_istate_def empty_repo_def)
  from outbox_is_a_log[OF this run[unfolded ex_run_def]] have n: "numbered (st_outbox t)" by simp
  have "length (st_outbox t) = length (map em_id (st_outbox t))" by simp
  also from emit_run run have "\<dots> = 2" by (auto split: sum.splits)
  finally have "length (st_outbox t) = 2" .
  moreover have "distinct (map em_id (st_outbox (snd (ex_run emit_doc [] t))))"
    using outbox_is_a_log[OF n, of "ex_config emit_doc" "''w''" "[]" "[]"] by (simp add: ex_run_def) (metis prod.collapse)
  ultimately show ?thesis using run by blast
qed

end
