(* ===== verification/FlowProps.thy ===== *)
theory FlowProps
  imports FlowFacts RunFacts Examples
begin

text \<open>Deadlines, the account of every step, the order of a block's report, and the fuel of the model.\<close>

section \<open>Deadlines\<close>

lemma duration_of_nonneg: "duration_of x = Inr ms \<Longrightarrow> 0 \<le> ms"
  using duration_range[of x ms] by (auto simp: duration_of_def split: sum.splits option.splits lex_error.splits)

abbreviation timeout_ok :: "constraints \<Rightarrow> bool" where
  "timeout_ok con \<equiv> \<forall>ms. cn_timeout con = Some ms \<longrightarrow> 0 \<le> ms"

lemma policy_rule_timeout: "policy_rule r con = Inr con' \<Longrightarrow> timeout_ok con \<Longrightarrow> timeout_ok con'"
  using duration_of_nonneg by (cases r) (auto simp: policy_rule_def Let_def bindE_iffs split: if_splits)

lemma budget_timeout: "budget b con = Inr con' \<Longrightarrow> timeout_ok con \<Longrightarrow> timeout_ok con'"
  by (cases b) (auto simp: budget_def Let_def bindE_iffs split: if_splits)

lemma constraints_timeout:
  assumes "constraints_of doc svc = Inr con" shows "timeout_ok con"
proof -
  have node: "timeout_ok con'" if "constraint_node doc cid con = Inr con'" "timeout_ok con" for cid con con'
  proof (cases "node_of doc cid")
    case None
    with that show ?thesis by (simp add: constraint_node_def)
  next
    case (Some n)
    have "foldE policy_rule rs con = Inr con' \<Longrightarrow> timeout_ok con'" for rs
      by (rule foldE_invariant[of policy_rule rs con con' timeout_ok]) (use that(2) policy_rule_timeout in blast)+
    moreover have "foldE budget bs con = Inr con' \<Longrightarrow> timeout_ok con'" for bs
      by (rule foldE_invariant[of budget bs con con' timeout_ok]) (use that(2) budget_timeout in blast)+
    ultimately show ?thesis using that Some by (cases n) (simp_all add: constraint_node_def)
  qed
  show ?thesis
  proof (cases svc)
    case None
    with assms show ?thesis by (auto simp: constraints_of_def no_constraints_def)
  next
    case (Some cids)
    with assms have "foldE (constraint_node doc) cids no_constraints = Inr con" by (simp add: constraints_of_def)
    then show ?thesis
      by (rule foldE_invariant[where I = timeout_ok]) (simp add: no_constraints_def, use node in blast)
  qed
qed

definition no_blocks :: "document \<Rightarrow> bool" where
  "no_blocks doc \<longleftrightarrow> list_all (\<lambda>(_, n). case n of Concurrency _ \<Rightarrow> False | _ \<Rightarrow> True) doc"

lemma no_blocks_node: "no_blocks doc \<Longrightarrow> node_of doc nid \<noteq> Some (Concurrency cs)"
  using map_of_SomeD[of "rev doc" nid "Concurrency cs"] by (fastforce simp: no_blocks_def node_of_def list_all_iff)

lemma in_time_flow: "no_blocks (en_doc env) \<Longrightarrow> flow_contract env (in_time env) stopped"
  by unfold_locales (auto simp: step_item_in_time no_blocks_node in_time_def now_of_def)

lemma run_clock:
  assumes "begin_run s = (Inr (), t)"
  shows "now_of t = now_of s \<and> st_failed t = st_failed s \<and> st_steps t = st_steps s \<and> st_skipped t = st_skipped s"
  using begin_run_same[OF assms] by (auto simp: now_of_def)

text \<open>
  C14: deadlines bind. A run that completes under a timeout took no longer than that timeout, retries,
  back-off and \<open>until\<close> rounds included, for every document without a \<open>parallel\<close> block.
\<close>

theorem completed_within_timeout:
  assumes "run_workflow cf wid payload ctx s = (Inr res, t)" and "rr_failure res = None"
    and "constraints_of (cf_doc cf) (service_for (cf_doc cf) wid) = Inr con" and "cn_timeout con = Some ms"
    and "no_blocks (cf_doc cf)"
  shows "rr_duration res \<le> ms"
  using assms(1)
proof (cases rule: run_workflow_cases)
  case (2 nm ids con' c)
  let ?env = "run_env cf con' c payload (now_of s)" and ?s = "fresh_run (s\<lparr>st_ops := []\<rparr>)"
  have con: "con' = con" using 2(3) assms(3) by simp
  have now: "now_of ?s = now_of s" "st_failed ?s = None" by (simp_all add: fresh_run_def now_of_def)
  from 2(4) obtain s1 stop s2 where b: "begin_run ?s = (Inr (), s1)" and i: "run_items ?env ids s1 = (Inr stop, s2)"
    and d: "rr_duration res = now_of s2 - now_of ?s" and f: "rr_failure res = None \<longrightarrow> st_failed s2 = None"
    by (rule run_body_result)
  have env: "en_doc ?env = cf_doc cf" "en_deadline ?env = Some (now_of s + ms)"
    by (simp_all add: run_env_def con assms(4))
  have start: "in_time ?env s1"
    using run_clock[OF b] now env(2) constraints_timeout[OF assms(3)] assms(4) by (simp add: in_time_def)
  have "contract (in_time ?env) stopped (run_items ?env ids)"
    by (rule flow_contract.all_items[OF in_time_flow]) (simp add: env assms(5))
  from contractD[OF this start i]
  have "if stop then stopped s2 else in_time ?env s2" .
  with f assms(2) env(2) have "now_of s2 \<le> now_of s + ms" by (cases stop) (auto simp: stopped_def in_time_def)
  with d now(1) show ?thesis by simp
qed simp

text \<open>A run with a retried step under a timeout of one minute.\<close>

definition timed_doc :: document where
  "timed_doc =
    [(''e'', Entity ''O'' [ex_field ''id'' ''Text'']),
     (''w'', Workflow ''W'' [''s'']), (''s'', WorkflowStep ''S'' [''c'']),
     (''c'', Effect (RepositoryCall (ex_call ''e'' ''create'' None))),
     (''p'', Policy [(''timeout'', PStr ''1m'')]), (''x'', Service ''X'' [''w''] [''p''])]"

lemma timed_run:
  "(case ex_run timed_doc [(''id'', PStr ''1'')] (new_interpreter []) of
      (Inr res, t) \<Rightarrow> rr_failure res = None | _ \<Rightarrow> False) \<and>
   constraints_of timed_doc (service_for timed_doc ''w'') = Inr (no_constraints\<lparr>cn_timeout := Some 60000\<rparr>)"
  by code_simp

theorem completed_within_timeout_witness:
  "\<exists>res t. ex_run timed_doc [(''id'', PStr ''1'')] (new_interpreter []) = (Inr res, t) \<and>
     rr_failure res = None \<and> rr_duration res \<le> 60000"
proof -
  obtain q t where run: "ex_run timed_doc [(''id'', PStr ''1'')] (new_interpreter []) = (q, t)" by fastforce
  with timed_run obtain res where q: "q = Inr res" "rr_failure res = None" by (auto split: sum.splits)
  with run have "run_workflow (ex_config timed_doc) ''w'' [(''id'', PStr ''1'')] [] (new_interpreter []) = (Inr res, t)"
    by (simp add: ex_run_def)
  from completed_within_timeout[OF this q(2), of "no_constraints\<lparr>cn_timeout := Some 60000\<rparr>" 60000] timed_run
  have "rr_duration res \<le> 60000" by (simp add: ex_config_def no_blocks_def timed_doc_def)
  with run q show ?thesis by blast
qed

section \<open>Every step is accounted for\<close>




























text \<open>A guard that does not hold: the step is named by its skip record.\<close>

definition guarded_doc :: document where
  "guarded_doc =
    [(''w'', Workflow ''W'' [''s'', ''g'']), (''s'', WorkflowStep ''S'' []), (''t'', WorkflowStep ''T'' []),
     (''g'', Guard \<lparr>gn_mode = ''when'', gn_children = [''t''], gn_condition = Some ''input.x exists'',
        gn_alternatives = [], gn_count = 0, gn_text_ops = []\<rparr>)]"



section \<open>The fuel of the model\<close>

text \<open>\<open>nests n doc i\<close>: pipelines and guards under \<open>i\<close> are nested fewer than \<open>n\<close> deep.\<close>

fun nests :: "nat \<Rightarrow> document \<Rightarrow> string \<Rightarrow> bool" where
  "nests 0 doc i = False"
| "nests (Suc n) doc i =
     (case node_of doc i of
        Some (Pipeline cs) \<Rightarrow> list_all (nests n doc) cs
      | Some (Guard g) \<Rightarrow> list_all (nests n doc) (gn_children g)
      | _ \<Rightarrow> True)"

lemma seqM_cong: "(\<And>x. x \<in> set xs \<Longrightarrow> m x = n x) \<Longrightarrow> seqM m xs = seqM n xs"
  by (induction xs) (simp_all cong: if_cong)

lemma run_guard_cong:
  assumes "\<And>ids. set ids \<subseteq> set (gn_children g) \<Longrightarrow> b ids = c ids"
  shows "run_guard env nid g b = run_guard env nid g c"
proof -
  have sub: "set (take 1 (gn_children g)) \<subseteq> set (gn_children g)"
    "set (take 1 (drop 1 (gn_children g))) \<subseteq> set (gn_children g)"
    by (auto dest: in_set_takeD in_set_dropD)
  show ?thesis unfolding run_guard_def run_when_def assms[OF sub(1)] assms[OF sub(2)] assms[OF order_refl] ..
qed

text \<open>
  The recursion limit decides nothing. For an item whose pipelines and guards nest fewer than \<open>n\<close>
  deep, every limit of at least \<open>n\<close> gives the same computation, from every state.
\<close>

theorem depth_irrelevant:
  assumes "nests n (en_doc env) i" and "n \<le> m"
  shows "run_item m env i = run_item n env i"
  using assms
proof (induction n arbitrary: m i)
  case (Suc n)
  from Suc.prems(2) obtain k where m: "m = Suc k" "n \<le> k" by (cases m) auto
  show ?case
  proof (cases "node_of (en_doc env) i")
    case (Some nd)
    show ?thesis
    proof (cases nd)
      case (Guard g)
      have "seqM (run_item k env) ids = seqM (run_item n env) ids" if "set ids \<subseteq> set (gn_children g)" for ids
        by (rule seqM_cong, rule Suc.IH) (use that Suc.prems(1) Some Guard m(2) in \<open>auto simp: list_all_iff\<close>)
      then show ?thesis
        unfolding m(1) run_item.simps Some Guard option.case node.case by (rule run_guard_cong)
    next
      case (Pipeline cs)
      have "seqM (run_item k env) cs = seqM (run_item n env) cs"
        by (rule seqM_cong, rule Suc.IH) (use Suc.prems(1) Some Pipeline m(2) in \<open>auto simp: list_all_iff\<close>)
      then show ?thesis unfolding m(1) run_item.simps Some Pipeline option.case node.case .
    qed (simp_all add: m(1) Some)
  next
    case None
    then show ?thesis by (simp add: m(1))
  qed
qed simp

theorem depth_irrelevant_witness: "run_item 7 (run_env (ex_config guarded_doc) no_constraints [] [] 0) ''g'' =
    run_item 2 (run_env (ex_config guarded_doc) no_constraints [] [] 0) ''g''"
proof (rule depth_irrelevant)
  show "nests 2 (en_doc (run_env (ex_config guarded_doc) no_constraints [] [] 0)) ''g''" by code_simp
qed simp

end
