(* ===== verification/ParallelProps.thy ===== *)
theory ParallelProps
  imports FlowFacts RunFacts Examples
begin

text \<open>
  A \<open>parallel\<close> block under an arbitrary schedule: each of its workers comes to an end within the fuel of the
  join, and its records are those of the finished ones in the declared order of the steps; and steps that
  are attempted once, in sequence or in a block.
\<close>

section \<open>Invariants of the workers\<close>

text \<open>A property of worker \<open>i\<close> that a turn of it keeps.\<close>

locale worker_invariant =
  fixes env :: env and steps :: "(string \<times> string list) list" and W :: "nat \<Rightarrow> worker \<Rightarrow> bool"
  assumes turn: "worker_turn env c k (fst (steps ! i)) (snd (steps ! i)) w s = (Inr w', t) \<Longrightarrow> W i w \<Longrightarrow> W i w'"
    and idle: "W i Waiting" "W i Cancelled"
begin

definition all_ok :: "block_state \<Rightarrow> bool" where
  "all_ok b \<longleftrightarrow> length (bs_workers b) = length steps \<and> (\<forall>i < length steps. W i (bs_workers b ! i))"

lemma start_ok: "all_ok \<lparr>bs_workers = replicate (length steps) Waiting, bs_started = n, bs_cancel = c\<rparr>"
  by (simp add: all_ok_def idle)

lemma turn_ok:
  assumes "take_turn env steps i b s = (Inr b', t)" and "all_ok b" shows "all_ok b'"
proof -
  from assms(1) obtain w where "worker_turn env (bs_cancel b) (bs_started b) (fst (steps ! i)) (snd (steps ! i)) (bs_workers b ! i) s = (Inr w, t)"
    and b': "b' = set_worker i w b"
    by (auto simp: take_turn_def bind_result ret_def)
  from turn[OF this(1)] assms(2) have "i < length steps \<Longrightarrow> W i w" by (simp add: all_ok_def)
  with assms(2) show ?thesis
    unfolding b' by (cases "i < length steps") (auto simp: all_ok_def set_worker_def nth_list_update list_update_beyond)
qed

lemma cancelled_ok: "all_ok b \<Longrightarrow> all_ok (cancel_pending b)"
  by (auto simp: all_ok_def cancel_pending_def idle)

lemma schedule_keeps: "run_schedule env cap steps es b s = (Inr b', t) \<Longrightarrow> all_ok b \<Longrightarrow> all_ok b'"
proof (induction es arbitrary: b s)
  case (Cons e es)
  show ?case
  proof (cases e)
    case (AttemptStep i)
    with Cons turn_ok show ?thesis by (auto simp: bind_result split: if_splits)
  next
    case CancelPending
    with Cons cancelled_ok show ?thesis by (auto split: if_splits)
  qed
qed (simp add: ret_def)

lemma settle_ok: "all_ok b \<Longrightarrow> all_ok (settle b)"
  by (simp add: settle_def cancelled_ok)

lemma join_keeps: "join_workers k env steps b s = (Inr b', t) \<Longrightarrow> all_ok b \<Longrightarrow> all_ok b'"
proof (induction k arbitrary: b s)
  case (Suc k)
  with settle_ok turn_ok show ?case by (auto simp: bind_result ret_def split: option.splits)
qed (simp add: ret_def)

end

section \<open>What a worker reports\<close>

lemma catch_all_result: "catch_all m s = (Inr w, t) \<longleftrightarrow> m s = (Inr w, t) \<or> w = Died \<and> (\<exists>e. m s = (Inl e, t))"
  by (auto simp: catch_all_def split: prod.splits sum.splits)

definition entry_named :: "string \<Rightarrow> worker \<Rightarrow> bool" where
  "entry_named nm w = (case w of Finished _ oc \<Rightarrow> sr_step (oc_entry oc) = nm | _ \<Rightarrow> True)"

lemma finish_worker_named: "finish_worker env rank nm cs n err s = (Inr w, t) \<Longrightarrow> entry_named nm w"
  by (auto simp: finish_worker_def bind_result run_defs entry_named_def)

lemma worker_attempt_named: "worker_attempt env rank nm cs n s = (Inr w, t) \<Longrightarrow> entry_named nm w"
  by (auto simp: worker_attempt_def bind_result liftM_def ret_def entry_named_def[of nm "Trying _ _ _"]
      dest: finish_worker_named split: option.splits if_splits)

lemma worker_turn_named: "worker_turn env c k nm cs w s = (Inr w', t) \<Longrightarrow> entry_named nm w \<Longrightarrow> entry_named nm w'"
  by (auto simp: worker_turn_def catch_all_result ret_def entry_named_def[of nm Died]
      dest: finish_worker_named worker_attempt_named split: worker.splits if_splits)

interpretation named: worker_invariant env steps "\<lambda>i. entry_named (fst (steps ! i))"
  by unfold_locales (rule worker_turn_named, assumption+, simp_all add: entry_named_def)

section \<open>Every worker comes to an end\<close>

text \<open>The attempts a worker may still make.\<close>

definition turns_left :: "worker \<Rightarrow> nat" where
  "turns_left w = (case w of Waiting \<Rightarrow> max_step_attempts | Trying _ n _ \<Rightarrow> max_step_attempts - n | _ \<Rightarrow> 0)"

definition block_left :: "block_state \<Rightarrow> nat" where
  "block_left b = sum_list (map turns_left (bs_workers b))"

lemma finished_left: "finish_worker env rank nm cs n err s = (Inr w, t) \<Longrightarrow> turns_left w = 0"
  by (auto simp: finish_worker_def bind_result run_defs turns_left_def)

lemma worker_attempt_left:
  "worker_attempt env rank nm cs n s = (Inr w, t) \<Longrightarrow> n < max_step_attempts \<Longrightarrow> turns_left w < max_step_attempts - n"
  by (auto simp: worker_attempt_def bind_result liftM_def ret_def turns_left_def[of "Trying _ _ _"]
      dest!: finished_left retryable_more split: option.splits if_splits)

lemma worker_turn_left:
  assumes "worker_turn env c k nm cs w s = (Inr w', t)" "worker_ok con w" "\<not> is_over w"
  shows "turns_left w' < turns_left w"
proof (cases w)
  case Waiting
  with assms(1) worker_attempt_left[of env k nm cs 0 s w' t] show ?thesis
    by (auto simp: worker_turn_def catch_all_result turns_left_def max_step_attempts_def)
next
  case (Trying rank n e)
  with assms(2) have "n < max_step_attempts" by (simp add: worker_ok_def)
  with assms(1) Trying worker_attempt_left[of env rank nm cs n s w' t] finished_left[of env rank nm cs "Suc n" "Some e" s w' t]
  show ?thesis by (auto simp: worker_turn_def catch_all_result turns_left_def split: if_splits)
qed (use assms(3) in \<open>simp_all add: is_over_def\<close>)

lemma sum_list_update_less:
  fixes f :: "'a \<Rightarrow> nat"
  shows "i < length xs \<Longrightarrow> f x < f (xs ! i) \<Longrightarrow> sum_list (map f (xs[i := x])) < sum_list (map f xs)"
  by (induction xs arbitrary: i) (auto split: nat.splits)

lemma cancel_left: "block_left (cancel_pending b) \<le> block_left b"
  by (auto simp: block_left_def cancel_pending_def turns_left_def comp_def intro!: sum_list_mono)

lemma settle_left: "block_left (settle b) \<le> block_left b"
  by (simp add: settle_def cancel_left)

lemma first_open_Some: "first_open ws = Some i \<Longrightarrow> i < length ws \<and> \<not> is_over (ws ! i)"
  by (induction ws arbitrary: i) (auto split: if_splits)

lemma first_open_None: "first_open ws = None \<longleftrightarrow> list_all is_over ws"
  by (induction ws) auto

lemma worker_turn_answers: "\<exists>w' t. worker_turn env c k nm cs w s = (Inr w', t)"
  by (auto simp: worker_turn_def catch_all_def ret_def split: worker.split prod.split sum.split)

lemma take_turn_answers: "\<exists>b' t. take_turn env steps i b s = (Inr b', t)"
  using worker_turn_answers[of env "bs_cancel b" "bs_started b" "fst (steps ! i)" "snd (steps ! i)" "bs_workers b ! i" s]
  by (auto simp: take_turn_def bindM_def ret_def)

lemma schedule_answers: "\<exists>b' t. run_schedule env cap steps es b s = (Inr b', t)"
proof (induction es arbitrary: b s)
  case (Cons e es)
  show ?case
  proof (cases e)
    case (AttemptStep i)
    obtain b' t where "take_turn env steps i b s = (Inr b', t)" using take_turn_answers by blast
    with AttemptStep Cons show ?thesis by (auto simp: bindM_def)
  qed (use Cons in simp)
qed (simp add: ret_def)

text \<open>With more fuel than turns left, the join answers and leaves no worker open.\<close>

lemma join_ends:
  "block_left b < k \<Longrightarrow> workers_ok (en_con env) b \<Longrightarrow>
     \<exists>b' t. join_workers k env steps b s = (Inr b', t) \<and> list_all is_over (bs_workers b')"
proof (induction k arbitrary: b s)
  case (Suc k)
  have ok: "workers_ok (en_con env) (settle b)"
    using Suc.prems(2) cancel_ok[of b "en_con env"] by (simp add: settle_def)
  show ?case
  proof (cases "first_open (bs_workers (settle b))")
    case None
    then show ?thesis using first_open_None[of "bs_workers (settle b)"] by (simp add: ret_def)
  next
    case (Some i)
    obtain b1 u where t: "take_turn env steps i (settle b) s = (Inr b1, u)" using take_turn_answers by blast
    then obtain w where w: "worker_turn env (bs_cancel (settle b)) (bs_started (settle b)) (fst (steps ! i)) (snd (steps ! i))
        (bs_workers (settle b) ! i) s = (Inr w, u)" and b1: "b1 = set_worker i w (settle b)"
      by (auto simp: take_turn_def bind_result ret_def)
    from first_open_Some[OF Some] have i: "i < length (bs_workers (settle b))" "\<not> is_over (bs_workers (settle b) ! i)" by auto
    have "worker_ok (en_con env) (bs_workers (settle b) ! i)" using ok i(1) nth_mem by blast
    from worker_turn_left[OF w this i(2)] have "turns_left w < turns_left (bs_workers (settle b) ! i)" .
    with i(1) have "block_left b1 < block_left (settle b)"
      by (simp add: b1 block_left_def set_worker_def sum_list_update_less)
    with settle_left[of b] Suc.prems(1) have "block_left b1 < k" by simp
    from Suc.IH[OF this take_turn_ok[OF t ok], of u] Some t show ?thesis by (simp add: bindM_def)
  qed
qed simp

section \<open>The report\<close>

text \<open>The records of the workers that finished, in order.\<close>

definition entries :: "worker list \<Rightarrow> step_record list" where
  "entries ws = concat (map (\<lambda>w. case w of Finished _ oc \<Rightarrow> [oc_entry oc] | _ \<Rightarrow> []) ws)"

lemma report_workers_steps: "st_steps (fold report_worker ws s) = st_steps s @ entries ws"
  by (induction ws arbitrary: s) (auto simp: report_worker_def entries_def add_harvest_def Let_def split: worker.split)

lemma entries_named:
  "length ws = length names \<Longrightarrow> (\<forall>i < length ws. entry_named (names ! i) (ws ! i) \<and> is_finished (ws ! i)) \<Longrightarrow>
     map sr_step (entries ws) = names"
proof (induction ws names rule: list_induct2)
  case (Cons w ws n names)
  have "entry_named n w \<and> is_finished w" "\<forall>i < length ws. entry_named (names ! i) (ws ! i) \<and> is_finished (ws ! i)"
    using Cons.prems by (fastforce dest: spec[of _ 0], fastforce dest: spec[of _ "Suc _"])
  with Cons.IH show ?case
    by (cases w) (auto simp: entries_def entry_named_def is_finished_def)
qed (simp add: entries_def)

lemma entries_mem: "r \<in> set (entries ws) \<longleftrightarrow> (\<exists>i < length ws. \<exists>rank oc. ws ! i = Finished rank oc \<and> r = oc_entry oc)"
  by (fastforce simp: entries_def in_set_conv_nth split: worker.splits)

text \<open>A worker that finished with an error fails the run.\<close>

definition step_failed :: "worker \<Rightarrow> bool" where
  "step_failed w = (case w of Finished _ oc \<Rightarrow> oc_error oc \<noteq> None | _ \<Rightarrow> False)"

lemma earliest_failure_None:
  "length names = length ws \<Longrightarrow> earliest_failure (zip names ws) = None \<longleftrightarrow> \<not> list_ex step_failed ws"
  by (induction names ws rule: list_induct2) (auto simp: step_failed_def split: worker.split option.split)

lemma report_block_result:
  assumes "length names = length ws"
  shows "\<exists>stop t. report_block env names ws s = (Inr stop, t) \<and> st_steps t = st_steps s @ entries ws \<and>
    (list_ex step_failed ws \<longrightarrow> stop \<and> st_failed t \<noteq> None)"
  using earliest_failure_None[OF assms]
  by (auto simp: report_block_def bindM_def run_defs fail_run_def report_workers_steps split: option.split)

section \<open>Cancellation\<close>

text \<open>Nothing is cancelled unless a worker has failed, and what has failed stays.\<close>

definition cancelled_for_cause :: "block_state \<Rightarrow> bool" where
  "cancelled_for_cause b \<longleftrightarrow> (bs_cancel b \<or> Cancelled \<in> set (bs_workers b) \<longrightarrow> list_ex has_failed (bs_workers b))"

lemma worker_turn_not_cancelled:
  assumes "worker_turn env c k nm cs w s = (Inr w', t)" and "\<not> is_over w"
  shows "w' \<noteq> Cancelled"
  using assms
  by (cases w)
    (auto simp: worker_turn_def worker_attempt_def finish_worker_def catch_all_result bind_result run_defs is_over_def advance_def
      split: if_splits option.splits)

lemma take_turn_cause:
  assumes "take_turn env steps i b s = (Inr b', t)" and "i < length (bs_workers b)" and "\<not> is_over (bs_workers b ! i)"
    and "cancelled_for_cause b"
  shows "cancelled_for_cause b'"
proof -
  obtain w where w: "worker_turn env (bs_cancel b) (bs_started b) (fst (steps ! i)) (snd (steps ! i)) (bs_workers b ! i) s = (Inr w, t)"
    and b': "b' = set_worker i w b"
    using assms(1) by (auto simp: take_turn_def bind_result ret_def)
  have live: "\<not> has_failed (bs_workers b ! i)" "w \<noteq> Cancelled"
    using assms(3) worker_turn_not_cancelled[OF w assms(3)] by (auto simp: has_failed_def is_over_def split: worker.splits)
  have "list_ex has_failed ((bs_workers b)[i := w])" if f: "list_ex has_failed (bs_workers b)"
  proof -
    obtain j where "j < length (bs_workers b)" "has_failed (bs_workers b ! j)" using f by (auto simp: list_ex_length)
    moreover from this live(1) have "i \<noteq> j" by auto
    ultimately show ?thesis by (auto simp: list_ex_length intro!: exI[of _ j])
  qed
  moreover have "Cancelled \<in> set ((bs_workers b)[i := w]) \<Longrightarrow> Cancelled \<in> set (bs_workers b)"
    using set_update_subset_insert[of "bs_workers b" i w] live(2) by auto
  ultimately show ?thesis using assms(4) by (auto simp: cancelled_for_cause_def b' set_worker_def)
qed

lemma cancel_cause: "list_ex has_failed (bs_workers b) \<Longrightarrow> cancelled_for_cause (cancel_pending b)"
  by (auto simp: cancelled_for_cause_def cancel_pending_def list_ex_iff has_failed_def split: worker.splits)

lemma settle_cause: "cancelled_for_cause b \<Longrightarrow> cancelled_for_cause (settle b)"
  by (simp add: settle_def cancel_cause)

lemma schedule_cause: "run_schedule env cap steps es b s = (Inr b', t) \<Longrightarrow> cancelled_for_cause b \<Longrightarrow> cancelled_for_cause b'"
proof (induction es arbitrary: b s)
  case (Cons e es)
  show ?case
  proof (cases e)
    case (AttemptStep i)
    with Cons take_turn_cause[of env steps i b] show ?thesis by (auto simp: bind_result may_move_def split: if_splits)
  next
    case CancelPending
    with Cons cancel_cause show ?thesis by (auto split: if_splits)
  qed
qed (simp add: ret_def)

lemma join_cause: "join_workers k env steps b s = (Inr b', t) \<Longrightarrow> cancelled_for_cause b \<Longrightarrow> cancelled_for_cause b'"
proof (induction k arbitrary: b s)
  case (Suc k)
  note ok = settle_cause[OF Suc.prems(2)]
  show ?case
  proof (cases "first_open (bs_workers (settle b))")
    case None
    then show ?thesis using Suc.prems(1) ok by (simp add: ret_def)
  next
    case (Some i)
    with Suc.prems(1) obtain b1 u where "take_turn env steps i (settle b) s = (Inr b1, u)" "join_workers k env steps b1 u = (Inr b', t)"
      by (auto simp: bind_result)
    with take_turn_cause[OF this(1) _ _ ok] first_open_Some[OF Some] Suc.IH show ?thesis by blast
  qed
qed (simp add: ret_def)

section \<open>The block as a whole\<close>

text \<open>The workers as the join leaves them.\<close>

definition block_workers :: "env \<Rightarrow> string \<Rightarrow> nat \<Rightarrow> (string \<times> string list) list \<Rightarrow> worker list run" where
  "block_workers env nid cap steps =
     bindM (run_schedule env cap steps (en_schedule env nid)
              \<lparr>bs_workers = replicate (length steps) Waiting, bs_started = 0, bs_cancel = False\<rparr>) (\<lambda>b.
     bindM (join_workers (join_fuel steps) env steps b) (\<lambda>b. ret (bs_workers b)))"

lemma block_ends:
  obtains ws v where "block_workers env nid cap steps s = (Inr ws, v)" and "length ws = length steps" and "list_all is_over ws"
    and "Cancelled \<in> set ws \<longrightarrow> list_ex has_failed ws" and "st_steps v = st_steps s"
    and "\<And>W. worker_invariant env steps W \<Longrightarrow> \<forall>i < length steps. W i (ws ! i)"
proof -
  let ?b0 = "\<lparr>bs_workers = replicate (length steps) Waiting, bs_started = 0, bs_cancel = False\<rparr>"
  obtain b u where b: "run_schedule env cap steps (en_schedule env nid) ?b0 s = (Inr b, u)" using schedule_answers by blast
  have ok: "workers_ok (en_con env) b" using schedule_ok[OF b] by simp
  have kept: "worker_invariant.all_ok steps W b" if "worker_invariant env steps W" for W
    using worker_invariant.schedule_keeps[OF that b worker_invariant.start_ok[OF that]] .
  have named: "named.all_ok steps b" using named.schedule_keeps[OF b named.start_ok] .
  have "sum_list (map turns_left ws) \<le> length ws * max_step_attempts" for ws
    by (induction ws) (auto simp: turns_left_def split: worker.split)
  then have "block_left b \<le> length steps * max_step_attempts"
    using named by (metis block_left_def named.all_ok_def)
  then have "block_left b < join_fuel steps" by (simp add: join_fuel_def le_imp_less_Suc order.trans)
  from join_ends[OF this ok, of steps u] obtain b' v where j: "join_workers (join_fuel steps) env steps b u = (Inr b', v)"
    and over: "list_all is_over (bs_workers b')" by blast
  have "cancelled_for_cause b'"
    using join_cause[OF j schedule_cause[OF b]] by (simp add: cancelled_for_cause_def)
  moreover have "named.all_ok steps b'" using named.join_keeps[OF j named] .
  moreover have "st_steps v = st_steps s"
    using quiet.move_schedule quiet.move_join b j unfolding moves_def same_records_def by (metis snd_conv)
  moreover have "\<forall>i < length steps. W i (bs_workers b' ! i)" if "worker_invariant env steps W" for W
    using worker_invariant.join_keeps[OF that j kept[OF that]] worker_invariant.all_ok_def[OF that] by blast
  moreover have "block_workers env nid cap steps s = (Inr (bs_workers b'), v)"
    using b j by (simp add: block_workers_def bindM_def ret_def)
  ultimately show ?thesis using over
    by (intro that[of "bs_workers b'" v]) (simp_all add: cancelled_for_cause_def named.all_ok_def)
qed

lemma run_parallel_workers:
  assumes "mapE (step_of (en_doc env)) ids = Inr steps" and "pool_size (cn_parallel (en_con env)) (length steps) = Inr cap"
    and "block_workers env nid cap steps s = (Inr ws, v)"
  shows "run_parallel env nid ids s = report_block env (map fst steps) ws v"
  using assms by (auto simp: run_parallel_def block_workers_def bindM_def liftM_def ret_def split: prod.splits sum.splits)

text \<open>
  C12: a \<open>parallel\<close> block accounts for its steps under every schedule. Once its steps and its pool are accepted,
  every worker comes to an end within the hundred attempts of its step: finished, died of an exception that
  is no \<open>RunError\<close>, or cancelled before it started, which happens only when another one failed. The block adds
  exactly the entries of the finished workers to the records, each under the name of its step, in the
  declared order and not in that in which they finished: those of all steps when none failed. If a step
  failed with a \<open>RunError\<close>, the run stops as failed.
\<close>

theorem parallel_reports_in_order:
  assumes "mapE (step_of (en_doc env)) ids = Inr steps" and "pool_size (cn_parallel (en_con env)) (length steps) = Inr cap"
  shows "\<exists>ws v stop t. block_workers env nid cap steps s = (Inr ws, v) \<and> run_parallel env nid ids s = (Inr stop, t) \<and>
    length ws = length steps \<and> list_all is_over ws \<and> (Cancelled \<in> set ws \<longrightarrow> list_ex has_failed ws) \<and>
    st_steps t = st_steps s @ entries ws \<and>
    (\<forall>i rank oc. i < length ws \<and> ws ! i = Finished rank oc \<longrightarrow> sr_step (oc_entry oc) = fst (steps ! i)) \<and>
    (\<not> list_ex has_failed ws \<longrightarrow> map sr_step (entries ws) = map fst steps) \<and>
    (list_ex step_failed ws \<longrightarrow> stop \<and> st_failed t \<noteq> None)"
proof -
  obtain ws v where ws: "block_workers env nid cap steps s = (Inr ws, v)" "length ws = length steps" "list_all is_over ws"
    "Cancelled \<in> set ws \<longrightarrow> list_ex has_failed ws" "st_steps v = st_steps s"
    and inv: "\<And>W. worker_invariant env steps W \<Longrightarrow> \<forall>i < length steps. W i (ws ! i)"
    using block_ends[of env nid cap steps s] by metis
  have named: "\<forall>i < length steps. entry_named (fst (steps ! i)) (ws ! i)"
    using inv[OF named.worker_invariant_axioms] .
  have all: "map sr_step (entries ws) = map fst steps" if "\<not> list_ex has_failed ws"
  proof (rule entries_named)
    have "is_finished (ws ! i)" if "i < length ws" for i
    proof -
      have "ws ! i \<in> set ws" using that by simp
      then have "is_over (ws ! i)" "ws ! i \<noteq> Cancelled" "\<not> has_failed (ws ! i)"
        using ws(3,4) \<open>\<not> list_ex has_failed ws\<close> by (auto simp: list_all_iff list_ex_iff)
      then show ?thesis by (auto simp: is_over_def is_finished_def has_failed_def split: worker.splits)
    qed
    with named ws(2) show "\<forall>i < length ws. entry_named (map fst steps ! i) (ws ! i) \<and> is_finished (ws ! i)" by simp
  qed (simp add: ws(2))
  obtain stop t where r: "report_block env (map fst steps) ws v = (Inr stop, t)" "st_steps t = st_steps v @ entries ws"
    "list_ex step_failed ws \<longrightarrow> stop \<and> st_failed t \<noteq> None"
    using report_block_result[of "map fst steps" ws env v] ws(2) by auto
  have "run_parallel env nid ids s = (Inr stop, t)" using run_parallel_workers[OF assms ws(1)] r(1) by simp
  moreover have "\<forall>i rank oc. i < length ws \<and> ws ! i = Finished rank oc \<longrightarrow> sr_step (oc_entry oc) = fst (steps ! i)"
    using named ws(2) by (auto simp: entry_named_def split: worker.splits)
  ultimately show ?thesis using ws r all by (metis (no_types, lifting))
qed

definition pair_doc :: document where
  "pair_doc =
    [(''w'', Workflow ''W'' [''p'']), (''p'', Concurrency [''s'', ''t'']),
     (''s'', WorkflowStep ''S'' [''v'']), (''t'', WorkflowStep ''T'' []), (''v'', Effect (Validation ''e'' ''semantic-types'')),
     (''e'', Entity ''O'' [ex_field ''a'' ''P'']), (''b'', Refinement ''P'' ''Decimal'' (no_facets\<lparr>ft_min := Some (PInt 1)\<rparr>))]"

text \<open>The second worker moves first; both records appear in the declared order.\<close>

definition swapped :: config where
  "swapped = (ex_config pair_doc)\<lparr>cf_schedule := (\<lambda>_. [AttemptStep 1, AttemptStep 0])\<rparr>"

theorem parallel_reports_in_order_witness:
  "\<exists>stop t. run_parallel (run_env swapped no_constraints [] [(''a'', PStr ''2'')] 0) ''p'' [''s'', ''t''] (new_interpreter []) = (Inr stop, t) \<and>
     map sr_step (st_steps t) = [''S'', ''T'']"
proof -
  let ?env = "run_env swapped no_constraints [] [(''a'', PStr ''2'')] 0" and ?steps = "[(''S'', [''v'']), (''T'', [])]"
  have steps: "mapE (step_of (en_doc ?env)) [''s'', ''t''] = Inr ?steps"
    and cap: "pool_size (cn_parallel (en_con ?env)) (length ?steps) = Inr 2"
    and fine: "case fst (block_workers ?env ''p'' 2 ?steps (new_interpreter [])) of Inr ws \<Rightarrow> \<not> list_ex has_failed ws | Inl _ \<Rightarrow> False"
    and start: "st_steps (new_interpreter []) = []"
    by code_simp+
  from parallel_reports_in_order[OF steps cap, of "''p''" "new_interpreter []"] obtain ws v stop t
    where r: "block_workers ?env ''p'' 2 ?steps (new_interpreter []) = (Inr ws, v)"
      "run_parallel ?env ''p'' [''s'', ''t''] (new_interpreter []) = (Inr stop, t)"
      "st_steps t = st_steps (new_interpreter []) @ entries ws"
      "\<not> list_ex has_failed ws \<longrightarrow> map sr_step (entries ws) = map fst ?steps"
    by blast
  have "\<not> list_ex has_failed ws" using fine unfolding r(1) by simp
  with r start show ?thesis by simp
qed

text \<open>
  A worker that dies of anything but a \<open>RunError\<close> leaves no trace: the run below completes, and commits,
  although its validation never finished.
\<close>

lemma swallowed_run:
  "(case run_workflow swapped ''w'' [(''a'', PStr ''NaN'')] [] (new_interpreter []) of
      (Inr res, t) \<Rightarrow> rr_failure res = None \<and> map sr_step (rr_steps res) = [''T''] \<and> rp_snapshot (st_repo t) = None
    | _ \<Rightarrow> False)"
  by code_simp

section \<open>Steps that must not be repeated\<close>

text \<open>
  The effects a retry would do twice: a row created, a request sent, an event emitted; and a rejection, which
  is the step's answer.
\<close>

fun must_not_repeat :: "effect \<Rightarrow> bool" where
  "must_not_repeat (RepositoryCall c) = (rc_operation c = ''create'')"
| "must_not_repeat (NetworkCall _) = True"
| "must_not_repeat (EventEmit _ _) = True"
| "must_not_repeat (Rejection _) = True"
| "must_not_repeat _ = False"

definition once_only :: "document \<Rightarrow> string list \<Rightarrow> bool" where
  "once_only doc cs \<longleftrightarrow> (\<exists>c \<in> set cs. \<exists>e. node_of doc c = Some (Effect e) \<and> must_not_repeat e)"

lemma must_not_repeat_forbids: "must_not_repeat e \<Longrightarrow> forbids_retry (Effect e)"
  by (cases e rule: must_not_repeat.cases) (simp_all add: forbids_retry_def idempotent_ops_def)

lemma once_only_final: "once_only (en_doc env) cs \<Longrightarrow> retryable env cs n t \<noteq> Inr True"
proof -
  assume "once_only (en_doc env) cs"
  then have "children_allow (en_doc env) cs \<noteq> Inr True"
    by (induction cs) (auto simp: once_only_def dest: must_not_repeat_forbids split: option.splits)
  then show ?thesis by (auto simp: retryable_def)
qed

lemma retried_not_once: "retryable env cs n t = Inr True \<Longrightarrow> \<not> once_only (en_doc env) cs"
  using once_only_final by blast

text \<open>A record whose name only such steps have counts one attempt.\<close>

definition counted_once :: "document \<Rightarrow> step_record \<Rightarrow> bool" where
  "counted_once doc r \<longleftrightarrow>
     ((\<forall>i cs. node_of doc i = Some (WorkflowStep (sr_step r) cs) \<longrightarrow> once_only doc cs) \<longrightarrow> sr_attempts r = 1)"

definition keeps_counts :: "document \<Rightarrow> istate \<Rightarrow> istate \<Rightarrow> bool" where
  "keeps_counts doc s t \<longleftrightarrow> (\<forall>r \<in> set (st_steps t). r \<in> set (st_steps s) \<or> counted_once doc r)"

lemma keeps_counts_same: "st_steps t = st_steps s \<Longrightarrow> keeps_counts doc s t"
  by (simp add: keeps_counts_def)

interpretation counts: effect_order "keeps_counts doc"
  by unfold_locales (auto simp: keeps_counts_def)

lemma counts_fail: "moves (keeps_counts doc) (fail_run f)"
  by (simp add: moves_def fail_run_def bindM_def updM_def ret_def keeps_counts_same)

lemma attempted_once:
  assumes "once_only (en_doc env) cs" and "attempt_loop k env nm cs 0 s = (Inr (m, err), t)"
  shows "m = 1"
proof -
  obtain k' where k: "k = Suc k'" using assms(2) by (cases k) (auto simp: raise_def)
  show ?thesis
    using assms(2) once_only_final[OF assms(1)] unfolding k
    by (auto simp: bindM_def ret_def liftM_def split: prod.splits sum.splits option.splits if_splits)
qed

lemma step_counts:
  assumes "node_of (en_doc env) i = Some (WorkflowStep nm cs)"
  shows "moves (keeps_counts (en_doc env)) (run_step_item env nm cs)"
proof -
  let ?R = "keeps_counts (en_doc env)"
  let ?after = "\<lambda>start (n, err). bindM (liftM (\<lambda>_. step_kinds (en_doc env) cs)) (\<lambda>kinds.
     bindM (updM (\<lambda>s. s\<lparr>st_steps := st_steps s @
              [\<lparr>sr_step = nm, sr_attempts = n, sr_duration = now_of s - start, sr_effects = kinds\<rparr>]\<rparr>)) (\<lambda>_.
     case err of
       Some e \<Rightarrow> fail_run (StepFailed nm e)
     | None \<Rightarrow>
         bindM (liftM (\<lambda>s. harvest_step env s nm cs)) (\<lambda>h.
         bindM (updM (add_harvest h)) (\<lambda>_.
         bindM (getM now_of) (\<lambda>t.
           if deadline_passed (en_deadline env) t then fail_run (DeadlineAfter nm) else ret False)))))"
  have after: "moves ?R (?after start (n, err))" if "once_only (en_doc env) cs \<longrightarrow> n = 1" for start n err
    unfolding prod.case using that assms
    by (intro counts.parts moves_upd counts_fail) (auto simp: keeps_counts_def counted_once_def add_harvest_def)
  have "moves ?R (bindM (attempt_loop max_step_attempts env nm cs 0) (?after start))" for start
  proof (rule movesI)
    fix s
    obtain r t where a: "attempt_loop max_step_attempts env nm cs 0 s = (r, t)" by fastforce
    with counts.move_attempts have st: "?R s t" by (metis moves_def snd_conv)
    show "?R s (snd (bindM (attempt_loop max_step_attempts env nm cs 0) (?after start) s))"
    proof (cases r)
      case (Inl e)
      with a st show ?thesis by (simp add: bindM_def)
    next
      case (Inr p)
      obtain n err where p: "p = (n, err)" by (cases p)
      with a Inr have "once_only (en_doc env) cs \<longrightarrow> n = 1" using attempted_once by blast
      with after have "?R t (snd (?after start (n, err) t))" by (simp add: moves_def)
      with a Inr p st show ?thesis by (simp add: bindM_def) (rule counts.trans)
    qed
  qed
  then show ?thesis unfolding run_step_item_def by (rule counts.bind[OF counts.still(4)])
qed

text \<open>A worker of such a step never tries again.\<close>

definition worker_once :: "document \<Rightarrow> string list \<Rightarrow> worker \<Rightarrow> bool" where
  "worker_once doc cs w =
     (case w of
        Trying _ _ _ \<Rightarrow> \<not> once_only doc cs
      | Finished _ oc \<Rightarrow> once_only doc cs \<longrightarrow> sr_attempts (oc_entry oc) = 1
      | _ \<Rightarrow> True)"

lemma finish_worker_once:
  "finish_worker env rank nm cs n err s = (Inr w, t) \<Longrightarrow> once_only (en_doc env) cs \<longrightarrow> n = 1 \<Longrightarrow> worker_once (en_doc env) cs w"
  by (auto simp: finish_worker_def bind_result run_defs worker_once_def)

lemma worker_once_free: "\<not> once_only doc cs \<Longrightarrow> worker_once doc cs w"
  by (simp add: worker_once_def split: worker.split)

lemma worker_attempt_once:
  assumes "worker_attempt env rank nm cs n s = (Inr w, t)" and "once_only (en_doc env) cs \<longrightarrow> n = 0"
  shows "worker_once (en_doc env) cs w"
proof (cases "once_only (en_doc env) cs")
  case True
  obtain err u where u: "tryM (run_step env nm cs) s = (Inr err, u)"
    using assms(1) by (auto simp: worker_attempt_def bind_result)
  have "finish_worker env rank nm cs (Suc 0) err u = (Inr w, t)"
  proof (cases err)
    case None
    then show ?thesis using assms True u by (simp add: worker_attempt_def bindM_def)
  next
    case (Some e)
    then obtain more where "retryable env cs (Suc 0) (now_of u) = Inr more"
      using assms True u by (auto simp: worker_attempt_def bind_result liftM_def)
    with Some show ?thesis using assms True u once_only_final[OF True, of "Suc 0" "now_of u"]
      by (cases more) (simp_all add: worker_attempt_def bindM_def liftM_def)
  qed
  then show ?thesis by (rule finish_worker_once) simp
qed (rule worker_once_free)

lemma worker_turn_once:
  "worker_turn env c k nm cs w s = (Inr w', t) \<Longrightarrow> worker_once (en_doc env) cs w \<Longrightarrow> worker_once (en_doc env) cs w'"
  by (cases "once_only (en_doc env) cs"; cases w)
    (auto simp: worker_turn_def catch_all_result ret_def worker_once_free worker_once_def[of _ _ Died] worker_once_def[of _ _ "Trying _ _ _"]
      dest: worker_attempt_once)

interpretation once: worker_invariant env steps "\<lambda>i. worker_once (en_doc env) (snd (steps ! i))"
  by unfold_locales (rule worker_turn_once, assumption+, simp_all add: worker_once_def)

lemma step_of_node: "step_of doc i = Inr (nm, cs) \<Longrightarrow> node_of doc i = Some (WorkflowStep nm cs)"
  by (auto simp: step_of_def split: option.splits node.splits)

lemma block_counts: "moves (keeps_counts (en_doc env)) (run_parallel env nid ids)"
proof (rule movesI)
  fix s
  show "keeps_counts (en_doc env) s (snd (run_parallel env nid ids s))"
  proof (cases "\<exists>steps cap. mapE (step_of (en_doc env)) ids = Inr steps \<and> pool_size (cn_parallel (en_con env)) (length steps) = Inr cap")
    case False
    then show ?thesis
      by (cases "mapE (step_of (en_doc env)) ids")
        (auto simp: run_parallel_def bindM_def liftM_def keeps_counts_same split: sum.split)
  next
    case True
    then obtain steps cap where st: "mapE (step_of (en_doc env)) ids = Inr steps"
      "pool_size (cn_parallel (en_con env)) (length steps) = Inr cap" by blast
    obtain ws v where ws: "block_workers env nid cap steps s = (Inr ws, v)" "length ws = length steps" "st_steps v = st_steps s"
      and inv: "\<And>W. worker_invariant env steps W \<Longrightarrow> \<forall>i < length steps. W i (ws ! i)"
      using block_ends[of env nid cap steps s] by metis
    have "counted_once (en_doc env) r" if m: "r \<in> set (entries ws)" for r
    proof -
      obtain i rank oc where i: "i < length steps" "ws ! i = Finished rank oc" "r = oc_entry oc"
        using m ws(2) entries_mem[of r ws] by metis
      obtain j where "step_of (en_doc env) j = Inr (fst (steps ! i), snd (steps ! i))"
        using mapE_mem[OF st(1), of "steps ! i"] i(1) by auto
      then have "node_of (en_doc env) j = Some (WorkflowStep (fst (steps ! i)) (snd (steps ! i)))" by (rule step_of_node)
      moreover have "sr_step r = fst (steps ! i)" using inv[OF named.worker_invariant_axioms] i by (auto simp: entry_named_def)
      moreover have "once_only (en_doc env) (snd (steps ! i)) \<longrightarrow> sr_attempts r = 1"
        using inv[OF once.worker_invariant_axioms] i by (auto simp: worker_once_def)
      ultimately show ?thesis by (auto simp: counted_once_def)
    qed
    moreover obtain stop t where "report_block env (map fst steps) ws v = (Inr stop, t)" "st_steps t = st_steps v @ entries ws"
      using report_block_result[of "map fst steps" ws env v] ws(2) by auto
    ultimately show ?thesis using run_parallel_workers[OF st ws(1)] ws(3) by (auto simp: keeps_counts_def)
  qed
qed

lemma run_counts: "moves (keeps_counts (en_doc env)) (run_items env ids)"
proof (rule counts.flow_items)
  show "moves (keeps_counts (en_doc env)) (run_step_item env nm cs)" if "node_of (en_doc env) nid = Some (WorkflowStep nm cs)" for nid nm cs
    using that by (rule step_counts)
  show "moves (keeps_counts (en_doc env)) (run_parallel env nid cs)" for nid cs
    by (rule block_counts)
  show "keeps_counts (en_doc env) s (s\<lparr>st_skipped := st_skipped s @ [k]\<rparr>)" for s k
    by (rule keeps_counts_same) simp
qed

text \<open>
  C39: a step with an effect that a retry would do twice - a row created, a request sent over the network, an
  event emitted - or with a rejection is attempted once. Of every run that answers, whatever the policy says
  about retries, a record under the name of such a step counts one attempt, whether it ran in sequence or in
  a \<open>parallel\<close> block under any schedule.
\<close>

theorem unsafe_step_runs_once:
  assumes "run_workflow cf wid payload ctx s = (Inr res, t)" and "r \<in> set (rr_steps res)"
    and "\<forall>i cs. node_of (cf_doc cf) i = Some (WorkflowStep (sr_step r) cs) \<longrightarrow>
      (\<exists>c \<in> set cs. \<exists>e. node_of (cf_doc cf) c = Some (Effect e) \<and> must_not_repeat e)"
  shows "sr_attempts r = 1"
  using assms(1)
proof (cases rule: run_workflow_cases)
  case (2 nm ids con c)
  let ?env = "run_env cf con c payload (now_of s)"
  from 2(4) obtain s1 stop s2 where b: "begin_run (fresh_run (s\<lparr>st_ops := []\<rparr>)) = (Inr (), s1)"
    and i: "run_items ?env ids s1 = (Inr stop, s2)" and st: "rr_steps res = st_steps s2"
    by (rule run_body_result)
  from begin_run_same[OF b] have "st_steps s1 = []" by (auto simp: fresh_run_def)
  moreover have "keeps_counts (en_doc ?env) s1 s2" using run_counts[of ?env ids] i by (metis moves_def snd_conv)
  moreover have "en_doc ?env = cf_doc cf" by (simp add: run_env_def)
  ultimately have "counted_once (cf_doc cf) r" using st assms(2) by (simp add: keeps_counts_def)
  with assms(3) show ?thesis unfolding counted_once_def once_only_def by blast
qed simp

text \<open>A refused request under \<open>retry 2\<close>, in a block.\<close>

definition request_doc :: document where
  "request_doc =
    [(''w'', Workflow ''W'' [''p'']), (''p'', Concurrency [''s'', ''t'']),
     (''s'', WorkflowStep ''S'' [''n'']), (''t'', WorkflowStep ''T'' []),
     (''n'', Effect (NetworkCall \<lparr>nn_target = ''x'', nn_path_args = [], nn_body_map = [], nn_result = None\<rparr>)),
     (''q'', Policy [(''retry'', PInt 2)]), (''x'', Service ''X'' [''w''] [''q''])]"

lemma request_run:
  "(case ex_run request_doc [] (new_interpreter []) of
      (Inr res, t) \<Rightarrow> rr_failure res \<noteq> None \<and> map sr_step (rr_steps res) = [''S''] | _ \<Rightarrow> False)"
  by code_simp

theorem unsafe_step_runs_once_witness:
  "\<exists>res t r. ex_run request_doc [] (new_interpreter []) = (Inr res, t) \<and> rr_failure res \<noteq> None \<and>
     rr_steps res = [r] \<and> sr_step r = ''S'' \<and> sr_attempts r = 1"
proof -
  obtain q t where run: "ex_run request_doc [] (new_interpreter []) = (q, t)" by fastforce
  with request_run obtain res r where q: "q = Inr res" "rr_failure res \<noteq> None" "rr_steps res = [r]" "sr_step r = ''S''"
    by (auto split: sum.splits)
  from run q(1) have w: "run_workflow (ex_config request_doc) ''w'' [] [] (new_interpreter []) = (Inr res, t)"
    by (simp add: ex_run_def)
  have doc: "cf_doc (ex_config request_doc) = request_doc" by (simp add: ex_config_def)
  have "\<forall>i cs. node_of request_doc i = Some (WorkflowStep ''S'' cs) \<longrightarrow>
      (\<exists>c \<in> set cs. \<exists>e. node_of request_doc c = Some (Effect e) \<and> must_not_repeat e)"
    by (simp add: request_doc_def node_of_def)
  with unsafe_step_runs_once[OF w, of r] q(3,4) have "sr_attempts r = 1" by (simp add: doc)
  with run q show ?thesis by blast
qed

section \<open>The fuel of the retry loop\<close>

text \<open>
  Retrying ends by itself. The hundred rounds the loop is given are never used up: any more give the
  same computation, from every state.
\<close>

theorem attempt_fuel_enough:
  "attempt_loop (max_step_attempts + k) env name children 0 = attempt_loop max_step_attempts env name children 0"
proof -
  have "attempt_loop (j + k) env name children n s = attempt_loop j env name children n s"
    if "n + j = max_step_attempts" "0 < j" for j n s
    using that
  proof (induction j arbitrary: n s)
    case (Suc j)
    have rest: "(if more then bindM (advance d) (\<lambda>_. attempt_loop (j + k) env name children (Suc n)) else m) u =
        (if more then bindM (advance d) (\<lambda>_. attempt_loop j env name children (Suc n)) else m) u"
      if "retryable env children (Suc n) x = Inr more" for more d x u and m :: "(nat \<times> run_error option) run"
    proof (cases more)
      case True
      with that retryable_more[of env children "Suc n" x] have "Suc n < max_step_attempts" by simp
      with Suc.prems Suc.IH[of "Suc n"] have "attempt_loop (j + k) env name children (Suc n) v = attempt_loop j env name children (Suc n) v" for v
        by simp
      then show ?thesis by (simp add: bindM_def split: prod.split sum.split)
    qed simp
    then show ?case
      by (auto simp: bindM_def liftM_def split: prod.split sum.split option.split)
  qed simp
  from this[of 0 max_step_attempts] show ?thesis by (auto simp: max_step_attempts_def)
qed

end
