(* ===== verification/DataProps.thy ===== *)
theory DataProps
  imports RunProps
begin

text \<open>What a run shows of secrets, and what validation, seeding and samples promise of a row.\<close>

section \<open>Masking\<close>

text \<open>A field whose type is \<open>Password\<close>, directly or through a refinement of the document.\<close>

definition secret :: "document \<Rightarrow> field_decl \<Rightarrow> bool" where
  "secret doc f \<longleftrightarrow> (case map_of (refinement_index doc) (fd_type f) of Some (b, _) \<Rightarrow> b | None \<Rightarrow> fd_type f) = ''Password''"

lemma secret_masked: "f \<in> set fs \<Longrightarrow> secret doc f \<Longrightarrow> fd_name f \<in> set (masked_field_names (entity_view (refinement_index doc) fs))"
proof -
  let ?v = "view_field (refinement_index doc) f"
  assume f: "f \<in> set fs" "secret doc f"
  from f(1) have "?v \<in> view_field (refinement_index doc) ` set fs" by (rule imageI)
  moreover from f(2) have "field_base ?v = ''Password''" by (simp add: view_field_def field_base_def secret_def)
  ultimately have "?v \<in> set (filter (\<lambda>g. field_base g \<in> set masked_types) (entity_view (refinement_index doc) fs))"
    by (simp add: entity_view_def masked_types_def)
  then have "fd_name ?v \<in> set (masked_field_names (entity_view (refinement_index doc) fs))"
    unfolding masked_field_names_def set_map by (rule imageI)
  then show ?thesis by (simp add: view_field_def)
qed

lemma map_of_filter_key: "P k \<Longrightarrow> map_of (filter (\<lambda>(j, _). P j) d) k = map_of d k"
  by (induction d) auto

lemma mask_payload_hides:
  assumes "f \<in> set fs" and "secret doc f" and "mask_payload (PDict d) (Some (entity_view (refinement_index doc) fs)) = PDict row"
    and "dget row (fd_name f) = Some v"
  shows "v = PStr mask_text"
proof -
  from assms(3) have "row = map (\<lambda>(k, v). (k, if k \<in> set (masked_field_names (entity_view (refinement_index doc) fs)) then PStr mask_text else v)) d"
    by (auto simp: mask_payload_def split: if_splits)
  with map_of_SomeD[OF assms(4)] secret_masked[OF assms(1,2)] show ?thesis by auto
qed

text \<open>
  C13: a result shows no secret. Under every binding name of an entity, what \<open>run_workflow\<close> returns for a
  \<open>Password\<close> field of that entity, or for one whose type refines \<open>Password\<close>, is the mask.
\<close>

theorem bindings_hide_secrets:
  assumes "run_workflow cf wid payload ctx s = (Inr res, t)"
    and "(b, PDict row) \<in> set (rr_bindings res)"
    and "entity_for_binding (cf_doc cf) b = Some e" and "entity_fields (cf_doc cf) e = Some fs"
    and "f \<in> set fs" and "secret (cf_doc cf) f" and "dget row (fd_name f) = Some v"
  shows "v = PStr ''***''"
  using assms(1)
proof (cases rule: run_workflow_cases)
  case (2 nm ids con c)
  let ?env = "run_env cf con c payload (now_of s)"
  from 2(4) obtain u start terms where "finish_run ?env nm start terms u = (Inr res, t)"
    by (auto simp: run_body_def bindM_def split: sum.splits prod.splits)
  then have "rr_bindings res = masked_bindings ?env u" by (auto simp: finish_run_def Let_def split: prod.splits)
  with assms(2) obtain a where "mask_payload (deref u a) (binding_view ?env u b a) = PDict row"
    by (auto simp: masked_bindings_def)
  moreover have "binding_view ?env u b a = Some (entity_view (refinement_index (cf_doc cf)) fs)"
    using assms(3,4) by (simp add: binding_view_def run_env_def view_of_def)
  ultimately show ?thesis
    using mask_payload_hides[OF assms(5,6) _ assms(7)] by (simp add: deref_def mask_text_def)
qed simp

lemma masked_secret:
  "k \<in> set (masked_field_names (entity_view (refinement_index doc) fs)) \<longleftrightarrow> (\<exists>f \<in> set fs. fd_name f = k \<and> secret doc f)"
  using secret_masked[of _ fs doc]
  by (auto simp: masked_field_names_def entity_view_def view_field_def field_base_def secret_def masked_types_def)

lemma input_masked_secret:
  "k \<in> set (input_masked_names doc) \<longleftrightarrow>
     (\<exists>e nm fs f. (e, Entity nm fs) \<in> set doc \<and> f \<in> set fs \<and> fd_name f = k \<and> secret doc f)"
proof -
  have "(e, nm, fs) \<in> set (doc_entities doc) \<longleftrightarrow> (e, Entity nm fs) \<in> set doc" for e nm fs
    by (force simp: doc_entities_def split: node.splits)
  then show ?thesis by (auto simp: input_masked_names_def masked_secret) blast
qed

text \<open>
  C32: a network call that maps no fields sends the payload without its secrets, and nothing else is missing:
  under a key that some entity of the document declares with a type that is or refines \<open>Password\<close> the body has
  no value, and under every other key it has the value of the payload.
\<close>

theorem network_body_hides_secrets:
  assumes "net_request env s n = Inr q" and "nn_body_map n = []"
  shows "\<exists>d. nc_body q = PDict d \<and>
    (\<forall>k. dget d k =
      (if \<exists>e nm fs f. (e, Entity nm fs) \<in> set (en_doc env) \<and> f \<in> set fs \<and> fd_name f = k \<and> secret (en_doc env) f
       then None else dget (en_payload env) k))"
proof -
  let ?d = "filter (\<lambda>(k, _). k \<notin> set (input_masked_names (en_doc env))) (en_payload env)"
  from assms have b: "nc_body q = PDict ?d"
    by (auto simp: net_request_def bindE_iffs request_body_def omit_masked_fields_def)
  have "k \<in> set (input_masked_names (en_doc env)) \<Longrightarrow> dget ?d k = None" for k
    by (auto simp: map_of_eq_None_iff)
  moreover have "k \<notin> set (input_masked_names (en_doc env)) \<Longrightarrow> dget ?d k = dget (en_payload env) k" for k
    by (rule map_of_filter_key)
  ultimately have "dget ?d k = (if k \<in> set (input_masked_names (en_doc env)) then None else dget (en_payload env) k)" for k
    by simp
  with b show ?thesis unfolding input_masked_secret by blast
qed

text \<open>A created user whose password is bound, and a request of the same document.\<close>

definition secret_doc :: document where
  "secret_doc =
    [(''e'', Entity ''U'' [ex_field ''id'' ''Text'', ex_field ''pw'' ''Pin'']),
     (''p'', Refinement ''Pin'' ''Password'' (no_facets\<lparr>ft_min_length := Some 1\<rparr>)),
     (''w'', Workflow ''W'' [''s'']), (''s'', WorkflowStep ''S'' [''c'']),
     (''c'', Effect (RepositoryCall (ex_call ''e'' ''create'' (Some ''u''))))]"

lemma secret_run:
  "(case ex_run secret_doc [(''id'', PStr ''1''), (''pw'', PStr ''s'')] (new_interpreter []) of
      (Inr res, t) \<Rightarrow> rr_bindings res = [(''u'', PDict [(''id'', PStr ''1''), (''pw'', PStr ''***'')])]
    | _ \<Rightarrow> False) \<and> entity_for_binding secret_doc ''u'' = Some ''e'' \<and> secret secret_doc (ex_field ''pw'' ''Pin'')"
  by code_simp

theorem bindings_hide_secrets_witness:
  "\<exists>res t row. ex_run secret_doc [(''id'', PStr ''1''), (''pw'', PStr ''s'')] (new_interpreter []) = (Inr res, t) \<and>
     (''u'', PDict row) \<in> set (rr_bindings res) \<and> dget row ''pw'' = Some (PStr ''***'')"
proof -
  obtain q t where run: "ex_run secret_doc [(''id'', PStr ''1''), (''pw'', PStr ''s'')] (new_interpreter []) = (q, t)" by fastforce
  with secret_run obtain res row v where q: "q = Inr res" "(''u'', PDict row) \<in> set (rr_bindings res)" "dget row ''pw'' = Some v"
    by (auto split: sum.splits)
  with run have r: "run_workflow (ex_config secret_doc) ''w'' [(''id'', PStr ''1''), (''pw'', PStr ''s'')] [] (new_interpreter []) = (Inr res, t)"
    by (simp add: ex_run_def)
  have doc: "cf_doc (ex_config secret_doc) = secret_doc" by (simp add: ex_config_def)
  have fs: "entity_fields secret_doc ''e'' = Some [ex_field ''id'' ''Text'', ex_field ''pw'' ''Pin'']"
    by (simp add: entity_fields_def node_of_def secret_doc_def)
  have "dget row (fd_name (ex_field ''pw'' ''Pin'')) = Some v" using q(3) by (simp add: ex_field_def)
  with bindings_hide_secrets[OF r q(2), of "''e''" _ "ex_field ''pw'' ''Pin''" v] secret_run fs
  have "v = PStr ''***''" by (simp add: doc)
  with run q show ?thesis by blast
qed

theorem network_body_hides_secrets_witness:
  "\<exists>q d. net_request (run_env (ex_config secret_doc) no_constraints [] [(''id'', PStr ''1''), (''pw'', PStr ''s'')] 0)
      (new_interpreter []) \<lparr>nn_target = ''x'', nn_path_args = [], nn_body_map = [], nn_result = None\<rparr> = Inr q \<and>
     nc_body q = PDict d \<and> dget d ''pw'' = None \<and> dget d ''id'' = Some (PStr ''1'')"
proof -
  let ?env = "run_env (ex_config secret_doc) no_constraints [] [(''id'', PStr ''1''), (''pw'', PStr ''s'')] 0"
  let ?n = "\<lparr>nn_target = ''x'', nn_path_args = [], nn_body_map = [], nn_result = None\<rparr>"
  let ?hidden = "\<lambda>k. \<exists>e nm fs f. (e, Entity nm fs) \<in> set secret_doc \<and> f \<in> set fs \<and> fd_name f = k \<and> secret secret_doc f"
  obtain q where q: "net_request ?env (new_interpreter []) ?n = Inr q" by (simp add: net_request_def)
  have "normalize_optional_nulls secret_doc [(''id'', PStr ''1''), (''pw'', PStr ''s'')] = [(''id'', PStr ''1''), (''pw'', PStr ''s'')]"
    by code_simp
  then have env: "en_doc ?env = secret_doc" "en_payload ?env = [(''id'', PStr ''1''), (''pw'', PStr ''s'')]"
    by (simp_all add: run_env_def ex_config_def)
  from network_body_hides_secrets[OF q, unfolded env] obtain d where d: "nc_body q = PDict d"
    "\<forall>k. dget d k = (if ?hidden k then None else dget [(''id'', PStr ''1''), (''pw'', PStr ''s'')] k)"
    by auto
  have "(''e'', Entity ''U'' [ex_field ''id'' ''Text'', ex_field ''pw'' ''Pin'']) \<in> set secret_doc" by (simp add: secret_doc_def)
  moreover have "fd_name (ex_field ''pw'' ''Pin'') = ''pw''" by (simp add: ex_field_def)
  ultimately have "?hidden ''pw''" using secret_run by fastforce
  moreover have "\<not> ?hidden ''id''" by (auto simp: secret_doc_def ex_field_def secret_def refinement_index_def)
  ultimately show ?thesis using q d by simp
qed

section \<open>Validated payloads\<close>

lemma eachE_iff: "eachE f xs = Inr () \<longleftrightarrow> (\<forall>x \<in> set xs. f x = Inr ())"
  by (induction xs) (auto simp: bindE_iffs)

lemma guard_that_iff: "guard_that b e = Inr () \<longleftrightarrow> b"
  by (simp add: guard_that_def)

lemma fold_dget:
  assumes "distinct (map fd_name fs)" and "f \<in> set fs"
    and g: "\<And>g row. fd_name g \<noteq> fd_name f \<Longrightarrow> dget (step g row) (fd_name f) = dget row (fd_name f)"
  shows "\<exists>row. dget row (fd_name f) = dget start (fd_name f) \<and> dget (fold step fs start) (fd_name f) = dget (step f row) (fd_name f)"
  using assms(1,2)
proof (induction fs arbitrary: start)
  case (Cons h fs)
  have rest: "fd_name f \<notin> fd_name ` set hs \<Longrightarrow> dget (fold step hs r) (fd_name f) = dget r (fd_name f)" for hs r
    by (induction hs arbitrary: r) (auto simp: g)
  show ?case
  proof (cases "h = f")
    case True
    with Cons.prems rest[of fs "step f start"] show ?thesis by auto
  next
    case False
    with Cons.prems have "f \<in> set fs" "fd_name h \<noteq> fd_name f" by (auto dest: imageI[of f _ fd_name])
    with Cons.prems Cons.IH[of "step h start"] g[of h start] show ?thesis by simp
  qed
qed simp

lemma seed_field_other: "fd_name g \<noteq> n \<Longrightarrow> dget (seed_field fills payload g row) n = dget row n"
  by (auto simp: seed_field_def dget_dset split: option.split)

lemma fill_values_names:
  assumes "fill_values env e = Inr fills" and "entity_fields (en_doc env) e = Some fs" and "distinct (map fd_name fs)"
    and "f \<in> set fs" and "fd_fill f = None"
  shows "\<not> dhas fills (fd_name f)"
proof
  assume "dhas fills (fd_name f)"
  then obtain v where "(fd_name f, v) \<in> set fills" by (auto simp: dhas_iff)
  with assms(1,2) obtain g where g: "g \<in> set fs" "fd_fill g \<noteq> None" "fd_name g = fd_name f"
    by (auto simp: fill_values_def dest!: mapE_mem split: option.splits)
  with assms(3,4) have "g = f" by (auto simp: distinct_map dest: inj_onD)
  with g assms(5) show False by simp
qed

lemma seeded_row_dget:
  assumes "distinct (map fd_name fs)" and "f \<in> set fs" and "\<not> dhas fills (fd_name f)"
  shows "\<exists>row. dget (seeded_row (Some fs) fills payload key) (fd_name f) = dget (seed_field fills payload f row) (fd_name f) \<and>
    (dget row (fd_name f) = None \<or> dget row (fd_name f) = Some (pget payload (fd_name f)))"
proof -
  let ?start = "if declares_id (Some fs)
     then [(''id'', if dhas fills ''id'' then pget fills ''id'' else pget payload ''id'')] else [(''id'', PStr key)]"
  obtain row where "dget row (fd_name f) = dget ?start (fd_name f)"
    "dget (fold (seed_field fills payload) fs ?start) (fd_name f) = dget (seed_field fills payload f row) (fd_name f)"
    using fold_dget[OF assms(1,2), of "seed_field fills payload" ?start] seed_field_other by blast
  moreover have "dget ?start (fd_name f) = None \<or> dget ?start (fd_name f) = Some (pget payload (fd_name f))"
    using assms(2,3) by (auto simp: declares_id_def list_ex_iff)
  ultimately show ?thesis unfolding seeded_row_def Let_def option.case by auto
qed

text \<open>
  C29: what validation accepts, \<open>create\<close> stores well-shaped. When a payload passed \<open>validate\<close> for an entity,
  the row seeded from it has no missing field and no field of the wrong type by the judgement a later
  read applies, whatever the server fills in for its derived fields.
\<close>

theorem validated_row_well_shaped:
  assumes "validate_effect search (en_doc env) refs e ''semantic-types'' payload = Inr ()"
    and "entity_fields (en_doc env) e = Some fs" and "distinct (map fd_name fs)"
    and "\<forall>f \<in> set fs. fd_fill f \<noteq> None \<longrightarrow> fd_derived f"
    and "fill_values env e = Inr fills"
  shows "row_shape_mismatches search refs fs (seeded_row (Some fs) fills payload key) = Inr []"
proof -
  let ?row = "seeded_row (Some fs) fills payload key"
  have v: "validate_field search refs payload f = Inr ()" if "f \<in> set fs" for f
    using assms(1,2) that by (simp add: validate_effect_def eachE_iff)
  have "field_mismatch search refs ?row f = Inr []" if f: "f \<in> set fs" for f
  proof (cases "fd_derived f")
    case True
    then show ?thesis by (simp add: field_mismatch_def)
  next
    case False
    with assms(4) f have fill: "fd_fill f = None" by blast
    have nofill: "\<not> dhas fills (fd_name f)"
      using fill_values_names[OF assms(5,2,3) f fill] .
    obtain row where row: "dget ?row (fd_name f) = dget (seed_field fills payload f row) (fd_name f)"
      and start: "dget row (fd_name f) = None \<or> dget row (fd_name f) = Some (pget payload (fd_name f))"
      using seeded_row_dget[OF assms(3) f nofill] by blast
    consider (absent) "fd_optional f" "absent_or_null payload (fd_name f)"
      | (present) w where "dget payload (fd_name f) = Some w" "\<not> (fd_optional f \<and> w = PNone)"
        "check_semantic_type search refs (fd_type f) w (fd_name f) = Inr ()"
      using v[OF f] False
      by (auto simp: validate_field_def check_present_def absent_or_null_def split: if_splits option.splits)
    then show ?thesis
    proof cases
      case absent
      then have "dget ?row (fd_name f) = dget row (fd_name f)" "pget payload (fd_name f) = PNone"
        using row fill False by (auto simp: seed_field_def absent_or_null_def pget_def split: option.splits)
      with start absent(1) show ?thesis by (auto simp: field_mismatch_def pget_def dhas_map_of)
    next
      case present
      then have "dget ?row (fd_name f) = Some w"
        using row fill False by (auto simp: seed_field_def dget_dset)
      with present show ?thesis by (auto simp: field_mismatch_def pget_def dhas_map_of False)
    qed
  qed
  then have "mapE (field_mismatch search refs ?row) fs = Inr (map (\<lambda>_. []) fs)"
    by (rule mapE_map_Inr)
  then show ?thesis by (simp add: row_shape_mismatches_def)
qed

theorem validated_row_well_shaped_witness:
  "row_shape_mismatches (\<lambda>_ _. True) (refinement_index bound_doc) [ex_field ''id'' ''Text'', ex_field ''a'' ''P'']
     (seeded_row (Some [ex_field ''id'' ''Text'', ex_field ''a'' ''P'']) [] (bound_payload ''2'') ''e#1'') = Inr []"
proof (rule validated_row_well_shaped)
  let ?env = "run_env (ex_config bound_doc) no_constraints [] [] 0"
  show "validate_effect (\<lambda>_ _. True) (en_doc ?env) (refinement_index bound_doc) ''e'' ''semantic-types'' (bound_payload ''2'') = Inr ()"
    by code_simp
  show "entity_fields (en_doc ?env) ''e'' = Some [ex_field ''id'' ''Text'', ex_field ''a'' ''P'']" by code_simp
  show "fill_values ?env ''e'' = Inr []" by code_simp
qed (simp_all add: ex_field_def)

section \<open>Samples\<close>

lemma first_valid_ok: "first_valid check vs = Inr (Some v) \<Longrightarrow> check v = Inr ()"
  by (induction vs) (auto split: if_splits sum.splits run_exc.splits)

lemma base_samples_ok: "list_all (\<lambda>(n, v). v \<noteq> PNone \<and> base_check n v ''sample'' = Inr ()) sample_values"
  by code_simp

text \<open>The name of the field only shows in messages.\<close>

lemma check_names:
  "base_check ty v n = Inr () \<longleftrightarrow> base_check ty v m = Inr ()"
  "check_facets search b fs v n ty = Inr () \<longleftrightarrow> check_facets search b fs v m ty = Inr ()"
  "check_semantic_type search refs ty v n = Inr () \<longleftrightarrow> check_semantic_type search refs ty v m = Inr ()"
proof -
  show base: "base_check ty v n = Inr () \<longleftrightarrow> base_check ty v m = Inr ()" for ty
    by (auto simp: base_check_def split: option.splits prod.splits check.splits if_splits)
  have bound: "check_bound b l v n ty = Inr () \<longleftrightarrow> check_bound b l v m ty = Inr ()" for b l
    by (auto simp: check_bound_def bindE_iffs guard_that_iff split: option.splits)
  have inr: "bindE a f = Inr () \<longleftrightarrow> a = Inr () \<and> f () = Inr ()" for a :: "run_exc + unit" and f :: "unit \<Rightarrow> run_exc + unit"
    by (auto simp: bindE_iffs)
  have enum: "check_enum fs v n ty = Inr () \<longleftrightarrow> check_enum fs v m ty = Inr ()" for fs
    by (auto simp: check_enum_def guard_that_iff split: option.splits)
  have tx: "check_text search fs t n ty = Inr () \<longleftrightarrow> check_text search fs t m ty = Inr ()" for fs t
    by (simp add: check_text_def inr guard_that_iff)
  show facets: "check_facets search b fs v n ty = Inr () \<longleftrightarrow> check_facets search b fs v m ty = Inr ()" for b fs
    unfolding check_facets_def inr using bound enum tx by (auto simp: inr split: option.splits category.splits)
  show "check_semantic_type search refs ty v n = Inr () \<longleftrightarrow> check_semantic_type search refs ty v m = Inr ()"
    unfolding check_semantic_type_def using base facets by (auto simp: inr split: option.splits)
qed

lemma sample_ok:
  assumes "sample_for_type search refs ty = Inr (Some v)" shows "check_semantic_type search refs ty v n = Inr ()"
proof (cases "map_of refs ty")
  case None
  with assms have s: "map_of sample_values ty = Some v" by (simp add: sample_for_type_def)
  with base_samples_ok have "v \<noteq> PNone \<and> base_check ty v ''sample'' = Inr ()"
    using map_of_SomeD[OF s] by (auto simp: list_all_iff)
  with None check_names(1) show ?thesis by (simp add: check_semantic_type_def) blast
next
  case (Some p)
  with assms obtain cs where "first_valid (\<lambda>v. check_semantic_type search refs ty v ''sample'') cs = Inr (Some v)"
    by (auto simp: sample_for_type_def bindE_iffs split: prod.splits)
  from first_valid_ok[OF this] check_names(3) show ?thesis by blast
qed

lemma sample_fields_other:
  "foldE (sample_field search refs) fs row = Inr row' \<Longrightarrow> n \<notin> fd_name ` set fs \<Longrightarrow> dget row' n = dget row n"
  by (induction fs arbitrary: row) (auto simp: sample_field_def bindE_iffs dget_dset split: option.splits if_splits)

text \<open>
  A sample is valid. When every type of an entity has a sample, the payload that \<open>sample_payload\<close> builds
  for it passes the entity's own validation: derived fields are left out and every other field holds a
  value its type accepts, facets of refinements included.
\<close>

theorem sample_payload_validates:
  assumes "sample_payload search refs [fs] = Inr payload" and "distinct (map fd_name fs)"
    and "\<forall>f \<in> set fs. fd_derived f \<or> (\<exists>v. sample_for_type search refs (fd_type f) = Inr (Some v))"
    and "entity_fields doc e = Some fs"
  shows "validate_effect search doc refs e ''semantic-types'' payload = Inr ()"
proof -
  have "validate_field search refs payload f = Inr ()"
    if "foldE (sample_field search refs) gs row = Inr payload" "f \<in> set gs" "distinct (map fd_name gs)"
      "\<forall>g \<in> set gs. dget row (fd_name g) = None" "set gs \<subseteq> set fs" for gs row f
    using that
  proof (induction gs arbitrary: row)
    case (Cons g gs)
    obtain row1 where r1: "sample_field search refs g row = Inr row1" and rest: "foldE (sample_field search refs) gs row1 = Inr payload"
      using Cons.prems(1) by (auto simp: bindE_iffs)
    have other: "dget row1 n = dget row n" if "n \<noteq> fd_name g" for n
      using r1 that by (auto simp: sample_field_def bindE_iffs dget_dset split: option.splits if_splits)
    have here: "dget payload (fd_name g) = dget row1 (fd_name g)"
      using sample_fields_other[OF rest] Cons.prems(3) by simp
    show ?case
    proof (cases "f = g")
      case False
      have "fd_name h \<noteq> fd_name g" if "h \<in> set gs" for h
        using Cons.prems(3) imageI[OF that, of fd_name] by auto
      with False Cons.prems other show ?thesis by (intro Cons.IH[OF rest]) auto
    next
      case True
      show ?thesis
      proof (cases "fd_derived g")
        case True
        with r1 have "row1 = row" by (simp add: sample_field_def)
        with Cons.prems(4) here \<open>f = g\<close> True show ?thesis
          by (simp add: validate_field_def guard_that_def dhas_map_of)
      next
        case False
        with assms(3) Cons.prems(5) obtain v where v: "sample_for_type search refs (fd_type g) = Inr (Some v)" by auto
        with r1 False have "dget row1 (fd_name g) = Some v" by (auto simp: sample_field_def dget_dset)
        with here False sample_ok[OF v, of "fd_name g"] \<open>f = g\<close> show ?thesis
          by (simp add: validate_field_def check_present_def)
      qed
    qed
  qed simp
  from this[of fs "[]"] assms show ?thesis
    by (simp add: validate_effect_def eachE_iff sample_payload_def)
qed

theorem sample_payload_validates_witness:
  "\<exists>p. sample_payload (\<lambda>_ _. True) (refinement_index bound_doc) [[ex_field ''id'' ''Text'', ex_field ''a'' ''P'']] = Inr p \<and>
     validate_effect (\<lambda>_ _. True) bound_doc (refinement_index bound_doc) ''e'' ''semantic-types'' p = Inr ()"
proof -
  let ?fs = "[ex_field ''id'' ''Text'', ex_field ''a'' ''P'']" and ?p = "[(''id'', PStr ''text''), (''a'', PStr ''1'')]"
  have p: "sample_payload (\<lambda>_ _. True) (refinement_index bound_doc) [?fs] = Inr ?p"
    and f: "entity_fields bound_doc ''e'' = Some ?fs"
    and s: "sample_for_type (\<lambda>_ _. True) (refinement_index bound_doc) ''Text'' = Inr (Some (PStr ''text''))"
      "sample_for_type (\<lambda>_ _. True) (refinement_index bound_doc) ''P'' = Inr (Some (PStr ''1''))"
    by code_simp+
  have "validate_effect (\<lambda>_ _. True) bound_doc (refinement_index bound_doc) ''e'' ''semantic-types'' ?p = Inr ()"
    by (rule sample_payload_validates[OF p _ _ f]) (use s in \<open>auto simp: ex_field_def\<close>)
  with p show ?thesis by blast
qed

section \<open>Runs that break what the store promises\<close>

text \<open>
  A rejected run leaves its write in the cache. The first run caches the order it read; the second
  reads it from the cache, assigns to it and is rejected. Afterwards the store holds the old value again
  and the cache entry, which is the row object itself, still holds the assigned one.
\<close>

theorem rolled_back_write_stays_cached:
  "case ex_run cached_doc [(''id'', PStr ''1'')] (new_interpreter cached_seed) of (_, t1) \<Rightarrow>
   (case run_workflow (ex_config cached_doc) ''v'' [(''id'', PStr ''1'')] [] t1 of (Inr res, t2) \<Rightarrow>
       rr_failure res = Some (StepFailed ''T'' (Rejected ''no'')) \<and>
       stored t2 = [(''e'', [(''e#1'', [(''id'', PStr ''1''), (''a'', PInt 1)])])] \<and>
       map (\<lambda>(k, a, _). (k, row_at (st_objs t2) a)) (ch_store (st_cache t2)) =
         [(''e#1'', [(''id'', PStr ''1''), (''a'', PInt 5)])]
     | _ \<Rightarrow> False)"
  by code_simp

text \<open>
  Assigning to a created row whose id the server generated writes another row. The run completes;
  the row of the generated key keeps the old value and the new one is stored under the key \<open>-\<close>, the one
  of a payload without an id.
\<close>

theorem generated_id_write_misses_row:
  "case ex_run generated_doc [(''a'', PInt 1)] (new_interpreter []) of
     (Inr res, t) \<Rightarrow> rr_failure res = None \<and>
       stored t = [(''e'', [(''e#u'', [(''id'', PStr ''u''), (''a'', PInt 1)]),
                            (''e#-'', [(''id'', PStr ''u''), (''a'', PInt 5)])])]
   | _ \<Rightarrow> False"
  by code_simp

end
