(* ===== verification/Spec2Isabelle.thy ===== *)
theory Spec2Isabelle
  imports CompileProps CycleFacts NetProps Drivers RouteProps GrammarProps ParserFacts MoneyAvg EvalFacts RunProps FlowProps ParallelProps QueryProps DataProps RepoPolicy
begin

text \<open>
  Linkly compiles LNPL, a line-oriented language for entities, services and workflows, to a semantic IR and
  runs the workflows of that IR, alone or behind HTTP. This development models the front end that turns text
  into declarations and conditions, the lowering to the IR, the values the runtime computes with, the runtime
  itself, the SQLite repository, the network and token drivers and the request handling of the server, in
  Isabelle definitions translated from \<open>src/impl/lnpl/\<close>, and proves what makes them correct.

  \<^bold>\<open>How the parts fit.\<close> \<open>lexer.py\<close> cuts the source into lines of tokens, \<open>parser.py\<close> builds declarations and
  workflow bodies from them and hands every guard and assignment text to \<open>condition.py\<close>. \<open>lower.py\<close> turns the
  declarations into a document of IR nodes, checks it and derives the effects of every step; \<open>cli.py\<close> loads the
  sources for it.
  \<open>Interpreter.run_workflow\<close> of \<open>interp.py\<close> walks the nodes under a workflow: \<open>_flatten_items\<close> decides which
  steps run, the retry loop runs each of them, \<open>_run_effect\<close> executes its effects on a repository, a cache, a
  network driver and an outbox, and a transaction around the whole run commits or rolls back.
  \<open>repo_policy.py\<close> derives the default seed of the repository from the document. \<open>drivers.py\<close> holds the SQLite
  repository that can stand in for the in-memory one, the resilient network calls and the token providers;
  \<open>wsgi.py\<close> derives the routes of a server from the document and answers each request with a run of a workflow
  or a read of the repository.

  \<^bold>\<open>Front end.\<close>
  \<^item> \<open>Prelude\<close>, \<open>PyStr\<close>, \<open>PyNum\<close>, \<open>PyVal\<close>: results with an error side, dictionaries in insertion order, the
    string, integer and decimal operations of Python the source uses, JSON values.
  \<^item> \<open>Lexer\<close>: \<open>tokenize\<close>, the word tables, durations. \<open>Condition\<close>, \<open>Instants\<close>: the condition grammar, its
    canonical texts, ISO instants. \<open>Body\<close>, \<open>Parser\<close>: workflow bodies over a heap of blocks, \<open>parse\<close>.
  \<^item> \<open>ConditionFacts\<close>, \<open>InstantFacts\<close>, \<open>BodyFacts\<close>, \<open>ParserFacts\<close>, \<open>GrammarProps\<close>: the tokenizer meets its
    specification, parsed sources keep every line, guards of a parsed workflow are closed, texts and
    instants round-trip, and which errors can be raised.

  \<^bold>\<open>Lowering.\<close>
  \<^item> \<open>Lowered\<close>: identifiers, IR nodes with the keys the code writes, the registry, diagnostics as code, place,
    subject and line. \<open>Clauses\<close>, \<open>TypeDecls\<close>, \<open>ListClauses\<close>: the lines of declarations. \<open>EffectSteps\<close>,
    \<open>StepPlans\<close>: \<open>_derive_effect\<close> and the planner \<open>_WfContext\<close>, whose state is a record. \<open>DocScope\<close>,
    \<open>ScopeChecks\<close>, \<open>BodyChecks\<close>, \<open>ConsumeCycles\<close>: the checks. \<open>Lowering\<close>: \<open>lower\<close>; \<open>Loader\<close>: \<open>compile_sources\<close>,
    over an argument for what is on disk.
  \<^item> \<open>PlanFacts\<close>, \<open>LowerFacts\<close>, \<open>PlanForest\<close>, \<open>Compiled\<close>, \<open>BodyDepth\<close>, \<open>RunTypes\<close>, \<open>LowerProps\<close>, \<open>CompileProps\<close>: what
    compiles is well-formed, its bodies are forests of bounded depth, and a run of it meets no error of its
    document. \<open>CycleFacts\<close>: the cycle search is exact.

  \<^bold>\<open>Values.\<close>
  \<^item> \<open>Money\<close> (\<open>money.py\<close>), \<open>Values\<close>, \<open>Aggregates\<close> (\<open>interp.py\<close>): minor-unit money with the decimal context
    written out, reference resolution, evaluation with the signed 64-bit bound as a run error, comparisons,
    aggregates, \<open>format\<close>, masking. Integers are Python's, unbounded, with the bound the code checks.
  \<^item> \<open>MoneyFacts\<close>, \<open>MoneyAvg\<close>, \<open>EvalFacts\<close>: exactness, half-even averages, bounds, error behaviour.

  \<^bold>\<open>Runtime.\<close>
  \<^item> \<open>Nodes\<close>: a document is the list of its nodes; a node dictionary is a constructor with the keys the code
    reads. \<open>Validate\<close>: the tables of \<open>types.py\<close> and \<open>refinements.py\<close> and the checks over them.
  \<^item> \<open>Store\<close>: a row is a Python object shared between table, binding and cache and mutated in place, so
    tables, bindings and caches hold addresses into a heap of rows. \<open>FakeRepository\<close>, \<open>FakeCache\<close>, \<open>Clock\<close>,
    the list predicate.
  \<^item> \<open>Machine\<close>: the state of an interpreter and computations over it, which return a value or an exception and
    the state they leave. \<open>run_error\<close> is the \<open>RunError\<close> with what its message distinguishes; every other
    exception is \<open>Escaped\<close>, because the runtime treats the two differently (a \<open>KeyError\<close> of the node table has a
    constructor of its own).
  \<^item> \<open>Effects\<close> (\<open>_run_effect\<close>), \<open>Steps\<close> (retries), \<open>Parallel\<close> (blocks), \<open>Flow\<close> (guards, loops, pipelines),
    \<open>Workflow\<close> (\<open>run_workflow\<close>), \<open>RepoPolicy\<close> (\<open>repo_policy.py\<close>, \<open>resolve.py\<close>), \<open>Examples\<close> (documents that
    the witnesses execute).
  \<^item> \<open>Frame\<close>, \<open>FrameEffects\<close>: every computation of a run writes only rows it can reach or has created.
    \<open>RunFacts\<close>, \<open>RunProps\<close>: on that, a run is a transaction; retries are bounded; the outbox is a log.
  \<^item> \<open>Moves\<close>: locales for preorders that every effect, step and run respects, interpreted on what a run only
    extends, on the attempts it records and on the ids of its emissions. \<open>FlowFacts\<close>: a locale for contracts
    that steps keep and control flow passes on, interpreted on failure and on the deadline. \<open>FlowProps\<close>:
    deadlines, the account of every step, independence of the recursion limit.
  \<^item> \<open>ParallelProps\<close>: a locale for invariants of workers; under every schedule the workers of a block end and are
    recorded in order, and a step that must not be repeated is attempted once. \<open>QueryProps\<close>: a locale for strict weak orders, interpreted on Python's comparison of texts and
    of numbers; what a list returns. \<open>DataProps\<close>: secrets, validated rows, samples, and runs that break what
    the store promises.

  \<^bold>\<open>Drivers.\<close>
  \<^item> \<open>Resilience\<close>: retry and breaker of a network call over a state of clock and breakers; \<open>NetProps\<close>: what a call
    answers, and the breaker as a refinement of its three phases.
  \<^item> \<open>Sqlite\<close>: the committed file is a record of rows, outbox and claims, a connection holds the snapshot its
    transaction started from, and every method is the list of its statements. \<open>StoreProps\<close>: rollback, versions,
    outbox, and claims under every interleaving of their statements, as an inductive step relation. \<open>Drivers\<close>:
    the locale \<open>row_driver\<close> of what a run may expect of a repository, answers and contents of rows, interpreted on
    both.
  \<^item> \<open>Base64\<close>, \<open>Tokens\<close>: base64url, the HMAC provider and its rotation; \<open>TokenProps\<close>: what verifies, and which keys
    are in use.

  \<^bold>\<open>Server.\<close>
  \<^item> \<open>Web\<close>: the pure functions of \<open>wsgi.py\<close> (tags, cursors, pages, envelopes, result mapping). \<open>Serve\<close>: a request
    against the file, with the workflow as an argument that maps a payload, claims and a connection to an
    outcome. \<open>Programs\<close>: such a workflow as a program of repository calls, and what every program keeps.
    \<open>Routes\<close>: the route tables and the paths of \<open>openapi.generate\<close>.
  \<^item> \<open>WebProps\<close>, \<open>ServeProps\<close>, \<open>RouteProps\<close>: pages cover the list, a key runs once, a precondition decides, no
    path to a guarded workflow is open, the served paths are the published ones.

  \<^bold>\<open>Bounds and fuel.\<close> \<open>attempt_loop\<close> gets \<open>max_step_attempts\<close> rounds and \<open>attempt_fuel_enough\<close> shows that more
  change nothing. \<open>join_workers\<close> gets a round for every attempt left and \<open>parallel_reports_in_order\<close> shows that
  this ends every worker. \<open>until_loop\<close> counts down from the cap of the code. \<open>run_item\<close>, \<open>guarded_step_names\<close> and
  the walks of \<open>RepoPolicy\<close> stop at a depth that stands for Python's recursion limit, with the exception Python
  raises there; \<open>depth_irrelevant\<close> shows that the limit decides nothing below it. The checks of a planned body stop at
  \<open>body_depth\<close>, and \<open>body_depth_enough\<close> shows that no larger limit answers otherwise. Characters are Latin-1.

  \<^bold>\<open>Parameters.\<close> The network driver is a function of the calls made so far and the call; \<open>re.search\<close> on a user
  pattern, \<open>re.compile\<close> and \<open>float\<close> in the compiler, the files on disk, the fresh UUID, the schedule and the wall
  clock of a \<open>parallel\<close> block, JSON, HMAC and the clocks of calls, tokens and requests are arguments; a
  jittered delay is recorded by the bound it is drawn below. Of JSON and HMAC a few theorems assume that what is written can be read back, or that a MAC is a
  list of bytes. Each of these has a witness with a concrete function; nothing is assumed of the others. The workflow
  behind a request is any program of the calls \<open>interp.py\<close> makes to its repository (a pushed-down query
  is what the program computes from the rows of the entity); that it leaves the claims alone is proved.

  \<^bold>\<open>Not modelled.\<close> Texts for people: messages, suggestions, titles and details of problems. The spec grammar and
  its runner; the generated modules of mode B (\<open>backend.py\<close>); faults and lock timeouts of the SQLite engine and
  predicates pushed down into SQL; Redis and the sockets of the HTTP driver; the token bucket, which computes
  with floats; event streams, readiness, traces, logs, metrics and audit records; the command line, editor and
  agent protocols; the interleaving of two workers inside one attempt, which is possible only while a network
  call is in flight.
\<close>

end
